(* ===== verification/Prelude.thy ===== *)
theory Prelude
  imports Complex_Main "HOL-Library.Word" "HOL-Library.Stream" "HOL-Library.Multiset"
begin

text \<open>
  Shared vocabulary of the development: what a call of a Go function can do (return, panic,
  or not return at all), the arithmetic of Go's \<open>int\<close> where it differs from HOL's, and the
  lemma collections the component theories fill.

  A Go computation that draws random numbers or loops without a bound has the type
  \<open>'a go\<close>: \<open>None\<close> when it does not return, \<open>Some (Inl p)\<close> when it panics and
  \<open>Some (Inr a)\<close> when it returns \<open>a\<close>.  The option is outermost so that a loop without a
  bound is a \<open>partial_function (option)\<close>.
\<close>

named_theorems yields_intros "rules that verify a computation step by step"

section \<open>Outcomes of a Go call\<close>

datatype panic = IndexOutOfRange | DivideByZero | NilDereference | InvalidArgument | Assertion

type_synonym 'a go = "(panic + 'a) option"

abbreviation ret :: "'a \<Rightarrow> 'a go" where
  "ret a \<equiv> Some (Inr a)"

abbreviation panics :: "panic \<Rightarrow> 'a go" where
  "panics p \<equiv> Some (Inl p)"

definition go_bind :: "'a go \<Rightarrow> ('a \<Rightarrow> 'b go) \<Rightarrow> 'b go" where
  "go_bind m f = (case m of None \<Rightarrow> None | Some (Inl p) \<Rightarrow> Some (Inl p) | Some (Inr a) \<Rightarrow> f a)"

lemma go_bind_simps [simp]:
  "go_bind (ret a) f = f a"
  "go_bind (panics p) f = panics p"
  "go_bind None f = None"
  by (simp_all add: go_bind_def)

lemma go_bind_ret [simp]: "go_bind m Some = (case m of None \<Rightarrow> None | Some (Inl p) \<Rightarrow> panics p | Some (Inr a) \<Rightarrow> Some a)"
  by (simp add: go_bind_def)

lemma go_bind_assoc: "go_bind (go_bind m f) g = go_bind m (\<lambda>a. go_bind (f a) g)"
  by (simp add: go_bind_def split: option.split sum.split)

lemma go_bind_cong:
  "m = m' \<Longrightarrow> (\<And>a. m' = ret a \<Longrightarrow> f a = f' a) \<Longrightarrow> go_bind m f = go_bind m' f'"
  by (auto simp: go_bind_def split: option.split sum.split)

lemma go_bind_mono [partial_function_mono]:
  fixes B :: "('x \<Rightarrow> 'y option) \<Rightarrow> 'c go" and C :: "'c \<Rightarrow> ('x \<Rightarrow> 'y option) \<Rightarrow> 'd go"
  assumes "monotone (fun_ord option_ord) option_ord B"
    and "\<And>y. monotone (fun_ord option_ord) option_ord (\<lambda>f. C y f)"
  shows "monotone (fun_ord option_ord) option_ord (\<lambda>f. go_bind (B f) (\<lambda>y. C y f))"
proof (rule monotoneI)
  fix f g :: "'x \<Rightarrow> 'y option"
  assume fg: "fun_ord option_ord f g"
  from assms(1) fg have B: "option_ord (B f) (B g)" by (simp add: monotone_on_def)
  from assms(2) fg have C: "option_ord (C y f) (C y g)" for y by (simp add: monotone_on_def)
  show "option_ord (go_bind (B f) (\<lambda>y. C y f)) (go_bind (B g) (\<lambda>y. C y g))"
  proof (cases "B f")
    case (Some r)
    with B have "B g = Some r" by (simp add: flat_ord_def)
    with Some C show ?thesis by (cases r) (simp_all add: flat_ord_def)
  qed (simp add: flat_ord_def)
qed

lemma go_bind_eq_ret:
  "go_bind m f = ret b \<longleftrightarrow> (\<exists>a. m = ret a \<and> f a = ret b)"
  by (auto simp: go_bind_def split: option.splits sum.splits)

section \<open>What a call guarantees when it returns\<close>

text \<open>
  \<open>yields m P\<close>: the call does not panic, and if it returns, the result satisfies \<open>P\<close>.
  \<open>returns m\<close>: the call does return (or panics) instead of running forever.
\<close>

definition yields :: "'a go \<Rightarrow> ('a \<Rightarrow> bool) \<Rightarrow> bool" where
  "yields m P \<longleftrightarrow> (case m of None \<Rightarrow> True | Some (Inl p) \<Rightarrow> False | Some (Inr a) \<Rightarrow> P a)"

definition returns :: "'a go \<Rightarrow> bool" where
  "returns m \<longleftrightarrow> m \<noteq> None"

lemma yields_ret [simp, yields_intros]: "P a \<Longrightarrow> yields (ret a) P"
  by (simp add: yields_def)

lemma yields_ret_iff [simp]: "yields (ret a) P \<longleftrightarrow> P a"
  by (simp add: yields_def)

lemma yields_panic [simp]: "\<not> yields (panics p) P"
  by (simp add: yields_def)

lemma yields_None [simp]: "yields None P"
  by (simp add: yields_def)

lemma yields_bind [yields_intros]:
  "yields m (\<lambda>a. yields (f a) P) \<Longrightarrow> yields (go_bind m f) P"
  by (auto simp: yields_def go_bind_def split: option.splits sum.splits)

lemma yields_conseq: "yields m P \<Longrightarrow> (\<And>a. P a \<Longrightarrow> P' a) \<Longrightarrow> yields m P'"
  by (auto simp: yields_def split: option.splits sum.splits)

lemma yields_conj: "yields m P \<Longrightarrow> yields m P' \<Longrightarrow> yields m (\<lambda>a. P a \<and> P' a)"
  by (auto simp: yields_def split: option.splits sum.splits)

lemma yields_retD: "yields m P \<Longrightarrow> m = ret a \<Longrightarrow> P a"
  by (simp add: yields_def)

lemma yields_no_panic: "yields m P \<Longrightarrow> m \<noteq> panics p"
  by (auto simp: yields_def)

lemma yieldsI: "(\<And>p. m \<noteq> panics p) \<Longrightarrow> (\<And>a. m = ret a \<Longrightarrow> P a) \<Longrightarrow> yields m P"
  by (auto simp: yields_def split: option.splits sum.splits)

lemma yields_if [yields_intros]:
  "(c \<Longrightarrow> yields a P) \<Longrightarrow> (\<not> c \<Longrightarrow> yields b P) \<Longrightarrow> yields (if c then a else b) P"
  by simp

section \<open>Go's integers\<close>

text \<open>
  Go's \<open>int\<close> has 64 bits.  The model uses HOL's \<open>int\<close> for it; where the source relies on or
  mentions wrap-around, \<open>wrap64\<close> writes it out.  Division truncates towards zero and panics
  for a zero divisor.
\<close>

definition wrap64 :: "int \<Rightarrow> int" where
  "wrap64 x = (x + 2 ^ 63) mod 2 ^ 64 - 2 ^ 63"

definition quot_int :: "int \<Rightarrow> int \<Rightarrow> int" where
  "quot_int a b = sgn a * sgn b * (\<bar>a\<bar> div \<bar>b\<bar>)"

definition go_div :: "int \<Rightarrow> int \<Rightarrow> int go" where
  "go_div a b = (if b = 0 then panics DivideByZero else ret (quot_int a b))"

definition go_index :: "'a list \<Rightarrow> int \<Rightarrow> 'a go" where
  "go_index xs i = (if 0 \<le> i \<and> i < int (length xs) then ret (xs ! nat i) else panics IndexOutOfRange)"

lemma wrap64_id: "- (2 ^ 63) \<le> x \<Longrightarrow> x < 2 ^ 63 \<Longrightarrow> wrap64 x = x"
  by (simp add: wrap64_def)

lemma wrap64_range: "- (2 ^ 63) \<le> wrap64 x \<and> wrap64 x < 2 ^ 63"
  by (simp add: wrap64_def)

lemma quot_int_nonneg: "0 \<le> a \<Longrightarrow> 0 < b \<Longrightarrow> quot_int a b = a div b"
  by (cases "a = 0") (simp_all add: quot_int_def sgn_if)

lemma yields_go_div [yields_intros]:
  "b \<noteq> 0 \<Longrightarrow> P (quot_int a b) \<Longrightarrow> yields (go_div a b) P"
  by (simp add: go_div_def)

lemma yields_go_index [yields_intros]:
  "0 \<le> i \<Longrightarrow> i < int (length xs) \<Longrightarrow> P (xs ! nat i) \<Longrightarrow> yields (go_index xs i) P"
  by (simp add: go_index_def)

section \<open>Words\<close>

lemma unat_bound: "unat (w :: 'a::len word) < 2 ^ LENGTH('a)"
  by simp

lemma unat_ucast_id: "unat w < 2 ^ LENGTH('b) \<Longrightarrow> unat (ucast (w :: 'a::len word) :: 'b::len word) = unat w"
  by (simp add: unsigned_ucast_eq take_bit_nat_eq_self_iff take_bit_nat_eq_self)

section \<open>Lists\<close>

lemma sum_list_map_mono:
  fixes f g :: "'a \<Rightarrow> int"
  shows "(\<And>x. x \<in> set xs \<Longrightarrow> f x \<le> g x) \<Longrightarrow> sum_list (map f xs) \<le> sum_list (map g xs)"
  by (induction xs) force+

lemma sum_list_nonneg_int:
  fixes f :: "'a \<Rightarrow> int"
  shows "(\<And>x. x \<in> set xs \<Longrightarrow> 0 \<le> f x) \<Longrightarrow> 0 \<le> sum_list (map f xs)"
  by (induction xs) force+

lemma member_le_sum_list_int:
  fixes f :: "'a \<Rightarrow> int"
  shows "(\<And>x. x \<in> set xs \<Longrightarrow> 0 \<le> f x) \<Longrightarrow> x \<in> set xs \<Longrightarrow> f x \<le> sum_list (map f xs)"
  by (induction xs) (force simp: sum_list_nonneg_int)+

end
