(* ===== verification/Float64.thy ===== *)
theory Float64
  imports Prelude
begin

text \<open>
  Go's \<open>float64\<close> arithmetic.  A finite float is the rational it denotes; every operation
  computes the exact rational result and rounds it to 53 significant bits, ties to even, as
  IEEE 754 binary64 does.  The values of this program lie between 0.005 and \<open>10 ^ 9\<close> in
  magnitude (or are 0), far from the subnormal and overflow ranges, which are not modelled.
  The locale \<open>float_rounding\<close> states the two laws of a rounding function the proofs about
  float fields need; the rounding of the model is its interpretation.
\<close>

section \<open>Rounding to 53 bits\<close>

text \<open>Round to the nearest integer, ties to even.\<close>

definition round_even :: "rat \<Rightarrow> int" where
  "round_even x =
     (let f = \<lfloor>x\<rfloor>; d = x - of_int f
      in if d < 1/2 then f else if 1/2 < d then f + 1 else if even f then f else f + 1)"

fun bit_length :: "nat \<Rightarrow> nat" where
  "bit_length n = (if n = 0 then 0 else Suc (bit_length (n div 2)))"

declare bit_length.simps [simp del]

text \<open>\<open>pow2 e\<close> is \<open>2 ^ e\<close> for any integer \<open>e\<close>.\<close>

definition pow2 :: "int \<Rightarrow> rat" where
  "pow2 e = (if 0 \<le> e then 2 ^ nat e else 1 / 2 ^ nat (- e))"

text \<open>The exponent \<open>e\<close> with \<open>2 ^ 52 \<le> \<bar>x\<bar> / 2 ^ e < 2 ^ 53\<close>.\<close>

definition float_exponent :: "rat \<Rightarrow> int" where
  "float_exponent x =
     (let (n, d) = quotient_of \<bar>x\<bar>;
          k = int (bit_length (nat n)) - int (bit_length (nat d))
      in (if \<bar>x\<bar> < pow2 k then k - 53 else k - 52))"

definition fl64 :: "rat \<Rightarrow> rat" where
  "fl64 x = (if x = 0 then 0
             else let e = float_exponent x in of_int (round_even (x / pow2 e)) * pow2 e)"

section \<open>The operations the source uses\<close>

definition float_of_int :: "int \<Rightarrow> rat" where "float_of_int n = fl64 (of_int n)"
definition float_mul :: "rat \<Rightarrow> rat \<Rightarrow> rat" where "float_mul x y = fl64 (x * y)"
definition float_div :: "rat \<Rightarrow> rat \<Rightarrow> rat" where "float_div x y = fl64 (x / y)"
definition float_floor :: "rat \<Rightarrow> int" where "float_floor x = \<lfloor>x\<rfloor>"

section \<open>Properties of the rounding\<close>

lemma pow2_pos [simp]: "0 < pow2 e" by (simp add: pow2_def)

lemma pow2_ne0 [simp]: "pow2 e \<noteq> 0" by (metis pow2_pos less_irrefl)

lemma pow2_powi: "pow2 e = 2 powi e"
  by (simp add: pow2_def power_int_def field_simps)

lemma pow2_add: "pow2 (a + b) = pow2 a * pow2 b"
  by (simp add: pow2_powi power_int_add)

lemma pow2_mono: "a \<le> b \<Longrightarrow> pow2 a \<le> pow2 b"
  by (simp add: pow2_powi power_int_increasing)

lemma round_even_bounds: "\<lfloor>x\<rfloor> \<le> round_even x \<and> round_even x \<le> \<lfloor>x\<rfloor> + 1"
  by (simp add: round_even_def Let_def)

lemma round_even_int [simp]: "round_even (of_int n) = n"
  by (simp add: round_even_def)

lemma round_even_near: "\<bar>of_int (round_even x) - x\<bar> \<le> 1 / 2"
  using floor_correct [of x] by (auto simp: round_even_def Let_def abs_le_iff field_simps)

lemma round_even_mono: assumes "x \<le> y" shows "round_even x \<le> round_even y"
proof (cases "\<lfloor>x\<rfloor> = \<lfloor>y\<rfloor>")
  case True
  with assms show ?thesis by (auto simp: round_even_def Let_def)
next
  case False
  with floor_mono [OF assms] have "\<lfloor>x\<rfloor> + 1 \<le> \<lfloor>y\<rfloor>" by simp
  with round_even_bounds [of x] round_even_bounds [of y] show ?thesis by linarith
qed

lemma bit_length_bounds:
  "0 < n \<Longrightarrow> 2 ^ (bit_length n - 1) \<le> n \<and> n < 2 ^ bit_length n \<and> 0 < bit_length n"
proof (induction n rule: bit_length.induct)
  case (1 n)
  show ?case
  proof (cases "n div 2 = 0")
    case True
    with "1.prems" have "n = 1" by simp
    then show ?thesis by (simp add: bit_length.simps)
  next
    case False
    with 1 have IH: "2 ^ (bit_length (n div 2) - 1) \<le> n div 2" "n div 2 < 2 ^ bit_length (n div 2)"
      "0 < bit_length (n div 2)" by auto
    obtain b where b: "bit_length (n div 2) = Suc b" using IH(3) by (cases "bit_length (n div 2)") auto
    have "bit_length n = Suc (Suc b)" using "1.prems" b by (subst bit_length.simps) simp
    with IH b show ?thesis by auto
  qed
qed


lemma float_exponent_bounds:
  assumes "x \<noteq> 0"
  shows "pow2 (float_exponent x + 52) \<le> \<bar>x\<bar> \<and> \<bar>x\<bar> < pow2 (float_exponent x + 53)"
proof -
  obtain n d where q: "quotient_of \<bar>x\<bar> = (n, d)" by (cases "quotient_of \<bar>x\<bar>")
  have d: "0 < d" using q by (rule quotient_of_denom_pos)
  have xq: "\<bar>x\<bar> = of_int n / of_int d" using q by (rule quotient_of_div)
  have "0 < \<bar>x\<bar>" using assms by simp
  with xq d have n: "0 < n" by (simp add: zero_less_divide_iff)
  define bn where "bn = bit_length (nat n)"
  define bd where "bd = bit_length (nat d)"
  have bpos: "0 < bn" "0 < bd"
    using bit_length_bounds [of "nat n"] bit_length_bounds [of "nat d"] n d by (simp_all add: bn_def bd_def)
  have powr: "(2::rat) ^ m = pow2 (int m)" for m by (simp add: pow2_def)
  have toint: "(2::nat) ^ m \<le> nat i \<Longrightarrow> 0 < i \<Longrightarrow> pow2 (int m) \<le> of_int i" for m and i :: int
  proof -
    assume "(2::nat) ^ m \<le> nat i" "0 < i"
    then have "(2::int) ^ m \<le> i" by (metis nat_le_iff of_nat_numeral of_nat_power order_less_imp_le zle_int nat_0_le)
    then have "(of_int (2 ^ m) :: rat) \<le> of_int i" by (simp only: of_int_le_iff)
    then show ?thesis by (simp add: powr)
  qed
  have ltint: "nat i < (2::nat) ^ m \<Longrightarrow> 0 < i \<Longrightarrow> of_int i < pow2 (int m)" for m and i :: int
  proof -
    assume "nat i < (2::nat) ^ m" "0 < i"
    then have "i < (2::int) ^ m" by (metis nat_less_iff of_nat_numeral of_nat_power order_less_imp_le)
    then have "(of_int i :: rat) < of_int (2 ^ m)" by (simp only: of_int_less_iff)
    then show ?thesis by (simp add: powr)
  qed
  have "0 < nat n" "0 < nat d" using n d by simp_all
  note hn = bit_length_bounds [OF this(1), folded bn_def] and hd = bit_length_bounds [OF this(2), folded bd_def]
  have nb: "pow2 (int (bn - 1)) \<le> of_int n" "of_int n < pow2 (int bn)"
    using toint [OF conjunct1 [OF hn] n] ltint [OF conjunct1 [OF conjunct2 [OF hn]] n] by simp_all
  have db: "pow2 (int (bd - 1)) \<le> of_int d" "of_int d < pow2 (int bd)"
    using toint [OF conjunct1 [OF hd] d] ltint [OF conjunct1 [OF conjunct2 [OF hd]] d] by simp_all
  define k where "k = int bn - int bd"
  have up: "\<bar>x\<bar> < pow2 (k + 1)"
  proof -
    have "of_int n < pow2 (int bn)" by (rule nb)
    also have "int bn = (k + 1) + int (bd - 1)" using bpos by (simp add: k_def)
    also have "pow2 ((k + 1) + int (bd - 1)) = pow2 (k + 1) * pow2 (int (bd - 1))" by (rule pow2_add)
    also have "\<dots> \<le> pow2 (k + 1) * of_int d" using db(1) by (simp add: mult_left_mono order_less_imp_le)
    finally show ?thesis using d by (simp add: xq divide_less_eq)
  qed
  have lo: "pow2 (k - 1) \<le> \<bar>x\<bar>"
  proof -
    have "pow2 (k - 1) * of_int d \<le> pow2 (k - 1) * pow2 (int bd)"
      using db(2) by (simp add: mult_left_mono order_less_imp_le)
    also have "\<dots> = pow2 (k - 1 + int bd)" by (simp only: pow2_add)
    also have "k - 1 + int bd = int (bn - 1)" using bpos by (simp add: k_def)
    also have "pow2 (int (bn - 1)) \<le> of_int n" by (rule nb)
    finally show ?thesis using d by (simp add: xq le_divide_eq)
  qed
  have "float_exponent x = (if \<bar>x\<bar> < pow2 k then k - 53 else k - 52)"
    by (simp add: float_exponent_def q k_def bn_def bd_def)
  then show ?thesis using up lo by (auto simp: not_less add.commute)
qed

lemma fl64_0 [simp]: "fl64 0 = 0" by (simp add: fl64_def)

lemma float_exponent_minus [simp]: "float_exponent (- x) = float_exponent x"
  by (simp add: float_exponent_def)

text \<open>A value with at most 53 significant bits is a float: rounding leaves it alone.\<close>

lemma fl64_exact:
  assumes "x = of_int m * pow2 e" and "\<bar>m\<bar> < 2 ^ 53"
  shows "fl64 x = x"
proof (cases "x = 0")
  case False
  define f where "f = float_exponent x"
  have "pow2 (f + 52) \<le> \<bar>x\<bar>" using float_exponent_bounds [OF False] by (simp add: f_def)
  also have "\<bar>x\<bar> = of_int \<bar>m\<bar> * pow2 e"
    using assms(1) by (simp add: abs_mult order_less_imp_le)
  also have "\<dots> < of_int (2 ^ 53) * pow2 e"
    using assms(2) by (simp only: mult_less_cancel_right_pos pow2_pos of_int_less_iff)
  also have "\<dots> = pow2 (53 + e)" by (simp add: pow2_add) (simp add: pow2_def)
  finally have "pow2 (f + 52) < pow2 (53 + e)" .
  then have "f \<le> e" using pow2_mono [of "53 + e" "f + 52"] by linarith
  then obtain j where j: "e = f + int j" using zle_iff_zadd by blast
  have "x / pow2 f = of_int (m * 2 ^ j)"
    by (simp add: assms(1) j pow2_add) (simp add: pow2_def)
  then have "round_even (x / pow2 f) = m * 2 ^ j" by (simp only: round_even_int)
  then show ?thesis using False
    by (simp add: fl64_def Let_def flip: f_def) (simp add: assms(1) j pow2_add, simp add: pow2_def)
qed simp

lemma fl64_int: "\<bar>n\<bar> < 2 ^ 53 \<Longrightarrow> fl64 (of_int n) = of_int n"
  by (rule fl64_exact [where m = n and e = 0]) (simp_all add: pow2_def)

lemma fl64_bounds_pos:
  assumes "0 < x"
  shows "pow2 (float_exponent x + 52) \<le> fl64 x \<and> fl64 x \<le> pow2 (float_exponent x + 53)"
proof -
  define f where "f = float_exponent x"
  have b: "pow2 (f + 52) \<le> x" "x < pow2 (f + 53)"
    using float_exponent_bounds [of x] assms by (simp_all add: f_def)
  have "of_int (2 ^ 52) \<le> x / pow2 f" "x / pow2 f \<le> of_int (2 ^ 53)"
    using b by (simp_all add: pow2_add field_simps) (simp_all add: pow2_def)
  then have r: "2 ^ 52 \<le> round_even (x / pow2 f)" "round_even (x / pow2 f) \<le> 2 ^ 53"
    by (metis round_even_int round_even_mono)+
  have "of_int (2 ^ 52) * pow2 f \<le> of_int (round_even (x / pow2 f)) * pow2 f"
    using r(1) by (simp only: mult_le_cancel_right_pos pow2_pos of_int_le_iff)
  moreover have "of_int (round_even (x / pow2 f)) * pow2 f \<le> of_int (2 ^ 53) * pow2 f"
    using r(2) by (simp only: mult_le_cancel_right_pos pow2_pos of_int_le_iff)
  moreover have "pow2 (f + 52) = of_int (2 ^ 52) * pow2 f" "pow2 (f + 53) = of_int (2 ^ 53) * pow2 f"
    by (simp_all add: pow2_add) (simp_all add: pow2_def)
  ultimately show ?thesis using assms by (simp add: fl64_def Let_def flip: f_def)
qed

lemma fl64_pos: "0 < x \<Longrightarrow> 0 < fl64 x"
  using fl64_bounds_pos [of x] pow2_pos by (meson less_le_trans)

lemma round_even_minus: "round_even (- x) = - round_even x"
proof (cases "x = of_int \<lfloor>x\<rfloor>")
  case True
  then obtain n where "x = of_int n" by blast
  then show ?thesis using round_even_int [of "- n"] by simp
next
  case False
  have "\<lfloor>- x\<rfloor> = - \<lfloor>x\<rfloor> - 1"
    using False floor_correct [of x] by (simp add: floor_eq_iff) linarith
  then show ?thesis using False by (auto simp: round_even_def Let_def)
qed

lemma fl64_minus: "fl64 (- x) = - fl64 x"
  by (simp add: fl64_def Let_def round_even_minus)

lemma fl64_mono_pos:
  assumes "0 < x" and "x \<le> y"
  shows "fl64 x \<le> fl64 y"
proof -
  define f where "f = float_exponent x"
  define g where "g = float_exponent y"
  have bx: "pow2 (f + 52) \<le> x" "x < pow2 (f + 53)"
    and bY: "pow2 (g + 52) \<le> y" "y < pow2 (g + 53)"
    using float_exponent_bounds [of x] float_exponent_bounds [of y] assms by (simp_all add: f_def g_def)
  have "f \<le> g"
  proof (rule ccontr)
    assume "\<not> f \<le> g"
    then have "pow2 (g + 53) \<le> pow2 (f + 52)" by (intro pow2_mono) simp
    with bx bY assms show False by simp
  qed
  show ?thesis
  proof (cases "f = g")
    case True
    have "round_even (x / pow2 f) \<le> round_even (y / pow2 f)"
      by (rule round_even_mono) (simp add: assms divide_right_mono order_less_imp_le)
    then have "of_int (round_even (x / pow2 f)) * pow2 f \<le> of_int (round_even (y / pow2 f)) * pow2 f"
      by (simp only: mult_le_cancel_right_pos pow2_pos of_int_le_iff)
    then show ?thesis using assms True by (simp add: fl64_def Let_def flip: f_def g_def)
  next
    case False
    with \<open>f \<le> g\<close> have "pow2 (f + 53) \<le> pow2 (g + 52)" by (intro pow2_mono) simp
    with fl64_bounds_pos [of x] fl64_bounds_pos [of y] assms show ?thesis
      by (simp flip: f_def g_def)
  qed
qed

lemma fl64_mono: "x \<le> y \<Longrightarrow> fl64 x \<le> fl64 y"
proof -
  assume le: "x \<le> y"
  consider "0 < x" | "x \<le> 0" "0 \<le> y" | "y < 0" using le by linarith
  then show ?thesis
  proof cases
    case 1 with le show ?thesis by (simp add: fl64_mono_pos)
  next
    case 2
    have "fl64 x \<le> 0" using fl64_pos [of "- x"] 2 by (cases "x = 0") (simp_all add: fl64_minus)
    moreover have "0 \<le> fl64 y" using fl64_pos [of y] 2 by (cases "y = 0") simp_all
    ultimately show ?thesis by simp
  next
    case 3
    have "fl64 (- y) \<le> fl64 (- x)" using 3 le by (intro fl64_mono_pos) simp_all
    then show ?thesis by (simp add: fl64_minus)
  qed
qed

section \<open>The interface: what proofs about float fields rely on\<close>

locale float_rounding =
  fixes fl :: "rat \<Rightarrow> rat"
  assumes mono: "x \<le> y \<Longrightarrow> fl x \<le> fl y"
    and exact_int: "\<bar>n\<bar> < 2 ^ 53 \<Longrightarrow> fl (of_int n) = of_int n"
begin

text \<open>A value between two integers stays between them when it is rounded.\<close>

lemma between_ints:
  assumes "of_int a \<le> x" and "x \<le> of_int b" and "\<bar>a\<bar> < 2 ^ 53" and "\<bar>b\<bar> < 2 ^ 53"
  shows "of_int a \<le> fl x \<and> fl x \<le> of_int b"
  using mono [OF assms(1)] mono [OF assms(2)] assms by (simp add: exact_int)

text \<open>A percentage \<open>k / 100\<close> computed in floats is a fraction.\<close>

lemma percentage:
  assumes "0 \<le> k" and "k \<le> 100"
  shows "0 \<le> fl (fl (of_int k) / 100) \<and> fl (fl (of_int k) / 100) \<le> 1"
proof -
  have "fl (of_int k) = of_int k" using assms by (intro exact_int) simp
  with between_ints [of 0 "of_int k / 100" 1] assms show ?thesis by simp
qed

end

interpretation f64: float_rounding fl64
  by unfold_locales (auto intro: fl64_mono fl64_int)

lemmas float_ops = float_of_int_def float_mul_def float_div_def float_floor_def

end
