(* ===== verification/Prng.thy ===== *)
theory Prng
  imports Prelude Float64
begin

text \<open>
  internal/prng/prng.go on top of Go's \<open>math/rand/v2\<close>.

  A \<open>rand.Source\<close> is what it delivers: the stream of its \<open>Uint64\<close> results.  \<open>rand.PCG\<close> is the
  128-bit generator of the standard library (\<open>pcg_source\<close>), \<open>rand.Rand\<close> is the layer of bounded
  draws over any source (\<open>uint64n\<close>, \<open>IntN\<close>, \<open>Shuffle\<close>, \<open>Float64\<close>).  The bounded draws
  reject biased values in a loop, so a draw is a \<open>go\<close> value: it may not return for a
  degenerate source.  A \<open>*PRNG\<close> is passed as a value and returned advanced.
  All results about the program hold for every source, not only for PCG.
\<close>

unbundle bit_operations_syntax

type_synonym u64 = "64 word"
type_synonym prng = "u64 stream"

section \<open>rand.PCG\<close>

record pcg =
  pcg_hi :: u64
  pcg_lo :: u64

definition mul64 :: "u64 \<Rightarrow> u64 \<Rightarrow> u64 \<times> u64" where
  "mul64 x y = (let p = (ucast x * ucast y :: 128 word) in (ucast (drop_bit 64 p), ucast p))"

definition pcg_next :: "pcg \<Rightarrow> pcg" where
  "pcg_next p =
     (let (hi, lo) = mul64 (pcg_lo p) 4865540595714422341;
          hi = hi + pcg_hi p * 4865540595714422341 + pcg_lo p * 2549297995355413924;
          lo' = lo + 1442695040888963407;
          c = (if lo' < lo then 1 else 0);
          hi = hi + 6364136223846793005 + c
      in \<lparr>pcg_hi = hi, pcg_lo = lo'\<rparr>)"

definition pcg_output :: "pcg \<Rightarrow> u64" where
  "pcg_output p =
     (let hi = pcg_hi p;
          hi = hi XOR drop_bit 32 hi;
          hi = hi * 0xda942042e4dd58b5;
          hi = hi XOR drop_bit 48 hi
      in hi * (pcg_lo p OR 1))"

primcorec pcg_source :: "pcg \<Rightarrow> u64 stream" where
  "shd (pcg_source p) = pcg_output (pcg_next p)"
| "stl (pcg_source p) = pcg_source (pcg_next p)"

definition NewPCG :: "u64 \<Rightarrow> u64 \<Rightarrow> u64 stream" where
  "NewPCG s1 s2 = pcg_source \<lparr>pcg_hi = s1, pcg_lo = s2\<rparr>"

section \<open>rand.Rand: bounded draws over a source\<close>

definition rand_Uint64 :: "prng \<Rightarrow> u64 \<times> prng" where
  "rand_Uint64 r = (shd r, stl r)"

partial_function (option) reject64 :: "u64 \<Rightarrow> u64 \<Rightarrow> u64 \<times> u64 \<Rightarrow> prng \<Rightarrow> (panic + ((u64 \<times> u64) \<times> prng)) option" where
  "reject64 n thresh p r =
     (if snd p < thresh
      then (let (u, r) = rand_Uint64 r in reject64 n thresh (mul64 u n) r)
      else ret (p, r))"

text \<open>\<open>uint64n\<close> on a 64-bit machine: the shortcut through 32 bits is for 32-bit machines only.\<close>

definition uint64n :: "u64 \<Rightarrow> prng \<Rightarrow> (u64 \<times> prng) go" where
  "uint64n n r =
     (if n AND (n - 1) = 0 then (let (u, r) = rand_Uint64 r in ret (u AND (n - 1), r))
      else let (u, r) = rand_Uint64 r; p = mul64 u n in
        go_bind (if snd p < n then reject64 n ((- n) mod n) p r else ret (p, r))
          (\<lambda>(p, r). ret (fst p, r)))"

definition IntN :: "int \<Rightarrow> prng \<Rightarrow> (int \<times> prng) go" where
  "IntN n r =
     (if n \<le> 0 then panics InvalidArgument
      else go_bind (uint64n (word_of_int n) r) (\<lambda>(v, r). ret (uint v, r)))"

definition rand_Float64 :: "prng \<Rightarrow> rat \<times> prng" where
  "rand_Float64 r = (let (u, r) = rand_Uint64 r in
     (float_div (float_of_int (uint (drop_bit 11 (push_bit 11 u)))) (2 ^ 53), r))"

definition swap_at :: "nat \<Rightarrow> nat \<Rightarrow> 'a list \<Rightarrow> 'a list" where
  "swap_at i j xs = xs[i := xs ! j, j := xs ! i]"

fun shuffle_from :: "nat \<Rightarrow> 'a list \<Rightarrow> prng \<Rightarrow> ('a list \<times> prng) go" where
  "shuffle_from 0 xs r = ret (xs, r)"
| "shuffle_from (Suc i) xs r =
     go_bind (uint64n (word_of_nat (Suc (Suc i))) r)
       (\<lambda>(j, r). shuffle_from i (swap_at (Suc i) (unat j) xs) r)"

section \<open>prng.PRNG\<close>

definition NewFromSeed :: "u64 \<Rightarrow> u64 \<Rightarrow> prng" where
  "NewFromSeed s1 s2 = NewPCG s1 s2"

definition Roll :: "int \<Rightarrow> int \<Rightarrow> prng \<Rightarrow> (int \<times> prng) go" where
  "Roll low0 high0 r =
     (let (low, high) = (if high0 < low0 then (high0, low0) else (low0, high0));
          delta = wrap64 (high - low + 1)
      in go_bind (IntN delta r) (\<lambda>(v, r). ret (wrap64 (low + v), r)))"

text \<open>The loop of the dice methods: \<open>for ; n > 0; n-- { result += p.Roll(1, sides) }\<close>.\<close>

function dice_loop :: "int \<Rightarrow> int \<Rightarrow> int \<Rightarrow> prng \<Rightarrow> (int \<times> prng) go" where
  "dice_loop sides n result r =
     (if 0 < n then go_bind (Roll 1 sides r) (\<lambda>(v, r). dice_loop sides (n - 1) (result + v) r)
      else ret (result, r))"
  by pat_completeness auto
termination by (relation "measure (\<lambda>(sides, n, result, r). nat n)") auto

declare dice_loop.simps [simp del]

definition D4 :: "int \<Rightarrow> prng \<Rightarrow> (int \<times> prng) go" where "D4 n r = dice_loop 4 n 0 r"
definition D6 :: "int \<Rightarrow> prng \<Rightarrow> (int \<times> prng) go" where "D6 n r = dice_loop 6 n 0 r"
definition D8 :: "int \<Rightarrow> prng \<Rightarrow> (int \<times> prng) go" where "D8 n r = dice_loop 8 n 0 r"
definition D10 :: "int \<Rightarrow> prng \<Rightarrow> (int \<times> prng) go" where "D10 n r = dice_loop 10 n 0 r"
definition D12 :: "int \<Rightarrow> prng \<Rightarrow> (int \<times> prng) go" where "D12 n r = dice_loop 12 n 0 r"
definition D20 :: "int \<Rightarrow> prng \<Rightarrow> (int \<times> prng) go" where "D20 n r = dice_loop 20 n 0 r"
definition D100 :: "int \<Rightarrow> prng \<Rightarrow> (int \<times> prng) go" where "D100 n r = dice_loop 100 n 0 r"

definition PRNG_Float64 :: "prng \<Rightarrow> rat \<times> prng" where
  "PRNG_Float64 r = rand_Float64 r"

definition Shuffle :: "'a list \<Rightarrow> prng \<Rightarrow> ('a list \<times> prng) go" where
  "Shuffle xs r = shuffle_from (length xs - 1) xs r"

definition Split :: "prng \<Rightarrow> prng \<times> prng" where
  "Split r = (let (s1, r) = rand_Uint64 r; (s2, r) = rand_Uint64 r in (NewPCG s1 s2, r))"

definition Vary5Percent :: "int \<Rightarrow> prng \<Rightarrow> (rat \<times> prng) go" where
  "Vary5Percent x r =
     go_bind (D6 2 r) (\<lambda>(d, r). ret (float_div (float_of_int (93 * x + d)) 100, r))"

definition Vary10Percent :: "int \<Rightarrow> prng \<Rightarrow> (rat \<times> prng) go" where
  "Vary10Percent x r =
     go_bind (D6 4 r) (\<lambda>(d, r). ret (float_div (float_of_int (86 * x + d)) 100, r))"

section \<open>Every bounded draw stays in its bounds\<close>

lemma mask_less:
  fixes x n :: "'a::len word"
  assumes "n \<noteq> 0"
  shows "x AND (n - 1) < n"
proof -
  have "x AND (n - 1) \<le> n - 1" by (rule word_and_le1)
  also have "n - 1 < n" using assms
    by (simp add: word_less_nat_alt unat_minus_one unat_gt_0)
  finally show ?thesis .
qed

lemma unat_widen [simp]: "unat (ucast (w :: u64) :: 128 word) = unat w"
  using unat_bound [of w] by (simp add: unat_ucast_id)

lemma mul64_hi_less: assumes "n \<noteq> 0" shows "fst (mul64 u n) < n"
proof -
  have lt: "unat u * unat n < 2 ^ 64 * unat n"
    using unat_bound [of u] assms by (simp add: unat_gt_0)
  also have "\<dots> \<le> 2 ^ 64 * 2 ^ 64" using unat_bound [of n] by simp
  finally have p: "unat (ucast u * ucast n :: 128 word) = unat u * unat n"
    by (simp add: unat_word_ariths)
  have "drop_bit 64 (unat u * unat n) < unat n"
    using lt by (simp add: drop_bit_eq_div less_mult_imp_div_less mult.commute)
  then have d: "unat (drop_bit 64 (ucast u * ucast n :: 128 word)) < unat n"
    by (simp only: unat_drop_bit_eq p)
  with unat_bound [of n] have "unat (drop_bit 64 (ucast u * ucast n :: 128 word)) < 2 ^ 64" by simp
  with d show ?thesis by (simp add: mul64_def Let_def word_less_nat_alt unat_ucast_id)
qed

lemma reject64_less:
  assumes "reject64 n thresh p r = Some res" and "n \<noteq> 0" and "fst p < n"
  shows "\<exists>p' r'. res = Inr (p', r') \<and> fst p' < n"
proof -
  have "n \<noteq> 0 \<and> fst p < n \<longrightarrow> (\<exists>p' r'. res = Inr (p', r') \<and> fst p' < n)"
  proof (rule reject64.raw_induct [where P = "\<lambda>n thresh p r res.
        n \<noteq> 0 \<and> fst p < n \<longrightarrow> (\<exists>p' r'. res = Inr (p', r') \<and> fst p' < n)", OF _ assms(1)])
    fix f n thresh p r res
    assume IH: "\<And>n thresh p r res. f n thresh p r = Some res \<Longrightarrow>
        n \<noteq> 0 \<and> fst p < n \<longrightarrow> (\<exists>p' r'. res = Inr (p', r') \<and> fst p' < n)"
      and eq: "(if snd p < thresh then (let (u, r) = rand_Uint64 r in f n thresh (mul64 u n) r)
          else ret (p, r)) = Some res"
    show "n \<noteq> 0 \<and> fst p < n \<longrightarrow> (\<exists>p' r'. res = Inr (p', r') \<and> fst p' < n)"
    proof (cases "snd p < thresh")
      case True
      with eq have "f n thresh (mul64 (shd r) n) (stl r) = Some res" by (simp add: rand_Uint64_def)
      then show ?thesis using IH mul64_hi_less [of n "shd r"] by blast
    next
      case False
      with eq show ?thesis by (cases p) auto
    qed
  qed
  with assms show ?thesis by blast
qed

lemma yields_reject64:
  assumes "n \<noteq> 0" and "fst p < n"
  shows "yields (reject64 n thresh p r) (\<lambda>(p, r). fst p < n)"
  using reject64_less [OF _ assms] unfolding yields_def
  by (cases "reject64 n thresh p r") (fastforce split: sum.split)+

lemma yields_uint64n [yields_intros]:
  assumes "n \<noteq> 0" and "\<And>v r'. v < n \<Longrightarrow> P (v, r')"
  shows "yields (uint64n n r) P"
proof -
  have "yields (if snd (mul64 (shd r) n) < n
        then reject64 n ((- n) mod n) (mul64 (shd r) n) (stl r) else ret (mul64 (shd r) n, stl r))
      (\<lambda>(p, r). fst p < n)"
    by (intro yields_if yields_reject64 assms(1)) (simp_all add: mul64_hi_less assms(1))
  then have "yields (if snd (mul64 (shd r) n) < n
        then reject64 n ((- n) mod n) (mul64 (shd r) n) (stl r) else ret (mul64 (shd r) n, stl r))
      (\<lambda>a. yields ((\<lambda>(p, r). ret (fst p, r)) a) P)"
    by (rule yields_conseq) (auto intro!: assms(2))
  with assms show ?thesis
    by (auto simp: uint64n_def rand_Uint64_def Let_def mask_less intro: yields_bind)
qed

lemma yields_IntN [yields_intros]:
  assumes "0 < n" and "n < 2 ^ 63" and "\<And>v r'. 0 \<le> v \<Longrightarrow> v < n \<Longrightarrow> P (v, r')"
  shows "yields (IntN n r) P"
proof -
  have u: "uint (word_of_int n :: u64) = n" using assms(1,2) by (simp add: uint_word_of_int)
  have "(word_of_int n :: u64) \<noteq> 0" using u assms(1) by (metis less_irrefl unsigned_0)
  then show ?thesis using assms u
    by (auto simp: IntN_def word_less_def intro!: yields_bind yields_uint64n)
qed

lemma yields_Roll [yields_intros]:
  assumes "lo \<le> hi" and "- (2 ^ 62) < lo" and "hi < 2 ^ 62"
    and "\<And>v r'. lo \<le> v \<Longrightarrow> v \<le> hi \<Longrightarrow> P (v, r')"
  shows "yields (Roll lo hi r) P"
proof -
  have "wrap64 (hi - lo + 1) = hi - lo + 1" using assms by (intro wrap64_id) simp_all
  moreover have "wrap64 (lo + v) = lo + v" if "0 \<le> v" "v < hi - lo + 1" for v
    using assms that by (intro wrap64_id) simp_all
  ultimately show ?thesis using assms
    by (auto simp: Roll_def Let_def intro!: yields_bind yields_IntN)
qed

lemma yields_dice_loop:
  assumes "1 \<le> sides" and "sides < 2 ^ 62" and "0 \<le> n"
    and "\<And>v r'. result + n \<le> v \<Longrightarrow> v \<le> result + n * sides \<Longrightarrow> P (v, r')"
  shows "yields (dice_loop sides n result r) P"
  using assms
proof (induction sides n result r rule: dice_loop.induct)
  case (1 sides n result r)
  show ?case
  proof (cases "0 < n")
    case True
    have step: "yields (dice_loop sides (n - 1) (result + v) r') P" if "1 \<le> v" "v \<le> sides" for v r'
      using that True "1.prems"
      by (intro "1.IH" [OF True]) (auto simp: left_diff_distrib)
    show ?thesis using True step "1.prems"
      by (subst dice_loop.simps) (auto intro!: yields_bind yields_Roll)
  next
    case False
    with "1.prems" show ?thesis by (subst dice_loop.simps) simp
  qed
qed

lemma yields_dice [yields_intros]:
  assumes "0 \<le> n"
  shows
    "(\<And>v r'. n \<le> v \<Longrightarrow> v \<le> n * 4 \<Longrightarrow> P (v, r')) \<Longrightarrow> yields (D4 n r) P"
    "(\<And>v r'. n \<le> v \<Longrightarrow> v \<le> n * 6 \<Longrightarrow> P (v, r')) \<Longrightarrow> yields (D6 n r) P"
    "(\<And>v r'. n \<le> v \<Longrightarrow> v \<le> n * 8 \<Longrightarrow> P (v, r')) \<Longrightarrow> yields (D8 n r) P"
    "(\<And>v r'. n \<le> v \<Longrightarrow> v \<le> n * 10 \<Longrightarrow> P (v, r')) \<Longrightarrow> yields (D10 n r) P"
    "(\<And>v r'. n \<le> v \<Longrightarrow> v \<le> n * 12 \<Longrightarrow> P (v, r')) \<Longrightarrow> yields (D12 n r) P"
    "(\<And>v r'. n \<le> v \<Longrightarrow> v \<le> n * 20 \<Longrightarrow> P (v, r')) \<Longrightarrow> yields (D20 n r) P"
    "(\<And>v r'. n \<le> v \<Longrightarrow> v \<le> n * 100 \<Longrightarrow> P (v, r')) \<Longrightarrow> yields (D100 n r) P"
  using assms
  by (simp_all add: D4_def D6_def D8_def D10_def D12_def D20_def D100_def yields_dice_loop)

section \<open>Shuffling permutes\<close>

lemma mset_swap_at: "i < length xs \<Longrightarrow> j < length xs \<Longrightarrow> mset (swap_at i j xs) = mset xs"
  by (simp add: swap_at_def mset_swap)

lemma yields_shuffle_from:
  assumes "i < length xs \<or> i = 0" and "length xs < 2 ^ 63"
    and "\<And>ys r'. mset ys = mset xs \<Longrightarrow> P (ys, r')"
  shows "yields (shuffle_from i xs r) P"
  using assms
proof (induction i arbitrary: xs r)
  case (Suc i)
  show ?case
  proof (cases "xs = []")
    case False
    have "Suc (Suc i) < 2 ^ 64" using Suc.prems False by simp
    then have u: "unat (word_of_nat (Suc (Suc i)) :: u64) = Suc (Suc i)"
      by (simp only: unat_of_nat) simp
    then have nz: "(word_of_nat (Suc (Suc i)) :: u64) \<noteq> 0" by (metis nat.simps(3) unsigned_0)
    have step: "yields (shuffle_from i (swap_at (Suc i) (unat j) xs) r') P"
      if "j < word_of_nat (Suc (Suc i))" for j :: u64 and r'
    proof (rule Suc.IH)
      have j: "unat j < Suc (Suc i)" using that u by (simp only: word_less_nat_alt)
      with Suc.prems False have sw: "mset (swap_at (Suc i) (unat j) xs) = mset xs"
        by (intro mset_swap_at) auto
      show "i < length (swap_at (Suc i) (unat j) xs) \<or> i = 0"
        using Suc.prems False by (simp add: swap_at_def)
      show "length (swap_at (Suc i) (unat j) xs) < 2 ^ 63"
        using Suc.prems by (simp add: swap_at_def)
      show "P (ys, r'')" if "mset ys = mset (swap_at (Suc i) (unat j) xs)" for ys r''
        using that sw Suc.prems(3) by simp
    qed
    show ?thesis using nz step by (auto intro!: yields_bind yields_uint64n simp del: of_nat_Suc)
  qed (use Suc.prems in simp)
qed simp

lemma yields_Shuffle [yields_intros]:
  assumes "length xs < 2 ^ 63" and "\<And>ys r'. mset ys = mset xs \<Longrightarrow> P (ys, r')"
  shows "yields (Shuffle xs r) P"
  using assms by (auto simp: Shuffle_def intro!: yields_shuffle_from)

section \<open>Properties\<close>

text \<open>\<open>Roll\<close> with bounds in either order draws a value between them, on every source, without
  a panic.\<close>

theorem Roll_in_range:
  assumes "- (2 ^ 62) < min low high" and "max low high < 2 ^ 62"
  shows "yields (Roll low high r) (\<lambda>(v, r'). min low high \<le> v \<and> v \<le> max low high)"
proof (cases "high < low")
  case True
  then have "Roll low high r = Roll high low r" by (simp add: Roll_def)
  with True assms show ?thesis by (auto intro!: yields_Roll)
qed (use assms in \<open>auto intro!: yields_Roll\<close>)

theorem Roll_in_range_witness:
  "yields (Roll 6 1 (NewPCG 1 2)) (\<lambda>(v, r'). 1 \<le> v \<and> v \<le> 6)"
  using Roll_in_range [of 6 1 "NewPCG 1 2"] by simp

text \<open>\<open>Shuffle\<close> returns a permutation of the slice it is given, on every source, without a
  panic.\<close>

theorem Shuffle_permutes:
  assumes "length xs < 2 ^ 63"
  shows "yields (Shuffle xs r) (\<lambda>(ys, r'). mset ys = mset xs)"
  using assms by (auto intro: yields_Shuffle)

theorem Shuffle_permutes_witness:
  "yields (Shuffle [1, 2, 3 :: int] (NewPCG 1 2)) (\<lambda>(ys, r'). mset ys = {#1, 2, 3#})"
  using Shuffle_permutes [of "[1, 2, 3 :: int]" "NewPCG 1 2"] by simp

end
