(* ===== verification/Rolls.thy ===== *)
theory Rolls
  imports Prng
begin

text \<open>
  Computations that consume the numbers of a \<open>*prng.PRNG\<close>.  The Go code calls \<open>r.Roll\<close>,
  \<open>r.D100\<close> and so on for their value and their effect on \<open>r\<close>; a \<open>'a roller\<close> is such a
  computation, \<open>rbind\<close> sequences two of them in the order the code calls them.
  \<open>always m P\<close> is the safety judgement: on every source, \<open>m\<close> does not panic, and every value
  it returns satisfies \<open>P\<close>.
\<close>

type_synonym 'a roller = "prng \<Rightarrow> ('a \<times> prng) go"

definition rret :: "'a \<Rightarrow> 'a roller" where
  "rret a r = ret (a, r)"

definition rbind :: "'a roller \<Rightarrow> ('a \<Rightarrow> 'b roller) \<Rightarrow> 'b roller" where
  "rbind m f r = go_bind (m r) (\<lambda>(a, r). f a r)"

definition rlift :: "'a go \<Rightarrow> 'a roller" where
  "rlift m r = go_bind m (\<lambda>a. ret (a, r))"

definition rpanic :: "panic \<Rightarrow> 'a roller" where
  "rpanic p r = panics p"

text \<open>\<open>for x < lo { x += roll() }\<close> and \<open>for x > hi { x -= roll() }\<close>.\<close>

partial_function (option) bump_up :: "int roller \<Rightarrow> int \<Rightarrow> int \<Rightarrow> prng \<Rightarrow> (panic + int \<times> prng) option" where
  "bump_up roll lo x r =
     (if x < lo then go_bind (roll r) (\<lambda>d. bump_up roll lo (x + fst d) (snd d)) else ret (x, r))"

partial_function (option) bump_down :: "int roller \<Rightarrow> int \<Rightarrow> int \<Rightarrow> prng \<Rightarrow> (panic + int \<times> prng) option" where
  "bump_down roll hi x r =
     (if x > hi then go_bind (roll r) (\<lambda>d. bump_down roll hi (x - fst d) (snd d)) else ret (x, r))"

text \<open>
  The loop that randomises a value: \<open>n\<close> times a delta is drawn and, on the toss of a coin,
  added or subtracted.  The generator tosses with \<open>D100(1)\<close>, the template stage with
  \<open>Roll(1, 100)\<close>.
\<close>

fun jitter :: "int roller \<Rightarrow> int \<Rightarrow> nat \<Rightarrow> int \<Rightarrow> int roller" where
  "jitter coin die 0 x = rret x"
| "jitter coin die (Suc n) x =
     rbind (Roll 1 die) (\<lambda>delta. rbind coin (\<lambda>c.
       jitter coin die n (if c > 50 then x + delta else x - delta)))"

text \<open>\<open>repeat_rolls m n acc\<close>: \<open>acc += m()\<close>, \<open>n\<close> times.\<close>

fun repeat_rolls :: "int roller \<Rightarrow> nat \<Rightarrow> int \<Rightarrow> int roller" where
  "repeat_rolls m 0 acc = rret acc"
| "repeat_rolls m (Suc n) acc = rbind m (\<lambda>v. repeat_rolls m n (acc + v))"

section \<open>Safety: values and panics\<close>

named_theorems always_intros "rules that verify a roller step by step"

definition always :: "'a roller \<Rightarrow> ('a \<Rightarrow> bool) \<Rightarrow> bool" where
  "always m P \<longleftrightarrow> (\<forall>r. yields (m r) (\<lambda>(a, _). P a))"

lemma always_rret [always_intros]: "P a \<Longrightarrow> always (rret a) P"
  by (simp add: always_def rret_def)

lemma always_rbind [always_intros]:
  "always m (\<lambda>a. always (f a) P) \<Longrightarrow> always (rbind m f) P"
  unfolding always_def rbind_def
  by (intro allI yields_bind) (drule spec, erule yields_conseq, auto)

lemma always_rlift [always_intros]: "yields m P \<Longrightarrow> always (rlift m) P"
  unfolding always_def rlift_def by (auto intro!: yields_bind elim: yields_conseq)

lemma always_if [always_intros]:
  "(c \<Longrightarrow> always a P) \<Longrightarrow> (\<not> c \<Longrightarrow> always b P) \<Longrightarrow> always (if c then a else b) P"
  by simp

lemma always_conseq: "always m P \<Longrightarrow> (\<And>a. P a \<Longrightarrow> P' a) \<Longrightarrow> always m P'"
  unfolding always_def by (fastforce elim: yields_conseq)

lemma always_bindI:
  "always m P \<Longrightarrow> (\<And>a. P a \<Longrightarrow> always (f a) P') \<Longrightarrow> always (rbind m f) P'"
  by (rule always_rbind) (rule always_conseq)

lemma alwaysD: "always m P \<Longrightarrow> yields (m r) (\<lambda>(a, _). P a)"
  by (simp add: always_def)

lemma always_Roll [always_intros]:
  "lo \<le> hi \<Longrightarrow> - (2 ^ 62) < lo \<Longrightarrow> hi < 2 ^ 62 \<Longrightarrow> (\<And>v. lo \<le> v \<Longrightarrow> v \<le> hi \<Longrightarrow> P v) \<Longrightarrow> always (Roll lo hi) P"
  unfolding always_def by (auto intro: yields_Roll)

lemma always_dice [always_intros]:
  assumes "0 \<le> n"
  shows
    "(\<And>v. n \<le> v \<Longrightarrow> v \<le> n * 4 \<Longrightarrow> P v) \<Longrightarrow> always (D4 n) P"
    "(\<And>v. n \<le> v \<Longrightarrow> v \<le> n * 6 \<Longrightarrow> P v) \<Longrightarrow> always (D6 n) P"
    "(\<And>v. n \<le> v \<Longrightarrow> v \<le> n * 8 \<Longrightarrow> P v) \<Longrightarrow> always (D8 n) P"
    "(\<And>v. n \<le> v \<Longrightarrow> v \<le> n * 10 \<Longrightarrow> P v) \<Longrightarrow> always (D10 n) P"
    "(\<And>v. n \<le> v \<Longrightarrow> v \<le> n * 12 \<Longrightarrow> P v) \<Longrightarrow> always (D12 n) P"
    "(\<And>v. n \<le> v \<Longrightarrow> v \<le> n * 20 \<Longrightarrow> P v) \<Longrightarrow> always (D20 n) P"
    "(\<And>v. n \<le> v \<Longrightarrow> v \<le> n * 100 \<Longrightarrow> P v) \<Longrightarrow> always (D100 n) P"
  using assms unfolding always_def by (auto intro!: yields_dice)

lemma always_Shuffle [always_intros]:
  "length xs < 2 ^ 63 \<Longrightarrow> (\<And>ys. mset ys = mset xs \<Longrightarrow> P ys) \<Longrightarrow> always (Shuffle xs) P"
  unfolding always_def by (auto intro: yields_Shuffle)

lemma always_Some:
  assumes "always m P" and "m r = Some res"
  shows "\<exists>a r'. res = Inr (a, r') \<and> P a"
  using alwaysD [OF assms(1), of r] assms(2) by (auto simp: yields_def split: sum.splits)

lemma always_bump_up [always_intros]:
  assumes roll: "always roll (\<lambda>d. 1 \<le> d \<and> d \<le> k)"
    and P: "\<And>v. lo \<le> v \<Longrightarrow> v = x \<or> x < lo \<and> v < lo + k \<Longrightarrow> P v"
  shows "always (bump_up roll lo x) P"
proof -
  let ?Q = "\<lambda>(roll :: int roller) lo x (r :: prng) res. always roll (\<lambda>d. 1 \<le> d \<and> d \<le> k) \<longrightarrow>
      (\<exists>v r'. res = Inr (v, r') \<and> lo \<le> v \<and> (v = x \<or> x < lo \<and> v < lo + k))"
  have "?Q roll lo x r res" if "bump_up roll lo x r = Some res" for r res
  proof (rule bump_up.raw_induct [where P = ?Q and xa = "(((roll, lo), x), r)", unfolded prod.case, OF _ that])
    fix f :: "int roller \<Rightarrow> int \<Rightarrow> int \<Rightarrow> prng \<Rightarrow> (panic + int \<times> prng) option" and roll lo x r res
    assume IH: "\<And>roll lo x r res. f roll lo x r = Some res \<Longrightarrow> ?Q roll lo x r res"
      and eq: "(if x < lo then go_bind (roll r) (\<lambda>d. f roll lo (x + fst d) (snd d)) else ret (x, r)) = Some res"
    show "?Q roll lo x r res"
    proof (cases "x < lo")
      case True
      {
        assume a: "always roll (\<lambda>d. 1 \<le> d \<and> d \<le> k)"
        from True eq obtain q where q: "roll r = Some q" by (cases "roll r") auto
        with always_Some [OF a q] obtain d r' where d: "q = Inr (d, r')" "1 \<le> d" "d \<le> k" by auto
        with True q eq have "f roll lo (x + d) r' = Some res" by simp
        from IH [OF this] a d True have "\<exists>v r'. res = Inr (v, r') \<and> lo \<le> v \<and> (v = x \<or> x < lo \<and> v < lo + k)"
          by auto
      }
      then show ?thesis by simp
    next
      case False
      with eq show ?thesis by auto
    qed
  qed
  then show ?thesis using P roll unfolding always_def [of "bump_up roll lo x"] yields_def
    by (fastforce split: option.splits sum.splits)
qed

lemma always_bump_down [always_intros]:
  assumes roll: "always roll (\<lambda>d. 1 \<le> d \<and> d \<le> k)"
    and P: "\<And>v. v \<le> hi \<Longrightarrow> v = x \<or> hi < x \<and> hi - k < v \<Longrightarrow> P v"
  shows "always (bump_down roll hi x) P"
proof -
  let ?Q = "\<lambda>(roll :: int roller) hi x (r :: prng) res. always roll (\<lambda>d. 1 \<le> d \<and> d \<le> k) \<longrightarrow>
      (\<exists>v r'. res = Inr (v, r') \<and> v \<le> hi \<and> (v = x \<or> hi < x \<and> hi - k < v))"
  have "?Q roll hi x r res" if "bump_down roll hi x r = Some res" for r res
  proof (rule bump_down.raw_induct [where P = ?Q and xa = "(((roll, hi), x), r)", unfolded prod.case, OF _ that])
    fix f :: "int roller \<Rightarrow> int \<Rightarrow> int \<Rightarrow> prng \<Rightarrow> (panic + int \<times> prng) option" and roll hi x r res
    assume IH: "\<And>roll hi x r res. f roll hi x r = Some res \<Longrightarrow> ?Q roll hi x r res"
      and eq: "(if x > hi then go_bind (roll r) (\<lambda>d. f roll hi (x - fst d) (snd d)) else ret (x, r)) = Some res"
    show "?Q roll hi x r res"
    proof (cases "x > hi")
      case True
      {
        assume a: "always roll (\<lambda>d. 1 \<le> d \<and> d \<le> k)"
        from True eq obtain q where q: "roll r = Some q" by (cases "roll r") auto
        with always_Some [OF a q] obtain d r' where d: "q = Inr (d, r')" "1 \<le> d" "d \<le> k" by auto
        with True q eq have "f roll hi (x - d) r' = Some res" by simp
        from IH [OF this] a d True have "\<exists>v r'. res = Inr (v, r') \<and> v \<le> hi \<and> (v = x \<or> hi < x \<and> hi - k < v)"
          by auto
      }
      then show ?thesis by simp
    next
      case False
      with eq show ?thesis by auto
    qed
  qed
  then show ?thesis using P roll unfolding always_def [of "bump_down roll hi x"] yields_def
    by (fastforce split: option.splits sum.splits)
qed

lemma always_jitter [always_intros]:
  assumes "1 \<le> die" and "die < 2 ^ 62" and coin: "always coin (\<lambda>_. True)"
    and P: "\<And>v. x - int n * die \<le> v \<Longrightarrow> v \<le> x + int n * die \<Longrightarrow> P v"
  shows "always (jitter coin die n x) P"
  using P
proof (induction n arbitrary: x)
  case (Suc n)
  have step: "always (jitter coin die n (if c > 50 then x + delta else x - delta)) P"
    if "1 \<le> delta" "delta \<le> die" for delta c
    using that Suc.prems by (intro Suc.IH) (auto simp: algebra_simps split: if_splits)
  show ?case using assms(1,2) step
    by (auto intro!: always_rbind always_Roll always_conseq [OF coin])
qed (simp add: always_rret)

lemma always_repeat_rolls [always_intros]:
  assumes m: "always m (\<lambda>v. a \<le> v \<and> v \<le> b)"
    and P: "\<And>v. acc + int n * a \<le> v \<Longrightarrow> v \<le> acc + int n * b \<Longrightarrow> P v"
  shows "always (repeat_rolls m n acc) P"
  using P
proof (induction n arbitrary: acc)
  case (Suc n)
  have step: "always (repeat_rolls m n (acc + v)) P" if "a \<le> v \<and> v \<le> b" for v
    using that Suc.prems by (intro Suc.IH) (auto simp: algebra_simps)
  show ?case using step by (auto intro!: always_bindI [OF m])
qed (simp add: always_rret)

end
