(* ===== verification/Hexes.thy ===== *)
theory Hexes
  imports Prelude
begin

text \<open>
  internal/hexes/axial.go: axial hex coordinates, hex distance, the six neighbours, and the
  enumeration of a disk.  The laws of a distance are a locale, interpreted on \<open>Distance\<close>;
  the order of \<open>Disk\<close> is the linear order of the type.
\<close>

section \<open>Axial coordinates\<close>

datatype axial = Axial (hexQ: int) (hexR: int)

definition hexS :: "axial \<Rightarrow> int" where
  "hexS h = - hexQ h - hexR h"

definition go_abs :: "int \<Rightarrow> int" where
  "go_abs n = (if n < 0 then - n else n)"

definition Distance :: "axial \<Rightarrow> axial \<Rightarrow> int" where
  "Distance h other =
     (let dq = hexQ h - hexQ other;
          dr = hexR h - hexR other;
          ds = hexS h - hexS other
      in max (max (go_abs dq) (go_abs dr)) (go_abs ds))"

definition Neighbors :: "axial \<Rightarrow> axial list" where
  "Neighbors h =
     [Axial (hexQ h + 1) (hexR h),
      Axial (hexQ h + 1) (hexR h - 1),
      Axial (hexQ h) (hexR h - 1),
      Axial (hexQ h - 1) (hexR h),
      Axial (hexQ h - 1) (hexR h + 1),
      Axial (hexQ h) (hexR h + 1)]"

definition Capacity :: "int \<Rightarrow> int" where
  "Capacity r = (if r < 0 then 0 else 1 + 3 * r * (r + 1))"

definition disk_column :: "int \<Rightarrow> int \<Rightarrow> axial list" where
  "disk_column r q = map (Axial q) [max (- r) (- q - r) .. min r (- q + r)]"

definition Disk :: "int \<Rightarrow> axial list" where
  "Disk r = (if r < 0 then [] else concat (map (disk_column r) [- r .. r]))"

definition Contains :: "int \<Rightarrow> axial \<Rightarrow> bool" where
  "Contains r h \<longleftrightarrow> Distance h (Axial 0 0) \<le> r"

section \<open>The order of the enumeration\<close>

instantiation axial :: linorder
begin

definition less_eq_axial :: "axial \<Rightarrow> axial \<Rightarrow> bool" where
  "less_eq_axial a b \<longleftrightarrow> hexQ a < hexQ b \<or> (hexQ a = hexQ b \<and> hexR a \<le> hexR b)"

definition less_axial :: "axial \<Rightarrow> axial \<Rightarrow> bool" where
  "less_axial a b \<longleftrightarrow> hexQ a < hexQ b \<or> (hexQ a = hexQ b \<and> hexR a < hexR b)"

instance
  by standard (auto simp: less_eq_axial_def less_axial_def intro: axial.expand)

end

section \<open>Distance is a metric\<close>

locale hex_metric =
  fixes dist :: "'h \<Rightarrow> 'h \<Rightarrow> int"
  assumes dist_nonneg: "0 \<le> dist a b"
    and dist_zero: "dist a b = 0 \<longleftrightarrow> a = b"
    and dist_sym: "dist a b = dist b a"
    and dist_triangle: "dist a c \<le> dist a b + dist b c"
begin

text \<open>A set of pairwise distant points, and what adding a point to it needs.\<close>

lemma spread_insert:
  assumes "\<forall>a \<in> S. \<forall>b \<in> S. a \<noteq> b \<longrightarrow> d < dist a b"
    and "\<forall>a \<in> S. d < dist a x"
  shows "\<forall>a \<in> insert x S. \<forall>b \<in> insert x S. a \<noteq> b \<longrightarrow> d < dist a b"
  using assms by (auto simp: dist_sym)

lemma far_point_is_new: "0 \<le> d \<Longrightarrow> \<forall>a \<in> S. d < dist a x \<Longrightarrow> x \<notin> S"
  by (metis dist_zero not_less)

text \<open>Balls of half the minimum distance around distant points do not meet.\<close>

lemma balls_disjoint:
  assumes "2 * d < dist a b"
  shows "\<not> (dist a x \<le> d \<and> dist b x \<le> d)"
  using assms dist_triangle [of a b x] dist_sym [of x b] by linarith

end

lemma Distance_alt: "Distance a b = max (max \<bar>hexQ a - hexQ b\<bar> \<bar>hexR a - hexR b\<bar>) \<bar>(hexQ a - hexQ b) + (hexR a - hexR b)\<bar>"
  by (simp add: Distance_def Let_def go_abs_def hexS_def max_def)

lemma Distance_le:
  "Distance a b \<le> k \<longleftrightarrow> \<bar>hexQ a - hexQ b\<bar> \<le> k \<and> \<bar>hexR a - hexR b\<bar> \<le> k \<and>
     \<bar>(hexQ a - hexQ b) + (hexR a - hexR b)\<bar> \<le> k"
  by (auto simp: Distance_alt)

lemma Distance_ge:
  "\<bar>hexQ a - hexQ b\<bar> \<le> Distance a b" "\<bar>hexR a - hexR b\<bar> \<le> Distance a b"
  "\<bar>(hexQ a - hexQ b) + (hexR a - hexR b)\<bar> \<le> Distance a b"
  by (auto simp: Distance_alt)

interpretation hex: hex_metric Distance
proof
  show "Distance a b = 0 \<longleftrightarrow> a = b" for a b
    by (auto simp: Distance_alt max_def intro: axial.expand split: if_splits)
  show "Distance a c \<le> Distance a b + Distance b c" for a b c
  proof -
    have "\<bar>hexQ a - hexQ c\<bar> \<le> \<bar>hexQ a - hexQ b\<bar> + \<bar>hexQ b - hexQ c\<bar>"
      "\<bar>hexR a - hexR c\<bar> \<le> \<bar>hexR a - hexR b\<bar> + \<bar>hexR b - hexR c\<bar>"
      "\<bar>(hexQ a - hexQ c) + (hexR a - hexR c)\<bar> \<le>
         \<bar>(hexQ a - hexQ b) + (hexR a - hexR b)\<bar> + \<bar>(hexQ b - hexQ c) + (hexR b - hexR c)\<bar>"
      by linarith+
    then show ?thesis using Distance_ge [of a b] Distance_ge [of b c]
      unfolding Distance_le by linarith
  qed
qed (auto simp: Distance_alt max_def abs_if)

section \<open>The disk\<close>

lemma set_Disk: "h \<in> set (Disk r) \<longleftrightarrow> Contains r h"
  by (cases h) (force simp: Disk_def disk_column_def Contains_def Distance_alt image_iff)

lemma sorted_disk_column: "sorted_wrt (<) (disk_column r q)"
  by (simp add: disk_column_def sorted_wrt_map less_axial_def)

lemma sorted_concat_columns:
  "sorted_wrt (<) qs \<Longrightarrow> sorted_wrt (<) (concat (map (disk_column r) qs))"
proof (induction qs)
  case (Cons q qs)
  have "x < y" if "x \<in> set (disk_column r q)" "y \<in> set (concat (map (disk_column r) qs))" for x y
    using that Cons.prems by (auto simp: disk_column_def less_axial_def)
  with Cons show ?case by (simp add: sorted_wrt_append sorted_disk_column)
qed simp

lemma sorted_Disk: "sorted_wrt (<) (Disk r)"
  by (simp add: Disk_def sorted_concat_columns)

lemma distinct_Disk: "distinct (Disk r)"
  using sorted_Disk strict_sorted_iff by blast

lemma length_disk_column: "- r \<le> q \<Longrightarrow> q \<le> r \<Longrightarrow> int (length (disk_column r q)) = 2 * r + 1 - \<bar>q\<bar>"
  by (simp add: disk_column_def max_def min_def)

lemma sum_abs_upto: "(\<Sum>q\<leftarrow>[- int n .. int n]. 2 * r + 1 - \<bar>q\<bar>) = (2 * int n + 1) * (2 * r + 1) - int n * (int n + 1)"
proof (induction n)
  case (Suc n)
  have "[- int (Suc n) .. int (Suc n)] = - int (Suc n) # [- int (Suc n) + 1 .. int (Suc n)]"
    by (rule upto_rec1) simp
  also have "[- int (Suc n) + 1 .. int (Suc n)] = [- int (Suc n) + 1 .. int (Suc n) - 1] @ [int (Suc n)]"
    by (rule upto_rec2) simp
  finally have "[- int (Suc n) .. int (Suc n)] = - int (Suc n) # [- int n .. int n] @ [int (Suc n)]"
    by simp
  then show ?case using Suc by (simp add: algebra_simps)
qed simp

lemma int_length_concat: "int (length (concat xss)) = (\<Sum>xs\<leftarrow>xss. int (length xs))"
  by (induction xss) simp_all

lemma length_Disk: "int (length (Disk r)) = Capacity r"
proof (cases "r < 0")
  case False
  then obtain n where n: "r = int n" by (metis nat_0_le not_less)
  have "int (length (Disk r)) = (\<Sum>q\<leftarrow>[- r .. r]. int (length (disk_column r q)))"
    using False by (simp add: Disk_def int_length_concat comp_def)
  also have "\<dots> = (\<Sum>q\<leftarrow>[- r .. r]. 2 * r + 1 - \<bar>q\<bar>)"
    by (intro arg_cong [where f = sum_list] map_cong) (auto simp: length_disk_column)
  also have "\<dots> = Capacity r"
    using n by (simp only: sum_abs_upto) (simp add: Capacity_def algebra_simps)
  finally show ?thesis .
qed (simp add: Disk_def Capacity_def)

section \<open>Neighbours\<close>

lemma Neighbors_iff: "g \<in> set (Neighbors h) \<longleftrightarrow> Distance h g = 1"
proof -
  have "hexQ g = hexQ h + a \<and> hexR g = hexR h + b \<longleftrightarrow> g = Axial (hexQ h + a) (hexR h + b)" for a b
    by (cases g) auto
  then have m: "g \<in> set (Neighbors h) \<longleftrightarrow>
      (hexQ g - hexQ h, hexR g - hexR h) \<in> {(1, 0), (1, - 1), (0, - 1), (- 1, 0), (- 1, 1), (0, 1)}"
    by (cases g) (auto simp: Neighbors_def)
  show ?thesis
  proof
    assume "Distance h g = 1"
    then have "\<bar>hexQ h - hexQ g\<bar> \<le> 1" "\<bar>hexR h - hexR g\<bar> \<le> 1"
      "\<bar>(hexQ h - hexQ g) + (hexR h - hexR g)\<bar> \<le> 1" and ne: "h \<noteq> g"
      using Distance_le [of h g 1] hex.dist_zero [of h g] by auto
    then have "hexQ g - hexQ h \<in> {- 1, 0, 1}" "hexR g - hexR h \<in> {- 1, 0, 1}"
      "\<bar>(hexQ g - hexQ h) + (hexR g - hexR h)\<bar> \<le> 1" by auto
    moreover have "\<not> (hexQ g - hexQ h = 0 \<and> hexR g - hexR h = 0)" using ne by (auto intro: axial.expand)
    ultimately show "g \<in> set (Neighbors h)" unfolding m by auto
  next
    assume "g \<in> set (Neighbors h)"
    then show "Distance h g = 1" by (auto simp: Neighbors_def Distance_alt)
  qed
qed

lemma distinct_Neighbors: "distinct (Neighbors h)"
  by (simp add: Neighbors_def)

section \<open>Properties\<close>

text \<open>\<open>Disk r\<close> lists exactly the hexes that \<open>Contains r\<close> accepts, each once and in the order
  of \<open>q\<close>, then \<open>r\<close>; their number is \<open>Capacity r\<close>.\<close>

theorem Disk_enumerates:
  "set (Disk r) = {h. Contains r h} \<and> sorted_wrt (<) (Disk r) \<and> distinct (Disk r) \<and>
   int (length (Disk r)) = Capacity r"
  using set_Disk sorted_Disk distinct_Disk length_Disk by auto

text \<open>\<open>Distance\<close> is a metric, and the neighbours of a hex are the six hexes at distance 1.\<close>

theorem Distance_metric_neighbors:
  "0 \<le> Distance a b \<and> (Distance a b = 0 \<longleftrightarrow> a = b) \<and> Distance a b = Distance b a \<and>
   Distance a c \<le> Distance a b + Distance b c \<and>
   set (Neighbors a) = {h. Distance a h = 1} \<and> card {h. Distance a h = 1} = 6"
proof -
  have s: "set (Neighbors a) = {h. Distance a h = 1}" using Neighbors_iff by auto
  have "card (set (Neighbors a)) = 6" using distinct_card [OF distinct_Neighbors, of a] by (simp add: Neighbors_def)
  then show ?thesis
    using s hex.dist_nonneg [of a b] hex.dist_zero [of a b] hex.dist_sym [of a b] hex.dist_triangle [of a c b] by auto
qed

end
