(* ===== verification/Placement.thy ===== *)
theory Placement
  imports Prng Hexes
begin

text \<open>
  internal/worldgen/placement.go: choosing system hexes in a disk with a minimum distance,
  merging or discarding candidates that are too close.  The Go function returns a slice and
  an \<open>error\<close>; the model returns the pair of both, the error as an option.
\<close>

record hexPlacement =
  hp_Hex :: axial
  hp_Stars :: int

datatype placeError =
    NegativeSystems
  | NegativeRadius
  | NegativeMinimumDistance
  | ExceedsCapacity int int
  | CouldOnlyPlace int int int bool

section \<open>The nearest placement within a distance\<close>

text \<open>The scan over the placements, with its index, the best distance so far and the tied indices.\<close>

fun nearest_scan :: "axial \<Rightarrow> int \<Rightarrow> hexPlacement list \<Rightarrow> int \<Rightarrow> int \<Rightarrow> int list \<Rightarrow> int list" where
  "nearest_scan candidate limit [] i bestDist tied = tied"
| "nearest_scan candidate limit (p # ps) i bestDist tied =
     (let d = Distance (hp_Hex p) candidate in
      if d > limit then nearest_scan candidate limit ps (i + 1) bestDist tied
      else if bestDist < 0 \<or> d < bestDist then nearest_scan candidate limit ps (i + 1) d [i]
      else if d = bestDist then nearest_scan candidate limit ps (i + 1) bestDist (tied @ [i])
      else nearest_scan candidate limit ps (i + 1) bestDist tied)"

definition nearestPlacementWithinDistance ::
    "prng \<Rightarrow> hexPlacement list \<Rightarrow> axial \<Rightarrow> int \<Rightarrow> (int \<times> prng) go" where
  "nearestPlacementWithinDistance rng placements candidate limit =
     (let tied = nearest_scan candidate limit placements 0 (- 1) [] in
      if length tied = 0 then ret (- 1, rng)
      else if length tied = 1 then go_bind (go_index tied 0) (\<lambda>i. ret (i, rng))
      else go_bind (Roll 0 (int (length tied) - 1) rng)
             (\<lambda>(k, rng). go_bind (go_index tied k) (\<lambda>i. ret (i, rng))))"

section \<open>Placing systems\<close>

text \<open>The loop over the shuffled candidates; the flag says whether \<open>n\<close> placements were reached.\<close>

fun place_candidates ::
    "int \<Rightarrow> int \<Rightarrow> bool \<Rightarrow> axial list \<Rightarrow> hexPlacement list \<Rightarrow> prng \<Rightarrow> ((hexPlacement list \<times> bool) \<times> prng) go" where
  "place_candidates n minimumDistance merge [] placements rng = ret ((placements, False), rng)"
| "place_candidates n minimumDistance merge (candidate # rest) placements rng =
     go_bind (nearestPlacementWithinDistance rng placements candidate minimumDistance)
       (\<lambda>(idx, rng).
          if idx \<ge> 0 then
            go_bind (go_index placements idx)
              (\<lambda>p. place_candidates n minimumDistance merge rest
                     (if merge \<and> hp_Stars p < 5 then placements[nat idx := p\<lparr>hp_Stars := hp_Stars p + 1\<rparr>]
                      else placements) rng)
          else
            let placements = placements @ [\<lparr>hp_Hex = candidate, hp_Stars = 1\<rparr>] in
            if int (length placements) = n then ret ((placements, True), rng)
            else place_candidates n minimumDistance merge rest placements rng)"

definition placeHexSystems ::
    "prng \<Rightarrow> int \<Rightarrow> int \<Rightarrow> int \<Rightarrow> bool \<Rightarrow> ((hexPlacement list \<times> placeError option) \<times> prng) go" where
  "placeHexSystems rng r n minimumDistance merge =
     (if n < 0 then ret (([], Some NegativeSystems), rng)
      else if n = 0 then ret (([], None), rng)
      else if r < 0 then ret (([], Some NegativeRadius), rng)
      else if minimumDistance < 0 then ret (([], Some NegativeMinimumDistance), rng)
      else let disk = Disk r in
        if n > int (length disk) \<and> \<not> merge then ret (([], Some (ExceedsCapacity n (int (length disk)))), rng)
        else go_bind (Shuffle disk rng)
          (\<lambda>(disk, rng). go_bind (place_candidates n minimumDistance merge disk [] rng)
            (\<lambda>((placements, filled), rng).
               if filled then ret ((placements, None), rng)
               else ret ((placements, Some (CouldOnlyPlace (int (length placements)) r minimumDistance merge)), rng))))"

section \<open>The scan finds exactly the nearest placements\<close>

definition nearest_state :: "axial \<Rightarrow> int \<Rightarrow> hexPlacement list \<Rightarrow> int \<Rightarrow> int list \<Rightarrow> bool" where
  "nearest_state c limit ps best tied \<longleftrightarrow>
     (best < 0 \<and> tied = [] \<and> (\<forall>p \<in> set ps. limit < Distance (hp_Hex p) c)) \<or>
     (0 \<le> best \<and> best \<le> limit \<and> tied \<noteq> [] \<and> length tied \<le> length ps \<and>
      set tied = {i. 0 \<le> i \<and> i < int (length ps) \<and> Distance (hp_Hex (ps ! nat i)) c = best} \<and>
      (\<forall>p \<in> set ps. limit < Distance (hp_Hex p) c \<or> best \<le> Distance (hp_Hex p) c))"

lemma nearest_state_snoc:
  assumes "nearest_state c limit ps best tied"
  defines "d p \<equiv> Distance (hp_Hex p) c"
  shows "limit < d p \<Longrightarrow> nearest_state c limit (ps @ [p]) best tied"
    and "d p \<le> limit \<Longrightarrow> best < 0 \<or> d p < best \<Longrightarrow> nearest_state c limit (ps @ [p]) (d p) [int (length ps)]"
    and "d p \<le> limit \<Longrightarrow> \<not> (best < 0 \<or> d p < best) \<Longrightarrow> d p = best \<Longrightarrow>
      nearest_state c limit (ps @ [p]) best (tied @ [int (length ps)])"
    and "d p \<le> limit \<Longrightarrow> \<not> (best < 0 \<or> d p < best) \<Longrightarrow> d p \<noteq> best \<Longrightarrow>
      nearest_state c limit (ps @ [p]) best tied"
proof -
  have idx: "{i. 0 \<le> i \<and> i < int (length (ps @ [p])) \<and> Distance (hp_Hex ((ps @ [p]) ! nat i)) c = b} =
      {i. 0 \<le> i \<and> i < int (length ps) \<and> Distance (hp_Hex (ps ! nat i)) c = b} \<union>
      (if d p = b then {int (length ps)} else {})" for b
    by (auto simp: nth_append d_def split: if_splits)
  have none: "best < 0 \<or> d p < best \<Longrightarrow> d p \<le> limit \<Longrightarrow>
      {i. 0 \<le> i \<and> i < int (length ps) \<and> Distance (hp_Hex (ps ! nat i)) c = d p} = {}"
    using assms(1) nth_mem [of "nat i" ps for i] unfolding nearest_state_def d_def
    by (smt (verit, best) Collect_empty_eq nat_less_iff)
  have nn: "0 \<le> d q" for q by (simp add: d_def hex.dist_nonneg)
  note st = assms(1)[unfolded nearest_state_def, folded d_def]
  show "limit < d p \<Longrightarrow> nearest_state c limit (ps @ [p]) best tied"
    using st unfolding nearest_state_def idx by (auto simp flip: d_def)
  show "d p \<le> limit \<Longrightarrow> best < 0 \<or> d p < best \<Longrightarrow> nearest_state c limit (ps @ [p]) (d p) [int (length ps)]"
    using st none nn [of p] unfolding nearest_state_def idx by (fastforce simp flip: d_def)
  show "d p \<le> limit \<Longrightarrow> \<not> (best < 0 \<or> d p < best) \<Longrightarrow> d p = best \<Longrightarrow>
      nearest_state c limit (ps @ [p]) best (tied @ [int (length ps)])"
    using st nn [of p] unfolding nearest_state_def idx by (auto simp flip: d_def)
  show "d p \<le> limit \<Longrightarrow> \<not> (best < 0 \<or> d p < best) \<Longrightarrow> d p \<noteq> best \<Longrightarrow>
      nearest_state c limit (ps @ [p]) best tied"
    using st nn [of p] unfolding nearest_state_def idx by (auto simp flip: d_def)
qed

lemma nearest_scan_state:
  "nearest_state c limit qs best tied \<Longrightarrow>
     \<exists>best'. nearest_state c limit (qs @ ps) best' (nearest_scan c limit ps (int (length qs)) best tied)"
proof (induction ps arbitrary: qs best tied)
  case (Cons p ps)
  note snoc = nearest_state_snoc [OF Cons.prems, of p]
  have IH: "nearest_state c limit (qs @ [p]) b t \<Longrightarrow>
      \<exists>b'. nearest_state c limit (qs @ p # ps) b' (nearest_scan c limit ps (int (length qs) + 1) b t)" for b t
    using Cons.IH [of "qs @ [p]" b t] by (simp add: add.commute)
  show ?case using snoc IH by (simp add: Let_def not_less)
qed auto

definition nearest_choice :: "hexPlacement list \<Rightarrow> axial \<Rightarrow> int \<Rightarrow> int \<Rightarrow> bool" where
  "nearest_choice ps c limit idx \<longleftrightarrow>
     (idx = - 1 \<and> (\<forall>p \<in> set ps. limit < Distance (hp_Hex p) c)) \<or>
     (0 \<le> idx \<and> idx < int (length ps) \<and> Distance (hp_Hex (ps ! nat idx)) c \<le> limit \<and>
      (\<forall>p \<in> set ps. Distance (hp_Hex (ps ! nat idx)) c \<le> Distance (hp_Hex p) c))"

lemma nearest_state_choice:
  "nearest_state c limit ps best tied \<Longrightarrow> i \<in> set tied \<Longrightarrow> nearest_choice ps c limit i"
  unfolding nearest_state_def nearest_choice_def by fastforce

lemma yields_nearest [yields_intros]:
  assumes "length placements < 2 ^ 61"
    and "\<And>idx rng'. nearest_choice placements c limit idx \<Longrightarrow> P (idx, rng')"
  shows "yields (nearestPlacementWithinDistance rng placements c limit) P"
proof -
  have "nearest_state c limit [] (- 1) []" by (simp add: nearest_state_def)
  from nearest_scan_state [OF this] obtain best where
    st: "nearest_state c limit placements best (nearest_scan c limit placements 0 (- 1) [])" by auto
  define tied where "tied = nearest_scan c limit placements 0 (- 1) []"
  have mem: "P (tied ! k, r)" if "k < length tied" for k r
    using that st nearest_state_choice assms(2) by (auto simp: tied_def)
  have none: "tied = [] \<Longrightarrow> P (- 1, r)" for r
    using st by (intro assms(2)) (auto simp: nearest_choice_def nearest_state_def tied_def)
  have "length tied < 2 ^ 61"
    using st assms(1) by (auto simp: nearest_state_def tied_def)
  show ?thesis
    unfolding nearestPlacementWithinDistance_def Let_def tied_def [symmetric]
    using mem none \<open>length tied < 2 ^ 61\<close> by (auto intro!: yields_intros)
qed

section \<open>What the loop keeps true\<close>

text \<open>
  \<open>placed U d merge ps\<close>: after the candidates \<open>U\<close> were consumed, the placements are distinct
  hexes of \<open>U\<close>, pairwise farther apart than \<open>d\<close>, with 1 to 5 stars each (exactly one without
  merging), and every consumed candidate lies within \<open>d\<close> of a placement.
\<close>

definition placed :: "axial set \<Rightarrow> int \<Rightarrow> bool \<Rightarrow> hexPlacement list \<Rightarrow> bool" where
  "placed U d merge ps \<longleftrightarrow>
     distinct (map hp_Hex ps) \<and> hp_Hex ` set ps \<subseteq> U \<and>
     (\<forall>a \<in> hp_Hex ` set ps. \<forall>b \<in> hp_Hex ` set ps. a \<noteq> b \<longrightarrow> d < Distance a b) \<and>
     (\<forall>p \<in> set ps. 1 \<le> hp_Stars p \<and> hp_Stars p \<le> 5 \<and> (\<not> merge \<longrightarrow> hp_Stars p = 1)) \<and>
     (\<forall>h \<in> U. \<exists>p \<in> set ps. Distance (hp_Hex p) h \<le> d)"

lemma placed_empty: "placed {} d merge []"
  by (simp add: placed_def)

lemma map_hex_bump:
  "i < length ps \<Longrightarrow> map hp_Hex (ps[i := (ps ! i)\<lparr>hp_Stars := k\<rparr>]) = map hp_Hex ps"
  by (simp add: map_update list_update_same_conv)

lemma placed_bump:
  assumes "placed U d merge ps" and "i < length ps" and "1 \<le> k" and "k \<le> 5" and "merge"
  shows "placed U d merge (ps[i := (ps ! i)\<lparr>hp_Stars := k\<rparr>])"
proof -
  let ?qs = "ps[i := (ps ! i)\<lparr>hp_Stars := k\<rparr>]"
  have m: "map hp_Hex ?qs = map hp_Hex ps" using assms(2) by (rule map_hex_bump)
  then have im: "hp_Hex ` set ?qs = hp_Hex ` set ps" by (metis set_map)
  have cover: "\<exists>p \<in> set ?qs. Distance (hp_Hex p) h \<le> d" if "h \<in> U" for h
  proof -
    from that assms(1) obtain p where "p \<in> set ps" "Distance (hp_Hex p) h \<le> d"
      by (auto simp: placed_def)
    moreover from this im obtain q where "q \<in> set ?qs" "hp_Hex q = hp_Hex p" by (metis imageE imageI)
    ultimately show ?thesis by metis
  qed
  have "1 \<le> hp_Stars p \<and> hp_Stars p \<le> 5" if "p \<in> set ?qs" for p
    using set_update_subset_insert [of ps i] that assms by (force simp: placed_def)
  with assms m im cover show ?thesis unfolding placed_def by simp
qed

lemma placed_merge:
  assumes "placed U d merge ps" and "p \<in> set ps" and "Distance (hp_Hex p) c \<le> d"
  shows "placed (insert c U) d merge ps"
  using assms unfolding placed_def by blast

lemma placed_new:
  assumes "placed U d merge ps" and "0 \<le> d" and "\<forall>p \<in> set ps. d < Distance (hp_Hex p) c"
  shows "placed (insert c U) d merge (ps @ [\<lparr>hp_Hex = c, hp_Stars = 1\<rparr>])"
proof -
  have far: "\<forall>a \<in> hp_Hex ` set ps. d < Distance a c" using assms(3) by simp
  have new: "c \<notin> hp_Hex ` set ps" using assms(2) far by (rule hex.far_point_is_new)
  have im: "hp_Hex ` set (ps @ [\<lparr>hp_Hex = c, hp_Stars = 1\<rparr>]) = insert c (hp_Hex ` set ps)" by auto
  have "\<forall>a \<in> insert c (hp_Hex ` set ps). \<forall>b \<in> insert c (hp_Hex ` set ps). a \<noteq> b \<longrightarrow> d < Distance a b"
    using assms(1) far by (intro hex.spread_insert) (auto simp: placed_def)
  moreover have "Distance c c \<le> d" using hex.dist_zero [of c c] assms(2) by simp
  ultimately show ?thesis using assms(1) new unfolding placed_def im by auto
qed

lemma yields_place_candidates:
  assumes "placed U d merge ps" and "0 \<le> d" and "int (length ps) < n"
    and "length ps + length cs < 2 ^ 61"
    and "\<And>ps' filled rng' V. placed V d merge ps' \<Longrightarrow> U \<subseteq> V \<Longrightarrow> V \<subseteq> U \<union> set cs \<Longrightarrow>
      (if filled then int (length ps') = n else int (length ps') < n \<and> V = U \<union> set cs) \<Longrightarrow>
      P ((ps', filled), rng')"
  shows "yields (place_candidates n d merge cs ps rng) P"
  using assms
proof (induction cs arbitrary: U ps rng)
  case Nil
  show ?case using Nil.prems(5) [of U ps False rng] Nil.prems by simp
next
  case (Cons c cs)
  have IH: "yields (place_candidates n d merge cs qs rng') P"
    if "placed (insert c U) d merge qs" "int (length qs) < n" "length qs + length cs < 2 ^ 61" for qs rng'
    using that Cons.prems(2,5) by (intro Cons.IH [of "insert c U"]) auto
  have near: "yields (place_candidates n d merge cs
        (if merge \<and> hp_Stars (ps ! nat idx) < 5
         then ps[nat idx := (ps ! nat idx)\<lparr>hp_Stars := hp_Stars (ps ! nat idx) + 1\<rparr>] else ps) rng') P"
    if "0 \<le> idx" "idx < int (length ps)" "Distance (hp_Hex (ps ! nat idx)) c \<le> d" for idx rng'
  proof (rule IH)
    have pi: "nat idx < length ps" "ps ! nat idx \<in> set ps" using that by auto
    have "placed (insert c U) d merge ps" using Cons.prems(1) pi(2) that(3) by (rule placed_merge)
    moreover have "1 \<le> hp_Stars (ps ! nat idx)" using Cons.prems(1) pi(2) by (simp add: placed_def)
    ultimately show "placed (insert c U) d merge
        (if merge \<and> hp_Stars (ps ! nat idx) < 5
         then ps[nat idx := (ps ! nat idx)\<lparr>hp_Stars := hp_Stars (ps ! nat idx) + 1\<rparr>] else ps)"
      using pi by (cases merge) (simp_all add: placed_bump)
  qed (use Cons.prems(3,4) in auto)
  have far: "placed (insert c U) d merge (ps @ [\<lparr>hp_Hex = c, hp_Stars = 1\<rparr>])"
    if "\<forall>p \<in> set ps. d < Distance (hp_Hex p) c"
    using Cons.prems(1,2) that by (rule placed_new)
  have done': "P ((ps @ [\<lparr>hp_Hex = c, hp_Stars = 1\<rparr>], True), rng')"
    if "\<forall>p \<in> set ps. d < Distance (hp_Hex p) c" "int (length ps) + 1 = n" for rng'
    using far [OF that(1)] that(2) by (intro Cons.prems(5) [of "insert c U"]) auto
  have step: "yields ((\<lambda>(idx, rng).
          if idx \<ge> 0 then
            go_bind (go_index ps idx)
              (\<lambda>p. place_candidates n d merge cs
                     (if merge \<and> hp_Stars p < 5 then ps[nat idx := p\<lparr>hp_Stars := hp_Stars p + 1\<rparr>] else ps) rng)
          else
            let ps = ps @ [\<lparr>hp_Hex = c, hp_Stars = 1\<rparr>] in
            if int (length ps) = n then ret ((ps, True), rng)
            else place_candidates n d merge cs ps rng) (idx, rng')) P"
    if "nearest_choice ps c d idx" for idx rng'
  proof (cases "0 \<le> idx")
    case True
    with that have "idx < int (length ps)" "Distance (hp_Hex (ps ! nat idx)) c \<le> d"
      by (auto simp: nearest_choice_def)
    with True near [of idx rng'] show ?thesis by (simp add: go_index_def)
  next
    case False
    with that have new: "\<forall>p \<in> set ps. d < Distance (hp_Hex p) c" by (auto simp: nearest_choice_def)
    show ?thesis
      using False done' [OF new] IH [OF far [OF new]] Cons.prems(3,4) by (simp add: Let_def)
  qed
  show ?case
    unfolding place_candidates.simps
    by (intro yields_bind yields_nearest step) (use Cons.prems(4) in auto)
qed

lemma length_Disk_bound: assumes "r \<le> 2 ^ 29" shows "length (Disk r) < 2 ^ 61"
proof (cases "r < 0")
  case False
  have "3 * r * (r + 1) \<le> 3 * 2 ^ 29 * (2 ^ 29 + 1)"
    using False assms by (intro mult_mono) auto
  then have "int (length (Disk r)) < 2 ^ 61" using False by (simp add: length_Disk Capacity_def)
  then show ?thesis by simp
qed (simp add: Disk_def)

text \<open>The outcome of \<open>placeHexSystems\<close> for arguments that pass its guards.\<close>

definition placement_post ::
    "int \<Rightarrow> int \<Rightarrow> int \<Rightarrow> bool \<Rightarrow> hexPlacement list \<times> placeError option \<Rightarrow> bool" where
  "placement_post r n d merge res \<longleftrightarrow>
     (\<exists>V. V \<subseteq> set (Disk r) \<and> placed V d merge (fst res) \<and>
       (case snd res of
          None \<Rightarrow> int (length (fst res)) = n
        | Some e \<Rightarrow>
            (e = ExceedsCapacity n (Capacity r) \<and> fst res = [] \<and> Capacity r < n \<and> \<not> merge) \<or>
            (e = CouldOnlyPlace (int (length (fst res))) r d merge \<and> int (length (fst res)) < n \<and>
             V = set (Disk r))))"

lemma yields_placeHexSystems:
  assumes "0 < n" and "0 \<le> r" and "0 \<le> d" and "r \<le> 2 ^ 29"
    and "\<And>res rng'. placement_post r n d merge res \<Longrightarrow> P (res, rng')"
  shows "yields (placeHexSystems rng r n d merge) P"
proof -
  have exceeds: "P (([], Some (ExceedsCapacity n (int (length (Disk r))))), rng')"
    if "int (length (Disk r)) < n" "\<not> merge" for rng'
    using that by (intro assms(5)) (auto simp: placement_post_def length_Disk intro!: exI [of _ "{}"] placed_empty)
  have fin: "P ((ps, if filled then None else Some (CouldOnlyPlace (int (length ps)) r d merge)), rng')"
    if "placed V d merge ps" "V \<subseteq> set (Disk r)"
      "if filled then int (length ps) = n else int (length ps) < n \<and> V = set (Disk r)"
    for ps filled V rng'
    using that by (intro assms(5)) (auto simp: placement_post_def split: if_splits)
  have run: "yields (place_candidates n d merge disk [] rng')
      (\<lambda>a. yields ((\<lambda>((placements, filled), rng).
               if filled then ret ((placements, None), rng)
               else ret ((placements, Some (CouldOnlyPlace (int (length placements)) r d merge)), rng)) a) P)"
    if "mset disk = mset (Disk r)" for disk rng'
  proof (rule yields_place_candidates [OF placed_empty])
    have s: "set disk = set (Disk r)" using that by (rule mset_eq_setD)
    have "length disk = length (Disk r)" using that by (rule mset_eq_length)
    then show "length ([] :: hexPlacement list) + length disk < 2 ^ 61"
      using length_Disk_bound [OF assms(4)] by simp
    fix ps' filled rng'' V
    assume "placed V d merge ps'" "V \<subseteq> {} \<union> set disk"
      "if filled then int (length ps') = n else int (length ps') < n \<and> V = {} \<union> set disk"
    with fin [of V ps' filled] s show "yields ((\<lambda>((placements, filled), rng).
               if filled then ret ((placements, None), rng)
               else ret ((placements, Some (CouldOnlyPlace (int (length placements)) r d merge)), rng))
             ((ps', filled), rng'')) P" by (cases filled) auto
  qed (use assms in auto)
  show ?thesis
    using assms(1-3) exceeds run length_Disk_bound [OF assms(4)]
    by (auto simp: placeHexSystems_def Let_def intro!: yields_bind yields_Shuffle)
qed

text \<open>The contract for all arguments: which are refused, when too many systems are refused outright, and what is
  placed otherwise.\<close>

definition placement_contract ::
    "int \<Rightarrow> int \<Rightarrow> int \<Rightarrow> bool \<Rightarrow> hexPlacement list \<times> placeError option \<Rightarrow> bool" where
  "placement_contract r n d merge res \<longleftrightarrow>
     (if n < 0 then res = ([], Some NegativeSystems)
      else if n = 0 then res = ([], None)
      else if r < 0 then res = ([], Some NegativeRadius)
      else if d < 0 then res = ([], Some NegativeMinimumDistance)
      else if \<not> merge \<and> Capacity r < n then res = ([], Some (ExceedsCapacity n (Capacity r)))
      else \<exists>V. V \<subseteq> set (Disk r) \<and> placed V d merge (fst res) \<and>
        (snd res = None \<and> int (length (fst res)) = n \<or>
         snd res = Some (CouldOnlyPlace (int (length (fst res))) r d merge) \<and> int (length (fst res)) < n \<and> V = set (Disk r)))"

lemma yields_placement_contract:
  assumes "r \<le> 2 ^ 29"
  shows "yields (placeHexSystems rng r n d merge) (\<lambda>(res, rng'). placement_contract r n d merge res)"
proof (cases "0 < n \<and> 0 \<le> r \<and> 0 \<le> d \<and> \<not> (\<not> merge \<and> Capacity r < n)")
  case True
  then show ?thesis using assms
    by (intro yields_placeHexSystems) (auto simp: placement_post_def placement_contract_def split: option.splits)
next
  case False
  then show ?thesis by (auto simp: placeHexSystems_def placement_contract_def Let_def length_Disk)
qed

section \<open>Properties\<close>

text \<open>C10.  \<open>placeHexSystems\<close> refuses negative arguments and, without merging, more systems than the disk has
  hexes: then it places nothing.  For all other arguments it returns placements on distinct hexes of the disk, pairwise
  farther apart than the minimum distance, with one to five stars (exactly one without merging): as many as
  asked for, or fewer together with an error, and then every hex of the disk is within the minimum distance of a
  placement, so that no further system fits.\<close>

theorem placeHexSystems_correct:
  assumes "r \<le> 2 ^ 29"
  shows "yields (placeHexSystems rng r n d merge) (\<lambda>(res, rng'). placement_contract r n d merge res)"
  by (rule yields_placement_contract [OF assms])

theorem placeHexSystems_correct_witness:
  "yields (placeHexSystems (NewPCG 10 10) 15 100 2 True) (\<lambda>(res, rng'). placement_contract 15 100 2 True res) \<and>
   yields (placeHexSystems (NewPCG 10 10) 1 8 0 False) (\<lambda>(res, rng'). res = ([], Some (ExceedsCapacity 8 7)))"
  using placeHexSystems_correct [of 15 "NewPCG 10 10" 100 2 True] placeHexSystems_correct [of 1 "NewPCG 10 10" 8 0 False]
  by (simp add: placement_contract_def Capacity_def)

end
