(* ===== verification/Worlds.thy ===== *)
theory Worlds
  imports Prelude Float64 Hexes
begin

text \<open>
  The data of internal/worldgen: systems.go, stars.go, planets.go, the \<open>Cluster\<close> of cluster.go
  and its read-only helpers.  A Go \<open>const\<close> enumeration is a datatype; its \<open>String\<close> method is
  total on it, so the \<open>default\<close> branch of the switch (an integer outside the enumeration) has
  no counterpart, except for \<open>AtmosphericGas\<close>, which the generators count through as an
  integer.  A \<open>map[AtmosphericGas]int\<close> is an association list with distinct keys.
\<close>

section \<open>Systems, stars and planets\<close>

record system =
  sys_ID :: int
  sys_Hex :: axial
  sys_HomeSystem :: bool

datatype starType = StarDwarf | StarDegenerate | StarMainSequence | StarGiant

datatype starColor =
  ColorBlue | ColorBlueWhite | ColorWhite | ColorYellowWhite | ColorYellow | ColorOrange | ColorRed

record star =
  star_ID :: int
  star_SystemID :: int
  star_Kind :: starType
  star_Color :: starColor
  star_Size :: int
  star_NumPlanets :: int

fun starType_String :: "starType \<Rightarrow> string" where
  "starType_String StarDwarf = ''dwarf''"
| "starType_String StarDegenerate = ''degenerate''"
| "starType_String StarMainSequence = ''main-sequence''"
| "starType_String StarGiant = ''giant''"

fun starColor_String :: "starColor \<Rightarrow> string" where
  "starColor_String ColorBlue = ''blue''"
| "starColor_String ColorBlueWhite = ''blue-white''"
| "starColor_String ColorWhite = ''white''"
| "starColor_String ColorYellowWhite = ''yellow-white''"
| "starColor_String ColorYellow = ''yellow''"
| "starColor_String ColorOrange = ''orange''"
| "starColor_String ColorRed = ''red''"

datatype planetKind = KindRocky | KindGasGiant | KindAsteroidBelt

fun planetKind_String :: "planetKind \<Rightarrow> string" where
  "planetKind_String KindRocky = ''rocky''"
| "planetKind_String KindGasGiant = ''gas giant''"
| "planetKind_String KindAsteroidBelt = ''asteroid belt''"

definition planetKindFromDiameter :: "int \<Rightarrow> planetKind" where
  "planetKindFromDiameter diameter = (if diameter > 40 then KindGasGiant else KindRocky)"

type_synonym atmosphericGas = int

definition GasHe :: atmosphericGas where "GasHe = 3"
definition GasNH3 :: atmosphericGas where "GasNH3 = 4"
definition GasN2 :: atmosphericGas where "GasN2 = 5"
definition GasCO2 :: atmosphericGas where "GasCO2 = 6"
definition GasO2 :: atmosphericGas where "GasO2 = 7"

definition gas_String :: "atmosphericGas \<Rightarrow> string" where
  "gas_String g =
     (if 1 \<le> g \<and> g \<le> 13 then
        [''H2'', ''CH4'', ''He'', ''NH3'', ''N2'', ''CO2'', ''O2'', ''HCl'', ''Cl2'', ''F2'',
         ''H2O'', ''SO2'', ''H2S''] ! nat (g - 1)
      else ''?'')"

record planetSpecial =
  NotSpecial :: bool
  IdealHomePlanet :: bool
  IdealColony :: bool
  RadioactiveHell :: bool

definition no_special :: planetSpecial where
  "no_special = \<lparr>NotSpecial = False, IdealHomePlanet = False, IdealColony = False, RadioactiveHell = False\<rparr>"

record planet =
  planet_ID :: int
  planet_StarID :: int
  planet_Orbit :: int
  planet_Kind :: planetKind
  planet_Diameter :: int
  planet_Density :: rat
  planet_Gravity :: rat
  planet_TemperatureClass :: int
  planet_PressureClass :: int
  planet_Special :: planetSpecial
  planet_Gases :: "(atmosphericGas \<times> int) list"
  planet_MiningDifficulty :: rat

section \<open>Deposits and home-star templates\<close>

datatype resource = Fuel | Gold | Metal | NonMetal

fun resource_String :: "resource \<Rightarrow> string" where
  "resource_String Fuel = ''fuel''"
| "resource_String Gold = ''gold''"
| "resource_String Metal = ''metal''"
| "resource_String NonMetal = ''non-metal''"

fun resource_Label :: "resource \<Rightarrow> string" where
  "resource_Label Fuel = ''Fuel''"
| "resource_Label Gold = ''Gold''"
| "resource_Label Metal = ''Metals''"
| "resource_Label NonMetal = ''Non-Metals''"

fun resource_UnitCode :: "resource \<Rightarrow> string" where
  "resource_UnitCode Fuel = ''FUEL''"
| "resource_UnitCode Gold = ''GOLD''"
| "resource_UnitCode Metal = ''METS''"
| "resource_UnitCode NonMetal = ''NMTS''"

record deposit =
  dep_ID :: int
  dep_PlanetID :: int
  dep_Resource :: resource
  dep_Quantity :: int
  dep_YieldPct :: rat
  dep_MiningDifficulty :: rat

record templateGas =
  tg_Gas :: atmosphericGas
  tg_Percent :: int

record templatePlanet =
  tp_Kind :: planetKind
  tp_Diameter :: int
  tp_Gravity :: int
  tp_TemperatureClass :: int
  tp_PressureClass :: int
  tp_MiningDifficulty :: int
  tp_Atmosphere :: "templateGas list"
  tp_Special :: int

record homeStarTemplate =
  tmpl_NumPlanets :: int
  tmpl_Planets :: "templatePlanet list"
  tmpl_ViabilityScore :: int

record viabilityWindow =
  vw_Min :: int
  vw_Max :: int

definition Accepts :: "viabilityWindow \<Rightarrow> int \<Rightarrow> bool" where
  "Accepts w score \<longleftrightarrow> score > vw_Min w \<and> score < vw_Max w"

definition DefaultViabilityWindow :: viabilityWindow where
  "DefaultViabilityWindow = \<lparr>vw_Min = 53, vw_Max = 57\<rparr>"

definition DefaultMaxCandidateRolls :: int where
  "DefaultMaxCandidateRolls = 10000"

record homeStarTemplateOutcome =
  hso_NumPlanets :: int
  hso_Template :: "homeStarTemplate option"
  hso_Attempts :: int
  hso_BestScore :: int

section \<open>The cluster and its helpers\<close>

record cluster =
  cl_Radius :: int
  cl_Systems :: "system list"
  cl_Stars :: "star list"
  cl_Planets :: "planet list"
  cl_Deposits :: "deposit list"
  cl_HomeStarTemplates :: "homeStarTemplateOutcome option list"

definition StarsForSystem :: "cluster \<Rightarrow> int \<Rightarrow> star list" where
  "StarsForSystem c sysID = filter (\<lambda>s. star_SystemID s = sysID) (cl_Stars c)"

definition PlanetsForStar :: "cluster \<Rightarrow> int \<Rightarrow> planet list" where
  "PlanetsForStar c starID = filter (\<lambda>p. planet_StarID p = starID) (cl_Planets c)"

definition PlanetsForSystem :: "cluster \<Rightarrow> int \<Rightarrow> planet list" where
  "PlanetsForSystem c sysID =
     (let starIDs = map star_ID (filter (\<lambda>s. star_SystemID s = sysID) (cl_Stars c))
      in filter (\<lambda>p. planet_StarID p \<in> set starIDs) (cl_Planets c))"

definition DepositsForPlanet :: "cluster \<Rightarrow> int \<Rightarrow> deposit list" where
  "DepositsForPlanet c planetID = filter (\<lambda>d. dep_PlanetID d = planetID) (cl_Deposits c)"

definition TotalStars :: "cluster \<Rightarrow> int" where
  "TotalStars c = int (length (cl_Stars c))"

definition TotalPlanets :: "cluster \<Rightarrow> int" where
  "TotalPlanets c = int (length (cl_Planets c))"

definition TotalDeposits :: "cluster \<Rightarrow> int" where
  "TotalDeposits c = int (length (cl_Deposits c))"

text \<open>\<open>counts[s.SystemID]++\<close> over the stars, as an association list.\<close>

fun bump_count :: "int \<Rightarrow> (int \<times> int) list \<Rightarrow> (int \<times> int) list" where
  "bump_count k [] = [(k, 1)]"
| "bump_count k ((k', n) # m) = (if k = k' then (k', n + 1) # m else (k', n) # bump_count k m)"

definition CountMultiStarSystems :: "cluster \<Rightarrow> int" where
  "CountMultiStarSystems c =
     (let counts = fold (\<lambda>s m. bump_count (star_SystemID s) m) (cl_Stars c) []
      in int (length (filter (\<lambda>(_, v). v > 1) counts)))"

lemma bump_count_keys: "set (map fst (bump_count k m)) = insert k (set (map fst m))"
proof (induction k m rule: bump_count.induct)
  case (2 k k' n m)
  then show ?case by (cases "k = k'") (simp_all add: insert_commute)
qed simp

lemma bump_count_distinct: "distinct (map fst m) \<Longrightarrow> distinct (map fst (bump_count k m))"
proof (induction k m rule: bump_count.induct)
  case (2 k k' n m)
  then show ?case using bump_count_keys [of k m] by (cases "k = k'") simp_all
qed simp

lemma bump_count_lookup:
  "map_of (bump_count k m) j =
     (if j = k then Some (case map_of m k of None \<Rightarrow> 1 | Some n \<Rightarrow> n + 1) else map_of m j)"
  by (induction m) auto

lemma fold_bump_count:
  assumes "distinct (map fst m)"
  shows "distinct (map fst (fold (\<lambda>s. bump_count (f s)) xs m))"
    and "map_of (fold (\<lambda>s. bump_count (f s)) xs m) j =
      (if map_of m j = None \<and> j \<notin> f ` set xs then None
       else Some ((case map_of m j of None \<Rightarrow> 0 | Some n \<Rightarrow> n) + int (length (filter (\<lambda>s. f s = j) xs))))"
  using assms
proof (induction xs arbitrary: m)
  case (Cons x xs)
  {
    case 1 then show ?case using Cons.IH(1) bump_count_distinct by simp
  next
    case 2 then show ?case
      using Cons.IH(2) [of "bump_count (f x) m"] bump_count_distinct
      by (auto simp: bump_count_lookup split: option.splits)
  }
qed (auto split: option.splits)

text \<open>The count of \<open>CountMultiStarSystems\<close> is the number of system IDs with two stars or more.\<close>

lemma CountMultiStarSystems_card:
  "CountMultiStarSystems c = int (card {i. 1 < length (StarsForSystem c i)})"
proof -
  define m where "m = fold (\<lambda>s. bump_count (star_SystemID s)) (cl_Stars c) []"
  have d: "distinct (map fst m)" unfolding m_def by (rule fold_bump_count(1)) simp
  have l: "map_of m j = (if j \<notin> star_SystemID ` set (cl_Stars c) then None
      else Some (int (length (StarsForSystem c j))))" for j
    unfolding m_def StarsForSystem_def by (subst fold_bump_count(2)) auto
  have mem: "(j, v) \<in> set m \<longleftrightarrow> map_of m j = Some v" for j v
    using d by (simp add: map_of_eq_Some_iff)
  have pos: "j \<in> star_SystemID ` set (cl_Stars c)" if "1 < length (StarsForSystem c j)" for j
    using that by (auto simp: StarsForSystem_def) (metis (mono_tags, lifting) One_nat_def filter_False image_eqI length_0_conv not_less_zero)
  have "distinct (map fst (filter (\<lambda>(_, v). v > 1) m))" using d by (rule distinct_map_filter)
  then have "length (filter (\<lambda>(_, v). v > 1) m) = card (fst ` set (filter (\<lambda>(_, v). v > 1) m))"
    by (metis distinct_card length_map set_map)
  also have "fst ` set (filter (\<lambda>(_, v). v > 1) m) = {i. 1 < length (StarsForSystem c i)}"
    using pos by (force simp: mem l image_iff split: if_splits)
  finally show ?thesis by (simp add: CountMultiStarSystems_def m_def)
qed

section \<open>Properties\<close>

text \<open>\<open>CountMultiStarSystems\<close> counts the system identifiers that two stars or more refer to.\<close>

theorem CountMultiStarSystems_counts:
  "CountMultiStarSystems c = int (card {i. 1 < length (StarsForSystem c i)})"
  by (rule CountMultiStarSystems_card)

end
