(* ===== verification/Generator.thy ===== *)
theory Generator
  imports Rolls Placement Worlds "HOL-Library.AList"
begin

text \<open>
  internal/worldgen/generator.go: rolling a star and its planets (\<open>rollStar\<close>, \<open>rollPlanet\<close>)
  and stamping them with their identifiers (\<open>GenerateCluster\<close>).  \<open>rollPlanet\<close> is one long
  method; its stages (diameter, density, temperature, pressure, atmosphere, mining) are
  definitions of their own, composed in \<open>rollPlanet\<close> in the order the method has them, so that
  the sequence of random numbers is consumed as the code consumes it.
\<close>

section \<open>One planet\<close>

definition seedDiameter :: "int list" where
  "seedDiameter = [0, 5, 12, 13, 7, 20, 143, 121, 51, 49]"

definition seedTemperatureClass :: "int list" where
  "seedTemperatureClass = [0, 29, 27, 11, 9, 8, 6, 5, 5, 3]"

definition seed_index :: "int \<Rightarrow> int \<Rightarrow> int go" where
  "seed_index numPlanets orbit =
     (if numPlanets \<le> 3 then ret (2 * orbit + 1) else go_div (9 * orbit) numPlanets)"

definition die_size :: "int \<Rightarrow> int" where
  "die_size x = (let d = quot_int x 4 in if d < 2 then 2 else d)"

definition roll_diameter :: "int \<Rightarrow> int roller" where
  "roll_diameter seed =
     rbind (jitter (D100 1) (die_size seed) 4 seed) (\<lambda>d. bump_up (D4 1) 3 d)"

definition roll_density :: "bool \<Rightarrow> rat roller" where
  "roll_density isGasGiant =
     (if isGasGiant
      then rbind (Roll 1 56) (\<lambda>a. rbind (Roll 1 56) (\<lambda>b. rret (float_div (float_of_int (58 + a + b)) 100)))
      else rbind (Roll 1 101) (\<lambda>a. rbind (Roll 1 101) (\<lambda>b. rret (float_div (float_of_int (368 + a + b)) 100))))"

definition planet_gravity :: "rat \<Rightarrow> int \<Rightarrow> rat" where
  "planet_gravity density diameter = float_div (float_mul density (float_of_int diameter)) 72"

text \<open>Three dice give the number of deltas that are applied to a class.\<close>

definition roll_class :: "int \<Rightarrow> int roller" where
  "roll_class x =
     rbind (repeat_rolls (Roll 1 3) 3 0) (\<lambda>n. jitter (D100 1) (die_size x) (nat n) x)"

definition roll_temperature :: "int \<Rightarrow> bool \<Rightarrow> int \<Rightarrow> int \<Rightarrow> int option \<Rightarrow> int roller" where
  "roll_temperature seed isGasGiant numPlanets orbit previousTC =
     rbind (roll_class seed) (\<lambda>tc.
     let (minTC, maxTC) = (if isGasGiant then (3, 7) else (1, 30)) in
     rbind (bump_up (Roll 1 2) minTC tc) (\<lambda>tc.
     rbind (bump_down (Roll 1 2) maxTC tc) (\<lambda>tc.
     rbind (if numPlanets < 4 \<and> orbit < 3 then bump_up (Roll 1 4) 12 tc else rret tc) (\<lambda>tc.
     rret (case previousTC of None \<Rightarrow> tc | Some prev \<Rightarrow> if prev < tc then prev else tc)))))"

definition roll_pressure :: "rat \<Rightarrow> bool \<Rightarrow> int roller" where
  "roll_pressure gravity isGasGiant =
     rbind (roll_class (float_floor (float_mul gravity 10))) (\<lambda>pc.
     let (minPC, maxPC) = (if isGasGiant then (11, 29) else (0, 12)) in
     rbind (bump_up (Roll 1 3) minPC pc) (\<lambda>pc. bump_down (Roll 1 3) maxPC pc))"

section \<open>The atmosphere\<close>

definition gas_window :: "int \<Rightarrow> int \<times> int" where
  "gas_window tc =
     (let n = quot_int (100 * tc) 225 in
      if n \<le> 1 then (1, 5) else if n = 2 then (2, 6) else if n = 3 then (3, 7)
      else if n = 4 then (4, 8) else if n = 5 then (5, 9) else if n = 6 then (6, 10)
      else if n = 7 then (7, 11) else if n = 8 then (8, 12) else (9, 13))"

type_synonym gases = "(atmosphericGas \<times> int) list"

text \<open>
  The loop over the window.  \<open>wanted\<close> gases end it; helium needs a cold planet and is skipped
  more often; the first gas found is remembered.
\<close>

fun gas_scan :: "int \<Rightarrow> int \<Rightarrow> atmosphericGas list \<Rightarrow> gases \<Rightarrow> atmosphericGas \<Rightarrow> (gases \<times> atmosphericGas) roller" where
  "gas_scan wanted tc [] gases firstGas = rret (gases, firstGas)"
| "gas_scan wanted tc (i # is) gases firstGas =
     (if int (length gases) = wanted then rret (gases, firstGas)
      else if i = GasHe \<and> tc > 5 then gas_scan wanted tc is gases firstGas
      else let (skipChance, maxQty) = (if i = GasHe then (2, 20) else if i = GasO2 then (3, 50) else (3, 100)) in
        rbind (Roll 1 3) (\<lambda>skip.
          if skip \<ge> skipChance then gas_scan wanted tc is gases firstGas
          else rbind (Roll 1 maxQty) (\<lambda>qty.
            let gases = AList.update i qty gases in
            gas_scan wanted tc is gases (if length gases = 1 then i else firstGas))))"

partial_function (option) gas_retry ::
    "int \<Rightarrow> int \<Rightarrow> atmosphericGas list \<Rightarrow> gases \<Rightarrow> atmosphericGas \<Rightarrow> prng \<Rightarrow> (panic + (gases \<times> atmosphericGas) \<times> prng) option" where
  "gas_retry wanted tc window gases firstGas r =
     (if length gases = 0
      then go_bind (gas_scan wanted tc window gases firstGas r)
             (\<lambda>x. gas_retry wanted tc window (fst (fst x)) (snd (fst x)) (snd x))
      else ret ((gases, firstGas), r))"

fun gas_percentages :: "int \<Rightarrow> gases \<Rightarrow> gases go" where
  "gas_percentages tot [] = ret []"
| "gas_percentages tot ((gas, quantity) # m) =
     go_bind (go_div (100 * quantity) tot) (\<lambda>pct.
     go_bind (gas_percentages tot m) (\<lambda>m. ret ((gas, pct) # m)))"

definition gas_add :: "atmosphericGas \<Rightarrow> int \<Rightarrow> gases \<Rightarrow> gases" where
  "gas_add gas n gases = AList.update gas ((case map_of gases gas of None \<Rightarrow> 0 | Some q \<Rightarrow> q) + n) gases"

definition normalize_gases :: "gases \<Rightarrow> atmosphericGas \<Rightarrow> gases go" where
  "normalize_gases gases firstGas =
     (let totalQuantity = sum_list (map snd gases) in
      go_bind (gas_percentages totalQuantity gases)
        (\<lambda>gases. ret (gas_add firstGas (100 - sum_list (map snd gases)) gases)))"

definition roll_atmosphere :: "int \<Rightarrow> int \<Rightarrow> gases roller" where
  "roll_atmosphere tc pc =
     (if pc > 0 then
        rbind (D4 2) (\<lambda>d.
        let numberOfGasesWanted = quot_int d 2; (minGas, maxGas) = gas_window tc in
        rbind (gas_retry numberOfGasesWanted tc [minGas..maxGas] [] 0) (\<lambda>(gases, firstGas).
        rlift (normalize_gases gases firstGas)))
      else rret [])"

section \<open>Mining difficulty and the whole planet\<close>

definition mining_try :: "int \<Rightarrow> rat roller" where
  "mining_try diameter =
     rbind (Roll 1 3) (\<lambda>a. rbind (Roll 1 3) (\<lambda>b. rbind (Roll 1 4) (\<lambda>c.
     rbind (Roll 1 diameter) (\<lambda>d. rbind (Roll 1 30) (\<lambda>e. rbind (Roll 1 30) (\<lambda>f.
     rret (float_of_int ((a + b - c) * d + e + f))))))))"

partial_function (option) mining_loop :: "int \<Rightarrow> prng \<Rightarrow> (panic + rat \<times> prng) option" where
  "mining_loop diameter r =
     go_bind (mining_try diameter r) (\<lambda>x.
       if fst x \<ge> 40 \<and> fst x \<le> 500 then ret x else mining_loop diameter (snd x))"

definition rollPlanet :: "star \<Rightarrow> int \<Rightarrow> planet option \<Rightarrow> planet roller" where
  "rollPlanet star orbit previousPlanet =
     rbind (rlift (seed_index (star_NumPlanets star) orbit)) (\<lambda>seedIndex.
     rbind (rlift (go_index seedDiameter seedIndex)) (\<lambda>diameter0.
     rbind (rlift (go_index seedTemperatureClass seedIndex)) (\<lambda>tc0.
     rbind (roll_diameter diameter0) (\<lambda>diameter.
     let kind = planetKindFromDiameter diameter; isGasGiant = (kind = KindGasGiant) in
     rbind (roll_density isGasGiant) (\<lambda>density.
     let gravity = planet_gravity density diameter in
     rbind (roll_temperature tc0 isGasGiant (star_NumPlanets star) orbit
              (map_option planet_TemperatureClass previousPlanet)) (\<lambda>tc.
     rbind (roll_pressure gravity isGasGiant) (\<lambda>pc.
     rbind (roll_atmosphere tc pc) (\<lambda>gases.
     rbind (mining_loop diameter) (\<lambda>md.
     rret \<lparr>planet_ID = 0, planet_StarID = 0, planet_Orbit = 0, planet_Kind = kind,
           planet_Diameter = diameter, planet_Density = density, planet_Gravity = gravity,
           planet_TemperatureClass = tc, planet_PressureClass = pc, planet_Special = no_special,
           planet_Gases = gases, planet_MiningDifficulty = float_div (float_mul md 11) 5\<rparr>)))))))))"

section \<open>One star with its planets\<close>

definition roll_kind :: "starType roller" where
  "roll_kind = rbind (Roll 1 10) (\<lambda>v.
     rret (if v = 1 then StarDwarf else if v = 2 then StarDegenerate
           else if v = 3 then StarGiant else StarMainSequence))"

definition roll_color :: "starColor roller" where
  "roll_color = rbind (Roll 1 7) (\<lambda>v.
     if v = 1 then rret ColorBlue else if v = 2 then rret ColorBlueWhite
     else if v = 3 then rret ColorWhite else if v = 4 then rret ColorYellowWhite
     else if v = 5 then rret ColorYellow else if v = 6 then rret ColorOrange
     else if v = 7 then rret ColorRed else rpanic Assertion)"

fun color_die :: "starColor \<Rightarrow> int" where
  "color_die ColorBlue = 8"
| "color_die ColorBlueWhite = 7"
| "color_die ColorWhite = 6"
| "color_die ColorYellowWhite = 5"
| "color_die ColorYellow = 4"
| "color_die ColorOrange = 3"
| "color_die ColorRed = 2"

fun kind_rolls :: "starType \<Rightarrow> nat" where
  "kind_rolls StarDwarf = 1"
| "kind_rolls StarDegenerate = 2"
| "kind_rolls StarMainSequence = 2"
| "kind_rolls StarGiant = 3"

definition roll_num_planets :: "starType \<Rightarrow> starColor \<Rightarrow> int roller" where
  "roll_num_planets kind color =
     rbind (repeat_rolls (Roll 1 (color_die color)) (kind_rolls kind) (- 2)) (\<lambda>n.
     rbind (bump_up (Roll 1 2) 1 n) (\<lambda>n. bump_down (Roll 1 3) 9 n))"

fun roll_planets :: "star \<Rightarrow> nat \<Rightarrow> int \<Rightarrow> planet option \<Rightarrow> planet list roller" where
  "roll_planets star 0 orbit previousPlanet = rret []"
| "roll_planets star (Suc n) orbit previousPlanet =
     rbind (rollPlanet star orbit previousPlanet) (\<lambda>p.
     rbind (roll_planets star n (orbit + 1) (Some p)) (\<lambda>ps. rret (p # ps)))"

definition rollStar :: "(star \<times> planet list) roller" where
  "rollStar =
     rbind roll_kind (\<lambda>kind. rbind roll_color (\<lambda>color. rbind (D10 1) (\<lambda>size.
     rbind (roll_num_planets kind color) (\<lambda>n.
     let star = \<lparr>star_ID = 0, star_SystemID = 0, star_Kind = kind, star_Color = color,
                 star_Size = size - 1, star_NumPlanets = n\<rparr> in
     rbind (roll_planets star (nat n) 1 None) (\<lambda>planets. rret (star, planets))))))"

section \<open>GenerateCluster\<close>

record clusterOptions =
  co_Radius :: int
  co_NumSystems :: int
  co_MinimumDistance :: int
  co_Merge :: bool

text \<open>The three counters of \<open>GenerateCluster\<close> and the slices it appends to.\<close>

record gen_state =
  nextSystemID :: int
  nextStarID :: int
  nextPlanetID :: int
  gen_systems :: "system list"
  gen_stars :: "star list"
  gen_planets :: "planet list"

definition gen_init :: gen_state where
  "gen_init = \<lparr>nextSystemID = 1, nextStarID = 1, nextPlanetID = 1,
               gen_systems = [], gen_stars = [], gen_planets = []\<rparr>"

fun stamp_planets :: "int \<Rightarrow> int \<Rightarrow> planet list \<Rightarrow> gen_state \<Rightarrow> gen_state" where
  "stamp_planets starID orbit [] g = g"
| "stamp_planets starID orbit (p # ps) g =
     stamp_planets starID (orbit + 1) ps
       (g\<lparr>nextPlanetID := nextPlanetID g + 1,
         gen_planets := gen_planets g @
           [p\<lparr>planet_ID := nextPlanetID g, planet_StarID := starID, planet_Orbit := orbit + 1\<rparr>]\<rparr>)"

fun stamp_stars :: "int \<Rightarrow> nat \<Rightarrow> gen_state \<Rightarrow> gen_state roller" where
  "stamp_stars sysID 0 g = rret g"
| "stamp_stars sysID (Suc n) g =
     rbind rollStar (\<lambda>(star, planets).
     let starID = nextStarID g;
         g = stamp_planets starID 0 planets (g\<lparr>nextStarID := starID + 1\<rparr>) in
     stamp_stars sysID n
       (g\<lparr>gen_stars := gen_stars g @ [star\<lparr>star_ID := starID, star_SystemID := sysID\<rparr>]\<rparr>))"

fun stamp_systems :: "hexPlacement list \<Rightarrow> gen_state \<Rightarrow> gen_state roller" where
  "stamp_systems [] g = rret g"
| "stamp_systems (p # ps) g =
     (let sys = \<lparr>sys_ID = nextSystemID g, sys_Hex = hp_Hex p, sys_HomeSystem = False\<rparr> in
      rbind (stamp_stars (sys_ID sys) (nat (hp_Stars p)) (g\<lparr>nextSystemID := nextSystemID g + 1\<rparr>))
        (\<lambda>g. stamp_systems ps (g\<lparr>gen_systems := gen_systems g @ [sys]\<rparr>)))"

definition GenerateCluster :: "clusterOptions \<Rightarrow> (cluster \<times> placeError option) roller" where
  "GenerateCluster opts rng =
     (let (rngPlacement, rng) = Split rng; (rngStars, rng) = Split rng in
      go_bind (placeHexSystems rngPlacement (co_Radius opts) (co_NumSystems opts)
                 (co_MinimumDistance opts) (co_Merge opts)) (\<lambda>((placements, err), _).
      go_bind (stamp_systems placements gen_init rngStars) (\<lambda>(g, _).
      ret ((\<lparr>cl_Radius = co_Radius opts, cl_Systems = gen_systems g, cl_Stars = gen_stars g,
             cl_Planets = gen_planets g, cl_Deposits = [], cl_HomeStarTemplates = []\<rparr>, err), rng))))"

section \<open>Bounds of the stages\<close>

lemma always_D100_coin [always_intros]: "always (D100 1) (\<lambda>_. True)"
  by (rule always_dice) simp_all

lemma die_size_bounds: "2 \<le> die_size x \<and> die_size x \<le> max 2 (quot_int x 4)"
  by (simp add: die_size_def Let_def)

lemma always_roll_diameter:
  assumes "0 \<le> seed" and "seed \<le> 143"
  shows "always (roll_diameter seed) (\<lambda>d. 3 \<le> d \<and> d \<le> max 6 (seed + 4 * max 2 (seed div 4)))"
proof -
  have q: "quot_int seed 4 = seed div 4" using assms by (intro quot_int_nonneg) simp_all
  have d: "2 \<le> die_size seed" "die_size seed \<le> max 2 (seed div 4)" "die_size seed \<le> 35"
    using assms die_size_bounds [of seed] q by (simp_all, linarith)
  have "seed + 4 * die_size seed \<le> seed + 4 * max 2 (seed div 4)" using d by simp
  then show ?thesis using d unfolding roll_diameter_def
    by (intro always_intros always_bump_up [where k = 4]) auto
qed

definition density_ok :: "bool \<Rightarrow> rat \<Rightarrow> bool" where
  "density_ok gg d \<longleftrightarrow>
     (let (lo, hi) = (if gg then (60, 170) else (370, 570))
      in float_div (float_of_int lo) 100 \<le> d \<and> d \<le> float_div (float_of_int hi) 100)"

lemma float_of_int_mono: "a \<le> b \<Longrightarrow> float_of_int a \<le> float_of_int b"
  by (simp add: float_of_int_def fl64_mono)

lemma float_div_mono: "x \<le> y \<Longrightarrow> 0 < c \<Longrightarrow> float_div x c \<le> float_div y c"
  by (simp add: float_div_def fl64_mono divide_right_mono)

lemma always_roll_density: "always (roll_density gg) (density_ok gg)"
  unfolding roll_density_def density_ok_def
  by (auto intro!: always_intros float_div_mono float_of_int_mono)

lemma density_ok_bounds: 
  assumes "density_ok gg d"
  shows "0 \<le> d \<and> d \<le> 6"
proof -
  have "0 \<le> float_div (float_of_int k) 100 \<and> float_div (float_of_int k) 100 \<le> 6" if "0 \<le> k" "k \<le> 600" for k
    using that f64.between_ints [of 0 "of_int k / 100" 6] by (simp add: float_ops fl64_int)
  then have "0 \<le> float_div (float_of_int 60) 100" "float_div (float_of_int 170) 100 \<le> 6"
     "0 \<le> float_div (float_of_int 370) 100" "float_div (float_of_int 570) 100 \<le> 6"
    by simp_all
  with assms show ?thesis by (auto simp: density_ok_def split: if_splits)
qed

lemma planet_gravity_bounds: 
  assumes "density_ok gg d" "3 \<le> n" "n \<le> 283"
  shows "0 \<le> planet_gravity d n \<and> planet_gravity d n \<le> 24"
proof -
  have d: "0 \<le> d" "d \<le> 6" using density_ok_bounds [OF assms(1)] by auto
  have n: "float_of_int n = of_int n" using assms by (simp add: float_ops fl64_int)
  have "d * of_int n \<le> 6 * 283" using d assms by (intro mult_mono) auto
  then have "0 \<le> float_mul d (of_int n)" "float_mul d (of_int n) \<le> 1698"
    using f64.between_ints [of 0 "d * of_int n" 1698] d assms by (simp_all add: float_mul_def)
  then show ?thesis
    using f64.between_ints [of 0 "float_mul d (of_int n) / 72" 24] 
    by (simp add: planet_gravity_def n float_div_def)
qed

lemma always_roll_class:
  assumes "\<bar>x\<bar> < 2 ^ 52"
  shows "always (roll_class x) (\<lambda>_. True)"
proof -
  have "quot_int x 4 \<le> \<bar>x\<bar>" by (auto simp: quot_int_def sgn_if)
  then have d: "1 \<le> die_size x" "die_size x < 2 ^ 62" using die_size_bounds [of x] assms by auto
  show ?thesis unfolding roll_class_def
    using d by (auto intro!: always_intros always_repeat_rolls [where a = 1 and b = 3])
qed

lemma always_roll_temperature:
  assumes seed: "\<bar>seed\<bar> < 2 ^ 52" and prev: "case prev of None \<Rightarrow> True | Some t \<Rightarrow> 1 \<le> t"
  shows "always (roll_temperature seed gg np orbit prev) (\<lambda>tc. 1 \<le> tc \<and>
      tc \<le> (if gg then if np < 4 \<and> orbit < 3 then 15 else 7 else 30) \<and> (case prev of None \<Rightarrow> True | Some t \<Rightarrow> tc \<le> t))"
    (is "always _ ?P")
proof -
  define lo where "lo = (if gg then 3 else 1 :: int)"
  define hi where "hi = (if gg then 7 else 30 :: int)"
  have clamp: "(if gg then (3, 7) else (1, 30)) = (lo, hi)" by (simp add: lo_def hi_def)
  have lh: "1 \<le> lo" "lo + 2 \<le> hi" by (auto simp: lo_def hi_def)
  have fin: "always (rret (case prev of None \<Rightarrow> tc | Some prev \<Rightarrow> if prev < tc then prev else tc)) ?P"
    if "1 \<le> tc" "tc \<le> hi \<or> np < 4 \<and> orbit < 3 \<and> tc \<le> 15" for tc
    using that prev by (auto intro!: always_rret simp: hi_def split: option.splits)
  have warm: "always (rbind (if np < 4 \<and> orbit < 3 then bump_up (Roll 1 4) 12 tc else rret tc)
      (\<lambda>tc. rret (case prev of None \<Rightarrow> tc | Some prev \<Rightarrow> if prev < tc then prev else tc))) ?P"
    if "1 \<le> tc" "tc \<le> hi" for tc
    using that by (intro always_rbind always_if always_bump_up [where k = 4] always_rret always_Roll fin) auto
  have step: "always (rbind (bump_down (Roll 1 2) hi tc) (\<lambda>tc. rbind (if np < 4 \<and> orbit < 3 then bump_up (Roll 1 4) 12 tc else rret tc)
      (\<lambda>tc. rret (case prev of None \<Rightarrow> tc | Some prev \<Rightarrow> if prev < tc then prev else tc)))) ?P"
    if "lo \<le> tc" for tc
    using that lh by (intro always_rbind always_bump_down [where k = 2] always_Roll warm) auto
  show ?thesis unfolding roll_temperature_def clamp Let_def prod.case
    by (rule always_bindI [OF always_roll_class [OF seed]], rule always_rbind, rule always_bump_up [where k = 2],
        rule always_Roll) ((rule step, assumption) | simp)+
qed

lemma always_roll_pressure:
  assumes "0 \<le> g" and "g \<le> 24"
  shows "always (roll_pressure g gg) (\<lambda>pc. if gg then 11 \<le> pc \<and> pc \<le> 29 else 0 \<le> pc \<and> pc \<le> 12)"
proof -
  have "0 \<le> float_mul g 10 \<and> float_mul g 10 \<le> 240"
    using f64.between_ints [of 0 "g * 10" 240] assms by (simp add: float_mul_def)
  then have x: "\<bar>float_floor (float_mul g 10)\<bar> < 2 ^ 52" by (simp add: float_floor_def)
  define lo where "lo = (if gg then 11 else 0 :: int)"
  define hi where "hi = (if gg then 29 else 12 :: int)"
  have clamp: "(if gg then (11, 29) else (0, 12)) = (lo, hi)"
    and lh: "lo + 3 \<le> hi" by (auto simp: lo_def hi_def)
  have post: "(if gg then 11 \<le> pc \<and> pc \<le> 29 else 0 \<le> pc \<and> pc \<le> 12) \<longleftrightarrow> lo \<le> pc \<and> pc \<le> hi" for pc
    by (simp add: lo_def hi_def)
  show ?thesis unfolding roll_pressure_def clamp Let_def prod.case post
    using lh by (intro always_bindI [OF always_roll_class [OF x]] always_rbind
        always_bump_up [where k = 3] always_bump_down [where k = 3] always_Roll) auto
qed

section \<open>The atmosphere adds up to 100 percent\<close>

text \<open>
  A well-formed atmosphere: at most four gases of the table, each once, with percentages that
  are not negative and add up to 100; a planet without pressure has none.
\<close>

definition gases_ok :: "gases \<Rightarrow> bool" where
  "gases_ok gases \<longleftrightarrow> gases \<noteq> [] \<and> length gases \<le> 4 \<and> distinct (map fst gases) \<and>
     (\<forall>(g, q) \<in> set gases. 1 \<le> g \<and> g \<le> 13 \<and> 0 \<le> q \<and> q \<le> 100) \<and> sum_list (map snd gases) = 100"

text \<open>What the scan keeps: the quantities are positive, the first gas is in the list.\<close>

definition found_ok :: "int \<Rightarrow> gases \<times> atmosphericGas \<Rightarrow> bool" where
  "found_ok wanted x = (case x of (gases, firstGas) \<Rightarrow>
     int (length gases) \<le> wanted \<and> distinct (map fst gases) \<and>
     (\<forall>(g, q) \<in> set gases. 1 \<le> g \<and> g \<le> 13 \<and> 1 \<le> q) \<and> (gases \<noteq> [] \<longrightarrow> firstGas \<in> fst ` set gases))"

lemma length_update_le: "length (AList.update k v m) = (if k \<in> fst ` set m then length m else length m + 1)"
  by (induction m) auto

lemma set_update: "set (AList.update k v m) \<subseteq> insert (k, v) (set m)"
  by (induction m) auto

lemma always_gas_scan:
  assumes "found_ok wanted (gases, firstGas)" and "set is \<subseteq> {1..13}"
  shows "always (gas_scan wanted tc is gases firstGas) (found_ok wanted)"
  using assms
proof (induction wanted tc "is" gases firstGas rule: gas_scan.induct)
  case (1 wanted tc gases firstGas)
  then show ?case by (auto intro: always_rret)
next
  case (2 wanted tc i "is" gases firstGas)
  have add: "found_ok wanted (AList.update i q gases, if length (AList.update i q gases) = 1 then i else firstGas)"
    if "int (length gases) \<noteq> wanted" "1 \<le> q" for q
    using "2.prems" that
    by (auto simp: found_ok_def length_update_le distinct_update dom_update dest!: subsetD [OF set_update] split: if_splits)
  show ?case
  proof (cases "int (length gases) = wanted \<or> i = GasHe \<and> tc > 5")
    case True
    then show ?thesis using 2 by (auto intro: always_rret)
  next
    case False
    define sc where "sc = (if i = GasHe then 2 else 3 :: int)"
    define mq where "mq = (if i = GasHe then 20 else if i = GasO2 then 50 else 100 :: int)"
    have sm: "(if i = GasHe then (2, 20) else if i = GasO2 then (3, 50) else (3, 100)) = (sc, mq)"
      and mq: "1 \<le> mq" "mq < 2 ^ 62" by (auto simp: sc_def mq_def)
    have take: "always (Roll 1 mq) (\<lambda>q. 1 \<le> q)" using mq by (auto intro: always_Roll)
    have skip: "always (Roll 1 3) (\<lambda>_. True)" by (auto intro: always_Roll)
    show ?thesis
      unfolding gas_scan.simps if_not_P [OF False [THEN conjunct1 [OF iffD1 [OF de_Morgan_disj]]]]
        if_not_P [OF False [THEN conjunct2 [OF iffD1 [OF de_Morgan_disj]]]] sm Let_def prod.case
      apply (rule always_bindI [OF skip])
      using False 2 sm add by (auto intro!: always_bindI [OF take] always_if simp: Let_def)
  qed
qed


lemma always_gas_retry:
  assumes "found_ok wanted (gases, firstGas)" and "set window \<subseteq> {1..13}"
  shows "always (gas_retry wanted tc window gases firstGas) (\<lambda>x. found_ok wanted x \<and> fst x \<noteq> [])"
proof -
  let ?Q = "\<lambda>wanted tc window gases firstGas (r :: prng) res.
      found_ok wanted (gases, firstGas) \<and> set window \<subseteq> {1..13} \<longrightarrow>
      (\<exists>x r'. res = Inr (x, r') \<and> found_ok wanted x \<and> fst x \<noteq> [])"
  have "?Q wanted tc window gases firstGas r res" if "gas_retry wanted tc window gases firstGas r = Some res" for r res
  proof (rule gas_retry.raw_induct [where P = ?Q, OF _ that])
    fix f :: "int \<Rightarrow> int \<Rightarrow> atmosphericGas list \<Rightarrow> gases \<Rightarrow> atmosphericGas \<Rightarrow> prng \<Rightarrow> (panic + (gases \<times> atmosphericGas) \<times> prng) option"
      and wanted tc window gases firstGas r res
    assume IH: "\<And>wanted tc window gases firstGas r res.
        f wanted tc window gases firstGas r = Some res \<Longrightarrow> ?Q wanted tc window gases firstGas r res"
      and eq: "(if length gases = 0
        then go_bind (gas_scan wanted tc window gases firstGas r)
               (\<lambda>x. f wanted tc window (fst (fst x)) (snd (fst x)) (snd x))
        else ret ((gases, firstGas), r)) = Some res"
    show "?Q wanted tc window gases firstGas r res"
    proof (intro impI, elim conjE)
      assume a: "found_ok wanted (gases, firstGas)" "set window \<subseteq> {1..13}"
      show "\<exists>x r'. res = Inr (x, r') \<and> found_ok wanted x \<and> fst x \<noteq> []"
      proof (cases "gases = []")
        case True
        with eq obtain q where q: "gas_scan wanted tc window gases firstGas r = Some q"
          by (cases "gas_scan wanted tc window gases firstGas r") auto
        from always_Some [OF always_gas_scan [OF a] q] obtain x r' where x: "q = Inr (x, r')" "found_ok wanted x"
          by auto
        with True q eq have "f wanted tc window (fst x) (snd x) r' = Some res" by simp
        from IH [OF this] x a show ?thesis by simp
      next
        case False
        with eq a show ?thesis by auto
      qed
    qed
  qed
  with assms show ?thesis unfolding always_def yields_def
    by (fastforce split: option.splits sum.splits)
qed

lemma gas_percentages_eq:
  "tot \<noteq> 0 \<Longrightarrow> gas_percentages tot m = ret (map (\<lambda>(g, q). (g, quot_int (100 * q) tot)) m)"
  by (induction m) (auto simp: go_div_def)

lemma sum_percent_le:
  fixes m :: "(int \<times> int) list"
  assumes "0 < t" and "\<forall>(g, q) \<in> set m. 1 \<le> q"
  shows "t * sum_list (map (\<lambda>(g, q). quot_int (100 * q) t) m) \<le> 100 * sum_list (map snd m)"
  using assms(2)
proof (induction m)
  case (Cons x m)
  then obtain g q where x: "x = (g, q)" "1 \<le> q" by (cases x) auto
  have "t * (100 * q div t) \<le> 100 * q" by (metis assms(1) minus_mod_eq_mult_div pos_mod_sign diff_le_eq le_add_same_cancel1)
  with Cons x assms(1) show ?case by (simp add: quot_int_nonneg algebra_simps)
qed simp

lemma sum_list_gas_add:
  "distinct (map fst m) \<Longrightarrow> sum_list (map snd (gas_add g n m)) = sum_list (map snd m) + n"
  by (induction m) (auto simp: gas_add_def)

lemma normalize_gases_ok:
  assumes f: "found_ok wanted (gases, firstGas)" and ne: "gases \<noteq> []" and w: "wanted \<le> 4"
  shows "yields (normalize_gases gases firstGas) gases_ok"
proof -
  define t where "t = sum_list (map snd gases)"
  define pc where "pc = map (\<lambda>(g, q). (g, quot_int (100 * q) t)) gases"
  have q1: "\<forall>(g, q) \<in> set gases. 1 \<le> q" using f by (auto simp: found_ok_def)
  have le_t: "q \<le> t" if "(g, q) \<in> set gases" for g q
    unfolding t_def using q1 that by (metis (no_types, lifting) member_le_sum_list_int case_prodD dual_order.trans prod.collapse snd_conv zero_le_one)
  obtain g0 q0 where g0: "(g0, q0) \<in> set gases" using ne by (cases gases) auto
  have t: "0 < t" using le_t [OF g0] q1 g0 by fastforce
  have pq: "0 \<le> quot_int (100 * q) t \<and> quot_int (100 * q) t \<le> 100" if "(g, q) \<in> set gases" for g q
  proof -
    have "1 \<le> q" using q1 that by auto
    moreover have "100 * q div t \<le> 100"
      using zdiv_mono1 [of "100 * q" "100 * t" t] le_t [OF that] t by simp
    ultimately show ?thesis using t by (simp add: quot_int_nonneg pos_imp_zdiv_nonneg_iff)
  qed
  have keys: "map fst pc = map fst gases" unfolding pc_def by (induction gases) auto
  have sum: "sum_list (map snd pc) = sum_list (map (\<lambda>(g, q). quot_int (100 * q) t) gases)"
    unfolding pc_def by (simp add: comp_def case_prod_beta')
  have le100: "sum_list (map snd pc) \<le> 100"
    using sum_percent_le [OF t q1] t sum by (simp flip: t_def)
  have pcq: "1 \<le> g \<and> g \<le> 13 \<and> 0 \<le> q \<and> q \<le> 100" if "(g, q) \<in> set pc" for g q
    using that f pq by (auto simp: pc_def found_ok_def)
  have member: "q \<le> sum_list (map snd pc)" if "(g, q) \<in> set pc" for g q
    using member_le_sum_list_int [of pc snd "(g, q)"] pcq that by fastforce
  have first: "firstGas \<in> fst ` set pc"
    using f ne arg_cong [OF keys, of set] by (simp add: found_ok_def)
  have d: "distinct (map fst pc)" using f keys by (simp add: found_ok_def)
  have "firstGas \<in> dom (map_of pc)" using first by (simp add: dom_map_of_conv_image_fst)
  then obtain qf where qf: "map_of pc firstGas = Some qf" "(firstGas, qf) \<in> set pc"
    by (auto dest: map_of_SomeD)
  have "gases_ok (gas_add firstGas (100 - sum_list (map snd pc)) pc)"
    unfolding gases_ok_def
  proof (intro conjI)
    let ?m = "gas_add firstGas (100 - sum_list (map snd pc)) pc"
    show "?m \<noteq> []" by (simp add: gas_add_def)
    show "length ?m \<le> 4" using first f w keys by (auto simp: gas_add_def length_update_le found_ok_def pc_def)
    show "distinct (map fst ?m)" using d by (simp add: gas_add_def distinct_update)
    show "sum_list (map snd ?m) = 100" using sum_list_gas_add [OF d] by simp
    show "\<forall>(g, q)\<in>set ?m. 1 \<le> g \<and> g \<le> 13 \<and> 0 \<le> q \<and> q \<le> 100"
      using pcq qf le100 member [OF qf(2)] by (auto simp: gas_add_def dest!: subsetD [OF set_update])
  qed
  then show ?thesis using t
    by (simp add: normalize_gases_def gas_percentages_eq flip: t_def pc_def)
qed

lemma gas_window_bounds: "fst (gas_window tc) \<ge> 1 \<and> snd (gas_window tc) \<le> 13"
  by (simp add: gas_window_def Let_def)

lemma always_roll_atmosphere:
  "always (roll_atmosphere tc pc) (\<lambda>g. if pc > 0 then gases_ok g else g = [])"
proof -
  have win: "set [fst (gas_window tc)..snd (gas_window tc)] \<subseteq> {1..13}"
    using gas_window_bounds [of tc] by auto
  have step: "always (rbind (gas_retry wanted tc [fst (gas_window tc)..snd (gas_window tc)] [] 0)
      (\<lambda>(gases, firstGas). rlift (normalize_gases gases firstGas))) gases_ok" if "0 \<le> wanted" "wanted \<le> 4" for wanted
  proof (rule always_bindI [OF always_gas_retry [OF _ win]])
    show "found_ok wanted ([], 0)" using that by (simp add: found_ok_def)
    show "always (case a of (gases, firstGas) \<Rightarrow> rlift (normalize_gases gases firstGas)) gases_ok"
      if "found_ok wanted a \<and> fst a \<noteq> []" for a
      using that \<open>wanted \<le> 4\<close> by (cases a) (auto intro!: always_rlift normalize_gases_ok)
  qed
  show ?thesis
  proof (cases "pc > 0")
    case True
    have "always (D4 2) (\<lambda>d. 2 \<le> d \<and> d \<le> 8)" by (rule always_dice) auto
    then show ?thesis unfolding roll_atmosphere_def Let_def case_prod_beta [of _ "gas_window tc"]
      using True by simp (erule always_bindI, rule step, auto simp: quot_int_nonneg)
  qed (simp add: roll_atmosphere_def always_rret)
qed


section \<open>Every planet is well formed\<close>

definition mining_ok :: "rat \<Rightarrow> bool" where
  "mining_ok md \<longleftrightarrow> 88 \<le> md \<and> md \<le> 1100"

lemma always_mining_try:
  "1 \<le> diameter \<Longrightarrow> diameter \<le> 283 \<Longrightarrow> always (mining_try diameter) (\<lambda>_. True)"
  unfolding mining_try_def by (intro always_intros) auto

lemma always_mining_loop:
  assumes "1 \<le> diameter" and "diameter \<le> 283"
  shows "always (mining_loop diameter) (\<lambda>md. 40 \<le> md \<and> md \<le> 500)"
proof -
  let ?Q = "\<lambda>diameter (r :: prng) res. 1 \<le> diameter \<and> diameter \<le> 283 \<longrightarrow>
      (\<exists>x r'. res = Inr (x, r') \<and> (40 :: rat) \<le> x \<and> x \<le> 500)"
  have "?Q diameter r res" if "mining_loop diameter r = Some res" for r res
  proof (rule mining_loop.raw_induct [where P = ?Q, OF _ that])
    fix f :: "int \<Rightarrow> prng \<Rightarrow> (panic + rat \<times> prng) option" and diameter r res
    assume IH: "\<And>diameter r res. f diameter r = Some res \<Longrightarrow> ?Q diameter r res"
      and eq: "go_bind (mining_try diameter r)
         (\<lambda>x. if fst x \<ge> 40 \<and> fst x \<le> 500 then ret x else f diameter (snd x)) = Some res"
    show "?Q diameter r res"
    proof (intro impI, elim conjE)
      assume d: "1 \<le> diameter" "diameter \<le> 283"
      from eq obtain q where q: "mining_try diameter r = Some q" by (cases "mining_try diameter r") auto
      from always_Some [OF always_mining_try [OF d] q] obtain x r' where x: "q = Inr (x, r')" by auto
      with q eq IH d show "\<exists>x r'. res = Inr (x, r') \<and> (40 :: rat) \<le> x \<and> x \<le> 500"
        by (fastforce split: if_splits)
    qed
  qed
  with assms show ?thesis unfolding always_def yields_def
    by (fastforce split: option.splits sum.splits)
qed

lemma mining_fudge: "40 \<le> x \<Longrightarrow> x \<le> 500 \<Longrightarrow> mining_ok (float_div (float_mul x 11) 5)"
proof -
  assume x: "40 \<le> x" "x \<le> 500"
  have "440 \<le> float_mul x 11 \<and> float_mul x 11 \<le> 5500"
    using f64.between_ints [of 440 "x * 11" 5500] x by (simp add: float_mul_def)
  then show ?thesis
    using f64.between_ints [of 88 "float_mul x 11 / 5" 1100] by (simp add: mining_ok_def float_div_def)
qed

text \<open>
  The attributes of a generated planet: the kind follows from the diameter, the density and the
  classes are in the ranges of the kind, gravity is computed from density and diameter, there is
  an atmosphere exactly when there is pressure.
\<close>

definition planet_ok :: "planet \<Rightarrow> bool" where
  "planet_ok p \<longleftrightarrow>
     (let gg = (planet_Kind p = KindGasGiant) in
      planet_Kind p = planetKindFromDiameter (planet_Diameter p) \<and>
      3 \<le> planet_Diameter p \<and> planet_Diameter p \<le> 283 \<and>
      density_ok gg (planet_Density p) \<and>
      planet_Gravity p = planet_gravity (planet_Density p) (planet_Diameter p) \<and>
      1 \<le> planet_TemperatureClass p \<and> planet_TemperatureClass p \<le> (if gg then 7 else 30) \<and>
      (if gg then 11 else 0) \<le> planet_PressureClass p \<and> planet_PressureClass p \<le> (if gg then 29 else 12) \<and>
      (if planet_PressureClass p > 0 then gases_ok (planet_Gases p) else planet_Gases p = []) \<and>
      mining_ok (planet_MiningDifficulty p) \<and> planet_Special p = no_special)"

definition not_warmer :: "planet option \<Rightarrow> planet \<Rightarrow> bool" where
  "not_warmer prev p \<longleftrightarrow>
     (case prev of None \<Rightarrow> True | Some q \<Rightarrow> planet_TemperatureClass p \<le> planet_TemperatureClass q)"

definition seed_ok :: "int \<Rightarrow> int \<Rightarrow> int \<Rightarrow> bool" where
  "seed_ok numPlanets orbit i \<longleftrightarrow> 0 \<le> i \<and> i \<le> 9 \<and> (numPlanets < 4 \<and> orbit < 3 \<longrightarrow> i = 3 \<or> i = 5)"

lemma yields_seed_index:
  assumes "1 \<le> orbit" and "orbit \<le> numPlanets"
  shows "yields (seed_index numPlanets orbit) (seed_ok numPlanets orbit)"
proof -
  have "9 * orbit div numPlanets \<le> 9"
    using zdiv_mono1 [of "9 * orbit" "9 * numPlanets" numPlanets] assms by simp
  moreover have "0 \<le> 9 * orbit div numPlanets" using assms by (simp add: pos_imp_zdiv_nonneg_iff)
  ultimately show ?thesis using assms
    by (auto simp: seed_index_def seed_ok_def go_div_def quot_int_nonneg)
qed

lemma seed_range: "0 \<le> i \<Longrightarrow> i \<le> 9 \<Longrightarrow> i \<in> {0, 1, 2, 3, 4, 5, 6, 7, 8, 9 :: int}"
  by simp arith

lemma seed_diameter_bounds:
  assumes "seed_ok np orbit i"
  shows "0 \<le> seedDiameter ! nat i \<and> seedDiameter ! nat i \<le> 143 \<and>
    (np < 4 \<and> orbit < 3 \<longrightarrow> seedDiameter ! nat i \<le> 20)"
  using assms seed_range [of i] by (auto simp: seed_ok_def seedDiameter_def)

lemma seed_temperature_bounds:
  assumes "seed_ok np orbit i"
  shows "\<bar>seedTemperatureClass ! nat i\<bar> < 2 ^ 52"
  using assms seed_range [of i] by (auto simp: seed_ok_def seedTemperatureClass_def)

lemma always_rollPlanet:
  assumes orbit: "1 \<le> orbit" "orbit \<le> star_NumPlanets star"
    and prev: "case prev of None \<Rightarrow> True | Some q \<Rightarrow> planet_ok q"
  shows "always (rollPlanet star orbit prev) (\<lambda>p. planet_ok p \<and> not_warmer prev p)"
proof -
  let ?np = "star_NumPlanets star"
  have prevTC: "case map_option planet_TemperatureClass prev of None \<Rightarrow> True | Some t \<Rightarrow> 1 \<le> t"
    using prev by (auto simp: planet_ok_def Let_def split: option.splits)
  have idx: "always (rlift (go_index xs i)) (\<lambda>v. v = xs ! nat i)"
    if "seed_ok ?np orbit i" "length xs = 10" for xs :: "int list" and i
    using that by (auto intro!: always_rlift yields_go_index simp: seed_ok_def)
  show ?thesis
    unfolding rollPlanet_def
  proof (rule always_bindI [OF always_rlift [OF yields_seed_index [OF orbit]]],
      rule always_bindI [OF idx], assumption, simp add: seedDiameter_def,
      rule always_bindI [OF idx], assumption, simp add: seedTemperatureClass_def,
      hypsubst, rule always_bindI [OF always_roll_diameter], simp add: seed_diameter_bounds,
      simp add: seed_diameter_bounds)
    fix i diameter
    assume seed: "seed_ok ?np orbit i"
      and d: "3 \<le> diameter \<and> diameter \<le> max 6 (seedDiameter ! nat i + 4 * max 2 (seedDiameter ! nat i div 4))"
    define kind where "kind = planetKindFromDiameter diameter"
    define gg where "gg = (kind = KindGasGiant)"
    have "max 2 (seedDiameter ! nat i div 4) \<le> 35" using seed_diameter_bounds [OF seed] by auto
    then have D: "3 \<le> diameter" "diameter \<le> 283"
      using d seed_diameter_bounds [OF seed] by (simp_all only: max_def split: if_splits)
    have cold: "gg \<Longrightarrow> \<not> (?np < 4 \<and> orbit < 3)"
      using d seed_diameter_bounds [OF seed] by (auto simp: gg_def kind_def planetKindFromDiameter_def split: if_splits)
    show "always (let kind = planetKindFromDiameter diameter; isGasGiant = (kind = KindGasGiant) in
     rbind (roll_density isGasGiant) (\<lambda>density.
     let gravity = planet_gravity density diameter in
     rbind (roll_temperature (seedTemperatureClass ! nat i) isGasGiant ?np orbit
              (map_option planet_TemperatureClass prev)) (\<lambda>tc.
     rbind (roll_pressure gravity isGasGiant) (\<lambda>pc.
     rbind (roll_atmosphere tc pc) (\<lambda>gases.
     rbind (mining_loop diameter) (\<lambda>md.
     rret \<lparr>planet_ID = 0, planet_StarID = 0, planet_Orbit = 0, planet_Kind = kind,
           planet_Diameter = diameter, planet_Density = density, planet_Gravity = gravity,
           planet_TemperatureClass = tc, planet_PressureClass = pc, planet_Special = no_special,
           planet_Gases = gases, planet_MiningDifficulty = float_div (float_mul md 11) 5\<rparr>))))))
       (\<lambda>p. planet_ok p \<and> not_warmer prev p)"
      unfolding Let_def kind_def [symmetric] gg_def [symmetric]
    proof (rule always_bindI [OF always_roll_density],
        rule always_bindI [OF always_roll_temperature [OF seed_temperature_bounds [OF seed] prevTC]],
        rule always_bindI [OF always_roll_pressure], simp add: planet_gravity_bounds [OF _ D],
        simp add: planet_gravity_bounds [OF _ D],
        rule always_bindI [OF always_roll_atmosphere], rule always_bindI [OF always_mining_loop],
        (use D in simp), (use D in simp), rule always_rret)
    qed (use D cold in \<open>auto simp: planet_ok_def Let_def mining_fudge not_warmer_def gg_def kind_def split: if_splits option.splits\<close>)
  qed
qed

section \<open>Stars and the cluster\<close>

definition tc_descending :: "planet list \<Rightarrow> bool" where
  "tc_descending ps \<longleftrightarrow> sorted_wrt (\<lambda>p q. planet_TemperatureClass q \<le> planet_TemperatureClass p) ps"

definition rolled_ok :: "star \<Rightarrow> planet list \<Rightarrow> bool" where
  "rolled_ok s ps \<longleftrightarrow> 1 \<le> star_NumPlanets s \<and> star_NumPlanets s \<le> 9 \<and> 0 \<le> star_Size s \<and> star_Size s \<le> 9 \<and>
     int (length ps) = star_NumPlanets s \<and> list_all planet_ok ps \<and> tc_descending ps"

text \<open>A star of the finished cluster with the planets that refer to it, in their order.\<close>

definition star_ok :: "star \<Rightarrow> planet list \<Rightarrow> bool" where
  "star_ok s ps \<longleftrightarrow> rolled_ok s ps \<and> map planet_Orbit ps = [1..star_NumPlanets s]"

lemma always_roll_num_planets: "always (roll_num_planets kind color) (\<lambda>n. 1 \<le> n \<and> n \<le> 9)"
proof -
  have die: "2 \<le> color_die color" "color_die color \<le> 8" by (cases color; simp)+
  then have roll: "always (Roll 1 (color_die color)) (\<lambda>v. 1 \<le> v \<and> v \<le> 8)" by (auto intro: always_Roll)
  show ?thesis unfolding roll_num_planets_def
    by (intro always_rbind always_repeat_rolls [OF roll] always_bump_up [where k = 2]
        always_bump_down [where k = 3] always_Roll) auto
qed

lemma always_roll_planets:
  assumes "1 \<le> orbit" and "orbit + int n \<le> star_NumPlanets star + 1"
    and "case prev of None \<Rightarrow> True | Some q \<Rightarrow> planet_ok q"
  shows "always (roll_planets star n orbit prev) (\<lambda>ps. length ps = n \<and> list_all planet_ok ps \<and>
      tc_descending ps \<and> list_all (not_warmer prev) ps)"
  using assms
proof (induction n arbitrary: orbit prev)
  case 0
  then show ?case by (auto intro!: always_rret simp: tc_descending_def)
next
  case (Suc n)
  have rest: "always (roll_planets star n (orbit + 1) (Some p)) (\<lambda>ps. length ps = n \<and> list_all planet_ok ps \<and>
      tc_descending ps \<and> list_all (not_warmer (Some p)) ps)" if "planet_ok p" for p
    using Suc.prems that by (intro Suc.IH) auto
  have head: "always (rollPlanet star orbit prev) (\<lambda>p. planet_ok p \<and> not_warmer prev p)"
    using Suc.prems by (intro always_rollPlanet) auto
  have trans: "not_warmer prev q" if "not_warmer prev p" "not_warmer (Some p) q" for p q
    using that by (auto simp: not_warmer_def split: option.splits)
  show ?case unfolding roll_planets.simps
  proof (rule always_bindI [OF head], elim conjE, rule always_bindI [OF rest], assumption, rule always_rret)
    fix p ps
    assume "planet_ok p" "not_warmer prev p" "length ps = n \<and> list_all planet_ok ps \<and> tc_descending ps \<and> list_all (not_warmer (Some p)) ps"
    then show "length (p # ps) = Suc n \<and> list_all planet_ok (p # ps) \<and> tc_descending (p # ps) \<and> list_all (not_warmer prev) (p # ps)"
      by (auto simp: tc_descending_def list_all_iff not_warmer_def intro: trans split: option.splits)
  qed
qed

lemma always_rollStar: "always rollStar (\<lambda>(s, ps). rolled_ok s ps)"
proof -
  have kind: "always roll_kind (\<lambda>_. True)" unfolding roll_kind_def by (intro always_intros) auto
  have color: "always roll_color (\<lambda>_. True)" unfolding roll_color_def
    by (rule always_bindI [where P = "\<lambda>v. 1 \<le> v \<and> v \<le> 7"]) (auto intro!: always_intros)
  have size: "always (D10 1) (\<lambda>v. 1 \<le> v \<and> v \<le> 10)" by (rule always_dice) auto
  show ?thesis unfolding rollStar_def Let_def
  proof (rule always_bindI [OF kind], rule always_bindI [OF color], rule always_bindI [OF size],
      rule always_bindI [OF always_roll_num_planets], rule always_bindI [OF always_roll_planets], goal_cases)
    case (4 kind color size n ps)
    then show ?case by (auto intro!: always_rret simp: rolled_ok_def)
  qed auto
qed

subsection \<open>Numbering\<close>

fun numbered :: "int \<Rightarrow> int \<Rightarrow> int \<Rightarrow> planet list \<Rightarrow> planet list" where
  "numbered starID orbit k [] = []"
| "numbered starID orbit k (p # ps) =
     p\<lparr>planet_ID := k, planet_StarID := starID, planet_Orbit := orbit + 1\<rparr> # numbered starID (orbit + 1) (k + 1) ps"

lemma stamp_planets_eq:
  "stamp_planets starID orbit ps g =
     g\<lparr>nextPlanetID := nextPlanetID g + int (length ps),
       gen_planets := gen_planets g @ numbered starID orbit (nextPlanetID g) ps\<rparr>"
  by (induction ps arbitrary: orbit g) simp_all

lemma planet_ok_stamp [simp]: "planet_ok (p\<lparr>planet_ID := k, planet_StarID := s, planet_Orbit := oo\<rparr>) = planet_ok p"
  by (simp add: planet_ok_def)

lemma length_numbered [simp]: "length (numbered s oo k ps) = length ps"
  by (induction ps arbitrary: oo k) simp_all

lemma numbered_maps:
  "map planet_ID (numbered s oo k ps) = [k..k + int (length ps) - 1]"
  "map planet_Orbit (numbered s oo k ps) = [oo + 1..oo + int (length ps)]"
  "map planet_TemperatureClass (numbered s oo k ps) = map planet_TemperatureClass ps"
  "p \<in> set (numbered s oo k ps) \<Longrightarrow> planet_StarID p = s"
  "list_all planet_ok (numbered s oo k ps) = list_all planet_ok ps"
  by (induction ps arbitrary: oo k) (auto simp: upto_rec1 algebra_simps)

lemma tc_descending_map: "tc_descending ps \<longleftrightarrow> sorted_wrt (\<lambda>a b. b \<le> a) (map planet_TemperatureClass ps)"
  by (simp add: tc_descending_def sorted_wrt_map)

lemma rolled_ok_numbered: "rolled_ok s ps \<Longrightarrow> star_ok (s\<lparr>star_ID := i, star_SystemID := j\<rparr>) (numbered i 0 k ps)"
  by (simp add: star_ok_def rolled_ok_def numbered_maps tc_descending_map)

definition stars_in :: "gen_state \<Rightarrow> int \<Rightarrow> star list" where
  "stars_in g j = filter (\<lambda>s. star_SystemID s = j) (gen_stars g)"

text \<open>The invariant of the two inner loops while system \<open>m\<close> is filled.\<close>

definition stars_ok :: "int \<Rightarrow> gen_state \<Rightarrow> bool" where
  "stars_ok m g \<longleftrightarrow>
     nextStarID g = int (length (gen_stars g)) + 1 \<and> nextPlanetID g = int (length (gen_planets g)) + 1 \<and>
     map star_ID (gen_stars g) = [1..int (length (gen_stars g))] \<and>
     map planet_ID (gen_planets g) = [1..int (length (gen_planets g))] \<and>
     (\<forall>s \<in> set (gen_stars g). 1 \<le> star_SystemID s \<and> star_SystemID s \<le> m \<and>
        star_ok s (filter (\<lambda>p. planet_StarID p = star_ID s) (gen_planets g))) \<and>
     (\<forall>p \<in> set (gen_planets g). 1 \<le> planet_StarID p \<and> planet_StarID p \<le> int (length (gen_stars g)))"

lemma star_ID_range:
  assumes "stars_ok m g" and "s \<in> set (gen_stars g)"
  shows "star_ID s \<le> int (length (gen_stars g))"
proof -
  have "star_ID s \<in> set [1..int (length (gen_stars g))]"
    using assms unfolding stars_ok_def by (metis image_eqI list.set_map)
  then show ?thesis by simp
qed

lemma upto_snoc: "0 \<le> n \<Longrightarrow> [1..n] @ [n + 1] = [1..n + 1 :: int]"
  by (simp add: upto_rec2)

lemma upto_append: "0 \<le> n \<Longrightarrow> 0 \<le> k \<Longrightarrow> [1..n] @ [n + 1..n + k] = [1..n + k :: int]"
  using upto_split1 [of 1 "n + 1" "n + k"] by (cases "k = 0") simp_all

lemma stars_ok_step:
  assumes ok: "stars_ok m g" and m: "1 \<le> m" and rolled: "rolled_ok star planets"
  defines "i \<equiv> nextStarID g"
  defines "g' \<equiv> stamp_planets i 0 planets (g\<lparr>nextStarID := i + 1\<rparr>)"
  shows "stars_ok m (g'\<lparr>gen_stars := gen_stars g' @ [star\<lparr>star_ID := i, star_SystemID := m\<rparr>]\<rparr>)"
proof -
  let ?new = "numbered i 0 (nextPlanetID g) planets"
  let ?star = "star\<lparr>star_ID := i, star_SystemID := m\<rparr>"
  have i: "i = int (length (gen_stars g)) + 1" using ok by (simp add: i_def stars_ok_def)
  have old: "filter (\<lambda>p. planet_StarID p = star_ID s) (gen_planets g @ ?new) =
      filter (\<lambda>p. planet_StarID p = star_ID s) (gen_planets g)" if "s \<in> set (gen_stars g)" for s
    using star_ID_range [OF ok that] i by (auto simp: filter_empty_conv dest!: numbered_maps(4))
  have "planet_StarID p \<noteq> i" if "p \<in> set (gen_planets g)" for p
    using that ok i by (auto simp: stars_ok_def)
  then have new: "filter (\<lambda>p. planet_StarID p = i) (gen_planets g @ ?new) = ?new"
    by (auto simp: filter_empty_conv filter_id_conv dest!: numbered_maps(4))
  have pl: "map planet_ID (gen_planets g) @ map planet_ID ?new = [1..int (length (gen_planets g)) + int (length planets)]"
    using ok upto_append [of "int (length (gen_planets g))" "int (length planets)"]
    by (simp add: stars_ok_def numbered_maps algebra_simps)
  have st: "map star_ID (gen_stars g) @ [i] = [1..int (length (gen_stars g)) + 1]"
    using ok upto_snoc [of "int (length (gen_stars g))"] i by (simp add: stars_ok_def)
  let ?g = "g'\<lparr>gen_stars := gen_stars g' @ [?star]\<rparr>"
  have stars: "gen_stars ?g = gen_stars g @ [?star]" and planets: "gen_planets ?g = gen_planets g @ ?new"
    and next_ids: "nextStarID ?g = i + 1" "nextPlanetID ?g = nextPlanetID g + int (length planets)"
    by (simp_all add: g'_def stamp_planets_eq)
  have own: "star_ok s (filter (\<lambda>p. planet_StarID p = star_ID s) (gen_planets g @ ?new))"
    if "s \<in> set (gen_stars g @ [?star])" for s
  proof (cases "s \<in> set (gen_stars g)")
    case True
    then show ?thesis using ok by (simp only: old [OF True]) (simp add: stars_ok_def)
  next
    case False
    then have "s = ?star" using that by simp
    then show ?thesis by (simp del: filter_append add: new rolled_ok_numbered [OF rolled])
  qed
  have sysids: "1 \<le> star_SystemID s \<and> star_SystemID s \<le> m" if "s \<in> set (gen_stars g @ [?star])" for s
    using that ok m by (auto simp: stars_ok_def)
  have refs: "1 \<le> planet_StarID p \<and> planet_StarID p \<le> i" if "p \<in> set (gen_planets g @ ?new)" for p
    using that ok i by (auto simp: stars_ok_def dest!: numbered_maps(4))
  show ?thesis
    unfolding stars_ok_def stars planets next_ids
    using own sysids refs pl st i ok by (auto simp: stars_ok_def add.commute simp del: filter_append)
qed

lemma always_stamp_stars:
  assumes "stars_ok m g" and "1 \<le> m"
  shows "always (stamp_stars m n g) (\<lambda>g'. stars_ok m g' \<and> gen_systems g' = gen_systems g \<and>
      nextSystemID g' = nextSystemID g \<and>
      (\<forall>j. length (stars_in g' j) = length (stars_in g j) + (if j = m then n else 0)))"
  using assms
proof (induction n arbitrary: g)
  case 0
  then show ?case by (auto intro: always_rret)
next
  case (Suc n)
  show ?case unfolding stamp_stars.simps Let_def
  proof (rule always_bindI [OF always_rollStar], clarify, rule always_conseq [OF Suc.IH], goal_cases)
    case (1 star planets)
    then show ?case using Suc.prems by (intro stars_ok_step) auto
  qed (use Suc.prems in \<open>auto simp: stamp_planets_eq stars_in_def\<close>)
qed

definition gen_ok :: "hexPlacement list \<Rightarrow> gen_state \<Rightarrow> bool" where
  "gen_ok ps g \<longleftrightarrow> stars_ok (int (length ps)) g \<and> nextSystemID g = int (length ps) + 1 \<and>
     map sys_ID (gen_systems g) = [1..int (length ps)] \<and> map sys_Hex (gen_systems g) = map hp_Hex ps \<and>
     map (\<lambda>s. int (length (stars_in g (sys_ID s)))) (gen_systems g) = map hp_Stars ps \<and>
     (\<forall>s \<in> set (gen_systems g). \<not> sys_HomeSystem s)"

lemma gen_ok_init: "gen_ok [] gen_init"
  by (simp add: gen_ok_def stars_ok_def gen_init_def)

lemma always_stamp_systems:
  assumes "gen_ok qs g" and "\<And>p. p \<in> set ps \<Longrightarrow> 1 \<le> hp_Stars p"
  shows "always (stamp_systems ps g) (gen_ok (qs @ ps))"
  using assms
proof (induction ps arbitrary: qs g)
  case Nil
  then show ?case by (auto intro: always_rret)
next
  case (Cons p ps)
  let ?m = "nextSystemID g"
  let ?sys = "\<lparr>sys_ID = ?m, sys_Hex = hp_Hex p, sys_HomeSystem = False\<rparr>"
  have m: "?m = int (length qs) + 1" using Cons.prems by (simp add: gen_ok_def)
  have so: "stars_ok ?m (g\<lparr>nextSystemID := ?m + 1\<rparr>)"
    using Cons.prems(1) unfolding m gen_ok_def stars_ok_def by auto
  have none: "stars_in g ?m = []"
    using Cons.prems(1) m by (auto simp: gen_ok_def stars_ok_def stars_in_def filter_empty_conv)
  have ids: "sys_ID s \<noteq> ?m" if "s \<in> set (gen_systems g)" for s
  proof -
    have "sys_ID s \<in> set [1..int (length qs)]"
      using that Cons.prems(1) unfolding gen_ok_def by (metis image_eqI list.set_map)
    with m show ?thesis by simp
  qed
  show ?case unfolding stamp_systems.simps Let_def
  proof (rule always_bindI [OF always_stamp_stars], goal_cases)
    case (3 g')
    let ?g = "g'\<lparr>gen_systems := gen_systems g' @ [?sys]\<rparr>"
    have cnt: "length (stars_in g' j) = length (stars_in g j) + (if j = ?m then nat (hp_Stars p) else 0)" for j
      using 3 by (simp add: stars_in_def)
    have same: "map (\<lambda>s. int (length (stars_in g' (sys_ID s)))) (gen_systems g) =
        map (\<lambda>s. int (length (stars_in g (sys_ID s)))) (gen_systems g)"
      using ids cnt by simp
    have new: "int (length (stars_in g' ?m)) = hp_Stars p"
      using cnt [of ?m] none Cons.prems(2) [of p] by simp
    have old: "map (\<lambda>s. int (length (stars_in g (sys_ID s)))) (gen_systems g) = map hp_Stars qs"
      using Cons.prems(1) by (simp add: gen_ok_def)
    have eq: "stars_in ?g j = stars_in g' j" "gen_systems ?g = gen_systems g @ [?sys]" for j
      using 3 by (simp_all add: stars_in_def)
    have lens: "map (\<lambda>s. int (length (stars_in ?g (sys_ID s)))) (gen_systems ?g) = map hp_Stars (qs @ [p])"
      using trans [OF same old] new unfolding eq by simp
    have so': "stars_ok (int (length (qs @ [p]))) ?g" using 3 m by (simp add: stars_ok_def add.commute)
    have "gen_ok (qs @ [p]) ?g"
      using 3 Cons.prems(1) m upto_snoc [of "int (length qs)"] unfolding gen_ok_def
      by (intro conjI so' lens) (auto simp: gen_ok_def add.commute)
    from Cons.IH [OF this] Cons.prems(2) show ?case by simp
  qed (use so m in auto)
qed

subsection \<open>The finished cluster\<close>

text \<open>
  \<open>cluster_ok c\<close>: the identifiers of systems, stars and planets are \<open>1, 2, 3, ...\<close> in slice
  order; every star refers to a system of the cluster and every planet to a star; every star is
  well formed with exactly the planets that refer to it.
\<close>

definition cluster_ok :: "cluster \<Rightarrow> bool" where
  "cluster_ok c \<longleftrightarrow>
     map sys_ID (cl_Systems c) = [1..int (length (cl_Systems c))] \<and>
     map star_ID (cl_Stars c) = [1..int (length (cl_Stars c))] \<and>
     map planet_ID (cl_Planets c) = [1..int (length (cl_Planets c))] \<and>
     (\<forall>s \<in> set (cl_Stars c). 1 \<le> star_SystemID s \<and> star_SystemID s \<le> int (length (cl_Systems c)) \<and>
        star_ok s (PlanetsForStar c (star_ID s))) \<and>
     (\<forall>p \<in> set (cl_Planets c). 1 \<le> planet_StarID p \<and> planet_StarID p \<le> int (length (cl_Stars c)))"

text \<open>Where the systems are and how many stars they have.\<close>

definition layout_ok :: "int \<Rightarrow> int \<Rightarrow> bool \<Rightarrow> cluster \<Rightarrow> bool" where
  "layout_ok r d merge c \<longleftrightarrow>
     distinct (map sys_Hex (cl_Systems c)) \<and>
     (\<forall>s \<in> set (cl_Systems c). Contains r (sys_Hex s) \<and> \<not> sys_HomeSystem s \<and>
        1 \<le> length (StarsForSystem c (sys_ID s)) \<and> length (StarsForSystem c (sys_ID s)) \<le> 5 \<and>
        (\<not> merge \<longrightarrow> length (StarsForSystem c (sys_ID s)) = 1)) \<and>
     (\<forall>s \<in> set (cl_Systems c). \<forall>t \<in> set (cl_Systems c). s \<noteq> t \<longrightarrow> d < Distance (sys_Hex s) (sys_Hex t))"

definition cluster_result :: "clusterOptions \<Rightarrow> cluster \<times> placeError option \<Rightarrow> bool" where
  "cluster_result opts x \<longleftrightarrow> (let (c, err) = x; n = co_NumSystems opts; r = co_Radius opts; d = co_MinimumDistance opts in
     cl_Radius c = r \<and> cluster_ok c \<and> layout_ok r d (co_Merge opts) c \<and> cl_Deposits c = [] \<and>
     (case err of
        None \<Rightarrow> int (length (cl_Systems c)) = n
      | Some NegativeSystems \<Rightarrow> n < 0 \<and> cl_Systems c = []
      | Some NegativeRadius \<Rightarrow> 0 < n \<and> r < 0 \<and> cl_Systems c = []
      | Some NegativeMinimumDistance \<Rightarrow> 0 < n \<and> d < 0 \<and> cl_Systems c = []
      | Some (ExceedsCapacity a b) \<Rightarrow> a = n \<and> b = Capacity r \<and> b < n \<and> \<not> co_Merge opts \<and> cl_Systems c = []
      | Some (CouldOnlyPlace a b e m) \<Rightarrow> 0 < n \<and> b = r \<and> e = d \<and> m = co_Merge opts \<and> a = int (length (cl_Systems c)) \<and> a < n \<and>
          (\<forall>h \<in> set (Disk r). \<exists>s \<in> set (cl_Systems c). Distance (sys_Hex s) h \<le> d)))"

definition cluster_of :: "int \<Rightarrow> gen_state \<Rightarrow> cluster" where
  "cluster_of r g = \<lparr>cl_Radius = r, cl_Systems = gen_systems g, cl_Stars = gen_stars g,
     cl_Planets = gen_planets g, cl_Deposits = [], cl_HomeStarTemplates = []\<rparr>"

lemma cluster_of_ok: "gen_ok ps g \<Longrightarrow> cluster_ok (cluster_of r g)"
proof -
  assume ok: "gen_ok ps g"
  then have "length (gen_systems g) = length ps" by (metis gen_ok_def length_map)
  with ok show ?thesis
    by (simp add: gen_ok_def stars_ok_def cluster_ok_def cluster_of_def PlanetsForStar_def)
qed

lemma cluster_of_layout:
  assumes ok: "gen_ok ps g" and pl: "placed V d merge ps" and V: "V \<subseteq> set (Disk r)"
  shows "layout_ok r d merge (cluster_of r g)"
proof -
  have hex: "map sys_Hex (gen_systems g) = map hp_Hex ps"
    and cnt: "map (\<lambda>s. int (length (stars_in g (sys_ID s)))) (gen_systems g) = map hp_Stars ps"
    and home: "\<forall>s \<in> set (gen_systems g). \<not> sys_HomeSystem s"
    and ids: "distinct (map sys_ID (gen_systems g))"
    using ok by (simp_all add: gen_ok_def)
  have dist: "distinct (map sys_Hex (gen_systems g))" using pl hex by (simp add: placed_def)
  have mem: "sys_Hex s \<in> hp_Hex ` set ps" if "s \<in> set (gen_systems g)" for s
    using that arg_cong [OF hex, of set] by auto
  have st: "int (length (stars_in g (sys_ID s))) \<in> hp_Stars ` set ps" if "s \<in> set (gen_systems g)" for s
    using that arg_cong [OF cnt, of set] by auto
  have rng: "1 \<le> length (stars_in g (sys_ID s)) \<and> length (stars_in g (sys_ID s)) \<le> 5 \<and>
      (\<not> merge \<longrightarrow> length (stars_in g (sys_ID s)) = 1)" if "s \<in> set (gen_systems g)" for s
    using st [OF that] pl by (force simp: placed_def)
  have apart: "sys_Hex s \<noteq> sys_Hex t" if "s \<in> set (gen_systems g)" "t \<in> set (gen_systems g)" "s \<noteq> t" for s t
    using that dist by (auto simp: distinct_map dest: inj_onD)
  have pw: "\<forall>a \<in> hp_Hex ` set ps. \<forall>b \<in> hp_Hex ` set ps. a \<noteq> b \<longrightarrow> d < Distance a b"
    using pl unfolding placed_def by (elim conjE)
  have far: "d < Distance (sys_Hex s) (sys_Hex t)"
    if "s \<in> set (gen_systems g)" "t \<in> set (gen_systems g)" "s \<noteq> t" for s t
    by (rule pw [rule_format, OF mem [OF that(1)] mem [OF that(2)] apart [OF that]])
  have "sys_Hex s \<in> set (Disk r)" if "s \<in> set (gen_systems g)" for s
    using mem [OF that] pl V unfolding placed_def by blast
  then have inside: "Contains r (sys_Hex s)" if "s \<in> set (gen_systems g)" for s
    using that by (simp add: set_Disk)
  show ?thesis
    using dist rng home inside far
    by (auto simp: layout_ok_def cluster_of_def StarsForSystem_def stars_in_def)
qed

lemma always_GenerateCluster:
  assumes "co_Radius opts \<le> 2 ^ 29"
  shows "always (GenerateCluster opts) (cluster_result opts)"
proof -
  let ?r = "co_Radius opts" and ?n = "co_NumSystems opts" and ?d = "co_MinimumDistance opts"
  have fill: "yields (stamp_systems ps gen_init rng) (\<lambda>a. cluster_result opts (cluster_of ?r (fst a), err))"
    if "placement_post ?r ?n ?d (co_Merge opts) (ps, err)" "0 < ?n" for ps err rng
  proof -
    from that(1) obtain V where V: "V \<subseteq> set (Disk ?r)" "placed V ?d (co_Merge opts) ps"
      and err: "case err of None \<Rightarrow> int (length ps) = ?n
        | Some e \<Rightarrow> (e = ExceedsCapacity ?n (Capacity ?r) \<and> ps = [] \<and> Capacity ?r < ?n \<and> \<not> co_Merge opts) \<or>
            (e = CouldOnlyPlace (int (length ps)) ?r ?d (co_Merge opts) \<and> int (length ps) < ?n \<and> V = set (Disk ?r))"
      by (simp only: placement_post_def fst_conv snd_conv) blast
    have st: "\<And>p. p \<in> set ps \<Longrightarrow> 1 \<le> hp_Stars p" using V by (auto simp: placed_def)
    have "cluster_result opts (cluster_of ?r g, err)" if g: "gen_ok ps g" for g
    proof -
      have len: "length (gen_systems g) = length ps" using g by (metis gen_ok_def length_map)
      have hexes: "sys_Hex ` set (gen_systems g) = hp_Hex ` set ps" using g by (metis gen_ok_def list.set_map)
      have near: "\<forall>h \<in> V. \<exists>s \<in> set (gen_systems g). Distance (sys_Hex s) h \<le> ?d"
        using V(2) hexes unfolding placed_def by (metis (no_types, lifting) image_iff)
      show ?thesis
        using err \<open>0 < ?n\<close> cluster_of_ok [OF g, of ?r] cluster_of_layout [OF g V(2,1)] len near
        by (auto simp: cluster_result_def placement_post_def cluster_of_def split: option.splits placeError.splits)
    qed
    moreover have "always (stamp_systems ps gen_init) (gen_ok ps)"
      using always_stamp_systems [OF gen_ok_init, of ps] st by simp
    ultimately show ?thesis by (intro yields_conseq [OF alwaysD]) auto
  qed
  have run: "yields (go_bind (placeHexSystems rng ?r ?n ?d (co_Merge opts)) (\<lambda>((placements, err), _).
      go_bind (stamp_systems placements gen_init rng2) (\<lambda>(g, _).
      ret ((cluster_of ?r g, err), rng3)))) (\<lambda>(a, _). cluster_result opts a)" for rng rng2 rng3
  proof (cases "0 < ?n \<and> 0 \<le> ?r \<and> 0 \<le> ?d")
    case True
    then show ?thesis using assms
      by (intro yields_bind yields_placeHexSystems) (auto intro!: yields_bind yields_conseq [OF fill] simp: case_prod_beta)
  next
    case False
    have "cluster_ok (cluster_of ?r gen_init)" "layout_ok ?r ?d (co_Merge opts) (cluster_of ?r gen_init)"
      by (rule cluster_of_ok [OF gen_ok_init]) (simp add: layout_ok_def cluster_of_def gen_init_def)
    with False show ?thesis
      by (auto simp: placeHexSystems_def rret_def cluster_result_def) (auto simp: cluster_of_def gen_init_def)
  qed
  show ?thesis unfolding always_def
  proof
    fix r
    show "yields (GenerateCluster opts r) (\<lambda>(a, _). cluster_result opts a)"
      using run [of "fst (Split r)" "fst (Split (snd (Split r)))" "snd (Split (snd (Split r)))"]
      by (simp add: GenerateCluster_def cluster_of_def case_prod_beta Let_def)
  qed
qed

section \<open>Properties\<close>

text \<open>A rolled atmosphere has one to four gases of the thirteen, each once, with percentages that
  sum to exactly 100; there is none without pressure.\<close>

theorem roll_atmosphere_correct:
  "always (roll_atmosphere tc pc) (\<lambda>g. if pc > 0 then gases_ok g else g = [])"
  by (rule always_roll_atmosphere)

text \<open>A rolled planet has its kind from its diameter, density, temperature, pressure and mining
  difficulty in the range of its kind, a gravity computed from density and diameter, an atmosphere
  exactly when it has pressure, and it is not warmer than the planet before it.\<close>

theorem rollPlanet_correct:
  assumes "1 \<le> orbit" and "orbit \<le> star_NumPlanets star"
    and "case prev of None \<Rightarrow> True | Some q \<Rightarrow> planet_ok q"
  shows "always (rollPlanet star orbit prev) (\<lambda>p. planet_ok p \<and> not_warmer prev p)"
  by (rule always_rollPlanet [OF assms])

theorem rollPlanet_correct_witness:
  "always (rollPlanet \<lparr>star_ID = 1, star_SystemID = 1, star_Kind = StarDwarf, star_Color = ColorRed,
      star_Size = 4, star_NumPlanets = 2\<rparr> 2 None) (\<lambda>p. planet_ok p \<and> not_warmer None p)"
  by (rule rollPlanet_correct) simp_all

text \<open>C19.  A rolled star has one to nine planets, as many as it says, all well formed and in the order
  of falling temperature; rolling it never panics.\<close>

theorem rollStar_correct: "always rollStar (\<lambda>(s, ps). rolled_ok s ps)"
  by (rule always_rollStar)

text \<open>C18.  \<open>GenerateCluster\<close> numbers systems, stars and planets 1, 2, 3, ... in slice order, every
  reference is to an object of the cluster, every star is well formed with its planets on orbits
  1 to its number of planets, and systems are distinct hexes of the disk farther apart than the minimum
  distance.  Without an error there are exactly as many systems as asked for.  An error means that the arguments were
  refused and nothing was placed (a negative number; of at least one system, a negative radius or
  distance, or without merging more systems than hexes), or that fewer systems than asked for were placed and every
  hex of the disk is within the minimum distance of one.\<close>

theorem GenerateCluster_correct:
  assumes "co_Radius opts \<le> 2 ^ 29"
  shows "always (GenerateCluster opts) (cluster_result opts)"
  by (rule always_GenerateCluster [OF assms])

theorem GenerateCluster_correct_witness:
  "always (GenerateCluster \<lparr>co_Radius = 15, co_NumSystems = 100, co_MinimumDistance = 2, co_Merge = True\<rparr>)
     (cluster_result \<lparr>co_Radius = 15, co_NumSystems = 100, co_MinimumDistance = 2, co_Merge = True\<rparr>) \<and>
   always (GenerateCluster \<lparr>co_Radius = 0, co_NumSystems = 0, co_MinimumDistance = 0, co_Merge = False\<rparr>)
     (\<lambda>(c, err). err = None \<and> cl_Systems c = [])"
proof
  show "always (GenerateCluster \<lparr>co_Radius = 15, co_NumSystems = 100, co_MinimumDistance = 2, co_Merge = True\<rparr>)
     (cluster_result \<lparr>co_Radius = 15, co_NumSystems = 100, co_MinimumDistance = 2, co_Merge = True\<rparr>)"
    by (rule GenerateCluster_correct) simp
  have none: "cluster_result \<lparr>co_Radius = 0, co_NumSystems = 0, co_MinimumDistance = 0, co_Merge = False\<rparr> x \<Longrightarrow>
      (case x of (c, err) \<Rightarrow> err = None \<and> cl_Systems c = [])" for x
    by (cases x) (auto simp: cluster_result_def Let_def Capacity_def split: option.splits placeError.splits)
  show "always (GenerateCluster \<lparr>co_Radius = 0, co_NumSystems = 0, co_MinimumDistance = 0, co_Merge = False\<rparr>)
     (\<lambda>(c, err). err = None \<and> cl_Systems c = [])"
    by (rule always_conseq [OF GenerateCluster_correct none]) simp
qed

end
