(* ===== verification/Templates.thy ===== *)
theory Templates
  imports Generator
begin

text \<open>
  internal/worldgen/templates.go: home-star templates.  One attempt rolls the planets of a
  home system (steps 1a to 1k of the method, one definition per step, composed in
  \<open>template_planet\<close>), the viability score judges it, and the driver fills one slot per planet
  count until the candidate budget is spent.  Gravity and mining difficulty are integers here,
  so the score is integer arithmetic with Go's truncating division.
\<close>

section \<open>Steps 1a to 1g: the physical attributes of a planet\<close>

definition startDiameter :: "int list" where
  "startDiameter = [0, 5, 12, 13, 7, 20, 143, 121, 51, 49]"

definition startTempClass :: "int list" where
  "startTempClass = [0, 29, 27, 11, 9, 8, 6, 5, 5, 3]"

definition template_base :: "int \<Rightarrow> int \<Rightarrow> int go" where
  "template_base numPlanets orbit =
     go_bind (if numPlanets \<le> 3 then ret (2 * orbit + 1) else go_div (9 * orbit) numPlanets)
       (\<lambda>b. ret (if b < 1 then 1 else if b \<ge> int (length startDiameter) then int (length startDiameter) - 1 else b))"

definition template_diameter :: "int \<Rightarrow> int roller" where
  "template_diameter start =
     rbind (jitter (Roll 1 100) (die_size start) 4 start) (\<lambda>d. bump_up (Roll 1 4) 3 d)"

definition template_gravity :: "bool \<Rightarrow> int \<Rightarrow> int roller" where
  "template_gravity isGasGiant diameter =
     rbind (if isGasGiant
            then rbind (Roll 1 56) (\<lambda>a. rbind (Roll 1 56) (\<lambda>b. rret (58 + a + b)))
            else rbind (Roll 1 101) (\<lambda>a. rbind (Roll 1 101) (\<lambda>b. rret (368 + a + b))))
       (\<lambda>density. rret (quot_int (density * diameter) 72))"

definition template_class :: "int \<Rightarrow> int roller" where
  "template_class x =
     rbind (repeat_rolls (Roll 1 3) 3 0) (\<lambda>n. jitter (Roll 1 100) (die_size x) (nat n) x)"

definition template_temperature :: "int \<Rightarrow> bool \<Rightarrow> int \<Rightarrow> int \<Rightarrow> int option \<Rightarrow> int roller" where
  "template_temperature start isGasGiant numPlanets orbit previousTC =
     rbind (template_class start) (\<lambda>tc.
     rbind (if isGasGiant
            then rbind (bump_up (Roll 1 2) 3 tc) (\<lambda>tc. bump_down (Roll 1 2) 7 tc)
            else rbind (bump_up (Roll 1 3) 1 tc) (\<lambda>tc. bump_down (Roll 1 3) 30 tc)) (\<lambda>tc.
     rbind (if numPlanets < 4 \<and> orbit \<le> 2 then bump_up (Roll 1 4) 12 tc else rret tc) (\<lambda>tc.
     rret (case previousTC of None \<Rightarrow> tc | Some prev \<Rightarrow> if prev < tc then prev else tc))))"

section \<open>Step 1h: the earth-like planet\<close>

definition buildEarthLikeAtmosphere :: "templateGas list roller" where
  "buildEarthLikeAtmosphere =
     rbind (Roll 1 3) (\<lambda>a.
     rbind (if a = 1 then rbind (Roll 1 30) (\<lambda>pct. rret [\<lparr>tg_Gas = GasNH3, tg_Percent = pct\<rparr>]) else rret []) (\<lambda>nh3.
     rbind (Roll 1 3) (\<lambda>b.
     rbind (if b = 1 then rbind (Roll 1 30) (\<lambda>pct. rret [\<lparr>tg_Gas = GasCO2, tg_Percent = pct\<rparr>]) else rret []) (\<lambda>co2.
     rbind (Roll 1 20) (\<lambda>o2.
     let nitroIndex = length nh3;
         gases = nh3 @ [\<lparr>tg_Gas = GasN2, tg_Percent = 0\<rparr>] @ co2 @ [\<lparr>tg_Gas = GasO2, tg_Percent = o2 + 10\<rparr>];
         tot = sum_list (map tg_Percent gases)
     in rret (gases[nitroIndex := (gases ! nitroIndex)\<lparr>tg_Percent := 100 - tot\<rparr>]))))))"

definition earth_like :: "templatePlanet roller" where
  "earth_like =
     rbind (Roll 1 3) (\<lambda>d. let diameter = 11 + d in
     rbind (Roll 1 11) (\<lambda>g1. rbind (Roll 1 11) (\<lambda>g2. rbind (Roll 1 5) (\<lambda>g3.
     rbind (Roll 1 3) (\<lambda>tc. rbind (Roll 1 3) (\<lambda>pc.
     rbind (Roll 1 11) (\<lambda>m1. rbind (Roll 1 11) (\<lambda>m2.
     rbind buildEarthLikeAtmosphere (\<lambda>atm.
     rret \<lparr>tp_Kind = planetKindFromDiameter diameter, tp_Diameter = diameter,
           tp_Gravity = 93 + g1 + g2 + g3, tp_TemperatureClass = 9 + tc, tp_PressureClass = 8 + pc,
           tp_MiningDifficulty = 208 + m1 + m2, tp_Atmosphere = atm, tp_Special = 1\<rparr>)))))))))"

section \<open>Steps 1i to 1k: every other planet\<close>

definition template_pressure :: "int \<Rightarrow> bool \<Rightarrow> int \<Rightarrow> int roller" where
  "template_pressure gravity isGasGiant tc =
     rbind (template_class (quot_int gravity 10)) (\<lambda>pc.
     rbind (if isGasGiant
            then rbind (bump_up (Roll 1 3) 11 pc) (\<lambda>pc. bump_down (Roll 1 3) 29 pc)
            else rbind (bump_up (Roll 1 3) 0 pc) (\<lambda>pc. bump_down (Roll 1 3) 12 pc)) (\<lambda>pc.
     rret (if gravity < 10 \<or> tc < 2 \<or> tc > 27 then 0 else pc)))"

text \<open>The loop over the window; the slices \<open>picked\<close> and \<open>quantities\<close> are one list of pairs.\<close>

fun template_scan :: "int \<Rightarrow> int \<Rightarrow> atmosphericGas list \<Rightarrow> gases \<Rightarrow> gases roller" where
  "template_scan wanted tc [] picked = rret picked"
| "template_scan wanted tc (g # gs) picked =
     (if int (length picked) = wanted then rret picked
      else if g = GasHe then
        rbind (Roll 1 3) (\<lambda>s.
          if s > 1 \<or> tc > 5 then template_scan wanted tc gs picked
          else rbind (Roll 1 20) (\<lambda>qty. template_scan wanted tc gs (picked @ [(g, qty)])))
      else
        rbind (Roll 1 3) (\<lambda>s.
          if s = 3 then template_scan wanted tc gs picked
          else rbind (Roll 1 (if g = GasO2 then 50 else 100))
                 (\<lambda>qty. template_scan wanted tc gs (picked @ [(g, qty)]))))"

partial_function (option) template_retry ::
    "int \<Rightarrow> int \<Rightarrow> atmosphericGas list \<Rightarrow> gases \<Rightarrow> prng \<Rightarrow> (panic + gases \<times> prng) option" where
  "template_retry wanted tc window picked r =
     (if length picked = 0
      then go_bind (template_scan wanted tc window picked r)
             (\<lambda>x. template_retry wanted tc window (fst x) (snd x))
      else ret (picked, r))"

definition rollNonEarthAtmosphere :: "int \<Rightarrow> templateGas list roller" where
  "rollNonEarthAtmosphere tc =
     (let f = quot_int (100 * tc) 225;
          firstGas = (if f < 1 then 1 else if f > 9 then 9 else f)
      in rbind (Roll 1 4) (\<lambda>a. rbind (Roll 1 4) (\<lambda>b.
         let numWanted = quot_int (a + b) 2 in
         rbind (template_retry numWanted tc [firstGas..firstGas + 4] []) (\<lambda>picked.
         let totalQty = sum_list (map snd picked) in
         rbind (rlift (gas_percentages totalQty picked)) (\<lambda>pcts.
         let totalPct = sum_list (map snd pcts);
             gases = map (\<lambda>(g, p). \<lparr>tg_Gas = g, tg_Percent = p\<rparr>) pcts in
         rbind (rlift (go_index gases 0)) (\<lambda>g0.
         rret (gases[0 := g0\<lparr>tg_Percent := tg_Percent g0 + (100 - totalPct)\<rparr>])))))))"

definition template_mining_try :: "int \<Rightarrow> int roller" where
  "template_mining_try diameter =
     rbind (Roll 1 3) (\<lambda>a. rbind (Roll 1 3) (\<lambda>b. rbind (Roll 1 3) (\<lambda>c. rbind (Roll 1 4) (\<lambda>d.
     rbind (Roll 1 diameter) (\<lambda>e. rbind (Roll 1 20) (\<lambda>f. rbind (Roll 1 20) (\<lambda>g.
     rret ((a + b + c - d) * e + (f + g)))))))))"

partial_function (option) template_mining :: "int \<Rightarrow> prng \<Rightarrow> (panic + int \<times> prng) option" where
  "template_mining diameter r =
     go_bind (template_mining_try diameter r) (\<lambda>x.
       if fst x \<ge> 30 \<and> fst x \<le> 1000 then ret x else template_mining diameter (snd x))"

definition ordinary_planet :: "int \<Rightarrow> planetKind \<Rightarrow> int \<Rightarrow> int \<Rightarrow> templatePlanet roller" where
  "ordinary_planet diameter kind gravity tc =
     rbind (template_pressure gravity (kind = KindGasGiant) tc) (\<lambda>pc.
     rbind (if pc > 0 then rollNonEarthAtmosphere tc else rret []) (\<lambda>atm.
     rbind (template_mining diameter) (\<lambda>md.
     rret \<lparr>tp_Kind = kind, tp_Diameter = diameter, tp_Gravity = gravity,
           tp_TemperatureClass = tc, tp_PressureClass = pc, tp_MiningDifficulty = md,
           tp_Atmosphere = atm, tp_Special = 0\<rparr>)))"

section \<open>One attempt\<close>

definition template_planet :: "int \<Rightarrow> int \<Rightarrow> bool \<Rightarrow> int option \<Rightarrow> (templatePlanet \<times> bool) roller" where
  "template_planet numPlanets orbit earthLikeConsumed previousTC =
     rbind (rlift (template_base numPlanets orbit)) (\<lambda>baseValue.
     rbind (rlift (go_index startDiameter baseValue)) (\<lambda>d0.
     rbind (rlift (go_index startTempClass baseValue)) (\<lambda>tc0.
     rbind (template_diameter d0) (\<lambda>diameter.
     let kind = planetKindFromDiameter diameter; isGasGiant = (kind = KindGasGiant) in
     rbind (template_gravity isGasGiant diameter) (\<lambda>gravity.
     rbind (template_temperature tc0 isGasGiant numPlanets orbit previousTC) (\<lambda>tc.
     if \<not> earthLikeConsumed \<and> tc \<le> 11 then rbind earth_like (\<lambda>tp. rret (tp, True))
     else rbind (ordinary_planet diameter kind gravity tc) (\<lambda>tp. rret (tp, earthLikeConsumed))))))))"

fun template_planets :: "int \<Rightarrow> nat \<Rightarrow> int \<Rightarrow> bool \<Rightarrow> int option \<Rightarrow> templatePlanet list roller" where
  "template_planets numPlanets 0 orbit consumed previousTC = rret []"
| "template_planets numPlanets (Suc k) orbit consumed previousTC =
     rbind (template_planet numPlanets orbit consumed previousTC) (\<lambda>(tp, consumed).
     rbind (template_planets numPlanets k (orbit + 1) consumed (Some (tp_TemperatureClass tp)))
       (\<lambda>tps. rret (tp # tps)))"

section \<open>The viability score\<close>

definition approximateLSN :: "templatePlanet \<Rightarrow> templatePlanet \<Rightarrow> int" where
  "approximateLSN candidate home =
     (let lsn = 2 * go_abs (tp_TemperatureClass candidate - tp_TemperatureClass home)
              + 2 * go_abs (tp_PressureClass candidate - tp_PressureClass home) + 2;
          homeGases = map tg_Gas (tp_Atmosphere home)
      in foldl (\<lambda>lsn g.
           let lsn = (if tg_Gas g = GasO2 then lsn - 2 else lsn)
           in if tg_Gas g \<notin> set homeGases then lsn + 2 else lsn) lsn (tp_Atmosphere candidate))"

fun score_sum :: "templatePlanet \<Rightarrow> templatePlanet list \<Rightarrow> int \<Rightarrow> int go" where
  "score_sum home [] score = ret score"
| "score_sum home (p # ps) score =
     go_bind (go_div 20000 ((3 + approximateLSN p home) * (50 + tp_MiningDifficulty p)))
       (\<lambda>q. score_sum home ps (score + q))"

definition computeViabilityScore :: "templatePlanet list \<Rightarrow> int go" where
  "computeViabilityScore planets =
     (case find (\<lambda>p. tp_Special p = 1) planets of
        None \<Rightarrow> ret 0
      | Some home \<Rightarrow> score_sum home planets 0)"

definition generateHomeStarTemplateAttempt :: "int \<Rightarrow> (homeStarTemplate \<times> int) roller" where
  "generateHomeStarTemplateAttempt numPlanets =
     rbind (template_planets numPlanets (nat numPlanets) 1 False None) (\<lambda>planets.
     rbind (rlift (computeViabilityScore planets)) (\<lambda>score.
     rret (\<lparr>tmpl_NumPlanets = numPlanets, tmpl_Planets = planets, tmpl_ViabilityScore = score\<rparr>, score)))"

section \<open>The driver\<close>

definition empty_outcomes :: "homeStarTemplateOutcome option list" where
  "empty_outcomes = [None, None, None] @
     map (\<lambda>n. Some \<lparr>hso_NumPlanets = n, hso_Template = None, hso_Attempts = 0, hso_BestScore = 0\<rparr>) [3..9]"

definition record_attempt ::
    "viabilityWindow \<Rightarrow> homeStarTemplate \<Rightarrow> int \<Rightarrow> homeStarTemplateOutcome \<Rightarrow> homeStarTemplateOutcome" where
  "record_attempt window template score slot =
     (let slot = slot\<lparr>hso_Attempts := hso_Attempts slot + 1\<rparr>;
          slot = (if score > hso_BestScore slot then slot\<lparr>hso_BestScore := score\<rparr> else slot)
      in if Accepts window score then slot\<lparr>hso_Template := Some template\<rparr> else slot)"

fun template_loop ::
    "viabilityWindow \<Rightarrow> nat \<Rightarrow> homeStarTemplateOutcome option list \<Rightarrow> int \<Rightarrow> homeStarTemplateOutcome option list roller" where
  "template_loop window 0 outcomes filled = rret outcomes"
| "template_loop window (Suc rolls) outcomes filled =
     (if filled < 7 then
        rbind rollStar (\<lambda>(candidate, _).
        let n = star_NumPlanets candidate in
        if n < 3 \<or> n > 9 then template_loop window rolls outcomes filled
        else rbind (rlift (go_index outcomes n)) (\<lambda>slot.
          case slot of
            None \<Rightarrow> rpanic NilDereference
          | Some slot \<Rightarrow>
              if hso_Template slot \<noteq> None then template_loop window rolls outcomes filled
              else rbind (generateHomeStarTemplateAttempt n) (\<lambda>(template, score).
                template_loop window rolls (outcomes[nat n := Some (record_attempt window template score slot)])
                  (if Accepts window score then filled + 1 else filled))))
      else rret outcomes)"

definition GenerateHomeStarTemplates ::
    "viabilityWindow \<Rightarrow> int \<Rightarrow> homeStarTemplateOutcome option list roller" where
  "GenerateHomeStarTemplates window maxCandidateRolls =
     (let budget = (if maxCandidateRolls \<le> 0 then DefaultMaxCandidateRolls else maxCandidateRolls)
      in template_loop window (nat budget) empty_outcomes 0)"

section \<open>Well-formed template planets\<close>

definition tgas_pairs :: "templateGas list \<Rightarrow> gases" where
  "tgas_pairs gs = map (\<lambda>t. (tg_Gas t, tg_Percent t)) gs"

definition earth_like_ok :: "templatePlanet \<Rightarrow> bool" where
  "earth_like_ok p \<longleftrightarrow> tp_Special p = 1 \<and> tp_Kind p = KindRocky \<and>
     12 \<le> tp_Diameter p \<and> tp_Diameter p \<le> 14 \<and> 96 \<le> tp_Gravity p \<and> tp_Gravity p \<le> 120 \<and>
     10 \<le> tp_TemperatureClass p \<and> tp_TemperatureClass p \<le> 12 \<and>
     9 \<le> tp_PressureClass p \<and> tp_PressureClass p \<le> 11 \<and>
     210 \<le> tp_MiningDifficulty p \<and> tp_MiningDifficulty p \<le> 230 \<and>
     gases_ok (tgas_pairs (tp_Atmosphere p)) \<and> (\<exists>t \<in> set (tp_Atmosphere p). tg_Gas t = GasO2 \<and> 11 \<le> tg_Percent t)"

definition ordinary_ok :: "templatePlanet \<Rightarrow> bool" where
  "ordinary_ok p \<longleftrightarrow> tp_Special p = 0 \<and> tp_Kind p = planetKindFromDiameter (tp_Diameter p) \<and>
     3 \<le> tp_Diameter p \<and> tp_Diameter p \<le> 283 \<and> 0 \<le> tp_Gravity p \<and>
     1 \<le> tp_TemperatureClass p \<and> tp_TemperatureClass p \<le> 30 \<and>
     0 \<le> tp_PressureClass p \<and> tp_PressureClass p \<le> 29 \<and>
     30 \<le> tp_MiningDifficulty p \<and> tp_MiningDifficulty p \<le> 1000 \<and>
     (if tp_PressureClass p > 0 then gases_ok (tgas_pairs (tp_Atmosphere p)) else tp_Atmosphere p = [])"

definition tplanet_ok :: "templatePlanet \<Rightarrow> bool" where
  "tplanet_ok p \<longleftrightarrow> earth_like_ok p \<or> ordinary_ok p"

lemma always_coin100: "always (Roll 1 100) (\<lambda>_. True)"
  by (auto intro: always_Roll)

lemma always_template_diameter:
  assumes "0 \<le> start" and "start \<le> 143"
  shows "always (template_diameter start) (\<lambda>d. 3 \<le> d \<and> d \<le> 283)"
proof -
  have q: "quot_int start 4 = start div 4" using assms by (intro quot_int_nonneg) simp_all
  have d: "2 \<le> die_size start" "die_size start \<le> 35"
    using assms die_size_bounds [of start] q by (simp_all, linarith)
  show ?thesis using d assms unfolding template_diameter_def
    by (intro always_rbind always_jitter always_coin100 always_bump_up [where k = 4] always_Roll) auto
qed

lemma always_template_class:
  assumes "\<bar>x\<bar> < 2 ^ 52"
  shows "always (template_class x) (\<lambda>_. True)"
proof -
  have "quot_int x 4 \<le> \<bar>x\<bar>" by (auto simp: quot_int_def sgn_if)
  then have d: "1 \<le> die_size x" "die_size x < 2 ^ 62" using die_size_bounds [of x] assms by auto
  show ?thesis unfolding template_class_def
    using d by (auto intro!: always_intros always_coin100 always_repeat_rolls [where a = 1 and b = 3])
qed

lemma quot72_bounds: "0 \<le> a \<Longrightarrow> a \<le> 161310 \<Longrightarrow> 0 \<le> quot_int a 72 \<and> quot_int a 72 \<le> 2241"
  by (auto simp: quot_int_nonneg)

lemma always_template_gravity:
  assumes "3 \<le> d" and "d \<le> 283"
  shows "always (template_gravity gg d) (\<lambda>g. 0 \<le> g \<and> g \<le> 2241)"
proof -
  have "0 \<le> k * d \<and> k * d \<le> 161310" if "0 \<le> k" "k \<le> 570" for k
    using mult_mono [of k 570 d 283] that assms by simp
  then have fin: "always (rret (quot_int (k * d) 72)) (\<lambda>g. 0 \<le> g \<and> g \<le> 2241)" if "0 \<le> k" "k \<le> 570" for k
    using that quot72_bounds by (auto intro!: always_rret)
  show ?thesis unfolding template_gravity_def
    by (intro always_rbind always_if always_Roll always_rret fin) auto
qed

lemma always_template_temperature:
  assumes seed: "\<bar>start\<bar> < 2 ^ 52" and prev: "case prev of None \<Rightarrow> True | Some t \<Rightarrow> 1 \<le> t"
  shows "always (template_temperature start gg np orbit prev) (\<lambda>tc. 1 \<le> tc \<and>
      tc \<le> 30 \<and> (case prev of None \<Rightarrow> True | Some t \<Rightarrow> tc \<le> t))"
    (is "always _ ?P")
proof -
  have clamp: "always (if gg then rbind (bump_up (Roll 1 2) 3 tc) (\<lambda>tc. bump_down (Roll 1 2) 7 tc)
       else rbind (bump_up (Roll 1 3) 1 tc) (\<lambda>tc. bump_down (Roll 1 3) 30 tc)) (\<lambda>tc. 1 \<le> tc \<and> tc \<le> 30)" for tc
    by (intro always_if always_rbind)
      ((rule always_bump_up [where k = 2] always_bump_up [where k = 3], rule always_Roll,
        simp_all, rule always_bump_down [where k = 2] always_bump_down [where k = 3], rule always_Roll, simp_all, linarith)+)
  show ?thesis unfolding template_temperature_def
    by (rule always_bindI [OF always_template_class [OF seed]], rule always_bindI [OF clamp],
       intro always_rbind always_if always_bump_up [where k = 4] always_Roll always_rret)
      (use prev in \<open>auto split: option.splits\<close>)
qed

lemma always_template_pressure:
  assumes "0 \<le> g" and "g \<le> 2241"
  shows "always (template_pressure g gg tc) (\<lambda>pc. 0 \<le> pc \<and> pc \<le> 29)"
proof -
  have x: "\<bar>quot_int g 10\<bar> < 2 ^ 52" using assms by (auto simp: quot_int_nonneg)
  have clamp: "always (if gg then rbind (bump_up (Roll 1 3) 11 pc) (\<lambda>tc. bump_down (Roll 1 3) 29 tc)
       else rbind (bump_up (Roll 1 3) 0 pc) (\<lambda>tc. bump_down (Roll 1 3) 12 tc)) (\<lambda>tc. 0 \<le> tc \<and> tc \<le> 29)" for pc
    by (intro always_if always_rbind)
      ((rule always_bump_up [where k = 3], rule always_Roll,
        simp_all, rule always_bump_down [where k = 3], rule always_Roll, simp_all, linarith)+)
  show ?thesis unfolding template_pressure_def
    by (rule always_bindI [OF always_template_class [OF x]], rule always_bindI [OF clamp], rule always_rret) auto
qed

lemma always_buildEarthLikeAtmosphere:
  "always buildEarthLikeAtmosphere (\<lambda>gs. gases_ok (tgas_pairs gs) \<and>
     (\<exists>t \<in> set gs. tg_Gas t = GasO2 \<and> 11 \<le> tg_Percent t))"
  unfolding buildEarthLikeAtmosphere_def Let_def
  by (intro always_rbind always_if always_Roll always_rret; simp)
     (auto simp: gases_ok_def tgas_pairs_def GasNH3_def GasN2_def GasCO2_def GasO2_def)

lemma always_earth_like: "always earth_like earth_like_ok"
  unfolding earth_like_def Let_def
  by (intro always_rbind [of "Roll _ _"] always_Roll; (rule always_bindI [OF always_buildEarthLikeAtmosphere], rule always_rret)?)
     (auto simp: earth_like_ok_def planetKindFromDiameter_def)

section \<open>The rolled atmosphere\<close>

lemma found_ok_snoc:
  assumes "found_ok wanted (picked, fst (hd picked))" and "int (length picked) \<noteq> wanted"
    and "1 \<le> g" "g \<le> 13" "g \<notin> fst ` set picked" "1 \<le> q"
  shows "found_ok wanted (picked @ [(g, q)], fst (hd (picked @ [(g, q)])))"
  using assms by (cases picked) (auto simp: found_ok_def)

lemma always_template_scan:
  assumes "found_ok wanted (picked, fst (hd picked))" and "set gs \<subseteq> {1..13}"
    and "distinct gs" and "set gs \<inter> fst ` set picked = {}"
  shows "always (template_scan wanted tc gs picked) (\<lambda>p. found_ok wanted (p, fst (hd p)))"
  using assms
proof (induction gs arbitrary: picked)
  case Nil
  then show ?case by (auto intro: always_rret)
next
  case (Cons g gs)
  let ?P = "\<lambda>p. found_ok wanted (p, fst (hd p))"
  show ?case
  proof (cases "int (length picked) = wanted")
    case True
    then show ?thesis using Cons by (auto intro: always_rret)
  next
    case False
    have skip_ok: "always (template_scan wanted tc gs picked) ?P"
      using Cons.prems by (intro Cons.IH) auto
    have add_ok: "always (template_scan wanted tc gs (picked @ [(g, q)])) ?P" if "1 \<le> q" for q
      using Cons.prems False that by (intro Cons.IH found_ok_snoc) auto
    have take: "always (Roll 1 n) (\<lambda>q. 1 \<le> q)" if "n \<in> {20, 50, 100}" for n using that by (auto intro: always_Roll)
    have skip: "always (Roll 1 3) (\<lambda>_. True)" by (auto intro: always_Roll)
    show ?thesis unfolding template_scan.simps if_not_P [OF False]
      by (intro always_if always_bindI [OF skip] skip_ok always_bindI [OF take] add_ok; simp)
  qed
qed

lemma always_template_retry:
  assumes "0 \<le> wanted" and "set window \<subseteq> {1..13}" and "distinct window"
  shows "always (template_retry wanted tc window []) (\<lambda>p. found_ok wanted (p, fst (hd p)) \<and> p \<noteq> [])"
proof -
  let ?Q = "\<lambda>wanted tc window picked (r :: prng) res.
      0 \<le> wanted \<and> found_ok wanted (picked, fst (hd picked)) \<and> set window \<subseteq> {1..13} \<and> distinct window \<longrightarrow>
      (\<exists>x r'. res = Inr (x, r') \<and> found_ok wanted (x, fst (hd x)) \<and> x \<noteq> [])"
  have "?Q wanted tc window [] r res" if "template_retry wanted tc window [] r = Some res" for r res
  proof (rule template_retry.raw_induct [where P = ?Q, OF _ that])
    fix f :: "int \<Rightarrow> int \<Rightarrow> atmosphericGas list \<Rightarrow> gases \<Rightarrow> prng \<Rightarrow> (panic + gases \<times> prng) option"
      and wanted tc window picked r res
    assume IH: "\<And>wanted tc window picked r res.
        f wanted tc window picked r = Some res \<Longrightarrow> ?Q wanted tc window picked r res"
      and eq: "(if length picked = 0
        then go_bind (template_scan wanted tc window picked r) (\<lambda>x. f wanted tc window (fst x) (snd x))
        else ret (picked, r)) = Some res"
    show "?Q wanted tc window picked r res"
    proof (intro impI, elim conjE)
      assume a: "0 \<le> wanted" "found_ok wanted (picked, fst (hd picked))" "set window \<subseteq> {1..13}" "distinct window"
      show "\<exists>x r'. res = Inr (x, r') \<and> found_ok wanted (x, fst (hd x)) \<and> x \<noteq> []"
      proof (cases "picked = []")
        case True
        with eq obtain q where q: "template_scan wanted tc window picked r = Some q"
          by (cases "template_scan wanted tc window picked r") auto
        from True have "set window \<inter> fst ` set picked = {}" by simp
        from always_Some [OF always_template_scan [OF a(2,3,4) this] q] obtain x r'
          where x: "q = Inr (x, r')" "found_ok wanted (x, fst (hd x))" by auto
        with True q eq have "f wanted tc window x r' = Some res" by simp
        from IH [OF this] x a show ?thesis by simp
      next
        case False
        with eq a show ?thesis by auto
      qed
    qed
  qed
  moreover have "found_ok wanted ([], fst (hd []))" using assms(1) by (simp add: found_ok_def)
  ultimately show ?thesis using assms unfolding always_def yields_def
    by (fastforce split: option.splits sum.splits)
qed

text \<open>The code normalises in place; on the list of pairs this is \<open>normalize_gases\<close> with the first gas.\<close>

lemma normalize_first:
  assumes ok: "found_ok wanted (picked, fst (hd picked))" and ne: "picked \<noteq> []" and w: "wanted \<le> 4"
  shows "yields (gas_percentages (sum_list (map snd picked)) picked) (\<lambda>pcts.
    let gases = map (\<lambda>(g, p). \<lparr>tg_Gas = g, tg_Percent = p\<rparr>) pcts in
    gases \<noteq> [] \<and> gases_ok (tgas_pairs (gases[0 := (gases ! 0)\<lparr>tg_Percent :=
      tg_Percent (gases ! 0) + (100 - sum_list (map snd pcts))\<rparr>])))"
proof -
  let ?m = "gas_percentages (sum_list (map snd picked)) picked"
  have pairs: "tgas_pairs (map (\<lambda>(g, p). \<lparr>tg_Gas = g, tg_Percent = p\<rparr>) xs) = xs" for xs
    by (induction xs) (auto simp: tgas_pairs_def)
  have y: "yields ?m (\<lambda>pcts. gases_ok (gas_add (fst (hd picked)) (100 - sum_list (map snd pcts)) pcts))"
    using normalize_gases_ok [OF ok ne w] unfolding normalize_gases_def Let_def
    by (auto simp: yields_def go_bind_def split: option.splits sum.splits)
  have hd: "pcts \<noteq> [] \<and> fst (hd pcts) = fst (hd picked)" if "?m = ret pcts" for pcts
  proof -
    obtain g q rest where p: "picked = (g, q) # rest" using ne by (cases picked) auto
    show ?thesis using that unfolding p by (auto simp: go_bind_eq_ret)
  qed
  have "yields ?m (\<lambda>pcts. gases_ok (gas_add (fst (hd picked)) (100 - sum_list (map snd pcts)) pcts) \<and>
      pcts \<noteq> [] \<and> fst (hd pcts) = fst (hd picked))"
    using y hd by (auto simp: yields_def split: option.splits sum.splits)
  then show ?thesis
  proof (rule yields_conseq)
    fix pcts assume a: "gases_ok (gas_add (fst (hd picked)) (100 - sum_list (map snd pcts)) pcts) \<and>
      pcts \<noteq> [] \<and> fst (hd pcts) = fst (hd picked)"
    then obtain g p rest where p: "pcts = (g, p) # rest" "fst (hd picked) = g" by (cases pcts) auto
    show "let gases = map (\<lambda>(g, p). \<lparr>tg_Gas = g, tg_Percent = p\<rparr>) pcts in
      gases \<noteq> [] \<and> gases_ok (tgas_pairs (gases[0 := (gases ! 0)\<lparr>tg_Percent :=
        tg_Percent (gases ! 0) + (100 - sum_list (map snd pcts))\<rparr>]))"
      using a p pairs [of rest] by (simp add: gas_add_def tgas_pairs_def Let_def)
  qed
qed

lemma always_rollNonEarthAtmosphere:
  "always (rollNonEarthAtmosphere tc) (\<lambda>gs. gases_ok (tgas_pairs gs))"
proof -
  define f where "f = (let f = quot_int (100 * tc) 225 in if f < 1 then 1 else if f > 9 then 9 else f)"
  have f: "1 \<le> f" "f \<le> 9" by (auto simp: f_def Let_def)
  then have win: "set [f..f + 4] \<subseteq> {1..13}" "distinct [f..f + 4]" by auto
  have step: "always (rbind (template_retry wanted tc [f..f + 4] []) (\<lambda>picked.
         let totalQty = sum_list (map snd picked) in
         rbind (rlift (gas_percentages totalQty picked)) (\<lambda>pcts.
         let totalPct = sum_list (map snd pcts);
             gases = map (\<lambda>(g, p). \<lparr>tg_Gas = g, tg_Percent = p\<rparr>) pcts in
         rbind (rlift (go_index gases 0)) (\<lambda>g0.
         rret (gases[0 := g0\<lparr>tg_Percent := tg_Percent g0 + (100 - totalPct)\<rparr>])))))
      (\<lambda>gs. gases_ok (tgas_pairs gs))" if w: "0 \<le> wanted" "wanted \<le> 4" for wanted
    unfolding Let_def
    by (rule always_bindI [OF always_template_retry [OF w(1) win]], elim conjE,
        rule always_bindI [OF always_rlift [OF normalize_first]], assumption, assumption, rule w(2),
        rule always_rbind, rule always_rlift, rule yields_go_index)
      (auto intro!: always_rret simp: Let_def)
  have die: "always (Roll 1 4) (\<lambda>v. 1 \<le> v \<and> v \<le> 4)" by (auto intro: always_Roll)
  show ?thesis
    unfolding rollNonEarthAtmosphere_def f_def [symmetric, unfolded Let_def] Let_def
    by (rule always_bindI [OF die], rule always_bindI [OF die], rule step [unfolded Let_def])
      (auto simp: quot_int_nonneg)
qed


section \<open>Mining difficulty and the planets of an attempt\<close>

lemma always_template_mining:
  assumes "1 \<le> diameter" and "diameter \<le> 283"
  shows "always (template_mining diameter) (\<lambda>md. 30 \<le> md \<and> md \<le> 1000)"
proof -
  have attempt: "always (template_mining_try d) (\<lambda>_. True)" if "1 \<le> d" "d \<le> 283" for d
    using that unfolding template_mining_try_def by (intro always_intros) auto
  let ?Q = "\<lambda>diameter (r :: prng) res. 1 \<le> diameter \<and> diameter \<le> 283 \<longrightarrow>
      (\<exists>x r'. res = Inr (x, r') \<and> (30 :: int) \<le> x \<and> x \<le> 1000)"
  have "?Q diameter r res" if "template_mining diameter r = Some res" for r res
  proof (rule template_mining.raw_induct [where P = ?Q, OF _ that])
    fix f :: "int \<Rightarrow> prng \<Rightarrow> (panic + int \<times> prng) option" and diameter r res
    assume IH: "\<And>diameter r res. f diameter r = Some res \<Longrightarrow> ?Q diameter r res"
      and eq: "go_bind (template_mining_try diameter r)
         (\<lambda>x. if fst x \<ge> 30 \<and> fst x \<le> 1000 then ret x else f diameter (snd x)) = Some res"
    show "?Q diameter r res"
    proof (intro impI, elim conjE)
      assume d: "1 \<le> diameter" "diameter \<le> 283"
      from eq obtain q where q: "template_mining_try diameter r = Some q"
        by (cases "template_mining_try diameter r") auto
      from always_Some [OF attempt [OF d] q] obtain x r' where x: "q = Inr (x, r')" by auto
      with q eq IH d show "\<exists>x r'. res = Inr (x, r') \<and> (30 :: int) \<le> x \<and> x \<le> 1000"
        by (fastforce split: if_splits)
    qed
  qed
  with assms show ?thesis unfolding always_def yields_def
    by (fastforce split: option.splits sum.splits)
qed

lemma always_ordinary_planet:
  assumes d: "3 \<le> diameter" "diameter \<le> 283" and kind: "kind = planetKindFromDiameter diameter"
    and g: "0 \<le> gravity" "gravity \<le> 2241" and tc: "1 \<le> tc" "tc \<le> 30"
  shows "always (ordinary_planet diameter kind gravity tc) (\<lambda>p. ordinary_ok p \<and> tp_TemperatureClass p = tc)"
proof -
  have atm: "always (if pc > 0 then rollNonEarthAtmosphere tc else rret [])
      (\<lambda>gs. if pc > 0 then gases_ok (tgas_pairs gs) else gs = [])" for pc :: int
    using always_rollNonEarthAtmosphere [of tc] by (auto intro: always_rret)
  have md: "always (template_mining diameter) (\<lambda>md. 30 \<le> md \<and> md \<le> 1000)"
    using d by (intro always_template_mining) auto
  show ?thesis unfolding ordinary_planet_def
    by (rule always_bindI [OF always_template_pressure [OF g]], rule always_bindI [OF atm],
        rule always_bindI [OF md], rule always_rret)
      (use d kind g tc in \<open>auto simp: ordinary_ok_def split: if_splits\<close>)
qed

lemma startDiameter_bounds: "0 \<le> i \<Longrightarrow> i \<le> 9 \<Longrightarrow> 0 \<le> startDiameter ! nat i \<and> startDiameter ! nat i \<le> 143"
  using seed_range [of i] by (auto simp: startDiameter_def)

lemma startTempClass_bounds: "0 \<le> i \<Longrightarrow> i \<le> 9 \<Longrightarrow> \<bar>startTempClass ! nat i\<bar> < 2 ^ 52"
  using seed_range [of i] by (auto simp: startTempClass_def)

text \<open>What a planet does to the flag \<open>earthLikeConsumed\<close> and to the ordering of temperatures.\<close>

definition planet_step :: "bool \<Rightarrow> int option \<Rightarrow> templatePlanet \<times> bool \<Rightarrow> bool" where
  "planet_step consumed prev x = (case x of (tp, consumed') \<Rightarrow>
     (case prev of None \<Rightarrow> True | Some t \<Rightarrow> tp_TemperatureClass tp \<le> t) \<and>
     (if \<not> consumed \<and> consumed' then earth_like_ok tp
      else consumed' = consumed \<and> ordinary_ok tp \<and> (\<not> consumed \<longrightarrow> 11 < tp_TemperatureClass tp)))"

definition state_ok :: "bool \<Rightarrow> int option \<Rightarrow> bool" where
  "state_ok consumed prev \<longleftrightarrow> (case prev of None \<Rightarrow> \<not> consumed | Some t \<Rightarrow> 1 \<le> t \<and> (\<not> consumed \<longrightarrow> 11 < t))"

lemma always_template_planet:
  assumes np: "1 \<le> numPlanets" and orbit: "1 \<le> orbit" and st: "state_ok consumed prev"
  shows "always (template_planet numPlanets orbit consumed prev) (planet_step consumed prev)"
proof -
  have base: "always (rlift (template_base numPlanets orbit)) (\<lambda>i. 0 \<le> i \<and> i \<le> 9)"
    using np unfolding template_base_def
    by (auto intro!: always_rlift yields_bind yields_if yields_go_div simp: startDiameter_def)
  have idx: "always (rlift (go_index xs i)) (\<lambda>v. v = xs ! nat i)"
    if "0 \<le> i \<and> i \<le> 9" "length xs = 10" for xs :: "int list" and i
    using that by (auto intro!: always_rlift yields_go_index)
  have prev: "case prev of None \<Rightarrow> True | Some t \<Rightarrow> 1 \<le> t" using st by (auto simp: state_ok_def split: option.splits)
  have earth: "always (rbind earth_like (\<lambda>tp. rret (tp, True))) (planet_step consumed prev)" if "\<not> consumed"
    using that st by (intro always_bindI [OF always_earth_like] always_rret)
      (auto simp: planet_step_def earth_like_ok_def state_ok_def split: option.splits)
  show ?thesis unfolding template_planet_def
  proof (rule always_bindI [OF base], rule always_bindI [OF idx], assumption, simp add: startDiameter_def,
      rule always_bindI [OF idx], assumption, simp add: startTempClass_def,
      hypsubst, rule always_bindI [OF always_template_diameter], simp add: startDiameter_bounds,
      simp add: startDiameter_bounds, unfold Let_def, rule always_bindI [OF always_template_gravity],
      simp, simp, rule always_bindI [OF always_template_temperature [OF startTempClass_bounds prev]], simp, simp)
    fix i diameter gravity tc :: int
    assume a: "3 \<le> diameter \<and> diameter \<le> 283" "0 \<le> gravity \<and> gravity \<le> 2241"
      "1 \<le> tc \<and> tc \<le> 30 \<and> (case prev of None \<Rightarrow> True | Some t \<Rightarrow> tc \<le> t)"
    show "always (if \<not> consumed \<and> tc \<le> 11 then rbind earth_like (\<lambda>tp. rret (tp, True))
       else rbind (ordinary_planet diameter (planetKindFromDiameter diameter) gravity tc) (\<lambda>tp. rret (tp, consumed)))
       (planet_step consumed prev)"
      using a by (intro always_if earth always_bindI [OF always_ordinary_planet] always_rret)
        (auto simp: planet_step_def split: option.splits)
  qed
qed

definition ordered_from :: "int option \<Rightarrow> templatePlanet list \<Rightarrow> bool" where
  "ordered_from prev tps \<longleftrightarrow>
     sorted_wrt (\<lambda>a b. b \<le> a) (map tp_TemperatureClass tps) \<and>
     (case prev of None \<Rightarrow> True | Some t \<Rightarrow> \<forall>p \<in> set tps. tp_TemperatureClass p \<le> t)"

definition homes :: "templatePlanet list \<Rightarrow> templatePlanet list" where
  "homes tps = filter (\<lambda>p. tp_Special p = 1) tps"

definition homes_ok :: "bool \<Rightarrow> templatePlanet list \<Rightarrow> bool" where
  "homes_ok consumed tps \<longleftrightarrow>
     (if consumed then homes tps = []
      else (homes tps = [] \<and> (\<forall>p \<in> set tps. 11 < tp_TemperatureClass p)) \<or> (\<exists>h. homes tps = [h] \<and> earth_like_ok h))"

definition template_list_ok :: "bool \<Rightarrow> int option \<Rightarrow> templatePlanet list \<Rightarrow> bool" where
  "template_list_ok consumed prev tps \<longleftrightarrow> list_all tplanet_ok tps \<and> ordered_from prev tps \<and> homes_ok consumed tps"

lemma template_list_ok_Cons:
  assumes step: "planet_step consumed prev (tp, consumed')"
    and rest: "template_list_ok consumed' (Some (tp_TemperatureClass tp)) tps"
  shows "template_list_ok consumed prev (tp # tps)"
proof -
  have ok: "tplanet_ok tp" and le: "case prev of None \<Rightarrow> True | Some t \<Rightarrow> tp_TemperatureClass tp \<le> t"
    using step by (auto simp: planet_step_def tplanet_ok_def split: if_splits)
  have ord: "ordered_from prev (tp # tps)"
    using rest le by (auto simp: template_list_ok_def ordered_from_def split: option.splits)
  have "homes_ok consumed (tp # tps)"
    using step rest by (auto simp: planet_step_def template_list_ok_def homes_ok_def homes_def
        earth_like_ok_def ordinary_ok_def split: if_splits)
  with ok ord rest show ?thesis by (simp add: template_list_ok_def)
qed

lemma state_ok_step:
  "planet_step consumed prev (tp, consumed') \<Longrightarrow> state_ok consumed' (Some (tp_TemperatureClass tp))"
  by (auto simp: planet_step_def state_ok_def earth_like_ok_def ordinary_ok_def split: if_splits)

lemma always_template_planets:
  assumes "1 \<le> numPlanets" and "1 \<le> orbit" and "state_ok consumed prev"
  shows "always (template_planets numPlanets k orbit consumed prev)
     (\<lambda>tps. length tps = k \<and> template_list_ok consumed prev tps)"
  using assms
proof (induction k arbitrary: orbit consumed prev)
  case 0
  then show ?case
    by (auto intro!: always_rret simp: template_list_ok_def ordered_from_def homes_ok_def homes_def split: option.splits)
next
  case (Suc k)
  show ?case unfolding template_planets.simps
  proof (rule always_bindI [OF always_template_planet [OF Suc.prems]], clarify, rule always_bindI [OF Suc.IH], goal_cases)
    case (4 tp consumed' tps)
    then show ?case by (auto intro!: always_rret intro: template_list_ok_Cons)
  qed (use Suc.prems in \<open>auto intro: state_ok_step\<close>)
qed

section \<open>The viability score\<close>

definition lsn_step :: "atmosphericGas list \<Rightarrow> int \<Rightarrow> templateGas \<Rightarrow> int" where
  "lsn_step homeGases lsn g =
     (let lsn = (if tg_Gas g = GasO2 then lsn - 2 else lsn) in if tg_Gas g \<notin> set homeGases then lsn + 2 else lsn)"

lemma lsn_fold_ge:
  "distinct (map tg_Gas gs) \<Longrightarrow>
     l - (if GasO2 \<in> tg_Gas ` set gs then 2 else 0) \<le> foldl (lsn_step hg) l gs"
proof (induction gs arbitrary: l)
  case (Cons g gs)
  have "l - (if tg_Gas g = GasO2 then 2 else 0) \<le> lsn_step hg l g" by (simp add: lsn_step_def Let_def)
  moreover have "lsn_step hg l g - (if GasO2 \<in> tg_Gas ` set gs then 2 else 0) \<le> foldl (lsn_step hg) (lsn_step hg l g) gs"
    using Cons by simp
  moreover have "tg_Gas g \<notin> tg_Gas ` set gs" using Cons.prems by simp
  ultimately show ?case by (auto split: if_splits)
qed simp

lemma lsn_fold_home:
  "distinct (map tg_Gas gs) \<Longrightarrow> tg_Gas ` set gs \<subseteq> set hg \<Longrightarrow>
     foldl (lsn_step hg) l gs = l - (if GasO2 \<in> tg_Gas ` set gs then 2 else 0)"
proof (induction gs arbitrary: l)
  case (Cons g gs)
  then show ?case by (auto simp: lsn_step_def Let_def)
qed simp

lemma approximateLSN_alt:
  "approximateLSN p h = foldl (lsn_step (map tg_Gas (tp_Atmosphere h)))
     (2 * go_abs (tp_TemperatureClass p - tp_TemperatureClass h)
      + 2 * go_abs (tp_PressureClass p - tp_PressureClass h) + 2) (tp_Atmosphere p)"
  by (simp add: approximateLSN_def lsn_step_def [abs_def] Let_def)

lemma tplanet_distinct: "tplanet_ok p \<Longrightarrow> distinct (map tg_Gas (tp_Atmosphere p))"
  by (auto simp: tplanet_ok_def earth_like_ok_def ordinary_ok_def gases_ok_def tgas_pairs_def comp_def split: if_splits)

lemma go_abs_nonneg: "0 \<le> go_abs x"
  by (simp add: go_abs_def)

lemma LSN_nonneg: "tplanet_ok p \<Longrightarrow> 0 \<le> approximateLSN p h"
  using lsn_fold_ge [OF tplanet_distinct, of p "2 * go_abs (tp_TemperatureClass p - tp_TemperatureClass h)
      + 2 * go_abs (tp_PressureClass p - tp_PressureClass h) + 2" "map tg_Gas (tp_Atmosphere h)"]
    go_abs_nonneg [of "tp_TemperatureClass p - tp_TemperatureClass h"]
    go_abs_nonneg [of "tp_PressureClass p - tp_PressureClass h"]
  unfolding approximateLSN_alt by (auto split: if_splits)

lemma LSN_home: "earth_like_ok h \<Longrightarrow> approximateLSN h h = 0"
proof -
  assume h: "earth_like_ok h"
  then have "GasO2 \<in> tg_Gas ` set (tp_Atmosphere h)" by (force simp: earth_like_ok_def)
  with tplanet_distinct [of h] h show ?thesis
    by (subst approximateLSN_alt, subst lsn_fold_home) (auto simp: tplanet_ok_def go_abs_def)
qed

definition contribution :: "templatePlanet \<Rightarrow> templatePlanet \<Rightarrow> int" where
  "contribution home p = 20000 div ((3 + approximateLSN p home) * (50 + tp_MiningDifficulty p))"

lemma tplanet_md: "tplanet_ok p \<Longrightarrow> 30 \<le> tp_MiningDifficulty p"
  by (auto simp: tplanet_ok_def earth_like_ok_def ordinary_ok_def)

lemma contribution_divisor:
  assumes "tplanet_ok p"
  shows "240 \<le> (3 + approximateLSN p h) * (50 + tp_MiningDifficulty p)"
  using mult_mono [of 3 "3 + approximateLSN p h" 80 "50 + tp_MiningDifficulty p"]
    LSN_nonneg [OF assms, of h] tplanet_md [OF assms] by simp

lemma contribution_bounds: "tplanet_ok p \<Longrightarrow> 0 \<le> contribution h p \<and> contribution h p \<le> 83"
  using contribution_divisor [of p h] zdiv_mono2 [of 20000 240 "(3 + approximateLSN p h) * (50 + tp_MiningDifficulty p)"]
  by (simp add: contribution_def pos_imp_zdiv_nonneg_iff)

lemma contribution_home: "earth_like_ok h \<Longrightarrow> 23 \<le> contribution h h"
  using zdiv_mono2 [of 20000 "3 * (50 + tp_MiningDifficulty h)" 840] LSN_home [of h]
  by (simp add: contribution_def earth_like_ok_def)

lemma score_sum_eq:
  "list_all tplanet_ok ps \<Longrightarrow> score_sum h ps s = ret (s + sum_list (map (contribution h) ps))"
proof (induction ps arbitrary: s)
  case (Cons p ps)
  then have "240 \<le> (3 + approximateLSN p h) * (50 + tp_MiningDifficulty p)" by (simp add: contribution_divisor)
  with Cons show ?case by (simp add: go_div_def quot_int_nonneg contribution_def algebra_simps)
qed simp

lemma sum_list_le_const:
  fixes f :: "'a \<Rightarrow> int"
  shows "(\<And>x. x \<in> set xs \<Longrightarrow> f x \<le> c) \<Longrightarrow> sum_list (map f xs) \<le> int (length xs) * c"
  by (induction xs) (force simp: algebra_simps)+

definition score_ok :: "templatePlanet list \<Rightarrow> int \<Rightarrow> bool" where
  "score_ok tps s \<longleftrightarrow> 0 \<le> s \<and> s \<le> 83 * int (length tps) \<and> (if homes tps = [] then s = 0 else 23 \<le> s)"

lemma yields_computeViabilityScore:
  assumes "template_list_ok False None tps"
  shows "yields (computeViabilityScore tps) (score_ok tps)"
proof (cases "find (\<lambda>p. tp_Special p = 1) tps")
  case None
  then have "homes tps = []" by (auto simp: homes_def find_None_iff filter_empty_conv)
  with None show ?thesis by (simp add: computeViabilityScore_def score_ok_def)
next
  case (Some h)
  then have h: "h \<in> set tps" "tp_Special h = 1" by (auto simp: find_Some_iff)
  then have ne: "homes tps \<noteq> []" "h \<in> set (homes tps)" by (auto simp: homes_def filter_empty_conv)
  then have e: "earth_like_ok h" using assms by (auto simp: template_list_ok_def homes_ok_def)
  have all: "list_all tplanet_ok tps" using assms by (simp add: template_list_ok_def)
  then have b: "0 \<le> contribution h p \<and> contribution h p \<le> 83" if "p \<in> set tps" for p
    using that contribution_bounds by (auto simp: list_all_iff)
  have "contribution h h \<le> sum_list (map (contribution h) tps)"
    using b h by (intro member_le_sum_list_int) auto
  then show ?thesis
    using Some all ne contribution_home [OF e] sum_list_le_const [of tps "contribution h" 83] b
    by (simp add: computeViabilityScore_def score_sum_eq score_ok_def algebra_simps)
qed

section \<open>Attempts and the driver\<close>

definition template_ok :: "int \<Rightarrow> homeStarTemplate \<Rightarrow> bool" where
  "template_ok n t \<longleftrightarrow> tmpl_NumPlanets t = n \<and> int (length (tmpl_Planets t)) = n \<and>
     template_list_ok False None (tmpl_Planets t) \<and>
     computeViabilityScore (tmpl_Planets t) = ret (tmpl_ViabilityScore t) \<and>
     score_ok (tmpl_Planets t) (tmpl_ViabilityScore t)"

lemma always_attempt:
  assumes "1 \<le> n"
  shows "always (generateHomeStarTemplateAttempt n) (\<lambda>(t, s). template_ok n t \<and> s = tmpl_ViabilityScore t)"
proof -
  have sc: "always (rlift (computeViabilityScore tps)) (\<lambda>s. computeViabilityScore tps = ret s \<and> score_ok tps s)"
    if "template_list_ok False None tps" for tps
    using yields_computeViabilityScore [OF that]
    by (auto intro!: always_rlift simp: yields_def split: option.splits sum.splits)
  have st: "state_ok False None" by (simp add: state_ok_def)
  show ?thesis unfolding generateHomeStarTemplateAttempt_def
    by (rule always_bindI [OF always_template_planets [OF assms _ st]], simp, elim conjE,
        rule always_bindI [OF sc], assumption, rule always_rret) (use assms in \<open>auto simp: template_ok_def\<close>)
qed

text \<open>
  A slot: the template, if there is one, has the slot's planet count and a score inside the
  window; the best score is at least that score; attempts were made.
\<close>

definition slot_ok :: "viabilityWindow \<Rightarrow> int \<Rightarrow> homeStarTemplateOutcome \<Rightarrow> bool" where
  "slot_ok w n s \<longleftrightarrow> hso_NumPlanets s = n \<and> 0 \<le> hso_Attempts s \<and> 0 \<le> hso_BestScore s \<and>
     (case hso_Template s of
        None \<Rightarrow> True
      | Some t \<Rightarrow> template_ok n t \<and> Accepts w (tmpl_ViabilityScore t) \<and>
          tmpl_ViabilityScore t \<le> hso_BestScore s \<and> 1 \<le> hso_Attempts s)"

definition outcome_ok :: "viabilityWindow \<Rightarrow> nat \<Rightarrow> homeStarTemplateOutcome option \<Rightarrow> bool" where
  "outcome_ok w n o' \<longleftrightarrow> (if n < 3 then o' = None else (case o' of None \<Rightarrow> False | Some s \<Rightarrow> slot_ok w (int n) s))"

definition attempts :: "homeStarTemplateOutcome option list \<Rightarrow> int" where
  "attempts os = sum_list (map (\<lambda>o'. case o' of None \<Rightarrow> 0 | Some s \<Rightarrow> hso_Attempts s) os)"

definition outcomes_ok :: "viabilityWindow \<Rightarrow> int \<Rightarrow> homeStarTemplateOutcome option list \<Rightarrow> bool" where
  "outcomes_ok w budget os \<longleftrightarrow> list_all2 (outcome_ok w) [0..<10] os \<and> attempts os \<le> budget"

lemma slot_ok_record:
  assumes "slot_ok w n slot" and "hso_Template slot = None" and "template_ok n t" and "s = tmpl_ViabilityScore t"
  shows "slot_ok w n (record_attempt w t s slot)" and "hso_Attempts (record_attempt w t s slot) = hso_Attempts slot + 1"
  using assms by (auto simp: slot_ok_def record_attempt_def Let_def)

lemma attempts_update:
  "i < length os \<Longrightarrow> os ! i = Some s \<Longrightarrow> attempts (os[i := Some s']) = attempts os + hso_Attempts s' - hso_Attempts s"
proof (induction os arbitrary: i)
  case (Cons x xs)
  then show ?case by (cases i) (auto simp: attempts_def)
qed simp

lemma always_template_loop:
  assumes "outcomes_ok w b os"
  shows "always (template_loop w rolls os filled) (outcomes_ok w (b + int rolls))"
  using assms
proof (induction rolls arbitrary: b os filled)
  case 0
  then show ?case by (auto intro: always_rret)
next
  case (Suc k)
  have weaken: "outcomes_ok w b' os'" if "outcomes_ok w b os'" "b \<le> b'" for os' b b'
    using that by (simp add: outcomes_ok_def)
  have same: "always (template_loop w k os filled) (outcomes_ok w (b + int (Suc k)))"
    using Suc.IH [OF Suc.prems] by (rule always_conseq) (erule weaken, simp)
  have nxt: "always (template_loop w k (os[nat n := Some (record_attempt w t s slot)]) f) (outcomes_ok w (b + int (Suc k)))"
    if n: "\<not> (n < 3 \<or> 9 < n)" and slot: "os ! nat n = Some slot" "hso_Template slot = None"
      and t: "template_ok n t" "s = tmpl_ViabilityScore t" for n t s slot f
  proof -
    have l: "length os = 10" and ok: "\<And>i. i < 10 \<Longrightarrow> outcome_ok w i (os ! i)"
      using Suc.prems by (auto simp: outcomes_ok_def list_all2_conv_all_nth)
    have so: "slot_ok w n slot" using ok [of "nat n"] n slot by (simp add: outcome_ok_def nat_less_iff)
    have "outcome_ok w i (os[nat n := Some (record_attempt w t s slot)] ! i)" if "i < 10" for i
      using ok [OF that] slot_ok_record(1) [OF so slot(2) t] n l that
      by (cases "i = nat n") (auto simp: outcome_ok_def)
    moreover have "attempts (os[nat n := Some (record_attempt w t s slot)]) \<le> b + 1"
      using Suc.prems attempts_update [of "nat n" os slot "record_attempt w t s slot"] n l slot
        slot_ok_record(2) [OF so slot(2) t] by (simp add: outcomes_ok_def nat_less_iff)
    ultimately have "outcomes_ok w (b + 1) (os[nat n := Some (record_attempt w t s slot)])"
      using l by (simp add: outcomes_ok_def list_all2_conv_all_nth)
    from Suc.IH [OF this] show ?thesis by (rule always_conseq) (erule weaken, simp)
  qed
  have idx: "always (rlift (go_index os n)) (\<lambda>x. x = os ! nat n \<and> x \<noteq> None)" if "\<not> (n < 3 \<or> 9 < n)" for n
  proof -
    have "length os = 10" "outcome_ok w (nat n) (os ! nat n)"
      using Suc.prems that by (auto simp: outcomes_ok_def list_all2_conv_all_nth)
    then show ?thesis using that
      by (auto intro!: always_rlift yields_go_index simp: outcome_ok_def split: option.splits if_splits)
  qed
  show ?case unfolding template_loop.simps Let_def
  proof (rule always_if, rule always_bindI [OF always_rollStar], clarify, rule always_if, rule same,
      rule always_bindI [OF idx], assumption, elim conjE exE, goal_cases)
    case (1 star ps x)
    then obtain slot where slot: "x = Some slot" by auto
    have pos: "1 \<le> star_NumPlanets star" using 1 by simp
    show ?case unfolding slot option.case
      by (rule always_if, rule same, rule always_bindI [OF always_attempt [OF pos]])
         (use 1 slot in \<open>auto intro!: nxt [simplified]\<close>)
  next
    case 2
    show ?case by (intro always_rret weaken [OF Suc.prems]) simp
  qed
qed

lemma outcomes_ok_empty: "outcomes_ok w 0 empty_outcomes"
proof -
  have "[0..<10] = [0, 1, 2, 3, 4, 5, 6, 7, 8, 9]" by (simp add: upt_rec)
  then show ?thesis by (simp add: outcomes_ok_def empty_outcomes_def attempts_def outcome_ok_def slot_ok_def)
qed

lemma always_GenerateHomeStarTemplates:
  "always (GenerateHomeStarTemplates w budget)
     (outcomes_ok w (if budget \<le> 0 then DefaultMaxCandidateRolls else budget))"
  using always_template_loop [OF outcomes_ok_empty]
  unfolding GenerateHomeStarTemplates_def Let_def
  by (rule always_conseq) (auto simp: DefaultMaxCandidateRolls_def)

section \<open>The driver, candidate by candidate\<close>

text \<open>
  What the driver is meant to do, without its counters: one candidate star at a time, as long as a slot
  is empty, each candidate tried if the slot of its planet count is empty and dropped otherwise.
  \<open>take_candidates w k\<close> takes \<open>k\<close> candidates, dropped ones included.
\<close>

definition slot_filled :: "homeStarTemplateOutcome option \<Rightarrow> bool" where
  "slot_filled o' \<longleftrightarrow> (case o' of None \<Rightarrow> False | Some s \<Rightarrow> hso_Template s \<noteq> None)"

definition try_candidate ::
    "viabilityWindow \<Rightarrow> homeStarTemplateOutcome option list \<Rightarrow> star \<Rightarrow> homeStarTemplateOutcome option list roller" where
  "try_candidate w os candidate =
     (let n = star_NumPlanets candidate in
      if 3 \<le> n \<and> n \<le> 9 \<and> \<not> slot_filled (os ! nat n)
      then rbind (generateHomeStarTemplateAttempt n) (\<lambda>(template, score).
        rret (os[nat n := map_option (record_attempt w template score) (os ! nat n)]))
      else rret os)"

fun take_candidates ::
    "viabilityWindow \<Rightarrow> nat \<Rightarrow> homeStarTemplateOutcome option list \<Rightarrow> homeStarTemplateOutcome option list roller" where
  "take_candidates w 0 os = rret os"
| "take_candidates w (Suc k) os =
     (if list_all slot_filled (drop 3 os) then rret os
      else rbind rollStar (\<lambda>(candidate, _). rbind (try_candidate w os candidate) (take_candidates w k)))"

text \<open>Ten slots, those from 3 on present: the counter \<open>filled\<close> of the driver is the number of filled slots.\<close>

definition slots_shape :: "homeStarTemplateOutcome option list \<Rightarrow> bool" where
  "slots_shape os \<longleftrightarrow> length os = 10 \<and> None \<notin> set (drop 3 os)"

definition filled_slots :: "homeStarTemplateOutcome option list \<Rightarrow> int" where
  "filled_slots os = int (length (filter slot_filled (drop 3 os)))"

lemma filled_all: "slots_shape os \<Longrightarrow> filled_slots os < 7 \<longleftrightarrow> \<not> list_all slot_filled (drop 3 os)"
proof -
  assume "slots_shape os"
  then have l: "length (drop 3 os) = 7" by (simp add: slots_shape_def)
  have "length (filter slot_filled (drop 3 os)) < 7 \<longleftrightarrow> (\<exists>x \<in> set (drop 3 os). \<not> slot_filled x)"
    using l length_filter_less [of _ "drop 3 os" slot_filled] filter_True [of "drop 3 os" slot_filled] by (metis less_irrefl)
  then show ?thesis by (auto simp: filled_slots_def list_all_iff)
qed

lemma length_filter_update:
  "i < length xs \<Longrightarrow> \<not> P (xs ! i) \<Longrightarrow> length (filter P (xs[i := y])) = length (filter P xs) + (if P y then 1 else 0)"
  by (induction xs arbitrary: i) (auto split: nat.splits)

lemma record_shape:
  assumes "slots_shape os" and "3 \<le> n" and "n \<le> 9" and "os ! nat n = Some slot" and "hso_Template slot = None"
  shows "slots_shape (os[nat n := Some (record_attempt w t s slot)])"
    and "filled_slots (os[nat n := Some (record_attempt w t s slot)]) = (if Accepts w s then filled_slots os + 1 else filled_slots os)"
proof -
  let ?s = "Some (record_attempt w t s slot)"
  have d: "drop 3 (os[nat n := ?s]) = (drop 3 os)[nat n - 3 := ?s]" using assms(2) by (simp add: drop_update_swap le_nat_iff)
  then show "slots_shape (os[nat n := ?s])"
    using assms(1) set_update_subset_insert [of "drop 3 os" "nat n - 3" ?s] by (auto simp: slots_shape_def)
  have i: "nat n - 3 < length (drop 3 os)" "drop 3 os ! (nat n - 3) = Some slot"
    using assms by (auto simp: slots_shape_def nat_less_iff le_nat_iff)
  have "slot_filled ?s \<longleftrightarrow> Accepts w s" using assms(5) by (simp add: slot_filled_def record_attempt_def Let_def)
  then show "filled_slots (os[nat n := ?s]) = (if Accepts w s then filled_slots os + 1 else filled_slots os)"
    using length_filter_update [OF i(1), of slot_filled ?s] i(2) assms(5) by (simp add: filled_slots_def d slot_filled_def)
qed

lemma rbind_rret: "rbind (rret a) f = f a"
  by (simp add: rbind_def rret_def fun_eq_iff)

lemma rbind_assoc: "rbind (rbind m f) g = rbind m (\<lambda>a. rbind (f a) g)"
  by (simp add: rbind_def fun_eq_iff go_bind_def split: option.split sum.split prod.split)

lemma rlift_ret: "rlift (ret a) = rret a"
  by (simp add: rlift_def rret_def fun_eq_iff)

lemmas roller_simps = rbind_rret rbind_assoc rlift_ret

lemma template_loop_candidates:
  "slots_shape os \<Longrightarrow> template_loop w k os (filled_slots os) = take_candidates w k os"
proof (induction k arbitrary: os)
  case (Suc k)
  let ?next = "\<lambda>candidate. let n = star_NumPlanets candidate in
        if n < 3 \<or> n > 9 then template_loop w k os (filled_slots os)
        else rbind (rlift (go_index os n)) (\<lambda>slot.
          case slot of
            None \<Rightarrow> rpanic NilDereference
          | Some slot \<Rightarrow>
              if hso_Template slot \<noteq> None then template_loop w k os (filled_slots os)
              else rbind (generateHomeStarTemplateAttempt n) (\<lambda>(template, score).
                template_loop w k (os[nat n := Some (record_attempt w template score slot)])
                  (if Accepts w score then filled_slots os + 1 else filled_slots os)))"
  have "?next candidate = rbind (try_candidate w os candidate) (take_candidates w k)" for candidate
  proof (cases "3 \<le> star_NumPlanets candidate \<and> star_NumPlanets candidate \<le> 9")
    case True
    let ?n = "star_NumPlanets candidate"
    have l: "length os = 10" using Suc.prems by (simp add: slots_shape_def)
    have "os ! nat ?n = drop 3 os ! (nat ?n - 3)" "nat ?n - 3 < length (drop 3 os)"
      using True l by (auto simp: nat_less_iff le_nat_iff)
    then have "os ! nat ?n \<in> set (drop 3 os)" by (metis nth_mem)
    with Suc.prems have "os ! nat ?n \<noteq> None" unfolding slots_shape_def by metis
    then obtain slot where slot: "os ! nat ?n = Some slot" by blast
    have idx: "go_index os ?n = ret (Some slot)" using True l slot by (simp add: go_index_def)
    show ?thesis
    proof (cases "hso_Template slot = None")
      case open': True
      have "template_loop w k (os[nat ?n := Some (record_attempt w t s slot)]) (if Accepts w s then filled_slots os + 1 else filled_slots os) =
          take_candidates w k (os[nat ?n := Some (record_attempt w t s slot)])" for t s
        using Suc.IH [of "os[nat ?n := Some (record_attempt w t s slot)]"] record_shape [OF Suc.prems _ _ slot open'] True by simp
      with True slot open' idx show ?thesis
        by (simp add: try_candidate_def slot_filled_def roller_simps case_prod_unfold Let_def)
    next
      case False
      with True slot idx Suc.IH [OF Suc.prems] show ?thesis by (simp add: try_candidate_def slot_filled_def roller_simps Let_def)
    qed
  next
    case False
    with Suc.IH [OF Suc.prems] show ?thesis by (auto simp: try_candidate_def Let_def roller_simps)
  qed
  then have same: "(\<lambda>(candidate, ps). ?next candidate) = (\<lambda>(candidate, _). rbind (try_candidate w os candidate) (take_candidates w k))"
    by (simp add: fun_eq_iff)
  show ?case unfolding template_loop.simps take_candidates.simps filled_all [OF Suc.prems] same
    by (cases "list_all slot_filled (drop 3 os)") (simp_all only: not_False_eq_True not_True_eq_False if_True if_False)
qed simp

lemma empty_shape: "slots_shape empty_outcomes" "filled_slots empty_outcomes = 0"
  by (simp_all add: slots_shape_def filled_slots_def empty_outcomes_def slot_filled_def filter_empty_conv upto_rec1)

section \<open>Properties\<close>

text \<open>An attempt at a home system with \<open>n\<close> planets yields \<open>n\<close> well-formed planets in the order of
  falling temperature, at most one of them the earth-like home (present unless every planet is too
  hot), and the viability score of exactly these planets.\<close>

theorem attempt_correct:
  assumes "1 \<le> n"
  shows "always (generateHomeStarTemplateAttempt n) (\<lambda>(t, s). template_ok n t \<and> s = tmpl_ViabilityScore t)"
  by (rule always_attempt [OF assms])

theorem attempt_correct_witness:
  "always (generateHomeStarTemplateAttempt 3) (\<lambda>(t, s). template_ok 3 t \<and> s = tmpl_ViabilityScore t)"
  by (rule attempt_correct) simp

text \<open>C36.  The viability score of a well-formed home system is computed without a division by zero; it
  is 0 without a home planet, at least 23 with one, and at most 83 for each planet.\<close>

theorem computeViabilityScore_bounds:
  assumes "template_list_ok False None planets"
  shows "yields (computeViabilityScore planets) (score_ok planets)"
  by (rule yields_computeViabilityScore [OF assms])

definition sample_home :: templatePlanet where
  "sample_home = \<lparr>tp_Kind = KindRocky, tp_Diameter = 12, tp_Gravity = 100, tp_TemperatureClass = 11,
     tp_PressureClass = 10, tp_MiningDifficulty = 220,
     tp_Atmosphere = [\<lparr>tg_Gas = 5, tg_Percent = 80\<rparr>, \<lparr>tg_Gas = 7, tg_Percent = 20\<rparr>], tp_Special = 1\<rparr>"

theorem computeViabilityScore_bounds_witness:
  "yields (computeViabilityScore [sample_home]) (score_ok [sample_home])"
  by (rule computeViabilityScore_bounds)
    (simp add: sample_home_def template_list_ok_def tplanet_ok_def earth_like_ok_def ordered_from_def homes_ok_def
      homes_def gases_ok_def tgas_pairs_def GasO2_def)

text \<open>C20.  The template driver keeps one slot for each planet count from 3 to 9; a filled slot holds a
  well-formed template with that many planets whose score the window accepts.  It takes candidate stars one by one
  until every slot is filled or it has taken as many as the budget says, the dropped ones counted, and tries
  exactly those whose slot is still empty.\<close>

theorem GenerateHomeStarTemplates_correct:
  defines "candidates \<equiv> \<lambda>budget. if budget \<le> 0 then DefaultMaxCandidateRolls else budget"
  shows "always (GenerateHomeStarTemplates w budget) (outcomes_ok w (candidates budget)) \<and>
    GenerateHomeStarTemplates w budget = take_candidates w (nat (candidates budget)) empty_outcomes"
proof
  show "always (GenerateHomeStarTemplates w budget) (outcomes_ok w (candidates budget))"
    unfolding candidates_def by (rule always_GenerateHomeStarTemplates)
  show "GenerateHomeStarTemplates w budget = take_candidates w (nat (candidates budget)) empty_outcomes"
    using template_loop_candidates [OF empty_shape(1), of w] unfolding empty_shape(2)
    by (simp add: GenerateHomeStarTemplates_def candidates_def Let_def)
qed

end
