(* ===== verification/Deposits.thy ===== *)
theory Deposits
  imports Generator
begin

text \<open>
  internal/worldgen/deposits.go: the natural-resource deposits of the planets of a cluster.
  A table function fills resource, quantity and yield of the deposit it gets; here it returns
  the three values.
\<close>

definition rollNumDeposits :: "planetKind \<Rightarrow> int roller" where
  "rollNumDeposits kind =
     (case kind of
        KindAsteroidBelt \<Rightarrow> D4 10
      | KindGasGiant \<Rightarrow> D12 3
      | KindRocky \<Rightarrow> rbind (D8 3) (\<lambda>d. let n = d - 2 in rret (if n < 1 then 1 else n)))"

definition triangularQuantity :: "int \<Rightarrow> int \<Rightarrow> int roller" where
  "triangularQuantity step sides =
     rbind (Roll 1 sides) (\<lambda>a. rbind (Roll 1 sides) (\<lambda>b. rret (step * (a + b))))"

type_synonym deposit_roll = "resource \<times> int \<times> rat"

text \<open>The three assignments of a table row: resource, quantity, yield \<open>(dice + bias) / 100\<close>.\<close>

definition deposit_row :: "resource \<Rightarrow> int roller \<Rightarrow> int roller \<Rightarrow> int \<Rightarrow> deposit_roll roller" where
  "deposit_row res quantity dice bias =
     rbind quantity (\<lambda>q. rbind dice (\<lambda>d. rret (res, q, float_div (float_of_int (d + bias)) 100)))"

definition rollAsteroidBeltDeposit :: "int \<Rightarrow> deposit_roll roller" where
  "rollAsteroidBeltDeposit roll =
     (if roll = 1 then deposit_row Gold (triangularQuantity 50000 50) (Roll 1 3) 0
      else if roll \<le> 10 then deposit_row Fuel (triangularQuantity 500000 99) (D6 3) (- 2)
      else deposit_row Metal (triangularQuantity 500000 99) (D10 3) (- 2))"

definition rollGasGiantDeposit :: "int \<Rightarrow> deposit_roll roller" where
  "rollGasGiantDeposit roll =
     (if roll \<le> 15 then deposit_row Fuel (triangularQuantity 500000 99) (D4 10) (- 2)
      else if roll \<le> 40 then deposit_row Metal (triangularQuantity 500000 99) (D6 10) 0
      else deposit_row NonMetal (triangularQuantity 500000 99) (D6 10) 0)"

definition rollRockyDeposit :: "int \<Rightarrow> bool \<Rightarrow> deposit_roll roller" where
  "rollRockyDeposit roll hardMD =
     (if roll = 1 then
        (if hardMD then deposit_row Gold (triangularQuantity 50000 10) (Roll 1 3) 0
         else deposit_row Gold (triangularQuantity 50000 10) (D4 3) (- 3))
      else if roll \<le> 15 then
        (if hardMD then deposit_row Fuel (triangularQuantity 500000 99) (D4 10) (- 2)
         else deposit_row Fuel (triangularQuantity 500000 99) (D8 10) 0)
      else if roll \<le> 45 then
        (if hardMD then deposit_row Metal (triangularQuantity 500000 99) (D6 10) 0
         else deposit_row Metal (triangularQuantity 500000 99) (D8 10) 0)
      else
        (if hardMD then deposit_row NonMetal (triangularQuantity 500000 99) (D6 10) 0
         else deposit_row NonMetal (triangularQuantity 500000 99) (D8 10) 0))"

definition rollDeposit :: "planet \<Rightarrow> int \<Rightarrow> deposit roller" where
  "rollDeposit p n =
     rbind (Roll 1 100) (\<lambda>roll.
     rbind (case planet_Kind p of
              KindAsteroidBelt \<Rightarrow> rollAsteroidBeltDeposit roll
            | KindGasGiant \<Rightarrow> rollGasGiantDeposit roll
            | KindRocky \<Rightarrow> rollRockyDeposit roll (planet_MiningDifficulty p \<ge> 500))
       (\<lambda>(res, qty, yield).
        rret \<lparr>dep_ID = planet_ID p * 100 + n, dep_PlanetID = planet_ID p, dep_Resource = res,
              dep_Quantity = qty, dep_YieldPct = yield,
              dep_MiningDifficulty = planet_MiningDifficulty p\<rparr>))"

text \<open>The inner loop \<open>for i := 1; i <= n; i++\<close>, with \<open>k\<close> iterations left, and the outer loop.\<close>

fun planet_deposits :: "planet \<Rightarrow> nat \<Rightarrow> int \<Rightarrow> deposit list \<Rightarrow> deposit list roller" where
  "planet_deposits p 0 i acc = rret acc"
| "planet_deposits p (Suc k) i acc =
     rbind (rollDeposit p i) (\<lambda>d. planet_deposits p k (i + 1) (acc @ [d]))"

fun deposits_loop :: "planet list \<Rightarrow> deposit list \<Rightarrow> deposit list roller" where
  "deposits_loop [] acc = rret acc"
| "deposits_loop (p # ps) acc =
     rbind (rollNumDeposits (planet_Kind p)) (\<lambda>n.
     rbind (planet_deposits p (nat n) 1 acc) (\<lambda>acc. deposits_loop ps acc))"

definition GenerateDeposits :: "cluster option \<Rightarrow> cluster option roller" where
  "GenerateDeposits cl =
     (case cl of
        None \<Rightarrow> rret None
      | Some c \<Rightarrow> rbind (deposits_loop (cl_Planets c) (cl_Deposits c))
                   (\<lambda>ds. rret (Some (c\<lparr>cl_Deposits := ds\<rparr>))))"

section \<open>Every deposit is in range, and its identifier names its planet\<close>

text \<open>
  Quantities are between 100K and 99M and multiples of the table's step; a yield is a fraction;
  gold occurs in small quantities only and gas giants hold none.
\<close>

definition deposit_roll_ok :: "deposit_roll \<Rightarrow> bool" where
  "deposit_roll_ok x = (case x of (res, q, y) \<Rightarrow>
     100000 \<le> q \<and> q \<le> (if res = Gold then 5000000 else 99000000) \<and> q mod 50000 = 0 \<and> 0 \<le> y \<and> y \<le> 1)"

definition deposit_ok :: "planet \<Rightarrow> int \<Rightarrow> deposit \<Rightarrow> bool" where
  "deposit_ok p i d \<longleftrightarrow>
     dep_ID d = planet_ID p * 100 + i \<and> dep_PlanetID d = planet_ID p \<and>
     dep_MiningDifficulty d = planet_MiningDifficulty p \<and>
     deposit_roll_ok (dep_Resource d, dep_Quantity d, dep_YieldPct d) \<and>
     (planet_Kind p = KindGasGiant \<longrightarrow> dep_Resource d \<noteq> Gold) \<and>
     (planet_Kind p = KindAsteroidBelt \<longrightarrow> dep_Resource d \<noteq> NonMetal)"

definition deposit_count_ok :: "planetKind \<Rightarrow> int \<Rightarrow> bool" where
  "deposit_count_ok kind n \<longleftrightarrow>
     (case kind of KindAsteroidBelt \<Rightarrow> 10 \<le> n \<and> n \<le> 40 | KindGasGiant \<Rightarrow> 3 \<le> n \<and> n \<le> 36
      | KindRocky \<Rightarrow> 1 \<le> n \<and> n \<le> 22)"

lemma always_rollNumDeposits: "always (rollNumDeposits kind) (deposit_count_ok kind)"
  unfolding rollNumDeposits_def deposit_count_ok_def
  by (cases kind) (auto intro!: always_intros simp: Let_def)

lemma always_triangularQuantity:
  assumes "1 \<le> sides" and "sides \<le> 100" and "0 \<le> step"
  shows "always (triangularQuantity step sides) (\<lambda>q. 2 * step \<le> q \<and> q \<le> 2 * sides * step \<and> q mod step = 0)"
proof -
  have "2 * step \<le> step * (a + b) \<and> step * (a + b) \<le> 2 * sides * step" if "1 \<le> a" "a \<le> sides" "1 \<le> b" "b \<le> sides" for a b
    using mult_left_mono [of 2 "a + b" step] mult_left_mono [of "a + b" "2 * sides" step] assms that
    by (simp add: algebra_simps)
  then show ?thesis unfolding triangularQuantity_def using assms by (auto intro!: always_intros)
qed

lemma always_deposit_row:
  assumes q: "always quantity (\<lambda>q. 2 * step \<le> q \<and> q \<le> 2 * sides * step \<and> q mod step = 0)"
    and d: "always dice (\<lambda>d. 0 \<le> d + bias \<and> d + bias \<le> 100)"
    and s: "(step = 50000 \<and> sides \<le> 50) \<or> (step = 500000 \<and> sides \<le> 99 \<and> res \<noteq> Gold)"
  shows "always (deposit_row res quantity dice bias) (\<lambda>x. deposit_roll_ok x \<and> fst x = res)"
proof -
  have fin: "deposit_roll_ok (res, a, float_div (float_of_int (b + bias)) 100)"
    if a: "2 * step \<le> a \<and> a \<le> 2 * sides * step \<and> a mod step = 0" and b: "0 \<le> b + bias \<and> b + bias \<le> 100" for a b
  proof -
    have "0 \<le> float_div (float_of_int (b + bias)) 100 \<and> float_div (float_of_int (b + bias)) 100 \<le> 1"
      using f64.percentage [of "b + bias"] b by (simp add: float_div_def float_of_int_def)
    moreover have "100000 \<le> a" "a \<le> (if res = Gold then 5000000 else 99000000)"
      using a s by auto
    moreover have "a mod 50000 = 0"
    proof (cases "step = 50000")
      case False
      then obtain c where "a = 50000 * (10 * c)" using a s by (auto elim: dvdE)
      then show ?thesis by (simp only: mod_mult_self1_is_0)
    qed (use a in simp)
    ultimately show ?thesis by (simp add: deposit_roll_ok_def)
  qed
  show ?thesis unfolding deposit_row_def
    by (rule always_bindI [OF q], rule always_bindI [OF d], rule always_rret) (simp add: fin)
qed

lemma always_ore_row:
  assumes "always dice (\<lambda>d. 0 \<le> d + bias \<and> d + bias \<le> 100)" and "res \<noteq> Gold"
  shows "always (deposit_row res (triangularQuantity 500000 99) dice bias) (\<lambda>x. deposit_roll_ok x \<and> fst x = res)"
  using assms by (intro always_deposit_row [OF always_triangularQuantity]) simp_all

lemma always_gold_row:
  assumes "always dice (\<lambda>d. 0 \<le> d + bias \<and> d + bias \<le> 100)" and "1 \<le> sides" and "sides \<le> 50"
  shows "always (deposit_row Gold (triangularQuantity 50000 sides) dice bias) (\<lambda>x. deposit_roll_ok x \<and> fst x = Gold)"
  using assms by (intro always_deposit_row [OF always_triangularQuantity]) simp_all

lemma always_yield_dice:
  "always (Roll 1 3) (\<lambda>d. 0 \<le> d + 0 \<and> d + 0 \<le> 100)" "always (D4 3) (\<lambda>d. 0 \<le> d + - 3 \<and> d + - 3 \<le> 100)"
  "always (D6 3) (\<lambda>d. 0 \<le> d + - 2 \<and> d + - 2 \<le> 100)" "always (D10 3) (\<lambda>d. 0 \<le> d + - 2 \<and> d + - 2 \<le> 100)"
  "always (D4 10) (\<lambda>d. 0 \<le> d + - 2 \<and> d + - 2 \<le> 100)" "always (D6 10) (\<lambda>d. 0 \<le> d + 0 \<and> d + 0 \<le> 100)"
  "always (D8 10) (\<lambda>d. 0 \<le> d + 0 \<and> d + 0 \<le> 100)"
  by (rule always_Roll always_dice, auto)+

lemmas row_rules =
  always_yield_dice [THEN always_ore_row] always_yield_dice [THEN always_gold_row]

lemma always_rows:
  "always (rollAsteroidBeltDeposit roll) (\<lambda>x. deposit_roll_ok x \<and> fst x \<noteq> NonMetal)"
  "always (rollGasGiantDeposit roll) (\<lambda>x. deposit_roll_ok x \<and> fst x \<noteq> Gold)"
  "always (rollRockyDeposit roll hard) deposit_roll_ok"
  unfolding rollAsteroidBeltDeposit_def rollGasGiantDeposit_def rollRockyDeposit_def
  by (intro always_if; rule always_conseq, rule row_rules; simp)+

lemma always_rollDeposit: "always (rollDeposit p i) (deposit_ok p i)"
proof -
  have roll: "always (Roll 1 100) (\<lambda>_. True)" by (auto intro: always_Roll)
  show ?thesis unfolding rollDeposit_def
    by (rule always_bindI [OF roll], cases "planet_Kind p")
       (auto intro!: always_bindI [OF always_rows(1)] always_bindI [OF always_rows(2)]
         always_bindI [OF always_rows(3)] always_rret simp: deposit_ok_def)
qed

text \<open>\<open>deposit_block p ds\<close>: the deposits of one planet, numbered from 1.\<close>

definition deposit_block :: "planet \<Rightarrow> deposit list \<Rightarrow> bool" where
  "deposit_block p ds \<longleftrightarrow> deposit_count_ok (planet_Kind p) (int (length ds)) \<and>
     list_all2 (deposit_ok p) [1..int (length ds)] ds"

lemma always_planet_deposits:
  "always (planet_deposits p k i acc)
     (\<lambda>r. \<exists>ds. r = acc @ ds \<and> length ds = k \<and> list_all2 (deposit_ok p) [i..i + int k - 1] ds)"
proof (induction k arbitrary: i acc)
  case (Suc k)
  show ?case unfolding planet_deposits.simps
    by (rule always_bindI [OF always_rollDeposit], rule always_conseq [OF Suc.IH])
       (auto simp: upto_rec1)
qed (auto intro: always_rret)

fun blocks :: "planet list \<Rightarrow> deposit list \<Rightarrow> bool" where
  "blocks [] ds \<longleftrightarrow> ds = []"
| "blocks (p # ps) ds \<longleftrightarrow> (\<exists>k \<le> length ds. deposit_block p (take k ds) \<and> blocks ps (drop k ds))"

lemma blocks_Cons: "deposit_block p ds \<Longrightarrow> blocks ps rest \<Longrightarrow> blocks (p # ps) (ds @ rest)"
  by (auto intro!: exI [of _ "length ds"])

lemma always_deposits_loop:
  "always (deposits_loop ps acc) (\<lambda>r. \<exists>ds. r = acc @ ds \<and> blocks ps ds)"
proof (induction ps arbitrary: acc)
  case (Cons p ps)
  have one: "always (planet_deposits p (nat n) 1 acc) (\<lambda>r. \<exists>ds. r = acc @ ds \<and> deposit_block p ds)"
    if "deposit_count_ok (planet_Kind p) n" for n
    using that
    by (intro always_conseq [OF always_planet_deposits])
       (auto simp: deposit_block_def deposit_count_ok_def split: planetKind.splits)
  show ?case unfolding deposits_loop.simps
    by (rule always_bindI [OF always_rollNumDeposits], rule always_bindI [OF one], assumption,
        elim exE conjE, hypsubst, rule always_conseq [OF Cons.IH])
       (auto intro: blocks_Cons simp del: blocks.simps)
qed (auto intro: always_rret)


text \<open>
  The gap of 100 between the identifiers of two planets is wider than any planet's number of
  deposits, so that identifiers are unique in the cluster.
\<close>

definition deposits_ok :: "cluster \<Rightarrow> bool" where
  "deposits_ok c \<longleftrightarrow> distinct (map dep_ID (cl_Deposits c)) \<and>
     (\<forall>p \<in> set (cl_Planets c). deposit_block p (DepositsForPlanet c (planet_ID p))) \<and>
     (\<forall>d \<in> set (cl_Deposits c). \<exists>p \<in> set (cl_Planets c). dep_PlanetID d = planet_ID p)"

lemma list_all2_dep_ID:
  "list_all2 (deposit_ok p) is ds \<Longrightarrow> map dep_ID ds = map (\<lambda>i. planet_ID p * 100 + i) is"
  by (induction rule: list_all2_induct) (simp_all add: deposit_ok_def)

lemma deposit_block_ids:
  assumes "deposit_block p ds"
  shows "map dep_ID ds = map (\<lambda>i. planet_ID p * 100 + i) [1..int (length ds)]"
    and "d \<in> set ds \<Longrightarrow> dep_PlanetID d = planet_ID p"
    and "d \<in> set ds \<Longrightarrow> planet_ID p * 100 < dep_ID d \<and> dep_ID d < planet_ID p * 100 + 100"
proof -
  have all: "list_all2 (deposit_ok p) [1..int (length ds)] ds" and n: "int (length ds) \<le> 40"
    using assms by (auto simp: deposit_block_def deposit_count_ok_def split: planetKind.splits)
  show "map dep_ID ds = map (\<lambda>i. planet_ID p * 100 + i) [1..int (length ds)]"
    by (rule list_all2_dep_ID [OF all])
  assume "d \<in> set ds"
  then obtain i where i: "i < length ds" "ds ! i = d" by (auto simp: in_set_conv_nth)
  then have "deposit_ok p ([1..int (length ds)] ! i) (ds ! i)" by (intro list_all2_nthD2 [OF all])
  with i have "deposit_ok p (1 + int i) d" by simp
  with i n show "dep_PlanetID d = planet_ID p"
    "planet_ID p * 100 < dep_ID d \<and> dep_ID d < planet_ID p * 100 + 100"
    by (auto simp: deposit_ok_def)
qed

lemma blocks_refer: "blocks ps ds \<Longrightarrow> d \<in> set ds \<Longrightarrow> \<exists>p \<in> set ps. dep_PlanetID d = planet_ID p \<and>
    planet_ID p * 100 < dep_ID d \<and> dep_ID d < planet_ID p * 100 + 100"
proof (induction ps arbitrary: ds)
  case (Cons p ps)
  then obtain k where k: "deposit_block p (take k ds)" "blocks ps (drop k ds)" by auto
  have "d \<in> set (take k ds) \<or> d \<in> set (drop k ds)"
    using Cons.prems(2) by (metis Un_iff append_take_drop_id set_append)
  then show ?case
  proof
    assume "d \<in> set (take k ds)"
    from deposit_block_ids(2,3) [OF k(1) this] show ?case by simp
  next
    assume "d \<in> set (drop k ds)"
    from Cons.IH [OF k(2) this] show ?case by auto
  qed
qed simp

lemma blocks_ok:
  assumes "blocks ps ds" and "distinct (map planet_ID ps)"
  shows "distinct (map dep_ID ds) \<and> (\<forall>p \<in> set ps. deposit_block p (filter (\<lambda>d. dep_PlanetID d = planet_ID p) ds))"
  using assms
proof (induction ps arbitrary: ds)
  case (Cons p ps)
  then obtain k where k: "deposit_block p (take k ds)" "blocks ps (drop k ds)" by auto
  define xs where "xs = take k ds"
  define ys where "ys = drop k ds"
  have ds: "ds = xs @ ys" by (simp add: xs_def ys_def)
  have IH: "distinct (map dep_ID ys) \<and> (\<forall>p \<in> set ps. deposit_block p (filter (\<lambda>d. dep_PlanetID d = planet_ID p) ys))"
    using Cons.IH [OF k(2)] Cons.prems by (simp add: ys_def)
  note bx = deposit_block_ids [OF k(1), folded xs_def]
  note ry = blocks_refer [OF k(2), folded ys_def]
  have new: "planet_ID q \<noteq> planet_ID p" if "q \<in> set ps" for q
    using Cons.prems(2) that by (metis distinct.simps(2) imageI list.set_map list.simps(9))
  have "distinct (map dep_ID xs)" unfolding bx(1) by (simp add: distinct_map inj_on_def)
  moreover have "dep_ID d \<noteq> dep_ID e" if "d \<in> set xs" "e \<in> set ys" for d e
    using bx(3) [OF that(1)] ry [OF that(2)] new by force
  moreover have "filter (\<lambda>d. dep_PlanetID d = planet_ID p) ds = xs"
    using bx(2) ry new by (fastforce simp: ds filter_id_conv filter_empty_conv)
  moreover have "filter (\<lambda>d. dep_PlanetID d = planet_ID q) ds = filter (\<lambda>d. dep_PlanetID d = planet_ID q) ys"
    if "q \<in> set ps" for q
    using bx(2) new [OF that] by (auto simp: ds filter_empty_conv)
  ultimately show ?case using IH k(1) [folded xs_def] by (auto simp: ds)
qed simp

definition with_deposits :: "cluster \<Rightarrow> cluster option \<Rightarrow> bool" where
  "with_deposits c r \<longleftrightarrow> (case r of None \<Rightarrow> False | Some c' \<Rightarrow>
     deposits_ok c' \<and> c'\<lparr>cl_Deposits := cl_Deposits c\<rparr> = c)"

lemma always_GenerateDeposits:
  assumes "distinct (map planet_ID (cl_Planets c))" and "cl_Deposits c = []"
  shows "always (GenerateDeposits (Some c)) (with_deposits c)"
  unfolding GenerateDeposits_def option.case
  by (rule always_bindI [OF always_deposits_loop], rule always_rret)
     (use assms blocks_ok [OF _ assms(1)] blocks_refer in
       \<open>fastforce simp: with_deposits_def deposits_ok_def DepositsForPlanet_def\<close>)

section \<open>Properties\<close>

text \<open>C11.  \<open>GenerateDeposits\<close> changes nothing but the deposits of the cluster; every planet gets a number
  of deposits in the range of its kind, each in range for its resource, and deposit identifiers are
  unique although they are computed from the planet's.\<close>

theorem GenerateDeposits_correct:
  assumes "distinct (map planet_ID (cl_Planets c))" and "cl_Deposits c = []"
  shows "always (GenerateDeposits (Some c)) (with_deposits c)"
  by (rule always_GenerateDeposits [OF assms])

definition sample_planet :: "int \<Rightarrow> planetKind \<Rightarrow> planet" where
  "sample_planet i k = \<lparr>planet_ID = i, planet_StarID = 1, planet_Orbit = i, planet_Kind = k,
     planet_Diameter = 12, planet_Density = 5, planet_Gravity = 1, planet_TemperatureClass = 10,
     planet_PressureClass = 0, planet_Special = no_special, planet_Gases = [], planet_MiningDifficulty = 200\<rparr>"

definition sample_cluster :: cluster where
  "sample_cluster = \<lparr>cl_Radius = 0, cl_Systems = [], cl_Stars = [],
     cl_Planets = [sample_planet 1 KindRocky, sample_planet 2 KindGasGiant],
     cl_Deposits = [], cl_HomeStarTemplates = []\<rparr>"

theorem GenerateDeposits_correct_witness:
  "always (GenerateDeposits (Some sample_cluster)) (with_deposits sample_cluster)"
  by (rule GenerateDeposits_correct) (simp_all add: sample_cluster_def sample_planet_def)

end
