(* ===== verification/Worldgen.thy ===== *)
theory Worldgen
  imports Templates Deposits
begin

text \<open>
  The end-to-end run of internal/worldgen: \<open>Generate\<close> and its options (generator.go).  The
  master PRNG is split once per stage.  An \<open>Option\<close> is a function that changes the generator
  or fails; the error it may fail with is arbitrary.
\<close>

section \<open>Options\<close>

record generator =
  gen_desiredNumSystems :: int
  gen_desiredRadius :: int
  gen_minimumDistance :: int
  gen_merge :: bool
  gen_r :: prng
  gen_viabilityWindow :: viabilityWindow
  gen_maxCandidateRolls :: int

type_synonym 'e gen_option = "generator \<Rightarrow> 'e + generator"

definition WithDesiredNumberOfSystems :: "int \<Rightarrow> 'e gen_option" where
  "WithDesiredNumberOfSystems n g = Inr (g\<lparr>gen_desiredNumSystems := n\<rparr>)"

definition WithDesiredRadius :: "int \<Rightarrow> 'e gen_option" where
  "WithDesiredRadius r g = Inr (g\<lparr>gen_desiredRadius := r\<rparr>)"

definition WithMinimumDistance :: "int \<Rightarrow> 'e gen_option" where
  "WithMinimumDistance d g = Inr (g\<lparr>gen_minimumDistance := d\<rparr>)"

definition WithMerge :: "bool \<Rightarrow> 'e gen_option" where
  "WithMerge m g = Inr (g\<lparr>gen_merge := m\<rparr>)"

definition WithPRNG :: "prng \<Rightarrow> 'e gen_option" where
  "WithPRNG r g = Inr (g\<lparr>gen_r := r\<rparr>)"

definition WithViabilityWindow :: "viabilityWindow \<Rightarrow> 'e gen_option" where
  "WithViabilityWindow w g = Inr (g\<lparr>gen_viabilityWindow := w\<rparr>)"

definition WithMaxCandidateRolls :: "int \<Rightarrow> 'e gen_option" where
  "WithMaxCandidateRolls n g = Inr (g\<lparr>gen_maxCandidateRolls := n\<rparr>)"

definition default_generator :: generator where
  "default_generator = \<lparr>gen_desiredNumSystems = 100, gen_desiredRadius = 15, gen_minimumDistance = 2,
     gen_merge = True, gen_r = NewFromSeed 10 10, gen_viabilityWindow = DefaultViabilityWindow,
     gen_maxCandidateRolls = DefaultMaxCandidateRolls\<rparr>"

fun apply_options :: "'e gen_option list \<Rightarrow> generator \<Rightarrow> 'e + generator" where
  "apply_options [] g = Inr g"
| "apply_options (opt # opts) g = (case opt g of Inl e \<Rightarrow> Inl e | Inr g \<Rightarrow> apply_options opts g)"

section \<open>Generate\<close>

definition cluster_options :: "generator \<Rightarrow> clusterOptions" where
  "cluster_options g = \<lparr>co_Radius = gen_desiredRadius g, co_NumSystems = gen_desiredNumSystems g,
     co_MinimumDistance = gen_minimumDistance g, co_Merge = gen_merge g\<rparr>"

definition run_stages :: "generator \<Rightarrow> (cluster option \<times> placeError option) go" where
  "run_stages g =
     (let (rngTemplates, r) = Split (gen_r g); (rngCluster, r) = Split r; (rngDeposits, r) = Split r in
      go_bind (GenerateCluster (cluster_options g) rngCluster) (\<lambda>((c, err), _).
      go_bind (GenerateHomeStarTemplates (gen_viabilityWindow g) (gen_maxCandidateRolls g) rngTemplates) (\<lambda>(ts, _).
      go_bind (GenerateDeposits (Some (c\<lparr>cl_HomeStarTemplates := ts\<rparr>)) rngDeposits) (\<lambda>(c, _).
      ret (c, err)))))"

definition Generate :: "'e gen_option list \<Rightarrow> (cluster option \<times> ('e + placeError) option) go" where
  "Generate opts =
     (case apply_options opts default_generator of
        Inl e \<Rightarrow> ret (None, Some (Inl e))
      | Inr g \<Rightarrow> go_bind (run_stages g) (\<lambda>(c, err). ret (c, map_option Inr err)))"

section \<open>The result of a run\<close>

text \<open>What the three stages promise together, in terms of the generator's settings.\<close>

definition budget_of :: "generator \<Rightarrow> int" where
  "budget_of g = (if gen_maxCandidateRolls g \<le> 0 then DefaultMaxCandidateRolls else gen_maxCandidateRolls g)"

definition run_ok :: "generator \<Rightarrow> cluster option \<times> placeError option \<Rightarrow> bool" where
  "run_ok g x = (case x of (cl, err) \<Rightarrow> (case cl of None \<Rightarrow> False | Some c \<Rightarrow>
     cluster_result (cluster_options g) (c\<lparr>cl_HomeStarTemplates := [], cl_Deposits := []\<rparr>, err) \<and>
     outcomes_ok (gen_viabilityWindow g) (budget_of g) (cl_HomeStarTemplates c) \<and> deposits_ok c))"

text \<open>Each stage of the result is what the stage computes alone, from its own substream.\<close>

definition stages_independent :: "generator \<Rightarrow> cluster option \<times> placeError option \<Rightarrow> bool" where
  "stages_independent g x = (case x of (cl, err) \<Rightarrow> (case cl of None \<Rightarrow> False | Some c \<Rightarrow>
     (let s1 = Split (gen_r g); s2 = Split (snd s1); s3 = Split (snd s2) in
      (\<exists>r. GenerateHomeStarTemplates (gen_viabilityWindow g) (gen_maxCandidateRolls g) (fst s1) =
             ret (cl_HomeStarTemplates c, r)) \<and>
      (\<exists>r. GenerateCluster (cluster_options g) (fst s2) =
             ret ((c\<lparr>cl_HomeStarTemplates := [], cl_Deposits := []\<rparr>, err), r)) \<and>
      (\<exists>r. deposits_loop (cl_Planets c) [] (fst s3) = ret (cl_Deposits c, r)))))"

lemma GenerateCluster_fresh:
  "GenerateCluster opts r = ret ((c, err), r') \<Longrightarrow> cl_HomeStarTemplates c = [] \<and> cl_Deposits c = []"
  by (auto simp: GenerateCluster_def go_bind_eq_ret split: prod.splits)

lemma cluster_result_ids: "cluster_result opts (c, err) \<Longrightarrow> distinct (map planet_ID (cl_Planets c))"
  by (auto simp: cluster_result_def cluster_ok_def Let_def)

lemma yields_run_stages:
  assumes "gen_desiredRadius g \<le> 2 ^ 29"
  shows "yields (run_stages g) (\<lambda>x. run_ok g x \<and> stages_independent g x)"
proof -
  obtain rt r1 where s1: "Split (gen_r g) = (rt, r1)" by force
  obtain rc r2 where s2: "Split r1 = (rc, r2)" by force
  obtain rd r3 where s3: "Split r2 = (rd, r3)" by force
  have cl: "always (GenerateCluster (cluster_options g)) (cluster_result (cluster_options g))"
    using assms by (intro always_GenerateCluster) (simp add: cluster_options_def)
  have ht: "always (GenerateHomeStarTemplates (gen_viabilityWindow g) (gen_maxCandidateRolls g))
      (outcomes_ok (gen_viabilityWindow g) (budget_of g))"
    unfolding budget_of_def by (rule always_GenerateHomeStarTemplates)
  show ?thesis unfolding run_stages_def s1 s2 s3 Let_def prod.case
  proof (rule yields_bind, rule yieldsI, goal_cases)
    case (1 p)
    then show ?case using yields_no_panic [OF alwaysD [OF cl]] by blast
  next
    case (2 a)
    obtain c err q where a: "a = ((c, err), q)" by (metis prod.collapse)
    have res: "cluster_result (cluster_options g) (c, err)"
      using yields_retD [OF alwaysD [OF cl] 2] a by simp
    note fresh = GenerateCluster_fresh [OF 2 [unfolded a]]
    show ?case unfolding a prod.case
    proof (rule yields_bind, rule yieldsI, goal_cases)
      case (1 p)
      then show ?case using yields_no_panic [OF alwaysD [OF ht]] by blast
    next
      case (2 b)
      obtain ts q2 where b: "b = (ts, q2)" by (metis prod.collapse)
      have ok: "outcomes_ok (gen_viabilityWindow g) (budget_of g) ts"
        using yields_retD [OF alwaysD [OF ht] 2] b by simp
      let ?c = "c\<lparr>cl_HomeStarTemplates := ts\<rparr>"
      have dep: "always (GenerateDeposits (Some ?c)) (with_deposits ?c)"
        using cluster_result_ids [OF res] fresh by (intro always_GenerateDeposits) simp_all
      show ?case unfolding b prod.case
      proof (rule yields_bind, rule yieldsI, goal_cases)
        case (1 p)
        then show ?case using yields_no_panic [OF alwaysD [OF dep]] by blast
      next
        case (2 d)
        obtain c' q3 where d: "d = (c', q3)" by (metis prod.collapse)
        have "with_deposits ?c c'" using yields_retD [OF alwaysD [OF dep] 2] d by simp
        then obtain c2 where c2: "c' = Some c2" "deposits_ok c2" "c2\<lparr>cl_Deposits := cl_Deposits ?c\<rparr> = ?c"
          by (auto simp: with_deposits_def split: option.splits)
        have eq: "c2\<lparr>cl_HomeStarTemplates := [], cl_Deposits := []\<rparr> = c" "cl_HomeStarTemplates c2 = ts" "cl_Planets c2 = cl_Planets c"
          using c2(3) fresh by (cases c2; cases c; simp)+
        have loop: "\<exists>r. deposits_loop (cl_Planets c2) [] rd = ret (cl_Deposits c2, r)"
          using 2 [unfolded d c2(1)] fresh c2(3) eq(3)
          by (auto simp: GenerateDeposits_def rbind_def rret_def go_bind_eq_ret)
        have "run_ok g (Some c2, err)" using res ok c2 eq by (simp add: run_ok_def)
        moreover have "stages_independent g (Some c2, err)"
          using \<open>GenerateCluster (cluster_options g) rc = ret a\<close>
            \<open>GenerateHomeStarTemplates (gen_viabilityWindow g) (gen_maxCandidateRolls g) rt = ret b\<close>
            loop a b eq s1 s2 s3 by (simp add: stages_independent_def)
        ultimately show ?case by (simp add: d c2(1))
      qed
    qed
  qed
qed

section \<open>Properties\<close>

text \<open>C17.  \<open>Generate\<close> with options that apply never panics; the cluster it returns satisfies the
  contracts of all three stages, and each stage's part is what the stage computes from its own
  substream, whatever the others draw.\<close>

theorem Generate_correct:
  assumes "apply_options opts default_generator = Inr g" and "gen_desiredRadius g \<le> 2 ^ 29"
  shows "yields (Generate opts) (\<lambda>(c, err). \<exists>e. err = map_option Inr e \<and> run_ok g (c, e) \<and> stages_independent g (c, e))"
  unfolding Generate_def assms(1) sum.case
  by (rule yields_bind, rule yields_conseq [OF yields_run_stages [OF assms(2)]]) auto

theorem Generate_correct_witness:
  "yields (Generate [WithDesiredRadius 3 :: 'e gen_option, WithMerge False])
     (\<lambda>(c, err). \<exists>e. err = map_option Inr e \<and>
        run_ok (default_generator\<lparr>gen_desiredRadius := 3, gen_merge := False\<rparr>) (c, e) \<and>
        stages_independent (default_generator\<lparr>gen_desiredRadius := 3, gen_merge := False\<rparr>) (c, e))"
  by (rule Generate_correct) (simp_all add: WithDesiredRadius_def WithMerge_def default_generator_def)

end
