(* ===== verification/Sources.thy ===== *)
theory Sources
  imports Rolls
begin

text \<open>
  When a roller returns.  The retry loops of the generators and the rejection loops of the
  bounded draws run on as long as the source keeps delivering unsuitable numbers, so no bound on
  their iterations holds for every source.  \<open>halts w m\<close> says that \<open>m\<close> returns on every source that
  delivers the word \<open>w\<close> from some point on: whatever was drawn before, and whatever state a loop
  has been driven into, a run of \<open>w\<close> ends it.  \<open>advances w m\<close> says that \<open>m\<close> draws at least once.
  The locale holds what a word must satisfy; it is interpreted on \<open>lucky\<close>, which every die of the
  program accepts and which satisfies the retry loops, and on \<open>ones\<close>, which every draw accepts.
\<close>

section \<open>Sources that become constant\<close>

definition accepts :: "u64 \<Rightarrow> nat \<Rightarrow> bool" where
  "accepts w n \<longleftrightarrow> 2 ^ 64 mod n \<le> (unat w * n) mod 2 ^ 64"

definition still :: "u64 \<Rightarrow> prng" where
  "still w = sconst w"

lemma still_simps [simp]: "shd (still w) = w" "stl (still w) = still w"
  by (simp_all add: still_def)

definition halts :: "u64 \<Rightarrow> 'a roller \<Rightarrow> bool" where
  "halts w m \<longleftrightarrow> (\<forall>n r. sdrop n r = still w \<longrightarrow> (\<exists>a r'. m r = ret (a, r') \<and> sdrop n r' = still w))"

definition advances :: "u64 \<Rightarrow> 'a roller \<Rightarrow> bool" where
  "advances w m \<longleftrightarrow> (\<forall>n r. sdrop n r = still w \<longrightarrow> (\<exists>a r'. m r = ret (a, r') \<and> sdrop (n - 1) r' = still w))"

lemma sdrop_later: "sdrop n r = still w \<Longrightarrow> n \<le> k \<Longrightarrow> sdrop k r = still w"
proof -
  assume a: "sdrop n r = still w" "n \<le> k"
  have c: "sdrop j (still w) = still w" for j by (induction j) simp_all
  from a(2) obtain j where "k = n + j" using le_Suc_ex by blast
  with a c show ?thesis by (metis sdrop_add)
qed

lemma sdrop_stl: "sdrop n r = still w \<Longrightarrow> sdrop (n - 1) (stl r) = still w"
  by (cases n) simp_all

lemma unat_neg:
  fixes n :: "'a::len word"
  assumes "n \<noteq> 0"
  shows "unat (- n) = 2 ^ LENGTH('a) - unat n"
proof -
  have "(n + - n) = 0" by simp
  then have "(unat n + unat (- n)) mod 2 ^ LENGTH('a) = 0" by (metis unat_word_ariths(1) unsigned_0)
  moreover have "0 < unat n" "0 < unat (- n)" using assms by (simp_all add: unat_gt_0)
  moreover have "unat n + unat (- n) < 2 * 2 ^ LENGTH('a)"
    using add_strict_mono [OF unat_bound [of n] unat_bound [of "- n"]] by (simp only: mult_2)
  moreover obtain q where q: "unat n + unat (- n) = 2 ^ LENGTH('a) * q"
    using calculation(1) by (auto elim: dvdE)
  ultimately have "q < 2" by (auto simp: mult.commute)
  moreover have "q \<noteq> 0" using q \<open>0 < unat n\<close> by (intro notI) simp
  ultimately have "q = 1" by simp
  with q show ?thesis by simp
qed

lemma unat_neg_mod:
  fixes n :: "'a::len word"
  shows "n \<noteq> 0 \<Longrightarrow> unat ((- n) mod n) = 2 ^ LENGTH('a) mod unat n"
  using unat_bound [of n] by (simp add: unat_mod unat_neg le_mod_geq less_imp_le)

lemma unat_low64: "unat (snd (mul64 x y)) = (unat x * unat y) mod 2 ^ 64"
proof -
  have "unat x * unat y < 2 ^ 64 * 2 ^ 64" using unat_bound [of x] unat_bound [of y]
    by (intro mult_strict_mono) simp_all
  then have "unat (ucast x * ucast y :: 128 word) = unat x * unat y" by (simp add: unat_word_ariths)
  then show ?thesis by (simp add: mul64_def Let_def unsigned_ucast_eq take_bit_eq_mod)
qed

lemma reject64_halts:
  assumes "n \<noteq> 0" and "accepts w (unat n)" and "sdrop k r = still w"
  shows "\<exists>p r'. reject64 n ((- n) mod n) prd r = ret (p, r') \<and> sdrop k r' = still w"
  using assms(3)
proof (induction k arbitrary: prd r)
  case 0
  have "\<not> snd (mul64 w n) < (- n) mod n"
    using assms(1,2) by (simp add: word_less_nat_alt unat_neg_mod accepts_def not_less unat_low64)
  then have "reject64 n ((- n) mod n) (mul64 w n) r = ret (mul64 w n, r)"
    by (subst reject64.simps) simp
  then show ?case using 0
    by (subst reject64.simps) (auto simp: rand_Uint64_def)
next
  case (Suc k)
  from Suc.IH [of "stl r"] Suc.prems sdrop_later [of k _ w "Suc k"] show ?case
    by (subst reject64.simps) (fastforce simp: rand_Uint64_def)
qed

lemma advances_map: "advances w m \<Longrightarrow> advances w (\<lambda>r. go_bind (m r) (\<lambda>(a, r). ret (f a, r)))"
  unfolding advances_def by fastforce

lemma advances_uint64n:
  assumes "n \<noteq> 0" and "accepts w (unat n)"
  shows "advances w (uint64n n)"
  unfolding advances_def
proof (intro allI impI)
  fix k r assume a: "sdrop k r = still w"
  note s = sdrop_stl [OF a]
  show "\<exists>a r'. uint64n n r = ret (a, r') \<and> sdrop (k - 1) r' = still w"
    using s reject64_halts [OF assms s, of "mul64 (shd r) n"]
    by (auto simp: uint64n_def rand_Uint64_def Let_def)
qed

lemma advances_IntN:
  assumes "0 < n" and "n < 2 ^ 63" and "accepts w (nat n)"
  shows "advances w (IntN n)"
proof -
  have u: "unat (word_of_int n :: u64) = nat n" using assms(1,2) by (simp add: unat_eq_nat_uint uint_word_of_int)
  then have "(word_of_int n :: u64) \<noteq> 0" using assms(1) by force
  then have "advances w (uint64n (word_of_int n))" using assms(3) u by (intro advances_uint64n) simp_all
  moreover have "IntN n = (\<lambda>r. go_bind (uint64n (word_of_int n) r) (\<lambda>(v, r). ret (uint v, r)))"
    using assms(1) by (simp add: IntN_def fun_eq_iff)
  ultimately show ?thesis by (simp add: advances_map)
qed

lemma advances_Roll:
  assumes "lo \<le> hi" and "- (2 ^ 62) < lo" and "hi < 2 ^ 62" and "accepts w (nat (hi - lo + 1))"
  shows "advances w (Roll lo hi)"
proof -
  have "wrap64 (hi - lo + 1) = hi - lo + 1" using assms by (intro wrap64_id) simp_all
  then have "Roll lo hi = (\<lambda>r. go_bind (IntN (hi - lo + 1) r) (\<lambda>(v, r). ret (wrap64 (lo + v), r)))"
    using assms(1) by (simp add: Roll_def fun_eq_iff)
  moreover have "advances w (IntN (hi - lo + 1))" using assms by (intro advances_IntN) simp_all
  ultimately show ?thesis by (simp add: advances_map)
qed

section \<open>Composition\<close>

named_theorems halts_intros "rules that show a roller returns"

lemma advances_halts [halts_intros]: "advances w m \<Longrightarrow> halts w m"
  unfolding advances_def halts_def by (meson diff_le_self sdrop_later)

lemma halts_rret [halts_intros]: "halts w (rret a)"
  by (simp add: halts_def rret_def)

lemma halts_rbind:
  assumes "halts w m" and "always m P" and "\<And>a. P a \<Longrightarrow> halts w (f a)"
  shows "halts w (rbind m f)"
  unfolding halts_def
proof (intro allI impI)
  fix n r assume "sdrop n r = still w"
  with assms(1) obtain a r' where m: "m r = ret (a, r')" "sdrop n r' = still w" unfolding halts_def by blast
  moreover have "P a" using alwaysD [OF assms(2), of r] m by simp
  ultimately show "\<exists>a r'. rbind m f r = ret (a, r') \<and> sdrop n r' = still w"
    using assms(3) unfolding halts_def by (simp add: rbind_def)
qed

lemma advances_rbind:
  assumes "advances w m" and "always m P" and "\<And>a. P a \<Longrightarrow> halts w (f a)"
  shows "advances w (rbind m f)"
  unfolding advances_def
proof (intro allI impI)
  fix n r assume "sdrop n r = still w"
  with assms(1) obtain a r' where m: "m r = ret (a, r')" "sdrop (n - 1) r' = still w" unfolding advances_def by blast
  moreover have "P a" using alwaysD [OF assms(2), of r] m by simp
  ultimately show "\<exists>a r'. rbind m f r = ret (a, r') \<and> sdrop (n - 1) r' = still w"
    using assms(3) unfolding halts_def by (simp add: rbind_def)
qed

lemma halts_seq: "halts w m \<Longrightarrow> (\<And>a. halts w (f a)) \<Longrightarrow> halts w (rbind m f)"
  unfolding halts_def rbind_def by fastforce

lemma advances_seq: "advances w m \<Longrightarrow> (\<And>a. halts w (f a)) \<Longrightarrow> advances w (rbind m f)"
  unfolding advances_def halts_def rbind_def by fastforce

lemma halts_if [halts_intros]: "(c \<Longrightarrow> halts w a) \<Longrightarrow> (\<not> c \<Longrightarrow> halts w b) \<Longrightarrow> halts w (if c then a else b)"
  by simp

lemma halts_rlift: "m = ret a \<Longrightarrow> halts w (rlift m)"
  by (simp add: halts_def rlift_def)

lemma yields_returns: "yields m P \<Longrightarrow> returns m \<Longrightarrow> \<exists>a. m = ret a \<and> P a"
  by (cases "the m") (auto simp: yields_def returns_def split: sum.splits)

lemma halts_rlift_yields: "yields m P \<Longrightarrow> returns m \<Longrightarrow> halts w (rlift m)"
  using yields_returns [of m P] by (auto intro: halts_rlift)

lemma returns_simps [simp]: "returns (ret a)" "returns (panics p)" "returns (go_index xs i)" "returns (go_div b c)"
  by (simp_all add: returns_def go_index_def go_div_def)

lemma returns_go_bind: "returns m \<Longrightarrow> (\<And>a. returns (f a)) \<Longrightarrow> returns (go_bind m f)"
  unfolding returns_def by (cases m) (auto simp: go_bind_def split: sum.splits)

text \<open>On the constant source itself a computation has one result.\<close>

definition settles :: "u64 \<Rightarrow> 'a roller \<Rightarrow> ('a \<Rightarrow> bool) \<Rightarrow> bool" where
  "settles w m P \<longleftrightarrow> (\<exists>a. m (still w) = ret (a, still w) \<and> P a)"

lemma settles_rret: "P a \<Longrightarrow> settles w (rret a) P"
  by (simp add: settles_def rret_def)

lemma settles_rbind: "settles w m P \<Longrightarrow> (\<And>a. P a \<Longrightarrow> settles w (f a) P') \<Longrightarrow> settles w (rbind m f) P'"
  by (auto simp: settles_def rbind_def)

lemma halts_settles: "halts w m \<Longrightarrow> always m P \<Longrightarrow> settles w m P"
proof -
  assume h: "halts w m" and a: "always m P"
  from h [unfolded halts_def, rule_format, of 0 "still w"] obtain x where m: "m (still w) = ret (x, still w)" by auto
  from alwaysD [OF a, of "still w"] m show ?thesis by (simp add: settles_def)
qed

section \<open>Loops\<close>

lemma halts_bump_up:
  assumes roll: "halts w roll" and pos: "always roll (\<lambda>d. 1 \<le> d \<and> d \<le> k)"
  shows "halts w (bump_up roll lo x)"
  unfolding halts_def
proof (intro allI impI)
  fix n r assume "sdrop n r = still w"
  then show "\<exists>a r'. bump_up roll lo x r = ret (a, r') \<and> sdrop n r' = still w"
  proof (induction "nat (lo - x)" arbitrary: x r rule: less_induct)
    case less
    show ?case
    proof (cases "x < lo")
      case True
      from less.prems roll obtain d r' where d: "roll r = ret (d, r')" "sdrop n r' = still w"
        unfolding halts_def by blast
      with alwaysD [OF pos, of r] have "1 \<le> d" by simp
      with less.hyps [of "x + d" r'] d True show ?thesis by (subst bump_up.simps) auto
    next
      case False
      with less.prems show ?thesis by (subst bump_up.simps) simp
    qed
  qed
qed

lemma halts_bump_down:
  assumes roll: "halts w roll" and pos: "always roll (\<lambda>d. 1 \<le> d \<and> d \<le> k)"
  shows "halts w (bump_down roll hi x)"
  unfolding halts_def
proof (intro allI impI)
  fix n r assume "sdrop n r = still w"
  then show "\<exists>a r'. bump_down roll hi x r = ret (a, r') \<and> sdrop n r' = still w"
  proof (induction "nat (x - hi)" arbitrary: x r rule: less_induct)
    case less
    show ?case
    proof (cases "x > hi")
      case True
      from less.prems roll obtain d r' where d: "roll r = ret (d, r')" "sdrop n r' = still w"
        unfolding halts_def by blast
      with alwaysD [OF pos, of r] have "1 \<le> d" by simp
      with less.hyps [of "x - d" r'] d True show ?thesis by (subst bump_down.simps) auto
    next
      case False
      with less.prems show ?thesis by (subst bump_down.simps) simp
    qed
  qed
qed

lemma halts_jitter:
  "halts w coin \<Longrightarrow> halts w (Roll 1 die) \<Longrightarrow> halts w (jitter coin die n x)"
  by (induction n arbitrary: x) (auto intro!: halts_rret halts_seq)

lemma halts_repeat_rolls: "halts w m \<Longrightarrow> halts w (repeat_rolls m n acc)"
  by (induction n arbitrary: acc) (auto intro!: halts_rret halts_seq)

text \<open>
  A retry loop on a value: every attempt draws, and on the constant source an attempt succeeds.
\<close>

lemma retry_halts:
  assumes step: "\<And>r. loop r = go_bind (attempt_roll r) (\<lambda>x. if good (fst x) then ret x else loop (snd x))"
    and adv: "advances w attempt_roll" and hit: "settles w attempt_roll good"
  shows "halts w loop"
  unfolding halts_def
proof (intro allI impI)
  fix n r assume "sdrop n r = still w"
  then show "\<exists>a r'. loop r = ret (a, r') \<and> sdrop n r' = still w"
  proof (induction n arbitrary: r)
    case 0
    with hit show ?case by (subst step) (auto simp: settles_def)
  next
    case (Suc n)
    from Suc.prems adv obtain a r' where a: "attempt_roll r = ret (a, r')" "sdrop n r' = still w"
      unfolding advances_def by (metis diff_Suc_1)
    note later = sdrop_later [where k = "Suc n" and n = n and w = w]
    show ?case
    proof (cases "good a")
      case True
      then show ?thesis using a later by (subst step) (auto simp del: sdrop.simps)
    next
      case False
      with Suc.IH [OF a(2)] a later show ?thesis by (subst step) (auto simp del: sdrop.simps)
    qed
  qed
qed

section \<open>Two words that every draw accepts\<close>

locale steady_source =
  fixes w :: u64 and k :: nat
  assumes accepted: "0 < n \<Longrightarrow> n \<le> k \<Longrightarrow> accepts w n"
begin

lemma adv_Roll: "lo \<le> hi \<Longrightarrow> - (2 ^ 62) < lo \<Longrightarrow> hi < 2 ^ 62 \<Longrightarrow> nat (hi - lo + 1) \<le> k \<Longrightarrow> advances w (Roll lo hi)"
  by (intro advances_Roll accepted) auto

lemma halts_Roll: "lo \<le> hi \<Longrightarrow> - (2 ^ 62) < lo \<Longrightarrow> hi < 2 ^ 62 \<Longrightarrow> nat (hi - lo + 1) \<le> k \<Longrightarrow> halts w (Roll lo hi)"
  by (rule advances_halts) (rule adv_Roll)

lemma halts_dice_loop: "1 \<le> sides \<Longrightarrow> sides < 2 ^ 62 \<Longrightarrow> nat sides \<le> k \<Longrightarrow> halts w (dice_loop sides n acc)"
proof (induction "nat n" arbitrary: n acc)
  case 0
  have "dice_loop sides n acc = rret acc" using 0 by (auto simp: dice_loop.simps rret_def)
  then show ?case by (simp add: halts_rret)
next
  case (Suc m)
  have "0 < n" using Suc(2) by simp
  then have "dice_loop sides n acc = rbind (Roll 1 sides) (\<lambda>v. dice_loop sides (n - 1) (acc + v))"
    by (simp add: fun_eq_iff rbind_def dice_loop.simps [of sides n])
  then show ?case using Suc by (auto intro!: halts_seq halts_Roll)
qed

lemma halts_dice:
  "4 \<le> k \<Longrightarrow> halts w (D4 n)" "6 \<le> k \<Longrightarrow> halts w (D6 n)" "8 \<le> k \<Longrightarrow> halts w (D8 n)" "10 \<le> k \<Longrightarrow> halts w (D10 n)"
  "12 \<le> k \<Longrightarrow> halts w (D12 n)" "100 \<le> k \<Longrightarrow> halts w (D100 n)"
  using halts_dice_loop [of _ n 0] by (simp_all add: D4_def [abs_def] D6_def [abs_def] D8_def [abs_def] D10_def [abs_def] D12_def [abs_def] D100_def [abs_def])

lemma halts_shuffle_from: "Suc i \<le> k \<Longrightarrow> i < 2 ^ 62 \<Longrightarrow> halts w (shuffle_from i xs)"
proof (induction i arbitrary: xs)
  case 0
  then show ?case by (simp add: halts_def)
next
  case (Suc i)
  have u: "unat (word_of_nat (Suc (Suc i)) :: u64) = Suc (Suc i)"
    using Suc.prems by (simp only: unat_of_nat) simp
  then have nz: "(word_of_nat (Suc (Suc i)) :: u64) \<noteq> 0" by (metis nat.simps(3) unsigned_0)
  have "advances w (uint64n (word_of_nat (Suc (Suc i))))"
    using Suc.prems accepted u nz by (intro advances_uint64n) simp_all
  moreover have "shuffle_from (Suc i) xs =
      rbind (uint64n (word_of_nat (Suc (Suc i)))) (\<lambda>j. shuffle_from i (swap_at (Suc i) (unat j) xs))"
    by (simp add: fun_eq_iff rbind_def)
  ultimately show ?case using Suc by (simp add: halts_seq advances_halts)
qed

lemma halts_Shuffle: "length xs \<le> k \<Longrightarrow> 1 \<le> k \<Longrightarrow> length xs < 2 ^ 62 \<Longrightarrow> halts w (Shuffle xs)"
  using halts_shuffle_from [of "length xs - 1" xs] by (simp add: Shuffle_def [abs_def])

end

definition lucky :: u64 where "lucky = 0xa7c1bda5ffffffff"
definition ones :: u64 where "ones = - 1"

lemma lucky_table: "list_all (\<lambda>n. 18446744073709551616 mod n \<le> (12088151395501342719 * n) mod (18446744073709551616 :: int)) [1..300]"
  by code_simp

lemma lucky_accepts: "0 < n \<Longrightarrow> n \<le> 300 \<Longrightarrow> accepts lucky n"
proof -
  assume n: "0 < n" "n \<le> 300"
  then have "int n \<in> set [1..300]" by (simp only: set_upto atLeastAtMost_iff) simp
  with lucky_table have "18446744073709551616 mod int n \<le> (12088151395501342719 * int n) mod 18446744073709551616"
    by (simp only: list_all_iff)
  then have "int (2 ^ 64 mod n) \<le> int ((12088151395501342719 * n) mod 2 ^ 64)" by (simp add: zmod_int)
  then have "2 ^ 64 mod n \<le> (12088151395501342719 * n) mod 2 ^ 64" by (simp only: of_nat_le_iff)
  moreover have "unat lucky = 12088151395501342719" by (simp add: lucky_def)
  ultimately show ?thesis by (simp only: accepts_def)
qed

lemma ones_accepts: "0 < n \<Longrightarrow> n \<le> 2 ^ 61 \<Longrightarrow> accepts ones n"
proof -
  assume n: "0 < n" "n \<le> 2 ^ 61"
  have m: "2 ^ e mod n \<le> ((2 ^ e - 1) * n) mod 2 ^ e" if "n < 2 ^ e" for e :: nat
  proof -
    have "(2 ^ e - 1) * n = (n - 1) * 2 ^ e + (2 ^ e - n)"
      using that n by (cases n) (auto simp: algebra_simps diff_mult_distrib)
    then have "((2 ^ e - 1) * n) mod 2 ^ e = 2 ^ e - n" using n by simp
    moreover have "2 ^ e mod n \<le> 2 ^ e - n" using that n
      by (metis le_mod_geq less_imp_le mod_less_eq_dividend)
    ultimately show ?thesis by simp
  qed
  have "unat ones = 2 ^ 64 - 1" using unat_neg [of "1 :: u64"] by (simp add: ones_def)
  moreover have "n < 2 ^ 64" using n by simp
  ultimately show ?thesis using m [of 64] by (simp only: accepts_def)
qed

interpretation lucky: steady_source lucky 300
  by unfold_locales (rule lucky_accepts)

interpretation ones: steady_source ones "2 ^ 61"
  by unfold_locales (rule ones_accepts)

end
