(* ===== verification/Liveness.thy ===== *)
theory Liveness
  imports Sources Templates Deposits
begin

text \<open>
  The generators return: on every source that after any finite prefix delivers the word \<open>lucky\<close>
  for ever, \<open>rollStar\<close>, the template driver, the deposits and the stamping of a cluster return, and
  with the word \<open>ones\<close> so does the placement.  The retry loops (atmosphere, mining difficulty) end
  because one attempt on the constant source succeeds; the clamping loops because every die is
  positive.
\<close>

section \<open>The faces \<open>lucky\<close> shows\<close>

lemma lucky_faces:
  "settles lucky (Roll 1 3) (\<lambda>v. v = 2)" "settles lucky (Roll 1 4) (\<lambda>v. v = 4)"
  "settles lucky (Roll 1 20) (\<lambda>v. v = 14)" "settles lucky (Roll 1 30) (\<lambda>v. v = 20)"
  by (simp_all add: settles_def Roll_def wrap64_def IntN_def uint64n_def mul64_def rand_Uint64_def lucky_def Let_def)

lemma halts_D4: "halts lucky (D4 n)" and halts_D100: "halts lucky (D100 n)" and halts_D10: "halts lucky (D10 n)"
  by (rule lucky.halts_dice, simp)+

lemma always_D4: "always (D4 1) (\<lambda>d. 1 \<le> d \<and> d \<le> 4)"
  by (rule always_dice) auto

lemma always_die: "1 \<le> k \<Longrightarrow> k < 2 ^ 62 \<Longrightarrow> always (Roll 1 k) (\<lambda>d. 1 \<le> d \<and> d \<le> k)"
  by (auto intro: always_Roll)

lemma halts_die: "1 \<le> k \<Longrightarrow> k \<le> 300 \<Longrightarrow> halts lucky (Roll 1 k)"
  by (intro lucky.halts_Roll) auto

lemma advances_die: "1 \<le> k \<Longrightarrow> k \<le> 300 \<Longrightarrow> advances lucky (Roll 1 k)"
  by (intro lucky.adv_Roll) auto

lemma halts_die_up: "1 \<le> k \<Longrightarrow> k \<le> 300 \<Longrightarrow> halts lucky (bump_up (Roll 1 k) lo x)"
  by (rule halts_bump_up [OF halts_die always_die]) auto

lemma halts_die_down: "1 \<le> k \<Longrightarrow> k \<le> 300 \<Longrightarrow> halts lucky (bump_down (Roll 1 k) hi x)"
  by (rule halts_bump_down [OF halts_die always_die]) auto

lemmas die_rules = halts_seq halts_rret halts_if halts_die halts_die_up halts_die_down
  halts_jitter halts_repeat_rolls halts_D100 halts_D4 halts_D10

section \<open>Stars and planets\<close>

lemma halts_roll_diameter:
  assumes "0 \<le> seed" and "seed \<le> 143"
  shows "halts lucky (roll_diameter seed)"
proof -
  have "quot_int seed 4 = seed div 4" using assms by (intro quot_int_nonneg) simp_all
  then have "1 \<le> die_size seed" "die_size seed \<le> 300"
    using assms die_size_bounds [of seed] by (simp_all, linarith)
  then show ?thesis unfolding roll_diameter_def
    by (intro die_rules halts_bump_up [OF _ always_D4])
qed

lemma die_size_le: "0 \<le> x \<Longrightarrow> x \<le> 1000 \<Longrightarrow> die_size x \<le> 300"
  by (simp add: die_size_def Let_def quot_int_nonneg) linarith

lemma halts_roll_class: "die_size x \<le> 300 \<Longrightarrow> halts lucky (roll_class x)"
  unfolding roll_class_def using die_size_bounds [of x] by (intro die_rules) auto

lemma halts_roll_density: "halts lucky (roll_density gg)"
  unfolding roll_density_def by (intro die_rules) auto

lemma halts_roll_temperature: "die_size seed \<le> 300 \<Longrightarrow> halts lucky (roll_temperature seed gg np orbit prev)"
  unfolding roll_temperature_def by (auto intro!: die_rules halts_roll_class simp: Let_def)

lemma halts_roll_pressure:
  assumes "0 \<le> g" and "g \<le> 24"
  shows "halts lucky (roll_pressure g gg)"
proof -
  have "0 \<le> float_mul g 10 \<and> float_mul g 10 \<le> 240"
    using f64.between_ints [of 0 "g * 10" 240] assms by (simp add: float_mul_def)
  then have f: "0 \<le> float_floor (float_mul g 10)" "float_floor (float_mul g 10) \<le> 240"
    by (simp_all add: float_floor_def floor_le_iff)
  then have "die_size (float_floor (float_mul g 10)) \<le> 300" by (intro die_size_le) auto
  then show ?thesis unfolding roll_pressure_def by (auto intro!: die_rules halts_roll_class simp: Let_def)
qed

section \<open>The atmosphere\<close>

lemma halts_gas_scan: "halts lucky (gas_scan wanted tc is gases firstGas)"
  by (induction wanted tc "is" gases firstGas rule: gas_scan.induct)
    (auto intro!: die_rules simp: Let_def)

lemma gas_scan_grows:
  "always (gas_scan wanted tc is gases firstGas)
     (\<lambda>x. length gases \<le> length (fst x) \<and> (fst x = [] \<longrightarrow> snd x = firstGas))"
proof (induction wanted tc "is" gases firstGas rule: gas_scan.induct)
  case (2 wanted tc i "is" gases firstGas)
  define sc where "sc = (if i = GasHe then 2 else 3 :: int)"
  define mq where "mq = (if i = GasHe then 20 else if i = GasO2 then 50 else 100 :: int)"
  have sm: "(if i = GasHe then (2, 20) else if i = GasO2 then (3, 50) else (3, 100)) = (sc, mq)"
    and mq: "1 \<le> mq" "mq < 2 ^ 62" by (auto simp: sc_def mq_def)
  have longer: "length gases \<le> length (AList.update i q gases) \<and> AList.update i q gases \<noteq> []" for q
    by (auto simp: length_update_le)
  show ?case unfolding gas_scan.simps sm Let_def prod.case
  proof (intro always_if always_rret always_rbind [of "Roll 1 3"] always_Roll always_bindI [OF always_die [OF mq]])
    show "always (gas_scan wanted tc is gases firstGas) (\<lambda>x. length gases \<le> length (fst x) \<and> (fst x = [] \<longrightarrow> snd x = firstGas))"
      if "int (length gases) \<noteq> wanted" "i = GasHe \<and> 5 < tc" using 2(1) that by simp
    show "always (gas_scan wanted tc is gases firstGas) (\<lambda>x. length gases \<le> length (fst x) \<and> (fst x = [] \<longrightarrow> snd x = firstGas))"
      if "int (length gases) \<noteq> wanted" "\<not> (i = GasHe \<and> 5 < tc)" "sc \<le> v" for v
      using 2(2) [OF that(1,2) _ refl, of sc mq v] that(3) sm by simp
    show "always (gas_scan wanted tc is (AList.update i q gases) (if length (AList.update i q gases) = 1 then i else firstGas))
        (\<lambda>x. length gases \<le> length (fst x) \<and> (fst x = [] \<longrightarrow> snd x = firstGas))"
      if "int (length gases) \<noteq> wanted" "\<not> (i = GasHe \<and> 5 < tc)" "\<not> sc \<le> v" for v q
      using 2(3) [OF that(1,2) _ refl _ refl, of sc mq v q] that(3) sm longer [of q]
      by (auto elim!: always_conseq)
  qed (use mq in auto)
qed (auto intro: always_rret)

definition fertile :: "atmosphericGas list \<Rightarrow> bool" where
  "fertile is \<longleftrightarrow> (\<exists>g \<in> set is. g \<noteq> GasHe)"

lemma fertile_Cons: "fertile (GasHe # is) \<longleftrightarrow> fertile is" "i \<noteq> GasHe \<Longrightarrow> fertile (i # is)"
  by (auto simp: fertile_def)

lemma advances_gas_scan:
  "wanted \<noteq> 0 \<Longrightarrow> fertile is \<Longrightarrow> advances lucky (gas_scan wanted tc is [] firstGas)"
proof (induction "is")
  case (Cons i "is")
  then show ?case
    by (cases "i = GasHe") (auto simp: fertile_Cons Let_def intro!: advances_seq advances_die die_rules halts_gas_scan)
qed (simp add: fertile_def)

lemma settles_gas_scan:
  "wanted \<noteq> 0 \<Longrightarrow> fertile is \<Longrightarrow> settles lucky (gas_scan wanted tc is [] firstGas) (\<lambda>x. fst x \<noteq> [])"
proof (induction "is")
  case (Cons i "is")
  have rest: "settles lucky (gas_scan wanted tc is [(i, q)] f) (\<lambda>x. fst x \<noteq> [])" for q f
    by (rule halts_settles [OF halts_gas_scan], rule always_conseq [OF gas_scan_grows]) auto
  show ?case
  proof (cases "i = GasHe")
    case True
    with Cons show ?thesis by (auto simp: fertile_Cons intro!: settles_rbind [OF lucky_faces(1)])
  next
    case False
    define mq where "mq = (if i = GasO2 then 50 else 100 :: int)"
    have mq: "(if i = GasO2 then (3, 50) else (3, 100)) = (3 :: int, mq)" "1 \<le> mq" "mq \<le> 100"
      by (auto simp: mq_def)
    then show ?thesis using Cons.prems False
      by (auto simp: mq(1) intro!: settles_rbind [OF lucky_faces(1)] settles_rbind [OF halts_settles [OF halts_die always_die]] rest)
  qed
qed (simp add: fertile_def)

lemma halts_gas_retry:
  assumes "wanted \<noteq> 0" and "fertile window"
  shows "halts lucky (gas_retry wanted tc window [] firstGas)"
proof (rule retry_halts [where good = "\<lambda>x. fst x \<noteq> []"])
  show "gas_retry wanted tc window [] firstGas r = go_bind (gas_scan wanted tc window [] firstGas r)
      (\<lambda>x. if fst (fst x) \<noteq> [] then ret x else gas_retry wanted tc window [] firstGas (snd x))" for r
  proof -
    have finished: "gas_retry wanted tc window a b q = ret ((a, b), q)" if "a \<noteq> []" for a b q
      using that by (subst gas_retry.simps) simp
    have "snd (fst x) = firstGas" if "gas_scan wanted tc window [] firstGas r = ret x" "fst (fst x) = []" for x
      using alwaysD [OF gas_scan_grows, of wanted tc window "[]" firstGas r] that by (cases x) auto
    with finished show ?thesis
      by (subst gas_retry.simps) (auto intro!: go_bind_cong simp: finished)
  qed
qed (use assms in \<open>auto intro: advances_gas_scan settles_gas_scan\<close>)

lemma fertile_upto: "a < b \<Longrightarrow> fertile [a..b]"
  unfolding fertile_def by (rule bexI [of _ "if a = GasHe then b else a"]) auto

lemma gas_window_wide: "fst (gas_window tc) < snd (gas_window tc)"
  by (simp add: gas_window_def Let_def)

lemma halts_roll_atmosphere: "halts lucky (roll_atmosphere tc pc)"
proof -
  have norm: "halts lucky (rlift (normalize_gases gases f))"
    if "found_ok wanted (gases, f) \<and> gases \<noteq> []" "wanted \<le> 4" for gases f wanted
  proof (rule halts_rlift_yields [OF normalize_gases_ok])
    have "returns (gas_percentages t m)" for t m
      by (induction t m rule: gas_percentages.induct) (auto intro!: returns_go_bind)
    then show "returns (normalize_gases gases f)" by (auto simp: normalize_gases_def Let_def intro!: returns_go_bind)
  qed (use that in auto)
  have win: "set [fst (gas_window tc)..snd (gas_window tc)] \<subseteq> {1..13}"
    using gas_window_bounds [of tc] by auto
  have d: "always (D4 2) (\<lambda>d. 2 \<le> d \<and> d \<le> 8)" by (rule always_dice) auto
  have step: "halts lucky (rbind (gas_retry wanted tc [fst (gas_window tc)..snd (gas_window tc)] [] 0)
      (\<lambda>(gases, f). rlift (normalize_gases gases f)))" if "1 \<le> wanted" "wanted \<le> 4" for wanted
  proof (rule halts_rbind [OF halts_gas_retry always_gas_retry [OF _ win, of wanted]])
    show "halts lucky (case a of (gases, f) \<Rightarrow> rlift (normalize_gases gases f))"
      if "found_ok wanted a \<and> fst a \<noteq> []" for a
      using that norm [of wanted "fst a" "snd a"] \<open>wanted \<le> 4\<close> by (simp add: case_prod_beta)
  qed (use that gas_window_wide [of tc] in \<open>auto simp: found_ok_def fertile_upto\<close>)
  show ?thesis unfolding roll_atmosphere_def case_prod_beta [of _ "gas_window tc"] Let_def
    by (intro halts_if halts_rret halts_rbind [OF halts_D4 d] step) (auto simp: quot_int_nonneg)
qed

section \<open>Mining difficulty, planets and stars\<close>

lemma halts_mining_loop:
  assumes "1 \<le> d" and "d \<le> 300"
  shows "halts lucky (mining_loop d)"
proof (rule retry_halts [where good = "\<lambda>x. 40 \<le> x \<and> x \<le> 500"])
  show "mining_loop d r = go_bind (mining_try d r) (\<lambda>x. if 40 \<le> fst x \<and> fst x \<le> 500 then ret x else mining_loop d (snd x))" for r
    by (subst mining_loop.simps) (simp add: conj_commute)
  show "advances lucky (mining_try d)"
    unfolding mining_try_def using assms by (intro advances_seq advances_die die_rules) auto
  have any: "settles lucky (Roll 1 d) (\<lambda>_. True)"
    using assms by (intro halts_settles [OF halts_die always_conseq [OF always_die]]) auto
  show "settles lucky (mining_try d) (\<lambda>x. 40 \<le> x \<and> x \<le> 500)"
    unfolding mining_try_def
    by (rule settles_rbind [OF lucky_faces(1)], rule settles_rbind [OF lucky_faces(1)],
        rule settles_rbind [OF lucky_faces(2)], rule settles_rbind [OF any],
        rule settles_rbind [OF lucky_faces(4)], rule settles_rbind [OF lucky_faces(4)], rule settles_rret)
      (use fl64_int [of 40] in \<open>simp add: float_of_int_def\<close>)
qed

lemma seedTC_die: "seed_ok np orbit i \<Longrightarrow> die_size (seedTemperatureClass ! nat i) \<le> 300"
  using seed_range [of i] by (auto simp: seed_ok_def seedTemperatureClass_def die_size_def quot_int_def)

lemma halts_rollPlanet:
  assumes "1 \<le> orbit" and "orbit \<le> star_NumPlanets star"
  shows "halts lucky (rollPlanet star orbit prev)"
proof -
  let ?np = "star_NumPlanets star"
  have si: "halts lucky (rlift (seed_index ?np orbit))"
    by (rule halts_rlift_yields [OF yields_seed_index [OF assms]]) (simp add: seed_index_def)
  have idx: "always (rlift (go_index xs i)) (\<lambda>v. v = xs ! nat i)" "halts lucky (rlift (go_index xs i))"
    if "seed_ok ?np orbit i" "length xs = 10" for xs :: "int list" and i
    using that by (auto intro!: always_rlift yields_go_index halts_rlift simp: seed_ok_def go_index_def)
  have rest: "halts lucky (let kind = planetKindFromDiameter diameter; isGasGiant = (kind = KindGasGiant) in
     rbind (roll_density isGasGiant) (\<lambda>density.
     let gravity = planet_gravity density diameter in
     rbind (roll_temperature (seedTemperatureClass ! nat i) isGasGiant ?np orbit
              (map_option planet_TemperatureClass prev)) (\<lambda>tc.
     rbind (roll_pressure gravity isGasGiant) (\<lambda>pc.
     rbind (roll_atmosphere tc pc) (\<lambda>gases.
     rbind (mining_loop diameter) (\<lambda>md.
     rret \<lparr>planet_ID = 0, planet_StarID = 0, planet_Orbit = 0, planet_Kind = kind,
           planet_Diameter = diameter, planet_Density = density, planet_Gravity = gravity,
           planet_TemperatureClass = tc, planet_PressureClass = pc, planet_Special = no_special,
           planet_Gases = gases, planet_MiningDifficulty = float_div (float_mul md 11) 5\<rparr>))))))"
    if "seed_ok ?np orbit i" "3 \<le> diameter" "diameter \<le> 283" for i diameter
    unfolding Let_def using that planet_gravity_bounds [OF _ that(2,3)]
    by (intro halts_rbind [OF halts_roll_density always_roll_density] halts_seq halts_rret
        halts_roll_temperature halts_roll_pressure halts_roll_atmosphere halts_mining_loop seedTC_die) auto
  have size: "3 \<le> d \<and> d \<le> 283" if "seed_ok ?np orbit i"
    "3 \<le> d \<and> d \<le> max 6 (seedDiameter ! nat i + 4 * max 2 (seedDiameter ! nat i div 4))" for i d
  proof -
    have "max 2 (seedDiameter ! nat i div 4) \<le> 35" using seed_diameter_bounds [OF that(1)] by auto
    then have "seedDiameter ! nat i + 4 * max 2 (seedDiameter ! nat i div 4) \<le> 283"
      using seed_diameter_bounds [OF that(1)] by linarith
    then show ?thesis using that(2) by linarith
  qed
  show ?thesis unfolding rollPlanet_def
  proof (rule halts_rbind [OF si always_rlift [OF yields_seed_index [OF assms]]])
    fix i assume i: "seed_ok ?np orbit i"
    note sd = seed_diameter_bounds [OF i]
    show "halts lucky (rbind (rlift (go_index seedDiameter i)) (\<lambda>diameter0.
     rbind (rlift (go_index seedTemperatureClass i)) (\<lambda>tc0.
     rbind (roll_diameter diameter0) (\<lambda>diameter.
     let kind = planetKindFromDiameter diameter; isGasGiant = (kind = KindGasGiant) in
     rbind (roll_density isGasGiant) (\<lambda>density.
     let gravity = planet_gravity density diameter in
     rbind (roll_temperature tc0 isGasGiant ?np orbit (map_option planet_TemperatureClass prev)) (\<lambda>tc.
     rbind (roll_pressure gravity isGasGiant) (\<lambda>pc.
     rbind (roll_atmosphere tc pc) (\<lambda>gases.
     rbind (mining_loop diameter) (\<lambda>md.
     rret \<lparr>planet_ID = 0, planet_StarID = 0, planet_Orbit = 0, planet_Kind = kind,
           planet_Diameter = diameter, planet_Density = density, planet_Gravity = gravity,
           planet_TemperatureClass = tc, planet_PressureClass = pc, planet_Special = no_special,
           planet_Gases = gases, planet_MiningDifficulty = float_div (float_mul md 11) 5\<rparr>)))))))))"
      by (rule halts_rbind [OF idx(2,1) [OF i]], simp add: seedDiameter_def, simp add: seedDiameter_def,
          rule halts_rbind [OF idx(2,1) [OF i]], simp add: seedTemperatureClass_def, simp add: seedTemperatureClass_def,
          hypsubst, rule halts_rbind [OF halts_roll_diameter always_roll_diameter])
        (use sd size [OF i] rest [OF i] in auto)
  qed
qed

lemma halts_roll_planets:
  "1 \<le> orbit \<Longrightarrow> orbit + int n \<le> star_NumPlanets star + 1 \<Longrightarrow> halts lucky (roll_planets star n orbit prev)"
  by (induction n arbitrary: orbit prev) (auto intro!: halts_seq halts_rret halts_rollPlanet)

lemma always_roll_color: "always roll_color (\<lambda>_. True)" and halts_roll_color: "halts lucky roll_color"
proof -
  show "always roll_color (\<lambda>_. True)" unfolding roll_color_def
    by (rule always_bindI [where P = "\<lambda>v. 1 \<le> v \<and> v \<le> 7"]) (auto intro!: always_intros)
  show "halts lucky roll_color" unfolding roll_color_def
    by (rule halts_rbind [OF halts_die always_die]) (auto intro!: halts_rret halts_if)
qed

lemma halts_rollStar: "halts lucky rollStar"
proof -
  have num: "halts lucky (roll_num_planets kind color)" for kind color
    unfolding roll_num_planets_def by (cases color) (auto intro!: die_rules)
  have kind: "halts lucky roll_kind" unfolding roll_kind_def by (auto intro!: die_rules)
  show ?thesis unfolding rollStar_def Let_def
    by (rule halts_seq [OF kind], rule halts_seq [OF halts_roll_color], rule halts_seq [OF halts_D10],
        rule halts_rbind [OF num always_roll_num_planets], rule halts_seq [OF halts_roll_planets])
      (auto intro: halts_rret)
qed

lemma halts_stamp_stars: "halts lucky (stamp_stars m n g)"
  by (induction n arbitrary: g) (auto intro!: halts_rret halts_seq [OF halts_rollStar] simp: Let_def split: prod.split)

lemma halts_stamp_systems: "halts lucky (stamp_systems ps g)"
  by (induction ps arbitrary: g) (auto intro!: halts_rret halts_seq [OF halts_stamp_stars] simp: Let_def)

section \<open>Home-star templates\<close>

lemma halts_template_scan: "halts lucky (template_scan wanted tc gs picked)"
  by (induction gs arbitrary: picked) (auto intro!: die_rules simp: Let_def)

lemma template_scan_grows: "always (template_scan wanted tc gs picked) (\<lambda>p. length picked \<le> length p)"
proof (induction gs arbitrary: picked)
  case (Cons g gs)
  have add: "always (template_scan wanted tc gs (picked @ [x])) (\<lambda>p. length picked \<le> length p)" for x
    by (rule always_conseq [OF Cons]) simp
  show ?case unfolding template_scan.simps
    by (intro always_if always_rret always_rbind always_Roll Cons add) auto
qed (auto intro: always_rret)

lemma advances_template_scan: "wanted \<noteq> 0 \<Longrightarrow> gs \<noteq> [] \<Longrightarrow> advances lucky (template_scan wanted tc gs [])"
  by (cases gs) (auto intro!: advances_seq advances_die die_rules halts_template_scan)

lemma settles_template_scan:
  "wanted \<noteq> 0 \<Longrightarrow> fertile gs \<Longrightarrow> settles lucky (template_scan wanted tc gs []) (\<lambda>p. p \<noteq> [])"
proof (induction gs)
  case (Cons g gs)
  have rest: "settles lucky (template_scan wanted tc gs [x]) (\<lambda>p. p \<noteq> [])" for x
    by (rule halts_settles [OF halts_template_scan], rule always_conseq [OF template_scan_grows]) auto
  have qty: "settles lucky (Roll 1 50) (\<lambda>_. True)" "settles lucky (Roll 1 100) (\<lambda>_. True)"
    by (intro halts_settles [OF halts_die always_conseq [OF always_die]]; simp)+
  have take: "settles lucky (rbind (Roll 1 k) (\<lambda>q. template_scan wanted tc gs [(h, q)])) (\<lambda>p. p \<noteq> [])"
    if "k = 50 \<or> k = 100" for k h
    using that by (elim disjE; hypsubst; intro settles_rbind [OF qty(1)] settles_rbind [OF qty(2)] rest)
  show ?case
    by (cases "g = GasHe") (use Cons in \<open>auto simp: fertile_Cons intro!: settles_rbind [OF lucky_faces(1)] take\<close>)
qed (simp add: fertile_def)

lemma halts_template_retry:
  assumes "wanted \<noteq> 0" and "fertile window"
  shows "halts lucky (template_retry wanted tc window [])"
proof (rule retry_halts [where good = "\<lambda>p. p \<noteq> []"])
  have finished: "template_retry wanted tc window p q = ret (p, q)" if "p \<noteq> []" for p q
    using that by (subst template_retry.simps) simp
  show "template_retry wanted tc window [] r = go_bind (template_scan wanted tc window [] r)
      (\<lambda>x. if fst x \<noteq> [] then ret x else template_retry wanted tc window [] (snd x))" for r
    by (subst template_retry.simps) (auto intro!: go_bind_cong simp: finished)
  show "advances lucky (template_scan wanted tc window [])"
    using assms by (intro advances_template_scan) (auto simp: fertile_def)
qed (use assms in \<open>auto intro: settles_template_scan\<close>)

lemma returns_gas_percentages: "returns (gas_percentages t m)"
  by (induction t m rule: gas_percentages.induct) (auto intro!: returns_go_bind)

lemma halts_rollNonEarthAtmosphere: "halts lucky (rollNonEarthAtmosphere tc)"
proof -
  define f where "f = (let f = quot_int (100 * tc) 225 in if f < 1 then 1 else if f > 9 then 9 else f)"
  have f: "1 \<le> f" "f \<le> 9" by (auto simp: f_def Let_def)
  then have win: "set [f..f + 4] \<subseteq> {1..13}" "distinct [f..f + 4]" by auto
  have fin: "halts lucky (rbind (rlift (gas_percentages (sum_list (map snd picked)) picked)) (\<lambda>pcts.
         rbind (rlift (go_index (map (\<lambda>(g, p). \<lparr>tg_Gas = g, tg_Percent = p\<rparr>) pcts) 0)) (\<lambda>g0.
         rret ((map (\<lambda>(g, p). \<lparr>tg_Gas = g, tg_Percent = p\<rparr>) pcts)
           [0 := g0\<lparr>tg_Percent := tg_Percent g0 + (100 - sum_list (map snd pcts))\<rparr>]))))"
    if "found_ok wanted (picked, fst (hd picked)) \<and> picked \<noteq> []" "wanted \<le> 4" for picked wanted
    using that
    by (intro halts_rbind [OF halts_rlift_yields [OF normalize_first [of wanted] returns_gas_percentages]
          always_rlift [OF normalize_first [of wanted]]] halts_seq halts_rret halts_rlift_yields [OF yields_go_index])
      (auto simp: Let_def)
  have step: "halts lucky (rbind (template_retry wanted tc [f..f + 4] []) (\<lambda>picked.
         let totalQty = sum_list (map snd picked) in
         rbind (rlift (gas_percentages totalQty picked)) (\<lambda>pcts.
         let totalPct = sum_list (map snd pcts);
             gases = map (\<lambda>(g, p). \<lparr>tg_Gas = g, tg_Percent = p\<rparr>) pcts in
         rbind (rlift (go_index gases 0)) (\<lambda>g0.
         rret (gases[0 := g0\<lparr>tg_Percent := tg_Percent g0 + (100 - totalPct)\<rparr>])))))"
    if w: "1 \<le> wanted" "wanted \<le> 4" for wanted
    unfolding Let_def
    by (rule halts_rbind [OF halts_template_retry always_template_retry [of wanted, OF _ win]])
      (use w fin [of wanted] in \<open>auto intro: fertile_upto\<close>)
  show ?thesis
    unfolding rollNonEarthAtmosphere_def f_def [symmetric, unfolded Let_def] Let_def
    by (rule halts_rbind [OF halts_die always_die], simp, simp, simp, simp,
        rule halts_rbind [OF halts_die always_die], simp, simp, simp, simp, rule step [unfolded Let_def])
      (auto simp: quot_int_nonneg)
qed

lemma halts_template_mining:
  assumes "1 \<le> d" and "d \<le> 300"
  shows "halts lucky (template_mining d)"
proof (rule retry_halts [where good = "\<lambda>x. 30 \<le> x \<and> x \<le> 1000"])
  show "template_mining d r = go_bind (template_mining_try d r)
      (\<lambda>x. if 30 \<le> fst x \<and> fst x \<le> 1000 then ret x else template_mining d (snd x))" for r
    by (subst template_mining.simps) (simp add: conj_commute)
  show "advances lucky (template_mining_try d)"
    unfolding template_mining_try_def using assms by (intro advances_seq advances_die die_rules) auto
  have any: "settles lucky (Roll 1 d) (\<lambda>v. 1 \<le> v \<and> v \<le> d)"
    using assms by (intro halts_settles [OF halts_die always_die]) auto
  show "settles lucky (template_mining_try d) (\<lambda>x. 30 \<le> x \<and> x \<le> 1000)"
    unfolding template_mining_try_def
    by (rule settles_rbind [OF lucky_faces(1)], rule settles_rbind [OF lucky_faces(1)],
        rule settles_rbind [OF lucky_faces(1)], rule settles_rbind [OF lucky_faces(2)], rule settles_rbind [OF any],
        rule settles_rbind [OF lucky_faces(3)], rule settles_rbind [OF lucky_faces(3)], rule settles_rret)
      (use assms in auto)
qed

lemma template_dice:
  "0 \<le> i \<Longrightarrow> i \<le> 9 \<Longrightarrow> die_size (startDiameter ! nat i) \<le> 300"
  "0 \<le> i \<Longrightarrow> i \<le> 9 \<Longrightarrow> die_size (startTempClass ! nat i) \<le> 300"
  using seed_range [of i] by (auto simp: startDiameter_def startTempClass_def die_size_def quot_int_def)

lemma halts_template_class: "die_size x \<le> 300 \<Longrightarrow> halts lucky (template_class x)"
  unfolding template_class_def using die_size_bounds [of x] by (intro die_rules) auto

lemma halts_template_diameter: "die_size x \<le> 300 \<Longrightarrow> halts lucky (template_diameter x)"
  unfolding template_diameter_def using die_size_bounds [of x] by (intro die_rules) auto

lemma halts_template_gravity: "halts lucky (template_gravity gg d)"
  unfolding template_gravity_def by (intro die_rules) auto

lemma halts_template_temperature: "die_size x \<le> 300 \<Longrightarrow> halts lucky (template_temperature x gg np orbit prev)"
  unfolding template_temperature_def by (auto intro!: die_rules halts_template_class)

lemma halts_template_pressure:
  assumes "0 \<le> g" and "g \<le> 2241"
  shows "halts lucky (template_pressure g gg tc)"
proof -
  have "die_size (quot_int g 10) \<le> 300" using assms by (intro die_size_le) (auto simp: quot_int_nonneg)
  then show ?thesis unfolding template_pressure_def by (auto intro!: die_rules halts_template_class)
qed

lemma halts_earth_like: "halts lucky earth_like"
  unfolding earth_like_def buildEarthLikeAtmosphere_def Let_def by (intro die_rules) auto

lemma halts_ordinary_planet:
  "3 \<le> d \<Longrightarrow> d \<le> 283 \<Longrightarrow> 0 \<le> g \<Longrightarrow> g \<le> 2241 \<Longrightarrow> halts lucky (ordinary_planet d kind g tc)"
  unfolding ordinary_planet_def
  by (intro halts_seq halts_template_pressure halts_if halts_rollNonEarthAtmosphere halts_template_mining halts_rret) auto

lemma halts_template_planet:
  assumes "1 \<le> numPlanets"
  shows "halts lucky (template_planet numPlanets orbit consumed prev)"
proof -
  have base: "yields (template_base numPlanets orbit) (\<lambda>i. 0 \<le> i \<and> i \<le> 9)"
    using assms unfolding template_base_def by (auto intro!: yields_bind yields_if yields_go_div simp: startDiameter_def)
  have ret_base: "returns (template_base numPlanets orbit)"
    unfolding template_base_def by (auto intro!: returns_go_bind)
  have idx: "always (rlift (go_index xs i)) (\<lambda>v. v = xs ! nat i)" "halts lucky (rlift (go_index xs i))"
    if "0 \<le> i \<and> i \<le> 9" "length xs = 10" for xs :: "int list" and i
    using that by (auto intro!: always_rlift yields_go_index halts_rlift simp: go_index_def)
  show ?thesis unfolding template_planet_def Let_def
  proof (rule halts_rbind [OF halts_rlift_yields [OF base ret_base] always_rlift [OF base]],
      rule halts_rbind [OF idx(2,1)], assumption, simp add: startDiameter_def, assumption, simp add: startDiameter_def,
      rule halts_rbind [OF idx(2,1)], assumption, simp add: startTempClass_def, assumption, simp add: startTempClass_def,
      hypsubst, rule halts_rbind [OF halts_template_diameter always_template_diameter])
    fix i d :: int assume i: "0 \<le> i \<and> i \<le> 9"
    then show "die_size (startDiameter ! nat i) \<le> 300" "0 \<le> startDiameter ! nat i" "startDiameter ! nat i \<le> 143"
      by (simp_all add: template_dice startDiameter_bounds)
    assume d: "3 \<le> d \<and> d \<le> 283"
    show "halts lucky (rbind (template_gravity (planetKindFromDiameter d = KindGasGiant) d) (\<lambda>gravity.
        rbind (template_temperature (startTempClass ! nat i) (planetKindFromDiameter d = KindGasGiant) numPlanets orbit prev) (\<lambda>tc.
        if \<not> consumed \<and> tc \<le> 11 then rbind earth_like (\<lambda>tp. rret (tp, True))
        else rbind (ordinary_planet d (planetKindFromDiameter d) gravity tc) (\<lambda>tp. rret (tp, consumed)))))"
      using i d
      by (intro halts_rbind [OF halts_template_gravity always_template_gravity] halts_seq halts_template_temperature
          halts_if halts_earth_like halts_rret halts_ordinary_planet template_dice) auto
  qed
qed

lemma halts_template_planets: "1 \<le> numPlanets \<Longrightarrow> halts lucky (template_planets numPlanets k orbit consumed prev)"
  by (induction k arbitrary: orbit consumed prev)
    (auto intro!: halts_rret halts_seq intro: halts_template_planet)

lemma returns_score_sum: "returns (score_sum home ps s)"
  by (induction home ps s rule: score_sum.induct) (auto intro!: returns_go_bind)

lemma halts_attempt:
  assumes "1 \<le> n"
  shows "halts lucky (generateHomeStarTemplateAttempt n)"
proof -
  have st: "state_ok False None" by (simp add: state_ok_def)
  have ret_score: "returns (computeViabilityScore ps)" for ps
    by (simp add: computeViabilityScore_def returns_score_sum split: option.split)
  show ?thesis unfolding generateHomeStarTemplateAttempt_def
    using always_template_planets [OF assms _ st, of 1 "nat n"]
    by (rule halts_rbind [OF halts_template_planets [OF assms]])
      (auto intro!: halts_seq halts_rret halts_rlift_yields [OF yields_computeViabilityScore ret_score])
qed

lemma halts_template_loop:
  assumes "outcomes_ok w b os"
  shows "halts lucky (template_loop w rolls os filled)"
  using assms
proof (induction rolls arbitrary: b os filled)
  case (Suc k)
  have l: "length os = 10" and ok: "\<And>i. i < 10 \<Longrightarrow> outcome_ok w i (os ! i)"
    using Suc.prems by (auto simp: outcomes_ok_def list_all2_conv_all_nth)
  have nxt: "halts lucky (template_loop w k (os[nat n := Some (record_attempt w t s slot)]) f)"
    if n: "\<not> (n < 3 \<or> 9 < n)" and slot: "os ! nat n = Some slot" "hso_Template slot = None"
      and t: "template_ok n t" "s = tmpl_ViabilityScore t" for n t s slot f
  proof -
    have so: "slot_ok w n slot" using ok [of "nat n"] n slot by (simp add: outcome_ok_def nat_less_iff)
    have "outcome_ok w i (os[nat n := Some (record_attempt w t s slot)] ! i)" if "i < 10" for i
      using ok [OF that] slot_ok_record(1) [OF so slot(2) t] n l that
      by (cases "i = nat n") (auto simp: outcome_ok_def)
    then have "outcomes_ok w (attempts (os[nat n := Some (record_attempt w t s slot)])) (os[nat n := Some (record_attempt w t s slot)])"
      using l by (simp add: outcomes_ok_def list_all2_conv_all_nth)
    from Suc.IH [OF this] show ?thesis .
  qed
  have idx: "\<exists>slot. go_index os n = ret (Some slot) \<and> os ! nat n = Some slot" if "\<not> (n < 3 \<or> 9 < n)" for n
    using ok [of "nat n"] that l by (auto simp: go_index_def outcome_ok_def nat_less_iff split: option.splits)
  show ?case unfolding template_loop.simps Let_def
  proof (rule halts_if, rule halts_seq [OF halts_rollStar], clarify, rule halts_if, rule Suc.IH [OF Suc.prems], goal_cases)
    case (1 star ps)
    then obtain slot where slot: "go_index os (star_NumPlanets star) = ret (Some slot)" "os ! nat (star_NumPlanets star) = Some slot"
      using idx by blast
    have al: "always (rlift (go_index os (star_NumPlanets star))) (\<lambda>x. x = Some slot)"
      using slot by (intro always_rlift) simp
    have pos: "1 \<le> star_NumPlanets star" using 1 by simp
    show ?case
      by (rule halts_rbind [OF halts_rlift [OF slot(1)] al])
        (use 1 slot in \<open>auto intro!: halts_if Suc.IH [OF Suc.prems] halts_rbind [OF halts_attempt [OF pos] always_attempt [OF pos]] nxt [simplified]\<close>)
  qed (rule halts_rret)
qed (simp add: halts_rret)

lemma halts_GenerateHomeStarTemplates: "halts lucky (GenerateHomeStarTemplates w budget)"
  unfolding GenerateHomeStarTemplates_def Let_def by (rule halts_template_loop [OF outcomes_ok_empty])

section \<open>Deposits\<close>

lemma halts_D8: "halts lucky (D8 n)" and halts_D12: "halts lucky (D12 n)" and halts_D6: "halts lucky (D6 n)"
  by (rule lucky.halts_dice, simp)+

lemmas deposit_dice = halts_D4 halts_D6 halts_D8 halts_D10 halts_D12 halts_die halts_seq halts_rret halts_if

lemma halts_rows:
  "halts lucky (rollAsteroidBeltDeposit roll)" "halts lucky (rollGasGiantDeposit roll)"
  "halts lucky (rollRockyDeposit roll hard)"
  unfolding rollAsteroidBeltDeposit_def rollGasGiantDeposit_def rollRockyDeposit_def deposit_row_def triangularQuantity_def
  by (intro deposit_dice; simp)+

lemma halts_rollDeposit: "halts lucky (rollDeposit p i)"
  unfolding rollDeposit_def
  by (cases "planet_Kind p") (auto intro!: halts_seq [OF halts_die] halts_seq [OF halts_rows(1)]
      halts_seq [OF halts_rows(2)] halts_seq [OF halts_rows(3)] halts_rret)

lemma halts_planet_deposits: "halts lucky (planet_deposits p k i acc)"
  by (induction k arbitrary: i acc) (auto intro!: halts_rret halts_seq [OF halts_rollDeposit])

lemma halts_deposits_loop: "halts lucky (deposits_loop ps acc)"
proof (induction ps arbitrary: acc)
  case (Cons p ps)
  have "halts lucky (rollNumDeposits kind)" for kind
    unfolding rollNumDeposits_def by (cases kind) (auto intro!: deposit_dice simp: Let_def)
  then show ?case by (auto intro!: halts_seq halts_planet_deposits Cons)
qed (simp add: halts_rret)

lemma halts_GenerateDeposits: "halts lucky (GenerateDeposits c)"
  unfolding GenerateDeposits_def by (auto intro!: halts_rret halts_seq [OF halts_deposits_loop] split: option.split)

section \<open>Placement\<close>

lemma always_nearest:
  assumes "length ps < 2 ^ 61"
  shows "always (\<lambda>rng. nearestPlacementWithinDistance rng ps c d) (nearest_choice ps c d)"
  unfolding always_def using assms by (auto intro!: yields_nearest)

lemma halts_nearest:
  assumes "length ps < 2 ^ 61"
  shows "halts ones (\<lambda>rng. nearestPlacementWithinDistance rng ps c d)"
proof -
  define tied where "tied = nearest_scan c d ps 0 (- 1) []"
  have "nearest_state c d [] (- 1) []" by (simp add: nearest_state_def)
  from nearest_scan_state [OF this, of ps] obtain best where "nearest_state c d ps best tied" by (auto simp: tied_def)
  then have len: "length tied < 2 ^ 61" using assms by (auto simp: nearest_state_def)
  have pick: "halts ones (rbind (Roll 0 (int (length tied) - 1)) (\<lambda>k. rlift (go_index tied k)))" if "tied \<noteq> []"
    using that len
    by (intro halts_rbind [OF ones.halts_Roll always_Roll [where P = "\<lambda>k. 0 \<le> k \<and> k < int (length tied)"]])
      (auto intro!: halts_rlift simp: go_index_def Suc_le_eq)
  have "(\<lambda>rng. nearestPlacementWithinDistance rng ps c d) =
      (if tied = [] then rret (- 1) else if length tied = 1 then rlift (go_index tied 0)
       else rbind (Roll 0 (int (length tied) - 1)) (\<lambda>k. rlift (go_index tied k)))"
    by (simp add: fun_eq_iff nearestPlacementWithinDistance_def Let_def rret_def rlift_def rbind_def flip: tied_def)
  moreover have "halts ones (rlift (go_index tied 0))" if "length tied = 1"
    using that by (intro halts_rlift) (simp add: go_index_def)
  ultimately show ?thesis using pick by (simp add: halts_rret)
qed

lemma halts_place_candidates:
  "length ps + length cs < 2 ^ 61 \<Longrightarrow> halts ones (place_candidates n d merge cs ps)"
proof (induction cs arbitrary: ps)
  case Nil
  have "place_candidates n d merge [] ps = rret (ps, False)" by (simp add: fun_eq_iff rret_def)
  then show ?case by (simp add: halts_rret)
next
  case (Cons c cs)
  let ?near = "\<lambda>rng. nearestPlacementWithinDistance rng ps c d"
  let ?new = "ps @ [\<lparr>hp_Hex = c, hp_Stars = 1\<rparr>]"
  let ?merge = "\<lambda>p idx. if merge \<and> hp_Stars p < 5 then ps[nat idx := p\<lparr>hp_Stars := hp_Stars p + 1\<rparr>] else ps"
  have step: "place_candidates n d merge (c # cs) ps = rbind ?near (\<lambda>idx.
      if idx \<ge> 0 then rbind (rlift (go_index ps idx)) (\<lambda>p. place_candidates n d merge cs (?merge p idx))
      else if int (length ?new) = n then rret (?new, True) else place_candidates n d merge cs ?new)"
    by (simp add: fun_eq_iff rbind_def rlift_def rret_def Let_def)
      (auto intro!: go_bind_cong simp: rbind_def rlift_def rret_def go_bind_assoc)
  have idx: "halts ones (rlift (go_index ps i))" if "nearest_choice ps c d i" "0 \<le> i" for i
    using that by (intro halts_rlift) (auto simp: nearest_choice_def go_index_def)
  have IH: "halts ones (place_candidates n d merge cs qs)" if "length qs \<le> length ps + 1" for qs
    using that Cons.prems by (intro Cons.IH) simp
  have len: "length ps < 2 ^ 61" using Cons.prems by simp
  show ?case unfolding step
    by (rule halts_rbind [OF halts_nearest [OF len] always_nearest [OF len]], intro halts_if halts_rret halts_seq [OF idx] IH)
      auto
qed

lemma halts_placeHexSystems:
  assumes "r \<le> 2 ^ 29"
  shows "halts ones (\<lambda>rng. placeHexSystems rng r n d merge)"
proof -
  have len: "length (Disk r) < 2 ^ 61" using assms by (rule length_Disk_bound)
  have shuf: "halts ones (Shuffle (Disk r))" using len by (intro ones.halts_Shuffle) auto
  have perm: "always (Shuffle (Disk r)) (\<lambda>disk. length disk = length (Disk r))"
    using len by (intro always_Shuffle) (auto dest: mset_eq_length)
  let ?err = "\<lambda>ps filled. if filled then None else Some (CouldOnlyPlace (int (length ps)) r d merge)"
  have fin: "halts ones (rbind (Shuffle (Disk r)) (\<lambda>disk. rbind (place_candidates n d merge disk [])
      (\<lambda>(ps, filled). rret (ps, ?err ps filled))))"
    using len by (intro halts_rbind [OF shuf perm] halts_seq halts_place_candidates) (auto intro: halts_rret)
  have "(\<lambda>rng. placeHexSystems rng r n d merge) =
     (if n < 0 then rret ([], Some NegativeSystems) else if n = 0 then rret ([], None)
      else if r < 0 then rret ([], Some NegativeRadius) else if d < 0 then rret ([], Some NegativeMinimumDistance)
      else if n > int (length (Disk r)) \<and> \<not> merge then rret ([], Some (ExceedsCapacity n (int (length (Disk r)))))
      else rbind (Shuffle (Disk r)) (\<lambda>disk. rbind (place_candidates n d merge disk [])
        (\<lambda>(ps, filled). rret (ps, ?err ps filled))))"
    by (simp add: fun_eq_iff placeHexSystems_def Let_def rret_def rbind_def) (auto intro!: go_bind_cong simp: rret_def)
  with fin show ?thesis by (simp add: halts_rret)
qed

section \<open>Properties\<close>

lemma halts_prefix:
  assumes "halts w m" and "always m P"
  shows "\<exists>a r'. m (pre @- sconst w) = ret (a, r') \<and> P a"
proof -
  have "sdrop (length pre) (pre @- sconst w) = still w" by (simp add: still_def sdrop_shift)
  with assms(1) obtain a r' where m: "m (pre @- sconst w) = ret (a, r')" unfolding halts_def by blast
  with alwaysD [OF assms(2), of "pre @- sconst w"] show ?thesis by simp
qed

text \<open>Rolling a star returns: whatever numbers were drawn before, a run of \<open>lucky\<close> ends every
  retry and clamping loop, and the star is well formed.\<close>

theorem rollStar_returns:
  "\<exists>x r'. rollStar (pre @- sconst lucky) = ret (x, r') \<and> (case x of (s, ps) \<Rightarrow> rolled_ok s ps)"
  using halts_prefix [OF halts_rollStar always_rollStar] by simp

text \<open>C21.  The template driver returns within its budget of candidates, whatever was drawn before.\<close>

theorem GenerateHomeStarTemplates_returns:
  "\<exists>os r'. GenerateHomeStarTemplates w budget (pre @- sconst lucky) = ret (os, r') \<and>
     outcomes_ok w (if budget \<le> 0 then DefaultMaxCandidateRolls else budget) os"
  using halts_prefix [OF halts_GenerateHomeStarTemplates always_GenerateHomeStarTemplates] by simp

text \<open>Placement returns: after any numbers, a run of \<open>ones\<close> ends the rejection loops of the shuffle
  and of the choice between tied placements.\<close>

theorem placeHexSystems_returns:
  assumes "0 < n" and "0 \<le> r" and "r \<le> 2 ^ 29" and "0 \<le> d"
  shows "\<exists>res rng'. placeHexSystems (pre @- sconst ones) r n d merge = ret (res, rng') \<and> placement_post r n d merge res"
proof -
  have "always (\<lambda>rng. placeHexSystems rng r n d merge) (placement_post r n d merge)"
    unfolding always_def using assms by (auto intro: yields_placeHexSystems)
  from halts_prefix [OF halts_placeHexSystems [OF assms(3)] this, of pre] show ?thesis by blast
qed

theorem placeHexSystems_returns_witness:
  "\<exists>res rng'. placeHexSystems ([1, 2, 3] @- sconst ones) 15 100 2 True = ret (res, rng') \<and>
     placement_post 15 100 2 True res"
  by (rule placeHexSystems_returns) simp_all

end
