(* ===== verification/GoStrings.thy ===== *)
theory GoStrings
  imports Prelude "HOL-Library.Char_ord" "HOL-Library.List_Lexorder" "HOL-Library.Sublist"
begin

text \<open>
  The functions of Go's \<open>strings\<close>, \<open>strconv\<close>, \<open>fmt\<close> and \<open>encoding/hex\<close> the program uses.
  A Go string is a sequence of bytes, here a \<open>char list\<close> whose characters are the bytes.
  \<open>strings.TrimSpace\<close> removes the white space of Unicode, so the UTF-8 encodings of it are
  written out; \<open>strings.ToLower\<close> of a string with a byte above 127 needs the Unicode tables and
  takes the conversion of such strings as a parameter.
\<close>

section \<open>Decimal numbers\<close>

definition digit_char :: "nat \<Rightarrow> char" where
  "digit_char d = char_of (48 + d)"

fun utoa :: "nat \<Rightarrow> string" where
  "utoa n = (if n < 10 then [digit_char n] else utoa (n div 10) @ [digit_char (n mod 10)])"

declare utoa.simps [simp del]

definition itoa :: "int \<Rightarrow> string" where
  "itoa i = (if i < 0 then CHR ''-'' # utoa (nat (- i)) else utoa (nat i))"

definition digits_value :: "string \<Rightarrow> nat" where
  "digits_value s = foldl (\<lambda>n c. n * 10 + (of_char c - 48)) 0 s"

lemma of_digit_char: "d < 10 \<Longrightarrow> (of_char (digit_char d) :: nat) = 48 + d"
  by (simp add: digit_char_def)

lemma digits_value_utoa: "digits_value (utoa n) = n"
proof (induction n rule: utoa.induct)
  case (1 n)
  show ?case
  proof (cases "n < 10")
    case True
    then show ?thesis by (subst utoa.simps) (simp add: digits_value_def of_digit_char)
  next
    case False
    with 1 show ?thesis by (subst utoa.simps) (simp add: digits_value_def of_digit_char)
  qed
qed

lemma utoa_chars: "c \<in> set (utoa n) \<Longrightarrow> 48 \<le> (of_char c :: nat) \<and> (of_char c :: nat) \<le> 57"
proof (induction n rule: utoa.induct)
  case (1 n)
  have m: "48 \<le> (of_char (digit_char d) :: nat) \<and> (of_char (digit_char d) :: nat) \<le> 57" if "d < 10" for d
    using that by (simp add: of_digit_char)
  show ?case
  proof (cases "n < 10")
    case True
    with "1.prems" m show ?thesis by (subst (asm) utoa.simps) auto
  next
    case False
    with "1.prems" 1 m [of "n mod 10"] show ?thesis by (subst (asm) utoa.simps) auto
  qed
qed

lemma utoa_inj: "utoa m = utoa n \<longleftrightarrow> m = n"
  by (metis digits_value_utoa)

lemma itoa_inj: "itoa i = itoa j \<longleftrightarrow> i = j"
proof -
  have minus: "CHR ''-'' \<notin> set (utoa n)" for n
    using utoa_chars [of "CHR ''-''" n] by auto
  have ne: "utoa a \<noteq> CHR ''-'' # utoa b" for a b
    using minus [of a] by (metis list.set_intros(1))
  show ?thesis using ne [of "nat i" "nat (- j)"] ne [of "nat j" "nat (- i)", symmetric]
    by (auto simp: itoa_def utoa_inj)
qed

section \<open>Trimming\<close>

text \<open>The length of the white space character (\<open>unicode.IsSpace\<close>) a string starts with, or 0.\<close>

definition space_len :: "string \<Rightarrow> nat" where
  "space_len s = (case map (of_char :: char \<Rightarrow> nat) (take 3 s) of
     [] \<Rightarrow> 0
   | a # r \<Rightarrow>
       if a \<in> {9, 10, 11, 12, 13, 32} then 1
       else (case r of
         [] \<Rightarrow> 0
       | b # r' \<Rightarrow>
           if a = 0xC2 \<and> (b = 0x85 \<or> b = 0xA0) then 2
           else (case r' of
             [] \<Rightarrow> 0
           | c # _ \<Rightarrow>
               if (a = 0xE1 \<and> b = 0x9A \<and> c = 0x80) \<or> (a = 0xE2 \<and> b = 0x80 \<and> 0x80 \<le> c \<and> c \<le> 0x8A) \<or>
                  (a = 0xE2 \<and> b = 0x80 \<and> c \<in> {0xA8, 0xA9, 0xAF}) \<or> (a = 0xE2 \<and> b = 0x81 \<and> c = 0x9F) \<or>
                  (a = 0xE3 \<and> b = 0x80 \<and> c = 0x80)
               then 3 else 0)))"

function trim_left :: "string \<Rightarrow> string" where
  "trim_left s = (if space_len s = 0 \<or> s = [] then s else trim_left (drop (space_len s) s))"
  by pat_completeness auto
termination by (relation "measure length") auto

definition suffix_space :: "string \<Rightarrow> nat option" where
  "suffix_space s = find (\<lambda>n. n \<le> length s \<and> space_len (drop (length s - n) s) = n) [1, 2, 3]"

lemma suffix_space_pos: "suffix_space s = Some n \<Longrightarrow> 0 < n \<and> n \<le> length s"
  by (auto simp: suffix_space_def split: if_splits)

function trim_right_space :: "string \<Rightarrow> string" where
  "trim_right_space s =
     (case suffix_space s of None \<Rightarrow> s | Some n \<Rightarrow> trim_right_space (take (length s - n) s))"
  by pat_completeness auto
termination by (relation "measure length") (auto dest: suffix_space_pos)

declare trim_left.simps [simp del] trim_right_space.simps [simp del]

definition TrimSpace :: "string \<Rightarrow> string" where
  "TrimSpace s = trim_right_space (trim_left s)"

text \<open>\<open>strings.TrimRight(s, cutset)\<close> for an ASCII cutset of one character.\<close>

definition TrimRight :: "char \<Rightarrow> string \<Rightarrow> string" where
  "TrimRight c s = rev (dropWhile (\<lambda>x. x = c) (rev s))"

section \<open>Case\<close>

definition ascii_lower :: "char \<Rightarrow> char" where
  "ascii_lower c = (if 65 \<le> (of_char c :: nat) \<and> (of_char c :: nat) \<le> 90 then char_of (of_char c + 32 :: nat) else c)"

definition is_ascii :: "string \<Rightarrow> bool" where
  "is_ascii s \<longleftrightarrow> list_all (\<lambda>c. (of_char c :: nat) < 128) s"

definition ToLower :: "(string \<Rightarrow> string) \<Rightarrow> string \<Rightarrow> string" where
  "ToLower unicode s = (if is_ascii s then map ascii_lower s else unicode s)"

text \<open>\<open>strings.EqualFold(s, t)\<close> for an ASCII \<open>t\<close> without the letters k and s.\<close>

definition EqualFold :: "string \<Rightarrow> string \<Rightarrow> bool" where
  "EqualFold s t \<longleftrightarrow> is_ascii s \<and> map ascii_lower s = map ascii_lower t"

section \<open>Searching and splitting\<close>

definition HasPrefix :: "string \<Rightarrow> string \<Rightarrow> bool" where
  "HasPrefix s p \<longleftrightarrow> prefix p s"

definition Contains_str :: "string \<Rightarrow> string \<Rightarrow> bool" where
  "Contains_str s t \<longleftrightarrow> sublist t s"

text \<open>\<open>strings.SplitN(s, " ", 2)\<close>.\<close>

definition split_space :: "string \<Rightarrow> string list" where
  "split_space s = (let a = takeWhile (\<lambda>c. c \<noteq> CHR '' '') s in
     if a = s then [s] else [a, drop (length a + 1) s])"

fun Join :: "string list \<Rightarrow> string \<Rightarrow> string" where
  "Join [] sep = []"
| "Join [s] sep = s"
| "Join (s # t # ss) sep = s @ sep @ Join (t # ss) sep"

definition hex_digit :: "nat \<Rightarrow> char" where
  "hex_digit d = (if d < 10 then char_of (48 + d) else char_of (87 + d))"

definition hex_encode :: "nat list \<Rightarrow> string" where
  "hex_encode bs = concat (map (\<lambda>b. [hex_digit (b div 16), hex_digit (b mod 16)]) bs)"

section \<open>Facts about trimming and case\<close>

lemma trim_left_no_space: "trim_left s = [] \<or> space_len (trim_left s) = 0"
proof (induction s rule: trim_left.induct)
  case (1 s)
  then show ?case by (subst (1 2) trim_left.simps) auto
qed

lemma trim_left_suffix: "suffix (trim_left s) s"
proof (induction s rule: trim_left.induct)
  case (1 s)
  show ?case
  proof (cases "space_len s = 0 \<or> s = []")
    case False
    with 1 have "suffix (trim_left (drop (space_len s) s)) (drop (space_len s) s)" by simp
    moreover have "suffix (drop (space_len s) s) s" by (rule suffix_drop)
    ultimately show ?thesis using False by (subst trim_left.simps) (auto intro: suffix_order.trans)
  qed (subst trim_left.simps, simp)
qed

lemma trim_right_prefix: "prefix (trim_right_space s) s"
proof (induction s rule: trim_right_space.induct)
  case (1 s)
  show ?case
  proof (cases "suffix_space s")
    case (Some n)
    with 1 have "prefix (trim_right_space (take (length s - n) s)) (take (length s - n) s)" by simp
    then show ?thesis using Some take_is_prefix
      by (subst trim_right_space.simps) (auto intro: prefix_order.trans)
  qed (subst trim_right_space.simps, simp)
qed

lemma trim_right_end: "suffix_space (trim_right_space s) = None"
proof (induction s rule: trim_right_space.induct)
  case (1 s)
  then show ?case by (cases "suffix_space s") (subst trim_right_space.simps; simp)+
qed

lemma set_TrimSpace: "set (TrimSpace s) \<subseteq> set s"
  using set_mono_suffix [OF trim_left_suffix, of s] set_mono_prefix [OF trim_right_prefix, of "trim_left s"]
  by (auto simp: TrimSpace_def)

lemma length_TrimSpace: "length (TrimSpace s) \<le> length s"
  using suffix_length_le [OF trim_left_suffix, of s] prefix_length_le [OF trim_right_prefix, of "trim_left s"]
  by (simp add: TrimSpace_def)

text \<open>A string whose first and last characters are ASCII and not white space is not changed.\<close>

definition plain_char :: "char \<Rightarrow> bool" where
  "plain_char c \<longleftrightarrow> (let n = of_char c :: nat in n < 128 \<and> n \<notin> {9, 10, 11, 12, 13, 32})"

lemma space_len_plain: "plain_char c \<Longrightarrow> space_len (c # s) = 0"
  by (auto simp: space_len_def plain_char_def Let_def split: list.splits)

lemma space_len_last:
  assumes "plain_char (last s)" and "s \<noteq> []" and "space_len s \<noteq> 0"
  shows "space_len s < length s"
proof -
  have lt: "(of_char (last s) :: nat) < 128" "of_char (last s) \<notin> {9, 10, 11, 12, 13, 32 :: nat}"
    using assms(1) by (simp_all add: plain_char_def Let_def)
  consider a where "s = [a]" | a b where "s = [a, b]" | a b c r where "s = a # b # c # r"
    using assms(2) by (metis list.exhaust)
  then show ?thesis
  proof cases
    case 1
    then show ?thesis using assms(3) lt by (simp add: space_len_def split: if_splits)
  next
    case 2
    then show ?thesis using assms(3) lt by (auto simp: space_len_def split: if_splits)
  next
    case 3
    have "space_len s \<le> 3" using 3 by (simp add: space_len_def)
    moreover have "space_len s \<noteq> 3" if "r = []"
    proof
      assume "space_len s = 3"
      with 3 that have "0x80 \<le> (of_char c :: nat)" by (auto simp: space_len_def split: if_splits)
      with lt 3 that show False by simp
    qed
    ultimately show ?thesis using 3 by (cases r) auto
  qed
qed

lemma suffix_space_plain:
  assumes "s \<noteq> []" and "plain_char (last s)"
  shows "suffix_space s = None"
proof -
  have "space_len (drop (length s - n) s) \<noteq> n" if "n \<in> {1, 2, 3}" "n \<le> length s" for n
  proof
    assume a: "space_len (drop (length s - n) s) = n"
    have ne: "drop (length s - n) s \<noteq> []" and l: "length (drop (length s - n) s) = n"
      using that assms(1) by auto
    have "last (drop (length s - n) s) = last s" using ne by (simp add: last_drop)
    with space_len_last [of "drop (length s - n) s"] ne assms(2) a that l show False by auto
  qed
  then show ?thesis by (auto simp: suffix_space_def find_None_iff)
qed

lemma TrimSpace_plain:
  assumes "s = [] \<or> plain_char (hd s) \<and> plain_char (last s)"
  shows "TrimSpace s = s"
proof (cases "s = []")
  case False
  then have "space_len s = 0" using assms space_len_plain by (cases s) auto
  then have "trim_left s = s" by (subst trim_left.simps) simp
  moreover have "trim_right_space s = s"
    using suffix_space_plain [OF False] assms False by (subst trim_right_space.simps) simp
  ultimately show ?thesis by (simp add: TrimSpace_def)
qed (simp add: TrimSpace_def trim_left.simps trim_right_space.simps suffix_space_def)

end
