(* ===== verification/Report.thy ===== *)
theory Report
  imports Templates GoStrings "HOL-Library.Product_Lexorder"
begin

text \<open>
  How a cluster is reported: the documents of internal/worldgen/jsonstate.go (the values handed
  to \<open>encoding/json\<close>, which is not modelled), \<open>formatQuantity\<close> of viewer.go and the bounding box of
  hexviewer.go.  \<open>sort.Slice\<close> with a strict total order has one possible result, the sorted
  permutation.
\<close>

section \<open>State documents\<close>

record gasDoc =
  gd_Gas :: string
  gd_Percent :: int

record systemDoc =
  sd_ID :: int
  sd_Q :: int
  sd_R :: int
  sd_HomeSystem :: bool

record starDoc =
  std_ID :: int
  std_SystemID :: int
  std_Kind :: string
  std_Color :: string
  std_Size :: int
  std_NumPlanets :: int

record planetDoc =
  pd_ID :: int
  pd_StarID :: int
  pd_Orbit :: int
  pd_Kind :: string
  pd_Diameter :: int
  pd_Density :: rat
  pd_Gravity :: rat
  pd_TemperatureClass :: int
  pd_PressureClass :: int
  pd_Atmosphere :: "gasDoc list"
  pd_MiningDifficulty :: rat

record depositDoc =
  dd_ID :: int
  dd_PlanetID :: int
  dd_Resource :: string
  dd_UnitCode :: string
  dd_Quantity :: int
  dd_YieldPct :: rat
  dd_MiningDifficulty :: rat

record templatePlanetDoc =
  tpd_Kind :: string
  tpd_Diameter :: int
  tpd_Gravity :: int
  tpd_TemperatureClass :: int
  tpd_PressureClass :: int
  tpd_MiningDifficulty :: int
  tpd_Atmosphere :: "gasDoc list"
  tpd_Special :: int

record homeStarTemplateDoc =
  htd_NumPlanets :: int
  htd_Attempts :: int
  htd_BestScore :: int
  htd_Viable :: bool
  htd_ViabilityScore :: int
  htd_Planets :: "templatePlanetDoc list"

record clusterDoc =
  cd_Radius :: int
  cd_Systems :: "systemDoc list"
  cd_Stars :: "starDoc list"
  cd_Planets :: "planetDoc list"
  cd_Deposits :: "depositDoc list"
  cd_HomeStarTemplates :: "homeStarTemplateDoc list"

record stateDoc =
  doc_Seed1 :: int
  doc_Seed2 :: int
  doc_Cluster :: clusterDoc

text \<open>\<open>less\<close> of the sort: percent descending, then gas ascending.\<close>

definition gas_key :: "atmosphericGas \<times> int \<Rightarrow> int \<times> int" where
  "gas_key x = (- snd x, fst x)"

definition sortGasMap :: "gases \<Rightarrow> gasDoc list" where
  "sortGasMap gases =
     map (\<lambda>(g, q). \<lparr>gd_Gas = gas_String g, gd_Percent = q\<rparr>) (sort_key gas_key gases)"

definition templateGasesToDoc :: "templateGas list \<Rightarrow> gasDoc list" where
  "templateGasesToDoc atm = map (\<lambda>g. \<lparr>gd_Gas = gas_String (tg_Gas g), gd_Percent = tg_Percent g\<rparr>) atm"

definition template_planet_doc :: "templatePlanet \<Rightarrow> templatePlanetDoc" where
  "template_planet_doc p =
     \<lparr>tpd_Kind = planetKind_String (tp_Kind p), tpd_Diameter = tp_Diameter p, tpd_Gravity = tp_Gravity p,
      tpd_TemperatureClass = tp_TemperatureClass p, tpd_PressureClass = tp_PressureClass p,
      tpd_MiningDifficulty = tp_MiningDifficulty p, tpd_Atmosphere = templateGasesToDoc (tp_Atmosphere p),
      tpd_Special = tp_Special p\<rparr>"

definition buildHomeStarTemplateDoc :: "homeStarTemplateOutcome \<Rightarrow> homeStarTemplateDoc" where
  "buildHomeStarTemplateDoc o' =
     (let td = \<lparr>htd_NumPlanets = hso_NumPlanets o', htd_Attempts = hso_Attempts o', htd_BestScore = hso_BestScore o',
                htd_Viable = False, htd_ViabilityScore = 0, htd_Planets = []\<rparr> in
      case hso_Template o' of
        None \<Rightarrow> td
      | Some t \<Rightarrow> td\<lparr>htd_Viable := True, htd_ViabilityScore := tmpl_ViabilityScore t,
                    htd_Planets := map template_planet_doc (tmpl_Planets t)\<rparr>)"

text \<open>The loop \<open>for n := 3; n <= 9; n++\<close>, left as soon as \<open>n\<close> is past the slice.\<close>

fun template_docs :: "nat list \<Rightarrow> homeStarTemplateOutcome option list \<Rightarrow> homeStarTemplateDoc list" where
  "template_docs [] os = []"
| "template_docs (n # ns) os =
     (if n \<ge> length os then []
      else case os ! n of
        None \<Rightarrow> template_docs ns os
      | Some o' \<Rightarrow> buildHomeStarTemplateDoc o' # template_docs ns os)"

definition system_doc :: "system \<Rightarrow> systemDoc" where
  "system_doc s = \<lparr>sd_ID = sys_ID s, sd_Q = hexQ (sys_Hex s), sd_R = hexR (sys_Hex s), sd_HomeSystem = sys_HomeSystem s\<rparr>"

definition star_doc :: "star \<Rightarrow> starDoc" where
  "star_doc s = \<lparr>std_ID = star_ID s, std_SystemID = star_SystemID s, std_Kind = starType_String (star_Kind s),
     std_Color = starColor_String (star_Color s), std_Size = star_Size s, std_NumPlanets = star_NumPlanets s\<rparr>"

definition planet_doc :: "planet \<Rightarrow> planetDoc" where
  "planet_doc p = \<lparr>pd_ID = planet_ID p, pd_StarID = planet_StarID p, pd_Orbit = planet_Orbit p,
     pd_Kind = planetKind_String (planet_Kind p), pd_Diameter = planet_Diameter p, pd_Density = planet_Density p,
     pd_Gravity = planet_Gravity p, pd_TemperatureClass = planet_TemperatureClass p,
     pd_PressureClass = planet_PressureClass p, pd_Atmosphere = sortGasMap (planet_Gases p),
     pd_MiningDifficulty = planet_MiningDifficulty p\<rparr>"

definition deposit_doc :: "deposit \<Rightarrow> depositDoc" where
  "deposit_doc d = \<lparr>dd_ID = dep_ID d, dd_PlanetID = dep_PlanetID d, dd_Resource = resource_String (dep_Resource d),
     dd_UnitCode = resource_UnitCode (dep_Resource d), dd_Quantity = dep_Quantity d,
     dd_YieldPct = dep_YieldPct d, dd_MiningDifficulty = dep_MiningDifficulty d\<rparr>"

definition buildClusterDoc :: "cluster \<Rightarrow> clusterDoc" where
  "buildClusterDoc g =
     \<lparr>cd_Radius = cl_Radius g,
      cd_Systems = map system_doc (cl_Systems g),
      cd_Stars = map star_doc (cl_Stars g),
      cd_Planets = map planet_doc (cl_Planets g),
      cd_Deposits = map deposit_doc (cl_Deposits g),
      cd_HomeStarTemplates = template_docs [3..<10] (cl_HomeStarTemplates g)\<rparr>"

definition empty_cluster_doc :: clusterDoc where
  "empty_cluster_doc = \<lparr>cd_Radius = 0, cd_Systems = [], cd_Stars = [], cd_Planets = [], cd_Deposits = [], cd_HomeStarTemplates = []\<rparr>"

record simulationOutcome =
  so_Seed1 :: u64
  so_Seed2 :: u64
  so_Cluster :: "cluster option"

definition buildStateDoc :: "simulationOutcome \<Rightarrow> stateDoc" where
  "buildStateDoc s =
     \<lparr>doc_Seed1 = uint (so_Seed1 s), doc_Seed2 = uint (so_Seed2 s),
      doc_Cluster = (case so_Cluster s of None \<Rightarrow> empty_cluster_doc | Some c \<Rightarrow> buildClusterDoc c)\<rparr>"

section \<open>The HTML report\<close>

text \<open>\<open>for i, c := range s\<close> of \<open>formatQuantity\<close>, with \<open>k = n - i\<close> characters left.\<close>

fun group_digits :: "bool \<Rightarrow> string \<Rightarrow> string" where
  "group_digits started [] = []"
| "group_digits started (c # s) =
     (if started \<and> length (c # s) mod 3 = 0 then [CHR '','', c] else [c]) @ group_digits True s"

definition formatQuantity :: "int \<Rightarrow> string" where
  "formatQuantity q = (let s = itoa q in if length s \<le> 3 then s else group_digits False s)"

definition gasMixLabel :: "gases \<Rightarrow> string option" where
  "gasMixLabel gases =
     (if length gases = 0 then None
      else Some (Join (map (\<lambda>(g, q). gas_String g @ '' '' @ itoa q @ ''%'') (sort_key gas_key gases)) '', ''))"

record viewerSystem =
  vs_Hex :: axial
  vs_Stars :: int

text \<open>\<open>ToHTML\<close>: the stars of a system are counted through \<open>starCounts\<close>.\<close>

definition viewer_systems :: "cluster \<Rightarrow> viewerSystem list" where
  "viewer_systems g =
     (let starCounts = fold (\<lambda>s m. bump_count (star_SystemID s) m) (cl_Stars g) []
      in map (\<lambda>s. \<lparr>vs_Hex = sys_Hex s,
                   vs_Stars = (case map_of starCounts (sys_ID s) of None \<Rightarrow> 0 | Some n \<Rightarrow> n)\<rparr>) (cl_Systems g))"

text \<open>The grid of \<open>SystemsToHTML\<close>: cells keyed by column and row, and the size of the grid.\<close>

definition grid_cells :: "viewerSystem list \<Rightarrow> ((int \<times> int) \<rightharpoonup> int) \<times> int \<times> int" where
  "grid_cells systems =
     (case systems of
        [] \<Rightarrow> (Map.empty, 1, 1)
      | s0 # rest \<Rightarrow>
          let minQ = fold (\<lambda>s m. if hexQ (vs_Hex s) < m then hexQ (vs_Hex s) else m) rest (hexQ (vs_Hex s0));
              maxQ = fold (\<lambda>s m. if hexQ (vs_Hex s) > m then hexQ (vs_Hex s) else m) rest (hexQ (vs_Hex s0));
              minR = fold (\<lambda>s m. if hexR (vs_Hex s) < m then hexR (vs_Hex s) else m) rest (hexR (vs_Hex s0));
              maxR = fold (\<lambda>s m. if hexR (vs_Hex s) > m then hexR (vs_Hex s) else m) rest (hexR (vs_Hex s0));
              cells = fold (\<lambda>s m. m((hexQ (vs_Hex s) - minQ + 1, hexR (vs_Hex s) - minR + 1) \<mapsto> vs_Stars s))
                        systems Map.empty
          in (cells, maxQ - minQ + 3, maxR - minR + 3))"

section \<open>The document does not depend on the order of a map\<close>

lemma gas_key_inj: "inj_on gas_key A"
  by (rule inj_onI) (auto simp: gas_key_def prod_eq_iff)

lemma sortGasMap_mset: "mset m = mset m' \<Longrightarrow> sortGasMap m = sortGasMap m'"
  unfolding sortGasMap_def by (rule arg_cong [OF sort_key_eq_sort_key [OF _ gas_key_inj]])

lemma sortGasMap_order:
  "sorted_wrt (\<lambda>a b. gd_Percent b \<le> gd_Percent a) (sortGasMap m)"
proof -
  have "sorted_wrt (\<lambda>x y. gas_key x \<le> gas_key y) (sort_key gas_key m)"
    using sorted_sort_key [of gas_key m] by (simp only: sorted_wrt_map)
  then have "sorted_wrt (\<lambda>x y. snd y \<le> snd x) (sort_key gas_key m)"
    by (rule sorted_wrt_mono_rel [rotated]) (simp add: gas_key_def less_eq_prod_def, linarith)
  then show ?thesis unfolding sortGasMap_def sorted_wrt_map
    by (rule sorted_wrt_mono_rel [rotated]) (simp add: case_prod_beta)
qed

lemma sortGasMap_content:
  "mset (sortGasMap m) = image_mset (\<lambda>(g, q). \<lparr>gd_Gas = gas_String g, gd_Percent = q\<rparr>) (mset m)"
  by (simp add: sortGasMap_def)

section \<open>Quantities are grouped in threes\<close>

lemma group_digits_digits: "CHR '','' \<notin> set s \<Longrightarrow> filter (\<lambda>c. c \<noteq> CHR '','') (group_digits b s) = s"
  by (induction b s rule: group_digits.induct) auto

lemma itoa_no_comma: "CHR '','' \<notin> set (itoa q)"
  using utoa_chars [of "CHR '',''"] by (auto simp: itoa_def)

text \<open>A comma at every fourth position from the right end, and nowhere else.\<close>

definition grouped :: "string \<Rightarrow> bool" where
  "grouped s \<longleftrightarrow> (\<forall>i < length s. (s ! i = CHR '','') = ((length s - i) mod 4 = 0))"

lemma grouped_Cons: "grouped (c # s) \<longleftrightarrow> (c = CHR '','') = (Suc (length s) mod 4 = 0) \<and> grouped s"
  by (simp add: grouped_def All_less_Suc2)

lemma group_digits_grouped:
  assumes "CHR '','' \<notin> set s"
  shows "length (group_digits True s) = length s + length s div 3 \<and> grouped (group_digits True s)"
  using assms
proof (induction s)
  case Nil
  then show ?case by (simp add: grouped_def)
next
  case (Cons c s)
  let ?n = "length s"
  have IH: "length (group_digits True s) = ?n + ?n div 3" "grouped (group_digits True s)" using Cons by auto
  have c: "c \<noteq> CHR '',''" using Cons.prems by auto
  have a: "Suc (?n + ?n div 3) mod 4 \<noteq> 0" by presburger
  show ?case
  proof (cases "Suc ?n mod 3 = 0")
    case True
    then have "Suc (Suc (?n + ?n div 3)) mod 4 = 0" and "Suc ?n div 3 = Suc (?n div 3)" by presburger+
    with True IH a c show ?thesis by (simp add: grouped_Cons)
  next
    case False
    then have "Suc ?n div 3 = ?n div 3" by presburger
    with False IH a c show ?thesis by (simp add: grouped_Cons)
  qed
qed

lemma formatQuantity_grouped: "0 \<le> q \<Longrightarrow> grouped (formatQuantity q)"
proof -
  have nc: "CHR '','' \<notin> set (itoa q)" by (rule itoa_no_comma)
  have short: "grouped s" if "length s \<le> 3" "CHR '','' \<notin> set s" for s
    using that by (auto simp: grouped_def) (metis nth_mem)
  show ?thesis
  proof (cases "length (itoa q) \<le> 3")
    case True
    with short nc show ?thesis by (simp add: formatQuantity_def Let_def)
  next
    case False
    then obtain c s where s: "itoa q = c # s" by (cases "itoa q") auto
    have "Suc (length s + length s div 3) mod 4 \<noteq> 0" by presburger
    then show ?thesis using False nc group_digits_grouped [of s]
      by (auto simp: formatQuantity_def Let_def s grouped_Cons)
  qed
qed

lemma formatQuantity_digits: "filter (\<lambda>c. c \<noteq> CHR '','') (formatQuantity q) = itoa q"
  using group_digits_digits [OF itoa_no_comma, of False q] itoa_no_comma [of q]
  by (auto simp: formatQuantity_def Let_def filter_id_conv)

section \<open>Every system has a cell of its own in the grid\<close>

lemma fold_min:
  fixes f :: "'a \<Rightarrow> int"
  shows "fold (\<lambda>s m. if f s < m then f s else m) xs a \<le> a \<and>
    (\<forall>x \<in> set xs. fold (\<lambda>s m. if f s < m then f s else m) xs a \<le> f x)"
  by (induction xs arbitrary: a) (auto, (smt (verit))+)

lemma fold_max:
  fixes f :: "'a \<Rightarrow> int"
  shows "a \<le> fold (\<lambda>s m. if f s > m then f s else m) xs a \<and>
    (\<forall>x \<in> set xs. f x \<le> fold (\<lambda>s m. if f s > m then f s else m) xs a)"
  by (induction xs arbitrary: a) (auto, (smt (verit))+)

lemma fold_upd:
  assumes "inj_on k (set xs)" and "x \<in> set xs" and "distinct xs"
  shows "fold (\<lambda>s m. m(k s \<mapsto> v s)) xs m0 (k x) = Some (v x)"
  using assms
proof (induction xs arbitrary: m0)
  case (Cons y ys)
  have other: "fold (\<lambda>s m. m(k s \<mapsto> v s)) ys m (k y) = m (k y)" if "y \<notin> set ys" "inj_on k (set (y # ys))" for m
    using that
  proof (induction ys arbitrary: m)
    case (Cons z zs)
    then show ?case by (auto simp: inj_on_def)
  qed simp
  show ?case
  proof (cases "x = y")
    case True
    then show ?thesis using Cons.prems by (simp add: other del: fun_upd_apply) simp
  next
    case False
    then show ?thesis using Cons by auto
  qed
qed simp

lemma grid_cells_complete:
  assumes "distinct (map vs_Hex systems)" and "s \<in> set systems"
  shows "case grid_cells systems of (cells, cols, rows) \<Rightarrow>
    \<exists>col row. 1 \<le> col \<and> col \<le> cols - 2 \<and> 1 \<le> row \<and> row \<le> rows - 2 \<and> cells (col, row) = Some (vs_Stars s)"
proof -
  obtain s0 rest where ss: "systems = s0 # rest" using assms(2) by (cases systems) auto
  define minQ where "minQ = fold (\<lambda>s m. if hexQ (vs_Hex s) < m then hexQ (vs_Hex s) else m) rest (hexQ (vs_Hex s0))"
  define maxQ where "maxQ = fold (\<lambda>s m. if hexQ (vs_Hex s) > m then hexQ (vs_Hex s) else m) rest (hexQ (vs_Hex s0))"
  define minR where "minR = fold (\<lambda>s m. if hexR (vs_Hex s) < m then hexR (vs_Hex s) else m) rest (hexR (vs_Hex s0))"
  define maxR where "maxR = fold (\<lambda>s m. if hexR (vs_Hex s) > m then hexR (vs_Hex s) else m) rest (hexR (vs_Hex s0))"
  define k where "k = (\<lambda>s :: viewerSystem. (hexQ (vs_Hex s) - minQ + 1, hexR (vs_Hex s) - minR + 1))"
  have "minQ \<le> hexQ (vs_Hex s) \<and> hexQ (vs_Hex s) \<le> maxQ \<and> minR \<le> hexR (vs_Hex s) \<and> hexR (vs_Hex s) \<le> maxR"
    using assms(2) fold_min [of "\<lambda>s. hexQ (vs_Hex s)" rest "hexQ (vs_Hex s0)"] fold_max [of "hexQ (vs_Hex s0)" "\<lambda>s. hexQ (vs_Hex s)" rest]
      fold_min [of "\<lambda>s. hexR (vs_Hex s)" rest "hexR (vs_Hex s0)"] fold_max [of "hexR (vs_Hex s0)" "\<lambda>s. hexR (vs_Hex s)" rest]
    by (auto simp: ss minQ_def maxQ_def minR_def maxR_def)
  moreover have "fold (\<lambda>s m. m(k s \<mapsto> vs_Stars s)) systems Map.empty (k s) = Some (vs_Stars s)"
  proof (rule fold_upd)
    show "inj_on k (set systems)"
      using assms(1) by (auto simp: inj_on_def k_def distinct_map intro: axial.expand)
    show "distinct systems" using assms(1) by (simp add: distinct_map)
  qed (rule assms(2))
  ultimately show ?thesis
    by (simp add: ss grid_cells_def k_def Let_def flip: minQ_def maxQ_def minR_def maxR_def)
      (rule exI [of _ "hexQ (vs_Hex s) - minQ + 1"], simp, rule exI [of _ "hexR (vs_Hex s) - minR + 1"], simp)
qed

lemma viewer_systems_counts:
  "viewer_systems c = map (\<lambda>s. \<lparr>vs_Hex = sys_Hex s, vs_Stars = int (length (StarsForSystem c (sys_ID s)))\<rparr>) (cl_Systems c)"
  using fold_bump_count(2) [of "[] :: (int \<times> int) list" star_SystemID "cl_Stars c"]
  by (auto simp: viewer_systems_def Let_def StarsForSystem_def filter_empty_conv image_iff)

section \<open>Properties\<close>

text \<open>The document of an atmosphere does not depend on the order in which the map is iterated; it
  lists exactly the gases of the map, the larger percentage first.\<close>

theorem sortGasMap_deterministic:
  assumes "mset m = mset m'"
  shows "sortGasMap m = sortGasMap m' \<and> sorted_wrt (\<lambda>a b. gd_Percent b \<le> gd_Percent a) (sortGasMap m) \<and>
    mset (sortGasMap m) = image_mset (\<lambda>(g, q). \<lparr>gd_Gas = gas_String g, gd_Percent = q\<rparr>) (mset m)"
  by (intro conjI sortGasMap_mset [OF assms] sortGasMap_order sortGasMap_content)

theorem sortGasMap_deterministic_witness:
  "sortGasMap [(5, 30), (7, 70)] = sortGasMap [(7, 70), (5, 30)] \<and>
   sorted_wrt (\<lambda>a b. gd_Percent b \<le> gd_Percent a) (sortGasMap [(5, 30), (7, 70)]) \<and>
   mset (sortGasMap [(5, 30), (7, 70)]) =
     image_mset (\<lambda>(g, q). \<lparr>gd_Gas = gas_String g, gd_Percent = q\<rparr>) (mset [(5, 30), (7, 70)])"
  by (rule sortGasMap_deterministic) simp

text \<open>\<open>formatQuantity\<close> prints the decimal digits of a quantity with a comma at every fourth position
  from the right and nowhere else.\<close>

theorem formatQuantity_correct:
  assumes "0 \<le> q"
  shows "filter (\<lambda>c. c \<noteq> CHR '','') (formatQuantity q) = itoa q \<and> grouped (formatQuantity q)"
  using formatQuantity_digits formatQuantity_grouped [OF assms] by simp

theorem formatQuantity_correct_witness:
  "filter (\<lambda>c. c \<noteq> CHR '','') (formatQuantity 1234567) = itoa 1234567 \<and> grouped (formatQuantity 1234567)"
  by (rule formatQuantity_correct) simp

text \<open>In the HTML map every system on a hex of its own keeps a cell of the grid, inside the
  border, that holds its number of stars.\<close>

theorem grid_cells_correct:
  assumes "distinct (map vs_Hex systems)" and "s \<in> set systems"
  shows "case grid_cells systems of (cells, cols, rows) \<Rightarrow>
    \<exists>col row. 1 \<le> col \<and> col \<le> cols - 2 \<and> 1 \<le> row \<and> row \<le> rows - 2 \<and> cells (col, row) = Some (vs_Stars s)"
  by (rule grid_cells_complete [OF assms])

theorem grid_cells_correct_witness:
  "case grid_cells [\<lparr>vs_Hex = Axial 0 0, vs_Stars = 1\<rparr>, \<lparr>vs_Hex = Axial (- 2) 1, vs_Stars = 3\<rparr>] of (cells, cols, rows) \<Rightarrow>
    \<exists>col row. 1 \<le> col \<and> col \<le> cols - 2 \<and> 1 \<le> row \<and> row \<le> rows - 2 \<and>
      cells (col, row) = Some (vs_Stars \<lparr>vs_Hex = Axial (- 2) 1, vs_Stars = 3\<rparr>)"
  by (rule grid_cells_correct) simp_all

end
