(* ===== verification/Documents.thy ===== *)
theory Documents
  imports Report Worldgen
begin

text \<open>
  What the state document of a simulation is worth to its reader: \<open>read_state\<close> reads the fields of the
  documents by the meaning of their names and rebuilds the outcome, with the name of a kind, a color, a gas or a
  resource looked up in its enumeration and the unit of a deposit checked.  The document of every generated cluster can be read back; only the
  order of a gas map, which a Go map does not have, is not kept, and the document does not depend on it.
\<close>

section \<open>Reading a document\<close>

definition named :: "('a \<Rightarrow> string) \<Rightarrow> 'a list \<Rightarrow> string \<Rightarrow> 'a option" where
  "named name xs s = find (\<lambda>x. name x = s) xs"

definition read_starType :: "string \<Rightarrow> starType option" where
  "read_starType = named starType_String [StarDwarf, StarDegenerate, StarMainSequence, StarGiant]"

definition read_starColor :: "string \<Rightarrow> starColor option" where
  "read_starColor = named starColor_String
     [ColorBlue, ColorBlueWhite, ColorWhite, ColorYellowWhite, ColorYellow, ColorOrange, ColorRed]"

definition read_planetKind :: "string \<Rightarrow> planetKind option" where
  "read_planetKind = named planetKind_String [KindRocky, KindGasGiant, KindAsteroidBelt]"

definition read_resource :: "string \<Rightarrow> resource option" where
  "read_resource = named resource_String [Fuel, Gold, Metal, NonMetal]"

definition read_gas :: "gasDoc \<Rightarrow> (atmosphericGas \<times> int) option" where
  "read_gas d = map_option (\<lambda>g. (g, gd_Percent d)) (named gas_String [1..13] (gd_Gas d))"

definition read_list :: "('a \<Rightarrow> 'b option) \<Rightarrow> 'a list \<Rightarrow> 'b list option" where
  "read_list f ds = those (map f ds)"

definition read_system :: "systemDoc \<Rightarrow> system option" where
  "read_system d = Some \<lparr>sys_ID = sd_ID d, sys_Hex = Axial (sd_Q d) (sd_R d), sys_HomeSystem = sd_HomeSystem d\<rparr>"

definition read_star :: "starDoc \<Rightarrow> star option" where
  "read_star d = Option.bind (read_starType (std_Kind d)) (\<lambda>kind.
     map_option (\<lambda>color. \<lparr>star_ID = std_ID d, star_SystemID = std_SystemID d, star_Kind = kind, star_Color = color,
       star_Size = std_Size d, star_NumPlanets = std_NumPlanets d\<rparr>) (read_starColor (std_Color d)))"

definition read_planet :: "planetDoc \<Rightarrow> planet option" where
  "read_planet d = Option.bind (read_planetKind (pd_Kind d)) (\<lambda>kind.
     map_option (\<lambda>gases. \<lparr>planet_ID = pd_ID d, planet_StarID = pd_StarID d, planet_Orbit = pd_Orbit d, planet_Kind = kind,
       planet_Diameter = pd_Diameter d, planet_Density = pd_Density d, planet_Gravity = pd_Gravity d,
       planet_TemperatureClass = pd_TemperatureClass d, planet_PressureClass = pd_PressureClass d, planet_Special = no_special,
       planet_Gases = gases, planet_MiningDifficulty = pd_MiningDifficulty d\<rparr>) (read_list read_gas (pd_Atmosphere d)))"

definition read_deposit :: "depositDoc \<Rightarrow> deposit option" where
  "read_deposit d = Option.bind (read_resource (dd_Resource d)) (\<lambda>res.
     if dd_UnitCode d \<noteq> resource_UnitCode res then None
     else Some \<lparr>dep_ID = dd_ID d, dep_PlanetID = dd_PlanetID d, dep_Resource = res,
       dep_Quantity = dd_Quantity d, dep_YieldPct = dd_YieldPct d, dep_MiningDifficulty = dd_MiningDifficulty d\<rparr>)"

definition read_templatePlanet :: "templatePlanetDoc \<Rightarrow> templatePlanet option" where
  "read_templatePlanet d = Option.bind (read_planetKind (tpd_Kind d)) (\<lambda>kind.
     map_option (\<lambda>gases. \<lparr>tp_Kind = kind, tp_Diameter = tpd_Diameter d, tp_Gravity = tpd_Gravity d,
       tp_TemperatureClass = tpd_TemperatureClass d, tp_PressureClass = tpd_PressureClass d,
       tp_MiningDifficulty = tpd_MiningDifficulty d,
       tp_Atmosphere = map (\<lambda>(g, q). \<lparr>tg_Gas = g, tg_Percent = q\<rparr>) gases, tp_Special = tpd_Special d\<rparr>)
     (read_list read_gas (tpd_Atmosphere d)))"

definition read_outcome :: "homeStarTemplateDoc \<Rightarrow> homeStarTemplateOutcome option" where
  "read_outcome d = map_option (\<lambda>planets. \<lparr>hso_NumPlanets = htd_NumPlanets d,
     hso_Template = (if htd_Viable d then Some \<lparr>tmpl_NumPlanets = htd_NumPlanets d, tmpl_Planets = planets,
       tmpl_ViabilityScore = htd_ViabilityScore d\<rparr> else None),
     hso_Attempts = htd_Attempts d, hso_BestScore = htd_BestScore d\<rparr>) (read_list read_templatePlanet (htd_Planets d))"

definition read_cluster :: "clusterDoc \<Rightarrow> cluster option" where
  "read_cluster d =
     Option.bind (read_list read_system (cd_Systems d)) (\<lambda>systems.
     Option.bind (read_list read_star (cd_Stars d)) (\<lambda>stars.
     Option.bind (read_list read_planet (cd_Planets d)) (\<lambda>planets.
     Option.bind (read_list read_deposit (cd_Deposits d)) (\<lambda>deposits.
     map_option (\<lambda>outcomes. \<lparr>cl_Radius = cd_Radius d, cl_Systems = systems, cl_Stars = stars, cl_Planets = planets,
       cl_Deposits = deposits, cl_HomeStarTemplates = [None, None, None] @ map Some outcomes\<rparr>)
     (read_list read_outcome (cd_HomeStarTemplates d))))))"

definition read_state :: "stateDoc \<Rightarrow> simulationOutcome option" where
  "read_state d = map_option (\<lambda>c. \<lparr>so_Seed1 = word_of_int (doc_Seed1 d), so_Seed2 = word_of_int (doc_Seed2 d), so_Cluster = Some c\<rparr>)
     (read_cluster (doc_Cluster d))"

section \<open>Reading what was written\<close>

named_theorems reads "documents that are read back"

lemma read_list_written [reads]: "(\<And>x. x \<in> set xs \<Longrightarrow> f (w x) = Some (g x)) \<Longrightarrow> read_list f (map w xs) = Some (map g xs)"
  by (induction xs) (auto simp: read_list_def)

lemma read_starType_name [reads]: "read_starType (starType_String k) = Some k"
  by (cases k) (simp_all add: read_starType_def named_def)

lemma read_starColor_name [reads]: "read_starColor (starColor_String k) = Some k"
  by (cases k) (simp_all add: read_starColor_def named_def)

lemma read_planetKind_name [reads]: "read_planetKind (planetKind_String k) = Some k"
  by (cases k) (simp_all add: read_planetKind_def named_def)

lemma read_resource_name [reads]: "read_resource (resource_String k) = Some k"
  by (cases k) (simp_all add: read_resource_def named_def)

lemma gas_names: "list_all (\<lambda>g. named gas_String [1..13] (gas_String g) = Some g) [1..13]"
  by code_simp

lemma read_gas_written [reads]:
  "1 \<le> g \<Longrightarrow> g \<le> 13 \<Longrightarrow> read_gas \<lparr>gd_Gas = gas_String g, gd_Percent = q\<rparr> = Some (g, q)"
proof -
  assume "1 \<le> g" "g \<le> 13"
  then have "g \<in> set [1..13]" by simp
  with gas_names have "named gas_String [1..13] (gas_String g) = Some g" unfolding list_all_iff by blast
  then show ?thesis by (simp add: read_gas_def)
qed

definition known_gases :: "gases \<Rightarrow> bool" where
  "known_gases gs \<longleftrightarrow> (\<forall>(g, q) \<in> set gs. 1 \<le> g \<and> g \<le> 13)"

lemma known_gases_Nil [simp]: "known_gases []"
  by (simp add: known_gases_def)

lemma read_sorted_gases [reads]:
  assumes "known_gases gs"
  shows "read_list read_gas (sortGasMap gs) = Some (sort_key gas_key gs)"
proof -
  have "read_list read_gas (map (\<lambda>(g, q). \<lparr>gd_Gas = gas_String g, gd_Percent = q\<rparr>) (sort_key gas_key gs)) =
      Some (map (\<lambda>x. x) (sort_key gas_key gs))"
    using assms by (intro read_list_written) (auto simp: known_gases_def read_gas_written)
  then show ?thesis by (simp add: sortGasMap_def)
qed

lemma read_template_gases [reads]:
  assumes "known_gases (tgas_pairs gs)"
  shows "read_list read_gas (templateGasesToDoc gs) = Some (tgas_pairs gs)"
  unfolding templateGasesToDoc_def tgas_pairs_def
  using assms by (intro read_list_written) (auto simp: known_gases_def tgas_pairs_def read_gas_written)

lemma read_system_written [reads]: "read_system (system_doc s) = Some s"
  by (simp add: read_system_def system_doc_def)

lemma read_star_written [reads]: "read_star (star_doc s) = Some s"
  by (simp add: read_star_def star_doc_def reads)

lemma read_deposit_written [reads]: "read_deposit (deposit_doc d) = Some d"
  by (simp add: read_deposit_def deposit_doc_def reads)

definition sorted_gases :: "planet \<Rightarrow> planet" where
  "sorted_gases p = p\<lparr>planet_Gases := sort_key gas_key (planet_Gases p)\<rparr>"

lemma read_planet_written [reads]:
  "known_gases (planet_Gases p) \<Longrightarrow> planet_Special p = no_special \<Longrightarrow> read_planet (planet_doc p) = Some (sorted_gases p)"
  by (cases p) (simp add: read_planet_def planet_doc_def sorted_gases_def reads)

lemma tgas_pairs_back: "map (\<lambda>(g, q). \<lparr>tg_Gas = g, tg_Percent = q\<rparr>) (tgas_pairs gs) = gs"
  by (induction gs) (simp_all add: tgas_pairs_def)

lemma read_templatePlanet_written [reads]:
  "known_gases (tgas_pairs (tp_Atmosphere p)) \<Longrightarrow> read_templatePlanet (template_planet_doc p) = Some p"
  by (simp add: read_templatePlanet_def template_planet_doc_def reads tgas_pairs_back)

section \<open>Generated clusters\<close>

lemma gases_ok_known: "gases_ok gs \<Longrightarrow> known_gases gs"
  by (auto simp: gases_ok_def known_gases_def)

lemma planet_ok_known: "planet_ok p \<Longrightarrow> known_gases (planet_Gases p) \<and> planet_Special p = no_special"
  by (auto simp: planet_ok_def Let_def gases_ok_known split: if_splits)

lemma template_planets_known:
  assumes "template_ok n t" and "p \<in> set (tmpl_Planets t)"
  shows "known_gases (tgas_pairs (tp_Atmosphere p))"
proof -
  have "tplanet_ok p" using assms by (simp add: template_ok_def template_list_ok_def list_all_iff)
  then have "gases_ok (tgas_pairs (tp_Atmosphere p)) \<or> tp_Atmosphere p = []"
    unfolding tplanet_ok_def earth_like_ok_def ordinary_ok_def by meson
  then show ?thesis by (auto simp: gases_ok_known tgas_pairs_def)
qed

lemma read_outcome_written:
  assumes "slot_ok w n s"
  shows "read_outcome (buildHomeStarTemplateDoc s) = Some s"
proof (cases "hso_Template s")
  case None
  then show ?thesis by (simp add: read_outcome_def buildHomeStarTemplateDoc_def Let_def read_list_def)
next
  case (Some t)
  with assms have t: "template_ok n t" and n: "hso_NumPlanets s = n" "tmpl_NumPlanets t = n"
    by (simp_all add: slot_ok_def template_ok_def)
  have "read_list read_templatePlanet (map template_planet_doc (tmpl_Planets t)) = Some (map (\<lambda>p. p) (tmpl_Planets t))"
    using template_planets_known [OF t] by (intro read_list_written read_templatePlanet_written)
  with Some n show ?thesis by (simp add: read_outcome_def buildHomeStarTemplateDoc_def Let_def)
qed

lemma template_docs_written:
  assumes "outcomes_ok w b os"
  shows "\<exists>ss. os = [None, None, None] @ map Some ss \<and> template_docs [3..<10] os = map buildHomeStarTemplateDoc ss \<and>
    (\<forall>s \<in> set ss. \<exists>n. slot_ok w n s)"
proof -
  have l: "length os = 10" and ok: "\<And>i. i < 10 \<Longrightarrow> outcome_ok w i (os ! i)"
    using assms by (auto simp: outcomes_ok_def list_all2_conv_all_nth)
  have low: "os ! i = None" if "i < 3" for i using ok [of i] that by (simp add: outcome_ok_def)
  have high: "os ! i = Some (the (os ! i)) \<and> slot_ok w (int i) (the (os ! i))" if "3 \<le> i" "i < 10" for i
    using ok [of i] that by (simp add: outcome_ok_def split: option.splits)
  let ?ss = "map (\<lambda>i. the (os ! i)) [3..<10]"
  have "os = map ((!) os) [0..<10]" using l by (metis map_nth)
  also have "[0..<10] = [0..<3] @ [3..<10]" using upt_add_eq_append [of 0 3 7] by simp
  also have "map ((!) os) ([0..<3] @ [3..<10]) = map ((!) os) [0..<3] @ map ((!) os) [3..<10]" by (rule map_append)
  also have "map ((!) os) [0..<3] = [None, None, None]" using low by (simp add: upt_rec)
  also have "map ((!) os) [3..<10] = map Some ?ss" using high by simp
  finally have os: "os = [None, None, None] @ map Some ?ss" .
  have "template_docs is os = map (\<lambda>i. buildHomeStarTemplateDoc (the (os ! i))) is" if "set is \<subseteq> {3..<10}" for "is"
    using that
  proof (induction "is")
    case (Cons i js)
    then have "3 \<le> i" "i < 10" by auto
    from high [OF this] obtain s where "os ! i = Some s" by blast
    with Cons l show ?case by simp
  qed simp
  from this [of "[3..<10]"] have "template_docs [3..<10] os = map buildHomeStarTemplateDoc ?ss" by (simp add: comp_def)
  moreover have "\<forall>s \<in> set ?ss. \<exists>n. slot_ok w n s"
  proof
    fix s
    assume "s \<in> set ?ss"
    then obtain i where "3 \<le> i" "i < 10" "s = the (os ! i)" unfolding set_map set_upt by auto
    with high [of i] show "\<exists>n. slot_ok w n s" by blast
  qed
  ultimately show ?thesis using os by blast
qed

definition sorted_atmospheres :: "cluster \<Rightarrow> cluster" where
  "sorted_atmospheres c = c\<lparr>cl_Planets := map sorted_gases (cl_Planets c)\<rparr>"

lemma read_cluster_written:
  assumes "\<forall>p \<in> set (cl_Planets c). planet_ok p" and "outcomes_ok w b (cl_HomeStarTemplates c)"
  shows "read_cluster (buildClusterDoc c) = Some (sorted_atmospheres c)"
proof -
  obtain ss where ss: "cl_HomeStarTemplates c = [None, None, None] @ map Some ss"
    "template_docs [3..<10] (cl_HomeStarTemplates c) = map buildHomeStarTemplateDoc ss" "\<forall>s \<in> set ss. \<exists>n. slot_ok w n s"
    using template_docs_written [OF assms(2)] by blast
  have lists: "read_list read_system (map system_doc (cl_Systems c)) = Some (map (\<lambda>x. x) (cl_Systems c))"
    "read_list read_star (map star_doc (cl_Stars c)) = Some (map (\<lambda>x. x) (cl_Stars c))"
    "read_list read_deposit (map deposit_doc (cl_Deposits c)) = Some (map (\<lambda>x. x) (cl_Deposits c))"
    "read_list read_planet (map planet_doc (cl_Planets c)) = Some (map sorted_gases (cl_Planets c))"
    "read_list read_outcome (map buildHomeStarTemplateDoc ss) = Some (map (\<lambda>x. x) ss)"
    using assms(1) ss(3) planet_ok_known by (intro read_list_written reads; auto intro: read_outcome_written reads)+
  have doc: "buildClusterDoc c = \<lparr>cd_Radius = cl_Radius c, cd_Systems = map system_doc (cl_Systems c),
      cd_Stars = map star_doc (cl_Stars c), cd_Planets = map planet_doc (cl_Planets c),
      cd_Deposits = map deposit_doc (cl_Deposits c), cd_HomeStarTemplates = map buildHomeStarTemplateDoc ss\<rparr>"
    unfolding buildClusterDoc_def ss(2) ..
  show ?thesis using lists ss(1) unfolding doc
    by (cases c) (simp add: read_cluster_def sorted_atmospheres_def)
qed

text \<open>Two clusters that differ only in the order of the gas maps.\<close>

definition same_planet :: "planet \<Rightarrow> planet \<Rightarrow> bool" where
  "same_planet p q \<longleftrightarrow> p\<lparr>planet_Gases := []\<rparr> = q\<lparr>planet_Gases := []\<rparr> \<and> mset (planet_Gases p) = mset (planet_Gases q)"

definition same_cluster :: "cluster \<Rightarrow> cluster \<Rightarrow> bool" where
  "same_cluster c c' \<longleftrightarrow> c\<lparr>cl_Planets := []\<rparr> = c'\<lparr>cl_Planets := []\<rparr> \<and> list_all2 same_planet (cl_Planets c) (cl_Planets c')"

lemma planet_doc_same: "same_planet p q \<Longrightarrow> planet_doc p = planet_doc q"
  using sortGasMap_mset [of "planet_Gases p" "planet_Gases q"]
  by (cases p; cases q) (simp add: same_planet_def planet_doc_def)

lemma buildClusterDoc_same: "same_cluster c c' \<Longrightarrow> buildClusterDoc c = buildClusterDoc c'"
proof -
  assume s: "same_cluster c c'"
  have "map planet_doc ps = map planet_doc qs" if "list_all2 same_planet ps qs" for ps qs
    using that by (induction rule: list_all2_induct) (simp_all add: planet_doc_same)
  with s show ?thesis by (cases c; cases c') (simp add: same_cluster_def buildClusterDoc_def)
qed

lemma sorted_atmospheres_same: "same_cluster c (sorted_atmospheres c)"
  by (simp add: same_cluster_def sorted_atmospheres_def list_all2_map2 list_all2_same same_planet_def sorted_gases_def)

lemma cluster_planets_ok:
  assumes "cluster_result opts (c\<lparr>cl_HomeStarTemplates := [], cl_Deposits := []\<rparr>, err)" and "p \<in> set (cl_Planets c)"
  shows "planet_ok p"
proof -
  let ?c = "c\<lparr>cl_HomeStarTemplates := [], cl_Deposits := []\<rparr>"
  have ok: "cluster_ok ?c" using assms(1) by (simp add: cluster_result_def Let_def)
  have "set (map star_ID (cl_Stars c)) = {1..int (length (cl_Stars c))}" using ok by (simp add: cluster_ok_def)
  moreover have "planet_StarID p \<in> {1..int (length (cl_Stars c))}" using ok assms(2) by (simp add: cluster_ok_def)
  ultimately have "planet_StarID p \<in> star_ID ` set (cl_Stars c)" by simp
  then obtain s where s: "s \<in> set (cl_Stars c)" "star_ID s = planet_StarID p" by fastforce
  then have "p \<in> set (PlanetsForStar ?c (star_ID s))" using assms(2) by (simp add: PlanetsForStar_def)
  moreover have "star_ok s (PlanetsForStar ?c (star_ID s))" using ok s(1) by (simp add: cluster_ok_def)
  ultimately show ?thesis by (auto simp: star_ok_def rolled_ok_def list_all_iff)
qed

section \<open>Properties\<close>

text \<open>C37.  The state document of every generated cluster is complete: read field by field it gives back the seeds and the
  cluster with all its systems, stars, planets, deposits and home-star templates; and it is deterministic: clusters that
  differ only in the order of their gas maps have the same document.\<close>

theorem state_document_reads_back:
  assumes "apply_options opts default_generator = Inr g" and "gen_desiredRadius g \<le> 2 ^ 29"
  shows "yields (Generate opts) (\<lambda>(c, err). \<exists>c0. c = Some c0 \<and>
      read_state (buildStateDoc \<lparr>so_Seed1 = s1, so_Seed2 = s2, so_Cluster = c\<rparr>) =
        Some \<lparr>so_Seed1 = s1, so_Seed2 = s2, so_Cluster = Some (sorted_atmospheres c0)\<rparr> \<and> same_cluster c0 (sorted_atmospheres c0) \<and>
      (\<forall>c1. same_cluster c0 c1 \<longrightarrow> buildClusterDoc c1 = buildClusterDoc c0))"
  unfolding Generate_def assms(1) sum.case
proof (rule yields_bind, rule yields_conseq [OF yields_run_stages [OF assms(2)]], clarify)
  fix c err
  assume run: "run_ok g (c, err)"
  then obtain c0 where c: "c = Some c0" by (auto simp: run_ok_def split: option.splits)
  have res: "cluster_result (cluster_options g) (c0\<lparr>cl_HomeStarTemplates := [], cl_Deposits := []\<rparr>, err)"
    and ts: "outcomes_ok (gen_viabilityWindow g) (budget_of g) (cl_HomeStarTemplates c0)"
    using run by (simp_all add: run_ok_def c)
  have "read_cluster (buildClusterDoc c0) = Some (sorted_atmospheres c0)"
    using cluster_planets_ok [OF res] by (intro read_cluster_written [OF _ ts]) blast
  then show "yields (ret (c, map_option Inr err)) (\<lambda>(c, err). \<exists>c0. c = Some c0 \<and>
      read_state (buildStateDoc \<lparr>so_Seed1 = s1, so_Seed2 = s2, so_Cluster = c\<rparr>) =
        Some \<lparr>so_Seed1 = s1, so_Seed2 = s2, so_Cluster = Some (sorted_atmospheres c0)\<rparr> \<and> same_cluster c0 (sorted_atmospheres c0) \<and>
      (\<forall>c1. same_cluster c0 c1 \<longrightarrow> buildClusterDoc c1 = buildClusterDoc c0))"
    using buildClusterDoc_same [symmetric]
    by (simp add: c buildStateDoc_def read_state_def sorted_atmospheres_same)
qed

theorem state_document_reads_back_witness:
  "yields (Generate [WithDesiredRadius 3 :: 'e gen_option]) (\<lambda>(c, err). \<exists>c0. c = Some c0 \<and>
      read_state (buildStateDoc \<lparr>so_Seed1 = 1, so_Seed2 = 2, so_Cluster = c\<rparr>) =
        Some \<lparr>so_Seed1 = 1, so_Seed2 = 2, so_Cluster = Some (sorted_atmospheres c0)\<rparr> \<and> same_cluster c0 (sorted_atmospheres c0) \<and>
      (\<forall>c1. same_cluster c0 c1 \<longrightarrow> buildClusterDoc c1 = buildClusterDoc c0))"
  by (rule state_document_reads_back [where g = "default_generator\<lparr>gen_desiredRadius := 3\<rparr>"])
    (simp_all add: WithDesiredRadius_def default_generator_def)

end
