(* ===== verification/Database.thy ===== *)
theory Database
  imports GoStrings
begin

text \<open>
  The database behind the services: the tables of db/schema.sql the services use, and the
  queries of db/sqlc as functions on them.  A service method is a function of the world (the
  committed tables, the clock, the sources of fresh identifiers and random bytes, the mail that
  was sent) that returns an error or a value, and the new world.

  The connection may fail at every statement: \<open>w_faults\<close> says for each coming interaction with
  the outside whether it works (\<open>Healthy\<close>), fails before it has an effect (\<open>Down\<close>), or has its
  effect while the reply is lost (\<open>ReplyLost\<close>).  Every theorem holds for every such sequence.

  Code outside the repository is the parameter \<open>ext\<close>: Unicode lower case, \<open>mail.ParseAddress\<close>,
  PostgreSQL's \<open>lower\<close>, bcrypt, the HTML templates.
\<close>

section \<open>Errors\<close>

datatype sentinel =
    ErrInvalidCredentials | ErrEmailTaken | ErrHandleTaken | ErrInvalidHandle | ErrInvalidEmail
  | ErrInvalidPassword | ErrUserNotFound | ErrInactiveUser | ErrLastAdmin | ErrCannotDeleteSelf
  | ErrInvitationNotFound | ErrInvitationUsed | ErrInvitationExpired | ErrInvitationEmail
  | ErrMailgunNotConfigured | ErrPasswordResetInvalid | ErrAccessRequestsDisabled
  | ErrGameNotFound | ErrInvalidGameName | ErrGameUpdateNotImplemented
  | ErrInvalidTokenType | ErrNoActiveSigningKey | ErrSigningKeyNotFound | ErrSigningKeyUnavailable
  | ErrCannotDeleteActiveKey | ErrNegativeVerificationGrace | ErrTokenExpired

datatype goError =
    Sentinel sentinel
  | NoRows
  | PgError string
  | ConnError
  | ErrorString string
  | Wrap string goError

text \<open>\<open>errors.Is\<close> follows the chain of wrapped errors; \<open>as_pg\<close> is \<open>errors.As\<close> for \<open>*pgconn.PgError\<close>.\<close>

fun errors_is :: "goError \<Rightarrow> goError \<Rightarrow> bool" where
  "errors_is (Wrap m e) t = (Wrap m e = t \<or> errors_is e t)"
| "errors_is e t = (e = t)"

fun as_pg :: "goError \<Rightarrow> string option" where
  "as_pg (Wrap m e) = as_pg e"
| "as_pg (PgError c) = Some c"
| "as_pg e = None"

section \<open>Tables\<close>

type_synonym uuid = nat

record role_row =
  rr_ID :: int
  rr_Name :: string
  rr_Description :: string

record user_row =
  ur_ID :: uuid
  ur_Handle :: string
  ur_Email :: string
  ur_PasswordHash :: string
  ur_IsActive :: bool
  ur_CreatedAt :: int
  ur_UpdatedAt :: int

record key_row =
  kr_ID :: uuid
  kr_TokenType :: string
  kr_Algorithm :: string
  kr_Secret :: "nat list"
  kr_State :: string
  kr_VerifyUntil :: "int option"
  kr_CreatedAt :: int
  kr_UpdatedAt :: int

record invitation_row =
  ir_ID :: uuid
  ir_Email :: string
  ir_Code :: string
  ir_InvitedBy :: uuid
  ir_UsedBy :: "uuid option"
  ir_UsedAt :: "int option"
  ir_ExpiresAt :: int
  ir_ArchivedAt :: "int option"
  ir_CreatedAt :: int

record reset_row =
  pr_ID :: uuid
  pr_UserID :: uuid
  pr_Code :: string
  pr_ExpiresAt :: int
  pr_UsedAt :: "int option"
  pr_CreatedAt :: int

record game_row =
  gr_ID :: int
  gr_Name :: string
  gr_Status :: string
  gr_CurrentTurn :: int
  gr_CreatedAt :: int
  gr_UpdatedAt :: int

record db =
  db_roles :: "role_row list"
  db_users :: "user_row list"
  db_user_roles :: "(uuid \<times> int) list"
  db_keys :: "key_row list"
  db_invitations :: "invitation_row list"
  db_resets :: "reset_row list"
  db_games :: "game_row list"

text \<open>The roles the migrations insert, in the order of their serial identifiers.\<close>

definition RoleUser :: string where "RoleUser = ''user''"
definition RoleAdmin :: string where "RoleAdmin = ''admin''"
definition RoleTester :: string where "RoleTester = ''tester''"

definition initial_db :: db where
  "initial_db = \<lparr>db_roles = [\<lparr>rr_ID = 1, rr_Name = ''user'', rr_Description = ''Authenticated user''\<rparr>,
       \<lparr>rr_ID = 2, rr_Name = ''admin'', rr_Description = ''Administrator''\<rparr>,
       \<lparr>rr_ID = 3, rr_Name = ''tester'', rr_Description = ''Seeded test account''\<rparr>],
     db_users = [], db_user_roles = [], db_keys = [], db_invitations = [], db_resets = [], db_games = []\<rparr>"

section \<open>The world and its effects\<close>

datatype fault = Healthy | Down | ReplyLost

record mail =
  mail_from :: string
  mail_to :: string
  mail_subject :: string
  mail_body :: string

record world =
  w_db :: db
  w_now :: int
  w_fresh :: uuid
  w_serial :: int
  w_entropy :: "nat stream"
  w_faults :: "fault list"
  w_outbox :: "mail list"

record ext =
  ext_unicode_lower :: "string \<Rightarrow> string"
  ext_parse_address :: "string \<Rightarrow> string option"
  ext_pg_lower :: "string \<Rightarrow> string"
  ext_bcrypt_generate :: "string \<Rightarrow> nat list \<Rightarrow> string option"
  ext_bcrypt_compare :: "string \<Rightarrow> string \<Rightarrow> bool"
  ext_render :: "string \<Rightarrow> string list \<Rightarrow> string option"

type_synonym 'a svc = "world \<Rightarrow> (goError + 'a) \<times> world"

definition sret :: "'a \<Rightarrow> 'a svc" where
  "sret a w = (Inr a, w)"

definition sfail :: "goError \<Rightarrow> 'a svc" where
  "sfail e w = (Inl e, w)"

definition sbind :: "'a svc \<Rightarrow> ('a \<Rightarrow> 'b svc) \<Rightarrow> 'b svc" where
  "sbind m f w = (case m w of (Inl e, w') \<Rightarrow> (Inl e, w') | (Inr a, w') \<Rightarrow> f a w')"

text \<open>\<open>if err != nil { return h(err) }\<close> and \<open>x, err := m()\<close> with a handler that may go on.\<close>

definition on_error :: "'a svc \<Rightarrow> (goError \<Rightarrow> goError) \<Rightarrow> 'a svc" where
  "on_error m h w = (case m w of (Inl e, w') \<Rightarrow> (Inl (h e), w') | (Inr a, w') \<Rightarrow> (Inr a, w'))"

definition attempt :: "'a svc \<Rightarrow> (goError + 'a) svc" where
  "attempt m w = (case m w of (r, w') \<Rightarrow> (Inr r, w'))"

definition of_sum :: "goError + 'a \<Rightarrow> 'a svc" where
  "of_sum r w = (r, w)"

definition now :: "int svc" where
  "now w = (Inr (w_now w), w)"

text \<open>One interaction with the outside: the next fault decides whether it takes place.\<close>

definition external :: "'a svc \<Rightarrow> 'a svc" where
  "external f w =
     (case w_faults w of
        [] \<Rightarrow> f w
      | Healthy # t \<Rightarrow> f (w\<lparr>w_faults := t\<rparr>)
      | Down # t \<Rightarrow> (Inl ConnError, w\<lparr>w_faults := t\<rparr>)
      | ReplyLost # t \<Rightarrow> (Inl ConnError, snd (f (w\<lparr>w_faults := t\<rparr>))))"

text \<open>A query that reads the tables, and one that changes them.\<close>

definition query :: "(db \<Rightarrow> goError + 'a) \<Rightarrow> 'a svc" where
  "query f = external (\<lambda>w. (f (w_db w), w))"

definition exec :: "(db \<Rightarrow> db) \<Rightarrow> unit svc" where
  "exec f = external (\<lambda>w. (Inr (), w\<lparr>w_db := f (w_db w)\<rparr>))"

text \<open>
  \<open>tx, err := s.pool.Begin(ctx); defer tx.Rollback(ctx); ...; tx.Commit(ctx)\<close>: the body runs on
  the tables; when it fails, or when the commit does not reach the server, the tables of the
  beginning are restored.
\<close>

definition with_tx :: "string \<Rightarrow> string \<Rightarrow> 'a svc \<Rightarrow> 'a svc" where
  "with_tx begin_msg commit_msg body w =
     (case external (\<lambda>w. (Inr (), w)) w of
        (Inl e, w1) \<Rightarrow> (Inl (Wrap begin_msg e), w1)
      | (Inr _, w1) \<Rightarrow>
          (case body w1 of
             (Inl e, w2) \<Rightarrow> (Inl e, w2\<lparr>w_db := w_db w1\<rparr>)
           | (Inr a, w2) \<Rightarrow>
               (case w_faults w2 of
                  [] \<Rightarrow> (Inr a, w2)
                | Healthy # t \<Rightarrow> (Inr a, w2\<lparr>w_faults := t\<rparr>)
                | Down # t \<Rightarrow> (Inl (Wrap commit_msg ConnError), w2\<lparr>w_db := w_db w1, w_faults := t\<rparr>)
                | ReplyLost # t \<Rightarrow> (Inl (Wrap commit_msg ConnError), w2\<lparr>w_faults := t\<rparr>))))"

definition rand_bytes :: "nat \<Rightarrow> (nat list) svc" where
  "rand_bytes n = external (\<lambda>w.
     (Inr (map (\<lambda>b. b mod 256) (stake n (w_entropy w))), w\<lparr>w_entropy := sdrop n (w_entropy w)\<rparr>))"

section \<open>Queries on users and roles\<close>

definition char_length :: "string \<Rightarrow> nat" where
  "char_length s = length (filter (\<lambda>c. \<not> (0x80 \<le> (of_char c :: nat) \<and> (of_char c :: nat) < 0xC0)) s)"

definition handle_char :: "char \<Rightarrow> bool" where
  "handle_char c \<longleftrightarrow> (let n = of_char c :: nat in (97 \<le> n \<and> n \<le> 122) \<or> (48 \<le> n \<and> n \<le> 57) \<or> c = CHR ''_'')"

text \<open>
  The constraints of the table in the order PostgreSQL checks them: the CHECK constraints by
  name, then the unique indexes.  The result is the name of the first one that is violated.
\<close>

definition user_violation :: "ext \<Rightarrow> db \<Rightarrow> uuid option \<Rightarrow> string \<Rightarrow> string \<Rightarrow> string option" where
  "user_violation e d self handle email =
     (let others = filter (\<lambda>u. Some (ur_ID u) \<noteq> self) (db_users d) in
      if \<not> (3 \<le> char_length email \<and> char_length email \<le> 320) then Some ''users_email_length''
      else if email \<noteq> ext_pg_lower e email then Some ''users_email_lowercase''
      else if \<not> (handle \<noteq> [] \<and> list_all handle_char handle) then Some ''users_handle_format''
      else if \<not> (3 \<le> char_length handle \<and> char_length handle \<le> 32) then Some ''users_handle_length''
      else if handle \<noteq> ext_pg_lower e handle then Some ''users_handle_lowercase''
      else if handle \<in> ur_Handle ` set others then Some ''users_handle_key''
      else if email \<in> ur_Email ` set others then Some ''users_email_key''
      else None)"

definition sql_CreateUser :: "ext \<Rightarrow> string \<Rightarrow> string \<Rightarrow> string \<Rightarrow> bool \<Rightarrow> user_row svc" where
  "sql_CreateUser e handle email hash active = external (\<lambda>w.
     (case user_violation e (w_db w) None handle email of
        Some c \<Rightarrow> (Inl (PgError c), w)
      | None \<Rightarrow>
          let row = \<lparr>ur_ID = w_fresh w, ur_Handle = handle, ur_Email = email, ur_PasswordHash = hash,
                     ur_IsActive = active, ur_CreatedAt = w_now w, ur_UpdatedAt = w_now w\<rparr>
          in (Inr row, w\<lparr>w_db := (w_db w)\<lparr>db_users := db_users (w_db w) @ [row]\<rparr>, w_fresh := w_fresh w + 1\<rparr>)))"

definition find_row :: "('a \<Rightarrow> bool) \<Rightarrow> 'a list \<Rightarrow> goError + 'a" where
  "find_row p xs = (case find p xs of None \<Rightarrow> Inl NoRows | Some x \<Rightarrow> Inr x)"

definition sql_GetUserByEmail :: "string \<Rightarrow> user_row svc" where
  "sql_GetUserByEmail email = query (\<lambda>d. find_row (\<lambda>u. ur_Email u = email) (db_users d))"

definition sql_GetUserForAuthByEmail :: "string \<Rightarrow> user_row svc" where
  "sql_GetUserForAuthByEmail email = query (\<lambda>d. find_row (\<lambda>u. ur_Email u = email) (db_users d))"

definition sql_GetUserByID :: "uuid \<Rightarrow> user_row svc" where
  "sql_GetUserByID i = query (\<lambda>d. find_row (\<lambda>u. ur_ID u = i) (db_users d))"

text \<open>\<open>UPDATE users SET ... WHERE id = $1 RETURNING *\<close>, with the trigger that stamps \<open>updated_at\<close>.\<close>

definition update_user :: "uuid \<Rightarrow> (user_row \<Rightarrow> user_row) \<Rightarrow> world \<Rightarrow> world" where
  "update_user i f w = w\<lparr>w_db := (w_db w)\<lparr>db_users :=
     map (\<lambda>u. if ur_ID u = i then (f u)\<lparr>ur_UpdatedAt := w_now w\<rparr> else u) (db_users (w_db w))\<rparr>\<rparr>"

definition update_user_checked :: "ext \<Rightarrow> uuid \<Rightarrow> string \<Rightarrow> string \<Rightarrow> (user_row \<Rightarrow> user_row) \<Rightarrow> user_row svc" where
  "update_user_checked e i handle email f = external (\<lambda>w.
     (case find (\<lambda>u. ur_ID u = i) (db_users (w_db w)) of
        None \<Rightarrow> (Inl NoRows, w)
      | Some u \<Rightarrow>
          (case user_violation e (w_db w) (Some i) handle email of
             Some c \<Rightarrow> (Inl (PgError c), w)
           | None \<Rightarrow> (Inr ((f u)\<lparr>ur_UpdatedAt := w_now w\<rparr>), update_user i f w))))"

definition sql_UpdateUserProfile :: "ext \<Rightarrow> uuid \<Rightarrow> string \<Rightarrow> string \<Rightarrow> user_row svc" where
  "sql_UpdateUserProfile e i handle email =
     update_user_checked e i handle email (\<lambda>u. u\<lparr>ur_Handle := handle, ur_Email := email\<rparr>)"

definition sql_AdminUpdateUser :: "ext \<Rightarrow> uuid \<Rightarrow> string \<Rightarrow> string \<Rightarrow> bool \<Rightarrow> user_row svc" where
  "sql_AdminUpdateUser e i handle email active =
     update_user_checked e i handle email (\<lambda>u. u\<lparr>ur_Handle := handle, ur_Email := email, ur_IsActive := active\<rparr>)"

definition sql_SetUserPassword :: "uuid \<Rightarrow> string \<Rightarrow> unit svc" where
  "sql_SetUserPassword i hash = external (\<lambda>w. (Inr (), update_user i (\<lambda>u. u\<lparr>ur_PasswordHash := hash\<rparr>) w))"

text \<open>Deleting a user cascades to roles, invitations and reset tokens as the foreign keys say.\<close>

definition delete_user :: "uuid \<Rightarrow> db \<Rightarrow> db" where
  "delete_user i d = d\<lparr>
     db_users := filter (\<lambda>u. ur_ID u \<noteq> i) (db_users d),
     db_user_roles := filter (\<lambda>p. fst p \<noteq> i) (db_user_roles d),
     db_invitations := map (\<lambda>v. if ir_UsedBy v = Some i then v\<lparr>ir_UsedBy := None\<rparr> else v)
                         (filter (\<lambda>v. ir_InvitedBy v \<noteq> i) (db_invitations d)),
     db_resets := filter (\<lambda>t. pr_UserID t \<noteq> i) (db_resets d)\<rparr>"

definition sql_DeleteUser :: "uuid \<Rightarrow> unit svc" where
  "sql_DeleteUser i = exec (delete_user i)"

definition sql_ListRoles :: "role_row list svc" where
  "sql_ListRoles = query (\<lambda>d. Inr (sort_key rr_Name (db_roles d)))"

definition role_names :: "db \<Rightarrow> uuid \<Rightarrow> string list" where
  "role_names d i = sort (map rr_Name (filter (\<lambda>r. (i, rr_ID r) \<in> set (db_user_roles d)) (db_roles d)))"

definition sql_ListRoleNamesByUser :: "uuid \<Rightarrow> string list svc" where
  "sql_ListRoleNamesByUser i = query (\<lambda>d. Inr (role_names d i))"

definition sql_RemoveAllRolesFromUser :: "uuid \<Rightarrow> unit svc" where
  "sql_RemoveAllRolesFromUser i = exec (\<lambda>d. d\<lparr>db_user_roles := filter (\<lambda>p. fst p \<noteq> i) (db_user_roles d)\<rparr>)"

definition add_roles :: "uuid \<Rightarrow> string \<Rightarrow> db \<Rightarrow> db" where
  "add_roles i name d = d\<lparr>db_user_roles := db_user_roles d @
     filter (\<lambda>p. p \<notin> set (db_user_roles d))
       (map (\<lambda>r. (i, rr_ID r)) (filter (\<lambda>r. rr_Name r = name) (db_roles d)))\<rparr>"

definition sql_AddRoleToUser :: "uuid \<Rightarrow> string \<Rightarrow> unit svc" where
  "sql_AddRoleToUser i name = external (\<lambda>w.
     if name \<in> rr_Name ` set (db_roles (w_db w)) \<and> i \<notin> ur_ID ` set (db_users (w_db w))
     then (Inl (PgError ''user_roles_user_id_fkey''), w)
     else (Inr (), w\<lparr>w_db := add_roles i name (w_db w)\<rparr>))"

record user_role_row =
  url_User :: user_row
  url_RoleName :: string

definition user_role_rows :: "db \<Rightarrow> user_role_row list" where
  "user_role_rows d = concat (map (\<lambda>u.
     (case role_names d (ur_ID u) of
        [] \<Rightarrow> [\<lparr>url_User = u, url_RoleName = []\<rparr>]
      | ns \<Rightarrow> map (\<lambda>n. \<lparr>url_User = u, url_RoleName = n\<rparr>) ns))
     (sort_key (\<lambda>u. - ur_CreatedAt u) (sort_key ur_ID (db_users d))))"

definition sql_ListUsersWithRoles :: "user_role_row list svc" where
  "sql_ListUsersWithRoles = query (\<lambda>d. Inr (user_role_rows d))"

definition count_by_role :: "db \<Rightarrow> string \<Rightarrow> int" where
  "count_by_role d name = int (length (filter (\<lambda>p. \<exists>r \<in> set (db_roles d). rr_ID r = snd p \<and> rr_Name r = name)
     (db_user_roles d)))"

definition sql_CountUsersByRole :: "string \<Rightarrow> int svc" where
  "sql_CountUsersByRole name = query (\<lambda>d. Inr (count_by_role d name))"

section \<open>Queries on signing keys\<close>

definition TokenTypeAccess :: string where "TokenTypeAccess = ''access''"
definition TokenTypeRefresh :: string where "TokenTypeRefresh = ''refresh''"

text \<open>\<open>ORDER BY created_at DESC LIMIT 1\<close>.\<close>

fun newest :: "key_row list \<Rightarrow> key_row option" where
  "newest [] = None"
| "newest (k # ks) = (case newest ks of None \<Rightarrow> Some k
     | Some k' \<Rightarrow> if kr_CreatedAt k' > kr_CreatedAt k then Some k' else Some k)"

definition active_key :: "string \<Rightarrow> db \<Rightarrow> key_row option" where
  "active_key tt d = newest (filter (\<lambda>k. kr_TokenType k = tt \<and> kr_State k = ''active'') (db_keys d))"

definition sql_GetActiveJWTSigningKey :: "string \<Rightarrow> key_row svc" where
  "sql_GetActiveJWTSigningKey tt = query (\<lambda>d. case active_key tt d of None \<Rightarrow> Inl NoRows | Some k \<Rightarrow> Inr k)"

definition sql_GetActiveJWTSigningKeyForUpdate :: "string \<Rightarrow> key_row svc" where
  "sql_GetActiveJWTSigningKeyForUpdate tt = query (\<lambda>d. case active_key tt d of None \<Rightarrow> Inl NoRows | Some k \<Rightarrow> Inr k)"

definition sql_GetJWTSigningKeyByID :: "uuid \<Rightarrow> key_row svc" where
  "sql_GetJWTSigningKeyByID i = query (\<lambda>d. find_row (\<lambda>k. kr_ID k = i) (db_keys d))"

definition sql_GetJWTSigningKeyByIDForUpdate :: "uuid \<Rightarrow> key_row svc" where
  "sql_GetJWTSigningKeyByIDForUpdate i = query (\<lambda>d. find_row (\<lambda>k. kr_ID k = i) (db_keys d))"

definition key_violation :: "db \<Rightarrow> string \<Rightarrow> string \<Rightarrow> string \<Rightarrow> string option" where
  "key_violation d tt alg st =
     (if alg \<noteq> ''HS256'' then Some ''jwt_signing_keys_algorithm''
      else if st \<notin> {''active'', ''retired'', ''revoked''} then Some ''jwt_signing_keys_state''
      else if tt \<notin> {''access'', ''refresh''} then Some ''jwt_signing_keys_token_type''
      else if st = ''active'' \<and> (\<exists>k \<in> set (db_keys d). kr_TokenType k = tt \<and> kr_State k = ''active'')
        then Some ''jwt_signing_keys_active_token_type_idx''
      else None)"

definition sql_CreateJWTSigningKey ::
    "string \<Rightarrow> string \<Rightarrow> nat list \<Rightarrow> string \<Rightarrow> int option \<Rightarrow> key_row svc" where
  "sql_CreateJWTSigningKey tt alg secret st verify_until = external (\<lambda>w.
     (case key_violation (w_db w) tt alg st of
        Some c \<Rightarrow> (Inl (PgError c), w)
      | None \<Rightarrow>
          let row = \<lparr>kr_ID = w_fresh w, kr_TokenType = tt, kr_Algorithm = alg, kr_Secret = secret, kr_State = st,
                     kr_VerifyUntil = verify_until, kr_CreatedAt = w_now w, kr_UpdatedAt = w_now w\<rparr>
          in (Inr row, w\<lparr>w_db := (w_db w)\<lparr>db_keys := db_keys (w_db w) @ [row]\<rparr>, w_fresh := w_fresh w + 1\<rparr>)))"

definition retire_key :: "int \<Rightarrow> int \<Rightarrow> key_row \<Rightarrow> key_row" where
  "retire_key now_ts until k = k\<lparr>kr_State := ''retired'', kr_VerifyUntil := Some until, kr_UpdatedAt := now_ts\<rparr>"

definition sql_RetireJWTSigningKey :: "uuid \<Rightarrow> int \<Rightarrow> key_row svc" where
  "sql_RetireJWTSigningKey i until = external (\<lambda>w.
     (case find (\<lambda>k. kr_ID k = i) (db_keys (w_db w)) of
        None \<Rightarrow> (Inl NoRows, w)
      | Some k \<Rightarrow> (Inr (retire_key (w_now w) until k),
          w\<lparr>w_db := (w_db w)\<lparr>db_keys :=
            map (\<lambda>k. if kr_ID k = i then retire_key (w_now w) until k else k) (db_keys (w_db w))\<rparr>\<rparr>)))"

definition sql_DeleteJWTSigningKey :: "uuid \<Rightarrow> unit svc" where
  "sql_DeleteJWTSigningKey i = exec (\<lambda>d. d\<lparr>db_keys := filter (\<lambda>k. kr_ID k \<noteq> i) (db_keys d)\<rparr>)"

section \<open>Queries on invitations, reset tokens and games\<close>

definition invitation_violation :: "ext \<Rightarrow> db \<Rightarrow> string \<Rightarrow> string \<Rightarrow> uuid \<Rightarrow> string option" where
  "invitation_violation e d email code inviter =
     (if \<not> (3 \<le> char_length email \<and> char_length email \<le> 320) then Some ''invitations_email_length''
      else if email \<noteq> ext_pg_lower e email then Some ''invitations_email_lowercase''
      else if code \<in> ir_Code ` set (db_invitations d) then Some ''invitations_code_key''
      else if inviter \<notin> ur_ID ` set (db_users d) then Some ''invitations_invited_by_fkey''
      else None)"

definition sql_CreateInvitation :: "ext \<Rightarrow> string \<Rightarrow> string \<Rightarrow> uuid \<Rightarrow> int \<Rightarrow> invitation_row svc" where
  "sql_CreateInvitation e email code inviter expires = external (\<lambda>w.
     (case invitation_violation e (w_db w) email code inviter of
        Some c \<Rightarrow> (Inl (PgError c), w)
      | None \<Rightarrow>
          let row = \<lparr>ir_ID = w_fresh w, ir_Email = email, ir_Code = code, ir_InvitedBy = inviter, ir_UsedBy = None,
                     ir_UsedAt = None, ir_ExpiresAt = expires, ir_ArchivedAt = None, ir_CreatedAt = w_now w\<rparr>
          in (Inr row, w\<lparr>w_db := (w_db w)\<lparr>db_invitations := db_invitations (w_db w) @ [row]\<rparr>,
                w_fresh := w_fresh w + 1\<rparr>)))"

definition sql_GetInvitationByID :: "uuid \<Rightarrow> invitation_row svc" where
  "sql_GetInvitationByID i = query (\<lambda>d. find_row (\<lambda>v. ir_ID v = i) (db_invitations d))"

definition sql_GetInvitationByCode :: "string \<Rightarrow> invitation_row svc" where
  "sql_GetInvitationByCode code = query (\<lambda>d. find_row (\<lambda>v. ir_Code v = code) (db_invitations d))"

definition update_invitation :: "uuid \<Rightarrow> (invitation_row \<Rightarrow> invitation_row) \<Rightarrow> world \<Rightarrow> world" where
  "update_invitation i f w = w\<lparr>w_db := (w_db w)\<lparr>db_invitations :=
     map (\<lambda>v. if ir_ID v = i then f v else v) (db_invitations (w_db w))\<rparr>\<rparr>"

definition sql_MarkInvitationUsed :: "uuid \<Rightarrow> uuid \<Rightarrow> unit svc" where
  "sql_MarkInvitationUsed i usedBy = external (\<lambda>w.
     if i \<in> ir_ID ` set (db_invitations (w_db w)) \<and> usedBy \<notin> ur_ID ` set (db_users (w_db w))
     then (Inl (PgError ''invitations_used_by_fkey''), w)
     else (Inr (), update_invitation i (\<lambda>v. v\<lparr>ir_UsedBy := Some usedBy, ir_UsedAt := Some (w_now w)\<rparr>) w))"

definition sql_UpdateInvitationExpiry :: "uuid \<Rightarrow> int \<Rightarrow> unit svc" where
  "sql_UpdateInvitationExpiry i expires =
     external (\<lambda>w. (Inr (), update_invitation i (\<lambda>v. v\<lparr>ir_ExpiresAt := expires\<rparr>) w))"

definition sql_ArchiveInvitation :: "uuid \<Rightarrow> unit svc" where
  "sql_ArchiveInvitation i =
     external (\<lambda>w. (Inr (), update_invitation i (\<lambda>v. v\<lparr>ir_ArchivedAt := Some (w_now w)\<rparr>) w))"

definition invitation_matches :: "string \<Rightarrow> int \<Rightarrow> invitation_row \<Rightarrow> bool" where
  "invitation_matches filt t v \<longleftrightarrow> ir_ArchivedAt v = None \<and>
     (filt = '''' \<or> (filt = ''used'' \<and> ir_UsedAt v \<noteq> None) \<or>
      (filt = ''unused'' \<and> ir_UsedAt v = None \<and> ir_ExpiresAt v > t) \<or>
      (filt = ''expired'' \<and> ir_UsedAt v = None \<and> ir_ExpiresAt v \<le> t))"

definition sql_ListInvitations :: "string \<Rightarrow> (invitation_row \<times> string) list svc" where
  "sql_ListInvitations filt = external (\<lambda>w. (Inr (
     sort_key (\<lambda>p. - ir_CreatedAt (fst p))
       (concat (map (\<lambda>v. map (\<lambda>u. (v, ur_Handle u)) (filter (\<lambda>u. ur_ID u = ir_InvitedBy v) (db_users (w_db w))))
         (filter (invitation_matches filt (w_now w)) (db_invitations (w_db w)))))), w))"

definition sql_CreatePasswordResetToken :: "uuid \<Rightarrow> string \<Rightarrow> int \<Rightarrow> reset_row svc" where
  "sql_CreatePasswordResetToken uid code expires = external (\<lambda>w.
     if code \<in> pr_Code ` set (db_resets (w_db w)) then (Inl (PgError ''password_reset_tokens_code_key''), w)
     else if uid \<notin> ur_ID ` set (db_users (w_db w)) then (Inl (PgError ''password_reset_tokens_user_id_fkey''), w)
     else let row = \<lparr>pr_ID = w_fresh w, pr_UserID = uid, pr_Code = code, pr_ExpiresAt = expires,
                     pr_UsedAt = None, pr_CreatedAt = w_now w\<rparr>
       in (Inr row, w\<lparr>w_db := (w_db w)\<lparr>db_resets := db_resets (w_db w) @ [row]\<rparr>, w_fresh := w_fresh w + 1\<rparr>))"

definition sql_GetPasswordResetTokenByCode :: "string \<Rightarrow> reset_row svc" where
  "sql_GetPasswordResetTokenByCode code = query (\<lambda>d. find_row (\<lambda>t. pr_Code t = code) (db_resets d))"

definition sql_MarkPasswordResetTokenUsed :: "uuid \<Rightarrow> unit svc" where
  "sql_MarkPasswordResetTokenUsed i = external (\<lambda>w. (Inr (), w\<lparr>w_db := (w_db w)\<lparr>db_resets :=
     map (\<lambda>t. if pr_ID t = i then t\<lparr>pr_UsedAt := Some (w_now w)\<rparr> else t) (db_resets (w_db w))\<rparr>\<rparr>))"

definition sql_ListActivePasswordResetTokensByUserID :: "uuid \<Rightarrow> reset_row list svc" where
  "sql_ListActivePasswordResetTokensByUserID uid = external (\<lambda>w. (Inr
     (filter (\<lambda>t. pr_UserID t = uid \<and> pr_UsedAt t = None \<and> pr_ExpiresAt t > w_now w) (db_resets (w_db w))), w))"

definition sql_DeletePasswordResetTokensByUserID :: "uuid \<Rightarrow> unit svc" where
  "sql_DeletePasswordResetTokensByUserID uid =
     exec (\<lambda>d. d\<lparr>db_resets := filter (\<lambda>t. pr_UserID t \<noteq> uid) (db_resets d)\<rparr>)"

definition sql_CreateGame :: "string \<Rightarrow> game_row svc" where
  "sql_CreateGame name = external (\<lambda>w.
     let row = \<lparr>gr_ID = w_serial w, gr_Name = name, gr_Status = ''setup'', gr_CurrentTurn = 0,
                gr_CreatedAt = w_now w, gr_UpdatedAt = w_now w\<rparr>
     in (Inr row, w\<lparr>w_db := (w_db w)\<lparr>db_games := db_games (w_db w) @ [row]\<rparr>, w_serial := w_serial w + 1\<rparr>))"

definition sql_GetGameByID :: "int \<Rightarrow> game_row svc" where
  "sql_GetGameByID i = query (\<lambda>d. find_row (\<lambda>g. gr_ID g = i) (db_games d))"

definition sql_ListGames :: "game_row list svc" where
  "sql_ListGames = query (\<lambda>d. Inr (sort_key (\<lambda>g. - gr_CreatedAt g) (sort_key (\<lambda>g. - gr_ID g) (db_games d))))"

definition sql_DeleteGame :: "int \<Rightarrow> unit svc" where
  "sql_DeleteGame i = exec (\<lambda>d. d\<lparr>db_games := filter (\<lambda>g. gr_ID g \<noteq> i) (db_games d)\<rparr>)"

end
