(* ===== verification/Effects.thy ===== *)
theory Effects
  imports Database
begin

text \<open>
  Reasoning about service methods.  \<open>keeps ok m\<close>: \<open>m\<close> preserves the invariant \<open>ok\<close> of the tables,
  whatever fails, and fresh identifiers are never taken back.  The locale \<open>table_invariant\<close>
  states what an invariant needs for this to be compositional (transactions included); the
  components interpret it with their own invariants.  The rules for a world without faults
  (\<open>calm\<close>) evaluate a method step by step.
\<close>

section \<open>Invariants of the tables\<close>

definition keeps :: "(db \<Rightarrow> uuid \<Rightarrow> bool) \<Rightarrow> 'a svc \<Rightarrow> bool" where
  "keeps ok m \<longleftrightarrow> (\<forall>w. ok (w_db w) (w_fresh w) \<longrightarrow>
     ok (w_db (snd (m w))) (w_fresh (snd (m w))) \<and> w_fresh w \<le> w_fresh (snd (m w)))"

named_theorems keeps_intros "rules that show that a service method keeps an invariant"

lemma keepsD:
  "keeps ok m \<Longrightarrow> ok (w_db w) (w_fresh w) \<Longrightarrow> m w = (r, w') \<Longrightarrow> ok (w_db w') (w_fresh w') \<and> w_fresh w \<le> w_fresh w'"
  by (metis keeps_def snd_conv)

lemma keeps_pure [keeps_intros]:
  "keeps ok (sret a)" "keeps ok (sfail e)" "keeps ok (of_sum x)" "keeps ok now"
  by (simp_all add: keeps_def sret_def sfail_def of_sum_def now_def)

lemma keeps_sbind [keeps_intros]:
  assumes "keeps ok m" and "\<And>a. keeps ok (f a)"
  shows "keeps ok (sbind m f)"
  unfolding keeps_def
proof (intro allI impI)
  fix w :: world assume w: "ok (w_db w) (w_fresh w)"
  obtain r w' where m: "m w = (r, w')" by force
  note 1 = keepsD [OF assms(1) w m]
  show "ok (w_db (snd (sbind m f w))) (w_fresh (snd (sbind m f w))) \<and> w_fresh w \<le> w_fresh (snd (sbind m f w))"
  proof (cases r)
    case (Inl e)
    with 1 m show ?thesis by (simp add: sbind_def)
  next
    case (Inr a)
    obtain r2 w2 where f: "f a w' = (r2, w2)" by force
    from keepsD [OF assms(2) conjunct1 [OF 1] f] 1 m Inr f show ?thesis by (simp add: sbind_def)
  qed
qed

lemma keeps_on_error [keeps_intros]: "keeps ok m \<Longrightarrow> keeps ok (on_error m h)"
  by (auto simp: keeps_def on_error_def split: prod.splits sum.splits)

lemma keeps_attempt [keeps_intros]: "keeps ok m \<Longrightarrow> keeps ok (attempt m)"
  by (auto simp: keeps_def attempt_def split: prod.splits)

lemma keeps_if [keeps_intros]: "(c \<Longrightarrow> keeps ok a) \<Longrightarrow> (\<not> c \<Longrightarrow> keeps ok b) \<Longrightarrow> keeps ok (if c then a else b)"
  by simp

lemma keeps_external [keeps_intros]: "keeps ok f \<Longrightarrow> keeps ok (external f)"
  unfolding keeps_def external_def by (auto split: list.split fault.split) (metis world.select_convs(1) world.select_convs(3) world.surjective world.update_convs(6))+

lemma keeps_query [keeps_intros]: "keeps ok (query f)"
  unfolding query_def by (rule keeps_external) (simp add: keeps_def)

lemma keeps_exec [keeps_intros]: "(\<And>d n. ok d n \<Longrightarrow> ok (f d) n) \<Longrightarrow> keeps ok (exec f)"
  unfolding exec_def by (rule keeps_external) (simp add: keeps_def)

lemma keeps_rand [keeps_intros]: "keeps ok (rand_bytes n)"
  unfolding rand_bytes_def by (rule keeps_external) (simp add: keeps_def)

locale table_invariant =
  fixes ok :: "db \<Rightarrow> uuid \<Rightarrow> bool"
  assumes mono: "ok d n \<Longrightarrow> n \<le> k \<Longrightarrow> ok d k"
begin

text \<open>A transaction that keeps the invariant keeps it also when it is rolled back.\<close>

lemma keeps_with_tx:
  assumes "keeps ok body"
  shows "keeps ok (with_tx b c body)"
  unfolding keeps_def
proof (intro allI impI)
  fix w :: world assume w: "ok (w_db w) (w_fresh w)"
  obtain r1 w1 where b: "external (\<lambda>w. (Inr (), w)) w = (r1, w1)" by force
  have "keeps ok (external (\<lambda>w. (Inr (), w)))"
    by (rule keeps_external) (simp add: keeps_def)
  note 1 = keepsD [OF this w b]
  show "ok (w_db (snd (with_tx b c body w))) (w_fresh (snd (with_tx b c body w))) \<and>
      w_fresh w \<le> w_fresh (snd (with_tx b c body w))"
  proof (cases r1)
    case (Inl e)
    with 1 b show ?thesis by (simp add: with_tx_def)
  next
    case (Inr u)
    obtain r2 w2 where bd: "body w1 = (r2, w2)" by force
    note 2 = keepsD [OF assms conjunct1 [OF 1] bd]
    have restored: "ok (w_db w1) (w_fresh w2)" using 1 2 mono by blast
    from Inr b bd 1 2 restored show ?thesis
      by (auto simp: with_tx_def split: sum.split list.split fault.split)
  qed
qed

end

section \<open>Transactions are all or nothing\<close>

text \<open>
  After a transaction the tables are those of its beginning or those its body computed when it
  succeeded; with a result it is the latter.
\<close>

lemma external_skip_db: "external (\<lambda>w. (Inr (), w)) w = (r, w1) \<Longrightarrow> w_db w1 = w_db w \<and> w_fresh w1 = w_fresh w \<and> w_now w1 = w_now w"
  by (auto simp: external_def split: list.splits fault.splits)

lemma with_tx_atomic:
  assumes "with_tx b c body w = (r, w')"
  shows "(w_db w' = w_db w \<and> (\<exists>e. r = Inl e)) \<or>
    (\<exists>w1 a w2. w_db w1 = w_db w \<and> w_fresh w1 = w_fresh w \<and> w_now w1 = w_now w \<and> body w1 = (Inr a, w2) \<and> w_db w' = w_db w2 \<and>
      w_fresh w' = w_fresh w2 \<and> (r = Inr a \<or> r = Inl (Wrap c ConnError)))"
proof -
  obtain r1 w1 where b: "external (\<lambda>w. (Inr (), w)) w = (r1, w1)" by force
  note db = external_skip_db [OF b]
  obtain r2 w2 where bd: "body w1 = (r2, w2)" by force
  show ?thesis
  proof (cases r1)
    case (Inl e)
    with assms b db show ?thesis by (auto simp: with_tx_def)
  next
    case (Inr u)
    show ?thesis
    proof (cases r2)
      case (Inl e)
      with Inr assms b bd db show ?thesis by (auto simp: with_tx_def)
    next
      case r2: (Inr a)
      have body: "body w1 = (Inr a, w2)" using bd r2 by simp
      from Inr r2 assms b bd db have
        "(w_db w' = w_db w1 \<and> r = Inl (Wrap c ConnError)) \<or>
         (w_db w' = w_db w2 \<and> w_fresh w' = w_fresh w2 \<and> (r = Inr a \<or> r = Inl (Wrap c ConnError)))"
        by (auto simp: with_tx_def split: list.splits fault.splits)
      with body db show ?thesis by (metis (no_types, lifting))
    qed
  qed
qed

section \<open>A world without faults\<close>

definition calm :: "world \<Rightarrow> bool" where
  "calm w \<longleftrightarrow> w_faults w = []"

lemma external_calm: "calm w \<Longrightarrow> external f w = f w"
  by (simp add: external_def calm_def)

lemma query_calm: "calm w \<Longrightarrow> query f w = (f (w_db w), w)"
  by (simp add: query_def external_calm)

lemma exec_calm: "calm w \<Longrightarrow> exec f w = (Inr (), w\<lparr>w_db := f (w_db w)\<rparr>)"
  by (simp add: exec_def external_calm)

lemma calm_update [simp]:
  "calm (w\<lparr>w_db := d\<rparr>) = calm w" "calm (w\<lparr>w_fresh := n\<rparr>) = calm w" "calm (w\<lparr>w_entropy := s\<rparr>) = calm w"
  "calm (w\<lparr>w_outbox := ms\<rparr>) = calm w" "calm (w\<lparr>w_serial := i\<rparr>) = calm w"
  by (simp_all add: calm_def)

lemma rand_calm:
  "calm w \<Longrightarrow> rand_bytes n w =
     (Inr (map (\<lambda>b. b mod 256) (stake n (w_entropy w))), w\<lparr>w_entropy := sdrop n (w_entropy w)\<rparr>)"
  by (simp add: rand_bytes_def external_calm)

lemma with_tx_calm:
  assumes "calm w"
  shows "with_tx b c body w = (case body w of
     (Inl e, w2) \<Rightarrow> (Inl e, w2\<lparr>w_db := w_db w\<rparr>)
   | (Inr a, w2) \<Rightarrow> if w_faults w2 = [] then (Inr a, w2) else with_tx b c body w)"
  using assms by (auto simp: with_tx_def external_calm calm_def external_def split: prod.splits sum.splits list.splits)

lemmas calm_simps = external_calm query_calm exec_calm rand_calm

lemma sbind_simps [simp]:
  "sbind (sret a) f = f a" "sbind (sfail e) f = sfail e"
  "sbind (of_sum (Inr a)) f = f a" "sbind (of_sum (Inl e)) f = sfail e"
  by (simp_all add: sbind_def sret_def sfail_def of_sum_def fun_eq_iff)

lemma run_simps:
  "sret a w = (Inr a, w)" "sfail e w = (Inl e, w)" "of_sum r w = (r, w)"
  "sbind m f w = (case m w of (Inl e, w') \<Rightarrow> (Inl e, w') | (Inr a, w') \<Rightarrow> f a w')"
  "on_error m h w = (case m w of (Inl e, w') \<Rightarrow> (Inl (h e), w') | (Inr a, w') \<Rightarrow> (Inr a, w'))"
  "attempt m w = (case m w of (r, w') \<Rightarrow> (Inr r, w'))"
  "now w = (Inr (w_now w), w)"
  by (simp_all add: sret_def sfail_def of_sum_def sbind_def on_error_def attempt_def now_def)

lemma sbind_InrE:
  assumes "sbind m f w = (Inr b, w')"
  obtains a w1 where "m w = (Inr a, w1)" and "f a w1 = (Inr b, w')"
  using assms by (auto simp: sbind_def split: prod.splits sum.splits)

lemma on_error_Inr: "on_error m h w = (Inr a, w') \<longleftrightarrow> m w = (Inr a, w')"
  by (auto simp: on_error_def split: prod.splits sum.splits)

lemma query_Inr:
  "query f w = (Inr a, w') \<Longrightarrow> f (w_db w) = Inr a \<and> w_db w' = w_db w \<and> w_fresh w' = w_fresh w"
  by (auto simp: query_def external_def split: list.splits fault.splits)

text \<open>A step that leaves the tables and the sources of identifiers alone.\<close>

definition reads :: "'a svc \<Rightarrow> bool" where
  "reads m \<longleftrightarrow> (\<forall>w. w_db (snd (m w)) = w_db w \<and> w_fresh (snd (m w)) = w_fresh w \<and> w_serial (snd (m w)) = w_serial w)"

named_theorems reads_intros "methods that do not change the tables"

lemma reads_pure [reads_intros]:
  "reads (sret a)" "reads (sfail e)" "reads (of_sum x)" "reads now" "reads (query f)" "reads (rand_bytes n)"
  by (auto simp: reads_def sret_def sfail_def of_sum_def now_def query_def rand_bytes_def external_def
      split: list.split fault.split)

lemma reads_sbind [reads_intros]: "reads m \<Longrightarrow> (\<And>a. reads (f a)) \<Longrightarrow> reads (sbind m f)"
  by (auto simp: reads_def sbind_def split: prod.splits sum.splits) (metis snd_conv)+

lemma reads_on_error [reads_intros]: "reads m \<Longrightarrow> reads (on_error m h)"
  by (auto simp: reads_def on_error_def split: prod.splits sum.splits) (metis snd_conv)+

lemma reads_attempt [reads_intros]: "reads m \<Longrightarrow> reads (attempt m)"
  by (auto simp: reads_def attempt_def split: prod.splits) (metis snd_conv)+

lemma reads_if [reads_intros]: "(c \<Longrightarrow> reads a) \<Longrightarrow> (\<not> c \<Longrightarrow> reads b) \<Longrightarrow> reads (if c then a else b)"
  by simp

lemma readsD: "reads m \<Longrightarrow> m w = (r, w') \<Longrightarrow> w_db w' = w_db w \<and> w_fresh w' = w_fresh w"
  by (metis reads_def snd_conv)

section \<open>Frames\<close>

text \<open>
  \<open>frames p m\<close>: \<open>m\<close> leaves the part \<open>p\<close> of the tables and the sequence of the serial identifiers
  as they are, whatever fails.
\<close>

definition frames :: "(db \<Rightarrow> 'p) \<Rightarrow> 'a svc \<Rightarrow> bool" where
  "frames p m \<longleftrightarrow> (\<forall>w. p (w_db (snd (m w))) = p (w_db w) \<and> w_serial (snd (m w)) = w_serial w)"

named_theorems frames_intros "rules that show that a service method leaves a part of the tables alone"

lemma framesD: "frames p m \<Longrightarrow> m w = (r, w') \<Longrightarrow> p (w_db w') = p (w_db w)"
  by (metis frames_def snd_conv)

lemma frames_serial: "frames p m \<Longrightarrow> m w = (r, w') \<Longrightarrow> w_serial w' = w_serial w"
  by (metis frames_def snd_conv)

lemma frames_reads: "reads m \<Longrightarrow> frames p m"
  by (simp add: frames_def reads_def)

lemma frames_pure [frames_intros]:
  "frames p (sret a)" "frames p (sfail e)" "frames p (of_sum x)" "frames p now" "frames p (query f)" "frames p (rand_bytes n)"
  by (simp_all add: frames_reads reads_pure)

lemma frames_external [frames_intros]:
  assumes "\<And>w. p (w_db (snd (f w))) = p (w_db w)" and "\<And>w. w_serial (snd (f w)) = w_serial w"
  shows "frames p (external f)"
  unfolding frames_def
proof
  fix w :: world
  have a: "p (w_db (snd (f (w\<lparr>w_faults := fs\<rparr>)))) = p (w_db w)" "w_serial (snd (f (w\<lparr>w_faults := fs\<rparr>))) = w_serial w" for fs
    using assms [of "w\<lparr>w_faults := fs\<rparr>"] by simp_all
  show "p (w_db (snd (external f w))) = p (w_db w) \<and> w_serial (snd (external f w)) = w_serial w"
    using a assms [of w] by (simp add: external_def split: list.split fault.split)
qed

lemma frames_exec [frames_intros]: "(\<And>d. p (f d) = p d) \<Longrightarrow> frames p (exec f)"
  unfolding exec_def by (rule frames_external) simp_all

lemma frames_sbind [frames_intros]:
  assumes "frames p m" and "\<And>a. frames p (f a)"
  shows "frames p (sbind m f)"
  unfolding frames_def
proof
  fix w :: world
  obtain r w1 where m: "m w = (r, w1)" by force
  note 1 = framesD [OF assms(1) m] frames_serial [OF assms(1) m]
  show "p (w_db (snd (sbind m f w))) = p (w_db w) \<and> w_serial (snd (sbind m f w)) = w_serial w"
  proof (cases r)
    case (Inl e)
    with m 1 show ?thesis by (simp add: sbind_def)
  next
    case (Inr a)
    obtain r2 w2 where f: "f a w1 = (r2, w2)" by force
    with m Inr 1 framesD [OF assms(2) f] frames_serial [OF assms(2) f] show ?thesis by (simp add: sbind_def)
  qed
qed

lemma frames_on_error [frames_intros]: "frames p m \<Longrightarrow> frames p (on_error m h)"
  by (auto simp: on_error_def frames_def split: prod.split sum.split) (metis snd_conv)+

lemma frames_attempt [frames_intros]: "frames p m \<Longrightarrow> frames p (attempt m)"
  by (auto simp: attempt_def frames_def split: prod.split) (metis snd_conv)+

lemma frames_if [frames_intros]: "(c \<Longrightarrow> frames p a) \<Longrightarrow> (\<not> c \<Longrightarrow> frames p b) \<Longrightarrow> frames p (if c then a else b)"
  by simp

lemma with_tx_cases:
  assumes "with_tx b c body w = (r, w')"
  obtains (rolled_back) e where "r = Inl e" and "w_db w' = w_db w"
  | (committed) w1 a w2 where "w_db w1 = w_db w" and "w_fresh w1 = w_fresh w" and "body w1 = (Inr a, w2)"
      and "w_db w' = w_db w2" and "w_fresh w' = w_fresh w2" and "r \<in> {Inr a, Inl (Wrap c ConnError)}"
      and "w_now w1 = w_now w"
proof -
  from with_tx_atomic [OF assms] consider
    "\<exists>e. r = Inl e" "w_db w' = w_db w"
  | "\<exists>w1 a w2. w_db w1 = w_db w \<and> w_fresh w1 = w_fresh w \<and> w_now w1 = w_now w \<and> body w1 = (Inr a, w2) \<and> w_db w' = w_db w2 \<and>
      w_fresh w' = w_fresh w2 \<and> (r = Inr a \<or> r = Inl (Wrap c ConnError))" by blast
  then show thesis
  proof cases
    case 1 with rolled_back show ?thesis by blast
  next
    case 2 with committed show ?thesis by blast
  qed
qed

lemma with_tx_serial:
  assumes "frames p body" and "with_tx b c body w = (r, w')"
  shows "w_serial w' = w_serial w"
proof -
  obtain r1 w1 where b: "external (\<lambda>w. (Inr (), w)) w = (r1, w1)" by force
  then have 1: "w_serial w1 = w_serial w" by (auto simp: external_def split: list.splits fault.splits)
  obtain r2 w2 where bd: "body w1 = (r2, w2)" by force
  with assms b 1 frames_serial [OF assms(1) bd] show ?thesis
    by (auto simp: with_tx_def split: sum.splits list.splits fault.splits)
qed

lemma frames_with_tx [frames_intros]:
  assumes "frames p body"
  shows "frames p (with_tx b c body)"
  unfolding frames_def
proof
  fix w :: world
  obtain r w' where t: "with_tx b c body w = (r, w')" by force
  then have "p (w_db w') = p (w_db w)"
    by (cases rule: with_tx_cases) (auto dest: framesD [OF assms])
  with t with_tx_serial [OF assms t]
  show "p (w_db (snd (with_tx b c body w))) = p (w_db w) \<and> w_serial (snd (with_tx b c body w)) = w_serial w" by simp
qed

text \<open>An invariant of a part of the tables is kept by what leaves the part alone.\<close>

lemma keeps_conj_frames:
  assumes "frames p m" and "keeps ok m"
    and "\<And>d d' n k. p d' = p d \<Longrightarrow> n \<le> k \<Longrightarrow> ok' d n \<Longrightarrow> ok' d' k"
  shows "keeps (\<lambda>d n. ok d n \<and> ok' d n) m"
  using assms unfolding keeps_def frames_def by blast

section \<open>Taking a run apart\<close>

lemma external_Inr:
  assumes "external f w = (Inr a, w')"
  obtains fs where "f (w\<lparr>w_faults := fs\<rparr>) = (Inr a, w')"
proof (cases "w_faults w")
  case Nil
  with assms have "f (w\<lparr>w_faults := []\<rparr>) = (Inr a, w')" by (simp add: external_def) (metis Nil world.surjective world.update_convs(6))
  with that show ?thesis by blast
next
  case (Cons x xs)
  with assms that show ?thesis by (cases x) (auto simp: external_def)
qed

lemma external_Inl:
  assumes "external f w = (Inl err, w')"
  obtains (fault) "err = ConnError" | (refused) fs where "f (w\<lparr>w_faults := fs\<rparr>) = (Inl err, w')"
proof (cases "w_faults w")
  case Nil
  with assms have "f (w\<lparr>w_faults := []\<rparr>) = (Inl err, w')" by (simp add: external_def) (metis Nil world.surjective world.update_convs(6))
  with refused show ?thesis by blast
next
  case (Cons x xs)
  with assms fault refused show ?thesis by (cases x) (auto simp: external_def)
qed

lemma external_InrD: "external f w = (Inr a, w') \<Longrightarrow> \<exists>fs. f (w\<lparr>w_faults := fs\<rparr>) = (Inr a, w')"
  by (erule external_Inr) blast

lemma of_sum_Inr [simp]: "of_sum r w = (Inr a, w') \<longleftrightarrow> r = Inr a \<and> w' = w"
  by (auto simp: of_sum_def)

lemma sbind_cases:
  assumes "sbind m f w = (r, w')"
  obtains (failed) e where "m w = (Inl e, w')" and "r = Inl e"
  | (went_on) a w1 where "m w = (Inr a, w1)" and "f a w1 = (r, w')"
  using assms by (auto simp: sbind_def split: prod.splits sum.splits)

lemma sbind_of_sumE:
  assumes "sbind (of_sum x) f w = (r, w')"
  obtains (failed) e where "x = Inl e" and "r = Inl e" and "w' = w" | (went_on) a where "x = Inr a" and "f a w = (r, w')"
  using assms by (cases x) (auto simp: sfail_def)

lemma on_error_Inl: "on_error m h w = (Inl e, w') \<longleftrightarrow> (\<exists>e0. m w = (Inl e0, w') \<and> e = h e0)"
  by (auto simp: on_error_def split: prod.splits sum.splits)

lemma keeps_sbind_Inr:
  assumes "keeps ok m" and "\<And>w a w'. m w = (Inr a, w') \<Longrightarrow> keeps ok (f a)"
  shows "keeps ok (sbind m f)"
  unfolding keeps_def
proof (intro allI impI)
  fix w :: world assume w: "ok (w_db w) (w_fresh w)"
  obtain r w' where s: "sbind m f w = (r, w')" by force
  then have "ok (w_db w') (w_fresh w') \<and> w_fresh w \<le> w_fresh w'"
  proof (cases rule: sbind_cases)
    case (failed err)
    with keepsD [OF assms(1) w] show ?thesis by blast
  next
    case (went_on a w1)
    from keepsD [OF assms(1) w went_on(1)] keepsD [OF assms(2) [OF went_on(1)] _ went_on(2)] show ?thesis by simp
  qed
  with s show "ok (w_db (snd (sbind m f w))) (w_fresh (snd (sbind m f w))) \<and> w_fresh w \<le> w_fresh (snd (sbind m f w))"
    by simp
qed

lemma rand_Inr:
  assumes "rand_bytes n w = (Inr bs, w')"
  shows "length bs = n \<and> (\<forall>b \<in> set bs. b < 256)"
  using external_InrD [OF assms [unfolded rand_bytes_def]] by auto

lemma find_in: "find P xs = Some x \<Longrightarrow> x \<in> set xs \<and> P x"
  by (metis find_Some_iff nth_mem)

lemma find_unique:
  "distinct (map f xs) \<Longrightarrow> x \<in> set xs \<Longrightarrow> find (\<lambda>y. f y = f x) xs = Some x"
  by (induction xs) (auto simp: rev_image_eqI)

lemma query_world: "query f w = (r, w') \<Longrightarrow> \<exists>fs. w' = w\<lparr>w_faults := fs\<rparr>"
  by (auto simp: query_def external_def split: list.splits fault.splits) (metis world.surjective world.update_convs(6))+

lemma rand_now: "rand_bytes n w = (r, w') \<Longrightarrow> w_now w' = w_now w"
  by (auto simp: rand_bytes_def external_def split: list.splits fault.splits)

section \<open>Steps that only meet faults\<close>

definition quiet :: "'a svc \<Rightarrow> bool" where
  "quiet m \<longleftrightarrow> (\<forall>w. \<exists>fs. snd (m w) = w\<lparr>w_faults := fs\<rparr>)"

named_theorems quiet_intros "methods that change nothing but the faults to come"

lemma quietD: "quiet m \<Longrightarrow> m w = (r, w') \<Longrightarrow> \<exists>fs. w' = w\<lparr>w_faults := fs\<rparr>"
  by (metis quiet_def snd_conv)

lemma quiet_same:
  assumes "quiet m" and "m w = (r, w')"
  shows "w_db w' = w_db w" "w_now w' = w_now w" "w_fresh w' = w_fresh w" "w_outbox w' = w_outbox w"
  using quietD [OF assms] by auto

lemma same_world: "\<exists>fs. w = w\<lparr>w_faults := fs\<rparr>"
  by (rule exI [of _ "w_faults w"]) simp

lemma quiet_pure [quiet_intros]: "quiet (sret a)" "quiet (sfail e)" "quiet (of_sum x)" "quiet now"
  by (simp_all add: quiet_def sret_def sfail_def of_sum_def now_def same_world)

lemma quiet_query [quiet_intros]: "quiet (query f)"
  unfolding quiet_def using query_world by (metis surjective_pairing)

lemma quiet_sbind [quiet_intros]:
  assumes "quiet m" and "\<And>a. quiet (f a)"
  shows "quiet (sbind m f)"
  unfolding quiet_def
proof
  fix w :: world
  obtain r w' where s: "sbind m f w = (r, w')" by force
  then have "\<exists>fs. w' = w\<lparr>w_faults := fs\<rparr>"
  proof (cases rule: sbind_cases)
    case (failed e)
    with quietD [OF assms(1)] show ?thesis by blast
  next
    case (went_on a w1)
    from quietD [OF assms(1) went_on(1)] quietD [OF assms(2) went_on(2)] show ?thesis by auto
  qed
  with s show "\<exists>fs. snd (sbind m f w) = w\<lparr>w_faults := fs\<rparr>" by simp
qed

lemma quiet_on_error [quiet_intros]: "quiet m \<Longrightarrow> quiet (on_error m h)"
  by (auto simp: quiet_def on_error_def split: prod.split sum.split) (metis snd_conv)+

lemma quiet_if [quiet_intros]: "quiet a \<Longrightarrow> quiet b \<Longrightarrow> quiet (if c then a else b)"
  by simp

end
