(* ===== verification/UserService.thy ===== *)
theory UserService
  imports Effects
begin

text \<open>
  internal/service/user_service.go and internal/auth/password.go: accounts, their roles and
  their passwords.  Each method is one definition with the early returns of the Go method as
  branches; \<open>fmt.Errorf("...: %w", err)\<close> is \<open>Wrap\<close>.
\<close>

section \<open>Normalisation\<close>

definition lower :: "ext \<Rightarrow> string \<Rightarrow> string" where
  "lower e s = ToLower (ext_unicode_lower e) s"

text \<open>The regular expression \<open>^[a-z0-9_]{3,32}$\<close>.\<close>

definition handlePattern :: "string \<Rightarrow> bool" where
  "handlePattern s \<longleftrightarrow> 3 \<le> length s \<and> length s \<le> 32 \<and> list_all handle_char s"

definition normalizeHandle :: "ext \<Rightarrow> string \<Rightarrow> goError + string" where
  "normalizeHandle e handle =
     (let normalized = lower e (TrimSpace handle) in
      if \<not> handlePattern normalized then Inl (Sentinel ErrInvalidHandle) else Inr normalized)"

definition normalizeEmail :: "ext \<Rightarrow> string \<Rightarrow> goError + string" where
  "normalizeEmail e email =
     (let normalized = lower e (TrimSpace email) in
      case ext_parse_address e normalized of
        None \<Rightarrow> Inl (Sentinel ErrInvalidEmail)
      | Some addr \<Rightarrow> if addr \<noteq> normalized then Inl (Sentinel ErrInvalidEmail) else Inr normalized)"

definition validatePassword :: "string \<Rightarrow> goError + unit" where
  "validatePassword password =
     (if length (TrimSpace password) < 8 then Inl (Sentinel ErrInvalidPassword)
      else if TrimSpace password \<noteq> password then Inl (Sentinel ErrInvalidPassword)
      else Inr ())"

definition normalizeRoles :: "ext \<Rightarrow> string list \<Rightarrow> string list" where
  "normalizeRoles e roles =
     (let seen = RoleUser # filter (\<lambda>r. r \<in> {RoleUser, RoleAdmin, RoleTester}) (map (\<lambda>r. lower e (TrimSpace r)) roles)
      in filter (\<lambda>r. r \<in> set seen) [RoleUser, RoleAdmin, RoleTester])"

text \<open>\<open>auth.HashPassword\<close> draws a salt of 16 bytes; \<open>auth.ComparePassword\<close>.\<close>

definition HashPassword :: "ext \<Rightarrow> string \<Rightarrow> string svc" where
  "HashPassword e password = sbind (rand_bytes 16) (\<lambda>salt.
     case ext_bcrypt_generate e password salt of
       None \<Rightarrow> sfail (ErrorString ''bcrypt'')
     | Some h \<Rightarrow> sret h)"

definition ComparePassword :: "ext \<Rightarrow> string \<Rightarrow> string \<Rightarrow> bool" where
  "ComparePassword e hash password = ext_bcrypt_compare e hash password"

definition mapConstraintError :: "goError \<Rightarrow> goError" where
  "mapConstraintError err =
     (case as_pg err of
        None \<Rightarrow> Wrap ''database operation'' err
      | Some c \<Rightarrow>
          if c = ''users_email_key'' then Sentinel ErrEmailTaken
          else if c = ''users_handle_key'' then Sentinel ErrHandleTaken
          else if c \<in> {''users_handle_format'', ''users_handle_length'', ''users_handle_lowercase''}
            then Sentinel ErrInvalidHandle
          else if c \<in> {''users_email_lowercase'', ''users_email_length''} then Sentinel ErrInvalidEmail
          else Wrap (''database constraint '' @ c) err)"

section \<open>Users\<close>

record user =
  user_ID :: uuid
  user_Handle :: string
  user_Email :: string
  user_IsActive :: bool
  user_Roles :: "string list"
  user_CreatedAt :: int
  user_UpdatedAt :: int

record updateUserInput =
  uu_ActorUserID :: uuid
  uu_UserID :: uuid
  uu_Handle :: string
  uu_Email :: string
  uu_Password :: string
  uu_IsActive :: bool
  uu_Roles :: "string list"

fun add_role_list :: "uuid \<Rightarrow> string list \<Rightarrow> unit svc" where
  "add_role_list i [] = sret ()"
| "add_role_list i (role # roles) =
     sbind (on_error (sql_AddRoleToUser i role) (Wrap (''assign role '' @ role))) (\<lambda>_. add_role_list i roles)"

definition setRoles :: "ext \<Rightarrow> uuid \<Rightarrow> string list \<Rightarrow> unit svc" where
  "setRoles e i roles =
     sbind (on_error (sql_RemoveAllRolesFromUser i) (Wrap ''clear user roles''))
       (\<lambda>_. add_role_list i (normalizeRoles e roles))"

definition hydrateUser :: "user_row \<Rightarrow> user svc" where
  "hydrateUser row =
     sbind (on_error (sql_ListRoleNamesByUser (ur_ID row)) (Wrap ''list user roles'')) (\<lambda>roles.
     sret \<lparr>user_ID = ur_ID row, user_Handle = ur_Handle row, user_Email = ur_Email row,
           user_IsActive = ur_IsActive row, user_Roles = roles,
           user_CreatedAt = ur_CreatedAt row, user_UpdatedAt = ur_UpdatedAt row\<rparr>)"

definition not_found_or :: "sentinel \<Rightarrow> string \<Rightarrow> goError \<Rightarrow> goError" where
  "not_found_or s msg err = (if errors_is err NoRows then Sentinel s else Wrap msg err)"

definition GetUser :: "uuid \<Rightarrow> user svc" where
  "GetUser i = sbind (on_error (sql_GetUserByID i) (not_found_or ErrUserNotFound ''get user'')) hydrateUser"

definition getUserWithQueries :: "uuid \<Rightarrow> user svc" where
  "getUserWithQueries i =
     sbind (on_error (sql_GetUserByID i) (not_found_or ErrUserNotFound ''get user'')) hydrateUser"

definition Register :: "ext \<Rightarrow> string \<Rightarrow> string \<Rightarrow> string \<Rightarrow> user svc" where
  "Register e handle email password =
     sbind (of_sum (normalizeHandle e handle)) (\<lambda>handle.
     sbind (of_sum (normalizeEmail e email)) (\<lambda>email.
     sbind (of_sum (validatePassword password)) (\<lambda>_.
     sbind (on_error (HashPassword e password) (Wrap ''hash password'')) (\<lambda>hash.
     sbind (with_tx ''begin register tx'' ''commit register tx''
        (sbind (on_error (sql_CreateUser e handle email hash True) mapConstraintError) (\<lambda>row.
         sbind (setRoles e (ur_ID row) [RoleUser]) (\<lambda>_. sret row)))) (\<lambda>row.
     GetUser (ur_ID row))))))"

definition Authenticate :: "ext \<Rightarrow> string \<Rightarrow> string \<Rightarrow> user svc" where
  "Authenticate e email password =
     sbind (on_error (of_sum (normalizeEmail e email)) (\<lambda>_. Sentinel ErrInvalidCredentials)) (\<lambda>email.
     sbind (on_error (sql_GetUserForAuthByEmail email) (not_found_or ErrInvalidCredentials ''get user for auth'')) (\<lambda>row.
     if \<not> ur_IsActive row then sfail (Sentinel ErrInactiveUser)
     else if \<not> ComparePassword e (ur_PasswordHash row) password then sfail (Sentinel ErrInvalidCredentials)
     else hydrateUser row))"

text \<open>The loop of \<open>ListUsers\<close>: \<open>seen\<close> maps a user to its index in the result.\<close>

fun list_users_loop :: "user_role_row list \<Rightarrow> user list \<Rightarrow> (uuid \<rightharpoonup> nat) \<Rightarrow> user list" where
  "list_users_loop [] users seen = users"
| "list_users_loop (r # rs) users seen =
     (let u = url_User r;
          (idx, users, seen) =
            (case seen (ur_ID u) of
               Some idx \<Rightarrow> (idx, users, seen)
             | None \<Rightarrow> (length users, users @ [\<lparr>user_ID = ur_ID u, user_Handle = ur_Handle u, user_Email = ur_Email u,
                 user_IsActive = ur_IsActive u, user_Roles = [], user_CreatedAt = ur_CreatedAt u,
                 user_UpdatedAt = ur_UpdatedAt u\<rparr>], seen(ur_ID u \<mapsto> length users)));
          users = (if url_RoleName r \<noteq> []
            then users[idx := (users ! idx)\<lparr>user_Roles := user_Roles (users ! idx) @ [url_RoleName r]\<rparr>]
            else users)
      in list_users_loop rs users seen)"

definition ListUsers :: "user list svc" where
  "ListUsers = sbind (on_error sql_ListUsersWithRoles (Wrap ''list users''))
     (\<lambda>rows. sret (list_users_loop rows [] Map.empty))"

definition ListRoles :: "(string \<times> string) list svc" where
  "ListRoles = sbind (on_error sql_ListRoles (Wrap ''list roles''))
     (\<lambda>rows. sret (map (\<lambda>r. (rr_Name r, rr_Description r)) rows))"

definition UpdateProfile :: "ext \<Rightarrow> uuid \<Rightarrow> string \<Rightarrow> string \<Rightarrow> user svc" where
  "UpdateProfile e i handle email =
     sbind (of_sum (normalizeHandle e handle)) (\<lambda>handle.
     sbind (of_sum (normalizeEmail e email)) (\<lambda>email.
     sbind (on_error (sql_UpdateUserProfile e i handle email) mapConstraintError) hydrateUser))"

definition CreateUser :: "ext \<Rightarrow> string \<Rightarrow> string \<Rightarrow> string \<Rightarrow> bool \<Rightarrow> string list \<Rightarrow> user svc" where
  "CreateUser e handle email password active roles =
     sbind (of_sum (normalizeHandle e handle)) (\<lambda>handle.
     sbind (of_sum (normalizeEmail e email)) (\<lambda>email.
     sbind (of_sum (validatePassword password)) (\<lambda>_.
     sbind (on_error (HashPassword e password) (Wrap ''hash password'')) (\<lambda>hash.
     sbind (with_tx ''begin create user tx'' ''commit create user tx''
        (sbind (on_error (sql_CreateUser e handle email hash active) mapConstraintError) (\<lambda>row.
         sbind (setRoles e (ur_ID row) (normalizeRoles e roles)) (\<lambda>_. sret row)))) (\<lambda>row.
     GetUser (ur_ID row))))))"

definition ensureActiveAdminInvariant :: "string list \<Rightarrow> string list \<Rightarrow> bool \<Rightarrow> unit svc" where
  "ensureActiveAdminInvariant existingRoles newRoles isActive =
     (if RoleAdmin \<notin> set existingRoles then sret ()
      else if RoleAdmin \<in> set newRoles \<and> isActive then sret ()
      else sbind (on_error (sql_CountUsersByRole RoleAdmin) (Wrap ''count admins before update'')) (\<lambda>count.
        if count \<le> 1 then sfail (Sentinel ErrLastAdmin) else sret ()))"

definition ensureDeleteAllowed :: "string list \<Rightarrow> unit svc" where
  "ensureDeleteAllowed existingRoles =
     (if RoleAdmin \<notin> set existingRoles then sret ()
      else sbind (on_error (sql_CountUsersByRole RoleAdmin) (Wrap ''count admins before delete'')) (\<lambda>count.
        if count \<le> 1 then sfail (Sentinel ErrLastAdmin) else sret ()))"

definition update_password :: "ext \<Rightarrow> uuid \<Rightarrow> string \<Rightarrow> unit svc" where
  "update_password e i password =
     (if password \<noteq> [] then
        sbind (of_sum (validatePassword password)) (\<lambda>_.
        sbind (on_error (HashPassword e password) (Wrap ''hash password'')) (\<lambda>hash.
        on_error (sql_SetUserPassword i hash) (Wrap ''set password'')))
      else sret ())"

definition UpdateUser :: "ext \<Rightarrow> updateUserInput \<Rightarrow> user svc" where
  "UpdateUser e inp =
     (if uu_Password inp \<noteq> [] \<and> uu_Password inp \<noteq> TrimSpace (uu_Password inp)
      then sfail (ErrorString ''password must not start or end with spaces'')
      else
        sbind (of_sum (normalizeHandle e (uu_Handle inp))) (\<lambda>handle.
        sbind (of_sum (normalizeEmail e (uu_Email inp))) (\<lambda>email.
        let roles = normalizeRoles e (uu_Roles inp) in
        sbind (with_tx ''begin update user tx'' ''commit update user tx''
          (sbind (getUserWithQueries (uu_UserID inp)) (\<lambda>existing.
           sbind (ensureActiveAdminInvariant (user_Roles existing) roles (uu_IsActive inp)) (\<lambda>_.
           sbind (on_error (sql_AdminUpdateUser e (uu_UserID inp) handle email (uu_IsActive inp)) mapConstraintError) (\<lambda>_.
           sbind (update_password e (uu_UserID inp) (uu_Password inp)) (\<lambda>_.
           setRoles e (uu_UserID inp) roles)))))) (\<lambda>_.
        GetUser (uu_UserID inp)))))"

definition DeleteUser :: "uuid \<Rightarrow> uuid \<Rightarrow> unit svc" where
  "DeleteUser actorUserID targetUserID =
     (if actorUserID = targetUserID then sfail (Sentinel ErrCannotDeleteSelf)
      else with_tx ''begin delete user tx'' ''commit delete user tx''
        (sbind (getUserWithQueries targetUserID) (\<lambda>existing.
         sbind (ensureDeleteAllowed (user_Roles existing)) (\<lambda>_.
         on_error (sql_DeleteUser targetUserID) (Wrap ''delete user'')))))"

definition SetPasswordByEmail :: "ext \<Rightarrow> string \<Rightarrow> string \<Rightarrow> unit svc" where
  "SetPasswordByEmail e email password =
     sbind (of_sum (normalizeEmail e email)) (\<lambda>email.
     sbind (of_sum (validatePassword password)) (\<lambda>_.
     sbind (on_error (sql_GetUserByEmail email) (not_found_or ErrUserNotFound ''get user by email'')) (\<lambda>row.
     sbind (on_error (HashPassword e password) (Wrap ''hash password'')) (\<lambda>hash.
     on_error (sql_SetUserPassword (ur_ID row) hash) (Wrap ''set password'')))))"

definition EnsureBootstrapAdmin :: "ext \<Rightarrow> string \<Rightarrow> string \<Rightarrow> string \<Rightarrow> unit svc" where
  "EnsureBootstrapAdmin e handle0 email0 password =
     (let handle = TrimSpace handle0; email = TrimSpace email0 in
      if TrimSpace password = [] \<and> handle = [] \<and> email = [] then sret ()
      else if handle = [] \<or> email = [] \<or> password = []
        then sfail (ErrorString ''bootstrap admin handle, email, and password must all be set together'')
      else
        sbind (of_sum (normalizeEmail e email)) (\<lambda>normalizedEmail.
        sbind (attempt (sql_GetUserByEmail normalizedEmail)) (\<lambda>res.
        let roles = [RoleUser, RoleAdmin] in
        case res of
          Inl err \<Rightarrow>
            if \<not> errors_is err NoRows then sfail (Wrap ''lookup bootstrap admin'' err)
            else sbind (CreateUser e handle email password True roles) (\<lambda>_. sret ())
        | Inr row \<Rightarrow>
            sbind (UpdateUser e \<lparr>uu_ActorUserID = ur_ID row, uu_UserID = ur_ID row, uu_Handle = handle, uu_Email = email,
                uu_Password = password, uu_IsActive = True, uu_Roles = roles\<rparr>) (\<lambda>_. sret ()))))"

section \<open>Seeding testers\<close>

definition createTesterRow :: "ext \<Rightarrow> string \<Rightarrow> string \<Rightarrow> string \<Rightarrow> unit svc" where
  "createTesterRow e handle email sentinelHash =
     with_tx ''begin seed tester tx'' ''commit seed tester tx''
       (sbind (on_error (sql_CreateUser e handle email sentinelHash True) mapConstraintError) (\<lambda>row.
        setRoles e (ur_ID row) [RoleUser, RoleTester]))"

definition tester_handle :: "int \<Rightarrow> string" where
  "tester_handle n = ''tester_'' @ itoa n"

definition tester_email :: "string \<Rightarrow> int \<Rightarrow> string" where
  "tester_email domain n = ''tester_'' @ itoa n @ ''@'' @ domain"

text \<open>The loop has no bound of its own: it skips numbers whose handle or email is taken.\<close>

partial_function (option) seed_loop ::
    "ext \<Rightarrow> string \<Rightarrow> string \<Rightarrow> int \<Rightarrow> int \<Rightarrow> int \<Rightarrow> world \<Rightarrow> ((int \<times> goError option) \<times> world) option" where
  "seed_loop e domain hash need created nxt w =
     (if created < need then
        (case createTesterRow e (tester_handle nxt) (tester_email domain nxt) hash w of
           (Inr _, w') \<Rightarrow> seed_loop e domain hash need (created + 1) (nxt + 1) w'
         | (Inl err, w') \<Rightarrow>
             if errors_is err (Sentinel ErrHandleTaken) \<or> errors_is err (Sentinel ErrEmailTaken)
             then seed_loop e domain hash need created (nxt + 1) w'
             else Some ((created, Some err), w'))
      else Some ((created, None), w))"

definition SeedTesters :: "ext \<Rightarrow> int \<Rightarrow> string \<Rightarrow> string \<Rightarrow> world \<Rightarrow> ((int \<times> goError option) \<times> world) option" where
  "SeedTesters e target emailDomain sentinelHash w =
     (if target < 0 then Some ((0, Some (ErrorString ''seed-testers count must be non-negative'')), w)
      else if TrimSpace emailDomain = [] then Some ((0, Some (ErrorString ''seed-testers email domain is required'')), w)
      else if TrimSpace sentinelHash = [] then Some ((0, Some (ErrorString ''seed-testers sentinel hash is required'')), w)
      else
        (case on_error (sql_CountUsersByRole RoleTester) (Wrap ''count tester role'') w of
           (Inl err, w') \<Rightarrow> Some ((0, Some err), w')
         | (Inr current, w') \<Rightarrow>
             if target \<le> current then Some ((0, None), w')
             else seed_loop e emailDomain sentinelHash (target - current) 0 (current + 1) w'))"

end
