(* ===== verification/Accounts.thy ===== *)
theory Accounts
  imports UserService
begin

text \<open>
  What the methods of UserService keep and do: the invariant of the account tables under every
  sequence of faults, the effect of \<open>setRoles\<close>, and that an administrator remains.
\<close>

section \<open>The invariant of the accounts\<close>

text \<open>
  Identifiers, handles and email addresses are unique; handles have the documented format; the
  roles of a user are a set of existing roles of an existing user; the roles are those of the
  migrations.
\<close>

definition users_ok :: "db \<Rightarrow> uuid \<Rightarrow> bool" where
  "users_ok d n \<longleftrightarrow>
     distinct (map ur_ID (db_users d)) \<and> distinct (map ur_Handle (db_users d)) \<and>
     distinct (map ur_Email (db_users d)) \<and>
     (\<forall>u \<in> set (db_users d). ur_ID u < n \<and> handlePattern (ur_Handle u)) \<and>
     distinct (db_user_roles d) \<and>
     (\<forall>p \<in> set (db_user_roles d). fst p \<in> ur_ID ` set (db_users d) \<and> snd p \<in> rr_ID ` set (db_roles d)) \<and>
     db_roles d = db_roles initial_db"

interpretation users: table_invariant users_ok
  by unfold_locales (force simp: users_ok_def)

lemma handle_char_ascii: "handle_char c \<Longrightarrow> (of_char c :: nat) < 128"
  by (auto simp: handle_char_def Let_def)

lemma char_length_handle: "list_all handle_char s \<Longrightarrow> char_length s = length s"
  unfolding char_length_def by (induction s) (auto dest: handle_char_ascii)

lemma user_violation_None:
  assumes "user_violation e d self handle email = None"
  shows "handlePattern handle" and "\<And>u. u \<in> set (db_users d) \<Longrightarrow> Some (ur_ID u) \<noteq> self \<Longrightarrow> ur_Handle u \<noteq> handle \<and> ur_Email u \<noteq> email"
proof -
  have "list_all handle_char handle" "3 \<le> char_length handle" "char_length handle \<le> 32"
    using assms by (auto simp: user_violation_def Let_def split: if_splits)
  then show "handlePattern handle" by (simp add: handlePattern_def char_length_handle)
  show "ur_Handle u \<noteq> handle \<and> ur_Email u \<noteq> email" if "u \<in> set (db_users d)" "Some (ur_ID u) \<noteq> self" for u
    using assms that by (auto simp: user_violation_def Let_def split: if_splits)
qed

lemma users_ok_insert:
  assumes ok: "users_ok d n" and v: "user_violation e d None h m = None"
    and row: "ur_ID row = n" "ur_Handle row = h" "ur_Email row = m"
  shows "users_ok (d\<lparr>db_users := db_users d @ [row]\<rparr>) (n + 1)"
proof -
  have new: "h \<notin> ur_Handle ` set (db_users d)" "m \<notin> ur_Email ` set (db_users d)"
    using user_violation_None(2) [OF v] by auto
  moreover have "ur_ID row \<notin> ur_ID ` set (db_users d)" using ok row by (auto simp: users_ok_def)
  moreover have "handlePattern h" by (rule user_violation_None(1) [OF v])
  ultimately show ?thesis using ok row by (simp add: users_ok_def) (metis less_Suc_eq)
qed

lemma keeps_sql_CreateUser [keeps_intros]: "keeps users_ok (sql_CreateUser e h m p a)"
  unfolding sql_CreateUser_def
  by (rule keeps_external)
    (auto simp: keeps_def Let_def split: option.split intro!: users_ok_insert [unfolded Suc_eq_plus1 [symmetric]])

lemma map_update_distinct:
  assumes "distinct (map f xs)" and "distinct (map ur_ID xs)"
    and "\<And>u. u \<in> set xs \<Longrightarrow> ur_ID u = i \<Longrightarrow> f (g u) = v" and "\<And>u. u \<in> set xs \<Longrightarrow> ur_ID u \<noteq> i \<Longrightarrow> f u \<noteq> v"
  shows "distinct (map f (map (\<lambda>u. if ur_ID u = i then g u else u) xs))"
  using assms
proof (induction xs)
  case (Cons x xs)
  let ?g = "\<lambda>u. if ur_ID u = i then g u else u"
  have IH: "distinct (map f (map ?g xs))" using Cons by (intro Cons.IH) auto
  have "f (?g x) \<noteq> f (?g y)" if y: "y \<in> set xs" for y
  proof -
    have "f x \<noteq> f y" "ur_ID x \<noteq> ur_ID y" using Cons.prems(1,2) y by auto
    moreover have "ur_ID x = i \<Longrightarrow> f (g x) = v" "ur_ID y = i \<Longrightarrow> f (g y) = v" 
      "ur_ID x \<noteq> i \<Longrightarrow> f x \<noteq> v" "ur_ID y \<noteq> i \<Longrightarrow> f y \<noteq> v" using Cons.prems(3,4) y by auto
    ultimately show ?thesis by (cases "ur_ID x = i"; cases "ur_ID y = i"; metis)
  qed
  then have "f (?g x) \<notin> set (map f (map ?g xs))" by (simp only: set_map) blast
  with IH show ?case by (simp only: list.map distinct.simps) simp
qed simp

lemma users_ok_replace:
  assumes ok: "users_ok d n" and ids: "map ur_ID us = map ur_ID (db_users d)"
    and "distinct (map ur_Handle us)" and "distinct (map ur_Email us)"
    and "\<And>u. u \<in> set us \<Longrightarrow> handlePattern (ur_Handle u)"
  shows "users_ok (d\<lparr>db_users := us\<rparr>) n"
proof -
  have s: "ur_ID ` set us = ur_ID ` set (db_users d)" using ids by (metis list.set_map)
  have "ur_ID u < n" if "u \<in> set us" for u
    using ok that s unfolding users_ok_def by (metis imageE imageI)
  moreover have "distinct (map ur_ID us)" using ok ids by (simp add: users_ok_def)
  ultimately show ?thesis using assms s unfolding users_ok_def by (elim conjE) simp
qed

lemma users_ok_update:
  assumes ok: "users_ok d n" and v: "user_violation e d (Some i) h m = None"
    and f: "\<And>u. ur_ID (f u) = ur_ID u \<and> ur_Handle (f u) = h \<and> ur_Email (f u) = m"
  shows "users_ok (d\<lparr>db_users := map (\<lambda>u. if ur_ID u = i then f u else u) (db_users d)\<rparr>) n"
proof -
  note vi = user_violation_None [OF v]
  have ids: "map ur_ID (map (\<lambda>u. if ur_ID u = i then f u else u) (db_users d)) = map ur_ID (db_users d)"
    using f by simp
  have "distinct (map ur_Handle (map (\<lambda>u. if ur_ID u = i then f u else u) (db_users d)))"
    using ok f vi by (intro map_update_distinct [where v = h]) (auto simp: users_ok_def)
  moreover have "distinct (map ur_Email (map (\<lambda>u. if ur_ID u = i then f u else u) (db_users d)))"
    using ok f vi by (intro map_update_distinct [where v = m]) (auto simp: users_ok_def)
  moreover have "handlePattern (ur_Handle u)"
    if "u \<in> set (map (\<lambda>u. if ur_ID u = i then f u else u) (db_users d))" for u
    using that ok f vi(1) by (auto simp: users_ok_def)
  ultimately show ?thesis by (intro users_ok_replace [OF ok ids]) auto
qed

lemma keeps_update_user_checked:
  assumes "\<And>u. ur_ID (f u) = ur_ID u \<and> ur_Handle (f u) = h \<and> ur_Email (f u) = m"
  shows "keeps users_ok (update_user_checked e i h m f)"
  unfolding update_user_checked_def
  by (rule keeps_external)
    (auto simp: keeps_def update_user_def assms split: option.split intro!: users_ok_update)

lemma keeps_sql_UpdateUserProfile [keeps_intros]: "keeps users_ok (sql_UpdateUserProfile e i h m)"
  unfolding sql_UpdateUserProfile_def by (rule keeps_update_user_checked) simp

lemma keeps_sql_AdminUpdateUser [keeps_intros]: "keeps users_ok (sql_AdminUpdateUser e i h m a)"
  unfolding sql_AdminUpdateUser_def by (rule keeps_update_user_checked) simp

lemma users_ok_same:
  assumes "users_ok d n" and "map ur_ID us = map ur_ID (db_users d)"
    and "map ur_Handle us = map ur_Handle (db_users d)" and "map ur_Email us = map ur_Email (db_users d)"
  shows "users_ok (d\<lparr>db_users := us\<rparr>) n"
proof (rule users_ok_replace [OF assms(1,2)])
  have "ur_Handle ` set us = ur_Handle ` set (db_users d)" using assms(3) by (metis list.set_map)
  then show "handlePattern (ur_Handle u)" if "u \<in> set us" for u
    using assms(1) that unfolding users_ok_def by (metis imageE imageI)
qed (use assms in \<open>simp_all add: users_ok_def\<close>)

lemma keeps_sql_SetUserPassword [keeps_intros]: "keeps users_ok (sql_SetUserPassword i h)"
  unfolding sql_SetUserPassword_def
  by (rule keeps_external) (auto simp: keeps_def update_user_def intro!: users_ok_same)

lemma users_ok_delete: "users_ok d n \<Longrightarrow> users_ok (delete_user i d) n"
  by (auto simp: users_ok_def delete_user_def distinct_map_filter)

lemma keeps_sql_DeleteUser [keeps_intros]: "keeps users_ok (sql_DeleteUser i)"
  unfolding sql_DeleteUser_def by (rule keeps_exec) (rule users_ok_delete)

lemma keeps_sql_RemoveAllRoles [keeps_intros]: "keeps users_ok (sql_RemoveAllRolesFromUser i)"
  unfolding sql_RemoveAllRolesFromUser_def by (rule keeps_exec) (auto simp: users_ok_def)

definition role_id :: "string \<Rightarrow> int option" where
  "role_id = map_of [(''user'', 1), (''admin'', 2), (''tester'', 3)]"

lemma add_roles_eq:
  assumes "db_roles d = db_roles initial_db"
  shows "add_roles i name d = d\<lparr>db_user_roles := db_user_roles d @
    (case role_id name of
       None \<Rightarrow> [] | Some r \<Rightarrow> if (i, r) \<in> set (db_user_roles d) then [] else [(i, r)])\<rparr>"
  unfolding add_roles_def assms role_id_def by (auto simp: initial_db_def)

lemma role_id_Some:
  "role_id name = Some k \<Longrightarrow> k \<in> rr_ID ` set (db_roles initial_db) \<and> name \<in> rr_Name ` set (db_roles initial_db)"
  by (auto simp: role_id_def initial_db_def split: if_splits)

lemma keeps_sql_AddRoleToUser [keeps_intros]: "keeps users_ok (sql_AddRoleToUser i name)"
  unfolding sql_AddRoleToUser_def
proof (rule keeps_external)
  have "users_ok (add_roles i name d) n" if "users_ok d n" "\<not> (name \<in> rr_Name ` set (db_roles d) \<and> i \<notin> ur_ID ` set (db_users d))" for d n
  proof -
    have r: "db_roles d = db_roles initial_db" using that by (simp add: users_ok_def)
    show ?thesis
    proof (cases "role_id name")
      case None
      with that r show ?thesis by (simp add: add_roles_eq)
    next
      case (Some k)
      have k: "k \<in> rr_ID ` set (db_roles initial_db)" "name \<in> rr_Name ` set (db_roles initial_db)"
        using role_id_Some [OF Some] by simp_all
      with that r have "i \<in> ur_ID ` set (db_users d)" by simp
      with that r Some k show ?thesis by (simp add: add_roles_eq users_ok_def)
    qed
  qed
  then show "keeps users_ok (\<lambda>w. if name \<in> rr_Name ` set (db_roles (w_db w)) \<and> i \<notin> ur_ID ` set (db_users (w_db w))
     then (Inl (PgError ''user_roles_user_id_fkey''), w)
     else (Inr (), w\<lparr>w_db := add_roles i name (w_db w)\<rparr>))"
    by (simp add: keeps_def)
qed

lemma keeps_user_reads [keeps_intros]:
  "keeps ok (sql_GetUserByEmail m)" "keeps ok (sql_GetUserForAuthByEmail m)" "keeps ok (sql_GetUserByID i)"
  "keeps ok sql_ListRoles" "keeps ok (sql_ListRoleNamesByUser i)" "keeps ok sql_ListUsersWithRoles"
  "keeps ok (sql_CountUsersByRole name)"
  unfolding sql_GetUserByEmail_def sql_GetUserForAuthByEmail_def sql_GetUserByID_def sql_ListRoles_def
    sql_ListRoleNamesByUser_def sql_ListUsersWithRoles_def sql_CountUsersByRole_def
  by (rule keeps_query)+

section \<open>Every method keeps the invariant\<close>

lemmas keeps_tx = users.keeps_with_tx

lemma keeps_add_role_list [keeps_intros]: "keeps users_ok (add_role_list i roles)"
  by (induction roles) (auto intro!: keeps_intros)

lemma keeps_setRoles [keeps_intros]: "keeps users_ok (setRoles e i roles)"
  unfolding setRoles_def by (intro keeps_intros)

lemma keeps_HashPassword [keeps_intros]: "keeps ok (HashPassword e password)"
  unfolding HashPassword_def by (intro keeps_intros) (auto intro: keeps_intros split: option.split)

lemma keeps_hydrateUser [keeps_intros]: "keeps ok (hydrateUser row)"
  unfolding hydrateUser_def by (intro keeps_intros)

lemma keeps_GetUser [keeps_intros]: "keeps ok (GetUser i)" "keeps ok (getUserWithQueries i)"
  unfolding GetUser_def getUserWithQueries_def by (intro keeps_intros)+

lemma keeps_Register [keeps_intros]: "keeps users_ok (Register e handle email password)"
  unfolding Register_def by (intro keeps_intros keeps_tx)

lemma keeps_Authenticate [keeps_intros]: "keeps ok (Authenticate e email password)"
  unfolding Authenticate_def by (intro keeps_intros)

lemma keeps_ListUsers [keeps_intros]: "keeps ok ListUsers" "keeps ok ListRoles"
  unfolding ListUsers_def ListRoles_def by (intro keeps_intros)+

lemma keeps_UpdateProfile [keeps_intros]: "keeps users_ok (UpdateProfile e i handle email)"
  unfolding UpdateProfile_def by (intro keeps_intros)

lemma keeps_CreateUser [keeps_intros]: "keeps users_ok (CreateUser e handle email password active roles)"
  unfolding CreateUser_def by (intro keeps_intros keeps_tx)

lemma keeps_admin_checks [keeps_intros]:
  "keeps ok (ensureActiveAdminInvariant existing new active)" "keeps ok (ensureDeleteAllowed existing)"
  unfolding ensureActiveAdminInvariant_def ensureDeleteAllowed_def by (intro keeps_intros)+

lemma keeps_update_password [keeps_intros]: "keeps users_ok (update_password e i password)"
  unfolding update_password_def by (intro keeps_intros)

lemma keeps_UpdateUser [keeps_intros]: "keeps users_ok (UpdateUser e inp)"
  unfolding UpdateUser_def Let_def by (intro keeps_intros keeps_tx)

lemma keeps_DeleteUser [keeps_intros]: "keeps users_ok (DeleteUser actor target)"
  unfolding DeleteUser_def by (intro keeps_intros keeps_tx)

lemma keeps_SetPasswordByEmail [keeps_intros]: "keeps users_ok (SetPasswordByEmail e email password)"
  unfolding SetPasswordByEmail_def by (intro keeps_intros)

lemma keeps_EnsureBootstrapAdmin [keeps_intros]: "keeps users_ok (EnsureBootstrapAdmin e handle email password)"
  unfolding EnsureBootstrapAdmin_def Let_def
  by (intro keeps_intros) (auto intro!: keeps_intros split: sum.split)

lemma keeps_createTesterRow [keeps_intros]: "keeps users_ok (createTesterRow e handle email hash)"
  unfolding createTesterRow_def by (intro keeps_intros keeps_tx)

section \<open>What a successful step did\<close>

definition roles_of :: "db \<Rightarrow> uuid \<Rightarrow> int set" where
  "roles_of d i = {r. (i, r) \<in> set (db_user_roles d)}"

text \<open>The tables agree but for the roles of one user.\<close>

definition regrants :: "uuid \<Rightarrow> int set \<Rightarrow> db \<Rightarrow> db \<Rightarrow> bool" where
  "regrants i R d d' \<longleftrightarrow> d' = d\<lparr>db_user_roles := db_user_roles d'\<rparr> \<and>
     (\<forall>j. roles_of d' j = (if j = i then R else roles_of d j))"

definition role_ids :: "string list \<Rightarrow> int set" where
  "role_ids names = {r. \<exists>n \<in> set names. role_id n = Some r}"

lemma regrants_trans: "regrants i R d d1 \<Longrightarrow> regrants i S d1 d2 \<Longrightarrow> regrants i S d d2"
  by (auto simp: regrants_def) (metis db.surjective db.update_convs(3))

lemma regrants_db:
  assumes "regrants i R d d'"
  shows "db_roles d' = db_roles d" "db_users d' = db_users d" "db_keys d' = db_keys d"
    "db_invitations d' = db_invitations d" "db_resets d' = db_resets d" "db_games d' = db_games d"
proof -
  have e: "d' = d\<lparr>db_user_roles := db_user_roles d'\<rparr>" using assms by (simp add: regrants_def)
  show "db_roles d' = db_roles d" "db_users d' = db_users d" "db_keys d' = db_keys d"
    "db_invitations d' = db_invitations d" "db_resets d' = db_resets d" "db_games d' = db_games d"
    by (subst e, simp)+
qed

lemma AddRole_Inr:
  assumes "sql_AddRoleToUser i name w = (Inr (), w')" and "db_roles (w_db w) = db_roles initial_db"
  shows "regrants i (roles_of (w_db w) i \<union> set_option (role_id name)) (w_db w) (w_db w') \<and> w_fresh w' = w_fresh w"
proof -
  obtain fs where "(if name \<in> rr_Name ` set (db_roles (w_db w)) \<and> i \<notin> ur_ID ` set (db_users (w_db w))
     then (Inl (PgError ''user_roles_user_id_fkey''), w\<lparr>w_faults := fs\<rparr>)
     else (Inr (), (w\<lparr>w_faults := fs\<rparr>)\<lparr>w_db := add_roles i name (w_db w)\<rparr>)) = (Inr (), w')"
    by (rule external_Inr [OF assms(1) [unfolded sql_AddRoleToUser_def]]) (simp cong: if_cong)
  then have "w_db w' = add_roles i name (w_db w)" "w_fresh w' = w_fresh w" by (auto split: if_splits)
  then show ?thesis
    by (cases "role_id name") (auto simp: add_roles_eq [OF assms(2)] roles_of_def regrants_def)
qed

lemma add_role_list_Inr:
  assumes "add_role_list i names w = (Inr (), w')" and "db_roles (w_db w) = db_roles initial_db"
  shows "regrants i (roles_of (w_db w) i \<union> role_ids names) (w_db w) (w_db w') \<and> w_fresh w' = w_fresh w"
  using assms
proof (induction names arbitrary: w)
  case Nil
  then show ?case by (auto simp: sret_def regrants_def role_ids_def)
next
  case (Cons n ns)
  from Cons.prems(1) obtain w1 where 1: "sql_AddRoleToUser i n w = (Inr (), w1)" and 2: "add_role_list i ns w1 = (Inr (), w')"
    by (auto elim!: sbind_InrE simp: on_error_Inr)
  note a = AddRole_Inr [OF 1 Cons.prems(2)]
  note b = Cons.IH [OF 2 regrants_db(1) [OF conjunct1 [OF a], unfolded Cons.prems(2)]]
  have "roles_of (w_db w1) i \<union> role_ids ns = roles_of (w_db w) i \<union> role_ids (n # ns)"
    using a by (auto simp: regrants_def role_ids_def)
  with a b show ?case using regrants_trans by fastforce
qed

lemma setRoles_Inr:
  assumes "setRoles e i roles w = (Inr (), w')" and "db_roles (w_db w) = db_roles initial_db"
  shows "regrants i (role_ids (normalizeRoles e roles)) (w_db w) (w_db w') \<and> w_fresh w' = w_fresh w"
proof -
  from assms(1) obtain w1 where 1: "sql_RemoveAllRolesFromUser i w = (Inr (), w1)"
    and 2: "add_role_list i (normalizeRoles e roles) w1 = (Inr (), w')"
    unfolding setRoles_def by (auto elim!: sbind_InrE simp: on_error_Inr)
  obtain fs where "(Inr (), (w\<lparr>w_faults := fs\<rparr>)\<lparr>w_db := (w_db w)\<lparr>db_user_roles := filter (\<lambda>p. fst p \<noteq> i) (db_user_roles (w_db w))\<rparr>\<rparr>)
      = (Inr (), w1)"
    by (rule external_Inr [OF 1 [unfolded sql_RemoveAllRolesFromUser_def exec_def]]) (auto cong: if_cong)
  then have w1: "w_db w1 = (w_db w)\<lparr>db_user_roles := filter (\<lambda>p. fst p \<noteq> i) (db_user_roles (w_db w))\<rparr>" "w_fresh w1 = w_fresh w"
    by auto
  then have a: "regrants i {} (w_db w) (w_db w1)" by (auto simp: regrants_def roles_of_def)
  then have "roles_of (w_db w1) i = {}" by (simp add: regrants_def)
  moreover have "db_roles (w_db w1) = db_roles initial_db" using regrants_db(1) [OF a] assms(2) by simp
  ultimately show ?thesis using add_role_list_Inr [OF 2] regrants_trans [OF a] w1(2) by simp
qed

section \<open>An administrator remains\<close>

definition admins :: "db \<Rightarrow> uuid set" where
  "admins d = {i. 2 \<in> roles_of d i}"

lemma role_id_simps [simp]:
  "role_id RoleUser = Some 1" "role_id RoleAdmin = Some 2" "role_id RoleTester = Some 3"
  by (simp_all add: role_id_def RoleUser_def RoleAdmin_def RoleTester_def)

lemma admins_finite: "finite (admins d)"
proof (rule finite_subset)
  show "admins d \<subseteq> fst ` set (db_user_roles d)" by (force simp: admins_def roles_of_def)
qed simp

lemma admins_regrants:
  "regrants i R d d' \<Longrightarrow> admins d' = (if 2 \<in> R then insert i (admins d) else admins d - {i})"
  by (auto simp: regrants_def admins_def split: if_splits)

definition holders :: "db \<Rightarrow> int \<Rightarrow> uuid set" where
  "holders d r = {i. r \<in> roles_of d i}"

lemma count_holders:
  assumes "users_ok d n" and "role_id name = Some k"
  shows "count_by_role d name = int (card (holders d k))"
proof -
  have r: "(\<exists>r \<in> set (db_roles d). rr_ID r = snd p \<and> rr_Name r = name) \<longleftrightarrow> snd p = k" for p :: "uuid \<times> int"
    using assms by (auto simp: users_ok_def initial_db_def role_id_def split: if_splits)
  let ?ps = "filter (\<lambda>p. snd p = k) (db_user_roles d)"
  have "inj_on fst (set ?ps)" by (auto simp: inj_on_def)
  then have "card (fst ` set ?ps) = length ?ps"
    using assms distinct_card [of ?ps] by (simp add: card_image users_ok_def)
  moreover have "fst ` set ?ps = holders d k" by (force simp: holders_def roles_of_def)
  ultimately show ?thesis by (simp add: count_by_role_def r)
qed

lemma count_admins: "users_ok d n \<Longrightarrow> count_by_role d RoleAdmin = int (card (admins d))"
  by (simp add: count_holders admins_def holders_def)

lemma role_names_admin:
  assumes "users_ok d n"
  shows "RoleAdmin \<in> set (role_names d i) \<longleftrightarrow> i \<in> admins d"
  using assms by (auto simp: role_names_def users_ok_def initial_db_def RoleAdmin_def admins_def roles_of_def)

definition admin_ok :: "db \<Rightarrow> uuid \<Rightarrow> bool" where
  "admin_ok d n \<longleftrightarrow> users_ok d n \<and> admins d \<noteq> {}"

interpretation admin: table_invariant admin_ok
  by unfold_locales (auto simp: admin_ok_def intro: users.mono)

lemma admin_fresh: "users_ok d n \<Longrightarrow> n \<le> i \<Longrightarrow> i \<notin> admins d"
  by (force simp: users_ok_def admins_def roles_of_def)

text \<open>For a transaction, only what its body does when it succeeds matters.\<close>

lemma keeps_admin_tx:
  assumes "keeps users_ok (with_tx b c body)"
    and "\<And>w a w'. admin_ok (w_db w) (w_fresh w) \<Longrightarrow> body w = (Inr a, w') \<Longrightarrow> admins (w_db w') \<noteq> {}"
  shows "keeps admin_ok (with_tx b c body)"
  unfolding keeps_def
proof (intro allI impI)
  fix w :: world assume w: "admin_ok (w_db w) (w_fresh w)"
  obtain r w' where t: "with_tx b c body w = (r, w')" by force
  have u: "users_ok (w_db w') (w_fresh w') \<and> w_fresh w \<le> w_fresh w'"
    using keepsD [OF assms(1) _ t] w by (simp add: admin_ok_def)
  from t have "admins (w_db w') \<noteq> {}"
  proof (cases rule: with_tx_cases)
    case (committed w1 a w2)
    with assms(2) [of w1 a w2] w show ?thesis by simp
  qed (use w in \<open>simp add: admin_ok_def\<close>)
  with u t show "admin_ok (w_db (snd (with_tx b c body w))) (w_fresh (snd (with_tx b c body w))) \<and>
      w_fresh w \<le> w_fresh (snd (with_tx b c body w))" by (simp add: admin_ok_def)
qed

text \<open>The parts of the tables that hold the roles.\<close>

abbreviation grants :: "db \<Rightarrow> (uuid \<times> int) list \<times> role_row list" where
  "grants d \<equiv> (db_user_roles d, db_roles d)"

text \<open>The statements on users leave everything but the users alone.\<close>

lemma frames_users [frames_intros]:
  assumes "\<And>d us. p (d\<lparr>db_users := us\<rparr>) = p d"
  shows "frames p (sql_CreateUser e h m hash a)" and "frames p (sql_UpdateUserProfile e i h m)"
    and "frames p (sql_AdminUpdateUser e i h m a)" and "frames p (sql_SetUserPassword i hash)"
  unfolding sql_CreateUser_def sql_UpdateUserProfile_def sql_AdminUpdateUser_def sql_SetUserPassword_def
    update_user_checked_def
  by (auto intro!: frames_external simp: assms update_user_def Let_def split: option.split)

lemma frames_grants [frames_intros]:
  assumes "\<And>d ps. p (d\<lparr>db_user_roles := ps\<rparr>) = p d"
  shows "frames p (sql_RemoveAllRolesFromUser i)" and "frames p (sql_AddRoleToUser i name)"
  unfolding sql_RemoveAllRolesFromUser_def sql_AddRoleToUser_def
  by (auto intro!: frames_external frames_exec simp: assms add_roles_def)

lemma reads_users [reads_intros]:
  "reads (sql_GetUserByEmail m)" "reads (sql_GetUserForAuthByEmail m)" "reads (sql_GetUserByID i)"
  "reads sql_ListRoles" "reads (sql_ListRoleNamesByUser i)" "reads sql_ListUsersWithRoles"
  "reads (sql_CountUsersByRole name)" "reads (hydrateUser row)" "reads (GetUser i)" "reads (getUserWithQueries i)"
  "reads (ensureActiveAdminInvariant existing new active)" "reads (ensureDeleteAllowed existing)"
  unfolding sql_GetUserByEmail_def sql_GetUserForAuthByEmail_def sql_GetUserByID_def sql_ListRoles_def
    sql_ListRoleNamesByUser_def sql_ListUsersWithRoles_def sql_CountUsersByRole_def hydrateUser_def GetUser_def
    getUserWithQueries_def ensureActiveAdminInvariant_def ensureDeleteAllowed_def
  by (intro reads_intros)+

lemma reads_HashPassword [reads_intros]: "reads (HashPassword e p)"
  unfolding HashPassword_def by (auto intro!: reads_intros split: option.split)

lemmas frames_user_reads [frames_intros] = reads_users [THEN frames_reads] reads_HashPassword [THEN frames_reads]

lemma frames_admins: "frames grants m \<Longrightarrow> m w = (r, w') \<Longrightarrow> admins (w_db w') = admins (w_db w) \<and> db_roles (w_db w') = db_roles (w_db w)"
  by (drule (1) framesD) (simp add: admins_def roles_of_def)

lemma keeps_admin_frames: "frames grants m \<Longrightarrow> keeps users_ok m \<Longrightarrow> keeps admin_ok m"
  unfolding admin_ok_def by (rule keeps_conj_frames [where p = "\<lambda>d. grants d"]) (auto simp: admins_def roles_of_def)

lemma frames_update_password [frames_intros]: "frames grants (update_password e i password)"
  unfolding update_password_def by (intro frames_intros) simp_all

lemma CreateUser_Inr:
  assumes "sql_CreateUser e h m hash active w = (Inr row, w')"
  shows "row = \<lparr>ur_ID = w_fresh w, ur_Handle = h, ur_Email = m, ur_PasswordHash = hash, ur_IsActive = active,
      ur_CreatedAt = w_now w, ur_UpdatedAt = w_now w\<rparr>" and "user_violation e (w_db w) None h m = None"
    and "w_db w' = (w_db w)\<lparr>db_users := db_users (w_db w) @ [row]\<rparr>" and "w_fresh w' = w_fresh w + 1"
proof -
  obtain fs where f: "(case user_violation e (w_db w) None h m of
        Some c \<Rightarrow> (Inl (PgError c), w\<lparr>w_faults := fs\<rparr>)
      | None \<Rightarrow>
          let row = \<lparr>ur_ID = w_fresh w, ur_Handle = h, ur_Email = m, ur_PasswordHash = hash,
                     ur_IsActive = active, ur_CreatedAt = w_now w, ur_UpdatedAt = w_now w\<rparr>
          in (Inr row, w\<lparr>w_faults := fs, w_db := (w_db w)\<lparr>db_users := db_users (w_db w) @ [row]\<rparr>, w_fresh := w_fresh w + 1\<rparr>))
      = (Inr row, w')"
    by (rule external_Inr [OF assms [unfolded sql_CreateUser_def]]) (simp cong: option.case_cong)
  then show "row = \<lparr>ur_ID = w_fresh w, ur_Handle = h, ur_Email = m, ur_PasswordHash = hash, ur_IsActive = active,
      ur_CreatedAt = w_now w, ur_UpdatedAt = w_now w\<rparr>" "user_violation e (w_db w) None h m = None"
    "w_db w' = (w_db w)\<lparr>db_users := db_users (w_db w) @ [row]\<rparr>" "w_fresh w' = w_fresh w + 1"
    by (auto simp: Let_def split: option.splits)
qed

text \<open>The body of the transactions that create a user.\<close>

definition create_body :: "ext \<Rightarrow> string \<Rightarrow> string \<Rightarrow> string \<Rightarrow> bool \<Rightarrow> string list \<Rightarrow> user_row svc" where
  "create_body e h m hash active roles =
     sbind (on_error (sql_CreateUser e h m hash active) mapConstraintError) (\<lambda>row.
     sbind (setRoles e (ur_ID row) roles) (\<lambda>_. sret row))"

lemma create_body_Inr:
  assumes "create_body e h m hash active roles w = (Inr row, w')" and "db_roles (w_db w) = db_roles initial_db"
  shows "row = \<lparr>ur_ID = w_fresh w, ur_Handle = h, ur_Email = m, ur_PasswordHash = hash, ur_IsActive = active,
      ur_CreatedAt = w_now w, ur_UpdatedAt = w_now w\<rparr>" and "user_violation e (w_db w) None h m = None"
    and "regrants (w_fresh w) (role_ids (normalizeRoles e roles))
      ((w_db w)\<lparr>db_users := db_users (w_db w) @ [row]\<rparr>) (w_db w')" and "w_fresh w' = w_fresh w + 1"
proof -
  obtain w1 where 1: "sql_CreateUser e h m hash active w = (Inr row, w1)" and 2: "setRoles e (ur_ID row) roles w1 = (Inr (), w')"
    using assms(1) unfolding create_body_def by (auto elim!: sbind_InrE simp: on_error_Inr sret_def)
  note c = CreateUser_Inr [OF 1]
  from c(1,2) show "row = \<lparr>ur_ID = w_fresh w, ur_Handle = h, ur_Email = m, ur_PasswordHash = hash, ur_IsActive = active,
      ur_CreatedAt = w_now w, ur_UpdatedAt = w_now w\<rparr>" "user_violation e (w_db w) None h m = None" by simp_all
  have "db_roles (w_db w1) = db_roles initial_db" using c(3) assms(2) by simp
  note s = setRoles_Inr [OF 2 this]
  then show "regrants (w_fresh w) (role_ids (normalizeRoles e roles))
      ((w_db w)\<lparr>db_users := db_users (w_db w) @ [row]\<rparr>) (w_db w')" "w_fresh w' = w_fresh w + 1"
    using c by simp_all
qed

lemma keeps_create_body [keeps_intros]: "keeps users_ok (create_body e h m hash active roles)"
  unfolding create_body_def by (intro keeps_intros)

lemma admins_users [simp]: "admins (d\<lparr>db_users := us\<rparr>) = admins d"
  by (simp add: admins_def roles_of_def)

lemma create_body_admins:
  assumes "admin_ok (w_db w) (w_fresh w)" and "create_body e h m hash active roles w = (Inr row, w')"
  shows "admins (w_db w') \<noteq> {}"
proof -
  have u: "users_ok (w_db w) (w_fresh w)" using assms(1) by (simp add: admin_ok_def)
  then have "db_roles (w_db w) = db_roles initial_db" by (simp add: users_ok_def)
  note r = admins_regrants [OF create_body_Inr(3) [OF assms(2) this]]
  have "w_fresh w \<notin> admins (w_db w)" using admin_fresh [OF u] by simp
  with r assms(1) show ?thesis by (auto simp: admin_ok_def split: if_splits)
qed

lemma keeps_admin_create: "keeps admin_ok (with_tx b c (create_body e h m hash active roles))"
  by (rule keeps_admin_tx) (intro keeps_intros keeps_tx, rule create_body_admins)

lemma admin_Register: "keeps admin_ok (Register e h m p)"
  unfolding Register_def create_body_def [symmetric] by (intro keeps_intros keeps_admin_create)

lemma admin_CreateUser: "keeps admin_ok (CreateUser e h m p a roles)"
  unfolding CreateUser_def create_body_def [symmetric] by (intro keeps_intros keeps_admin_create)

lemma admin_createTesterRow: "keeps admin_ok (createTesterRow e h m hash)"
  unfolding createTesterRow_def
proof (rule keeps_admin_tx)
  let ?b = "sbind (on_error (sql_CreateUser e h m hash True) mapConstraintError)
      (\<lambda>row. setRoles e (ur_ID row) [RoleUser, RoleTester])"
  fix w w' :: world and a :: unit assume w: "admin_ok (w_db w) (w_fresh w)" and b: "?b w = (Inr a, w')"
  then obtain row w1 where "on_error (sql_CreateUser e h m hash True) mapConstraintError w = (Inr row, w1)"
    and "setRoles e (ur_ID row) [RoleUser, RoleTester] w1 = (Inr a, w')" by (auto elim!: sbind_InrE)
  then have "create_body e h m hash True [RoleUser, RoleTester] w = (Inr row, w')"
    by (simp add: create_body_def sbind_def sret_def)
  then show "admins (w_db w') \<noteq> {}" by (rule create_body_admins [OF w])
qed (intro keeps_intros keeps_tx)

text \<open>The checks before an update and a deletion.\<close>

lemma lower_role: "r \<in> {RoleUser, RoleAdmin, RoleTester} \<Longrightarrow> lower e (TrimSpace r) = r"
proof -
  have "ToLower u (TrimSpace ''user'') = ''user''" "ToLower u (TrimSpace ''admin'') = ''admin''"
    "ToLower u (TrimSpace ''tester'') = ''tester''" for u by code_simp+
  then show "r \<in> {RoleUser, RoleAdmin, RoleTester} \<Longrightarrow> lower e (TrimSpace r) = r"
    by (auto simp: lower_def RoleUser_def RoleAdmin_def RoleTester_def)
qed

lemma set_normalizeRoles:
  "set (normalizeRoles e roles) =
     insert RoleUser ({RoleAdmin, RoleTester} \<inter> (\<lambda>r. lower e (TrimSpace r)) ` set roles)"
  unfolding normalizeRoles_def Let_def by (auto simp: RoleUser_def RoleAdmin_def RoleTester_def)

lemma normalizeRoles_idem: "normalizeRoles e (normalizeRoles e roles) = normalizeRoles e roles"
proof -
  let ?f = "\<lambda>r. lower e (TrimSpace r)"
  have f: "?f r = r" if "r \<in> set (normalizeRoles e roles)" for r
    using that by (intro lower_role) (auto simp: set_normalizeRoles)
  have "map ?f (normalizeRoles e roles) = normalizeRoles e roles" by (rule map_idI) (rule f)
  then show ?thesis
    by (subst normalizeRoles_def) (simp only: Let_def, simp add: normalizeRoles_def)
qed

lemma ensureActiveAdmin_Inr:
  assumes "users_ok (w_db w) n" and "existing = role_names (w_db w) i"
    and "ensureActiveAdminInvariant existing new active w = (Inr u, w')"
  shows "i \<notin> admins (w_db w) \<or> RoleAdmin \<in> set new \<and> active \<or> 2 \<le> card (admins (w_db w))"
  using assms(3) count_admins [OF assms(1)] role_names_admin [OF assms(1), of i] assms(2)
  by (auto simp: ensureActiveAdminInvariant_def sql_CountUsersByRole_def on_error_Inr sfail_def
      elim!: sbind_InrE dest!: query_Inr split: if_splits)

lemma ensureDelete_Inr:
  assumes "users_ok (w_db w) n" and "existing = role_names (w_db w) i"
    and "ensureDeleteAllowed existing w = (Inr u, w')"
  shows "i \<notin> admins (w_db w) \<or> 2 \<le> card (admins (w_db w))"
  using assms(3) count_admins [OF assms(1)] role_names_admin [OF assms(1), of i] assms(2)
  by (auto simp: ensureDeleteAllowed_def sql_CountUsersByRole_def on_error_Inr sfail_def
      elim!: sbind_InrE dest!: query_Inr split: if_splits)

lemma find_row_Inr: "find_row q xs = Inr x \<Longrightarrow> x \<in> set xs \<and> q x"
  by (auto simp: find_row_def find_Some_iff in_set_conv_nth split: option.splits)

lemma getUser_Inr:
  assumes "getUserWithQueries i w = (Inr u, w')"
  shows "user_Roles u = role_names (w_db w) i" and "i \<in> ur_ID ` set (db_users (w_db w))"
proof -
  from assms obtain row w1 where 1: "sql_GetUserByID i w = (Inr row, w1)" and 2: "hydrateUser row w1 = (Inr u, w')"
    unfolding getUserWithQueries_def by (auto elim!: sbind_InrE simp: on_error_Inr)
  from 1 have w1: "w_db w1 = w_db w" and row: "row \<in> set (db_users (w_db w))" "ur_ID row = i"
    unfolding sql_GetUserByID_def by (auto dest!: query_Inr find_row_Inr)
  from 2 w1 row(2) show "user_Roles u = role_names (w_db w) i"
    unfolding hydrateUser_def sql_ListRoleNamesByUser_def
    by (auto elim!: sbind_InrE dest!: query_Inr simp: on_error_Inr sret_def)
  from row show "i \<in> ur_ID ` set (db_users (w_db w))" by auto
qed

lemma card_remove_one: "i \<notin> A \<or> 2 \<le> card A \<Longrightarrow> A \<noteq> {} \<Longrightarrow> A - {i} \<noteq> {}"
  by (metis Diff_empty Diff_insert0 card.empty card_insert_disjoint finite.intros(1) insert_Diff insert_absorb
      empty_iff not_one_le_zero numeral_le_one_iff semiring_norm(69) One_nat_def)


lemma role_ids_admin: "2 \<in> role_ids names \<longleftrightarrow> RoleAdmin \<in> set names"
proof -
  have "role_id n = Some 2 \<longleftrightarrow> n = RoleAdmin" for n
    by (simp add: role_id_def RoleAdmin_def)
  then show ?thesis by (auto simp: role_ids_def)
qed

lemma admin_UpdateUser: "keeps admin_ok (UpdateUser e inp)"
proof -
  let ?i = "uu_UserID inp" and ?roles = "normalizeRoles e (uu_Roles inp)"
  let ?body = "\<lambda>handle email. sbind (getUserWithQueries ?i) (\<lambda>existing.
      sbind (ensureActiveAdminInvariant (user_Roles existing) ?roles (uu_IsActive inp)) (\<lambda>_.
      sbind (on_error (sql_AdminUpdateUser e ?i handle email (uu_IsActive inp)) mapConstraintError) (\<lambda>_.
      sbind (update_password e ?i (uu_Password inp)) (\<lambda>_. setRoles e ?i ?roles))))"
  have "keeps admin_ok (with_tx b c (?body handle email))" for b c handle email
  proof (rule keeps_admin_tx)
    show "keeps users_ok (with_tx b c (?body handle email))" by (intro keeps_intros keeps_tx)
    fix w w' :: world and u :: unit assume w: "admin_ok (w_db w) (w_fresh w)" and "?body handle email w = (Inr u, w')"
    then obtain existing w1 w2 w3 w4 row where 1: "getUserWithQueries ?i w = (Inr existing, w1)"
      and 2: "ensureActiveAdminInvariant (user_Roles existing) ?roles (uu_IsActive inp) w1 = (Inr (), w2)"
      and 3: "sql_AdminUpdateUser e ?i handle email (uu_IsActive inp) w2 = (Inr row, w3)"
      and 4: "update_password e ?i (uu_Password inp) w3 = (Inr (), w4)" and 5: "setRoles e ?i ?roles w4 = (Inr (), w')"
      by (auto elim!: sbind_InrE simp: on_error_Inr)
    have ok: "users_ok (w_db w) (w_fresh w)" "admins (w_db w) \<noteq> {}" using w by (simp_all add: admin_ok_def)
    have db1: "w_db w1 = w_db w" "w_db w2 = w_db w" using readsD [OF reads_users(10) 1] readsD [OF reads_users(11) 2] by simp_all
    have "?i \<notin> admins (w_db w) \<or> RoleAdmin \<in> set ?roles \<or> 2 \<le> card (admins (w_db w))"
      using ensureActiveAdmin_Inr [OF _ _ 2] getUser_Inr(1) [OF 1] ok(1) db1(1) by metis
    moreover have same: "admins (w_db w4) = admins (w_db w)" and initial: "db_roles (w_db w4) = db_roles initial_db"
      using frames_admins [OF frames_users(3) 3] frames_admins [OF frames_update_password 4] db1 ok(1)
      by (simp_all add: users_ok_def)
    moreover note admins_regrants [OF conjunct1 [OF setRoles_Inr [OF 5 initial]], unfolded normalizeRoles_idem role_ids_admin same]
    ultimately show "admins (w_db w') \<noteq> {}" using card_remove_one [of ?i "admins (w_db w)"] ok(2) by (simp split: if_splits)
  qed
  then show ?thesis unfolding UpdateUser_def Let_def by (intro keeps_intros)
qed

lemma admins_delete: "admins (delete_user i d) = admins d - {i}"
  by (auto simp: admins_def roles_of_def delete_user_def)

lemma admin_DeleteUser: "keeps admin_ok (DeleteUser actor target)"
proof -
  let ?body = "sbind (getUserWithQueries target) (\<lambda>existing.
      sbind (ensureDeleteAllowed (user_Roles existing)) (\<lambda>_. on_error (sql_DeleteUser target) (Wrap ''delete user'')))"
  have "keeps admin_ok (with_tx b c ?body)" for b c
  proof (rule keeps_admin_tx)
    show "keeps users_ok (with_tx b c ?body)" by (intro keeps_intros keeps_tx)
    fix w w' :: world and u :: unit assume w: "admin_ok (w_db w) (w_fresh w)" and "?body w = (Inr u, w')"
    then obtain existing w1 w2 where 1: "getUserWithQueries target w = (Inr existing, w1)"
      and 2: "ensureDeleteAllowed (user_Roles existing) w1 = (Inr (), w2)" and 3: "sql_DeleteUser target w2 = (Inr u, w')"
      by (auto elim!: sbind_InrE simp: on_error_Inr)
    have ok: "users_ok (w_db w) (w_fresh w)" "admins (w_db w) \<noteq> {}" using w by (simp_all add: admin_ok_def)
    have db1: "w_db w1 = w_db w" "w_db w2 = w_db w" using readsD [OF reads_users(10) 1] readsD [OF reads_users(12) 2] by simp_all
    have "target \<notin> admins (w_db w) \<or> 2 \<le> card (admins (w_db w))"
      using ensureDelete_Inr [OF _ _ 2] getUser_Inr(1) [OF 1] ok(1) db1(1) by metis
    moreover have "w_db w' = delete_user target (w_db w)"
      using 3 db1(2) unfolding sql_DeleteUser_def exec_def by (auto elim!: external_Inr [of _ w2])
    ultimately show "admins (w_db w') \<noteq> {}" using card_remove_one ok(2) by (simp add: admins_delete)
  qed
  then show ?thesis unfolding DeleteUser_def by (intro keeps_intros)
qed

lemma admin_EnsureBootstrapAdmin: "keeps admin_ok (EnsureBootstrapAdmin e handle email password)"
  unfolding EnsureBootstrapAdmin_def Let_def
  by (intro keeps_intros) (auto intro!: keeps_intros admin_CreateUser admin_UpdateUser split: sum.split)

lemma admin_UpdateProfile: "keeps admin_ok (UpdateProfile e i handle email)"
  unfolding UpdateProfile_def
  by (intro keeps_intros keeps_admin_frames frames_users) simp_all

lemma admin_SetPasswordByEmail: "keeps admin_ok (SetPasswordByEmail e email password)"
  unfolding SetPasswordByEmail_def
  by (intro keeps_intros keeps_admin_frames frames_users) simp_all

section \<open>Registering and signing in\<close>

definition hydrated :: "db \<Rightarrow> user_row \<Rightarrow> user" where
  "hydrated d row = \<lparr>user_ID = ur_ID row, user_Handle = ur_Handle row, user_Email = ur_Email row,
     user_IsActive = ur_IsActive row, user_Roles = role_names d (ur_ID row),
     user_CreatedAt = ur_CreatedAt row, user_UpdatedAt = ur_UpdatedAt row\<rparr>"

lemma hydrateUser_Inr: "hydrateUser row w = (Inr u, w') \<Longrightarrow> u = hydrated (w_db w) row"
  unfolding hydrateUser_def sql_ListRoleNamesByUser_def hydrated_def
  by (auto elim!: sbind_InrE dest!: query_Inr simp: on_error_Inr sret_def)

lemma hydrateUser_calm: "calm w \<Longrightarrow> hydrateUser row w = (Inr (hydrated (w_db w) row), w)"
  by (simp add: hydrateUser_def sql_ListRoleNamesByUser_def hydrated_def run_simps calm_simps)

lemma GetUser_Inr:
  assumes "GetUser i w = (Inr u, w')"
  obtains row where "row \<in> set (db_users (w_db w))" and "ur_ID row = i" and "u = hydrated (w_db w) row"
proof -
  from assms obtain row w1 where 1: "sql_GetUserByID i w = (Inr row, w1)" and 2: "hydrateUser row w1 = (Inr u, w')"
    unfolding GetUser_def by (auto elim!: sbind_InrE simp: on_error_Inr)
  from 1 have "w_db w1 = w_db w" and "row \<in> set (db_users (w_db w))" "ur_ID row = i"
    unfolding sql_GetUserByID_def by (auto dest!: query_Inr find_row_Inr)
  with hydrateUser_Inr [OF 2] that show ?thesis by simp
qed

lemma HashPassword_Inr:
  "HashPassword e p w = (Inr h, w') \<Longrightarrow> \<exists>salt. ext_bcrypt_generate e p salt = Some h"
  by (auto simp: HashPassword_def sfail_def sret_def elim!: sbind_InrE split: option.splits)

lemma role_names_initial:
  assumes "db_roles d = db_roles initial_db"
  shows "role_names d i = sort ((if 1 \<in> roles_of d i then [''user''] else []) @
    (if 2 \<in> roles_of d i then [''admin''] else []) @ (if 3 \<in> roles_of d i then [''tester''] else []))"
  unfolding role_names_def assms by (auto simp: initial_db_def roles_of_def)

text \<open>What an account that was just created looks like.\<close>

definition new_account :: "ext \<Rightarrow> string \<Rightarrow> string \<Rightarrow> string \<Rightarrow> bool \<Rightarrow> int set \<Rightarrow> world \<Rightarrow> db \<Rightarrow> user_row \<Rightarrow> bool" where
  "new_account e h m p active R w d row \<longleftrightarrow>
     normalizeHandle e h = Inr (ur_Handle row) \<and> normalizeEmail e m = Inr (ur_Email row) \<and>
     validatePassword p = Inr () \<and> (\<exists>salt. ext_bcrypt_generate e p salt = Some (ur_PasswordHash row)) \<and>
     ur_IsActive row = active \<and> ur_ID row = w_fresh w \<and>
     ur_Handle row \<notin> ur_Handle ` set (db_users (w_db w)) \<and> ur_Email row \<notin> ur_Email ` set (db_users (w_db w)) \<and>
     regrants (ur_ID row) R ((w_db w)\<lparr>db_users := db_users (w_db w) @ [row]\<rparr>) d"

text \<open>
  \<open>Register\<close> and \<open>CreateUser\<close> after the checks: the tables are as before, or hold exactly the
  new account, with its roles; with a result it is the latter.
\<close>

definition create_account :: "ext \<Rightarrow> string \<Rightarrow> string \<Rightarrow> string \<Rightarrow> string \<Rightarrow> string \<Rightarrow> bool \<Rightarrow> string list \<Rightarrow> user svc" where
  "create_account e b c handle email password active roles =
     sbind (of_sum (normalizeHandle e handle)) (\<lambda>handle.
     sbind (of_sum (normalizeEmail e email)) (\<lambda>email.
     sbind (of_sum (validatePassword password)) (\<lambda>_.
     sbind (on_error (HashPassword e password) (Wrap ''hash password'')) (\<lambda>hash.
     sbind (with_tx b c (create_body e handle email hash active roles)) (\<lambda>row. GetUser (ur_ID row))))))"

lemma Register_eq: "Register e h m p = create_account e ''begin register tx'' ''commit register tx'' h m p True [RoleUser]"
  by (simp add: Register_def create_account_def create_body_def)

lemma CreateUser_eq: "CreateUser e h m p a roles =
    create_account e ''begin create user tx'' ''commit create user tx'' h m p a (normalizeRoles e roles)"
  by (simp add: CreateUser_def create_account_def create_body_def)

lemma create_account_cases:
  assumes ok: "users_ok (w_db w) (w_fresh w)" and run: "create_account e b c h m p a roles w = (r, w')"
  shows "(w_db w' = w_db w \<and> (\<exists>err. r = Inl err)) \<or>
    (\<exists>row. new_account e h m p a (role_ids (normalizeRoles e roles)) w (w_db w') row \<and>
       (r = Inr (hydrated (w_db w') row) \<or> (\<exists>err. r = Inl err)))"
proof -
  have initial: "db_roles (w_db w) = db_roles initial_db" using ok by (simp add: users_ok_def)
  consider (refused) err where "r = Inl err" "w_db w' = w_db w"
  | (hashed) h' m' hash salt w1 where "normalizeHandle e h = Inr h'" "normalizeEmail e m = Inr m'" "validatePassword p = Inr ()"
      "ext_bcrypt_generate e p salt = Some hash" "w_db w1 = w_db w" "w_fresh w1 = w_fresh w"
      "sbind (with_tx b c (create_body e h' m' hash a roles)) (\<lambda>row. GetUser (ur_ID row)) w1 = (r, w')"
  proof -
    from run [unfolded create_account_def] show thesis
    proof (cases rule: sbind_of_sumE)
      case h: (went_on h')
      from h(2) show thesis
      proof (cases rule: sbind_of_sumE)
        case m: (went_on m')
        from m(2) show thesis
        proof (cases rule: sbind_of_sumE)
          case p: (went_on u)
          from p(2) show thesis
          proof (cases rule: sbind_cases)
            case (failed err)
            then show thesis using refused by (auto simp: on_error_Inl dest: readsD [OF reads_HashPassword])
          next
            case hash: (went_on hash w1)
            then have H: "HashPassword e p w = (Inr hash, w1)" by (simp add: on_error_Inr)
            from hashed [OF h(1) m(1) _ _ _ _ hash(2)] p(1) HashPassword_Inr [OF H] readsD [OF reads_HashPassword H]
            show thesis by auto
          qed
        qed (use refused in simp)
      qed (use refused in simp)
    qed (use refused in simp)
  qed
  then show ?thesis
  proof cases
    case refused then show ?thesis by simp
  next
    case hashed
    obtain r2 w2 where t: "with_tx b c (create_body e h' m' hash a roles) w1 = (r2, w2)" by force
    from t show ?thesis
    proof (cases rule: with_tx_cases)
      case (rolled_back err)
      with t hashed show ?thesis by (auto simp: run_simps)
    next
      case (committed w3 row w4)
      have "db_roles (w_db w3) = db_roles initial_db" using committed hashed initial by simp
      note body = create_body_Inr [OF committed(3) this]
      have new: "new_account e h m p a (role_ids (normalizeRoles e roles)) w (w_db w2) row"
        using body(1,3) user_violation_None(2) [OF body(2)] hashed committed unfolding new_account_def by force
      show ?thesis
      proof (cases r2)
        case (Inl err)
        with t hashed new show ?thesis by (auto simp: run_simps)
      next
        case (Inr row')
        with committed have "row' = row" by simp
        with t hashed Inr have g: "GetUser (ur_ID row) w2 = (r, w')" by (simp add: run_simps)
        have db: "w_db w' = w_db w2" using readsD [OF reads_users(9) g] by simp
        have users: "db_users (w_db w2) = db_users (w_db w) @ [row]"
          using new regrants_db(2) unfolding new_account_def by fastforce
        have "row' = row" if "row' \<in> set (db_users (w_db w2))" "ur_ID row' = ur_ID row" for row'
          using that new ok unfolding users new_account_def users_ok_def by auto
        then have "r = Inr (hydrated (w_db w2) row) \<or> (\<exists>err. r = Inl err)"
          using g by (cases r) (auto elim!: GetUser_Inr)
        with new db show ?thesis by auto
      qed
    qed
  qed
qed

text \<open>Signing in with the address and password of a row.\<close>

lemma Authenticate_row:
  assumes ok: "users_ok (w_db w) (w_fresh w)" and calm: "calm w" and row: "row \<in> set (db_users (w_db w))"
    and m: "normalizeEmail e m = Inr (ur_Email row)"
  shows "Authenticate e m p w =
    (if \<not> ur_IsActive row then (Inl (Sentinel ErrInactiveUser), w)
     else if \<not> ext_bcrypt_compare e (ur_PasswordHash row) p then (Inl (Sentinel ErrInvalidCredentials), w)
     else (Inr (hydrated (w_db w) row), w))"
proof -
  have "find (\<lambda>u. ur_Email u = ur_Email row) (db_users (w_db w)) = Some row"
    using ok row by (intro find_unique) (auto simp: users_ok_def)
  then have "sql_GetUserForAuthByEmail (ur_Email row) w = (Inr row, w)"
    by (simp add: sql_GetUserForAuthByEmail_def query_calm calm find_row_def)
  then show ?thesis
    by (simp add: Authenticate_def run_simps m hydrateUser_calm calm ComparePassword_def)
qed

section \<open>Listing\<close>

lemma role_names_nonempty:
  assumes "db_roles d = db_roles initial_db"
  shows "[] \<notin> set (role_names d i)"
  unfolding role_names_def assms by (auto simp: initial_db_def)

abbreviation bare :: "user_row \<Rightarrow> user" where
  "bare u \<equiv> \<lparr>user_ID = ur_ID u, user_Handle = ur_Handle u, user_Email = ur_Email u, user_IsActive = ur_IsActive u,
     user_Roles = [], user_CreatedAt = ur_CreatedAt u, user_UpdatedAt = ur_UpdatedAt u\<rparr>"

text \<open>The rows of a user that was seen before add their roles at its index.\<close>

lemma list_users_loop_same:
  assumes "seen (ur_ID u) = Some (length us)" and "[] \<notin> set ns"
  shows "list_users_loop (map (\<lambda>n. \<lparr>url_User = u, url_RoleName = n\<rparr>) ns @ rs) (us @ [v]) seen =
    list_users_loop rs (us @ [v\<lparr>user_Roles := user_Roles v @ ns\<rparr>]) seen"
  using assms by (induction ns arbitrary: v) (auto simp: Let_def nth_append)

definition rows_of :: "db \<Rightarrow> user_row \<Rightarrow> user_role_row list" where
  "rows_of d u = (case role_names d (ur_ID u) of
      [] \<Rightarrow> [\<lparr>url_User = u, url_RoleName = []\<rparr>]
    | ns \<Rightarrow> map (\<lambda>n. \<lparr>url_User = u, url_RoleName = n\<rparr>) ns)"

lemma list_users_loop_user:
  assumes "seen (ur_ID u) = None" and "[] \<notin> set (role_names d (ur_ID u))"
  shows "list_users_loop (rows_of d u @ rs) us seen =
    list_users_loop rs (us @ [hydrated d u]) (seen(ur_ID u \<mapsto> length us))"
proof (cases "role_names d (ur_ID u)")
  case Nil
  with assms(1) show ?thesis by (simp add: rows_of_def Let_def hydrated_def)
next
  case (Cons n ns)
  with assms have "list_users_loop (rows_of d u @ rs) us seen =
      list_users_loop (map (\<lambda>n. \<lparr>url_User = u, url_RoleName = n\<rparr>) ns @ rs)
        (us @ [(bare u)\<lparr>user_Roles := [n]\<rparr>]) (seen(ur_ID u \<mapsto> length us))"
    by (auto simp: rows_of_def Let_def nth_append)
  also have "\<dots> = list_users_loop rs (us @ [hydrated d u]) (seen(ur_ID u \<mapsto> length us))"
    using assms(2) Cons by (subst list_users_loop_same) (simp_all add: hydrated_def)
  finally show ?thesis .
qed

lemma list_users_loop_all:
  assumes "distinct (map ur_ID us)" and "\<forall>u \<in> set us. seen (ur_ID u) = None"
    and "\<And>i. [] \<notin> set (role_names d i)"
  shows "list_users_loop (concat (map (rows_of d) us)) acc seen = acc @ map (hydrated d) us"
  using assms(1,2)
proof (induction us arbitrary: acc seen)
  case (Cons u us)
  then have "list_users_loop (concat (map (rows_of d) us)) (acc @ [hydrated d u]) (seen(ur_ID u \<mapsto> length acc)) =
      (acc @ [hydrated d u]) @ map (hydrated d) us"
    by (intro Cons.IH) (auto simp: rev_image_eqI)
  with Cons.prems assms(3) show ?case by (simp add: list_users_loop_user)
qed simp

lemma ListUsers_calm:
  assumes ok: "users_ok (w_db w) n" and calm: "calm w"
  shows "ListUsers w = (Inr (map (hydrated (w_db w))
    (sort_key (\<lambda>u. - ur_CreatedAt u) (sort_key ur_ID (db_users (w_db w))))), w)"
proof -
  let ?us = "sort_key (\<lambda>u. - ur_CreatedAt u) (sort_key ur_ID (db_users (w_db w)))"
  have "distinct (map ur_ID ?us)"
    using ok by (simp add: users_ok_def distinct_map inj_on_def)
  moreover have "[] \<notin> set (role_names (w_db w) i)" for i
    by (rule role_names_nonempty) (use ok in \<open>simp add: users_ok_def\<close>)
  ultimately have "list_users_loop (concat (map (rows_of (w_db w)) ?us)) [] Map.empty = map (hydrated (w_db w)) ?us"
    by (subst list_users_loop_all) simp_all
  then show ?thesis
    by (simp add: ListUsers_def sql_ListUsersWithRoles_def run_simps query_calm calm user_role_rows_def
        rows_of_def [abs_def])
qed

section \<open>Seeding testers ends\<close>

lemma with_tx_Inl:
  assumes "with_tx b c body w = (Inl err, w')"
  shows "err \<in> {Wrap b ConnError, Wrap c ConnError} \<or> (\<exists>w1 w2. w_db w1 = w_db w \<and> body w1 = (Inl err, w2))"
proof -
  obtain r1 w1 where b: "external (\<lambda>w. (Inr (), w)) w = (r1, w1)" by force
  note db = external_skip_db [OF b]
  have e: "r1 = Inl e \<Longrightarrow> e = ConnError" for e
    using b by (auto simp: external_def split: list.splits fault.splits)
  show ?thesis
  proof (cases r1)
    case (Inl e)
    with assms b e show ?thesis by (simp add: with_tx_def)
  next
    case (Inr u)
    obtain r2 w2 where bd: "body w1 = (r2, w2)" by force
    with Inr assms b db show ?thesis
      by (cases r2) (auto simp: with_tx_def split: list.splits fault.splits)
  qed
qed

definition unnamed :: "goError \<Rightarrow> bool" where
  "unnamed err \<longleftrightarrow> (\<forall>s. \<not> errors_is err (Sentinel s))"

lemma unnamed_simps [simp]:
  "unnamed ConnError" "unnamed (PgError c)" "unnamed (Wrap m err) \<longleftrightarrow> unnamed err" "\<not> unnamed (Sentinel s)"
  by (simp_all add: unnamed_def)

lemma add_role_list_unnamed: "add_role_list i names w = (Inl err, w') \<Longrightarrow> unnamed err"
proof (induction names arbitrary: w)
  case (Cons n ns)
  from Cons.prems [unfolded add_role_list.simps] show ?case
  proof (cases rule: sbind_cases)
    case (failed e)
    then show ?thesis
      by (auto simp: on_error_Inl sql_AddRoleToUser_def elim!: external_Inl split: if_splits)
  qed (use Cons.IH in blast)
qed (simp add: sret_def)

lemma setRoles_unnamed:
  assumes "setRoles e i roles w = (Inl err, w')"
  shows "unnamed err"
  using assms unfolding setRoles_def
  by (cases rule: sbind_cases)
    (auto simp: on_error_Inl sql_RemoveAllRolesFromUser_def exec_def elim!: external_Inl dest: add_role_list_unnamed)

lemma CreateUser_Inl:
  assumes "sql_CreateUser e h m hash a w = (Inl err, w')"
  shows "err = ConnError \<or> (\<exists>c. err = PgError c \<and> user_violation e (w_db w) None h m = Some c)"
  using assms unfolding sql_CreateUser_def
  by (cases rule: external_Inl) (auto simp: Let_def split: option.splits)

lemma user_violation_key:
  "user_violation e d None h m = Some ''users_handle_key'' \<Longrightarrow> h \<in> ur_Handle ` set (db_users d)"
  "user_violation e d None h m = Some ''users_email_key'' \<Longrightarrow> m \<in> ur_Email ` set (db_users d)"
  by (auto simp: user_violation_def Let_def split: if_splits)

text \<open>An error of \<open>createTesterRow\<close> that says \<open>taken\<close> is about a row that was there.\<close>

lemma createTesterRow_taken:
  assumes "createTesterRow e h m hash w = (Inl err, w')"
    and "errors_is err (Sentinel ErrHandleTaken) \<or> errors_is err (Sentinel ErrEmailTaken)"
  shows "(h \<in> ur_Handle ` set (db_users (w_db w)) \<or> m \<in> ur_Email ` set (db_users (w_db w))) \<and> w_db w' = w_db w"
proof -
  have named: "\<not> unnamed err" using assms(2) by (auto simp: unnamed_def)
  note tx = assms(1) [unfolded createTesterRow_def]
  from with_tx_Inl [OF tx] named obtain w1 w2 where db: "w_db w1 = w_db w" and
    body: "sbind (on_error (sql_CreateUser e h m hash True) mapConstraintError)
      (\<lambda>row. setRoles e (ur_ID row) [RoleUser, RoleTester]) w1 = (Inl err, w2)" by auto
  from body have "h \<in> ur_Handle ` set (db_users (w_db w1)) \<or> m \<in> ur_Email ` set (db_users (w_db w1))"
  proof (cases rule: sbind_cases)
    case (failed e1)
    then obtain e0 where e0: "sql_CreateUser e h m hash True w1 = (Inl e0, w2)" "err = mapConstraintError e0"
      by (auto simp: on_error_Inl)
    with CreateUser_Inl [OF e0(1)] named assms(2) obtain c where c: "e0 = PgError c" "user_violation e (w_db w1) None h m = Some c"
      by (auto simp: mapConstraintError_def)
    with e0(2) assms(2) have "c = ''users_email_key'' \<or> c = ''users_handle_key''"
      by (auto simp: mapConstraintError_def split: if_splits)
    with c(2) user_violation_key [of e "w_db w1" h m] show ?thesis by blast
  next
    case (went_on row w3)
    with setRoles_unnamed named show ?thesis by blast
  qed
  moreover have "w_db w' = w_db w"
    using tx by (cases rule: with_tx_cases) (use named in auto)
  ultimately show ?thesis by (simp add: db)
qed

lemma createTesterRow_created:
  assumes "createTesterRow e h m hash w = (Inr u, w')" and ok: "users_ok (w_db w) (w_fresh w)"
  shows "\<exists>row. db_users (w_db w') = db_users (w_db w) @ [row] \<and> ur_Handle row = h \<and> ur_Email row = m"
    and "card (holders (w_db w') 3) = card (holders (w_db w) 3) + 1"
  using assms(1) [unfolded createTesterRow_def]
proof (atomize (full), cases rule: with_tx_cases)
  case (committed w1 a w2)
  then obtain row w3 where "on_error (sql_CreateUser e h m hash True) mapConstraintError w1 = (Inr row, w3)"
    and "setRoles e (ur_ID row) [RoleUser, RoleTester] w3 = (Inr a, w2)" by (auto elim!: sbind_InrE)
  then have "create_body e h m hash True [RoleUser, RoleTester] w1 = (Inr row, w2)"
    by (simp add: create_body_def sbind_def sret_def)
  note c = create_body_Inr [OF this]
  have "db_roles (w_db w1) = db_roles initial_db" using committed ok by (simp add: users_ok_def)
  note r = c(3) [OF this]
  have 3: "3 \<in> role_ids (normalizeRoles e [RoleUser, RoleTester])"
    using lower_role [of RoleTester e] by (force simp: role_ids_def set_normalizeRoles)
  have "w_fresh w \<notin> holders (w_db w) 3" using ok by (force simp: users_ok_def holders_def roles_of_def)
  moreover have "holders (w_db w') 3 = insert (w_fresh w) (holders (w_db w) 3)"
    using r 3 committed by (auto simp: regrants_def holders_def roles_of_def split: if_splits)
  moreover have "finite (holders (w_db w) 3)"
    by (rule finite_subset [of _ "fst ` set (db_user_roles (w_db w))"]) (force simp: holders_def roles_of_def)+
  ultimately show "(\<exists>row. db_users (w_db w') = db_users (w_db w) @ [row] \<and> ur_Handle row = h \<and> ur_Email row = m) \<and>
      card (holders (w_db w') 3) = card (holders (w_db w) 3) + 1"
    using c(1) [OF \<open>db_roles (w_db w1) = _\<close>] regrants_db(2) [OF r] committed by auto
qed simp

definition taken :: "string \<Rightarrow> int \<Rightarrow> db \<Rightarrow> int set" where
  "taken domain nxt d = {n. nxt \<le> n \<and> (tester_handle n \<in> ur_Handle ` set (db_users d) \<or>
     tester_email domain n \<in> ur_Email ` set (db_users d))}"

lemma tester_inj: "tester_handle i = tester_handle j \<longleftrightarrow> i = j" "tester_email domain i = tester_email domain j \<longleftrightarrow> i = j"
  by (auto simp: tester_handle_def tester_email_def itoa_inj)

lemma taken_finite: "finite (taken domain nxt d)"
proof (rule finite_subset)
  show "taken domain nxt d \<subseteq> tester_handle -` (ur_Handle ` set (db_users d)) \<union> tester_email domain -` (ur_Email ` set (db_users d))"
    by (auto simp: taken_def)
  show "finite (tester_handle -` (ur_Handle ` set (db_users d)) \<union> tester_email domain -` (ur_Email ` set (db_users d)))"
    by (intro finite_UnI finite_vimageI) (auto simp: inj_def tester_inj)
qed

lemma seed_loop_returns:
  assumes "users_ok (w_db w) (w_fresh w)"
  shows "\<exists>k err w'. seed_loop e domain hash need created nxt w = Some ((k, err), w') \<and>
    users_ok (w_db w') (w_fresh w') \<and> w_fresh w \<le> w_fresh w' \<and> (admins (w_db w) \<noteq> {} \<longrightarrow> admins (w_db w') \<noteq> {}) \<and>
    created \<le> k \<and> k \<le> max created need \<and>
    (err = None \<longrightarrow> k = max created need \<and> card (holders (w_db w') 3) = card (holders (w_db w) 3) + nat (k - created))"
    (is "?P created nxt w")
  using assms
proof (induction "nat (need - created) + card (taken domain nxt (w_db w))" arbitrary: created nxt w rule: less_induct)
  case less
  obtain r w1 where c: "createTesterRow e (tester_handle nxt) (tester_email domain nxt) hash w = (r, w1)" by force
  have ok1: "users_ok (w_db w1) (w_fresh w1)" "w_fresh w \<le> w_fresh w1"
    using keepsD [OF keeps_createTesterRow less.prems c] by simp_all
  have adm: "admins (w_db w) \<noteq> {} \<longrightarrow> admins (w_db w1) \<noteq> {}"
    using keepsD [OF admin_createTesterRow _ c] less.prems by (simp add: admin_ok_def)
  show ?case
  proof (cases "created < need")
    case True
    show ?thesis
    proof (cases r)
      case (Inr u)
      note cr = createTesterRow_created [OF c [unfolded Inr] less.prems]
      from cr(1) obtain row where row: "db_users (w_db w1) = db_users (w_db w) @ [row]"
        "ur_Handle row = tester_handle nxt" "ur_Email row = tester_email domain nxt" by blast
      have "taken domain (nxt + 1) (w_db w1) \<subseteq> taken domain nxt (w_db w)"
        by (auto simp: taken_def row tester_inj)
      then have "card (taken domain (nxt + 1) (w_db w1)) \<le> card (taken domain nxt (w_db w))"
        by (rule card_mono [OF taken_finite])
      with True have "?P (created + 1) (nxt + 1) w1" by (intro less.hyps ok1) simp
      then show ?thesis using True c Inr ok1 adm cr(2) by (subst seed_loop.simps) (auto simp: nat_diff_distrib')
    next
      case (Inl err)
      show ?thesis
      proof (cases "errors_is err (Sentinel ErrHandleTaken) \<or> errors_is err (Sentinel ErrEmailTaken)")
        case taken: True
        note t = createTesterRow_taken [OF c [unfolded Inl] taken]
        have "nxt \<in> taken domain nxt (w_db w)" "taken domain (nxt + 1) (w_db w1) = taken domain nxt (w_db w) - {nxt}"
          using t by (auto simp: taken_def)
        then have "card (taken domain (nxt + 1) (w_db w1)) < card (taken domain nxt (w_db w))"
          using card_Diff1_less [OF taken_finite] by metis
        with True have "?P created (nxt + 1) w1" by (intro less.hyps ok1) simp
        then show ?thesis using True c Inl taken ok1 adm t by (subst seed_loop.simps) auto
      next
        case False
        with True c Inl ok1 adm show ?thesis by (subst seed_loop.simps) auto
      qed
    qed
  next
    case False
    then show ?thesis using less.prems by (subst seed_loop.simps) auto
  qed
qed

text \<open>\<open>SeedTesters\<close> returns; without an error there are at least as many testers as asked for.\<close>

lemma SeedTesters_returns:
  assumes "users_ok (w_db w) (w_fresh w)"
  shows "\<exists>k err w'. SeedTesters e target domain hash w = Some ((k, err), w') \<and>
    users_ok (w_db w') (w_fresh w') \<and> w_fresh w \<le> w_fresh w' \<and> (admins (w_db w) \<noteq> {} \<longrightarrow> admins (w_db w') \<noteq> {}) \<and>
    0 \<le> k \<and> (err = None \<longrightarrow> int (card (holders (w_db w') 3)) = max target (int (card (holders (w_db w) 3))) \<and>
      k = int (card (holders (w_db w') 3)) - int (card (holders (w_db w) 3)))"
proof -
  obtain r w1 where c: "on_error (sql_CountUsersByRole RoleTester) (Wrap ''count tester role'') w = (r, w1)" by force
  have db: "w_db w1 = w_db w" "w_fresh w1 = w_fresh w"
    using readsD [OF reads_on_error [OF reads_users(7)] c] by simp_all
  have cnt: "r = Inr n \<Longrightarrow> n = int (card (holders (w_db w) 3))" for n
    using c count_holders [OF assms, of RoleTester 3]
    by (auto simp: on_error_Inr sql_CountUsersByRole_def dest!: query_Inr)
  show ?thesis
  proof (cases r)
    case (Inl err)
    with c db assms show ?thesis by (auto simp: SeedTesters_def)
  next
    case (Inr n)
    from seed_loop_returns [of w1 e domain hash "target - n" 0 "n + 1"] assms db obtain k err w' where
      "seed_loop e domain hash (target - n) 0 (n + 1) w1 = Some ((k, err), w')"
      "users_ok (w_db w') (w_fresh w')" "w_fresh w \<le> w_fresh w'" "admins (w_db w) \<noteq> {} \<longrightarrow> admins (w_db w') \<noteq> {}"
      "0 \<le> k" "err = None \<longrightarrow> k = max 0 (target - n) \<and> card (holders (w_db w') 3) = card (holders (w_db w) 3) + nat k"
      by auto
    with c Inr db assms cnt [OF Inr] show ?thesis by (auto simp: SeedTesters_def)
  qed
qed

section \<open>Results for a fault-free run\<close>

lemma role_ids_user: "role_ids (normalizeRoles e [RoleUser]) = {1}"
proof -
  have "lower e (TrimSpace RoleUser) = RoleUser" by (rule lower_role) simp
  then have "set (normalizeRoles e [RoleUser]) = {RoleUser}"
    by (auto simp: set_normalizeRoles RoleUser_def RoleAdmin_def RoleTester_def)
  then show ?thesis by (simp add: role_ids_def)
qed

lemma GetUser_calm:
  assumes ok: "users_ok (w_db w) n" and calm: "calm w" and row: "row \<in> set (db_users (w_db w))"
  shows "GetUser (ur_ID row) w = (Inr (hydrated (w_db w) row), w)"
proof -
  have "find (\<lambda>u. ur_ID u = ur_ID row) (db_users (w_db w)) = Some row"
    using ok row by (intro find_unique) (auto simp: users_ok_def)
  then show ?thesis
    by (simp add: GetUser_def run_simps sql_GetUserByID_def query_calm calm find_row_def hydrateUser_calm)
qed

section \<open>Properties\<close>

text \<open>A world to evaluate in: no faults, the tables of the migrations.\<close>

definition sample_ext :: ext where
  "sample_ext = \<lparr>ext_unicode_lower = (\<lambda>s. s), ext_parse_address = (\<lambda>s. if CHR ''@'' \<in> set s then Some s else None),
     ext_pg_lower = (\<lambda>s. s), ext_bcrypt_generate = (\<lambda>p salt. Some p), ext_bcrypt_compare = (\<lambda>h p. h = p),
     ext_render = (\<lambda>t args. Some (concat args))\<rparr>"

definition sample_world :: "db \<Rightarrow> uuid \<Rightarrow> world" where
  "sample_world d n = \<lparr>w_db = d, w_now = 1000, w_fresh = n, w_serial = 1, w_entropy = sconst 0, w_faults = [], w_outbox = []\<rparr>"

definition alice :: user_row where
  "alice = \<lparr>ur_ID = 7, ur_Handle = ''alice'', ur_Email = ''a@b.io'', ur_PasswordHash = ''password1'', ur_IsActive = True,
     ur_CreatedAt = 1000, ur_UpdatedAt = 1000\<rparr>"

lemma users_ok_initial: "users_ok initial_db n"
  by (simp add: users_ok_def initial_db_def)

lemma sample_Register:
  "Register sample_ext '' Alice'' ''A@b.io'' ''password1'' (sample_world initial_db 7) =
     (Inr (hydrated (initial_db\<lparr>db_user_roles := [(7, 1)]\<rparr>) alice),
      (sample_world (initial_db\<lparr>db_users := [alice], db_user_roles := [(7, 1)]\<rparr>) 8))"
proof -
  have n: "normalizeHandle sample_ext '' Alice'' = Inr ''alice''" "normalizeEmail sample_ext ''A@b.io'' = Inr ''a@b.io''"
    "validatePassword ''password1'' = Inr ()" "normalizeRoles sample_ext [''user''] = [''user'']"
    "user_violation sample_ext initial_db None ''alice'' ''a@b.io'' = None" by code_simp+
  have g: "ext_bcrypt_generate sample_ext p s = Some p" for p s by (simp add: sample_ext_def)
  show ?thesis
    by (simp add: RoleUser_def Register_def run_simps n g HashPassword_def rand_bytes_def external_def sample_world_def
        with_tx_def sql_CreateUser_def Let_def setRoles_def sql_RemoveAllRolesFromUser_def exec_def
        sql_AddRoleToUser_def add_roles_def GetUser_def sql_GetUserByID_def query_def find_row_def hydrateUser_def
        sql_ListRoleNamesByUser_def hydrated_def alice_def)
      (simp add: initial_db_def role_names_def hydrateUser_def sql_ListRoleNamesByUser_def query_def external_def run_simps)
qed

text \<open>C7.  \<open>Register\<close> is all or nothing under every sequence of connection faults: the tables stay as
  they were and there is an error, or they hold exactly one new active account under a fresh
  identifier, with the normalised handle and address, which no account had, a bcrypt hash of a
  password that meets the rules, and the role \<open>user\<close> alone; a result is that account.\<close>

theorem Register_correct:
  assumes "users_ok (w_db w) (w_fresh w)" and "Register e h m p w = (r, w')"
  shows "(w_db w' = w_db w \<and> (\<exists>err. r = Inl err)) \<or>
    (\<exists>row. new_account e h m p True {1} w (w_db w') row \<and>
       (r = Inr (hydrated (w_db w') row) \<or> (\<exists>err. r = Inl err)))"
  using create_account_cases [OF assms(1) assms(2) [unfolded Register_eq]] by (simp only: role_ids_user)

theorem Register_correct_witness:
  "\<exists>row. new_account sample_ext '' Alice'' ''A@b.io'' ''password1'' True {1} (sample_world initial_db 7)
    (initial_db\<lparr>db_users := [alice], db_user_roles := [(7, 1)]\<rparr>) row"
proof -
  have "users_ok (w_db (sample_world initial_db 7)) (w_fresh (sample_world initial_db 7))"
    by (simp add: sample_world_def users_ok_initial)
  from Register_correct [OF this sample_Register] show ?thesis by (auto simp: sample_world_def)
qed

text \<open>C24.  After \<open>Register\<close> succeeded, \<open>Authenticate\<close> with the same password and any spelling of the
  address that normalises alike returns the registered account, and another password is accepted
  only if bcrypt takes it for the hash.\<close>

theorem Register_then_Authenticate:
  assumes "users_ok (w_db w) (w_fresh w)"
    and "\<forall>q salt hash. ext_bcrypt_generate e q salt = Some hash \<longrightarrow> ext_bcrypt_compare e hash q"
    and "Register e h m p w = (Inr u, w1)" and "w_db w2 = w_db w1" and "w_faults w2 = []" and "w_fresh w1 \<le> w_fresh w2"
    and "normalizeEmail e m2 = normalizeEmail e m"
  shows "Authenticate e m2 p w2 = (Inr u, w2) \<and> user_Roles u = [RoleUser] \<and>
    (\<exists>hash salt. ext_bcrypt_generate e p salt = Some hash \<and> (\<forall>q. Authenticate e m2 q w2 =
       (if ext_bcrypt_compare e hash q then Inr u else Inl (Sentinel ErrInvalidCredentials), w2)))"
proof -
  from create_account_cases [OF assms(1) assms(3) [unfolded Register_eq]] obtain row where
    new: "new_account e h m p True {1} w (w_db w1) row" and u: "u = hydrated (w_db w1) row"
    by (auto simp: role_ids_user)
  note parts = new [unfolded new_account_def]
  have row: "row \<in> set (db_users (w_db w2))" "db_roles (w_db w1) = db_roles (w_db w)"
    using parts regrants_db(1,2) assms(4) by fastforce+
  have ok: "users_ok (w_db w2) (w_fresh w2)"
    using keepsD [OF keeps_Register assms(1,3)] assms(4,6) users.mono by metis
  from parts obtain salt where salt: "ext_bcrypt_generate e p salt = Some (ur_PasswordHash row)" by blast
  have a: "Authenticate e m2 q w2 = (if ext_bcrypt_compare e (ur_PasswordHash row) q then Inr u
      else Inl (Sentinel ErrInvalidCredentials), w2)" for q
    using Authenticate_row [OF ok _ row(1), of e m2 q] parts assms(4,5,7) u by (simp add: calm_def)
  have "user_Roles u = [RoleUser]"
    using parts row(2) assms(1) by (simp add: u hydrated_def role_names_initial users_ok_def regrants_def RoleUser_def)
  with a salt assms(2) show ?thesis by auto
qed

theorem Register_then_Authenticate_witness:
  "fst (Authenticate sample_ext ''a@B.io '' ''password1''
     (sample_world (initial_db\<lparr>db_users := [alice], db_user_roles := [(7, 1)]\<rparr>) 8)) =
   Inr (hydrated (initial_db\<lparr>db_user_roles := [(7, 1)]\<rparr>) alice)"
proof -
  have m: "normalizeEmail sample_ext ''a@B.io '' = normalizeEmail sample_ext ''A@b.io''" by code_simp
  have ok: "users_ok (w_db (sample_world initial_db 7)) (w_fresh (sample_world initial_db 7))"
    by (simp add: sample_world_def users_ok_initial)
  have b: "\<forall>q salt hash. ext_bcrypt_generate sample_ext q salt = Some hash \<longrightarrow> ext_bcrypt_compare sample_ext hash q"
    by (simp add: sample_ext_def)
  from Register_then_Authenticate [OF ok b sample_Register refl _ order_refl m]
  show ?thesis by (simp add: sample_world_def)
qed

text \<open>\<open>ListUsers\<close> gathers the joined rows into one entry for each account, with all its roles,
  newest account first, and agrees with \<open>GetUser\<close> on each of them.\<close>

theorem ListUsers_correct:
  assumes "users_ok (w_db w) n" and "w_faults w = []"
  shows "ListUsers w = (Inr (map (hydrated (w_db w))
      (sort_key (\<lambda>u. - ur_CreatedAt u) (sort_key ur_ID (db_users (w_db w))))), w) \<and>
    (\<forall>row \<in> set (db_users (w_db w)). GetUser (ur_ID row) w = (Inr (hydrated (w_db w) row), w))"
proof (intro conjI ballI)
  have calm: "calm w" using assms(2) by (simp add: calm_def)
  show "ListUsers w = (Inr (map (hydrated (w_db w))
      (sort_key (\<lambda>u. - ur_CreatedAt u) (sort_key ur_ID (db_users (w_db w))))), w)"
    by (rule ListUsers_calm [OF assms(1) calm])
  show "GetUser (ur_ID row) w = (Inr (hydrated (w_db w) row), w)" if "row \<in> set (db_users (w_db w))" for row
    by (rule GetUser_calm [OF assms(1) calm that])
qed

theorem ListUsers_correct_witness:
  "map user_Roles (projr (fst (ListUsers (sample_world (initial_db\<lparr>db_users := [alice], db_user_roles := [(7, 3), (7, 1)]\<rparr>) 8))))
   = [[''tester'', ''user'']]"
proof -
  have "users_ok (initial_db\<lparr>db_users := [alice], db_user_roles := [(7, 3), (7, 1)]\<rparr>) 8"
    by (simp add: users_ok_def initial_db_def alice_def handlePattern_def handle_char_def)
  then have "fst (ListUsers (sample_world (initial_db\<lparr>db_users := [alice], db_user_roles := [(7, 3), (7, 1)]\<rparr>) 8)) =
      Inr [hydrated (initial_db\<lparr>db_users := [alice], db_user_roles := [(7, 3), (7, 1)]\<rparr>) alice]"
    using ListUsers_correct [of "sample_world (initial_db\<lparr>db_users := [alice], db_user_roles := [(7, 3), (7, 1)]\<rparr>) 8" 8]
    by (simp add: sample_world_def initial_db_def)
  then show ?thesis by (simp add: hydrated_def role_names_def initial_db_def alice_def)
qed

text \<open>The unbounded loop of \<open>SeedTesters\<close> ends in every state of the tables and under every
  sequence of faults.  Without an error the number of testers is the larger of the target and what
  it was, and the result is the number of accounts created.\<close>

theorem SeedTesters_correct:
  assumes "users_ok (w_db w) (w_fresh w)"
  shows "\<exists>k err w'. SeedTesters e target domain hash w = Some ((k, err), w') \<and> 0 \<le> k \<and>
    users_ok (w_db w') (w_fresh w') \<and>
    (err = None \<longrightarrow> int (card (holders (w_db w') 3)) = max target (int (card (holders (w_db w) 3))) \<and>
      k = int (card (holders (w_db w') 3)) - int (card (holders (w_db w) 3)))"
  using SeedTesters_returns [OF assms, of e target domain hash] by blast

theorem SeedTesters_correct_witness:
  "\<exists>k err w'. SeedTesters sample_ext 5 ''b.io'' ''x'' (sample_world initial_db 0) = Some ((k, err), w')"
  using SeedTesters_correct [of "sample_world initial_db 0" sample_ext 5 "''b.io''" "''x''"] users_ok_initial [of 0]
  by (auto simp: sample_world_def)

text \<open>The guard of the last administrator counts inactive administrators as well: \<open>UpdateUser\<close> can
  deactivate the only administrator that is active.\<close>

theorem last_active_admin_lost:
  "\<exists>e inp w u w'. users_ok (w_db w) (w_fresh w) \<and> UpdateUser e inp w = (Inr u, w') \<and>
    (\<exists>row \<in> set (db_users (w_db w)). ur_IsActive row \<and> ur_ID row \<in> admins (w_db w)) \<and>
    \<not> (\<exists>row \<in> set (db_users (w_db w')). ur_IsActive row \<and> ur_ID row \<in> admins (w_db w'))"
proof -
  define bob :: user_row where "bob = \<lparr>ur_ID = 8, ur_Handle = ''bob'', ur_Email = ''b@b.io'', ur_PasswordHash = ''x'',
     ur_IsActive = False, ur_CreatedAt = 1000, ur_UpdatedAt = 1000\<rparr>"
  define w where "w = sample_world (initial_db\<lparr>db_users := [alice, bob], db_user_roles := [(7, 2), (8, 2)]\<rparr>) 9"
  define inp where "inp = \<lparr>uu_ActorUserID = 7, uu_UserID = 7, uu_Handle = ''alice'', uu_Email = ''a@b.io'',
     uu_Password = [], uu_IsActive = False, uu_Roles = []\<rparr>"
  define w' where "w' = sample_world (initial_db\<lparr>db_users := [alice\<lparr>ur_IsActive := False\<rparr>, bob], db_user_roles := [(8, 2), (7, 1)]\<rparr>) 9"
  have n: "normalizeHandle sample_ext ''alice'' = Inr ''alice''" "normalizeEmail sample_ext ''a@b.io'' = Inr ''a@b.io''"
    "normalizeRoles sample_ext [] = [''user'']" "normalizeRoles sample_ext [''user''] = [''user'']"
    by code_simp+
  have v: "user_violation sample_ext (w_db w) (Some 7) ''alice'' ''a@b.io'' = None"
    unfolding w_def bob_def sample_world_def world.select_convs by code_simp
  have ok: "users_ok (w_db w) (w_fresh w)"
    by (simp add: w_def bob_def sample_world_def users_ok_def initial_db_def alice_def handlePattern_def handle_char_def)
  have "\<exists>u. UpdateUser sample_ext inp w = (Inr u, w')"
    using v by (simp add: UpdateUser_def inp_def run_simps n w_def sample_world_def with_tx_def external_def Let_def
      getUserWithQueries_def sql_GetUserByID_def query_def find_row_def hydrateUser_def sql_ListRoleNamesByUser_def
      ensureActiveAdminInvariant_def sql_CountUsersByRole_def sql_AdminUpdateUser_def update_user_checked_def
      update_user_def update_password_def setRoles_def sql_RemoveAllRolesFromUser_def exec_def sql_AddRoleToUser_def
      add_roles_def GetUser_def alice_def bob_def role_names_def count_by_role_def initial_db_def RoleAdmin_def
      RoleUser_def w'_def)
  then obtain u where "UpdateUser sample_ext inp w = (Inr u, w')" by blast
  moreover have "\<exists>row \<in> set (db_users (w_db w)). ur_IsActive row \<and> ur_ID row \<in> admins (w_db w)"
    by (simp add: w_def sample_world_def alice_def admins_def roles_of_def)
  moreover have "\<not> (\<exists>row \<in> set (db_users (w_db w')). ur_IsActive row \<and> ur_ID row \<in> admins (w_db w'))"
    by (simp add: w'_def sample_world_def bob_def)
  ultimately show ?thesis using ok by blast
qed

end
