(* ===== verification/KeyStore.thy ===== *)
theory KeyStore
  imports Accounts
begin

text \<open>
  internal/auth/signing_keys.go: the keys that sign and verify the tokens.  At most one key of a
  token type is active; making a new one retires the old one in the same transaction, and a
  retired key verifies tokens until its grace period ends.
\<close>

section \<open>The methods\<close>

record signingKey =
  sk_ID :: uuid
  sk_TokenType :: string
  sk_Algorithm :: string
  sk_Secret :: "nat list"
  sk_State :: string
  sk_VerifyUntil :: "int option"
  sk_CreatedAt :: int
  sk_UpdatedAt :: int

definition hydrateSigningKey :: "key_row \<Rightarrow> signingKey" where
  "hydrateSigningKey row = \<lparr>sk_ID = kr_ID row, sk_TokenType = kr_TokenType row, sk_Algorithm = kr_Algorithm row,
     sk_Secret = kr_Secret row, sk_State = kr_State row, sk_VerifyUntil = kr_VerifyUntil row,
     sk_CreatedAt = kr_CreatedAt row, sk_UpdatedAt = kr_UpdatedAt row\<rparr>"

definition normalizeTokenType :: "ext \<Rightarrow> string \<Rightarrow> goError + string" where
  "normalizeTokenType e tokenType =
     (let t = lower e (TrimSpace tokenType) in
      if t = TokenTypeAccess then Inr TokenTypeAccess
      else if t = TokenTypeRefresh then Inr TokenTypeRefresh
      else Inl (Sentinel ErrInvalidTokenType))"

definition ActiveSigningKey :: "ext \<Rightarrow> string \<Rightarrow> signingKey svc" where
  "ActiveSigningKey e tokenType =
     sbind (of_sum (normalizeTokenType e tokenType)) (\<lambda>tt.
     sbind (on_error (sql_GetActiveJWTSigningKey tt) (not_found_or ErrNoActiveSigningKey ''get active signing key''))
       (\<lambda>row. sret (hydrateSigningKey row)))"

definition VerificationKey :: "ext \<Rightarrow> uuid \<Rightarrow> string \<Rightarrow> int \<Rightarrow> signingKey svc" where
  "VerificationKey e keyID tokenType t =
     sbind (of_sum (normalizeTokenType e tokenType)) (\<lambda>tt.
     sbind (on_error (sql_GetJWTSigningKeyByID keyID) (not_found_or ErrSigningKeyNotFound ''get signing key'')) (\<lambda>row.
     let key = hydrateSigningKey row in
     if sk_TokenType key \<noteq> tt then sfail (Sentinel ErrSigningKeyUnavailable)
     else if sk_State key = ''active'' then sret key
     else if sk_State key = ''retired'' then
       (case sk_VerifyUntil key of
          Some until \<Rightarrow> if t < until then sret key else sfail (Sentinel ErrSigningKeyUnavailable)
        | None \<Rightarrow> sfail (Sentinel ErrSigningKeyUnavailable))
     else sfail (Sentinel ErrSigningKeyUnavailable)))"

definition retire_active :: "string \<Rightarrow> int \<Rightarrow> signingKey option svc" where
  "retire_active tt verifyOldFor =
     sbind (attempt (sql_GetActiveJWTSigningKeyForUpdate tt)) (\<lambda>res.
     case res of
       Inl err \<Rightarrow> if errors_is err NoRows then sret None else sfail (Wrap ''lock active signing key'' err)
     | Inr active \<Rightarrow>
         sbind now (\<lambda>t.
         sbind (on_error (sql_RetireJWTSigningKey (kr_ID active) (t + verifyOldFor)) (Wrap ''retire active signing key''))
           (\<lambda>row. sret (Some (hydrateSigningKey row)))))"

definition CreateSigningKey :: "ext \<Rightarrow> string \<Rightarrow> int \<Rightarrow> (signingKey \<times> signingKey option) svc" where
  "CreateSigningKey e tokenType verifyOldFor =
     sbind (of_sum (normalizeTokenType e tokenType)) (\<lambda>tt.
     if verifyOldFor < 0 then sfail (Sentinel ErrNegativeVerificationGrace)
     else
       sbind (on_error (rand_bytes 32) (Wrap ''generate signing key secret'')) (\<lambda>secret.
       sbind (with_tx ''begin create signing key tx'' ''commit create signing key tx''
          (sbind (retire_active tt verifyOldFor) (\<lambda>retired.
           sbind (on_error (sql_CreateJWTSigningKey tt ''HS256'' secret ''active'' None) (Wrap ''create signing key'')) (\<lambda>row.
           sret (row, retired))))) (\<lambda>(row, retired).
       sret (hydrateSigningKey row, retired))))"

definition ExpireSigningKey :: "uuid \<Rightarrow> int \<Rightarrow> signingKey svc" where
  "ExpireSigningKey keyID verifyFor =
     (if verifyFor < 0 then sfail (Sentinel ErrNegativeVerificationGrace)
      else
        sbind (with_tx ''begin expire signing key tx'' ''commit expire signing key tx''
          (sbind (on_error (sql_GetJWTSigningKeyByIDForUpdate keyID) (not_found_or ErrSigningKeyNotFound ''lock signing key'')) (\<lambda>row.
           sbind now (\<lambda>t.
           on_error (sql_RetireJWTSigningKey (kr_ID row) (t + verifyFor)) (Wrap ''expire signing key''))))) (\<lambda>row.
        sret (hydrateSigningKey row)))"

definition DeleteSigningKey :: "uuid \<Rightarrow> unit svc" where
  "DeleteSigningKey keyID =
     with_tx ''begin delete signing key tx'' ''commit delete signing key tx''
       (sbind (on_error (sql_GetJWTSigningKeyByIDForUpdate keyID) (not_found_or ErrSigningKeyNotFound ''lock signing key'')) (\<lambda>row.
        if kr_State row = ''active'' then sfail (Sentinel ErrCannotDeleteActiveKey)
        else on_error (sql_DeleteJWTSigningKey keyID) (Wrap ''delete signing key'')))"

fun ensure_ready_loop :: "ext \<Rightarrow> string list \<Rightarrow> unit svc" where
  "ensure_ready_loop e [] = sret ()"
| "ensure_ready_loop e (tokenType # types) =
     sbind (attempt (ActiveSigningKey e tokenType)) (\<lambda>res.
     case res of
       Inr _ \<Rightarrow> ensure_ready_loop e types
     | Inl err \<Rightarrow>
         if \<not> errors_is err (Sentinel ErrNoActiveSigningKey) then sfail (Wrap (tokenType @ '' signing key'') err)
         else sbind (on_error (CreateSigningKey e tokenType 0) (Wrap (tokenType @ '' signing key: seed'')))
           (\<lambda>_. ensure_ready_loop e types))"

definition EnsureReady :: "ext \<Rightarrow> unit svc" where
  "EnsureReady e = ensure_ready_loop e [TokenTypeAccess, TokenTypeRefresh]"

section \<open>The invariant of the keys\<close>

definition active_of :: "string \<Rightarrow> key_row list \<Rightarrow> key_row list" where
  "active_of tt ks = filter (\<lambda>k. kr_TokenType k = tt \<and> kr_State k = ''active'') ks"

definition key_shape :: "uuid \<Rightarrow> key_row \<Rightarrow> bool" where
  "key_shape n k \<longleftrightarrow> kr_ID k < n \<and> kr_TokenType k \<in> {TokenTypeAccess, TokenTypeRefresh} \<and> kr_Algorithm k = ''HS256'' \<and>
     length (kr_Secret k) = 32 \<and> (\<forall>b \<in> set (kr_Secret k). b < 256) \<and>
     (kr_State k = ''active'' \<and> kr_VerifyUntil k = None \<or> kr_State k = ''retired'' \<and> kr_VerifyUntil k \<noteq> None)"

definition keys_ok :: "db \<Rightarrow> uuid \<Rightarrow> bool" where
  "keys_ok d n \<longleftrightarrow> distinct (map kr_ID (db_keys d)) \<and> (\<forall>k \<in> set (db_keys d). key_shape n k) \<and>
     (\<forall>tt. length (active_of tt (db_keys d)) \<le> 1)"

lemma key_shape_mono: "key_shape n k \<Longrightarrow> n \<le> m \<Longrightarrow> key_shape m k"
  by (auto simp: key_shape_def)

interpretation keys: table_invariant keys_ok
  by unfold_locales (auto simp: keys_ok_def intro: key_shape_mono)

lemma newest_in: "newest ks = Some k \<Longrightarrow> k \<in> set ks"
  by (induction ks arbitrary: k) (auto split: option.splits if_splits)

lemma newest_None: "newest ks = None \<longleftrightarrow> ks = []"
  by (induction ks) (auto split: option.split)

lemma active_key_single:
  assumes "keys_ok d n" and "active_key tt d = Some k"
  shows "active_of tt (db_keys d) = [k]"
proof -
  have "k \<in> set (active_of tt (db_keys d))"
    using newest_in [OF assms(2) [unfolded active_key_def]] by (simp add: active_of_def)
  moreover have "length (active_of tt (db_keys d)) \<le> 1" using assms(1) by (simp add: keys_ok_def)
  ultimately show ?thesis by (cases "active_of tt (db_keys d)") auto
qed

lemma active_key_None: "active_key tt d = None \<longleftrightarrow> active_of tt (db_keys d) = []"
  by (simp add: active_key_def active_of_def newest_None)

text \<open>Retiring the keys of one identifier.\<close>

abbreviation retire_id :: "uuid \<Rightarrow> int \<Rightarrow> int \<Rightarrow> key_row list \<Rightarrow> key_row list" where
  "retire_id i t until ks \<equiv> map (\<lambda>k. if kr_ID k = i then retire_key t until k else k) ks"

lemma active_of_retire: "active_of tt (retire_id i t until ks) = filter (\<lambda>k. kr_ID k \<noteq> i) (active_of tt ks)"
  by (induction ks) (auto simp: active_of_def retire_key_def)

lemma keys_ok_replace:
  assumes "distinct (map kr_ID ks)" and "\<And>k. k \<in> set ks \<Longrightarrow> key_shape n k" and "\<And>tt. length (active_of tt ks) \<le> 1"
  shows "keys_ok (d\<lparr>db_keys := ks\<rparr>) n"
  using assms by (simp add: keys_ok_def)

lemma keys_ok_retire: "keys_ok d n \<Longrightarrow> keys_ok (d\<lparr>db_keys := retire_id i t until (db_keys d)\<rparr>) n"
proof -
  assume ok: "keys_ok d n"
  have ids: "map kr_ID (retire_id i t until (db_keys d)) = map kr_ID (db_keys d)" by (simp add: retire_key_def)
  have "distinct (map kr_ID (retire_id i t until (db_keys d)))" unfolding ids using ok by (simp add: keys_ok_def)
  moreover have "key_shape n k" if "k \<in> set (retire_id i t until (db_keys d))" for k
    using that ok by (auto simp: keys_ok_def key_shape_def retire_key_def)
  moreover have "length (active_of tt (retire_id i t until (db_keys d))) \<le> 1" for tt
    using ok unfolding active_of_retire keys_ok_def by (meson le_trans length_filter_le)
  ultimately show ?thesis by (rule keys_ok_replace)
qed

lemma keys_ok_insert:
  assumes "keys_ok d n" and "key_shape (n + 1) k" and "kr_ID k = n"
    and "kr_State k = ''active'' \<longrightarrow> active_of (kr_TokenType k) (db_keys d) = []"
  shows "keys_ok (d\<lparr>db_keys := db_keys d @ [k]\<rparr>) (n + 1)"
  using assms by (auto simp: keys_ok_def active_of_def key_shape_def)

lemma keys_ok_delete: "keys_ok d n \<Longrightarrow> keys_ok (d\<lparr>db_keys := filter (\<lambda>k. kr_ID k \<noteq> i) (db_keys d)\<rparr>) n"
proof -
  assume ok: "keys_ok d n"
  have "active_of tt (filter (\<lambda>k. kr_ID k \<noteq> i) (db_keys d)) = filter (\<lambda>k. kr_ID k \<noteq> i) (active_of tt (db_keys d))" for tt
    by (auto simp: active_of_def intro: filter_cong)
  then have "length (active_of tt (filter (\<lambda>k. kr_ID k \<noteq> i) (db_keys d))) \<le> 1" for tt
    using ok unfolding keys_ok_def by (metis le_trans length_filter_le)
  then show ?thesis using ok by (simp add: keys_ok_def distinct_map_filter)
qed

lemma key_violation_None:
  assumes "key_violation d tt alg st = None"
  shows "alg = ''HS256''" "tt \<in> {TokenTypeAccess, TokenTypeRefresh}" "st = ''active'' \<longrightarrow> active_of tt (db_keys d) = []"
  using assms by (auto simp: key_violation_def TokenTypeAccess_def TokenTypeRefresh_def active_of_def
      filter_empty_conv split: if_splits)

lemma keeps_sql_CreateKey:
  assumes "length secret = 32" and "\<forall>b \<in> set secret. b < 256"
  shows "keeps keys_ok (sql_CreateJWTSigningKey tt alg secret ''active'' None)"
  unfolding sql_CreateJWTSigningKey_def
  by (rule keeps_external)
    (auto simp: keeps_def Let_def key_shape_def assms dest: key_violation_None split: option.split
      intro!: keys_ok_insert [unfolded Suc_eq_plus1 [symmetric]])

lemma keeps_sql_RetireKey [keeps_intros]: "keeps keys_ok (sql_RetireJWTSigningKey i until)"
  unfolding sql_RetireJWTSigningKey_def
  by (rule keeps_external) (auto simp: keeps_def keys_ok_retire split: option.split)

lemma keeps_sql_DeleteKey [keeps_intros]: "keeps keys_ok (sql_DeleteJWTSigningKey i)"
  unfolding sql_DeleteJWTSigningKey_def by (rule keeps_exec) (rule keys_ok_delete)

lemma keeps_key_reads [keeps_intros]:
  "keeps ok (sql_GetActiveJWTSigningKey tt)" "keeps ok (sql_GetActiveJWTSigningKeyForUpdate tt)"
  "keeps ok (sql_GetJWTSigningKeyByID i)" "keeps ok (sql_GetJWTSigningKeyByIDForUpdate i)"
  unfolding sql_GetActiveJWTSigningKey_def sql_GetActiveJWTSigningKeyForUpdate_def sql_GetJWTSigningKeyByID_def
    sql_GetJWTSigningKeyByIDForUpdate_def
  by (rule keeps_query)+

lemma reads_keys [reads_intros]:
  "reads (sql_GetActiveJWTSigningKey tt)" "reads (sql_GetActiveJWTSigningKeyForUpdate tt)"
  "reads (sql_GetJWTSigningKeyByID i)" "reads (sql_GetJWTSigningKeyByIDForUpdate i)"
  unfolding sql_GetActiveJWTSigningKey_def sql_GetActiveJWTSigningKeyForUpdate_def sql_GetJWTSigningKeyByID_def
    sql_GetJWTSigningKeyByIDForUpdate_def
  by (rule reads_pure)+

section \<open>Every method keeps the invariant\<close>

lemma keeps_retire_active [keeps_intros]: "keeps keys_ok (retire_active tt d)"
  unfolding retire_active_def
  by (intro keeps_intros) (auto intro!: keeps_intros split: sum.split)

lemma keeps_CreateSigningKey [keeps_intros]: "keeps keys_ok (CreateSigningKey e tt d)"
proof -
  have "keeps keys_ok (with_tx b c (sbind (retire_active tt d) (\<lambda>retired.
      sbind (on_error (sql_CreateJWTSigningKey tt alg secret ''active'' None) h) (\<lambda>row. sret (row, retired)))))"
    if "on_error (rand_bytes 32) h' w = (Inr secret, w')" for b c alg secret h h' w w' tt
    using rand_Inr that
    by (intro keys.keeps_with_tx keeps_intros keeps_sql_CreateKey) (auto simp: on_error_Inr)
  then show ?thesis unfolding CreateSigningKey_def
    by (intro keeps_intros keeps_sbind_Inr [of keys_ok "on_error (rand_bytes 32) _"])
      (auto intro: keeps_intros split: prod.split)
qed

lemma keeps_ExpireSigningKey [keeps_intros]: "keeps keys_ok (ExpireSigningKey i d)"
  unfolding ExpireSigningKey_def by (intro keeps_intros keys.keeps_with_tx)

lemma keeps_DeleteSigningKey [keeps_intros]: "keeps keys_ok (DeleteSigningKey i)"
  unfolding DeleteSigningKey_def by (intro keeps_intros keys.keeps_with_tx)

lemma keeps_ActiveSigningKey [keeps_intros]: "keeps ok (ActiveSigningKey e tt)"
  unfolding ActiveSigningKey_def by (intro keeps_intros)

lemma keeps_VerificationKey [keeps_intros]: "keeps ok (VerificationKey e i tt t)"
  unfolding VerificationKey_def Let_def
  by (intro keeps_intros) (auto intro: keeps_intros split: option.split)

lemma keeps_ensure_ready [keeps_intros]: "keeps keys_ok (ensure_ready_loop e types)"
  by (induction types) (auto intro!: keeps_intros split: sum.split)

lemma keeps_EnsureReady [keeps_intros]: "keeps keys_ok (EnsureReady e)"
  unfolding EnsureReady_def by (rule keeps_ensure_ready)

section \<open>What a successful call did\<close>

lemma RetireKey_Inr:
  assumes "sql_RetireJWTSigningKey i until w = (Inr row, w')" and "distinct (map kr_ID (db_keys (w_db w)))"
    and "k \<in> set (db_keys (w_db w))" and "kr_ID k = i"
  shows "row = retire_key (w_now w) until k \<and> w_fresh w' = w_fresh w \<and> w_now w' = w_now w \<and>
    w_db w' = (w_db w)\<lparr>db_keys := retire_id i (w_now w) until (db_keys (w_db w))\<rparr>"
proof -
  have "find (\<lambda>k. kr_ID k = i) (db_keys (w_db w)) = Some k"
    using find_unique [OF assms(2,3)] assms(4) by simp
  then show ?thesis
    using external_InrD [OF assms(1) [unfolded sql_RetireJWTSigningKey_def]] by auto
qed

lemma retire_active_Inr:
  assumes ok: "keys_ok (w_db w) n" and run: "retire_active tt verifyOldFor w = (Inr retired, w')"
  shows "w_now w' = w_now w"
    and "(active_of tt (db_keys (w_db w)) = [] \<and> retired = None \<and> w_db w' = w_db w \<and> w_fresh w' = w_fresh w) \<or>
    (\<exists>k. active_of tt (db_keys (w_db w)) = [k] \<and>
       retired = Some (hydrateSigningKey (retire_key (w_now w) (w_now w + verifyOldFor) k)) \<and>
       w_db w' = (w_db w)\<lparr>db_keys := retire_id (kr_ID k) (w_now w) (w_now w + verifyOldFor) (db_keys (w_db w))\<rparr> \<and>
       w_fresh w' = w_fresh w)" (is ?goal)
proof -
  obtain res w1 where q: "sql_GetActiveJWTSigningKeyForUpdate tt w = (res, w1)" by force
  obtain fs where w1: "w1 = w\<lparr>w_faults := fs\<rparr>"
    using query_world q unfolding sql_GetActiveJWTSigningKeyForUpdate_def by blast
  have "w_now w' = w_now w \<and> ?goal"
  proof (cases res)
    case (Inl err)
    with run q have err: "errors_is err NoRows" "retired = None" "w' = w1"
      by (auto simp: retire_active_def run_simps split: if_splits)
    have "active_key tt (w_db w) = None"
      using q [unfolded sql_GetActiveJWTSigningKeyForUpdate_def query_def Inl] err(1)
      by (auto elim!: external_Inl split: option.splits)
    with err w1 show ?thesis by (simp add: active_key_None)
  next
    case (Inr k)
    have "active_key tt (w_db w) = Some k"
      using q query_Inr [of _ w k w1] unfolding sql_GetActiveJWTSigningKeyForUpdate_def Inr
      by (auto split: option.splits dest!: query_Inr)
    note act = active_key_single [OF ok this]
    then have "k \<in> set (active_of tt (db_keys (w_db w)))" by simp
    then have k: "k \<in> set (db_keys (w_db w1))" by (simp add: active_of_def w1)
    have d: "distinct (map kr_ID (db_keys (w_db w1)))" using ok by (simp add: keys_ok_def w1)
    from run q Inr obtain row where r: "sql_RetireJWTSigningKey (kr_ID k) (w_now w1 + verifyOldFor) w1 = (Inr row, w')"
      and "retired = Some (hydrateSigningKey row)"
      by (auto simp: retire_active_def run_simps on_error_Inr split: prod.splits sum.splits)
    with RetireKey_Inr [OF r d k refl] act w1 show ?thesis by simp
  qed
  then show "w_now w' = w_now w" ?goal by simp_all
qed

text \<open>A new key is the only active one of its type; all other keys keep their secrets.\<close>

definition rotated :: "string \<Rightarrow> int \<Rightarrow> world \<Rightarrow> db \<Rightarrow> signingKey \<Rightarrow> signingKey option \<Rightarrow> bool" where
  "rotated tt verifyOldFor w d created retired \<longleftrightarrow> (\<exists>row secret.
     created = hydrateSigningKey row \<and> length secret = 32 \<and>
     row = \<lparr>kr_ID = w_fresh w, kr_TokenType = tt, kr_Algorithm = ''HS256'', kr_Secret = secret, kr_State = ''active'',
            kr_VerifyUntil = None, kr_CreatedAt = w_now w, kr_UpdatedAt = w_now w\<rparr> \<and>
     (case active_of tt (db_keys (w_db w)) of
        [] \<Rightarrow> retired = None \<and> d = (w_db w)\<lparr>db_keys := db_keys (w_db w) @ [row]\<rparr>
      | k # _ \<Rightarrow>
          retired = Some (hydrateSigningKey (retire_key (w_now w) (w_now w + verifyOldFor) k)) \<and>
          d = (w_db w)\<lparr>db_keys := retire_id (kr_ID k) (w_now w) (w_now w + verifyOldFor) (db_keys (w_db w)) @ [row]\<rparr>))"

lemma CreateKey_Inr:
  assumes "sql_CreateJWTSigningKey tt alg secret st until w = (Inr row, w')"
  shows "row = \<lparr>kr_ID = w_fresh w, kr_TokenType = tt, kr_Algorithm = alg, kr_Secret = secret, kr_State = st,
      kr_VerifyUntil = until, kr_CreatedAt = w_now w, kr_UpdatedAt = w_now w\<rparr>"
    and "w_db w' = (w_db w)\<lparr>db_keys := db_keys (w_db w) @ [row]\<rparr>"
  using external_InrD [OF assms [unfolded sql_CreateJWTSigningKey_def]] by (auto simp: Let_def split: option.splits)

lemma CreateSigningKey_cases:
  assumes ok: "keys_ok (w_db w) (w_fresh w)" and run: "CreateSigningKey e tokenType verifyOldFor w = (r, w')"
  shows "(w_db w' = w_db w \<and> (\<exists>err. r = Inl err)) \<or>
    (\<exists>tt created retired. normalizeTokenType e tokenType = Inr tt \<and> 0 \<le> verifyOldFor \<and>
       rotated tt verifyOldFor w (w_db w') created retired \<and> (r = Inr (created, retired) \<or> (\<exists>err. r = Inl err)))"
  using run [unfolded CreateSigningKey_def]
proof (cases rule: sbind_of_sumE)
  case tt: (went_on tt)
  show ?thesis
  proof (cases "verifyOldFor < 0")
    case True
    with tt show ?thesis by (auto simp: sfail_def)
  next
    case False
    let ?body = "\<lambda>secret. sbind (retire_active tt verifyOldFor) (\<lambda>retired.
      sbind (on_error (sql_CreateJWTSigningKey tt ''HS256'' secret ''active'' None) (Wrap ''create signing key'')) (\<lambda>row.
      sret (row, retired)))"
    from tt(2) [unfolded if_not_P [OF False]] show ?thesis
    proof (cases rule: sbind_cases)
      case (failed err)
      then show ?thesis by (auto simp: on_error_Inl dest: readsD [OF reads_pure(6)])
    next
      case (went_on secret w1)
      then have rand: "rand_bytes 32 w = (Inr secret, w1)" by (simp add: on_error_Inr)
      have w1: "w_db w1 = w_db w" "w_fresh w1 = w_fresh w" "w_now w1 = w_now w" "length secret = 32"
        using readsD [OF reads_pure(6) rand] rand_Inr [OF rand] rand_now [OF rand] by simp_all
      obtain r2 w2 where tx: "with_tx ''begin create signing key tx'' ''commit create signing key tx'' (?body secret) w1 = (r2, w2)"
        by force
      with went_on(2) have res: "w' = w2 \<and> r = (case r2 of Inl err \<Rightarrow> Inl err | Inr (row, retired) \<Rightarrow> Inr (hydrateSigningKey row, retired))"
        by (auto simp: run_simps split: sum.splits prod.splits)
      from tx show ?thesis
      proof (cases rule: with_tx_cases)
        case (rolled_back err)
        with res w1 show ?thesis by simp
      next
        case (committed w3 a w4)
        from committed(3) obtain retired w5 row where ra: "retire_active tt verifyOldFor w3 = (Inr retired, w5)"
          and cr: "sql_CreateJWTSigningKey tt ''HS256'' secret ''active'' None w5 = (Inr row, w4)" and a: "a = (row, retired)"
          by (auto elim!: sbind_InrE simp: on_error_Inr sret_def)
        have w3: "w_db w3 = w_db w" "w_fresh w3 = w_fresh w" "w_now w3 = w_now w" using committed w1 by simp_all
        then have ok3: "keys_ok (w_db w3) (w_fresh w3)" using ok by simp
        note retired = retire_active_Inr [OF ok3 ra]
        have "rotated tt verifyOldFor w (w_db w') (hydrateSigningKey row) retired"
          using retired CreateKey_Inr [OF cr] w3 w1(4) committed(4) res unfolding rotated_def
          by (intro exI [of _ row] exI [of _ secret]) auto
        with tt(1) False res committed(6) a show ?thesis by (auto split: sum.splits)
      qed
    qed
  qed
qed simp

lemma token_types: "normalizeTokenType e tokenType = Inr tt \<Longrightarrow> tt \<in> {TokenTypeAccess, TokenTypeRefresh}"
  by (auto simp: normalizeTokenType_def Let_def split: if_splits)

lemma rotated_active:
  assumes ok: "keys_ok (w_db w) (w_fresh w)" and rot: "rotated tt g w d created retired"
  shows "\<exists>row. active_of tt (db_keys d) = [row] \<and> created = hydrateSigningKey row \<and> kr_ID row = w_fresh w"
    and "tt' \<noteq> tt \<Longrightarrow> active_of tt' (db_keys d) = active_of tt' (db_keys (w_db w))"
proof -
  have id: "kr_ID k = kr_ID k' \<longleftrightarrow> k = k'" if "k \<in> set (db_keys (w_db w))" "k' \<in> set (db_keys (w_db w))" for k k'
    using that ok by (auto simp: keys_ok_def distinct_map inj_on_def)
  have le: "length (active_of tt (db_keys (w_db w))) \<le> 1" using ok by (simp add: keys_ok_def)
  from rot obtain row secret where row: "created = hydrateSigningKey row" "kr_TokenType row = tt" "kr_State row = ''active''"
      "kr_ID row = w_fresh w"
    and c: "(case active_of tt (db_keys (w_db w)) of
        [] \<Rightarrow> retired = None \<and> d = (w_db w)\<lparr>db_keys := db_keys (w_db w) @ [row]\<rparr>
      | k # _ \<Rightarrow> retired = Some (hydrateSigningKey (retire_key (w_now w) (w_now w + g) k)) \<and>
          d = (w_db w)\<lparr>db_keys := retire_id (kr_ID k) (w_now w) (w_now w + g) (db_keys (w_db w)) @ [row]\<rparr>)"
    unfolding rotated_def by auto
  have app: "active_of t (ks @ [row]) = active_of t ks @ (if t = tt then [row] else [])" for t ks
    using row by (auto simp: active_of_def)
  show "\<exists>row. active_of tt (db_keys d) = [row] \<and> created = hydrateSigningKey row \<and> kr_ID row = w_fresh w"
    using c le row by (cases "active_of tt (db_keys (w_db w))") (auto simp: app active_of_retire)
  show "active_of tt' (db_keys d) = active_of tt' (db_keys (w_db w))" if "tt' \<noteq> tt"
  proof (cases "active_of tt (db_keys (w_db w))")
    case Nil
    with c that show ?thesis by (simp add: app)
  next
    case (Cons k ks)
    then have k: "k \<in> set (db_keys (w_db w))" "kr_TokenType k = tt"
      using list.set_intros(1) [of k ks] unfolding Cons [symmetric] by (auto simp: active_of_def)
    have "filter (\<lambda>k'. kr_ID k' \<noteq> kr_ID k) (active_of tt' (db_keys (w_db w))) = active_of tt' (db_keys (w_db w))"
      using k that id unfolding filter_id_conv by (auto simp: active_of_def)
    with c Cons that show ?thesis by (simp add: app active_of_retire)
  qed
qed

text \<open>What \<open>VerificationKey\<close> answers.\<close>

definition verifies :: "string \<Rightarrow> int \<Rightarrow> key_row \<Rightarrow> bool" where
  "verifies tt t k \<longleftrightarrow> kr_TokenType k = tt \<and>
     (kr_State k = ''active'' \<or> kr_State k = ''retired'' \<and> (\<exists>until. kr_VerifyUntil k = Some until \<and> t < until))"

lemma VerificationKey_calm:
  assumes ok: "keys_ok (w_db w) n" and calm: "calm w" and tt: "normalizeTokenType e tokenType = Inr tt"
    and k: "k \<in> set (db_keys (w_db w))"
  shows "VerificationKey e (kr_ID k) tokenType t w =
    (if verifies tt t k then Inr (hydrateSigningKey k) else Inl (Sentinel ErrSigningKeyUnavailable), w)"
proof -
  have "find (\<lambda>k'. kr_ID k' = kr_ID k) (db_keys (w_db w)) = Some k"
    using ok k by (intro find_unique) (auto simp: keys_ok_def)
  then show ?thesis
    by (auto simp: VerificationKey_def tt run_simps sql_GetJWTSigningKeyByID_def query_calm calm find_row_def Let_def
        verifies_def hydrateSigningKey_def split: option.split)
qed

lemma VerificationKey_Inr:
  assumes "VerificationKey e i tokenType t w = (Inr key, w')"
  shows "\<exists>k tt. k \<in> set (db_keys (w_db w)) \<and> kr_ID k = i \<and> normalizeTokenType e tokenType = Inr tt \<and> verifies tt t k \<and>
    key = hydrateSigningKey k"
proof -
  obtain tt row w1 where tt: "normalizeTokenType e tokenType = Inr tt" and q: "sql_GetJWTSigningKeyByID i w = (Inr row, w1)"
    and rest: "(let key = hydrateSigningKey row in
      if sk_TokenType key \<noteq> tt then sfail (Sentinel ErrSigningKeyUnavailable)
      else if sk_State key = ''active'' then sret key
      else if sk_State key = ''retired'' then
        (case sk_VerifyUntil key of
           Some until \<Rightarrow> if t < until then sret key else sfail (Sentinel ErrSigningKeyUnavailable)
         | None \<Rightarrow> sfail (Sentinel ErrSigningKeyUnavailable))
      else sfail (Sentinel ErrSigningKeyUnavailable)) w1 = (Inr key, w')"
    using assms unfolding VerificationKey_def by (elim sbind_InrE) (simp only: on_error_Inr of_sum_Inr)
  have v: "verifies tt t row" "key = hydrateSigningKey row"
    using rest unfolding Let_def verifies_def
    by (cases "kr_TokenType row = tt"; cases "kr_State row = ''active''"; cases "kr_State row = ''retired''";
        cases "kr_VerifyUntil row"; simp add: sfail_def sret_def hydrateSigningKey_def split: if_splits)+
  from q have "row \<in> set (db_keys (w_db w))" "kr_ID row = i"
    unfolding sql_GetJWTSigningKeyByID_def by (auto dest!: query_Inr find_row_Inr)
  with tt v show ?thesis by blast
qed

lemma ActiveSigningKey_calm:
  assumes calm: "calm w" and tt: "normalizeTokenType e tokenType = Inr tt" and k: "active_of tt (db_keys (w_db w)) = [k]"
  shows "ActiveSigningKey e tokenType w = (Inr (hydrateSigningKey k), w)"
proof -
  have "active_key tt (w_db w) = Some k" using k by (simp add: active_key_def active_of_def)
  then show ?thesis
    by (simp add: ActiveSigningKey_def tt run_simps sql_GetActiveJWTSigningKey_def query_calm calm)
qed

lemma ActiveSigningKey_Inr:
  assumes "keys_ok (w_db w) n" and "ActiveSigningKey e tokenType w = (Inr key, w')"
  shows "\<exists>tt k. normalizeTokenType e tokenType = Inr tt \<and> active_of tt (db_keys (w_db w)) = [k] \<and> key = hydrateSigningKey k"
proof -
  from assms(2) obtain tt row w1 where "normalizeTokenType e tokenType = Inr tt"
    "sql_GetActiveJWTSigningKey tt w = (Inr row, w1)" "key = hydrateSigningKey row"
    unfolding ActiveSigningKey_def by (auto elim!: sbind_InrE simp: on_error_Inr sret_def)
  then show ?thesis
    using active_key_single [OF assms(1)] unfolding sql_GetActiveJWTSigningKey_def
    by (auto dest!: query_Inr split: option.splits)
qed

lemma ActiveSigningKey_missing:
  assumes "ActiveSigningKey e tokenType w = (Inl err, w')" and "errors_is err (Sentinel ErrNoActiveSigningKey)"
  shows "\<exists>tt. normalizeTokenType e tokenType = Inr tt \<and> active_key tt (w_db w) = None"
  using assms(1) unfolding ActiveSigningKey_def
proof (cases rule: sbind_of_sumE)
  case (failed e)
  with assms(2) show ?thesis by (auto simp: normalizeTokenType_def Let_def split: if_splits)
next
  case (went_on tt)
  from went_on(2) show ?thesis
  proof (cases rule: sbind_cases)
    case (failed e1)
    with went_on(1) assms(2) show ?thesis
      by (auto simp: on_error_Inl sql_GetActiveJWTSigningKey_def query_def not_found_or_def elim!: external_Inl
          split: option.splits if_splits)
  qed (simp add: sret_def)
qed

lemma reads_key_methods [reads_intros]:
  "reads (ActiveSigningKey e tt)" "reads (VerificationKey e i tt t)"
  unfolding ActiveSigningKey_def VerificationKey_def Let_def
  by (intro reads_intros; auto intro!: reads_intros split: option.split)+

section \<open>Becoming ready\<close>

lemma EnsureReady_active:
  assumes "keys_ok (w_db w) (w_fresh w)" and "ensure_ready_loop e types w = (Inr u, w')"
  shows "(\<forall>tt. active_of tt (db_keys (w_db w)) \<noteq> [] \<longrightarrow> active_of tt (db_keys (w_db w')) = active_of tt (db_keys (w_db w))) \<and>
    (\<forall>tokenType \<in> set types. \<exists>tt. normalizeTokenType e tokenType = Inr tt \<and> active_of tt (db_keys (w_db w')) \<noteq> [])"
  using assms
proof (induction types arbitrary: w)
  case Nil
  then show ?case by (simp add: sret_def)
next
  case (Cons tokenType types)
  obtain res w1 where a: "ActiveSigningKey e tokenType w = (res, w1)" by force
  have w1: "w_db w1 = w_db w" "w_fresh w1 = w_fresh w" using readsD [OF reads_key_methods(1) a] by simp_all
  then have ok1: "keys_ok (w_db w1) (w_fresh w1)" using Cons.prems(1) by simp
  show ?case
  proof (cases res)
    case (Inr key)
    with Cons.prems(2) a have "ensure_ready_loop e types w1 = (Inr u, w')" by (simp add: run_simps)
    note IH = Cons.IH [OF ok1 this]
    from ActiveSigningKey_Inr [OF Cons.prems(1) a [unfolded Inr]] obtain tt k where
      tt: "normalizeTokenType e tokenType = Inr tt" "active_of tt (db_keys (w_db w)) = [k]" by blast
    with IH w1 show ?thesis by auto
  next
    case (Inl err)
    with Cons.prems(2) a obtain pair w2 where err: "errors_is err (Sentinel ErrNoActiveSigningKey)"
      and c: "CreateSigningKey e tokenType 0 w1 = (Inr pair, w2)" and l: "ensure_ready_loop e types w2 = (Inr u, w')"
      by (auto simp: run_simps on_error_Inr split: if_splits prod.splits sum.splits)
    from CreateSigningKey_cases [OF ok1 c] obtain tt created retired where tt: "normalizeTokenType e tokenType = Inr tt"
      and rot: "rotated tt 0 w1 (w_db w2) created retired" by auto
    have none: "active_of tt (db_keys (w_db w)) = []"
      using ActiveSigningKey_missing [OF a [unfolded Inl] err] tt by (simp add: active_key_None)
    note ra = rotated_active [OF ok1 rot]
    have ok2: "keys_ok (w_db w2) (w_fresh w2)" using keepsD [OF keeps_CreateSigningKey ok1 c] by simp
    have same: "active_of t (db_keys (w_db w)) \<noteq> [] \<Longrightarrow> active_of t (db_keys (w_db w2)) = active_of t (db_keys (w_db w))" for t
      using ra(2) [of t] none w1 by (cases "t = tt") auto
    have new: "active_of tt (db_keys (w_db w2)) \<noteq> []" using ra(1) by auto
    from Cons.IH [OF ok2 l] same new tt show ?thesis by auto
  qed
qed

lemma CreateSigningKey_calm:
  assumes calm: "calm w" and tt: "normalizeTokenType e tokenType = Inr tt" and none: "active_of tt (db_keys (w_db w)) = []"
  shows "\<exists>p w'. CreateSigningKey e tokenType 0 w = (Inr p, w') \<and> calm w'"
proof -
  have v: "key_violation (w_db w) tt ''HS256'' ''active'' = None"
    using none token_types [OF tt]
    by (auto simp: key_violation_def active_of_def filter_empty_conv TokenTypeAccess_def TokenTypeRefresh_def)
  have "active_key tt (w_db w) = None" using none by (simp add: active_key_None)
  with v calm show ?thesis
    by (simp add: CreateSigningKey_def run_simps tt rand_bytes_def external_def calm_def with_tx_def retire_active_def
        sql_GetActiveJWTSigningKeyForUpdate_def query_def sql_CreateJWTSigningKey_def Let_def)
qed

lemma EnsureReady_calm:
  assumes "keys_ok (w_db w) (w_fresh w)" and "calm w" and "\<forall>t \<in> set types. \<exists>tt. normalizeTokenType e t = Inr tt"
  shows "\<exists>w'. ensure_ready_loop e types w = (Inr (), w') \<and> calm w'"
  using assms
proof (induction types arbitrary: w)
  case Nil
  then show ?case by (simp add: sret_def)
next
  case (Cons tokenType types)
  then obtain tt where tt: "normalizeTokenType e tokenType = Inr tt" by auto
  have le: "length (active_of tt (db_keys (w_db w))) \<le> 1" using Cons.prems(1) by (simp add: keys_ok_def)
  show ?case
  proof (cases "active_of tt (db_keys (w_db w))")
    case Nil
    then have "active_key tt (w_db w) = None" by (simp add: active_key_None)
    then have a: "ActiveSigningKey e tokenType w = (Inl (Sentinel ErrNoActiveSigningKey), w)"
      using Cons.prems(2) by (simp add: ActiveSigningKey_def run_simps tt sql_GetActiveJWTSigningKey_def query_calm not_found_or_def)
    obtain p w1 where c: "CreateSigningKey e tokenType 0 w = (Inr p, w1)" "calm w1"
      using CreateSigningKey_calm [OF Cons.prems(2) tt Nil] by blast
    have "keys_ok (w_db w1) (w_fresh w1)" using keepsD [OF keeps_CreateSigningKey Cons.prems(1) c(1)] by simp
    from Cons.IH [OF this c(2)] Cons.prems(3) a c(1) show ?thesis by (auto simp: run_simps)
  next
    case (Cons k ks)
    with le have "active_of tt (db_keys (w_db w)) = [k]" by simp
    note a = ActiveSigningKey_calm [OF Cons.prems(2) tt this]
    from Cons.IH [OF Cons.prems(1,2)] Cons.prems(3) a show ?thesis by (simp add: run_simps)
  qed
qed

section \<open>Deleting\<close>

lemma DeleteSigningKey_db:
  assumes ok: "keys_ok (w_db w) (w_fresh w)" and run: "DeleteSigningKey i w = (r, w')"
  shows "w_db w' = w_db w \<and> (\<exists>err. r = Inl err) \<or>
    w_db w' = (w_db w)\<lparr>db_keys := filter (\<lambda>k. kr_ID k \<noteq> i) (db_keys (w_db w))\<rparr> \<and>
      (\<exists>k \<in> set (db_keys (w_db w)). kr_ID k = i \<and> kr_State k \<noteq> ''active'')"
  using run [unfolded DeleteSigningKey_def]
proof (cases rule: with_tx_cases)
  case (committed w1 a w2)
  from committed(3) obtain row w3 where q: "sql_GetJWTSigningKeyByIDForUpdate i w1 = (Inr row, w3)"
    and d: "(if kr_State row = ''active'' then sfail (Sentinel ErrCannotDeleteActiveKey)
      else on_error (sql_DeleteJWTSigningKey i) (Wrap ''delete signing key'')) w3 = (Inr a, w2)"
    by (elim sbind_InrE) (simp only: on_error_Inr)
  from q have row: "row \<in> set (db_keys (w_db w))" "kr_ID row = i" "w_db w3 = w_db w"
    unfolding sql_GetJWTSigningKeyByIDForUpdate_def using committed by (auto dest!: query_Inr find_row_Inr)
  from d have s: "kr_State row \<noteq> ''active''" and d: "sql_DeleteJWTSigningKey i w3 = (Inr a, w2)"
    by (auto simp: sfail_def on_error_Inr split: if_splits)
  from d have "w_db w2 = (w_db w)\<lparr>db_keys := filter (\<lambda>k. kr_ID k \<noteq> i) (db_keys (w_db w))\<rparr>"
    unfolding sql_DeleteJWTSigningKey_def exec_def using row by (auto dest!: external_InrD)
  with committed row s show ?thesis by auto
qed simp

lemma normalize_types:
  "normalizeTokenType e TokenTypeAccess = Inr TokenTypeAccess" "normalizeTokenType e TokenTypeRefresh = Inr TokenTypeRefresh"
proof -
  have "ToLower u (TrimSpace ''access'') = ''access''" "ToLower u (TrimSpace ''refresh'') = ''refresh''" for u by code_simp+
  then show "normalizeTokenType e TokenTypeAccess = Inr TokenTypeAccess" "normalizeTokenType e TokenTypeRefresh = Inr TokenTypeRefresh"
    by (simp_all add: normalizeTokenType_def lower_def TokenTypeAccess_def TokenTypeRefresh_def)
qed

lemma rotated_old:
  assumes "rotated tt g w d created (Some old)"
  obtains k where "k \<in> set (active_of tt (db_keys (w_db w)))" and "old = hydrateSigningKey (retire_key (w_now w) (w_now w + g) k)"
    and "retire_key (w_now w) (w_now w + g) k \<in> set (db_keys d)"
proof (cases "active_of tt (db_keys (w_db w))")
  case Nil
  with assms show ?thesis by (simp add: rotated_def)
next
  case (Cons k ks)
  then have k: "k \<in> set (active_of tt (db_keys (w_db w)))" by simp
  then have "k \<in> set (db_keys (w_db w))" by (simp add: active_of_def)
  with assms Cons have "old = hydrateSigningKey (retire_key (w_now w) (w_now w + g) k)"
    "retire_key (w_now w) (w_now w + g) k \<in> set (db_keys d)"
    by (auto simp: rotated_def intro!: image_eqI [of _ _ k])
  with k that show ?thesis by blast
qed

section \<open>Properties\<close>

definition sample_key :: key_row where
  "sample_key = \<lparr>kr_ID = 5, kr_TokenType = ''access'', kr_Algorithm = ''HS256'', kr_Secret = replicate 32 1, kr_State = ''active'',
     kr_VerifyUntil = None, kr_CreatedAt = 900, kr_UpdatedAt = 900\<rparr>"

lemma sample_key_ok: "keys_ok (initial_db\<lparr>db_keys := [sample_key]\<rparr>) 9" "keys_ok initial_db n"
  by (simp_all add: keys_ok_def key_shape_def active_of_def sample_key_def TokenTypeAccess_def initial_db_def)

lemma sample_type: "normalizeTokenType sample_ext '' Access'' = Inr ''access''"
  by code_simp

lemma sample_rotation:
  "\<exists>created w1. CreateSigningKey sample_ext '' Access'' 200 (sample_world (initial_db\<lparr>db_keys := [sample_key]\<rparr>) 9) =
    (Inr (created, Some (hydrateSigningKey (retire_key 1000 1200 sample_key))), w1)"
  by (simp add: CreateSigningKey_def run_simps sample_type sample_world_def rand_bytes_def external_def with_tx_def
      retire_active_def sql_GetActiveJWTSigningKeyForUpdate_def query_def active_key_def sample_key_def
      sql_RetireJWTSigningKey_def sql_CreateJWTSigningKey_def key_violation_def retire_key_def Let_def)

text \<open>C9.  \<open>CreateSigningKey\<close> is all or nothing under every sequence of faults.  When it takes effect the
  old active key of the token type, and no other key, is retired until the end of the grace period,
  the new key is the only active one of its type, the other type keeps its active key, and the
  invariant of the keys is kept.\<close>

theorem CreateSigningKey_rotates:
  assumes "keys_ok (w_db w) (w_fresh w)" and "CreateSigningKey e tokenType g w = (r, w')"
  shows "keys_ok (w_db w') (w_fresh w') \<and> ((w_db w' = w_db w \<and> (\<exists>err. r = Inl err)) \<or>
    (\<exists>tt row retired. normalizeTokenType e tokenType = Inr tt \<and> 0 \<le> g \<and>
       rotated tt g w (w_db w') (hydrateSigningKey row) retired \<and> active_of tt (db_keys (w_db w')) = [row] \<and>
       (\<forall>tt'. tt' = tt \<or> active_of tt' (db_keys (w_db w')) = active_of tt' (db_keys (w_db w))) \<and>
       (r = Inr (hydrateSigningKey row, retired) \<or> (\<exists>err. r = Inl err))))"
proof -
  have ok: "keys_ok (w_db w') (w_fresh w')" using keepsD [OF keeps_CreateSigningKey assms] by simp
  from CreateSigningKey_cases [OF assms] consider (same) "w_db w' = w_db w \<and> (\<exists>err. r = Inl err)"
    | (new) tt created retired where "normalizeTokenType e tokenType = Inr tt" "0 \<le> g"
        "rotated tt g w (w_db w') created retired" "r = Inr (created, retired) \<or> (\<exists>err. r = Inl err)" by blast
  then show ?thesis
  proof cases
    case same
    with ok show ?thesis by blast
  next
    case new
    from rotated_active(1) [OF assms(1) new(3)] obtain row where
      "active_of tt (db_keys (w_db w')) = [row]" "created = hydrateSigningKey row" by blast
    with new ok rotated_active(2) [OF assms(1) new(3)] show ?thesis by blast
  qed
qed

theorem CreateSigningKey_rotates_witness:
  "\<exists>(w0 :: world) row w1. db_keys (w_db w0) = [sample_key] \<and>
     CreateSigningKey sample_ext '' Access'' 200 w0 = (Inr (hydrateSigningKey row, Some (hydrateSigningKey (retire_key 1000 1200 sample_key))), w1) \<and>
     db_keys (w_db w1) = [retire_key 1000 1200 sample_key, row] \<and> active_of ''access'' (db_keys (w_db w1)) = [row] \<and> kr_ID row \<noteq> 5"
proof -
  let ?w0 = "sample_world (initial_db\<lparr>db_keys := [sample_key]\<rparr>) 9"
  obtain created w1 where run: "CreateSigningKey sample_ext '' Access'' 200 ?w0 =
    (Inr (created, Some (hydrateSigningKey (retire_key 1000 1200 sample_key))), w1)" using sample_rotation by blast
  have "keys_ok (w_db ?w0) (w_fresh ?w0)" by (simp add: sample_world_def sample_key_ok)
  from CreateSigningKey_rotates [OF this run] obtain row where act: "active_of ''access'' (db_keys (w_db w1)) = [row]"
    and c: "created = hydrateSigningKey row"
    and rot: "rotated ''access'' 200 ?w0 (w_db w1) (hydrateSigningKey row) (Some (hydrateSigningKey (retire_key 1000 1200 sample_key)))"
    by (auto simp: sample_type)
  have "db_keys (w_db w1) = [retire_key 1000 1200 sample_key, row]"
    using run act
    by (auto simp: CreateSigningKey_def run_simps sample_type sample_world_def rand_bytes_def external_def with_tx_def
      retire_active_def sql_GetActiveJWTSigningKeyForUpdate_def query_def active_key_def sample_key_def
      sql_RetireJWTSigningKey_def sql_CreateJWTSigningKey_def key_violation_def retire_key_def Let_def active_of_def)
  moreover have "kr_ID row \<noteq> 5" using rot by (auto simp: rotated_def hydrateSigningKey_def sample_world_def)
  moreover have "db_keys (w_db ?w0) = [sample_key]" by (simp add: sample_world_def)
  ultimately show ?thesis using run c act by blast
qed

text \<open>After a rotation the new key signs; it verifies at all times, and the old key verifies until
  the grace period is over and never after it.\<close>

theorem rotation_grace:
  assumes "keys_ok (w_db w) (w_fresh w)" and "CreateSigningKey e tokenType g w = (Inr (created, Some old), w1)"
    and "w_db w2 = w_db w1" and "w_faults w2 = []"
  shows "ActiveSigningKey e tokenType w2 = (Inr created, w2) \<and>
    VerificationKey e (sk_ID created) tokenType t w2 = (Inr created, w2) \<and>
    VerificationKey e (sk_ID old) tokenType t w2 =
      (if t < w_now w + g then Inr old else Inl (Sentinel ErrSigningKeyUnavailable), w2)"
proof -
  have calm: "calm w2" using assms(4) by (simp add: calm_def)
  have ok2: "keys_ok (w_db w2) (w_fresh w1)" using keepsD [OF keeps_CreateSigningKey assms(1,2)] assms(3) by simp
  from CreateSigningKey_cases [OF assms(1,2)] obtain tt where tt: "normalizeTokenType e tokenType = Inr tt"
    and rot: "rotated tt g w (w_db w2) created (Some old)" using assms(3) by auto
  from rotated_active(1) [OF assms(1) rot] obtain row where act: "active_of tt (db_keys (w_db w2)) = [row]"
    and c: "created = hydrateSigningKey row" by blast
  then have "row \<in> set (active_of tt (db_keys (w_db w2)))" by simp
  then have row: "row \<in> set (db_keys (w_db w2))" "verifies tt t row" by (simp_all add: active_of_def verifies_def)
  from rot obtain k where k: "k \<in> set (active_of tt (db_keys (w_db w)))"
    and old: "old = hydrateSigningKey (retire_key (w_now w) (w_now w + g) k)"
    and mem: "retire_key (w_now w) (w_now w + g) k \<in> set (db_keys (w_db w2))"
    by (rule rotated_old)
  have "verifies tt t (retire_key (w_now w) (w_now w + g) k) \<longleftrightarrow> t < w_now w + g"
    using k by (simp add: verifies_def retire_key_def active_of_def)
  then show ?thesis
    using ActiveSigningKey_calm [OF calm tt act] VerificationKey_calm [OF ok2 calm tt row(1), of t]
      VerificationKey_calm [OF ok2 calm tt mem, of t] row(2) old c
    by (simp add: hydrateSigningKey_def)
qed

theorem rotation_grace_witness:
  "\<exists>w2 :: world. fst (VerificationKey sample_ext 5 '' Access'' 1199 w2) = Inr (hydrateSigningKey (retire_key 1000 1200 sample_key)) \<and>
    fst (VerificationKey sample_ext 5 '' Access'' 1200 w2) = Inl (Sentinel ErrSigningKeyUnavailable)"
proof -
  obtain created w1 where run: "CreateSigningKey sample_ext '' Access'' 200 (sample_world (initial_db\<lparr>db_keys := [sample_key]\<rparr>) 9) =
    (Inr (created, Some (hydrateSigningKey (retire_key 1000 1200 sample_key))), w1)" using sample_rotation by blast
  have ok: "keys_ok (w_db (sample_world (initial_db\<lparr>db_keys := [sample_key]\<rparr>) 9)) (w_fresh (sample_world (initial_db\<lparr>db_keys := [sample_key]\<rparr>) 9))"
    by (simp add: sample_world_def sample_key_ok)
  have i: "sk_ID (hydrateSigningKey (retire_key 1000 1200 sample_key)) = 5"
    by (simp add: hydrateSigningKey_def retire_key_def sample_key_def)
  from rotation_grace [OF ok run, of "w1\<lparr>w_faults := []\<rparr>" 1199] rotation_grace [OF ok run, of "w1\<lparr>w_faults := []\<rparr>" 1200]
  show ?thesis unfolding i by (intro exI [of _ "w1\<lparr>w_faults := []\<rparr>"]) (simp add: sample_world_def)
qed

text \<open>When \<open>EnsureReady\<close> succeeds each token type has exactly one active key and keys that were
  active still are; without faults it does succeed.\<close>

theorem EnsureReady_correct:
  assumes "keys_ok (w_db w) (w_fresh w)"
  shows "(\<forall>u w'. EnsureReady e w = (Inr u, w') \<longrightarrow>
      (\<forall>tt \<in> {TokenTypeAccess, TokenTypeRefresh}. \<exists>k. active_of tt (db_keys (w_db w')) = [k] \<and>
        (active_of tt (db_keys (w_db w)) = [k] \<or> active_of tt (db_keys (w_db w)) = []))) \<and>
    (w_faults w = [] \<longrightarrow> (\<exists>w'. EnsureReady e w = (Inr (), w')))"
proof (intro conjI allI impI ballI)
  fix u w' tt assume run: "EnsureReady e w = (Inr u, w')" and tt: "tt \<in> {TokenTypeAccess, TokenTypeRefresh}"
  have ok: "keys_ok (w_db w') (w_fresh w')" using keepsD [OF keeps_EnsureReady assms run] by simp
  have n: "normalizeTokenType e tt = Inr tt" using tt by (auto simp: normalize_types)
  note r = EnsureReady_active [OF assms run [unfolded EnsureReady_def]]
  then have "active_of tt (db_keys (w_db w')) \<noteq> []" using tt n by fastforce
  moreover have "length (active_of tt (db_keys (w_db w'))) \<le> 1" using ok by (simp add: keys_ok_def)
  ultimately obtain k where "active_of tt (db_keys (w_db w')) = [k]"
    by (cases "active_of tt (db_keys (w_db w'))") auto
  then show "\<exists>k. active_of tt (db_keys (w_db w')) = [k] \<and>
      (active_of tt (db_keys (w_db w)) = [k] \<or> active_of tt (db_keys (w_db w)) = [])" using r by metis
next
  assume "w_faults w = []"
  with EnsureReady_calm [OF assms, of "[TokenTypeAccess, TokenTypeRefresh]" e] show "\<exists>w'. EnsureReady e w = (Inr (), w')"
    by (auto simp: EnsureReady_def calm_def normalize_types)
qed

theorem EnsureReady_correct_witness: "\<exists>w'. EnsureReady sample_ext (sample_world initial_db 3) = (Inr (), w')"
  using EnsureReady_correct [of "sample_world initial_db 3" sample_ext] by (simp add: sample_world_def sample_key_ok)

text \<open>\<open>DeleteSigningKey\<close> never removes an active key, nor any key but the named one.\<close>

theorem DeleteSigningKey_spares_active:
  assumes "keys_ok (w_db w) (w_fresh w)" and "DeleteSigningKey i w = (r, w')"
    and "k \<in> set (db_keys (w_db w))" and "kr_State k = ''active'' \<or> kr_ID k \<noteq> i"
  shows "k \<in> set (db_keys (w_db w'))"
proof -
  have "kr_ID k = kr_ID k' \<Longrightarrow> k' \<in> set (db_keys (w_db w)) \<Longrightarrow> k = k'" for k'
    using assms(1,3) by (auto simp: keys_ok_def distinct_map inj_on_def)
  with DeleteSigningKey_db [OF assms(1,2)] assms(3,4) show ?thesis by auto
qed

theorem DeleteSigningKey_spares_active_witness:
  "\<exists>r w'. DeleteSigningKey 5 (sample_world (initial_db\<lparr>db_keys := [sample_key]\<rparr>) 9) = (r, w') \<and> sample_key \<in> set (db_keys (w_db w'))"
proof -
  obtain r w' where run: "DeleteSigningKey 5 (sample_world (initial_db\<lparr>db_keys := [sample_key]\<rparr>) 9) = (r, w')" by force
  have ok: "keys_ok (w_db (sample_world (initial_db\<lparr>db_keys := [sample_key]\<rparr>) 9)) (w_fresh (sample_world (initial_db\<lparr>db_keys := [sample_key]\<rparr>) 9))"
    by (simp add: sample_world_def sample_key_ok)
  from DeleteSigningKey_spares_active [OF ok run, of sample_key] run show ?thesis
    by (simp add: sample_world_def sample_key_def)
qed

end
