(* ===== verification/Tokens.thy ===== *)
theory Tokens
  imports KeyStore
begin

text \<open>
  internal/auth/jwt.go and internal/auth/middleware.go: access and refresh tokens, the cookies
  that carry them, and the middleware that lets a request through.  The JWT library
  (github.com/golang-jwt/jwt) and github.com/google/uuid are parameters; what is relied on of
  them is \<open>jwt_sound\<close> and \<open>jwt_complete\<close>.
\<close>

section \<open>The libraries\<close>

record jwtClaims =
  tc_TokenType :: string
  tc_Subject :: string
  tc_IssuedAt :: int
  tc_ExpiresAt :: "int option"

record jwtToken =
  jt_Alg :: string
  jt_Kid :: "string option"
  jt_Claims :: jwtClaims
  jt_Valid :: bool

record jwtlib =
  jl_sign :: "jwtToken \<Rightarrow> nat list \<Rightarrow> string option"
  jl_parse :: "string \<Rightarrow> (jwtToken \<Rightarrow> nat list svc) \<Rightarrow> jwtToken svc"
  jl_mac :: "string \<Rightarrow> nat list \<Rightarrow> bool"
  jl_numeric_date :: "int \<Rightarrow> int"
  jl_uuid_string :: "uuid \<Rightarrow> string"
  jl_uuid_parse :: "string \<Rightarrow> uuid option"

text \<open>The claim \<open>exp\<close> is optional: the library does not ask for it, and a token without it does not expire.  Every token
  of \<open>signToken\<close> has it.\<close>

definition not_expired :: "int \<Rightarrow> jwtClaims \<Rightarrow> bool" where
  "not_expired t c = (case tc_ExpiresAt c of None \<Rightarrow> True | Some x \<Rightarrow> t < x)"

lemma not_expired_Some [simp]: "tc_ExpiresAt c = Some x \<Longrightarrow> not_expired t c = (t < x)"
  by (simp add: not_expired_def)

text \<open>
  Parsing has no effect but that of one call of the key function at most.  A token the library
  accepts was handed to the key function, carries a signature made with the
  key the function returned (\<open>jl_mac\<close>), and has not expired.
\<close>

definition jwt_sound :: "jwtlib \<Rightarrow> bool" where
  "jwt_sound J \<longleftrightarrow>
     (\<forall>raw kf w. snd (jl_parse J raw kf w) = w \<or> (\<exists>t. snd (jl_parse J raw kf w) = snd (kf t w))) \<and>
     (\<forall>raw kf w t w'. jl_parse J raw kf w = (Inr t, w') \<longrightarrow>
     (\<exists>t0 key. t = t0\<lparr>jt_Valid := True\<rparr> \<and> kf t0 w = (Inr key, w') \<and> jl_mac J raw key \<and> not_expired (w_now w) (jt_Claims t)))"

text \<open>
  A token the library signed is accepted with the same key until it expires, and refused with
  \<open>ErrTokenExpired\<close> from then on; identifiers survive printing and parsing; a numeric date drops
  a fraction of a second.
\<close>

definition second :: int where
  "second = 1000000000"

definition jwt_complete :: "jwtlib \<Rightarrow> bool" where
  "jwt_complete J \<longleftrightarrow>
     (\<forall>t key raw kf w w'. jl_sign J t key = Some raw \<longrightarrow> kf t w = (Inr key, w') \<longrightarrow>
        jl_parse J raw kf w = (if not_expired (w_now w) (jt_Claims t) then Inr (t\<lparr>jt_Valid := True\<rparr>)
          else Inl (Wrap ''token has invalid claims'' (Sentinel ErrTokenExpired)), w')) \<and>
     (\<forall>i. jl_uuid_parse J (jl_uuid_string J i) = Some i \<and> jl_uuid_string J i \<noteq> [] \<and>
        TrimSpace (jl_uuid_string J i) = jl_uuid_string J i) \<and>
     (\<forall>t. jl_numeric_date J t \<le> t \<and> t < jl_numeric_date J t + second)"

section \<open>Tokens\<close>

record manager =
  mg_accessTTL :: int
  mg_refreshTTL :: int
  mg_cookieSecure :: bool

record tokenPair =
  tp_AccessToken :: string
  tp_AccessExpiry :: int
  tp_RefreshToken :: string
  tp_RefreshExpiry :: int

definition UserID :: "jwtlib \<Rightarrow> jwtClaims \<Rightarrow> uuid option" where
  "UserID J c = jl_uuid_parse J (tc_Subject c)"

definition signToken :: "jwtlib \<Rightarrow> ext \<Rightarrow> uuid \<Rightarrow> string \<Rightarrow> int \<Rightarrow> int \<Rightarrow> string svc" where
  "signToken J e userID tokenType issuedAt expiresAt =
     sbind (on_error (ActiveSigningKey e tokenType) (Wrap (''load '' @ tokenType @ '' signing key''))) (\<lambda>key.
     let claims = \<lparr>tc_TokenType = tokenType, tc_Subject = jl_uuid_string J userID,
                   tc_IssuedAt = jl_numeric_date J issuedAt, tc_ExpiresAt = Some (jl_numeric_date J expiresAt)\<rparr>;
         token = \<lparr>jt_Alg = ''HS256'', jt_Kid = Some (jl_uuid_string J (sk_ID key)), jt_Claims = claims, jt_Valid = False\<rparr>
     in case jl_sign J token (sk_Secret key) of
          None \<Rightarrow> sfail (Wrap (''sign '' @ tokenType @ '' token'') (ErrorString ''jwt''))
        | Some raw \<Rightarrow> sret raw)"

definition IssueTokens :: "jwtlib \<Rightarrow> ext \<Rightarrow> manager \<Rightarrow> uuid \<Rightarrow> tokenPair svc" where
  "IssueTokens J e m userID =
     sbind now (\<lambda>t.
     let accessExpiry = t + mg_accessTTL m; refreshExpiry = t + mg_refreshTTL m in
     sbind (signToken J e userID TokenTypeAccess t accessExpiry) (\<lambda>accessToken.
     sbind (signToken J e userID TokenTypeRefresh t refreshExpiry) (\<lambda>refreshToken.
     sret \<lparr>tp_AccessToken = accessToken, tp_AccessExpiry = accessExpiry,
           tp_RefreshToken = refreshToken, tp_RefreshExpiry = refreshExpiry\<rparr>)))"

text \<open>The key function of \<open>parseToken\<close>.  The error texts leave out their \<open>%q\<close> arguments.\<close>

definition key_func :: "jwtlib \<Rightarrow> ext \<Rightarrow> string \<Rightarrow> jwtToken \<Rightarrow> nat list svc" where
  "key_func J e expectedType token =
     (if jt_Alg token \<noteq> ''HS256'' then sfail (ErrorString ''unexpected signing method'')
      else case jt_Kid token of
        None \<Rightarrow> sfail (ErrorString ''missing signing key identifier'')
      | Some kid \<Rightarrow>
          if TrimSpace kid = [] then sfail (ErrorString ''missing signing key identifier'')
          else case jl_uuid_parse J (TrimSpace kid) of
            None \<Rightarrow> sfail (Wrap ''parse signing key identifier'' (ErrorString ''uuid''))
          | Some keyID \<Rightarrow>
              sbind now (\<lambda>t.
              sbind (VerificationKey e keyID expectedType t) (\<lambda>key.
              if sk_Algorithm key \<noteq> ''HS256'' then sfail (ErrorString ''unexpected signing algorithm'')
              else sret (sk_Secret key))))"

definition parseToken :: "jwtlib \<Rightarrow> ext \<Rightarrow> string \<Rightarrow> string \<Rightarrow> jwtClaims svc" where
  "parseToken J e rawToken expectedType =
     sbind (on_error (jl_parse J rawToken (key_func J e expectedType)) (Wrap (''parse '' @ expectedType @ '' token''))) (\<lambda>parsed.
     if \<not> jt_Valid parsed then sfail (ErrorString (''invalid '' @ expectedType @ '' token''))
     else if tc_TokenType (jt_Claims parsed) \<noteq> expectedType then sfail (ErrorString ''unexpected token type'')
     else sret (jt_Claims parsed))"

definition ParseAccessToken :: "jwtlib \<Rightarrow> ext \<Rightarrow> string \<Rightarrow> jwtClaims svc" where
  "ParseAccessToken J e token = parseToken J e token TokenTypeAccess"

definition ParseRefreshToken :: "jwtlib \<Rightarrow> ext \<Rightarrow> string \<Rightarrow> jwtClaims svc" where
  "ParseRefreshToken J e token = parseToken J e token TokenTypeRefresh"

section \<open>Cookies\<close>

record cookie =
  ck_Name :: string
  ck_Value :: string
  ck_Path :: string
  ck_HttpOnly :: bool
  ck_Secure :: bool
  ck_SameSiteLax :: bool
  ck_Expires :: int
  ck_MaxAge :: int

definition accessCookieName :: string where "accessCookieName = ''drynn_access''"
definition refreshCookieName :: string where "refreshCookieName = ''drynn_refresh''"

text \<open>\<open>int(time.Until(expires).Seconds())\<close> rounds towards zero.\<close>

definition whole_seconds :: "int \<Rightarrow> int" where
  "whole_seconds d = (if d < 0 then - ((- d) div second) else d div second)"

definition newCookie :: "manager \<Rightarrow> int \<Rightarrow> string \<Rightarrow> string \<Rightarrow> int \<Rightarrow> cookie" where
  "newCookie m t name val expires = \<lparr>ck_Name = name, ck_Value = val, ck_Path = ''/'', ck_HttpOnly = True,
     ck_Secure = mg_cookieSecure m, ck_SameSiteLax = True, ck_Expires = expires, ck_MaxAge = whole_seconds (expires - t)\<rparr>"

definition SetAuthCookies :: "manager \<Rightarrow> int \<Rightarrow> tokenPair \<Rightarrow> cookie list" where
  "SetAuthCookies m t pair =
     [newCookie m t accessCookieName (tp_AccessToken pair) (tp_AccessExpiry pair),
      newCookie m t refreshCookieName (tp_RefreshToken pair) (tp_RefreshExpiry pair)]"

definition ClearAuthCookies :: "manager \<Rightarrow> int \<Rightarrow> cookie list" where
  "ClearAuthCookies m t = [newCookie m t accessCookieName [] 0, newCookie m t refreshCookieName [] 0]"

section \<open>The middleware\<close>

record request =
  rq_Method :: string
  rq_Path :: string
  rq_Accept :: string
  rq_Authorization :: string
  rq_AccessCookie :: "string option"
  rq_RefreshCookie :: "string option"

datatype response =
    JSONError nat string
  | TextResponse nat string
  | Redirect string
  | Page nat string
  | JSONBody nat string

text \<open>The middleware hands the request on with its claims, or answers it; both set cookies.\<close>

datatype passage = Next jwtClaims "cookie list" | Answer response "cookie list"

definition bearer :: "request \<Rightarrow> string option" where
  "bearer rq =
     (let header = rq_Authorization rq in
      if header = [] then None
      else let parts = split_space header in
        if length parts \<noteq> 2 \<or> \<not> EqualFold (parts ! 0) ''Bearer'' \<or> TrimSpace (parts ! 1) = [] then None
        else Some (TrimSpace (parts ! 1)))"

definition tokenFromRequest :: "request \<Rightarrow> string option" where
  "tokenFromRequest rq =
     (case rq_AccessCookie rq of
        Some v \<Rightarrow> if v \<noteq> [] then Some v else bearer rq
      | None \<Rightarrow> bearer rq)"

text \<open>A refresh that fails answers \<open>None\<close>; \<open>RequireAuth\<close> goes on with its own answer.\<close>

definition tryRefreshAccess ::
    "jwtlib \<Rightarrow> ext \<Rightarrow> manager \<Rightarrow> request \<Rightarrow> world \<Rightarrow> (jwtClaims \<times> cookie list) option \<times> world" where
  "tryRefreshAccess J e m rq w =
     (case rq_RefreshCookie rq of
        None \<Rightarrow> (None, w)
      | Some v \<Rightarrow>
          if v = [] then (None, w)
          else (case ParseRefreshToken J e v w of
            (Inl _, w1) \<Rightarrow> (None, w1)
          | (Inr refreshClaims, w1) \<Rightarrow>
              (case UserID J refreshClaims of
                 None \<Rightarrow> (None, w1)
               | Some userID \<Rightarrow>
                   (case IssueTokens J e m userID w1 of
                      (Inl _, w2) \<Rightarrow> (None, w2)
                    | (Inr pair, w2) \<Rightarrow>
                        (Some (\<lparr>tc_TokenType = TokenTypeAccess, tc_Subject = jl_uuid_string J userID,
                                tc_IssuedAt = jl_numeric_date J (w_now w2),
                                tc_ExpiresAt = Some (jl_numeric_date J (tp_AccessExpiry pair))\<rparr>,
                               SetAuthCookies m (w_now w2) pair), w2)))))"

definition unauthorized :: "request \<Rightarrow> response" where
  "unauthorized rq =
     (if HasPrefix (rq_Path rq) ''/api/'' then JSONError 401 ''authentication required''
      else if Contains_str (rq_Accept rq) ''text/html'' \<or> rq_Method rq = ''GET'' then Redirect ''/signin''
      else TextResponse 401 ''authentication required'')"

definition RequireAuth :: "jwtlib \<Rightarrow> ext \<Rightarrow> manager \<Rightarrow> request \<Rightarrow> world \<Rightarrow> passage \<times> world" where
  "RequireAuth J e m rq w =
     (case tokenFromRequest rq of
        None \<Rightarrow>
          (case tryRefreshAccess J e m rq w of
             (Some (claims, cookies), w1) \<Rightarrow> (Next claims cookies, w1)
           | (None, w1) \<Rightarrow> (Answer (unauthorized rq) [], w1))
      | Some token \<Rightarrow>
          (case ParseAccessToken J e token w of
             (Inr claims, w1) \<Rightarrow> (Next claims [], w1)
           | (Inl err, w1) \<Rightarrow>
               if errors_is err (Sentinel ErrTokenExpired) then
                 (case tryRefreshAccess J e m rq w1 of
                    (Some (claims, cookies), w2) \<Rightarrow> (Next claims cookies, w2)
                  | (None, w2) \<Rightarrow> (Answer (unauthorized rq) (ClearAuthCookies m (w_now w2)), w2))
               else (Answer (unauthorized rq) [], w1)))"

section \<open>The methods only meet faults\<close>

lemma quiet_keys [quiet_intros]: "quiet (ActiveSigningKey e tt)" "quiet (VerificationKey e i tt t)"
  unfolding ActiveSigningKey_def VerificationKey_def Let_def sql_GetActiveJWTSigningKey_def sql_GetJWTSigningKeyByID_def
  by (intro quiet_intros; auto intro!: quiet_intros split: option.split)+

lemma quiet_key_func [quiet_intros]: "quiet (key_func J e tt t)"
  unfolding key_func_def by (auto intro!: quiet_intros split: option.split)

lemma quiet_jl_parse: "jwt_sound J \<Longrightarrow> quiet (jl_parse J raw (key_func J e tt))"
  unfolding quiet_def
proof
  fix w :: world assume "jwt_sound J"
  then have "snd (jl_parse J raw (key_func J e tt) w) = w \<or>
      (\<exists>t. snd (jl_parse J raw (key_func J e tt) w) = snd (key_func J e tt t w))"
    by (simp add: jwt_sound_def)
  then show "\<exists>fs. snd (jl_parse J raw (key_func J e tt) w) = w\<lparr>w_faults := fs\<rparr>"
    using same_world quiet_key_func unfolding quiet_def by metis
qed

lemma quiet_parseToken: "jwt_sound J \<Longrightarrow> quiet (parseToken J e raw tt)"
  unfolding parseToken_def by (intro quiet_intros quiet_jl_parse)

lemma quiet_signToken [quiet_intros]: "quiet (signToken J e u tt t x)"
  unfolding signToken_def Let_def by (intro quiet_intros) (auto intro: quiet_intros split: option.split)

lemma quiet_IssueTokens [quiet_intros]: "quiet (IssueTokens J e m u)"
  unfolding IssueTokens_def Let_def by (intro quiet_intros)

section \<open>Only keys of the store let a request pass\<close>

lemma key_func_Inr:
  assumes "key_func J e tt t w = (Inr secret, w')" and "tt \<in> {TokenTypeAccess, TokenTypeRefresh}"
  shows "\<exists>k \<in> set (db_keys (w_db w)). verifies tt (w_now w) k \<and> secret = kr_Secret k"
proof -
  from assms(1) obtain i key w1 where v: "VerificationKey e i tt (w_now w) w = (Inr key, w1)" and "secret = sk_Secret key"
    by (auto simp: key_func_def sfail_def sret_def run_simps split: if_splits option.splits prod.splits sum.splits)
  with VerificationKey_Inr [OF v] assms(2) show ?thesis
    by (auto simp: normalize_types hydrateSigningKey_def)
qed

text \<open>What stands behind an accepted token.\<close>

definition vouched :: "jwtlib \<Rightarrow> world \<Rightarrow> string \<Rightarrow> string \<Rightarrow> jwtClaims \<Rightarrow> bool" where
  "vouched J w tt raw c \<longleftrightarrow> tc_TokenType c = tt \<and> not_expired (w_now w) c \<and>
     (\<exists>k \<in> set (db_keys (w_db w)). verifies tt (w_now w) k \<and> jl_mac J raw (kr_Secret k))"

lemma parseToken_Inr:
  assumes J: "jwt_sound J" and run: "parseToken J e raw tt w = (Inr c, w')" and tt: "tt \<in> {TokenTypeAccess, TokenTypeRefresh}"
  shows "vouched J w tt raw c"
proof -
  from run obtain t w1 where p: "jl_parse J raw (key_func J e tt) w = (Inr t, w1)" and "tc_TokenType (jt_Claims t) = tt"
    and c: "c = jt_Claims t"
    unfolding parseToken_def by (auto elim!: sbind_InrE simp: on_error_Inr sfail_def sret_def split: if_splits)
  moreover from J p obtain t0 key where "key_func J e tt t0 w = (Inr key, w1)" "jl_mac J raw key" "not_expired (w_now w) (jt_Claims t)"
    unfolding jwt_sound_def by blast
  ultimately show ?thesis using key_func_Inr [OF _ tt] unfolding vouched_def by blast
qed

lemma vouched_same: "w_db w' = w_db w \<Longrightarrow> w_now w' = w_now w \<Longrightarrow> vouched J w' tt raw c = vouched J w tt raw c"
  by (simp add: vouched_def)

lemma tryRefreshAccess_Some:
  assumes J: "jwt_sound J" and run: "tryRefreshAccess J e m rq w = (Some (c, cookies), w')"
  shows "\<exists>raw c0 u. rq_RefreshCookie rq = Some raw \<and> vouched J w TokenTypeRefresh raw c0 \<and> UserID J c0 = Some u \<and>
    tc_Subject c = jl_uuid_string J u"
  using run parseToken_Inr [OF J, of e _ TokenTypeRefresh w]
  by (auto simp: tryRefreshAccess_def ParseRefreshToken_def split: option.splits if_splits prod.splits sum.splits) blast

lemma RequireAuth_Next:
  assumes J: "jwt_sound J" and run: "RequireAuth J e m rq w = (Next c cookies, w')"
  shows "(\<exists>raw. tokenFromRequest rq = Some raw \<and> vouched J w TokenTypeAccess raw c) \<or>
    (\<exists>raw c0 u. rq_RefreshCookie rq = Some raw \<and> vouched J w TokenTypeRefresh raw c0 \<and> UserID J c0 = Some u \<and>
       tc_Subject c = jl_uuid_string J u)"
proof (cases "tokenFromRequest rq")
  case None
  with run tryRefreshAccess_Some [OF J, of e m rq w] show ?thesis
    by (auto simp: RequireAuth_def split: prod.splits option.splits)
next
  case (Some raw)
  obtain r w1 where p: "ParseAccessToken J e raw w = (r, w1)" by force
  show ?thesis
  proof (cases r)
    case (Inr c')
    with Some run p have "c' = c" by (simp add: RequireAuth_def)
    with Some p Inr parseToken_Inr [OF J, of e raw TokenTypeAccess w c] show ?thesis by (simp add: ParseAccessToken_def)
  next
    case (Inl err)
    note same = quiet_same [OF quiet_parseToken [OF J] p [unfolded ParseAccessToken_def]]
    from Some Inl run p have "tryRefreshAccess J e m rq w1 = (Some (c, cookies), w')"
      by (auto simp: RequireAuth_def split: if_splits prod.splits option.splits)
    from tryRefreshAccess_Some [OF J this] show ?thesis using vouched_same [OF same(1,2)] by simp
  qed
qed

section \<open>Issued tokens are accepted\<close>

definition issued :: "jwtlib \<Rightarrow> uuid \<Rightarrow> string \<Rightarrow> int \<Rightarrow> int \<Rightarrow> jwtClaims" where
  "issued J u tt t x = \<lparr>tc_TokenType = tt, tc_Subject = jl_uuid_string J u, tc_IssuedAt = jl_numeric_date J t,
     tc_ExpiresAt = Some (jl_numeric_date J x)\<rparr>"

definition signed_by :: "jwtlib \<Rightarrow> key_row \<Rightarrow> jwtClaims \<Rightarrow> string \<Rightarrow> bool" where
  "signed_by J k c raw \<longleftrightarrow> jl_sign J \<lparr>jt_Alg = ''HS256'', jt_Kid = Some (jl_uuid_string J (kr_ID k)), jt_Claims = c,
     jt_Valid = False\<rparr> (kr_Secret k) = Some raw"

lemma signToken_Inr:
  assumes "keys_ok (w_db w) n" and "signToken J e u tt t x w = (Inr raw, w')" and tt: "tt \<in> {TokenTypeAccess, TokenTypeRefresh}"
  shows "\<exists>k. active_of tt (db_keys (w_db w)) = [k] \<and> signed_by J k (issued J u tt t x) raw"
proof -
  from assms(2) obtain key w1 where a: "ActiveSigningKey e tt w = (Inr key, w1)"
    and s: "jl_sign J \<lparr>jt_Alg = ''HS256'', jt_Kid = Some (jl_uuid_string J (sk_ID key)), jt_Claims = issued J u tt t x,
      jt_Valid = False\<rparr> (sk_Secret key) = Some raw"
    unfolding signToken_def Let_def issued_def
    by (auto elim!: sbind_InrE simp: on_error_Inr sfail_def sret_def split: option.splits)
  from ActiveSigningKey_Inr [OF assms(1) a] tt s show ?thesis
    by (auto simp: normalize_types hydrateSigningKey_def signed_by_def)
qed

lemma IssueTokens_Inr:
  assumes ok: "keys_ok (w_db w) n" and run: "IssueTokens J e m u w = (Inr pair, w')"
  shows "\<exists>k. active_of TokenTypeAccess (db_keys (w_db w)) = [k] \<and>
      signed_by J k (issued J u TokenTypeAccess (w_now w) (w_now w + mg_accessTTL m)) (tp_AccessToken pair)"
    and "\<exists>k. active_of TokenTypeRefresh (db_keys (w_db w)) = [k] \<and>
      signed_by J k (issued J u TokenTypeRefresh (w_now w) (w_now w + mg_refreshTTL m)) (tp_RefreshToken pair)"
    and "tp_AccessExpiry pair = w_now w + mg_accessTTL m"
proof -
  from run obtain a r w1 where a: "signToken J e u TokenTypeAccess (w_now w) (w_now w + mg_accessTTL m) w = (Inr a, w1)"
    and r: "signToken J e u TokenTypeRefresh (w_now w) (w_now w + mg_refreshTTL m) w1 = (Inr r, w')"
    and pair: "pair = \<lparr>tp_AccessToken = a, tp_AccessExpiry = w_now w + mg_accessTTL m, tp_RefreshToken = r,
      tp_RefreshExpiry = w_now w + mg_refreshTTL m\<rparr>"
    unfolding IssueTokens_def Let_def by (auto elim!: sbind_InrE simp: now_def sret_def)
  have db: "w_db w1 = w_db w" using quiet_same(1) [OF quiet_signToken a] .
  from signToken_Inr [OF ok a] signToken_Inr [OF _ r, of n] ok db pair
  show "\<exists>k. active_of TokenTypeAccess (db_keys (w_db w)) = [k] \<and>
      signed_by J k (issued J u TokenTypeAccess (w_now w) (w_now w + mg_accessTTL m)) (tp_AccessToken pair)"
    "\<exists>k. active_of TokenTypeRefresh (db_keys (w_db w)) = [k] \<and>
      signed_by J k (issued J u TokenTypeRefresh (w_now w) (w_now w + mg_refreshTTL m)) (tp_RefreshToken pair)"
    "tp_AccessExpiry pair = w_now w + mg_accessTTL m" by simp_all
qed

text \<open>Two rows of the same key.\<close>

definition same_key :: "key_row \<Rightarrow> key_row \<Rightarrow> bool" where
  "same_key k k' \<longleftrightarrow> kr_ID k' = kr_ID k \<and> kr_Secret k' = kr_Secret k \<and> kr_TokenType k' = kr_TokenType k"

lemma parse_signed:
  assumes J: "jwt_complete J" and ok: "keys_ok (w_db w) n" and calm: "calm w" and tt: "tt \<in> {TokenTypeAccess, TokenTypeRefresh}"
    and k: "k' \<in> set (db_keys (w_db w))" "same_key k k'" "verifies tt (w_now w) k'"
    and s: "signed_by J k c raw" and c: "tc_TokenType c = tt"
  shows "parseToken J e raw tt w =
    (if not_expired (w_now w) c then Inr c
     else Inl (Wrap (''parse '' @ tt @ '' token'') (Wrap ''token has invalid claims'' (Sentinel ErrTokenExpired))), w)"
proof -
  have "VerificationKey e (kr_ID k') tt (w_now w) w = (Inr (hydrateSigningKey k'), w)"
    using VerificationKey_calm [OF ok calm _ k(1), of e tt tt] k(3) tt by (auto simp: normalize_types)
  moreover have "kr_Algorithm k' = ''HS256''" using ok k(1) by (auto simp: keys_ok_def key_shape_def)
  ultimately have kf: "key_func J e tt \<lparr>jt_Alg = ''HS256'', jt_Kid = Some (jl_uuid_string J (kr_ID k)), jt_Claims = c,
      jt_Valid = False\<rparr> w = (Inr (kr_Secret k), w)"
    using J k(2) by (simp add: key_func_def run_simps jwt_complete_def same_key_def hydrateSigningKey_def)
  have "jl_parse J raw (key_func J e tt) w = (if not_expired (w_now w) c
      then Inr \<lparr>jt_Alg = ''HS256'', jt_Kid = Some (jl_uuid_string J (kr_ID k)), jt_Claims = c, jt_Valid = True\<rparr>
      else Inl (Wrap ''token has invalid claims'' (Sentinel ErrTokenExpired)), w)"
    using J s kf unfolding jwt_complete_def signed_by_def by fastforce
  then show ?thesis using c by (simp add: parseToken_def run_simps)
qed

lemma rotated_same_key:
  assumes "rotated tt g w d created retired" and "k \<in> set (db_keys (w_db w))" and ok: "keys_ok (w_db w) n"
  shows "\<exists>k' \<in> set (db_keys d). same_key k k' \<and> (k' = k \<or> kr_TokenType k = tt \<and> k' = retire_key (w_now w) (w_now w + g) k)"
proof (cases "active_of tt (db_keys (w_db w))")
  case Nil
  with assms show ?thesis by (auto simp: rotated_def same_key_def)
next
  case (Cons k0 ks)
  then have k0: "k0 \<in> set (db_keys (w_db w))" "kr_TokenType k0 = tt"
    using Cons_eq_filterD [OF Cons [unfolded active_of_def, symmetric]] by auto
  have "k = k0" if "kr_ID k = kr_ID k0"
    using that assms(2) k0(1) ok by (auto simp: keys_ok_def distinct_map inj_on_def)
  then have tt: "kr_ID k = kr_ID k0 \<Longrightarrow> kr_TokenType k = tt" using k0(2) by simp
  let ?k' = "if kr_ID k = kr_ID k0 then retire_key (w_now w) (w_now w + g) k else k"
  have "?k' \<in> set (db_keys d)" using assms Cons by (auto simp: rotated_def)
  moreover have "same_key k ?k'" by (simp add: same_key_def retire_key_def)
  ultimately show ?thesis using tt by (intro bexI [of _ ?k']) auto
qed

lemma tryRefreshAccess_frame:
  assumes J: "jwt_sound J" and run: "tryRefreshAccess J e m rq w = (r, w')"
  shows "w_db w' = w_db w"
  using run quiet_same(1) [OF quiet_parseToken [OF J]] quiet_same(1) [OF quiet_IssueTokens]
  by (auto simp: tryRefreshAccess_def ParseRefreshToken_def split: option.splits if_splits prod.splits sum.splits)

lemma RequireAuth_frame:
  assumes J: "jwt_sound J" and run: "RequireAuth J e m rq w = (res, w')"
  shows "w_db w' = w_db w"
  using run quiet_same(1) [OF quiet_parseToken [OF J]] tryRefreshAccess_frame [OF J]
  by (auto simp: RequireAuth_def ParseAccessToken_def split: option.splits if_splits prod.splits sum.splits)

lemma RequireAuth_Answer: "RequireAuth J e m rq w = (Answer resp cookies, w') \<Longrightarrow> resp = unauthorized rq"
  by (auto simp: RequireAuth_def split: option.splits if_splits prod.splits sum.splits)

text \<open>A session goes on while the key that signed its token stays, active or in a long enough grace period.\<close>

lemma session_lasts:
  assumes ok: "keys_ok (w_db w) (w_fresh w)" and J: "jwt_complete J" and issue: "IssueTokens J e m u w = (Inr pair, w1)"
    and ok3: "keys_ok (w_db w3) n" and now: "w_now w \<le> t"
    and stays: "\<And>k. k \<in> set (active_of TokenTypeAccess (db_keys (w_db w))) \<Longrightarrow> \<exists>k' \<in> set (db_keys (w_db w3)). same_key k k' \<and>
      (k' = k \<or> (\<exists>g. mg_accessTTL m \<le> g \<and> k' = retire_key t (t + g) k))"
    and w3: "w_faults w3 = []" "w_now w3 < jl_numeric_date J (tp_AccessExpiry pair)" and rq: "tokenFromRequest rq = Some (tp_AccessToken pair)"
  shows "\<exists>c. RequireAuth J e m rq w3 = (Next c [], w3) \<and> UserID J c = Some u"
proof -
  let ?c = "issued J u TokenTypeAccess (w_now w) (w_now w + mg_accessTTL m)"
  from IssueTokens_Inr [OF ok issue] obtain k where act: "active_of TokenTypeAccess (db_keys (w_db w)) = [k]"
    and s: "signed_by J k ?c (tp_AccessToken pair)" and x: "tp_AccessExpiry pair = w_now w + mg_accessTTL m" by blast
  then have "k \<in> set (active_of TokenTypeAccess (db_keys (w_db w)))" by simp
  then have k: "kr_TokenType k = TokenTypeAccess" "kr_State k = ''active''" by (simp_all add: active_of_def)
  from stays [of k] act obtain k' where k': "k' \<in> set (db_keys (w_db w3))" "same_key k k'"
    "k' = k \<or> (\<exists>g. mg_accessTTL m \<le> g \<and> k' = retire_key t (t + g) k)" by auto
  have "jl_numeric_date J (tp_AccessExpiry pair) \<le> w_now w + mg_accessTTL m"
    using J x by (simp add: jwt_complete_def)
  then have v: "verifies TokenTypeAccess (w_now w3) k'"
    using k' k w3(2) now by (auto simp: verifies_def retire_key_def)
  have calm: "calm w3" using w3(1) by (simp add: calm_def)
  have "ParseAccessToken J e (tp_AccessToken pair) w3 = (Inr ?c, w3)"
    using parse_signed [OF J ok3 calm _ k'(1,2) v s, of e] w3(2) x
    by (simp add: ParseAccessToken_def issued_def)
  then show ?thesis using J rq by (simp add: RequireAuth_def UserID_def issued_def jwt_complete_def)
qed

text \<open>In particular it goes on after a rotation of its key.\<close>

lemma session_survives:
  assumes "keys_ok (w_db w) (w_fresh w)" and "jwt_complete J" and "IssueTokens J e m u w = (Inr pair, w1)"
    and "w_db wr = w_db w" and "w_fresh w \<le> w_fresh wr" and "w_now w \<le> w_now wr"
    and run: "CreateSigningKey e tokenType g wr = (r, w2)"
    and grace: "normalizeTokenType e tokenType = Inr TokenTypeAccess \<longrightarrow> mg_accessTTL m \<le> g"
    and "w_db w3 = w_db w2" and w3: "w_faults w3 = []" "w_now w3 < jl_numeric_date J (tp_AccessExpiry pair)"
      "tokenFromRequest rq = Some (tp_AccessToken pair)"
  shows "\<exists>c. RequireAuth J e m rq w3 = (Next c [], w3) \<and> UserID J c = Some u"
proof -
  have okr: "keys_ok (w_db wr) (w_fresh wr)" using assms(1,4,5) keys.mono by metis
  have ok3: "keys_ok (w_db w3) (w_fresh w2)" using keepsD [OF keeps_CreateSigningKey okr run] assms(9) by simp
  have "\<exists>k' \<in> set (db_keys (w_db w3)). same_key k k' \<and>
      (k' = k \<or> (\<exists>g. mg_accessTTL m \<le> g \<and> k' = retire_key (w_now wr) (w_now wr + g) k))"
    if "k \<in> set (active_of TokenTypeAccess (db_keys (w_db w)))" for k
  proof -
    have k: "k \<in> set (db_keys (w_db wr))" "kr_TokenType k = TokenTypeAccess" using that assms(4) by (simp_all add: active_of_def)
    show ?thesis
      using CreateSigningKey_cases [OF okr run] rotated_same_key [OF _ k(1) okr] k assms(9) grace
      by (fastforce simp: same_key_def)
  qed
  from session_lasts [OF assms(1-3) ok3 assms(6) this w3] show ?thesis by blast
qed

section \<open>Properties\<close>

text \<open>A library that knows the tokens of a table, for evaluation.\<close>

definition table_parse :: "(jwtToken \<times> nat list \<times> string) list \<Rightarrow> string \<Rightarrow> (jwtToken \<Rightarrow> nat list svc) \<Rightarrow> jwtToken svc" where
  "table_parse tbl raw kf w =
     (case find (\<lambda>p. snd (snd p) = raw) tbl of
        None \<Rightarrow> (Inl (ErrorString ''token is malformed''), w)
      | Some (t, key, s) \<Rightarrow>
          (case kf t w of
             (Inl err, w') \<Rightarrow> (Inl (Wrap ''token is unverifiable'' err), w')
           | (Inr k, w') \<Rightarrow>
               if k \<noteq> key then (Inl (ErrorString ''token signature is invalid''), w')
               else if not_expired (w_now w) (jt_Claims t) then (Inr (t\<lparr>jt_Valid := True\<rparr>), w')
               else (Inl (Wrap ''token has invalid claims'' (Sentinel ErrTokenExpired)), w')))"

definition table_jwt :: "(jwtToken \<times> nat list \<times> string) list \<Rightarrow> jwtlib" where
  "table_jwt tbl = \<lparr>
     jl_sign = (\<lambda>t key. map_option (\<lambda>p. snd (snd p)) (find (\<lambda>p. fst p = t \<and> fst (snd p) = key) tbl)),
     jl_parse = table_parse tbl,
     jl_mac = (\<lambda>raw key. \<exists>t. (t, key, raw) \<in> set tbl),
     jl_numeric_date = (\<lambda>t. t div second * second),
     jl_uuid_string = utoa,
     jl_uuid_parse = (\<lambda>s. Some (digits_value s))\<rparr>"

lemma table_jwt_sound: "jwt_sound (table_jwt tbl)"
proof -
  have "snd (table_parse tbl raw kf w) = w \<or> (\<exists>t. snd (table_parse tbl raw kf w) = snd (kf t w))" for raw kf w
  proof (cases "find (\<lambda>p. snd (snd p) = raw) tbl")
    case (Some x)
    obtain t key s where x: "x = (t, key, s)" by (cases x)
    have "snd (table_parse tbl raw kf w) = snd (kf t w)"
      by (simp add: table_parse_def Some x split: prod.split sum.split)
    then show ?thesis by blast
  qed (simp add: table_parse_def)
  moreover have "\<exists>t0 key. t = t0\<lparr>jt_Valid := True\<rparr> \<and> kf t0 w = (Inr key, w') \<and> (\<exists>t. (t, key, raw) \<in> set tbl) \<and>
      not_expired (w_now w) (jt_Claims t)" if "table_parse tbl raw kf w = (Inr t, w')" for raw kf w t w'
  proof (cases "find (\<lambda>p. snd (snd p) = raw) tbl")
    case (Some x)
    obtain t0 key s where x: "x = (t0, key, s)" by (cases x)
    then have "(t0, key, raw) \<in> set tbl" using find_in [OF Some] by auto
    with that Some x show ?thesis
      by (auto simp: table_parse_def split: prod.splits sum.splits if_splits intro!: exI [of _ t0])
  qed (use that in \<open>simp add: table_parse_def\<close>)
  ultimately show ?thesis by (simp add: jwt_sound_def table_jwt_def)
qed

lemma utoa_plain: "utoa n \<noteq> [] \<and> plain_char (hd (utoa n)) \<and> plain_char (last (utoa n))"
proof (induction n rule: utoa.induct)
  case (1 n)
  have d: "plain_char (digit_char k)" if "k < 10" for k
    using that by (simp add: plain_char_def of_digit_char)
  show ?case
    using 1 d by (subst (1 2 3) utoa.simps) auto
qed

lemma table_jwt_complete:
  assumes "distinct (map (\<lambda>p. snd (snd p)) tbl)"
  shows "jwt_complete (table_jwt tbl)"
proof -
  have f: "find (\<lambda>p. snd (snd p) = raw) tbl = Some (t, key, raw)"
    if "find (\<lambda>p. fst p = t \<and> fst (snd p) = key) tbl = Some (t', key', raw)" for t key t' key' raw
  proof -
    have "(t, key, raw) \<in> set tbl" using that by (auto dest: find_in)
    from find_unique [OF assms this] show ?thesis by simp
  qed
  have "t div second * second \<le> t \<and> t < t div second * second + second" for t
    by (simp add: second_def) presburger
  moreover have "TrimSpace (utoa i) = utoa i" for i by (rule TrimSpace_plain) (simp add: utoa_plain)
  ultimately show ?thesis
    by (auto simp: jwt_complete_def table_jwt_def table_parse_def digits_value_utoa utoa_plain dest!: f)
qed

definition sample_keys :: "key_row list" where
  "sample_keys = [sample_key, \<lparr>kr_ID = 6, kr_TokenType = ''refresh'', kr_Algorithm = ''HS256'', kr_Secret = replicate 32 2,
     kr_State = ''active'', kr_VerifyUntil = None, kr_CreatedAt = 900, kr_UpdatedAt = 900\<rparr>]"

definition sample_token :: "uuid \<Rightarrow> string \<Rightarrow> int \<Rightarrow> jwtToken" where
  "sample_token k tt x = \<lparr>jt_Alg = ''HS256'', jt_Kid = Some (utoa k),
     jt_Claims = \<lparr>tc_TokenType = tt, tc_Subject = utoa 7, tc_IssuedAt = 0, tc_ExpiresAt = Some x\<rparr>, jt_Valid = False\<rparr>"

definition sample_jwt :: jwtlib where
  "sample_jwt = table_jwt [(sample_token 5 ''access'' 10000000000, replicate 32 1, ''A''),
     (sample_token 6 ''refresh'' 20000000000, replicate 32 2, ''R'')]"

definition sample_manager :: manager where
  "sample_manager = \<lparr>mg_accessTTL = 10000000000, mg_refreshTTL = 20000000000, mg_cookieSecure = True\<rparr>"

definition sample_request :: request where
  "sample_request = \<lparr>rq_Method = ''GET'', rq_Path = ''/app'', rq_Accept = [], rq_Authorization = ''bearer  A'',
     rq_AccessCookie = None, rq_RefreshCookie = None\<rparr>"

definition signed_in :: world where
  "signed_in = sample_world (initial_db\<lparr>db_keys := sample_keys\<rparr>) 9"

lemma sample_jwt_laws: "jwt_sound sample_jwt" "jwt_complete sample_jwt"
  unfolding sample_jwt_def by (rule table_jwt_sound) (rule table_jwt_complete, simp)

lemma signed_in_ok: "keys_ok (w_db signed_in) (w_fresh signed_in)"
  by (simp add: signed_in_def sample_world_def keys_ok_def key_shape_def active_of_def sample_keys_def sample_key_def
      TokenTypeAccess_def TokenTypeRefresh_def)

lemma sample_tokens_in:
  fixes w :: world
  assumes calm: "calm w" and keys: "db_keys (w_db w) = sample_keys" and n: "w_now w = 1000"
  shows "IssueTokens sample_jwt sample_ext sample_manager 7 w =
     (Inr \<lparr>tp_AccessToken = ''A'', tp_AccessExpiry = 10000001000, tp_RefreshToken = ''R'', tp_RefreshExpiry = 20000001000\<rparr>, w)"
proof -
  have "active_of ''access'' (db_keys (w_db w)) = [sample_keys ! 0]" "active_of ''refresh'' (db_keys (w_db w)) = [sample_keys ! 1]"
    by (simp_all add: keys active_of_def sample_keys_def sample_key_def)
  then have a: "ActiveSigningKey sample_ext ''access'' w = (Inr (hydrateSigningKey (sample_keys ! 0)), w)"
    and r: "ActiveSigningKey sample_ext ''refresh'' w = (Inr (hydrateSigningKey (sample_keys ! 1)), w)"
    using ActiveSigningKey_calm [OF calm] normalize_types by (simp_all add: TokenTypeAccess_def TokenTypeRefresh_def)
  have "utoa 5 = ''5''" "utoa 6 = ''6''" by code_simp+
  then show ?thesis
    by (simp add: IssueTokens_def signToken_def run_simps a r n TokenTypeAccess_def TokenTypeRefresh_def Let_def
        sample_manager_def sample_jwt_def table_jwt_def sample_token_def hydrateSigningKey_def sample_keys_def
        sample_key_def second_def)
qed

lemma sample_tokens:
  "IssueTokens sample_jwt sample_ext sample_manager 7 signed_in =
     (Inr \<lparr>tp_AccessToken = ''A'', tp_AccessExpiry = 10000001000, tp_RefreshToken = ''R'', tp_RefreshExpiry = 20000001000\<rparr>, signed_in)"
  by (rule sample_tokens_in) (simp_all add: calm_def signed_in_def sample_world_def)

lemma sample_bearer: "tokenFromRequest sample_request = Some ''A''" "rq_RefreshCookie sample_request = None"
  by code_simp+

lemma sample_passes_in:
  fixes w :: world
  assumes ok: "keys_ok (w_db w) n" and keys: "db_keys (w_db w) = sample_keys" and w: "w_faults w = []" "w_now w < 10000000000"
    and rq: "tokenFromRequest rq = Some ''A''"
  shows "RequireAuth sample_jwt sample_ext sample_manager rq w = (Next (jt_Claims (sample_token 5 ''access'' 10000000000)) [], w)"
proof -
  have "calm w" "sample_key \<in> set (db_keys (w_db w))" using w keys by (simp_all add: sample_keys_def calm_def)
  moreover have "signed_by sample_jwt sample_key (jt_Claims (sample_token 5 ''access'' 10000000000)) ''A''"
    by (simp add: signed_by_def sample_jwt_def table_jwt_def sample_token_def sample_key_def)
  moreover have "verifies ''access'' t sample_key" for t by (simp add: verifies_def sample_key_def)
  moreover have "same_key sample_key sample_key" by (simp add: same_key_def)
  ultimately have "parseToken sample_jwt sample_ext ''A'' ''access'' w =
      (Inr (jt_Claims (sample_token 5 ''access'' 10000000000)), w)"
    using parse_signed [OF sample_jwt_laws(2) ok, of "''access''" sample_key sample_key
        "jt_Claims (sample_token 5 ''access'' 10000000000)" "''A''" sample_ext] w(2)
    by (simp add: sample_token_def TokenTypeAccess_def)
  then show ?thesis
    by (simp add: RequireAuth_def rq ParseAccessToken_def TokenTypeAccess_def)
qed

lemma sample_passes:
  "RequireAuth sample_jwt sample_ext sample_manager sample_request signed_in =
     (Next (jt_Claims (sample_token 5 ''access'' 10000000000)) [], signed_in)"
  by (rule sample_passes_in [OF signed_in_ok]) (simp_all add: sample_bearer signed_in_def sample_world_def)

lemma sample_rotation_two:
  "\<exists>created w2. CreateSigningKey sample_ext '' Access'' 10000000000 signed_in =
      (Inr (created, Some (hydrateSigningKey (retire_key 1000 10000001000 sample_key))), w2) \<and>
    kr_State (hd (db_keys (w_db w2))) = ''retired''"
  by (simp add: CreateSigningKey_def run_simps sample_type signed_in_def sample_world_def rand_bytes_def external_def with_tx_def
      retire_active_def sql_GetActiveJWTSigningKeyForUpdate_def query_def active_key_def sample_keys_def sample_key_def
      sql_RetireJWTSigningKey_def sql_CreateJWTSigningKey_def key_violation_def retire_key_def Let_def)

text \<open>C5.  \<open>RequireAuth\<close> hands a request on only for a token that carries a signature made with a key of the
  store, of the right token type, active or within its grace period, and whose expiry, if it has one, is to come: an
  access token whose claims it passes on, or a refresh token whose subject it passes on.  Otherwise it
  answers, with a JSON error of status 401 under \<open>/api/\<close>.  It never changes the tables.\<close>

theorem RequireAuth_sound:
  assumes "jwt_sound J" and "RequireAuth J e m rq w = (res, w')"
  shows "w_db w' = w_db w \<and>
    (case res of
       Next c cookies \<Rightarrow>
         (\<exists>raw. tokenFromRequest rq = Some raw \<and> vouched J w TokenTypeAccess raw c) \<or>
         (\<exists>raw c0 u. rq_RefreshCookie rq = Some raw \<and> vouched J w TokenTypeRefresh raw c0 \<and> UserID J c0 = Some u \<and>
            tc_Subject c = jl_uuid_string J u)
     | Answer resp cookies \<Rightarrow> resp = unauthorized rq \<and>
         (resp = JSONError 401 ''authentication required'' \<or> \<not> HasPrefix (rq_Path rq) ''/api/''))"
proof (cases res)
  case (Next c cookies)
  with RequireAuth_Next [OF assms(1), of e m rq w c cookies w'] RequireAuth_frame [OF assms] assms(2)
  show ?thesis by simp
next
  case (Answer resp cookies)
  with RequireAuth_Answer [of J e m rq w resp cookies w'] RequireAuth_frame [OF assms] assms(2) show ?thesis
    by (simp add: unauthorized_def)
qed

theorem RequireAuth_sound_witness:
  "vouched sample_jwt signed_in ''access'' ''A'' (jt_Claims (sample_token 5 ''access'' 10000000000)) \<and>
   fst (RequireAuth sample_jwt sample_ext sample_manager (sample_request\<lparr>rq_Path := ''/api/x'', rq_Authorization := ''Basic A''\<rparr>) signed_in) =
     Answer (JSONError 401 ''authentication required'') []"
proof
  have "RequireAuth sample_jwt sample_ext sample_manager sample_request signed_in =
      (Next (jt_Claims (sample_token 5 ''access'' 10000000000)) [], signed_in)" by (rule sample_passes)
  from RequireAuth_sound [OF sample_jwt_laws(1) this]
  show "vouched sample_jwt signed_in ''access'' ''A'' (jt_Claims (sample_token 5 ''access'' 10000000000))"
    by (simp add: sample_bearer TokenTypeAccess_def)
qed (simp add: RequireAuth_def tokenFromRequest_def bearer_def sample_request_def tryRefreshAccess_def unauthorized_def
    split_space_def EqualFold_def HasPrefix_def ascii_lower_def)

text \<open>Sessions survive a rotation of the signing keys: when the grace period of the rotation is at
  least the lifetime of access tokens, an access token issued before it lets requests through, as the
  user it was issued for, until it expires.\<close>

theorem session_survives_rotation:
  assumes "keys_ok (w_db w) (w_fresh w)" and "jwt_complete J" and "IssueTokens J e m u w = (Inr pair, w1)"
    and "w_db wr = w_db w" and "w_fresh w \<le> w_fresh wr" and "w_now w \<le> w_now wr"
    and "CreateSigningKey e tokenType g wr = (Inr p, w2)" and "mg_accessTTL m \<le> g"
    and "w_db w3 = w_db w2" and "w_faults w3 = []" and "w_now w3 < jl_numeric_date J (tp_AccessExpiry pair)"
    and "tokenFromRequest rq = Some (tp_AccessToken pair)"
  shows "\<exists>c. RequireAuth J e m rq w3 = (Next c [], w3) \<and> UserID J c = Some u"
  using session_survives [OF assms(1-7)] assms(8-) by blast

theorem session_survives_rotation_witness:
  "\<exists>w3 c. fst (RequireAuth sample_jwt sample_ext sample_manager sample_request w3) = Next c [] \<and>
    UserID sample_jwt c = Some 7 \<and> kr_State (hd (db_keys (w_db w3))) = ''retired''"
proof -
  obtain created w2 where run: "CreateSigningKey sample_ext '' Access'' 10000000000 signed_in =
      (Inr (created, Some (hydrateSigningKey (retire_key 1000 10000001000 sample_key))), w2)"
    and st: "kr_State (hd (db_keys (w_db w2))) = ''retired''"
    using sample_rotation_two by blast
  have "\<exists>c. RequireAuth sample_jwt sample_ext sample_manager sample_request (w2\<lparr>w_faults := [], w_now := 5000000000\<rparr>) =
      (Next c [], w2\<lparr>w_faults := [], w_now := 5000000000\<rparr>) \<and> UserID sample_jwt c = Some 7"
    by (rule session_survives_rotation [OF signed_in_ok sample_jwt_laws(2) sample_tokens refl order_refl order_refl run])
      (simp_all add: sample_manager_def sample_bearer sample_jwt_def table_jwt_def second_def)
  with st show ?thesis by (intro exI [of _ "w2\<lparr>w_faults := [], w_now := 5000000000\<rparr>"]) auto
qed

end
