(* ===== verification/Mailer.thy ===== *)
theory Mailer
  imports Accounts
begin

text \<open>
  internal/email and internal/service/access_request_service.go: sending mail through Mailgun
  (the outbox of the world; sending may fail like any other interaction with the outside), and
  access requests to the administrator.
\<close>

section \<open>Sending\<close>

record mailgunConfig =
  mc_APIKey :: string
  mc_SendingDomain :: string
  mc_FromAddress :: string
  mc_FromName :: string

definition Configured :: "mailgunConfig \<Rightarrow> bool" where
  "Configured c \<longleftrightarrow> mc_APIKey c \<noteq> [] \<and> mc_SendingDomain c \<noteq> [] \<and> mc_FromAddress c \<noteq> []"

definition from_header :: "mailgunConfig \<Rightarrow> string" where
  "from_header c = (if mc_FromName c \<noteq> [] then mc_FromName c @ '' <'' @ mc_FromAddress c @ ''>'' else mc_FromAddress c)"

definition Send :: "mailgunConfig \<Rightarrow> string \<Rightarrow> string \<Rightarrow> string \<Rightarrow> unit svc" where
  "Send cfg to subject htmlBody =
     on_error (external (\<lambda>w. (Inr (), w\<lparr>w_outbox := w_outbox w @
       [\<lparr>mail_from = from_header cfg, mail_to = to, mail_subject = subject, mail_body = htmlBody\<rparr>]\<rparr>)))
     (Wrap ''mailgun send'')"

text \<open>The templates are HTML files; executing one is a parameter.\<close>

definition RenderTemplate :: "ext \<Rightarrow> string \<Rightarrow> string list \<Rightarrow> goError + string" where
  "RenderTemplate e name args =
     (case ext_render e name args of
        None \<Rightarrow> Inl (Wrap (''render email template '' @ name) (ErrorString ''template''))
      | Some body \<Rightarrow> Inr body)"

definition send_link :: "ext \<Rightarrow> mailgunConfig \<Rightarrow> string \<Rightarrow> string \<Rightarrow> string \<Rightarrow> string \<Rightarrow> string \<Rightarrow> unit svc" where
  "send_link e cfg template what subject to link =
     (if \<not> Configured cfg then sfail (Sentinel ErrMailgunNotConfigured)
      else
        sbind (on_error (of_sum (RenderTemplate e template [link])) (Wrap (''render '' @ what @ '' email''))) (\<lambda>body.
        on_error (Send cfg to subject body) (Wrap (''send '' @ what @ '' email''))))"

section \<open>Access requests\<close>

record accessRequestInput =
  ai_Email :: string
  ai_Reason :: string
  ai_IP :: string

definition maxAccessRequestReasonLen :: nat where
  "maxAccessRequestReasonLen = 2000"

text \<open>\<open>template.HTMLEscapeString\<close>, and \<open>strings.ReplaceAll(s, "\n", "<br>")\<close>.\<close>

definition html_escape_char :: "char \<Rightarrow> string" where
  "html_escape_char c =
     (if c = CHR ''&'' then ''&amp;''
      else if c = CHR ''<'' then ''&lt;''
      else if c = CHR ''>'' then ''&gt;''
      else if c = CHR 0x22 then ''&#34;''
      else if c = CHR 0x27 then ''&#39;''
      else if c = CHR 0x00 then [CHR 0xEF, CHR 0xBF, CHR 0xBD]
      else [c])"

definition HTMLEscapeString :: "string \<Rightarrow> string" where
  "HTMLEscapeString s = concat (map html_escape_char s)"

definition newlines_to_br :: "string \<Rightarrow> string" where
  "newlines_to_br s = concat (map (\<lambda>c. if c = CHR 0x0A then ''<br>'' else [c]) s)"

definition reasonHTML :: "string \<Rightarrow> string" where
  "reasonHTML reason = newlines_to_br (HTMLEscapeString reason)"

definition buildAccessRequestBody :: "ext \<Rightarrow> string \<Rightarrow> string \<Rightarrow> string \<Rightarrow> goError + string" where
  "buildAccessRequestBody e addr reason ip =
     RenderTemplate e ''access_request.gohtml'' [addr, ip, reason, reasonHTML reason]"

text \<open>\<open>NewAccessRequestService\<close> trims the address of the administrator.\<close>

definition AccessRequest_Send :: "ext \<Rightarrow> mailgunConfig \<Rightarrow> string \<Rightarrow> accessRequestInput \<Rightarrow> unit svc" where
  "AccessRequest_Send e cfg adminEmail0 inp =
     (let adminEmail = TrimSpace adminEmail0 in
      if adminEmail = [] then sfail (Sentinel ErrAccessRequestsDisabled)
      else if \<not> Configured cfg then sfail (Sentinel ErrMailgunNotConfigured)
      else
        sbind (of_sum (normalizeEmail e (ai_Email inp))) (\<lambda>addr.
        let trimmed = TrimSpace (ai_Reason inp);
            reason = (if length trimmed > maxAccessRequestReasonLen then take maxAccessRequestReasonLen trimmed else trimmed)
        in
        sbind (on_error (of_sum (buildAccessRequestBody e addr reason (TrimSpace (ai_IP inp))))
          (Wrap ''render access request email'')) (\<lambda>body.
        on_error (Send cfg adminEmail (''Access request from '' @ addr) body) (Wrap ''send access request email''))))"

section \<open>Mail and tables\<close>

lemma reads_Send [reads_intros]: "reads (Send cfg to subject body)"
  unfolding Send_def by (intro reads_on_error) (auto simp: reads_def external_def split: list.split fault.split)

lemma reads_send_link [reads_intros]: "reads (send_link e cfg template what subject to link)"
  unfolding send_link_def by (intro reads_intros)

lemma reads_AccessRequest [reads_intros]: "reads (AccessRequest_Send e cfg admin inp)"
  unfolding AccessRequest_Send_def Let_def by (intro reads_intros)

lemma keeps_reads: "reads m \<Longrightarrow> keeps ok m"
  by (simp add: keeps_def reads_def)

lemma Send_outbox:
  assumes "Send cfg to subject body w = (r, w')"
  shows "w_outbox w' = w_outbox w \<or>
    w_outbox w' = w_outbox w @ [\<lparr>mail_from = from_header cfg, mail_to = to, mail_subject = subject, mail_body = body\<rparr>]"
    and "r = Inr () \<Longrightarrow> w_outbox w' \<noteq> w_outbox w"
  using assms by (auto simp: Send_def on_error_def external_def split: list.splits fault.splits)

lemma HTMLEscape_safe: "c \<in> set (HTMLEscapeString s) \<Longrightarrow> c \<notin> {CHR ''<'', CHR ''>'', CHR 0x22, CHR 0x27, CHR 0x00}"
  by (auto simp: HTMLEscapeString_def html_escape_char_def split: if_splits)

lemma reasonHTML_Cons:
  "reasonHTML (c # s) = (if c = CHR 0x0A then ''<br>'' else html_escape_char c) @ reasonHTML s"
proof -
  have "newlines_to_br (html_escape_char c) = (if c = CHR 0x0A then ''<br>'' else html_escape_char c)"
    by (auto simp: newlines_to_br_def html_escape_char_def)
  then show ?thesis by (simp add: reasonHTML_def HTMLEscapeString_def newlines_to_br_def)
qed

lemma reasonHTML_markup:
  "filter (\<lambda>c. c \<in> {CHR ''<'', CHR ''>'', CHR 0x22, CHR 0x27}) (reasonHTML s) =
     concat (replicate (length (filter (\<lambda>c. c = CHR 0x0A) s)) ''<>'')"
proof (induction s)
  case Nil
  then show ?case by (simp add: reasonHTML_def HTMLEscapeString_def newlines_to_br_def)
next
  case (Cons c s)
  have "filter (\<lambda>c. c \<in> {CHR ''<'', CHR ''>'', CHR 0x22, CHR 0x27}) (html_escape_char c) = []"
    by (auto simp: html_escape_char_def)
  with Cons show ?case by (simp add: reasonHTML_Cons)
qed

end
