(* ===== verification/Invitations.thy ===== *)
theory Invitations
  imports Mailer
begin

text \<open>
  internal/service/invitation_service.go: invitations to register.  A code is 16 random bytes in
  hexadecimal; it is valid until it was used or its time is over.
\<close>

section \<open>The methods\<close>

definition InvitationTTL :: int where
  "InvitationTTL = 7 * 24 * 3600 * 1000000000"

record invitation =
  iv_ID :: uuid
  iv_Email :: string
  iv_Code :: string
  iv_InvitedBy :: uuid
  iv_InvitedByHandle :: string
  iv_UsedBy :: "uuid option"
  iv_UsedAt :: "int option"
  iv_ExpiresAt :: int
  iv_CreatedAt :: int

definition mapInvitationRow :: "invitation_row \<Rightarrow> string \<Rightarrow> invitation" where
  "mapInvitationRow row invitedByHandle =
     \<lparr>iv_ID = ir_ID row, iv_Email = ir_Email row, iv_Code = ir_Code row, iv_InvitedBy = ir_InvitedBy row,
      iv_InvitedByHandle = invitedByHandle, iv_UsedBy = ir_UsedBy row, iv_UsedAt = ir_UsedAt row,
      iv_ExpiresAt = ir_ExpiresAt row, iv_CreatedAt = ir_CreatedAt row\<rparr>"

definition generateCode :: "string svc" where
  "generateCode = sbind (rand_bytes 16) (\<lambda>b. sret (hex_encode b))"

definition sendInvitationEmail :: "ext \<Rightarrow> mailgunConfig \<Rightarrow> string \<Rightarrow> string \<Rightarrow> string \<Rightarrow> unit svc" where
  "sendInvitationEmail e cfg to code baseURL =
     send_link e cfg ''invitation.gohtml'' ''invitation'' (''You'' @ [CHR 0x27] @ ''re invited to Drynn'') to
       (TrimRight (CHR ''/'') baseURL @ ''/register?code='' @ code)"

definition CreateAndSend :: "ext \<Rightarrow> mailgunConfig \<Rightarrow> uuid \<Rightarrow> string \<Rightarrow> string \<Rightarrow> invitation svc" where
  "CreateAndSend e cfg inviterID email baseURL =
     sbind (of_sum (normalizeEmail e email)) (\<lambda>addr.
     sbind (on_error generateCode (Wrap ''generate invitation code'')) (\<lambda>code.
     sbind now (\<lambda>t.
     sbind (on_error (sql_CreateInvitation e addr code inviterID (t + InvitationTTL)) (Wrap ''create invitation'')) (\<lambda>row.
     sbind (sendInvitationEmail e cfg addr code baseURL) (\<lambda>_.
     sret (mapInvitationRow row []))))))"

definition ResendInvitation :: "ext \<Rightarrow> mailgunConfig \<Rightarrow> uuid \<Rightarrow> string \<Rightarrow> unit svc" where
  "ResendInvitation e cfg i baseURL =
     sbind (on_error (sql_GetInvitationByID i) (not_found_or ErrInvitationNotFound ''get invitation'')) (\<lambda>row.
     if ir_UsedAt row \<noteq> None then sfail (Sentinel ErrInvitationUsed)
     else
       sbind now (\<lambda>t.
       sbind (on_error (sql_UpdateInvitationExpiry i (t + InvitationTTL)) (Wrap ''update invitation expiry'')) (\<lambda>_.
       sendInvitationEmail e cfg (ir_Email row) (ir_Code row) baseURL)))"

definition ArchiveInvitation :: "uuid \<Rightarrow> unit svc" where
  "ArchiveInvitation i = sql_ArchiveInvitation i"

definition ListInvitations :: "string \<Rightarrow> invitation list svc" where
  "ListInvitations filt =
     (if filt \<notin> {'''', ''unused'', ''expired'', ''used''}
      then sfail (ErrorString ''list invitations: unknown filter'')
      else sbind (on_error (sql_ListInvitations filt) (Wrap ''list invitations'')) (\<lambda>rows.
        sret (map (\<lambda>(row, handle). mapInvitationRow row handle) rows)))"

definition ValidateCode :: "string \<Rightarrow> invitation svc" where
  "ValidateCode code =
     sbind (on_error (sql_GetInvitationByCode code) (not_found_or ErrInvitationNotFound ''get invitation by code'')) (\<lambda>row.
     if ir_UsedAt row \<noteq> None then sfail (Sentinel ErrInvitationUsed)
     else sbind now (\<lambda>t.
       if t > ir_ExpiresAt row then sfail (Sentinel ErrInvitationExpired)
       else sret (mapInvitationRow row [])))"

definition RedeemInvitation :: "string \<Rightarrow> uuid \<Rightarrow> unit svc" where
  "RedeemInvitation code userID =
     sbind (ValidateCode code) (\<lambda>inv. sql_MarkInvitationUsed (iv_ID inv) userID)"

section \<open>Invariant\<close>

text \<open>
  Identifiers and codes are unique, an invitation was used by someone only at some time, and the
  users it names exist.
\<close>

definition invitations_ok :: "db \<Rightarrow> uuid \<Rightarrow> bool" where
  "invitations_ok d n \<longleftrightarrow> distinct (map ir_ID (db_invitations d)) \<and> distinct (map ir_Code (db_invitations d)) \<and>
     (\<forall>v \<in> set (db_invitations d). ir_ID v < n \<and> ir_InvitedBy v \<in> ur_ID ` set (db_users d) \<and>
        set_option (ir_UsedBy v) \<subseteq> ur_ID ` set (db_users d) \<and> (ir_UsedBy v \<noteq> None \<longrightarrow> ir_UsedAt v \<noteq> None))"

interpretation invitations: table_invariant invitations_ok
  by unfold_locales (force simp: invitations_ok_def)

lemma invitations_ok_map:
  assumes ok: "invitations_ok d n"
    and f: "\<And>v. v \<in> set (db_invitations d) \<Longrightarrow> ir_ID v = i \<Longrightarrow> ir_ID (f v) = ir_ID v \<and> ir_Code (f v) = ir_Code v \<and> ir_InvitedBy (f v) = ir_InvitedBy v \<and>
      set_option (ir_UsedBy (f v)) \<subseteq> ur_ID ` set (db_users d) \<and> (ir_UsedBy (f v) \<noteq> None \<longrightarrow> ir_UsedAt (f v) \<noteq> None)"
  shows "invitations_ok (d\<lparr>db_invitations := map (\<lambda>v. if ir_ID v = i then f v else v) (db_invitations d)\<rparr>) n"
proof -
  let ?g = "\<lambda>v. if ir_ID v = i then f v else v"
  have "map ir_ID (map ?g (db_invitations d)) = map ir_ID (db_invitations d)"
    "map ir_Code (map ?g (db_invitations d)) = map ir_Code (db_invitations d)" using f by auto
  then have "distinct (map ir_ID (map ?g (db_invitations d)))" "distinct (map ir_Code (map ?g (db_invitations d)))"
    using ok by (simp_all only: invitations_ok_def)
  moreover have "ir_ID v < n \<and> ir_InvitedBy v \<in> ur_ID ` set (db_users d) \<and> set_option (ir_UsedBy v) \<subseteq> ur_ID ` set (db_users d) \<and>
      (ir_UsedBy v \<noteq> None \<longrightarrow> ir_UsedAt v \<noteq> None)" if "v \<in> set (map ?g (db_invitations d))" for v
    using that f ok unfolding invitations_ok_def by auto
  ultimately show ?thesis unfolding invitations_ok_def by simp
qed

lemma keeps_sql_CreateInvitation [keeps_intros]: "keeps invitations_ok (sql_CreateInvitation e addr code u x)"
  unfolding sql_CreateInvitation_def
  by (rule keeps_external)
    (auto simp: keeps_def Let_def invitations_ok_def invitation_violation_def split: option.split if_splits)

lemma keeps_update_invitation:
  assumes "\<And>t v. ir_ID (f t v) = ir_ID v \<and> ir_Code (f t v) = ir_Code v \<and> ir_InvitedBy (f t v) = ir_InvitedBy v \<and>
    ir_UsedBy (f t v) = ir_UsedBy v \<and> ir_UsedAt (f t v) = ir_UsedAt v"
  shows "keeps invitations_ok (external (\<lambda>w. (Inr (), update_invitation i (f (w_now w)) w)))"
proof (rule keeps_external)
  have "invitations_ok (d\<lparr>db_invitations := map (\<lambda>v. if ir_ID v = i then f t v else v) (db_invitations d)\<rparr>) n"
    if ok: "invitations_ok d n" for d n t
    using assms ok by (intro invitations_ok_map [OF ok]) (auto simp: invitations_ok_def)
  then show "keeps invitations_ok (\<lambda>w. (Inr (), update_invitation i (f (w_now w)) w))"
    by (simp add: keeps_def update_invitation_def)
qed

lemma keeps_sql_invitation_updates [keeps_intros]:
  "keeps invitations_ok (sql_UpdateInvitationExpiry i x)" "keeps invitations_ok (sql_ArchiveInvitation i)"
  unfolding sql_UpdateInvitationExpiry_def sql_ArchiveInvitation_def
  by (rule keeps_update_invitation [where f = "\<lambda>t v. v\<lparr>ir_ExpiresAt := x\<rparr>"]
        keeps_update_invitation [where f = "\<lambda>t v. v\<lparr>ir_ArchivedAt := Some t\<rparr>"]; simp)+

lemma invitation_absent: "i \<notin> ir_ID ` set vs \<Longrightarrow> map (\<lambda>v. if ir_ID v = i then f v else v) vs = vs"
  by (rule map_idI) auto

lemma keeps_sql_MarkUsed [keeps_intros]: "keeps invitations_ok (sql_MarkInvitationUsed i u)"
  unfolding sql_MarkInvitationUsed_def update_invitation_def
proof (rule keeps_external)
  have "invitations_ok (d\<lparr>db_invitations := map (\<lambda>v. if ir_ID v = i then v\<lparr>ir_UsedBy := Some u, ir_UsedAt := Some t\<rparr> else v) (db_invitations d)\<rparr>) n"
    if "invitations_ok d n" "\<not> (i \<in> ir_ID ` set (db_invitations d) \<and> u \<notin> ur_ID ` set (db_users d))" for d n t
  proof (cases "i \<in> ir_ID ` set (db_invitations d)")
    case True
    with that show ?thesis by (intro invitations_ok_map) (auto simp: invitations_ok_def)
  next
    case False
    with that(1) show ?thesis by (simp add: invitation_absent)
  qed
  then show "keeps invitations_ok (\<lambda>w. if i \<in> ir_ID ` set (db_invitations (w_db w)) \<and> u \<notin> ur_ID ` set (db_users (w_db w))
      then (Inl (PgError ''invitations_used_by_fkey''), w)
      else (Inr (), w\<lparr>w_db := (w_db w)\<lparr>db_invitations := map (\<lambda>v. if ir_ID v = i
        then v\<lparr>ir_UsedBy := Some u, ir_UsedAt := Some (w_now w)\<rparr> else v) (db_invitations (w_db w))\<rparr>\<rparr>))"
    by (simp add: keeps_def)
qed

lemma reads_sql_invitations [reads_intros]:
  "reads (sql_GetInvitationByID i)" "reads (sql_GetInvitationByCode code)" "reads (sql_ListInvitations filt)"
proof -
  show "reads (sql_GetInvitationByID i)" "reads (sql_GetInvitationByCode code)"
    unfolding sql_GetInvitationByID_def sql_GetInvitationByCode_def by (rule reads_pure)+
  show "reads (sql_ListInvitations filt)"
    by (simp add: sql_ListInvitations_def reads_def external_def split: list.split fault.split)
qed

lemma reads_invitations [reads_intros]:
  "reads generateCode" "reads (ValidateCode code)" "reads (ListInvitations filt)" "reads (sendInvitationEmail e cfg to code base)"
  unfolding generateCode_def ValidateCode_def ListInvitations_def sendInvitationEmail_def
  by (auto intro!: reads_intros)

lemmas keeps_invitation_reads [keeps_intros] = reads_sql_invitations [THEN keeps_reads] reads_invitations [THEN keeps_reads]

lemma keeps_invitation_methods [keeps_intros]:
  "keeps invitations_ok (CreateAndSend e cfg u addr base)" "keeps invitations_ok (ResendInvitation e cfg i base)"
  "keeps invitations_ok (ArchiveInvitation i)" "keeps invitations_ok (RedeemInvitation code u)"
  unfolding CreateAndSend_def ResendInvitation_def ArchiveInvitation_def RedeemInvitation_def
  by (intro keeps_intros)+

section \<open>What the methods do\<close>

lemma ValidateCode_calm:
  assumes ok: "invitations_ok (w_db w) n" and calm: "calm w" and v: "v \<in> set (db_invitations (w_db w))"
  shows "ValidateCode (ir_Code v) w =
    (if ir_UsedAt v \<noteq> None then Inl (Sentinel ErrInvitationUsed)
     else if w_now w > ir_ExpiresAt v then Inl (Sentinel ErrInvitationExpired)
     else Inr (mapInvitationRow v []), w)"
proof -
  have "find (\<lambda>v'. ir_Code v' = ir_Code v) (db_invitations (w_db w)) = Some v"
    using ok v by (intro find_unique) (auto simp: invitations_ok_def)
  then show ?thesis
    by (simp add: ValidateCode_def run_simps sql_GetInvitationByCode_def query_calm calm find_row_def)
qed

lemma ValidateCode_Inr:
  assumes "ValidateCode code w = (Inr iv, w')"
  shows "\<exists>v. v \<in> set (db_invitations (w_db w)) \<and> ir_Code v = code \<and> ir_UsedAt v = None \<and> w_now w \<le> ir_ExpiresAt v \<and>
    iv = mapInvitationRow v [] \<and> w_db w' = w_db w \<and> w_now w' = w_now w \<and> w_fresh w' = w_fresh w"
proof -
  obtain row w1 where q: "sql_GetInvitationByCode code w = (Inr row, w1)"
    and rest: "(if ir_UsedAt row \<noteq> None then sfail (Sentinel ErrInvitationUsed)
      else sbind now (\<lambda>t. if t > ir_ExpiresAt row then sfail (Sentinel ErrInvitationExpired)
        else sret (mapInvitationRow row []))) w1 = (Inr iv, w')"
    using assms unfolding ValidateCode_def by (elim sbind_InrE) (simp only: on_error_Inr)
  from q have row: "row \<in> set (db_invitations (w_db w))" "ir_Code row = code"
    unfolding sql_GetInvitationByCode_def by (auto dest!: query_Inr find_row_Inr)
  obtain fs where "w1 = w\<lparr>w_faults := fs\<rparr>" using query_world q unfolding sql_GetInvitationByCode_def by blast
  with rest row show ?thesis by (auto simp: run_simps split: if_splits)
qed

lemma RedeemInvitation_Inr:
  assumes run: "RedeemInvitation code u w = (Inr x, w')"
  shows "\<exists>v. v \<in> set (db_invitations (w_db w)) \<and> ir_Code v = code \<and> ir_UsedAt v = None \<and> w_now w \<le> ir_ExpiresAt v \<and>
    w_db w' = (w_db w)\<lparr>db_invitations := map (\<lambda>v'. if ir_ID v' = ir_ID v then v'\<lparr>ir_UsedBy := Some u, ir_UsedAt := Some (w_now w)\<rparr> else v')
      (db_invitations (w_db w))\<rparr> \<and> w_fresh w' = w_fresh w"
proof -
  from run obtain iv w1 where val: "ValidateCode code w = (Inr iv, w1)" and m: "sql_MarkInvitationUsed (iv_ID iv) u w1 = (Inr x, w')"
    unfolding RedeemInvitation_def by (elim sbind_InrE)
  from ValidateCode_Inr [OF val] obtain v where v: "v \<in> set (db_invitations (w_db w))" "ir_Code v = code" "ir_UsedAt v = None"
    "w_now w \<le> ir_ExpiresAt v" "iv = mapInvitationRow v []" "w_db w1 = w_db w" "w_now w1 = w_now w" "w_fresh w1 = w_fresh w" by blast
  with v external_InrD [OF m [unfolded sql_MarkInvitationUsed_def]] show ?thesis
    by (auto simp: update_invitation_def mapInvitationRow_def split: if_splits)
qed

lemma generateCode_Inr:
  assumes "generateCode w = (Inr code, w')"
  shows "length code = 32" "w_now w' = w_now w" "w_outbox w' = w_outbox w"
proof -
  from assms obtain b where r: "rand_bytes 16 w = (Inr b, w')" and c: "code = hex_encode b"
    unfolding generateCode_def by (auto elim!: sbind_InrE simp: sret_def)
  have "length (hex_encode b) = 2 * length b" by (induction b) (simp_all add: hex_encode_def)
  with rand_Inr [OF r] c show "length code = 32" by simp
  show "w_now w' = w_now w" "w_outbox w' = w_outbox w"
    using external_InrD [OF r [unfolded rand_bytes_def]] by auto
qed

lemma send_link_Inr:
  assumes "send_link e cfg template what subject to link w = (Inr u, w')"
  shows "\<exists>body. ext_render e template [link] = Some body \<and> w_db w' = w_db w \<and> w_fresh w' = w_fresh w \<and>
    w_outbox w' = w_outbox w @ [\<lparr>mail_from = from_header cfg, mail_to = to, mail_subject = subject, mail_body = body\<rparr>]"
proof -
  from assms obtain body where r: "ext_render e template [link] = Some body" and s: "Send cfg to subject body w = (Inr u, w')"
    unfolding send_link_def RenderTemplate_def
    by (auto elim!: sbind_InrE simp: on_error_Inr sfail_def split: if_splits option.splits)
  have "w_db w' = w_db w \<and> w_fresh w' = w_fresh w" by (rule readsD [OF reads_Send s])
  with r Send_outbox [OF s] show ?thesis by auto
qed

lemma CreateInvitation_Inr:
  assumes "sql_CreateInvitation e addr code u x w = (Inr row, w')"
  shows "row = \<lparr>ir_ID = w_fresh w, ir_Email = addr, ir_Code = code, ir_InvitedBy = u, ir_UsedBy = None,
      ir_UsedAt = None, ir_ExpiresAt = x, ir_ArchivedAt = None, ir_CreatedAt = w_now w\<rparr>"
    and "w_db w' = (w_db w)\<lparr>db_invitations := db_invitations (w_db w) @ [row]\<rparr>"
    and "w_outbox w' = w_outbox w"
  using external_InrD [OF assms [unfolded sql_CreateInvitation_def]] by (auto simp: Let_def split: option.splits)

lemma CreateAndSend_Inr:
  assumes "CreateAndSend e cfg u email base w = (Inr iv, w')"
  shows "\<exists>row body. iv = mapInvitationRow row [] \<and> normalizeEmail e email = Inr (ir_Email row) \<and> length (ir_Code row) = 32 \<and>
    ir_InvitedBy row = u \<and> ir_UsedAt row = None \<and> ir_ExpiresAt row = w_now w + InvitationTTL \<and>
    w_db w' = (w_db w)\<lparr>db_invitations := db_invitations (w_db w) @ [row]\<rparr> \<and>
    ext_render e ''invitation.gohtml'' [TrimRight (CHR ''/'') base @ ''/register?code='' @ ir_Code row] = Some body \<and>
    w_outbox w' = w_outbox w @ [\<lparr>mail_from = from_header cfg, mail_to = ir_Email row,
      mail_subject = ''You'' @ [CHR 0x27] @ ''re invited to Drynn'', mail_body = body\<rparr>]"
proof -
  from assms obtain addr code row w1 w2 w3 where n: "normalizeEmail e email = Inr addr" and g: "generateCode w = (Inr code, w1)"
    and c: "sql_CreateInvitation e addr code u (w_now w1 + InvitationTTL) w1 = (Inr row, w2)"
    and s: "sendInvitationEmail e cfg addr code base w2 = (Inr (), w3)" and iv: "iv = mapInvitationRow row []" "w' = w3"
    unfolding CreateAndSend_def by (auto elim!: sbind_InrE simp: on_error_Inr now_def sret_def)
  have "w_db w1 = w_db w" by (rule conjunct1 [OF readsD [OF reads_invitations(1) g]])
  with n generateCode_Inr [OF g] CreateInvitation_Inr [OF c] send_link_Inr [OF s [unfolded sendInvitationEmail_def]] iv
  show ?thesis by (intro exI [of _ row]) auto
qed

section \<open>Properties\<close>

definition carol :: invitation_row where
  "carol = \<lparr>ir_ID = 3, ir_Email = ''c@b.io'', ir_Code = ''abc'', ir_InvitedBy = 7, ir_UsedBy = None, ir_UsedAt = None,
     ir_ExpiresAt = 1000, ir_ArchivedAt = None, ir_CreatedAt = 900\<rparr>"

definition invited :: "invitation_row list \<Rightarrow> world" where
  "invited vs = sample_world (initial_db\<lparr>db_users := [alice], db_user_roles := [(7, 1)], db_invitations := vs\<rparr>) 8"

lemma invited_ok: "invitations_ok (w_db (invited [carol])) (w_fresh (invited [carol]))"
  by (simp add: invited_def sample_world_def invitations_ok_def carol_def alice_def)

definition sample_mailgun :: mailgunConfig where
  "sample_mailgun = \<lparr>mc_APIKey = ''k'', mc_SendingDomain = ''d'', mc_FromAddress = ''f@d'', mc_FromName = []\<rparr>"

lemma sample_invitation:
  "\<exists>iv w1. CreateAndSend sample_ext sample_mailgun 7 ''Dave@b.io'' ''http://x/'' (invited []) = (Inr iv, w1)"
proof -
  have n: "normalizeEmail sample_ext ''Dave@b.io'' = Inr ''dave@b.io''" by code_simp
  have v: "invitation_violation sample_ext (initial_db\<lparr>db_users := [alice], db_user_roles := [(7, 1)], db_invitations := []\<rparr>)
      ''dave@b.io'' code 7 = None" for code
    by (simp add: invitation_violation_def char_length_def sample_ext_def alice_def)
  have r: "ext_render sample_ext t args = Some (concat args)" for t args by (simp add: sample_ext_def)
  show ?thesis
    using v by (simp add: CreateAndSend_def run_simps n generateCode_def rand_bytes_def external_def invited_def
        sample_world_def sql_CreateInvitation_def Let_def sendInvitationEmail_def send_link_def Configured_def
        sample_mailgun_def RenderTemplate_def r Send_def)
qed

text \<open>C25.  A created invitation was mailed to its normalised address with its code in the link, and \<open>ValidateCode\<close>
  accepts the code for exactly seven days.\<close>

theorem invitation_lifecycle:
  assumes "invitations_ok (w_db w) (w_fresh w)" and "CreateAndSend e cfg u email base w = (Inr iv, w1)"
    and "w_db w2 = w_db w1" and "w_faults w2 = []"
  shows "ValidateCode (iv_Code iv) w2 =
      (if w_now w2 \<le> w_now w + InvitationTTL then Inr iv else Inl (Sentinel ErrInvitationExpired), w2) \<and>
    length (iv_Code iv) = 32 \<and> normalizeEmail e email = Inr (iv_Email iv) \<and>
    (\<exists>m. w_outbox w1 = w_outbox w @ [m] \<and> mail_to m = iv_Email iv \<and>
       ext_render e ''invitation.gohtml'' [TrimRight (CHR ''/'') base @ ''/register?code='' @ iv_Code iv] = Some (mail_body m))"
proof -
  have ok: "invitations_ok (w_db w2) (w_fresh w1)"
    using keepsD [OF keeps_invitation_methods(1) assms(1,2)] assms(3) by simp
  from CreateAndSend_Inr [OF assms(2)] obtain row where iv: "iv = mapInvitationRow row []"
    and row: "row \<in> set (db_invitations (w_db w2))" "ir_UsedAt row = None" "ir_ExpiresAt row = w_now w + InvitationTTL"
    and rest: "length (ir_Code row) = 32" "normalizeEmail e email = Inr (ir_Email row)"
      "\<exists>m. w_outbox w1 = w_outbox w @ [m] \<and> mail_to m = ir_Email row \<and>
       ext_render e ''invitation.gohtml'' [TrimRight (CHR ''/'') base @ ''/register?code='' @ ir_Code row] = Some (mail_body m)"
    using assms(3) by auto
  have "ValidateCode (ir_Code row) w2 =
      (if w_now w2 \<le> w_now w + InvitationTTL then Inr iv else Inl (Sentinel ErrInvitationExpired), w2)"
    using ValidateCode_calm [OF ok _ row(1)] row(2,3) iv assms(4) by (simp add: calm_def)
  with rest iv show ?thesis by (simp add: mapInvitationRow_def)
qed

theorem invitation_lifecycle_witness:
  "\<exists>(w0 :: world) iv w1 w2. w0 = invited [] \<and>
     CreateAndSend sample_ext sample_mailgun 7 ''Dave@b.io'' ''http://x/'' w0 = (Inr iv, w1) \<and> iv_Email iv = ''dave@b.io'' \<and>
     map mail_to (w_outbox w1) = [''dave@b.io''] \<and> w_db w2 = w_db w1 \<and>
     ValidateCode (iv_Code iv) w2 = (Inr iv, w2) \<and>
     ValidateCode (iv_Code iv) (w2\<lparr>w_now := w_now w0 + InvitationTTL + 1\<rparr>) =
       (Inl (Sentinel ErrInvitationExpired), w2\<lparr>w_now := w_now w0 + InvitationTTL + 1\<rparr>)"
proof -
  obtain iv w1 where run: "CreateAndSend sample_ext sample_mailgun 7 ''Dave@b.io'' ''http://x/'' (invited []) = (Inr iv, w1)"
    using sample_invitation by blast
  have ok: "invitations_ok (w_db (invited [])) (w_fresh (invited []))"
    by (simp add: invited_def sample_world_def invitations_ok_def)
  have n: "normalizeEmail sample_ext ''Dave@b.io'' = Inr ''dave@b.io''" by code_simp
  let ?w2 = "w1\<lparr>w_faults := [], w_now := w_now (invited []) + InvitationTTL\<rparr>"
  let ?w3 = "?w2\<lparr>w_now := w_now (invited []) + InvitationTTL + 1\<rparr>"
  have outbox: "w_outbox (invited []) = []" by (simp add: invited_def sample_world_def)
  from invitation_lifecycle [OF ok run, of ?w2] n outbox have
    "iv_Email iv = ''dave@b.io'' \<and> map mail_to (w_outbox w1) = [''dave@b.io''] \<and> ValidateCode (iv_Code iv) ?w2 = (Inr iv, ?w2)" by auto
  moreover from invitation_lifecycle [OF ok run, of ?w3] have
    "ValidateCode (iv_Code iv) ?w3 = (Inl (Sentinel ErrInvitationExpired), ?w3)" by simp
  ultimately show ?thesis using run by (intro exI [of _ "invited []"] exI [of _ iv] exI [of _ w1] exI [of _ ?w2]) simp
qed

text \<open>C8.  A redemption that succeeds was of a code that was unused and not expired; it marks that invitation, and
  changes nothing else in any table.  Every later redemption of the code, by anyone and at any time, is refused as
  used.  (Redemptions that overlap are another matter: see \<open>invitation_redeemed_twice\<close>.)\<close>

theorem RedeemInvitation_once:
  assumes "invitations_ok (w_db w) (w_fresh w)" and "RedeemInvitation code u w = (Inr x, w1)"
    and "w_db w2 = w_db w1" and "w_faults w2 = []"
  shows "(\<exists>v \<in> set (db_invitations (w_db w)). ir_Code v = code \<and> ir_UsedAt v = None \<and> w_now w \<le> ir_ExpiresAt v) \<and>
    w_db w1 = (w_db w)\<lparr>db_invitations := map (\<lambda>v. if ir_Code v = code
      then v\<lparr>ir_UsedBy := Some u, ir_UsedAt := Some (w_now w)\<rparr> else v) (db_invitations (w_db w))\<rparr> \<and>
    RedeemInvitation code u2 w2 = (Inl (Sentinel ErrInvitationUsed), w2)"
proof -
  from RedeemInvitation_Inr [OF assms(2)] obtain v where v: "v \<in> set (db_invitations (w_db w))" "ir_Code v = code"
    "ir_UsedAt v = None" "w_now w \<le> ir_ExpiresAt v" and db: "w_db w1 = (w_db w)\<lparr>db_invitations :=
      map (\<lambda>v'. if ir_ID v' = ir_ID v then v'\<lparr>ir_UsedBy := Some u, ir_UsedAt := Some (w_now w)\<rparr> else v') (db_invitations (w_db w))\<rparr>"
    by blast
  have ok: "invitations_ok (w_db w2) (w_fresh w1)"
    using keepsD [OF keeps_invitation_methods(4) assms(1,2)] assms(3) by simp
  let ?v = "v\<lparr>ir_UsedBy := Some u, ir_UsedAt := Some (w_now w)\<rparr>"
  have "?v \<in> set (db_invitations (w_db w2))" using v(1) assms(3) db by auto
  from ValidateCode_calm [OF ok _ this] v(2) assms(4) have "ValidateCode code w2 = (Inl (Sentinel ErrInvitationUsed), w2)"
    by (simp add: calm_def)
  then have "RedeemInvitation code u2 w2 = (Inl (Sentinel ErrInvitationUsed), w2)"
    by (simp add: RedeemInvitation_def run_simps)
  moreover have "ir_ID v' = ir_ID v \<longleftrightarrow> ir_Code v' = code" if "v' \<in> set (db_invitations (w_db w))" for v'
    using v(1,2) that assms(1) by (auto simp: invitations_ok_def distinct_map inj_on_def)
  ultimately show ?thesis using v db by auto
qed

theorem RedeemInvitation_once_witness:
  "\<exists>(w1 :: world). RedeemInvitation ''abc'' 7 (invited [carol]) = (Inr (), w1) \<and>
     db_invitations (w_db w1) = [carol\<lparr>ir_UsedBy := Some 7, ir_UsedAt := Some (w_now (invited [carol]))\<rparr>] \<and>
     (\<exists>w2. RedeemInvitation ''abc'' 9 w2 = (Inl (Sentinel ErrInvitationUsed), w2) \<and> w_db w2 = w_db w1)"
proof -
  have "\<exists>w1. RedeemInvitation ''abc'' 7 (invited [carol]) = (Inr (), w1)"
    by (simp add: RedeemInvitation_def ValidateCode_def run_simps sql_GetInvitationByCode_def query_def external_def
        invited_def sample_world_def find_row_def carol_def sql_MarkInvitationUsed_def mapInvitationRow_def alice_def)
  then obtain w1 where run: "RedeemInvitation ''abc'' 7 (invited [carol]) = (Inr (), w1)" by blast
  note once = RedeemInvitation_once [OF invited_ok run, of "w1\<lparr>w_faults := []\<rparr>" 9]
  from once have "db_invitations (w_db w1) = [carol\<lparr>ir_UsedBy := Some 7, ir_UsedAt := Some (w_now (invited [carol]))\<rparr>]"
    by (simp add: invited_def sample_world_def carol_def)
  moreover from once have "RedeemInvitation ''abc'' 9 (w1\<lparr>w_faults := []\<rparr>) = (Inl (Sentinel ErrInvitationUsed), w1\<lparr>w_faults := []\<rparr>)"
    by simp
  ultimately show ?thesis using run by (intro exI [of _ w1] conjI exI [of _ "w1\<lparr>w_faults := []\<rparr>"]) simp_all
qed

text \<open>\<open>RedeemInvitation\<close> looks at the code and marks the invitation in two statements, and marking does not look
  again: when two requests overlap so that both have looked before the first one marks, both succeed.\<close>

theorem invitation_redeemed_twice:
  "\<exists>iv w1 w2 w3 w4. ValidateCode ''abc'' (invited [carol]) = (Inr iv, w1) \<and> ValidateCode ''abc'' w1 = (Inr iv, w2) \<and>
     sql_MarkInvitationUsed (iv_ID iv) 7 w2 = (Inr (), w3) \<and> sql_MarkInvitationUsed (iv_ID iv) 7 w3 = (Inr (), w4)"
  by (simp add: ValidateCode_def run_simps sql_GetInvitationByCode_def query_def external_def
      invited_def sample_world_def find_row_def carol_def sql_MarkInvitationUsed_def update_invitation_def mapInvitationRow_def alice_def)

text \<open>Archiving an invitation takes it off every list but does not revoke it: its code can still be
  redeemed.\<close>

theorem archived_invitation_redeems:
  "\<exists>w w1 w2. ArchiveInvitation 3 w = (Inr (), w1) \<and> fst (ListInvitations '''' w1) = Inr [] \<and>
    RedeemInvitation ''abc'' 7 w1 = (Inr (), w2)"
proof -
  have "\<exists>w1 w2. ArchiveInvitation 3 (invited [carol]) = (Inr (), w1) \<and> fst (ListInvitations '''' w1) = Inr [] \<and>
      RedeemInvitation ''abc'' 7 w1 = (Inr (), w2)"
    by (simp add: ArchiveInvitation_def sql_ArchiveInvitation_def update_invitation_def ListInvitations_def
        sql_ListInvitations_def invitation_matches_def RedeemInvitation_def ValidateCode_def run_simps
        sql_GetInvitationByCode_def query_def external_def invited_def sample_world_def find_row_def carol_def
        sql_MarkInvitationUsed_def mapInvitationRow_def alice_def)
  then show ?thesis by blast
qed

end
