(* ===== verification/Resets.thy ===== *)
theory Resets
  imports Invitations
begin

text \<open>
  internal/service/password_reset_service.go: tokens to reset a password.  \<open>ResetPassword\<close> is its
  checks (\<open>reset_check\<close>), which read the tables outside a transaction, followed by the
  transaction that sets the password and marks the token (\<open>reset_apply\<close>).
\<close>

section \<open>The methods\<close>

definition PasswordResetTTL :: int where
  "PasswordResetTTL = 30 * 60 * 1000000000"

definition sendResetEmail :: "ext \<Rightarrow> mailgunConfig \<Rightarrow> string \<Rightarrow> string \<Rightarrow> string \<Rightarrow> unit svc" where
  "sendResetEmail e cfg to code baseURL =
     send_link e cfg ''password_reset.gohtml'' ''password reset'' ''Reset your Drynn password'' to
       (TrimRight (CHR ''/'') baseURL @ ''/reset-password?code='' @ code)"

definition issueReset :: "ext \<Rightarrow> mailgunConfig \<Rightarrow> uuid \<Rightarrow> string \<Rightarrow> string \<Rightarrow> unit svc" where
  "issueReset e cfg userID email baseURL =
     sbind (on_error generateCode (Wrap ''generate reset code'')) (\<lambda>code.
     sbind now (\<lambda>t.
     sbind (on_error (sql_CreatePasswordResetToken userID code (t + PasswordResetTTL)) (Wrap ''create password reset token''))
       (\<lambda>_. sendResetEmail e cfg email code baseURL)))"

definition SendReset :: "ext \<Rightarrow> mailgunConfig \<Rightarrow> uuid \<Rightarrow> string \<Rightarrow> unit svc" where
  "SendReset e cfg userID baseURL =
     sbind (on_error (sql_GetUserByID userID) (not_found_or ErrUserNotFound ''get user'')) (\<lambda>row.
     issueReset e cfg (ur_ID row) (ur_Email row) baseURL)"

definition SendResetByEmail :: "ext \<Rightarrow> mailgunConfig \<Rightarrow> string \<Rightarrow> string \<Rightarrow> unit svc" where
  "SendResetByEmail e cfg submittedEmail baseURL =
     (case normalizeEmail e submittedEmail of
        Inl _ \<Rightarrow> sret ()
      | Inr normalizedEmail \<Rightarrow>
          sbind (attempt (sql_GetUserByEmail normalizedEmail)) (\<lambda>res.
          case res of
            Inl err \<Rightarrow> if errors_is err NoRows then sret () else sfail (Wrap ''get user by email'' err)
          | Inr row \<Rightarrow> issueReset e cfg (ur_ID row) (ur_Email row) baseURL))"

text \<open>\<open>subtle.ConstantTimeCompare\<close> is 1 exactly for equal byte strings; the zero UUID is 0.\<close>

definition reset_check :: "ext \<Rightarrow> string \<Rightarrow> string \<Rightarrow> string \<Rightarrow> (uuid \<times> uuid) svc" where
  "reset_check e code submittedEmail newPassword =
     (let email = normalizeEmail e submittedEmail; pw = validatePassword newPassword in
      sbind (attempt (sql_GetPasswordResetTokenByCode code)) (\<lambda>res.
      case res of
        Inl err \<Rightarrow>
          if \<not> errors_is err NoRows then sfail (Wrap ''get password reset token'' err)
          else (case pw of Inl pwErr \<Rightarrow> sfail pwErr | Inr _ \<Rightarrow> sfail (Sentinel ErrPasswordResetInvalid))
      | Inr row \<Rightarrow>
          sbind (attempt (sql_GetUserByID (pr_UserID row))) (\<lambda>ures.
          let codeMatches = (pr_Code row = code);
              userEmail = (case ures of Inr u \<Rightarrow> ur_Email u | Inl _ \<Rightarrow> []);
              userID = (case ures of Inr u \<Rightarrow> ur_ID u | Inl _ \<Rightarrow> 0);
              emailMatches = (case email of Inr m \<Rightarrow> userEmail \<noteq> [] \<and> userEmail = m | Inl _ \<Rightarrow> False)
          in
          case pw of
            Inl pwErr \<Rightarrow> sfail pwErr
          | Inr _ \<Rightarrow>
              sbind now (\<lambda>t.
              let tokenValid = (codeMatches \<and> pr_UsedAt row = None \<and> t < pr_ExpiresAt row) in
              if \<not> tokenValid \<or> \<not> emailMatches then sfail (Sentinel ErrPasswordResetInvalid)
              else sret (pr_ID row, userID)))))"

definition reset_apply :: "ext \<Rightarrow> uuid \<Rightarrow> uuid \<Rightarrow> string \<Rightarrow> unit svc" where
  "reset_apply e tokenID userID newPassword =
     sbind (on_error (HashPassword e newPassword) (Wrap ''hash password'')) (\<lambda>hash.
     with_tx ''begin reset tx'' ''commit reset tx''
       (sbind (on_error (sql_SetUserPassword userID hash) (Wrap ''set password'')) (\<lambda>_.
        on_error (sql_MarkPasswordResetTokenUsed tokenID) (Wrap ''mark token used''))))"

definition ResetPassword :: "ext \<Rightarrow> string \<Rightarrow> string \<Rightarrow> string \<Rightarrow> unit svc" where
  "ResetPassword e code submittedEmail newPassword =
     sbind (reset_check e code submittedEmail newPassword) (\<lambda>(tokenID, userID). reset_apply e tokenID userID newPassword)"

section \<open>Invariant\<close>

definition resets_ok :: "db \<Rightarrow> uuid \<Rightarrow> bool" where
  "resets_ok d n \<longleftrightarrow> distinct (map pr_ID (db_resets d)) \<and> distinct (map pr_Code (db_resets d)) \<and>
     (\<forall>t \<in> set (db_resets d). pr_ID t < n \<and> pr_UserID t \<in> ur_ID ` set (db_users d))"

interpretation resets: table_invariant resets_ok
  by unfold_locales (force simp: resets_ok_def)

lemma keeps_sql_CreateReset [keeps_intros]: "keeps resets_ok (sql_CreatePasswordResetToken u code x)"
  unfolding sql_CreatePasswordResetToken_def
  by (rule keeps_external) (auto simp: keeps_def Let_def resets_ok_def less_Suc_eq)

abbreviation mark_used :: "uuid \<Rightarrow> int \<Rightarrow> reset_row list \<Rightarrow> reset_row list" where
  "mark_used i t ts \<equiv> map (\<lambda>r. if pr_ID r = i then r\<lparr>pr_UsedAt := Some t\<rparr> else r) ts"

lemma resets_ok_mark: "resets_ok d n \<Longrightarrow> resets_ok (d\<lparr>db_resets := mark_used i t (db_resets d)\<rparr>) n"
proof -
  assume ok: "resets_ok d n"
  have "map pr_ID (mark_used i t (db_resets d)) = map pr_ID (db_resets d)"
    "map pr_Code (mark_used i t (db_resets d)) = map pr_Code (db_resets d)" by auto
  then have "distinct (map pr_ID (mark_used i t (db_resets d)))" "distinct (map pr_Code (mark_used i t (db_resets d)))"
    using ok by (simp_all only: resets_ok_def)
  then show ?thesis using ok unfolding resets_ok_def by auto
qed

lemma keeps_sql_MarkReset [keeps_intros]: "keeps resets_ok (sql_MarkPasswordResetTokenUsed i)"
  unfolding sql_MarkPasswordResetTokenUsed_def
  by (rule keeps_external) (simp add: keeps_def resets_ok_mark)

lemma resets_ok_users:
  assumes "resets_ok d n" and "map ur_ID us = map ur_ID (db_users d)"
  shows "resets_ok (d\<lparr>db_users := us\<rparr>) n"
proof -
  have "ur_ID ` set us = ur_ID ` set (db_users d)" using assms(2) by (metis list.set_map)
  with assms(1) show ?thesis by (simp add: resets_ok_def)
qed

lemma keeps_resets_SetPassword [keeps_intros]: "keeps resets_ok (sql_SetUserPassword i h)"
  unfolding sql_SetUserPassword_def update_user_def
  by (rule keeps_external) (auto simp: keeps_def intro!: resets_ok_users)

lemma reads_resets [reads_intros]: "reads (sql_GetPasswordResetTokenByCode code)" "reads (sendResetEmail e cfg to code base)"
  unfolding sql_GetPasswordResetTokenByCode_def sendResetEmail_def by (intro reads_intros)+

lemmas keeps_reset_reads [keeps_intros] = reads_resets [THEN keeps_reads]

lemma keeps_issueReset [keeps_intros]: "keeps resets_ok (issueReset e cfg u addr base)"
  unfolding issueReset_def by (intro keeps_intros)

lemma keeps_reset_check [keeps_intros]: "keeps ok (reset_check e code addr pw)"
  unfolding reset_check_def Let_def
  by (intro keeps_intros; auto intro!: keeps_intros split: sum.split)

lemma keeps_reset_methods [keeps_intros]:
  "keeps resets_ok (SendReset e cfg u base)" "keeps resets_ok (SendResetByEmail e cfg addr base)"
  "keeps resets_ok (ResetPassword e code addr pw)"
  unfolding SendReset_def SendResetByEmail_def ResetPassword_def reset_apply_def
  by (auto intro!: keeps_intros resets.keeps_with_tx split: sum.split prod.split)

section \<open>What the methods do\<close>

lemma HashPassword_now: "HashPassword e p w = (r, w') \<Longrightarrow> w_now w' = w_now w"
  by (auto simp: HashPassword_def run_simps dest: rand_now split: sum.splits prod.splits option.splits)

lemma quiet_attempt [quiet_intros]: "quiet m \<Longrightarrow> quiet (attempt m)"
  by (auto simp: quiet_def attempt_def split: prod.split) (metis snd_conv)

lemma quiet_sql [quiet_intros]: "quiet (sql_GetPasswordResetTokenByCode code)" "quiet (sql_GetUserByID i)" "quiet (sql_GetUserByEmail m)"
  unfolding sql_GetPasswordResetTokenByCode_def sql_GetUserByID_def sql_GetUserByEmail_def by (rule quiet_query)+

lemma quiet_reset_check: "quiet (reset_check e code addr pw)"
  unfolding reset_check_def Let_def by (auto intro!: quiet_intros split: sum.split)

lemma reset_check_Inr:
  assumes "reset_check e code addr pw w = (Inr (tid, uid), w')"
  shows "\<exists>row u. row \<in> set (db_resets (w_db w)) \<and> pr_Code row = code \<and> pr_ID row = tid \<and> pr_UsedAt row = None \<and>
    w_now w < pr_ExpiresAt row \<and> u \<in> set (db_users (w_db w)) \<and> ur_ID u = uid \<and> pr_UserID row = uid \<and>
    normalizeEmail e addr = Inr (ur_Email u) \<and> validatePassword pw = Inr ()"
proof -
  obtain res w1 where q: "sql_GetPasswordResetTokenByCode code w = (res, w1)" by force
  obtain fs where w1: "w1 = w\<lparr>w_faults := fs\<rparr>" using quietD [OF quiet_sql(1) q] by blast
  from assms q obtain row where res: "res = Inr row"
    by (cases res) (auto simp: reset_check_def run_simps Let_def split: if_splits sum.splits)
  have row: "row \<in> set (db_resets (w_db w))" "pr_Code row = code"
    using q res unfolding sql_GetPasswordResetTokenByCode_def by (auto dest!: query_Inr find_row_Inr)
  obtain ures w2 where q2: "sql_GetUserByID (pr_UserID row) w1 = (ures, w2)" by force
  obtain fs2 where w2: "w2 = w1\<lparr>w_faults := fs2\<rparr>" using quietD [OF quiet_sql(2) q2] by blast
  show ?thesis
  proof (cases ures)
    case (Inl err)
    with assms q res q2 show ?thesis
      by (auto simp: reset_check_def run_simps Let_def split: if_splits sum.splits)
  next
    case (Inr u)
    then have u: "u \<in> set (db_users (w_db w))" "ur_ID u = pr_UserID row"
      using q2 w1 unfolding sql_GetUserByID_def by (auto dest!: query_Inr find_row_Inr)
    from assms q res q2 Inr w1 w2 have "tid = pr_ID row" "uid = ur_ID u" "pr_UsedAt row = None" "w_now w < pr_ExpiresAt row"
      "normalizeEmail e addr = Inr (ur_Email u)" "validatePassword pw = Inr ()"
      by (auto simp: reset_check_def run_simps Let_def split: if_splits sum.splits)
    with row u show ?thesis by auto
  qed
qed

definition with_password :: "uuid \<Rightarrow> string \<Rightarrow> int \<Rightarrow> user_row list \<Rightarrow> user_row list" where
  "with_password i hash t us = map (\<lambda>u. if ur_ID u = i then u\<lparr>ur_PasswordHash := hash, ur_UpdatedAt := t\<rparr> else u) us"

lemma SetUserPassword_Inr:
  "sql_SetUserPassword i hash w = (Inr x, w') \<Longrightarrow> w_db w' = (w_db w)\<lparr>db_users := with_password i hash (w_now w) (db_users (w_db w))\<rparr> \<and>
    w_now w' = w_now w"
  unfolding sql_SetUserPassword_def update_user_def with_password_def by (auto dest!: external_InrD)

lemma MarkReset_Inr:
  "sql_MarkPasswordResetTokenUsed i w = (Inr x, w') \<Longrightarrow> w_db w' = (w_db w)\<lparr>db_resets := mark_used i (w_now w) (db_resets (w_db w))\<rparr>"
  unfolding sql_MarkPasswordResetTokenUsed_def by (auto dest!: external_InrD)

lemma reset_apply_cases:
  assumes "reset_apply e tid uid pw w = (r, w')"
  shows "(w_db w' = w_db w \<and> (\<exists>err. r = Inl err)) \<or>
    (\<exists>hash salt. ext_bcrypt_generate e pw salt = Some hash \<and>
       w_db w' = (w_db w)\<lparr>db_users := with_password uid hash (w_now w) (db_users (w_db w)),
         db_resets := mark_used tid (w_now w) (db_resets (w_db w))\<rparr>)"
  using assms unfolding reset_apply_def
proof (cases rule: sbind_cases)
  case (failed err)
  then show ?thesis by (auto simp: on_error_Inl dest: readsD [OF reads_HashPassword])
next
  case (went_on hash w1)
  then have h: "HashPassword e pw w = (Inr hash, w1)" by (simp add: on_error_Inr)
  have w1: "w_db w1 = w_db w" "w_now w1 = w_now w" using readsD [OF reads_HashPassword h] HashPassword_now [OF h] by simp_all
  obtain salt where salt: "ext_bcrypt_generate e pw salt = Some hash" using HashPassword_Inr [OF h] by blast
  from went_on(2) show ?thesis
  proof (cases rule: with_tx_cases)
    case (rolled_back err)
    with w1 show ?thesis by simp
  next
    case (committed w2 a w3)
    from committed(3) obtain w4 where s: "sql_SetUserPassword uid hash w2 = (Inr (), w4)"
      and m: "sql_MarkPasswordResetTokenUsed tid w4 = (Inr a, w3)" by (auto elim!: sbind_InrE simp: on_error_Inr)
    from SetUserPassword_Inr [OF s] MarkReset_Inr [OF m] committed w1 salt show ?thesis by auto
  qed
qed

text \<open>A reset took place: with the token of the code, for the account of the address.\<close>

definition reset_done :: "ext \<Rightarrow> string \<Rightarrow> string \<Rightarrow> string \<Rightarrow> world \<Rightarrow> db \<Rightarrow> bool" where
  "reset_done e code addr pw w d \<longleftrightarrow> (\<exists>row u hash salt. row \<in> set (db_resets (w_db w)) \<and> pr_Code row = code \<and>
     pr_UsedAt row = None \<and> w_now w < pr_ExpiresAt row \<and> u \<in> set (db_users (w_db w)) \<and> pr_UserID row = ur_ID u \<and>
     normalizeEmail e addr = Inr (ur_Email u) \<and> validatePassword pw = Inr () \<and> ext_bcrypt_generate e pw salt = Some hash \<and>
     d = (w_db w)\<lparr>db_users := with_password (ur_ID u) hash (w_now w) (db_users (w_db w)),
       db_resets := mark_used (pr_ID row) (w_now w) (db_resets (w_db w))\<rparr>)"

lemma reset_apply_Inr_done:
  assumes "reset_apply e tid uid pw w = (Inr x, w')"
  shows "\<exists>hash salt. ext_bcrypt_generate e pw salt = Some hash \<and>
       w_db w' = (w_db w)\<lparr>db_users := with_password uid hash (w_now w) (db_users (w_db w)),
         db_resets := mark_used tid (w_now w) (db_resets (w_db w))\<rparr>"
  using reset_apply_cases [OF assms] by auto

lemma ResetPassword_cases:
  assumes "ResetPassword e code addr pw w = (r, w')"
  shows "(w_db w' = w_db w \<and> (\<exists>err. r = Inl err)) \<or> reset_done e code addr pw w (w_db w')"
  using assms unfolding ResetPassword_def
proof (cases rule: sbind_cases)
  case (failed err)
  then show ?thesis using quiet_same(1) [OF quiet_reset_check] by blast
next
  case (went_on ids w1)
  obtain tid uid where ids: "ids = (tid, uid)" by (cases ids)
  note same = quiet_same [OF quiet_reset_check went_on(1)]
  from reset_check_Inr [OF went_on(1) [unfolded ids]] obtain row u where f:
    "row \<in> set (db_resets (w_db w))" "pr_Code row = code" "pr_ID row = tid" "pr_UsedAt row = None" "w_now w < pr_ExpiresAt row"
    "u \<in> set (db_users (w_db w))" "ur_ID u = uid" "pr_UserID row = uid" "normalizeEmail e addr = Inr (ur_Email u)"
    "validatePassword pw = Inr ()" by blast
  have run: "reset_apply e tid uid pw w1 = (r, w')" using went_on(2) ids by simp
  from reset_apply_cases [OF run] show ?thesis
  proof (elim disjE exE conjE)
    fix hash salt assume "ext_bcrypt_generate e pw salt = Some hash"
      "w_db w' = (w_db w1)\<lparr>db_users := with_password uid hash (w_now w1) (db_users (w_db w1)),
         db_resets := mark_used tid (w_now w1) (db_resets (w_db w1))\<rparr>"
    with f same show ?thesis unfolding reset_done_def
      by (intro disjI2 exI [of _ row] exI [of _ u] exI [of _ hash] exI [of _ salt]) simp
  qed (use same in simp)
qed

lemma reset_check_used:
  assumes ok: "resets_ok (w_db w) n" and calm: "calm w" and row: "row \<in> set (db_resets (w_db w))" "pr_UsedAt row \<noteq> None"
    and pw: "validatePassword pw = Inr ()"
  shows "ResetPassword e (pr_Code row) addr pw w = (Inl (Sentinel ErrPasswordResetInvalid), w)"
proof -
  have f: "find (\<lambda>t. pr_Code t = pr_Code row) (db_resets (w_db w)) = Some row"
    using ok row by (intro find_unique) (auto simp: resets_ok_def)
  then have "reset_check e (pr_Code row) addr pw w = (Inl (Sentinel ErrPasswordResetInvalid), w)"
    using calm row(2) pw
    by (auto simp: reset_check_def run_simps Let_def sql_GetPasswordResetTokenByCode_def sql_GetUserByID_def query_calm find_row_def
        split: option.split sum.split)
  then show ?thesis by (simp add: ResetPassword_def run_simps)
qed

lemma users_ok_with_password: "users_ok d n \<Longrightarrow> users_ok (d\<lparr>db_users := with_password i h t (db_users d)\<rparr>) n"
  by (rule users_ok_same) (auto simp: with_password_def)

lemma users_ok_resets [simp]: "users_ok (d\<lparr>db_resets := rs\<rparr>) n = users_ok d n"
  by (simp add: users_ok_def)

section \<open>Properties\<close>

definition alice_reset :: reset_row where
  "alice_reset = \<lparr>pr_ID = 4, pr_UserID = 7, pr_Code = ''abc'', pr_ExpiresAt = 2000, pr_UsedAt = None, pr_CreatedAt = 900\<rparr>"

definition forgotten :: world where
  "forgotten = sample_world (initial_db\<lparr>db_users := [alice], db_user_roles := [(7, 1)], db_resets := [alice_reset]\<rparr>) 8"

lemma forgotten_ok: "resets_ok (w_db forgotten) (w_fresh forgotten)" "users_ok (w_db forgotten) (w_fresh forgotten)"
  by (simp_all add: forgotten_def sample_world_def resets_ok_def alice_reset_def alice_def users_ok_def initial_db_def
      handlePattern_def handle_char_def)

lemma forgotten_evals:
  "normalizeEmail sample_ext ''a@b.io'' = Inr ''a@b.io''" "validatePassword ''first-password'' = Inr ()"
  "validatePassword ''other-password'' = Inr ()" "ext_bcrypt_generate sample_ext p s = Some p"
  by (code_simp | simp add: sample_ext_def)+

lemma forgotten_reset:
  "ResetPassword sample_ext ''abc'' ''a@b.io'' ''first-password'' forgotten =
     (Inr (), forgotten\<lparr>w_db := (w_db forgotten)\<lparr>db_users := [alice\<lparr>ur_PasswordHash := ''first-password''\<rparr>],
       db_resets := [alice_reset\<lparr>pr_UsedAt := Some 1000\<rparr>]\<rparr>\<rparr>)"
  by (simp add: ResetPassword_def reset_check_def reset_apply_def run_simps forgotten_evals HashPassword_def rand_bytes_def
      external_def with_tx_def sql_GetPasswordResetTokenByCode_def sql_GetUserByID_def query_def find_row_def
      sql_SetUserPassword_def update_user_def sql_MarkPasswordResetTokenUsed_def Let_def forgotten_def sample_world_def
      alice_def alice_reset_def)

text \<open>C6.  \<open>ResetPassword\<close> is all or nothing under every sequence of faults.  It takes effect only with a
  code that was issued, was not used and has not expired, for the account the code was issued to, named
  by its own address, and with a password that meets the rules; then it sets that account's hash and marks
  that code, and nothing else.  After a success the code is refused.\<close>

theorem ResetPassword_correct:
  assumes "resets_ok (w_db w) (w_fresh w)" and "ResetPassword e code addr pw w = (r, w')"
  shows "((w_db w' = w_db w \<and> (\<exists>err. r = Inl err)) \<or> reset_done e code addr pw w (w_db w')) \<and>
    (r = Inr () \<longrightarrow> (\<forall>addr2 pw2 w2. w_db w2 = w_db w' \<and> w_faults w2 = [] \<and> validatePassword pw2 = Inr () \<longrightarrow>
       ResetPassword e code addr2 pw2 w2 = (Inl (Sentinel ErrPasswordResetInvalid), w2)))"
proof (intro conjI impI allI)
  show cases: "(w_db w' = w_db w \<and> (\<exists>err. r = Inl err)) \<or> reset_done e code addr pw w (w_db w')"
    by (rule ResetPassword_cases [OF assms(2)])
  fix addr2 pw2 and w2 :: world assume r: "r = Inr ()" and w2: "w_db w2 = w_db w' \<and> w_faults w2 = [] \<and> validatePassword pw2 = Inr ()"
  from cases r obtain row where row: "row \<in> set (db_resets (w_db w))" "pr_Code row = code"
    and db: "db_resets (w_db w') = mark_used (pr_ID row) (w_now w) (db_resets (w_db w))"
    unfolding reset_done_def by auto
  have ok: "resets_ok (w_db w2) (w_fresh w')" using keepsD [OF keeps_reset_methods(3) assms] w2 by simp
  have "row\<lparr>pr_UsedAt := Some (w_now w)\<rparr> \<in> set (db_resets (w_db w2))" using row(1) db w2 by (auto intro!: image_eqI [of _ _ row])
  from reset_check_used [OF ok _ this, of pw2 e addr2] row(2) w2
  show "ResetPassword e code addr2 pw2 w2 = (Inl (Sentinel ErrPasswordResetInvalid), w2)" by (simp add: calm_def)
qed

theorem ResetPassword_correct_witness:
  "\<exists>w2. reset_done sample_ext ''abc'' ''a@b.io'' ''first-password'' forgotten (w_db w2) \<and>
    ResetPassword sample_ext ''abc'' ''a@b.io'' ''other-password'' w2 = (Inl (Sentinel ErrPasswordResetInvalid), w2)"
proof -
  let ?w = "forgotten\<lparr>w_db := (w_db forgotten)\<lparr>db_users := [alice\<lparr>ur_PasswordHash := ''first-password''\<rparr>],
       db_resets := [alice_reset\<lparr>pr_UsedAt := Some 1000\<rparr>]\<rparr>\<rparr>"
  note c = ResetPassword_correct [OF forgotten_ok(1) forgotten_reset]
  have "w_faults ?w = []" by (simp add: forgotten_def sample_world_def)
  moreover have "db_resets (w_db ?w) \<noteq> db_resets (w_db forgotten)" by (simp add: forgotten_def sample_world_def alice_reset_def)
  then have "w_db ?w \<noteq> w_db forgotten" by metis
  ultimately show ?thesis using c forgotten_evals(3) by blast
qed

text \<open>After a reset the account signs in with the new password.\<close>

theorem reset_then_Authenticate:
  assumes "users_ok (w_db w) (w_fresh w)"
    and "\<forall>q salt hash. ext_bcrypt_generate e q salt = Some hash \<longrightarrow> ext_bcrypt_compare e hash q"
    and "ResetPassword e code addr pw w = (Inr x, w1)" and "w_db w2 = w_db w1" and "w_faults w2 = []"
    and "w_fresh w \<le> w_fresh w2" and "\<forall>u \<in> set (db_users (w_db w)). ur_IsActive u"
  shows "\<exists>u. Authenticate e addr pw w2 = (Inr u, w2) \<and> normalizeEmail e addr = Inr (user_Email u)"
proof -
  from ResetPassword_cases [OF assms(3)] have "reset_done e code addr pw w (w_db w2)" using assms(4) by auto
  then obtain row :: reset_row and u hash salt where u: "u \<in> set (db_users (w_db w))" "normalizeEmail e addr = Inr (ur_Email u)"
    "ext_bcrypt_generate e pw salt = Some hash" and db: "w_db w2 = (w_db w)\<lparr>db_users := with_password (ur_ID u) hash (w_now w)
      (db_users (w_db w)), db_resets := mark_used (pr_ID row) (w_now w) (db_resets (w_db w))\<rparr>"
    unfolding reset_done_def by blast
  let ?u = "u\<lparr>ur_PasswordHash := hash, ur_UpdatedAt := w_now w\<rparr>"
  have "users_ok (w_db w2) (w_fresh w)" unfolding db users_ok_resets by (rule users_ok_with_password [OF assms(1)])
  then have ok: "users_ok (w_db w2) (w_fresh w2)" using assms(6) users.mono by blast
  have mem: "?u \<in> set (db_users (w_db w2))" using u(1) db by (auto simp: with_password_def)
  have calm: "calm w2" using assms(5) by (simp add: calm_def)
  have "normalizeEmail e addr = Inr (ur_Email ?u)" using u(2) by simp
  from Authenticate_row [OF ok calm mem this, of pw] assms(2,7) u(1,2,3) show ?thesis by (auto simp: hydrated_def)
qed

theorem reset_then_Authenticate_witness:
  "\<exists>(w2 :: world) u. Authenticate sample_ext ''a@b.io'' ''first-password'' w2 = (Inr u, w2) \<and> user_Email u = ''a@b.io''"
proof -
  let ?w = "forgotten\<lparr>w_db := (w_db forgotten)\<lparr>db_users := [alice\<lparr>ur_PasswordHash := ''first-password''\<rparr>],
       db_resets := [alice_reset\<lparr>pr_UsedAt := Some 1000\<rparr>]\<rparr>\<rparr>"
  have b: "\<forall>q salt hash. ext_bcrypt_generate sample_ext q salt = Some hash \<longrightarrow> ext_bcrypt_compare sample_ext hash q"
    by (simp add: sample_ext_def)
  have "\<exists>u. Authenticate sample_ext ''a@b.io'' ''first-password'' ?w = (Inr u, ?w) \<and>
      normalizeEmail sample_ext ''a@b.io'' = Inr (user_Email u)"
    by (rule reset_then_Authenticate [OF forgotten_ok(2) b forgotten_reset refl])
      (simp_all add: forgotten_def sample_world_def alice_def)
  then obtain u where "Authenticate sample_ext ''a@b.io'' ''first-password'' ?w = (Inr u, ?w)"
    "normalizeEmail sample_ext ''a@b.io'' = Inr (user_Email u)" by blast
  then show ?thesis using forgotten_evals(1) by (intro exI [of _ ?w] exI [of _ u]) simp
qed

text \<open>The checks of \<open>ResetPassword\<close> are outside its transaction: when two requests with one code both
  check before either sets the password, both succeed, and one code is used twice.\<close>

theorem reset_code_used_twice:
  "\<exists>w ids w1 w2 w3 w4.
    reset_check sample_ext ''abc'' ''a@b.io'' ''first-password'' w = (Inr ids, w1) \<and>
    reset_check sample_ext ''abc'' ''a@b.io'' ''other-password'' w1 = (Inr ids, w2) \<and>
    reset_apply sample_ext (fst ids) (snd ids) ''first-password'' w2 = (Inr (), w3) \<and>
    reset_apply sample_ext (fst ids) (snd ids) ''other-password'' w3 = (Inr (), w4) \<and>
    map ur_PasswordHash (db_users (w_db w3)) = [''first-password''] \<and> map ur_PasswordHash (db_users (w_db w4)) = [''other-password'']"
proof -
  have c: "reset_check sample_ext ''abc'' ''a@b.io'' p forgotten = (Inr (4, 7), forgotten)" if "validatePassword p = Inr ()" for p
    using that by (simp add: reset_check_def run_simps forgotten_evals external_def sql_GetPasswordResetTokenByCode_def
        sql_GetUserByID_def query_def find_row_def Let_def forgotten_def sample_world_def alice_def alice_reset_def)
  have "\<exists>w3 w4. reset_apply sample_ext 4 7 ''first-password'' forgotten = (Inr (), w3) \<and>
    reset_apply sample_ext 4 7 ''other-password'' w3 = (Inr (), w4) \<and>
    map ur_PasswordHash (db_users (w_db w3)) = [''first-password''] \<and> map ur_PasswordHash (db_users (w_db w4)) = [''other-password'']"
    by (simp add: reset_apply_def run_simps forgotten_evals HashPassword_def rand_bytes_def external_def with_tx_def
        sql_SetUserPassword_def update_user_def sql_MarkPasswordResetTokenUsed_def forgotten_def sample_world_def
        alice_def alice_reset_def)
  then show ?thesis using c forgotten_evals(2,3) by fastforce
qed

end
