(* ===== verification/Games.thy ===== *)
theory Games
  imports Accounts
begin

text \<open>
  internal/service/game_service.go: the list of games an administrator keeps.  The identifiers come
  from the sequence of the table (\<open>w_serial\<close>), which never goes back, so an identifier is never
  given to a second game (\<open>games_ok\<close>).
\<close>

section \<open>The methods\<close>

record game =
  game_ID :: int
  game_Name :: string
  game_Status :: string
  game_CurrentTurn :: int
  game_CreatedAt :: int
  game_UpdatedAt :: int

definition mapGame :: "game_row \<Rightarrow> game" where
  "mapGame row = \<lparr>game_ID = gr_ID row, game_Name = gr_Name row, game_Status = gr_Status row,
     game_CurrentTurn = gr_CurrentTurn row, game_CreatedAt = gr_CreatedAt row, game_UpdatedAt = gr_UpdatedAt row\<rparr>"

definition normalizeGameName :: "string \<Rightarrow> goError + string" where
  "normalizeGameName name =
     (let normalized = TrimSpace name in if normalized = [] then Inl (Sentinel ErrInvalidGameName) else Inr normalized)"

definition CreateGame :: "string \<Rightarrow> game svc" where
  "CreateGame input =
     sbind (of_sum (normalizeGameName input)) (\<lambda>name.
     sbind (on_error (sql_CreateGame name) (Wrap ''create game'')) (\<lambda>row. sret (mapGame row)))"

definition GetGame :: "int \<Rightarrow> game svc" where
  "GetGame gameID =
     sbind (on_error (sql_GetGameByID gameID) (not_found_or ErrGameNotFound ''get game'')) (\<lambda>row. sret (mapGame row))"

definition ListGames :: "game list svc" where
  "ListGames = sbind (on_error sql_ListGames (Wrap ''list games'')) (\<lambda>rows. sret (map mapGame rows))"

definition DeleteGame :: "int \<Rightarrow> unit svc" where
  "DeleteGame gameID =
     sbind (on_error (sql_GetGameByID gameID) (not_found_or ErrGameNotFound ''get game'')) (\<lambda>_.
     on_error (sql_DeleteGame gameID) (Wrap ''delete game''))"

definition UpdateGame :: "int \<Rightarrow> unit svc" where
  "UpdateGame gameID = sfail (Sentinel ErrGameUpdateNotImplemented)"

section \<open>Invariant\<close>

text \<open>The games of a world: distinct identifiers below the sequence, names, and the checks of the table.\<close>

definition games_ok :: "world \<Rightarrow> bool" where
  "games_ok w \<longleftrightarrow> distinct (map gr_ID (db_games (w_db w))) \<and>
     (\<forall>g \<in> set (db_games (w_db w)). gr_ID g < w_serial w \<and> gr_Name g \<noteq> [] \<and>
        gr_Status g \<in> {''setup'', ''active'', ''completed''} \<and> 0 \<le> gr_CurrentTurn g)"

lemma CreateGame_cases:
  assumes "CreateGame input w = (r, w')"
  shows "(w_db w' = w_db w \<and> w_serial w' = w_serial w \<and> (\<exists>err. r = Inl err)) \<or>
    (\<exists>name row. normalizeGameName input = Inr name \<and> row = \<lparr>gr_ID = w_serial w, gr_Name = name, gr_Status = ''setup'',
        gr_CurrentTurn = 0, gr_CreatedAt = w_now w, gr_UpdatedAt = w_now w\<rparr> \<and>
       w_db w' = (w_db w)\<lparr>db_games := db_games (w_db w) @ [row]\<rparr> \<and> w_serial w' = w_serial w + 1 \<and>
       (r = Inr (mapGame row) \<or> (\<exists>err. r = Inl err)))"
  using assms unfolding CreateGame_def
  by (cases "normalizeGameName input")
    (auto simp: run_simps sql_CreateGame_def external_def Let_def split: list.splits fault.splits prod.splits sum.splits)

lemma normalizeGameName_Inr: "normalizeGameName input = Inr name \<Longrightarrow> name = TrimSpace input \<and> name \<noteq> []"
  by (auto simp: normalizeGameName_def Let_def split: if_splits)

lemma games_ok_Create:
  assumes "games_ok w" and "CreateGame input w = (r, w')"
  shows "games_ok w'"
  using CreateGame_cases [OF assms(2)]
proof (elim disjE exE conjE)
  assume "w_db w' = w_db w" "w_serial w' = w_serial w"
  with assms(1) show ?thesis by (simp add: games_ok_def)
next
  fix name and row :: game_row
  assume n: "normalizeGameName input = Inr name" and f: "w_db w' = (w_db w)\<lparr>db_games := db_games (w_db w) @ [row]\<rparr>"
    "w_serial w' = w_serial w + 1" "row = \<lparr>gr_ID = w_serial w, gr_Name = name, gr_Status = ''setup'',
        gr_CurrentTurn = 0, gr_CreatedAt = w_now w, gr_UpdatedAt = w_now w\<rparr>"
  have "gr_ID g < w_serial w + 1" if "g \<in> set (db_games (w_db w))" for g using assms(1) that by (fastforce simp: games_ok_def)
  with f normalizeGameName_Inr [OF n] assms(1) show ?thesis by (force simp: games_ok_def)
next
  fix name and row :: game_row and err
  assume n: "normalizeGameName input = Inr name" and f: "w_db w' = (w_db w)\<lparr>db_games := db_games (w_db w) @ [row]\<rparr>"
    "w_serial w' = w_serial w + 1" "row = \<lparr>gr_ID = w_serial w, gr_Name = name, gr_Status = ''setup'',
        gr_CurrentTurn = 0, gr_CreatedAt = w_now w, gr_UpdatedAt = w_now w\<rparr>"
  have "gr_ID g < w_serial w + 1" if "g \<in> set (db_games (w_db w))" for g using assms(1) that by (fastforce simp: games_ok_def)
  with f normalizeGameName_Inr [OF n] assms(1) show ?thesis by (force simp: games_ok_def)
qed

lemma games_ok_Delete: "games_ok w \<Longrightarrow> games_ok (snd (DeleteGame i w))"
  by (auto simp: games_ok_def DeleteGame_def run_simps sql_GetGameByID_def query_def sql_DeleteGame_def exec_def external_def
      split: list.splits fault.splits prod.splits sum.splits intro: distinct_map_filter)

lemma find_game: "games_ok w \<Longrightarrow> g \<in> set (db_games (w_db w)) \<Longrightarrow> find (\<lambda>g'. gr_ID g' = gr_ID g) (db_games (w_db w)) = Some g"
  by (intro find_unique) (auto simp: games_ok_def)

lemma GetGame_row:
  "games_ok w \<Longrightarrow> calm w \<Longrightarrow> g \<in> set (db_games (w_db w)) \<Longrightarrow> GetGame (gr_ID g) w = (Inr (mapGame g), w)"
  by (simp add: GetGame_def run_simps sql_GetGameByID_def query_calm find_row_def find_game)

lemma GetGame_absent:
  "calm w \<Longrightarrow> i \<notin> gr_ID ` set (db_games (w_db w)) \<Longrightarrow> GetGame i w = (Inl (Sentinel ErrGameNotFound), w)"
proof -
  assume c: "calm w" and i: "i \<notin> gr_ID ` set (db_games (w_db w))"
  then have "find (\<lambda>g. gr_ID g = i) (db_games (w_db w)) = None" by (auto simp: find_None_iff)
  with c show ?thesis by (simp add: GetGame_def run_simps sql_GetGameByID_def query_calm find_row_def not_found_or_def)
qed

lemma DeleteGame_row:
  "games_ok w \<Longrightarrow> calm w \<Longrightarrow> g \<in> set (db_games (w_db w)) \<Longrightarrow> DeleteGame (gr_ID g) w =
     (Inr (), w\<lparr>w_db := (w_db w)\<lparr>db_games := filter (\<lambda>g'. gr_ID g' \<noteq> gr_ID g) (db_games (w_db w))\<rparr>\<rparr>)"
  by (simp add: DeleteGame_def run_simps sql_GetGameByID_def query_calm find_row_def find_game sql_DeleteGame_def exec_calm)

lemma sorted_wrt_insort:
  fixes f :: "'a \<Rightarrow> int"
  shows "sorted_wrt (\<lambda>a b. f a < f b \<or> f a = f b \<and> R a b) ys \<Longrightarrow> \<forall>y \<in> set ys. R x y \<Longrightarrow>
     sorted_wrt (\<lambda>a b. f a < f b \<or> f a = f b \<and> R a b) (insort_key f x ys)"
  by (induction ys) (fastforce simp: set_insort_key)+

lemma sorted_wrt_sort_key:
  fixes f :: "'a \<Rightarrow> int"
  shows "sorted_wrt R xs \<Longrightarrow> sorted_wrt (\<lambda>a b. f a < f b \<or> f a = f b \<and> R a b) (sort_key f xs)"
  by (induction xs) (auto intro!: sorted_wrt_insort)

text \<open>The list has every game once, the newest first and those of one moment by falling identifier.\<close>

lemma ListGames_calm:
  assumes "games_ok w" and "calm w"
  shows "\<exists>gs. ListGames w = (Inr gs, w) \<and> mset gs = image_mset mapGame (mset (db_games (w_db w))) \<and>
    sorted_wrt (\<lambda>g h. game_CreatedAt h < game_CreatedAt g \<or> game_CreatedAt g = game_CreatedAt h \<and> game_ID h \<le> game_ID g) gs"
proof -
  let ?xs = "sort_key (\<lambda>g. - gr_ID g) (db_games (w_db w))" and ?ys = "sort_key (\<lambda>g. - gr_CreatedAt g)"
  have "sorted_wrt (\<lambda>g h. - gr_ID g \<le> - gr_ID h) ?xs"
    using sorted_sort_key [of "\<lambda>g. - gr_ID g" "db_games (w_db w)"] by (simp only: sorted_wrt_map)
  from sorted_wrt_sort_key [OF this, of "\<lambda>g. - gr_CreatedAt g"]
  have "sorted_wrt (\<lambda>g h. gr_CreatedAt h < gr_CreatedAt g \<or> gr_CreatedAt g = gr_CreatedAt h \<and> gr_ID h \<le> gr_ID g) (?ys ?xs)"
    by simp
  then show ?thesis using assms(2)
    by (intro exI [of _ "map mapGame (?ys ?xs)"])
      (simp add: ListGames_def run_simps sql_ListGames_def query_calm sorted_wrt_map mapGame_def)
qed

text \<open>An error either changed nothing or lost the reply to a complete insertion.\<close>

lemma CreateGame_lost:
  assumes "CreateGame input w = (Inl err, w')"
  shows "w_db w' = w_db w \<or>
    (\<exists>name row. normalizeGameName input = Inr name \<and> err = Wrap ''create game'' ConnError \<and>
       row = \<lparr>gr_ID = w_serial w, gr_Name = name, gr_Status = ''setup'', gr_CurrentTurn = 0,
         gr_CreatedAt = w_now w, gr_UpdatedAt = w_now w\<rparr> \<and>
       w_db w' = (w_db w)\<lparr>db_games := db_games (w_db w) @ [row]\<rparr>)"
  using assms unfolding CreateGame_def
  by (cases "normalizeGameName input")
    (auto simp: run_simps sql_CreateGame_def external_def Let_def split: list.splits fault.splits prod.splits sum.splits)

text \<open>What a client sees of a game that was just added, as long as nothing else happens.\<close>

lemma created_game:
  assumes ok: "games_ok w1" and db: "w_db w1 = d\<lparr>db_games := db_games d @ [row]\<rparr>" and fresh: "gr_ID row \<notin> gr_ID ` set (db_games d)"
  shows "\<forall>w2. w_db w2 = w_db w1 \<and> w_serial w2 = w_serial w1 \<and> w_faults w2 = [] \<longrightarrow>
    GetGame (gr_ID row) w2 = (Inr (mapGame row), w2) \<and>
    (\<exists>gs. ListGames w2 = (Inr gs, w2) \<and> mset gs = add_mset (mapGame row) (image_mset mapGame (mset (db_games d))) \<and>
       sorted_wrt (\<lambda>a b. game_CreatedAt b < game_CreatedAt a \<or> game_CreatedAt a = game_CreatedAt b \<and> game_ID b \<le> game_ID a) gs) \<and>
    DeleteGame (gr_ID row) w2 = (Inr (), w2\<lparr>w_db := d\<rparr>) \<and>
    GetGame (gr_ID row) (w2\<lparr>w_db := d\<rparr>) = (Inl (Sentinel ErrGameNotFound), w2\<lparr>w_db := d\<rparr>)"
proof (intro allI impI)
  fix w2 :: world assume w2: "w_db w2 = w_db w1 \<and> w_serial w2 = w_serial w1 \<and> w_faults w2 = []"
  then have ok2: "games_ok w2" and calm: "calm w2" and mem: "row \<in> set (db_games (w_db w2))"
    using ok db by (simp_all add: games_ok_def calm_def)
  have "filter (\<lambda>g'. gr_ID g' \<noteq> gr_ID row) (db_games d) = db_games d" using fresh by (intro filter_True) (metis imageI)
  then have del: "(w_db w2)\<lparr>db_games := filter (\<lambda>g'. gr_ID g' \<noteq> gr_ID row) (db_games (w_db w2))\<rparr> = d" using w2 db by simp
  have gone: "GetGame (gr_ID row) (w2\<lparr>w_db := d\<rparr>) = (Inl (Sentinel ErrGameNotFound), w2\<lparr>w_db := d\<rparr>)"
    using fresh calm by (intro GetGame_absent) simp_all
  from ListGames_calm [OF ok2 calm] GetGame_row [OF ok2 calm mem] DeleteGame_row [OF ok2 calm mem] del gone w2 db
  show "GetGame (gr_ID row) w2 = (Inr (mapGame row), w2) \<and>
    (\<exists>gs. ListGames w2 = (Inr gs, w2) \<and> mset gs = add_mset (mapGame row) (image_mset mapGame (mset (db_games d))) \<and>
       sorted_wrt (\<lambda>a b. game_CreatedAt b < game_CreatedAt a \<or> game_CreatedAt a = game_CreatedAt b \<and> game_ID b \<le> game_ID a) gs) \<and>
    DeleteGame (gr_ID row) w2 = (Inr (), w2\<lparr>w_db := d\<rparr>) \<and>
    GetGame (gr_ID row) (w2\<lparr>w_db := d\<rparr>) = (Inl (Sentinel ErrGameNotFound), w2\<lparr>w_db := d\<rparr>)" by simp
qed

section \<open>Properties\<close>

text \<open>C26.  \<open>CreateGame\<close> is all or nothing and never gives an identifier twice: when it reports an error it has changed
  no table, or it has added one complete game and the reply of the database was lost.  A created game has the trimmed,
  non-empty name, starts in setup at turn 0, is found by its identifier, is listed with all others newest first,
  and deleting it restores the table and makes it unknown.\<close>

theorem game_lifecycle:
  assumes ok: "games_ok w" and run: "CreateGame input w = (r, w1)"
  shows "games_ok w1 \<and>
    (case r of
       Inl err \<Rightarrow> w_db w1 = w_db w \<or>
         (\<exists>row. err = Wrap ''create game'' ConnError \<and> w_db w1 = (w_db w)\<lparr>db_games := db_games (w_db w) @ [row]\<rparr> \<and>
            gr_Name row = TrimSpace input \<and> gr_Name row \<noteq> [] \<and> gr_Status row = ''setup'' \<and> gr_CurrentTurn row = 0 \<and>
            gr_ID row \<notin> gr_ID ` set (db_games (w_db w)))
     | Inr g \<Rightarrow> game_Name g = TrimSpace input \<and> game_Name g \<noteq> [] \<and> game_Status g = ''setup'' \<and> game_CurrentTurn g = 0 \<and>
         game_ID g \<notin> gr_ID ` set (db_games (w_db w)) \<and>
         (\<forall>w2. w_db w2 = w_db w1 \<and> w_serial w2 = w_serial w1 \<and> w_faults w2 = [] \<longrightarrow>
            GetGame (game_ID g) w2 = (Inr g, w2) \<and>
            (\<exists>gs. ListGames w2 = (Inr gs, w2) \<and> mset gs = add_mset g (image_mset mapGame (mset (db_games (w_db w)))) \<and>
               sorted_wrt (\<lambda>a b. game_CreatedAt b < game_CreatedAt a \<or> game_CreatedAt a = game_CreatedAt b \<and> game_ID b \<le> game_ID a) gs) \<and>
            DeleteGame (game_ID g) w2 = (Inr (), w2\<lparr>w_db := w_db w\<rparr>) \<and>
            GetGame (game_ID g) (w2\<lparr>w_db := w_db w\<rparr>) = (Inl (Sentinel ErrGameNotFound), w2\<lparr>w_db := w_db w\<rparr>)))"
proof -
  have ok1: "games_ok w1" by (rule games_ok_Create [OF ok run])
  show ?thesis
  proof (cases r)
    case (Inl err)
    from CreateGame_lost [OF run [unfolded Inl]] show ?thesis
    proof (elim disjE exE conjE)
      fix name row
      assume n: "normalizeGameName input = Inr name" and err: "err = Wrap ''create game'' ConnError"
        and row: "row = \<lparr>gr_ID = w_serial w, gr_Name = name, gr_Status = ''setup'', gr_CurrentTurn = 0,
          gr_CreatedAt = w_now w, gr_UpdatedAt = w_now w\<rparr>"
        and db: "w_db w1 = (w_db w)\<lparr>db_games := db_games (w_db w) @ [row]\<rparr>"
      have "gr_ID row \<notin> gr_ID ` set (db_games (w_db w))" using ok row by (auto simp: games_ok_def)
      with normalizeGameName_Inr [OF n] err row db ok1 Inl show ?thesis by (auto intro!: exI [of _ row])
    qed (use ok1 Inl in simp)
  next
    case (Inr g)
    with CreateGame_cases [OF run] obtain name row where name: "normalizeGameName input = Inr name"
      and row: "row = \<lparr>gr_ID = w_serial w, gr_Name = name, gr_Status = ''setup'',
        gr_CurrentTurn = 0, gr_CreatedAt = w_now w, gr_UpdatedAt = w_now w\<rparr>"
      and db: "w_db w1 = (w_db w)\<lparr>db_games := db_games (w_db w) @ [row]\<rparr>" and g: "g = mapGame row" by auto
    have fresh: "gr_ID row \<notin> gr_ID ` set (db_games (w_db w))" using ok row by (auto simp: games_ok_def)
    from created_game [OF ok1 db fresh] name row g fresh Inr ok1 show ?thesis
      by (auto dest!: normalizeGameName_Inr simp: mapGame_def)
  qed
qed

theorem game_lifecycle_witness:
  "games_ok (sample_world initial_db 5) \<and>
   (\<exists>g w1. CreateGame '' Orion '' (sample_world initial_db 5) = (Inr g, w1) \<and> game_Name g = ''Orion'' \<and>
      DeleteGame (game_ID g) w1 = (Inr (), w1\<lparr>w_db := initial_db\<rparr>))"
proof
  show ok: "games_ok (sample_world initial_db 5)" by (simp add: games_ok_def sample_world_def initial_db_def)
  let ?row = "\<lparr>gr_ID = w_serial (sample_world initial_db 5), gr_Name = ''Orion'', gr_Status = ''setup'', gr_CurrentTurn = 0,
    gr_CreatedAt = w_now (sample_world initial_db 5), gr_UpdatedAt = w_now (sample_world initial_db 5)\<rparr>"
  have n: "normalizeGameName '' Orion '' = Inr ''Orion''" by code_simp
  have "\<exists>w1. CreateGame '' Orion '' (sample_world initial_db 5) = (Inr (mapGame ?row), w1) \<and> w_faults w1 = []"
    using n by (simp add: CreateGame_def run_simps sql_CreateGame_def external_def Let_def sample_world_def)
  then obtain w1 where run: "CreateGame '' Orion '' (sample_world initial_db 5) = (Inr (mapGame ?row), w1)" and f: "w_faults w1 = []" by blast
  from game_lifecycle [OF ok run] f
  have "DeleteGame (game_ID (mapGame ?row)) w1 = (Inr (), w1\<lparr>w_db := w_db (sample_world initial_db 5)\<rparr>)" by simp
  with run show "\<exists>g w1. CreateGame '' Orion '' (sample_world initial_db 5) = (Inr g, w1) \<and> game_Name g = ''Orion'' \<and>
      DeleteGame (game_ID g) w1 = (Inr (), w1\<lparr>w_db := initial_db\<rparr>)"
    by (intro exI [of _ "mapGame ?row"] exI [of _ w1]) (simp add: mapGame_def sample_world_def)
qed

end
