(* ===== verification/System.thy ===== *)
theory System
  imports Tokens Resets Games
begin

text \<open>
  The services together.  Every service method is a rule of the step relation \<open>serves\<close>; the
  environment moves the clock, brings faults and refills the entropy.  \<open>ResetPassword\<close> may
  also run in its two parts with other requests between them.  A method touches its own tables and,
  for users, those that refer to them; the frames say so, and the invariants of all tables together
  follow for every reachable world by rule induction.
\<close>

section \<open>What each service leaves alone\<close>

abbreviation accounts :: "db \<Rightarrow> role_row list \<times> user_row list \<times> (uuid \<times> int) list" where
  "accounts d \<equiv> (db_roles d, db_users d, db_user_roles d)"

lemma frames_sum_case [frames_intros]:
  "(\<And>e. frames p (f e)) \<Longrightarrow> (\<And>a. frames p (g a)) \<Longrightarrow> frames p (case x of Inl e \<Rightarrow> f e | Inr a \<Rightarrow> g a)"
  by (cases x) simp_all

text \<open>Statements on the users' roles.\<close>

lemma frames_setRoles [frames_intros]:
  assumes "\<And>d ps. p (d\<lparr>db_user_roles := ps\<rparr>) = p d"
  shows "frames p (setRoles e i roles)"
proof -
  have "frames p (add_role_list i rs)" for rs
    by (induction rs) (auto intro!: frames_intros assms)
  then show ?thesis unfolding setRoles_def by (intro frames_intros) (simp_all add: assms)
qed

text \<open>The account methods leave the keys and the games alone.\<close>

abbreviation keys_games :: "db \<Rightarrow> key_row list \<times> game_row list" where
  "keys_games d \<equiv> (db_keys d, db_games d)"

lemma frames_update_password_gen:
  assumes "\<And>d us. p (d\<lparr>db_users := us\<rparr>) = p d"
  shows "frames p (update_password e i password)"
  unfolding update_password_def by (intro frames_intros frames_users) (simp_all add: assms)

lemma frames_delete_user: "frames (\<lambda>d. keys_games d) (sql_DeleteUser i)"
  unfolding sql_DeleteUser_def by (rule frames_exec) (simp add: delete_user_def)

lemma frames_account_methods [frames_intros]:
  "frames (\<lambda>d. keys_games d) (Register e h m pw)" "frames (\<lambda>d. keys_games d) (CreateUser e h m pw a roles)"
  "frames (\<lambda>d. keys_games d) (UpdateProfile e i h m)" "frames (\<lambda>d. keys_games d) (UpdateUser e inp)"
  "frames (\<lambda>d. keys_games d) (DeleteUser actor i)" "frames (\<lambda>d. keys_games d) (SetPasswordByEmail e m pw)"
  "frames (\<lambda>d. keys_games d) (createTesterRow e h m hash)"
  unfolding Register_def CreateUser_def UpdateProfile_def UpdateUser_def Let_def DeleteUser_def SetPasswordByEmail_def
    createTesterRow_def
  by ((intro frames_intros frames_delete_user frames_users frames_setRoles frames_update_password_gen; simp)+)

lemma frames_EnsureBootstrapAdmin [frames_intros]: "frames (\<lambda>d. keys_games d) (EnsureBootstrapAdmin e h m pw)"
  unfolding EnsureBootstrapAdmin_def Let_def
  by (intro frames_intros)

section \<open>Users and the tables that refer to them\<close>

definition refs_ok :: "db \<Rightarrow> uuid \<Rightarrow> bool" where
  "refs_ok d n \<longleftrightarrow> invitations_ok d n \<and> resets_ok d n"

interpretation refs: table_invariant refs_ok
  by unfold_locales (auto simp: refs_ok_def intro: invitations.mono resets.mono)

lemma refs_ok_roles [simp]: "refs_ok (d\<lparr>db_user_roles := ps\<rparr>) n = refs_ok d n"
  by (simp add: refs_ok_def invitations_ok_def resets_ok_def)

lemma refs_ok_users:
  assumes "refs_ok d n" and "ur_ID ` set (db_users d) \<subseteq> ur_ID ` set us" and "n \<le> k"
  shows "refs_ok (d\<lparr>db_users := us\<rparr>) k"
  using assms unfolding refs_ok_def invitations_ok_def resets_ok_def by (fastforce dest: bspec)

lemma refs_ok_update:
  assumes "refs_ok (w_db w) n" and "\<And>u. ur_ID (f u) = ur_ID u"
  shows "refs_ok (w_db (update_user i f w)) n"
proof -
  let ?us = "map (\<lambda>u. if ur_ID u = i then (f u)\<lparr>ur_UpdatedAt := w_now w\<rparr> else u) (db_users (w_db w))"
  have "map ur_ID ?us = map ur_ID (db_users (w_db w))" using assms(2) by simp
  then have "ur_ID ` set ?us = ur_ID ` set (db_users (w_db w))" by (metis set_map)
  then show ?thesis using refs_ok_users [OF assms(1), of ?us n] by (simp add: update_user_def)
qed

lemma update_user_fresh [simp]: "w_fresh (update_user i f w) = w_fresh w"
  by (simp add: update_user_def)

lemma refs_ok_delete:
  assumes "refs_ok d n"
  shows "refs_ok (delete_user i d) n"
proof -
  let ?clear = "\<lambda>v. if ir_UsedBy v = Some i then v\<lparr>ir_UsedBy := None\<rparr> else v"
  let ?vs = "filter (\<lambda>v. ir_InvitedBy v \<noteq> i) (db_invitations d)"
  have "map ir_ID (map ?clear ?vs) = map ir_ID ?vs" "map ir_Code (map ?clear ?vs) = map ir_Code ?vs" by auto
  then have d: "distinct (map ir_ID (map ?clear ?vs))" "distinct (map ir_Code (map ?clear ?vs))"
    using assms by (simp_all only: refs_ok_def invitations_ok_def distinct_map_filter)
  have v: "ir_ID v < n \<and> ir_InvitedBy v \<in> ur_ID ` set (filter (\<lambda>u. ur_ID u \<noteq> i) (db_users d)) \<and>
      set_option (ir_UsedBy v) \<subseteq> ur_ID ` set (filter (\<lambda>u. ur_ID u \<noteq> i) (db_users d)) \<and> (ir_UsedBy v \<noteq> None \<longrightarrow> ir_UsedAt v \<noteq> None)"
    if v: "v \<in> set (map ?clear ?vs)" for v
  proof -
    obtain v0 where v0: "v0 \<in> set (db_invitations d)" "ir_InvitedBy v0 \<noteq> i" "v = ?clear v0" using v by auto
    have ok: "ir_ID v0 < n" "ir_InvitedBy v0 \<in> ur_ID ` set (db_users d)" "set_option (ir_UsedBy v0) \<subseteq> ur_ID ` set (db_users d)"
      "ir_UsedBy v0 \<noteq> None \<longrightarrow> ir_UsedAt v0 \<noteq> None" using assms v0(1) by (simp_all add: refs_ok_def invitations_ok_def)
    have img: "x \<in> ur_ID ` set (filter (\<lambda>u. ur_ID u \<noteq> i) (db_users d))" if "x \<in> ur_ID ` set (db_users d)" "x \<noteq> i" for x
      using that by auto
    show ?thesis using ok v0 img by (cases "ir_UsedBy v0") auto
  qed
  have "invitations_ok (delete_user i d) n" using d v by (simp add: invitations_ok_def delete_user_def)
  moreover have "resets_ok (delete_user i d) n"
    using assms by (auto simp: refs_ok_def resets_ok_def delete_user_def distinct_map_filter)
  ultimately show ?thesis by (simp add: refs_ok_def)
qed

lemma keeps_refs_user_statements [keeps_intros]:
  "keeps refs_ok (sql_CreateUser e h m pw a)" "keeps refs_ok (sql_UpdateUserProfile e i h m)"
  "keeps refs_ok (sql_AdminUpdateUser e i h m a)" "keeps refs_ok (sql_SetUserPassword i hash)" "keeps refs_ok (sql_DeleteUser i)"
  "keeps refs_ok (sql_RemoveAllRolesFromUser i)" "keeps refs_ok (sql_AddRoleToUser i name)"
proof -
  show "keeps refs_ok (sql_CreateUser e h m pw a)"
    unfolding sql_CreateUser_def by (rule keeps_external) (auto simp: keeps_def Let_def split: option.split intro!: refs_ok_users)
  have "keeps refs_ok (update_user_checked e i h m f)" if "\<And>u. ur_ID (f u) = ur_ID u" for f :: "user_row \<Rightarrow> user_row" and i h m
    unfolding update_user_checked_def
    by (rule keeps_external) (auto simp: keeps_def that split: option.split intro!: refs_ok_update)
  then show "keeps refs_ok (sql_UpdateUserProfile e i h m)" "keeps refs_ok (sql_AdminUpdateUser e i h m a)"
    unfolding sql_UpdateUserProfile_def sql_AdminUpdateUser_def by simp_all
  show "keeps refs_ok (sql_SetUserPassword i hash)"
    unfolding sql_SetUserPassword_def
    by (rule keeps_external) (auto simp: keeps_def intro!: refs_ok_update)
  show "keeps refs_ok (sql_DeleteUser i)"
    unfolding sql_DeleteUser_def by (rule keeps_exec) (rule refs_ok_delete)
  show "keeps refs_ok (sql_RemoveAllRolesFromUser i)"
    unfolding sql_RemoveAllRolesFromUser_def by (rule keeps_exec) simp
  show "keeps refs_ok (sql_AddRoleToUser i name)"
    unfolding sql_AddRoleToUser_def by (rule keeps_external) (simp add: keeps_def add_roles_def)
qed

lemma keeps_refs_setRoles [keeps_intros]: "keeps refs_ok (setRoles e i roles)"
proof -
  have "keeps refs_ok (add_role_list i rs)" for rs by (induction rs) (auto intro!: keeps_intros)
  then show ?thesis unfolding setRoles_def by (intro keeps_intros)
qed

lemma keeps_refs_methods [keeps_intros]:
  "keeps refs_ok (Register e h m pw)" "keeps refs_ok (CreateUser e h m pw a roles)" "keeps refs_ok (UpdateProfile e i h m)"
  "keeps refs_ok (UpdateUser e inp)" "keeps refs_ok (DeleteUser actor i)" "keeps refs_ok (SetPasswordByEmail e m pw)"
  "keeps refs_ok (createTesterRow e h m hash)"
  unfolding Register_def CreateUser_def UpdateProfile_def UpdateUser_def Let_def DeleteUser_def SetPasswordByEmail_def
    createTesterRow_def update_password_def
  by (intro keeps_intros refs.keeps_with_tx)+

lemma keeps_refs_EnsureBootstrapAdmin [keeps_intros]: "keeps refs_ok (EnsureBootstrapAdmin e h m pw)"
  unfolding EnsureBootstrapAdmin_def Let_def
  by (intro keeps_intros) (auto intro!: keeps_intros split: sum.split)

section \<open>The other services\<close>

abbreviation all_but_keys where
  "all_but_keys d \<equiv> (accounts d, db_invitations d, db_resets d, db_games d)"

abbreviation all_but_invitations where
  "all_but_invitations d \<equiv> (accounts d, db_keys d, db_resets d, db_games d)"

abbreviation all_but_games where
  "all_but_games d \<equiv> (accounts d, db_keys d, db_invitations d, db_resets d)"

lemmas frames_key_reads [frames_intros] = reads_keys [THEN frames_reads]

lemma frames_key_statements [frames_intros]:
  "frames (\<lambda>d. all_but_keys d) (sql_CreateJWTSigningKey tt alg secret st until)"
  "frames (\<lambda>d. all_but_keys d) (sql_RetireJWTSigningKey i until')" "frames (\<lambda>d. all_but_keys d) (sql_DeleteJWTSigningKey i)"
  unfolding sql_CreateJWTSigningKey_def sql_RetireJWTSigningKey_def sql_DeleteJWTSigningKey_def
  by (auto intro!: frames_external frames_exec simp: Let_def split: option.split)

lemma frames_key_methods [frames_intros]:
  "frames (\<lambda>d. all_but_keys d) (CreateSigningKey e tt g)" "frames (\<lambda>d. all_but_keys d) (ExpireSigningKey i g)"
  "frames (\<lambda>d. all_but_keys d) (DeleteSigningKey i)"
  unfolding CreateSigningKey_def retire_active_def ExpireSigningKey_def DeleteSigningKey_def
  by (auto intro!: frames_intros split: sum.split prod.split)

lemma frames_EnsureReady [frames_intros]: "frames (\<lambda>d. all_but_keys d) (EnsureReady e)"
proof -
  have "frames (\<lambda>d. all_but_keys d) (ensure_ready_loop e types)" for types
    by (induction types) (auto intro!: frames_intros simp: ActiveSigningKey_def split: sum.split)
  then show ?thesis unfolding EnsureReady_def by blast
qed

lemmas frames_invitation_reads [frames_intros] =
  reads_sql_invitations [THEN frames_reads] reads_invitations [THEN frames_reads]

lemma frames_invitation_statements [frames_intros]:
  "frames (\<lambda>d. all_but_invitations d) (sql_CreateInvitation e addr code u x)"
  "frames (\<lambda>d. all_but_invitations d) (sql_MarkInvitationUsed i u)"
  "frames (\<lambda>d. all_but_invitations d) (sql_UpdateInvitationExpiry i x)"
  "frames (\<lambda>d. all_but_invitations d) (sql_ArchiveInvitation i)"
  unfolding sql_CreateInvitation_def sql_MarkInvitationUsed_def sql_UpdateInvitationExpiry_def sql_ArchiveInvitation_def
  by (auto intro!: frames_external simp: Let_def update_invitation_def split: option.split)

lemma frames_invitation_methods [frames_intros]:
  "frames (\<lambda>d. all_but_invitations d) (CreateAndSend e cfg u addr base)"
  "frames (\<lambda>d. all_but_invitations d) (ResendInvitation e cfg i base)"
  "frames (\<lambda>d. all_but_invitations d) (ArchiveInvitation i)" "frames (\<lambda>d. all_but_invitations d) (RedeemInvitation code u)"
  unfolding CreateAndSend_def ResendInvitation_def ArchiveInvitation_def RedeemInvitation_def
  by (intro frames_intros)+

lemmas frames_reset_reads [frames_intros] = reads_resets [THEN frames_reads]

lemma quiet_frames: "quiet m \<Longrightarrow> frames p m"
  unfolding frames_def using quiet_same by (metis quietD surjective_pairing world.select_convs(4) world.update_convs(6) world.surjective)

lemma frames_reset_methods [frames_intros]:
  assumes "\<And>d us. p (d\<lparr>db_users := us\<rparr>) = p d" and "\<And>d ts. p (d\<lparr>db_resets := ts\<rparr>) = p d"
  shows "frames p (SendReset e cfg u base)" and "frames p (SendResetByEmail e cfg addr base)"
    and "frames p (reset_apply e tid uid pw)" and "frames p (ResetPassword e code addr pw)"
proof -
  have sql: "frames p (sql_CreatePasswordResetToken u code x)" "frames p (sql_MarkPasswordResetTokenUsed i)" for u code x i
    unfolding sql_CreatePasswordResetToken_def sql_MarkPasswordResetTokenUsed_def
    by (auto intro!: frames_external simp: Let_def assms)
  show "frames p (SendReset e cfg u base)" "frames p (SendResetByEmail e cfg addr base)"
    unfolding SendReset_def SendResetByEmail_def issueReset_def by (intro frames_intros sql)+
  show app: "frames p (reset_apply e tid uid pw)" for tid uid
    unfolding reset_apply_def by (intro frames_intros sql frames_users) (simp add: assms)
  then show "frames p (ResetPassword e code addr pw)"
    unfolding ResetPassword_def by (auto intro!: frames_intros quiet_frames [OF quiet_reset_check] split: prod.split)
qed

section \<open>The step relation\<close>

text \<open>
  One rule per service method; the arguments are whatever a client sends.  The last rules are the
  environment: time passes, the connection to the database behaves as it likes, and the random
  source goes on.
\<close>

inductive serves :: "ext \<Rightarrow> mailgunConfig \<Rightarrow> world \<Rightarrow> world \<Rightarrow> bool" for e cfg where
  register: "serves e cfg w (snd (Register e handle email password w))"
| authenticate: "serves e cfg w (snd (Authenticate e email password w))"
| get_user: "serves e cfg w (snd (GetUser i w))"
| list_users: "serves e cfg w (snd (ListUsers w))"
| list_roles: "serves e cfg w (snd (ListRoles w))"
| update_profile: "serves e cfg w (snd (UpdateProfile e i handle email w))"
| create_user: "serves e cfg w (snd (CreateUser e handle email password active roles w))"
| update_any_user: "serves e cfg w (snd (UpdateUser e inp w))"
| delete_any_user: "serves e cfg w (snd (DeleteUser actor i w))"
| set_password: "serves e cfg w (snd (SetPasswordByEmail e email password w))"
| bootstrap: "serves e cfg w (snd (EnsureBootstrapAdmin e handle email password w))"
| seed_testers: "SeedTesters e target domain hash w = Some (result, w') \<Longrightarrow> serves e cfg w w'"
| ensure_ready: "serves e cfg w (snd (EnsureReady e w))"
| active_key: "serves e cfg w (snd (ActiveSigningKey e tokenType w))"
| verification_key: "serves e cfg w (snd (VerificationKey e i tokenType t w))"
| create_key: "serves e cfg w (snd (CreateSigningKey e tokenType grace w))"
| expire_key: "serves e cfg w (snd (ExpireSigningKey i grace w))"
| delete_key: "serves e cfg w (snd (DeleteSigningKey i w))"
| invite: "serves e cfg w (snd (CreateAndSend e cfg inviter email base w))"
| resend: "serves e cfg w (snd (ResendInvitation e cfg i base w))"
| archive: "serves e cfg w (snd (ArchiveInvitation i w))"
| list_invitations: "serves e cfg w (snd (ListInvitations filt w))"
| validate_code: "serves e cfg w (snd (ValidateCode code w))"
| redeem: "serves e cfg w (snd (RedeemInvitation code i w))"
| send_reset: "serves e cfg w (snd (SendReset e cfg i base w))"
| send_reset_by_email: "serves e cfg w (snd (SendResetByEmail e cfg email base w))"
| reset_password: "serves e cfg w (snd (ResetPassword e code email password w))"
| reset_checked: "serves e cfg w (snd (reset_check e code email password w))"
| reset_applied: "serves e cfg w (snd (reset_apply e token i password w))"
| create_game: "serves e cfg w (snd (CreateGame name w))"
| get_game: "serves e cfg w (snd (GetGame g w))"
| list_games: "serves e cfg w (snd (ListGames w))"
| delete_game: "serves e cfg w (snd (DeleteGame g w))"
| request_access: "serves e cfg w (snd (AccessRequest_Send e cfg adminEmail request w))"
| time_passes: "w_now w \<le> t \<Longrightarrow> serves e cfg w (w\<lparr>w_now := t\<rparr>)"
| faults_come: "serves e cfg w (w\<lparr>w_faults := fs\<rparr>)"
| entropy_comes: "serves e cfg w (w\<lparr>w_entropy := s\<rparr>)"

text \<open>What the server starts from: the tables the migrations made.\<close>

definition starts :: "world \<Rightarrow> bool" where
  "starts w \<longleftrightarrow> w_db w = initial_db"

inductive reachable :: "ext \<Rightarrow> mailgunConfig \<Rightarrow> world \<Rightarrow> bool" for e cfg where
  start: "starts w \<Longrightarrow> reachable e cfg w"
| step: "reachable e cfg w \<Longrightarrow> serves e cfg w w' \<Longrightarrow> reachable e cfg w'"

section \<open>Every step keeps all invariants\<close>

definition world_ok :: "world \<Rightarrow> bool" where
  "world_ok w \<longleftrightarrow> users_ok (w_db w) (w_fresh w) \<and> keys_ok (w_db w) (w_fresh w) \<and> refs_ok (w_db w) (w_fresh w) \<and> games_ok w"

text \<open>The invariants depend on their tables only.\<close>

lemma keys_ok_same: "db_keys d' = db_keys d \<Longrightarrow> keys_ok d n \<Longrightarrow> n \<le> k \<Longrightarrow> keys_ok d' k"
  by (metis (no_types, lifting) keys.mono keys_ok_def)

lemma games_ok_same: "db_games (w_db w') = db_games (w_db w) \<Longrightarrow> w_serial w' = w_serial w \<Longrightarrow> games_ok w \<Longrightarrow> games_ok w'"
  by (simp add: games_ok_def)

lemma users_ok_accounts: "accounts d' = accounts d \<Longrightarrow> users_ok d n \<Longrightarrow> n \<le> k \<Longrightarrow> users_ok d' k"
  using users.mono by (simp add: users_ok_def)

text \<open>A method that keeps the invariant of the world and never loses the last administrator.\<close>

definition preserves :: "'a svc \<Rightarrow> bool" where
  "preserves m \<longleftrightarrow> (\<forall>w. world_ok w \<longrightarrow>
     world_ok (snd (m w)) \<and> (admins (w_db w) \<noteq> {} \<longrightarrow> admins (w_db (snd (m w))) \<noteq> {}))"

named_theorems preserves_intros "service methods that keep the invariant of the world"

lemma preserves_accounts:
  assumes "keeps users_ok m" and "keeps refs_ok m" and "keeps admin_ok m" and "frames (\<lambda>d. keys_games d) m"
  shows "preserves m"
  unfolding preserves_def
proof (intro allI impI conjI)
  fix w :: world assume ok: "world_ok w"
  obtain r w' where m: "m w = (r, w')" by force
  have u: "users_ok (w_db w') (w_fresh w')" "w_fresh w \<le> w_fresh w'"
    using keepsD [OF assms(1) _ m] ok by (simp_all add: world_ok_def)
  have f: "db_keys (w_db w') = db_keys (w_db w)" "db_games (w_db w') = db_games (w_db w)" "w_serial w' = w_serial w"
    using framesD [OF assms(4) m] frames_serial [OF assms(4) m] by simp_all
  show "world_ok (snd (m w))"
    using u ok keepsD [OF assms(2) _ m] keys_ok_same [OF f(1) _ u(2)] games_ok_same [OF f(2,3)] by (simp add: m world_ok_def)
  show "admins (w_db (snd (m w))) \<noteq> {}" if "admins (w_db w) \<noteq> {}"
    using keepsD [OF assms(3) _ m] that ok by (simp add: m admin_ok_def world_ok_def)
qed

lemma refs_ok_same:
  assumes "accounts d' = accounts d" and "db_invitations d' = db_invitations d" and "db_resets d' = db_resets d"
  shows "refs_ok d' n = refs_ok d n"
  using assms by (simp add: refs_ok_def invitations_ok_def resets_ok_def)

lemma preserves_keys:
  assumes "keeps keys_ok m" and "frames (\<lambda>d. all_but_keys d) m"
  shows "preserves m"
  unfolding preserves_def
proof (intro allI impI conjI)
  fix w :: world assume ok: "world_ok w"
  obtain r w' where m: "m w = (r, w')" by force
  have k: "keys_ok (w_db w') (w_fresh w')" "w_fresh w \<le> w_fresh w'"
    using keepsD [OF assms(1) _ m] ok by (simp_all add: world_ok_def)
  have f: "accounts (w_db w') = accounts (w_db w)" "db_invitations (w_db w') = db_invitations (w_db w)"
    "db_resets (w_db w') = db_resets (w_db w)" "db_games (w_db w') = db_games (w_db w)" "w_serial w' = w_serial w"
    using framesD [OF assms(2) m] frames_serial [OF assms(2) m] by simp_all
  have "users_ok (w_db w') (w_fresh w')" using users_ok_accounts [OF f(1) _ k(2)] ok by (simp add: world_ok_def)
  moreover have "refs_ok (w_db w') (w_fresh w')"
    using refs_ok_same [OF f(1,2,3)] refs.mono [OF _ k(2)] ok by (simp add: world_ok_def)
  ultimately show "world_ok (snd (m w))" using k(1) games_ok_same [OF f(4,5)] ok by (simp add: m world_ok_def)
  show "admins (w_db (snd (m w))) \<noteq> {}" if "admins (w_db w) \<noteq> {}"
    using that f(1) by (simp add: m admins_def roles_of_def)
qed

lemma preserves_invitations:
  assumes "keeps invitations_ok m" and "frames (\<lambda>d. all_but_invitations d) m"
  shows "preserves m"
  unfolding preserves_def
proof (intro allI impI conjI)
  fix w :: world assume ok: "world_ok w"
  obtain r w' where m: "m w = (r, w')" by force
  have i: "invitations_ok (w_db w') (w_fresh w')" "w_fresh w \<le> w_fresh w'"
    using keepsD [OF assms(1) _ m] ok by (simp_all add: world_ok_def refs_ok_def)
  have f: "accounts (w_db w') = accounts (w_db w)" "db_keys (w_db w') = db_keys (w_db w)"
    "db_resets (w_db w') = db_resets (w_db w)" "db_games (w_db w') = db_games (w_db w)" "w_serial w' = w_serial w"
    using framesD [OF assms(2) m] frames_serial [OF assms(2) m] by simp_all
  have "users_ok (w_db w') (w_fresh w')" using users_ok_accounts [OF f(1) _ i(2)] ok by (simp add: world_ok_def)
  moreover have "resets_ok (w_db w') (w_fresh w')"
    using f(1,3) resets.mono [OF _ i(2), of "w_db w"] ok by (simp add: world_ok_def refs_ok_def resets_ok_def)
  ultimately show "world_ok (snd (m w))"
    using i keys_ok_same [OF f(2) _ i(2)] games_ok_same [OF f(4,5)] ok by (simp add: m world_ok_def refs_ok_def)
  show "admins (w_db (snd (m w))) \<noteq> {}" if "admins (w_db w) \<noteq> {}"
    using that f(1) by (simp add: m admins_def roles_of_def)
qed

lemma preserves_reads [preserves_intros]: "reads m \<Longrightarrow> preserves m"
  by (simp add: preserves_def reads_def world_ok_def games_ok_def)

lemma preserves_account_methods [preserves_intros]:
  "preserves (Register e h m pw)" "preserves (CreateUser e h m pw a roles)" "preserves (UpdateProfile e i h m)"
  "preserves (UpdateUser e inp)" "preserves (DeleteUser actor i)" "preserves (SetPasswordByEmail e m pw)"
  "preserves (EnsureBootstrapAdmin e h m pw)" "preserves (createTesterRow e h m hash)"
  by (rule preserves_accounts; intro keeps_intros frames_intros admin_Register admin_CreateUser admin_UpdateProfile
      admin_UpdateUser admin_DeleteUser admin_SetPasswordByEmail admin_EnsureBootstrapAdmin admin_createTesterRow)+

lemma preserves_key_methods [preserves_intros]:
  "preserves (CreateSigningKey e tt g)" "preserves (ExpireSigningKey i g)" "preserves (DeleteSigningKey i)"
  "preserves (EnsureReady e)"
  by (rule preserves_keys; intro keeps_intros frames_intros)+

lemma preserves_invitation_methods [preserves_intros]:
  "preserves (CreateAndSend e cfg u addr base)" "preserves (ResendInvitation e cfg i base)"
  "preserves (ArchiveInvitation i)" "preserves (RedeemInvitation code u)"
  by (rule preserves_invitations; intro keeps_intros frames_intros)+

lemma keeps_reset_statements:
  "keeps users_ok (sql_CreatePasswordResetToken u code x)" "keeps users_ok (sql_MarkPasswordResetTokenUsed i)"
  "keeps refs_ok (sql_CreatePasswordResetToken u code x)" "keeps refs_ok (sql_MarkPasswordResetTokenUsed i)"
proof -
  show "keeps users_ok (sql_CreatePasswordResetToken u code x)" "keeps users_ok (sql_MarkPasswordResetTokenUsed i)"
    unfolding sql_CreatePasswordResetToken_def sql_MarkPasswordResetTokenUsed_def
    by (rule keeps_external; auto simp: keeps_def Let_def intro: users.mono)+
  have inv: "invitations_ok (d\<lparr>db_resets := ts\<rparr>) n = invitations_ok d n" for d ts n by (simp add: invitations_ok_def)
  show "keeps refs_ok (sql_CreatePasswordResetToken u code x)"
    unfolding sql_CreatePasswordResetToken_def
    by (rule keeps_external)
      (auto simp: keeps_def Let_def refs_ok_def inv resets_ok_def less_Suc_eq intro: invitations.mono)
  show "keeps refs_ok (sql_MarkPasswordResetTokenUsed i)"
    unfolding sql_MarkPasswordResetTokenUsed_def
    by (rule keeps_external) (simp add: keeps_def refs_ok_def inv resets_ok_mark)
qed

lemma keeps_resets_from_statements:
  assumes sql: "\<And>u code x. keeps ok (sql_CreatePasswordResetToken u code x)" "\<And>i. keeps ok (sql_MarkPasswordResetTokenUsed i)"
      "\<And>i h. keeps ok (sql_SetUserPassword i h)" and inv: "table_invariant ok"
  shows "keeps ok (SendReset e cfg u base)" and "keeps ok (SendResetByEmail e cfg addr base)"
    and "keeps ok (reset_apply e tid uid pw)" and "keeps ok (ResetPassword e code addr pw)"
proof -
  have issue: "keeps ok (issueReset e cfg u addr base)" for u addr
    unfolding issueReset_def by (intro keeps_intros sql)
  show "keeps ok (SendReset e cfg u base)" "keeps ok (SendResetByEmail e cfg addr base)"
    unfolding SendReset_def SendResetByEmail_def by (auto intro!: keeps_intros issue split: sum.split)
  show app: "keeps ok (reset_apply e tid uid pw)" for tid uid
    unfolding reset_apply_def by (intro keeps_intros sql table_invariant.keeps_with_tx [OF inv])
  then show "keeps ok (ResetPassword e code addr pw)"
    unfolding ResetPassword_def by (auto intro!: keeps_intros split: prod.split)
qed

lemmas keeps_users_resets = keeps_resets_from_statements [OF keeps_reset_statements(1,2) keeps_sql_SetUserPassword users.table_invariant_axioms]
lemmas keeps_refs_resets = keeps_resets_from_statements [OF keeps_reset_statements(3,4) keeps_refs_user_statements(4) refs.table_invariant_axioms]

lemma preserves_reset_methods [preserves_intros]:
  "preserves (SendReset e cfg u base)" "preserves (SendResetByEmail e cfg addr base)"
  "preserves (reset_apply e tid uid pw)" "preserves (ResetPassword e code addr pw)"
  by (rule preserves_accounts; (intro keeps_users_resets keeps_refs_resets keeps_admin_frames frames_intros; simp))+

text \<open>The loop that seeds testers keeps whatever its steps keep.\<close>

lemma seed_loop_keeps:
  assumes step: "\<And>h m w. P w \<Longrightarrow> P (snd (createTesterRow e h m hash w))"
    and run: "seed_loop e domain hash need created nxt w = Some (x, w')" and "P w"
  shows "P w'"
proof -
  let ?Q = "\<lambda>e' (domain' :: string) hash' (need' :: int) (created' :: int) (nxt' :: int) w r.
    e' = e \<and> hash' = hash \<and> P w \<longrightarrow> P (snd r)"
  have "?Q e domain hash need created nxt w (x, w')"
  proof (rule seed_loop.raw_induct [where P = ?Q, OF _ run])
    fix loop e' domain' hash' need' created' nxt' w r
    assume IH: "\<And>e' domain' hash' need' created' nxt' w r. loop e' domain' hash' need' created' nxt' w = Some r \<Longrightarrow>
        ?Q e' domain' hash' need' created' nxt' w r"
      and run: "(if created' < need' then
          (case createTesterRow e' (tester_handle nxt') (tester_email domain' nxt') hash' w of
             (Inl err, w') \<Rightarrow>
               if errors_is err (Sentinel ErrHandleTaken) \<or> errors_is err (Sentinel ErrEmailTaken)
               then loop e' domain' hash' need' created' (nxt' + 1) w' else Some ((created', Some err), w')
           | (Inr u, w') \<Rightarrow> loop e' domain' hash' need' (created' + 1) (nxt' + 1) w')
          else Some ((created', None), w)) = Some r"
    show "?Q e' domain' hash' need' created' nxt' w r"
    proof (intro impI, elim conjE)
      assume e: "e' = e" "hash' = hash" and w: "P w"
      obtain r1 w1 where c: "createTesterRow e (tester_handle nxt') (tester_email domain' nxt') hash w = (r1, w1)" by force
      have "P w1" using step [OF w, of "tester_handle nxt'" "tester_email domain' nxt'"] c by simp
      with run e w c IH show "P (snd r)" by (auto split: if_splits sum.splits)
    qed
  qed
  then show ?thesis using \<open>P w\<close> by simp
qed

abbreviation holds_on :: "bool \<Rightarrow> world \<Rightarrow> bool" where
  "holds_on a w \<equiv> world_ok w \<and> (a \<longrightarrow> admins (w_db w) \<noteq> {})"

lemma preservesD: "preserves m \<Longrightarrow> holds_on a w \<Longrightarrow> holds_on a (snd (m w))"
  by (auto simp: preserves_def)

lemma SeedTesters_keeps:
  assumes "SeedTesters e target domain hash w = Some (x, w')" and "holds_on a w"
  shows "holds_on a w'"
proof -
  obtain r1 w1 where q: "on_error (sql_CountUsersByRole RoleTester) (Wrap ''count tester role'') w = (r1, w1)" by force
  have rd: "reads (on_error (sql_CountUsersByRole RoleTester) (Wrap ''count tester role''))" by (intro reads_intros)
  then have w1: "holds_on a w1" using preservesD [OF preserves_reads assms(2)] q by (metis snd_conv)
  have step: "holds_on a v \<Longrightarrow> holds_on a (snd (createTesterRow e h m hash v))" for h m v
    by (rule preservesD [OF preserves_account_methods(8)])
  have loop: "seed_loop e domain hash need created nxt w1 = Some (x, w') \<Longrightarrow> holds_on a w'" for need created nxt
    using seed_loop_keeps [of "holds_on a", OF step _ w1] by blast
  show ?thesis
    using assms q w1 loop by (auto simp: SeedTesters_def split: if_splits sum.splits)
qed

lemma game_methods_frame:
  "all_but_games (w_db (snd (CreateGame name w))) = all_but_games (w_db w)"
  "all_but_games (w_db (snd (DeleteGame g w))) = all_but_games (w_db w)"
  "w_fresh (snd (CreateGame name w)) = w_fresh w" "w_fresh (snd (DeleteGame g w)) = w_fresh w"
  by (auto simp: CreateGame_def DeleteGame_def run_simps sql_CreateGame_def sql_GetGameByID_def sql_DeleteGame_def query_def
      exec_def external_def Let_def of_sum_def split: list.split fault.split sum.split prod.split)

lemma preserves_from_games:
  assumes "\<And>w. all_but_games (w_db (snd (m w))) = all_but_games (w_db w)" and "\<And>w. w_fresh (snd (m w)) = w_fresh w"
    and "\<And>w. games_ok w \<Longrightarrow> games_ok (snd (m w))"
  shows "preserves m"
  unfolding preserves_def
proof (intro allI impI conjI)
  fix w :: world assume ok: "world_ok w"
  have f: "accounts (w_db (snd (m w))) = accounts (w_db w)" "db_invitations (w_db (snd (m w))) = db_invitations (w_db w)"
    "db_resets (w_db (snd (m w))) = db_resets (w_db w)" "db_keys (w_db (snd (m w))) = db_keys (w_db w)"
    using assms(1) [of w] by simp_all
  show "world_ok (snd (m w))"
    using ok assms(3) users_ok_accounts [OF f(1) _ order_refl] keys_ok_same [OF f(4) _ order_refl] refs_ok_same [OF f(1,2,3)]
    by (simp add: world_ok_def assms(2))
  show "admins (w_db (snd (m w))) \<noteq> {}" if "admins (w_db w) \<noteq> {}" using that f(1) by (simp add: admins_def roles_of_def)
qed

lemma preserves_games [preserves_intros]: "preserves (CreateGame name)" "preserves (DeleteGame g)"
proof -
  have "games_ok w \<Longrightarrow> games_ok (snd (CreateGame name w))" for w by (rule games_ok_Create [of _ name "fst (CreateGame name w)"]) simp_all
  then show "preserves (CreateGame name)" by (intro preserves_from_games game_methods_frame)
  show "preserves (DeleteGame g)" by (intro preserves_from_games game_methods_frame games_ok_Delete)
qed

lemma reads_services [preserves_intros]:
  "reads (Authenticate e m pw)" "reads ListUsers" "reads ListRoles" "reads (ActiveSigningKey e tt)"
  "reads (VerificationKey e i tt t)" "reads (reset_check e code addr pw)" "reads (GetGame g)" "reads ListGames"
proof -
  show "reads (Authenticate e m pw)" "reads ListUsers" "reads ListRoles" "reads (ActiveSigningKey e tt)"
    unfolding Authenticate_def ListUsers_def ListRoles_def ActiveSigningKey_def by (intro reads_intros)+
  show "reads (VerificationKey e i tt t)"
    unfolding VerificationKey_def Let_def by (auto intro!: reads_intros split: option.split)
  show "reads (reset_check e code addr pw)"
    unfolding reads_def by (metis quietD [OF quiet_reset_check] surjective_pairing world.select_convs(1,3,4) world.surjective world.update_convs(6))
  show "reads (GetGame g)" "reads ListGames"
    unfolding GetGame_def sql_GetGameByID_def ListGames_def sql_ListGames_def by (intro reads_intros)+
qed

lemma serves_keeps: "serves e cfg w w' \<Longrightarrow> holds_on a w \<Longrightarrow> holds_on a w'"
proof (induction rule: serves.induct)
  case (seed_testers target domain hash w result w')
  from SeedTesters_keeps [OF this] show ?case .
next
  case (time_passes w t)
  then show ?case by (simp add: world_ok_def games_ok_def)
next
  case (faults_come w fs)
  then show ?case by (simp add: world_ok_def games_ok_def)
next
  case (entropy_comes w s)
  then show ?case by (simp add: world_ok_def games_ok_def)
qed (rule preservesD, intro preserves_intros reads_services reads_intros, assumption)+

lemma starts_ok: "starts w \<Longrightarrow> world_ok w"
  by (simp add: starts_def world_ok_def users_ok_initial sample_key_ok(2) refs_ok_def invitations_ok_def resets_ok_def games_ok_def)
    (simp add: initial_db_def)

text \<open>The first administrator of an installation.\<close>

lemma first_admin:
  "admins (w_db (snd (CreateUser sample_ext ''alice'' ''a@b.io'' ''password1'' True [''admin''] (sample_world initial_db 7)))) \<noteq> {}"
proof -
  have n: "normalizeHandle sample_ext ''alice'' = Inr ''alice''" "normalizeEmail sample_ext ''a@b.io'' = Inr ''a@b.io''"
    "validatePassword ''password1'' = Inr ()" "normalizeRoles sample_ext [''admin''] = [''user'', ''admin'']"
    "normalizeRoles sample_ext [''user'', ''admin''] = [''user'', ''admin'']"
    "user_violation sample_ext initial_db None ''alice'' ''a@b.io'' = None" by code_simp+
  have g: "ext_bcrypt_generate sample_ext p s = Some p" for p s by (simp add: sample_ext_def)
  have roles: "filter (\<lambda>r. rr_Name r = ''user'') (db_roles initial_db) = [\<lparr>rr_ID = 1, rr_Name = ''user'', rr_Description = ''Authenticated user''\<rparr>]"
    "filter (\<lambda>r. rr_Name r = ''admin'') (db_roles initial_db) = [\<lparr>rr_ID = 2, rr_Name = ''admin'', rr_Description = ''Administrator''\<rparr>]"
    "\<exists>r \<in> set (db_roles initial_db). rr_Name r = ''user''" "\<exists>r \<in> set (db_roles initial_db). rr_Name r = ''admin''"
    "db_user_roles initial_db = []" "db_users initial_db = []"
    by (simp_all add: initial_db_def)
  have "db_user_roles (w_db (snd (CreateUser sample_ext ''alice'' ''a@b.io'' ''password1'' True [''admin''] (sample_world initial_db 7)))) =
      [(7, 1), (7, 2)]"
    by (simp add: CreateUser_def run_simps n g HashPassword_def rand_bytes_def external_def sample_world_def
        with_tx_def sql_CreateUser_def Let_def setRoles_def sql_RemoveAllRolesFromUser_def exec_def roles
        sql_AddRoleToUser_def add_roles_def GetUser_def sql_GetUserByID_def query_def find_row_def hydrateUser_def
        sql_ListRoleNamesByUser_def)
  then show ?thesis by (auto simp: admins_def roles_of_def)
qed

lemma first_admin_reachable:
  "reachable e cfg (snd (CreateUser e ''alice'' ''a@b.io'' ''password1'' True [''admin''] (sample_world initial_db 7)))"
  by (rule reachable.step [OF reachable.start create_user]) (simp add: starts_def sample_world_def)

section \<open>Properties\<close>

text \<open>C2.  In every reachable world all tables are well formed together: identifiers, handles, addresses and codes are
  unique, at most one signing key of a type is active, every user an invitation, a reset token or a role names exists,
  and games have distinct identifiers below the sequence; whatever is requested, fails or interleaves.\<close>

theorem reachable_worlds_ok:
  assumes "reachable e cfg w"
  shows "world_ok w \<and> (\<forall>w'. serves e cfg w w' \<longrightarrow> world_ok w')"
proof -
  have "world_ok w" using assms
    by (induction rule: reachable.induct) (auto simp: starts_ok dest: serves_keeps [where a = False])
  then show ?thesis using serves_keeps [where a = False] by blast
qed

theorem reachable_worlds_ok_witness:
  "world_ok (snd (CreateUser sample_ext ''alice'' ''a@b.io'' ''password1'' True [''admin''] (sample_world initial_db 7)))"
  using reachable_worlds_ok [OF first_admin_reachable] by blast

text \<open>C3.  Once there is an administrator there always is one: no sequence of requests, in any order and with
  any faults, removes the last account with the role.\<close>

theorem administrators_remain:
  assumes "reachable e cfg w" and "admins (w_db w) \<noteq> {}" and "(serves e cfg)\<^sup>*\<^sup>* w w'"
  shows "admins (w_db w') \<noteq> {}"
proof -
  have "world_ok w" using assms(1)
    by (induction rule: reachable.induct) (auto simp: starts_ok dest: serves_keeps [where a = False])
  with assms(2) have w: "holds_on True w" by simp
  from assms(3) have "holds_on True w'"
    by (induction rule: rtranclp_induct) (rule w, erule (1) serves_keeps)
  then show ?thesis by simp
qed

theorem administrators_remain_witness:
  "admins (w_db (snd (DeleteUser 9 7 (snd (CreateUser sample_ext ''alice'' ''a@b.io'' ''password1'' True [''admin''] (sample_world initial_db 7)))))) \<noteq> {}"
proof (rule administrators_remain [OF first_admin_reachable])
  show "admins (w_db (snd (CreateUser sample_ext ''alice'' ''a@b.io'' ''password1'' True [''admin''] (sample_world initial_db 7)))) \<noteq> {}"
    by (rule first_admin)
qed (rule r_into_rtranclp, rule delete_any_user)

end
