(* ===== verification/Handlers.thy ===== *)
theory Handlers
  imports System
begin

text \<open>
  internal/handler: what the web pages and the JSON API do with a request.  A handler reads the
  request and the viewer a middleware put into its context, calls services, and answers with a
  reply and cookies.  The views of view.go are the constructors of \<open>viewData\<close>; the templates that
  print them, the JSON decoder and the printing of times are parameters (\<open>site\<close>).
\<close>

section \<open>Contexts and replies\<close>

record viewer =
  vw_ID :: uuid
  vw_Handle :: string
  vw_Email :: string
  vw_IsActive :: bool
  vw_Roles :: "string list"

definition guestViewer :: viewer where
  "guestViewer = \<lparr>vw_ID = 0, vw_Handle = [], vw_Email = [], vw_IsActive = False, vw_Roles = [''guest'']\<rparr>"

definition HasRole :: "viewer \<Rightarrow> string \<Rightarrow> bool" where
  "HasRole v role \<longleftrightarrow> list_ex (\<lambda>current. current = role) (vw_Roles v)"

text \<open>What the handlers read of a request, besides what the middleware of the sessions reads.\<close>

record webRequest =
  wr_Session :: request
  wr_Form :: "(string \<times> string list) list"
  wr_Query :: "(string \<times> string) list"
  wr_ID :: string
  wr_Body :: string
  wr_RealIP :: string

record echoContext =
  cx_Request :: webRequest
  cx_Claims :: "jwtClaims option"
  cx_Viewer :: "viewer option"

definition CurrentViewer :: "echoContext \<Rightarrow> viewer \<times> bool" where
  "CurrentViewer c = (case cx_Viewer c of None \<Rightarrow> (guestViewer, False) | Some v \<Rightarrow> (v, True))"

definition FormValue :: "echoContext \<Rightarrow> string \<Rightarrow> string" where
  "FormValue c key = (case map_of (wr_Form (cx_Request c)) key of Some (v # _) \<Rightarrow> v | _ \<Rightarrow> [])"

definition QueryParam :: "echoContext \<Rightarrow> string \<Rightarrow> string" where
  "QueryParam c key = (case map_of (wr_Query (cx_Request c)) key of Some v \<Rightarrow> v | None \<Rightarrow> [])"

record baseViewData =
  bv_Title :: string
  bv_CurrentPath :: string
  bv_Flash :: string
  bv_CurrentUser :: viewer

record registerForm =
  rf_Handle :: string
  rf_Email :: string

record adminUserForm =
  auf_ID :: uuid
  auf_Handle :: string
  auf_Email :: string
  auf_Password :: string
  auf_IsActive :: bool
  auf_Roles :: "string \<Rightarrow> bool"

record adminUserFormView =
  afv_Heading :: string
  afv_SubmitLabel :: string
  afv_Action :: string
  afv_CancelURL :: string
  afv_Form :: adminUserForm
  afv_RoleOptions :: "(string \<times> string) list"
  afv_Error :: string

text \<open>The view data, without the fields that stay at their zero value in every use.\<close>

datatype viewData =
    HomeView baseViewData
  | InviteRegisterView baseViewData registerForm string string string
  | SignInView baseViewData string string bool
  | ProfileView baseViewData string string string
  | AdminUsersView baseViewData "user list"
  | AdminUserFormView baseViewData adminUserFormView
  | AdminInvitationsView baseViewData "(invitation \<times> string) list" string "(string \<times> string) list"
  | AdminInviteFormView baseViewData string string
  | ResetPasswordView baseViewData string string string
  | ForgotPasswordView baseViewData string bool
  | RequestAccessView baseViewData string string string bool

record apiLoginResponse =
  al_AccessToken :: string
  al_RefreshToken :: string
  al_AccessExpiry :: string
  al_RefreshExpiry :: string

record apiGameResponse =
  ag_ID :: int
  ag_Name :: string
  ag_Status :: string
  ag_CurrentTurn :: int
  ag_CreatedAt :: string
  ag_UpdatedAt :: string

datatype reply =
    Plain response
  | Rendered nat string viewData
  | LoginBody nat apiLoginResponse
  | GameBody nat apiGameResponse
  | GamesBody nat "apiGameResponse list"
  | CreatedBody nat int
  | HealthBody nat string string
  | NoContent nat
  | ErrNotFound

text \<open>The installation: the libraries, the configuration and what is not modelled of the standard library.\<close>

record site =
  st_JWT :: jwtlib
  st_Ext :: ext
  st_Manager :: manager
  st_Mailgun :: mailgunConfig
  st_BaseURL :: string
  st_AdminEmail :: string
  st_RequestAccessEnabled :: bool
  st_LoginBody :: "string \<Rightarrow> (string \<times> string) option"
  st_GameBody :: "string \<Rightarrow> string option"
  st_RFC3339 :: "int \<Rightarrow> string"
  st_Version :: string

type_synonym handler = "echoContext \<Rightarrow> world \<Rightarrow> (reply \<times> cookie list) \<times> world"

definition answer :: "reply \<Rightarrow> world \<Rightarrow> (reply \<times> cookie list) \<times> world" where
  "answer r w = ((r, []), w)"

section \<open>view.go\<close>

definition baseView :: "echoContext \<Rightarrow> string \<Rightarrow> baseViewData" where
  "baseView c title = \<lparr>bv_Title = title, bv_CurrentPath = rq_Path (wr_Session (cx_Request c)),
     bv_Flash = QueryParam c ''flash'', bv_CurrentUser = fst (CurrentViewer c)\<rparr>"

definition serviceMessage :: "goError \<Rightarrow> string" where
  "serviceMessage err =
     (if errors_is err (Sentinel ErrInvalidCredentials) then ''The email address or password was incorrect.''
      else if errors_is err (Sentinel ErrEmailTaken) then ''That email address is already in use.''
      else if errors_is err (Sentinel ErrHandleTaken) then ''That handle is already in use.''
      else if errors_is err (Sentinel ErrInvalidHandle)
        then ''handle must be 3-32 characters and use lowercase letters, numbers, or underscores''
      else if errors_is err (Sentinel ErrInvalidEmail) then ''Enter a valid email address.''
      else if errors_is err (Sentinel ErrInvalidPassword) then ''password must be at least 8 characters''
      else if errors_is err (Sentinel ErrInactiveUser) then ''This account has been deactivated.''
      else if errors_is err (Sentinel ErrLastAdmin) then ''at least one active administrator is required''
      else if errors_is err (Sentinel ErrCannotDeleteSelf) then ''administrators cannot delete their own account''
      else if errors_is err (Sentinel ErrUserNotFound) then ''That user could not be found.''
      else if errors_is err (Sentinel ErrInvitationNotFound) then ''That invitation code is invalid.''
      else if errors_is err (Sentinel ErrInvitationUsed) then ''That invitation has already been used.''
      else if errors_is err (Sentinel ErrInvitationExpired) then ''That invitation has expired.''
      else if errors_is err (Sentinel ErrInvitationEmail) then ''The email address does not match the invitation.''
      else if errors_is err (Sentinel ErrMailgunNotConfigured)
        then ''Mailgun settings must be configured before sending invitations.''
      else if errors_is err (Sentinel ErrPasswordResetInvalid)
        then ''That password reset link is invalid, expired, or the email does not match.''
      else ''Something went wrong. Please try again.'')"

text \<open>\<open>url.QueryEscape\<close>.\<close>

definition upper_hex :: "nat \<Rightarrow> char" where
  "upper_hex n = char_of (if n < 10 then 48 + n else 55 + n)"

definition unreserved :: "char \<Rightarrow> bool" where
  "unreserved c \<longleftrightarrow> (let n = of_char c :: nat in
     (97 \<le> n \<and> n \<le> 122) \<or> (65 \<le> n \<and> n \<le> 90) \<or> (48 \<le> n \<and> n \<le> 57) \<or> c \<in> {CHR ''-'', CHR ''_'', CHR ''.'', CHR ''~''})"

definition QueryEscape :: "string \<Rightarrow> string" where
  "QueryEscape s = concat (map (\<lambda>c.
     if unreserved c then [c] else if c = CHR '' '' then ''+''
     else [CHR ''%'', upper_hex (of_char c div 16), upper_hex (of_char c mod 16)]) s)"

definition withFlash :: "string \<Rightarrow> string \<Rightarrow> string" where
  "withFlash path message = (if message = [] then path else path @ ''?flash='' @ QueryEscape message)"

definition adminFormFromUser :: "user \<Rightarrow> adminUserForm" where
  "adminFormFromUser u = \<lparr>auf_ID = user_ID u, auf_Handle = user_Handle u, auf_Email = user_Email u, auf_Password = [],
     auf_IsActive = user_IsActive u, auf_Roles = (\<lambda>role. role \<in> set (user_Roles u))\<rparr>"

section \<open>auth.go\<close>

text \<open>
  \<open>issueSession\<close> writes the answer of a failure itself and returns nil all the same, so its callers go
  on to redirect; the response is committed by then, and what was written first stands.
\<close>

definition issueSession :: "site \<Rightarrow> uuid \<Rightarrow> world \<Rightarrow> (reply option \<times> cookie list) \<times> world" where
  "issueSession S userID w =
     (case IssueTokens (st_JWT S) (st_Ext S) (st_Manager S) userID w of
        (Inl _, w1) \<Rightarrow> ((Some (Plain (TextResponse 500 ''could not create session'')), []), w1)
      | (Inr pair, w1) \<Rightarrow> ((None, SetAuthCookies (st_Manager S) (w_now w1) pair), w1))"

definition first_reply :: "reply option \<times> cookie list \<Rightarrow> reply \<Rightarrow> reply \<times> cookie list" where
  "first_reply p r = (case fst p of None \<Rightarrow> r | Some r0 \<Rightarrow> r0, snd p)"

definition ShowRegister :: "site \<Rightarrow> handler" where
  "ShowRegister S c w =
     (let code = QueryParam c ''code'' in
      if code = [] then answer (Plain (Redirect ''/signin'')) w
      else case ValidateCode code w of
        (Inl err, w1) \<Rightarrow> answer (Rendered 200 ''public/register''
          (InviteRegisterView (baseView c ''Register'') \<lparr>rf_Handle = [], rf_Email = []\<rparr> [] [] (serviceMessage err))) w1
      | (Inr iv, w1) \<Rightarrow> answer (Rendered 200 ''public/register''
          (InviteRegisterView (baseView c ''Register'') \<lparr>rf_Handle = [], rf_Email = []\<rparr> code (iv_Email iv) [])) w1)"

definition RegisterPage :: "site \<Rightarrow> handler" where
  "RegisterPage S c w =
     (let code = FormValue c ''code''; e = st_Ext S in
      if code = [] then answer (Plain (Redirect ''/signin'')) w
      else
        let form = \<lparr>rf_Handle = FormValue c ''handle'', rf_Email = FormValue c ''email''\<rparr>;
            view = (\<lambda>email err. Rendered 422 ''public/register''
              (InviteRegisterView (baseView c ''Register'') form code email (serviceMessage err)))
        in
        case ValidateCode code w of
          (Inl err, w1) \<Rightarrow> answer (view [] err) w1
        | (Inr iv, w1) \<Rightarrow>
            if lower e (TrimSpace (rf_Email form)) \<noteq> iv_Email iv
            then answer (view (iv_Email iv) (Sentinel ErrInvitationEmail)) w1
            else (case Register e (rf_Handle form) (rf_Email form) (FormValue c ''password'') w1 of
                (Inl err, w2) \<Rightarrow> answer (view (iv_Email iv) err) w2
              | (Inr user, w2) \<Rightarrow>
                  let w3 = snd (RedeemInvitation code (user_ID user) w2) in
                  (case issueSession S (user_ID user) w3 of (p, w4) \<Rightarrow>
                     (first_reply p (Plain (Redirect (withFlash ''/app'' ''Welcome aboard.''))), w4))))"

definition ShowSignIn :: "site \<Rightarrow> handler" where
  "ShowSignIn S c w = answer (Rendered 200 ''public/signin''
     (SignInView (baseView c ''Sign In'') [] [] (st_RequestAccessEnabled S))) w"

definition SignIn :: "site \<Rightarrow> handler" where
  "SignIn S c w =
     (let email = FormValue c ''email'' in
      case Authenticate (st_Ext S) email (FormValue c ''password'') w of
        (Inl err, w1) \<Rightarrow> answer (Rendered 401 ''public/signin''
          (SignInView (baseView c ''Sign In'') email (serviceMessage err) (st_RequestAccessEnabled S))) w1
      | (Inr user, w1) \<Rightarrow>
          (case issueSession S (user_ID user) w1 of (p, w2) \<Rightarrow>
             (first_reply p (Plain (Redirect (withFlash ''/app'' ''Welcome back.''))), w2)))"

definition ShowRequestAccess :: "site \<Rightarrow> handler" where
  "ShowRequestAccess S c w =
     (if \<not> st_RequestAccessEnabled S then answer ErrNotFound w
      else answer (Rendered 200 ''public/request-access'' (RequestAccessView (baseView c ''Request access'') [] [] [] False)) w)"

definition RequestAccess :: "site \<Rightarrow> handler" where
  "RequestAccess S c w =
     (if \<not> st_RequestAccessEnabled S then answer ErrNotFound w
      else
        let email = FormValue c ''email''; reason = FormValue c ''reason'';
            invalid = Rendered 422 ''public/request-access''
              (RequestAccessView (baseView c ''Request access'') email reason ''Enter a valid email address.'' False);
            submitted = Rendered 200 ''public/request-access'' (RequestAccessView (baseView c ''Request access'') [] [] [] True)
        in
        if FormValue c ''website'' \<noteq> [] then answer submitted w
        else if TrimSpace email = [] then answer invalid w
        else (case AccessRequest_Send (st_Ext S) (st_Mailgun S) (st_AdminEmail S)
               \<lparr>ai_Email = email, ai_Reason = reason, ai_IP = wr_RealIP (cx_Request c)\<rparr> w of
            (Inl err, w1) \<Rightarrow> if errors_is err (Sentinel ErrInvalidEmail) then answer invalid w1 else answer submitted w1
          | (Inr _, w1) \<Rightarrow> answer submitted w1))"

definition ShowForgotPassword :: "site \<Rightarrow> handler" where
  "ShowForgotPassword S c w =
     answer (Rendered 200 ''public/forgot-password'' (ForgotPasswordView (baseView c ''Forgot password'') [] False)) w"

definition ForgotPassword :: "site \<Rightarrow> handler" where
  "ForgotPassword S c w =
     (let email = FormValue c ''email'' in
      answer (Rendered 200 ''public/forgot-password'' (ForgotPasswordView (baseView c ''Forgot password'') email True))
        (snd (SendResetByEmail (st_Ext S) (st_Mailgun S) email (st_BaseURL S) w)))"

definition ShowResetPassword :: "site \<Rightarrow> handler" where
  "ShowResetPassword S c w = answer (Rendered 200 ''public/reset-password''
     (ResetPasswordView (baseView c ''Reset password'') (QueryParam c ''code'') [] [])) w"

definition ResetPasswordPage :: "site \<Rightarrow> handler" where
  "ResetPasswordPage S c w =
     (let code = FormValue c ''code''; email = FormValue c ''email''; password = FormValue c ''password'' in
      case ResetPassword (st_Ext S) code email password w of
        (Inl err, w1) \<Rightarrow> answer (Rendered 422 ''public/reset-password''
          (ResetPasswordView (baseView c ''Reset password'') code email (serviceMessage err))) w1
      | (Inr _, w1) \<Rightarrow>
          answer (Plain (Redirect (withFlash ''/signin'' ''Password reset. Please sign in with your new password.''))) w1)"

definition SignOut :: "site \<Rightarrow> handler" where
  "SignOut S c w = ((Plain (Redirect (withFlash ''/'' ''Signed out.'')), ClearAuthCookies (st_Manager S) (w_now w)), w)"

definition RefreshPage :: "site \<Rightarrow> handler" where
  "RefreshPage S c w =
     (let J = st_JWT S;
          stop = (\<lambda>w. ((Plain (Redirect ''/signin''), ClearAuthCookies (st_Manager S) (w_now w)), w))
      in case rq_RefreshCookie (wr_Session (cx_Request c)) of
        None \<Rightarrow> stop w
      | Some v \<Rightarrow>
          if v = [] then stop w
          else (case ParseRefreshToken J (st_Ext S) v w of
            (Inl _, w1) \<Rightarrow> stop w1
          | (Inr claims, w1) \<Rightarrow>
              (case UserID J claims of
                 None \<Rightarrow> stop w1
               | Some userID \<Rightarrow>
                   (case GetUser userID w1 of
                      (Inl _, w2) \<Rightarrow> stop w2
                    | (Inr user, w2) \<Rightarrow>
                        if \<not> user_IsActive user then stop w2
                        else (case issueSession S (user_ID user) w2 of (p, w3) \<Rightarrow>
                          (first_reply p (Plain (Redirect ''/app'')), w3))))))"

section \<open>app.go and public.go\<close>

definition ShowHome :: handler where
  "ShowHome c w = answer (Rendered 200 ''public/home'' (HomeView (baseView c ''Drynn''))) w"

definition ShowProfile :: handler where
  "ShowProfile c w =
     (let v = fst (CurrentViewer c) in
      answer (Rendered 200 ''app/profile'' (ProfileView (baseView c ''Profile'') (vw_Handle v) (vw_Email v) [])) w)"

definition UpdateProfilePage :: "site \<Rightarrow> handler" where
  "UpdateProfilePage S c w =
     (let v = fst (CurrentViewer c); handle = FormValue c ''handle''; email = FormValue c ''email'' in
      case UpdateProfile (st_Ext S) (vw_ID v) handle email w of
        (Inl err, w1) \<Rightarrow> answer (Rendered 422 ''app/profile'' (ProfileView (baseView c ''Profile'') handle email (serviceMessage err))) w1
      | (Inr _, w1) \<Rightarrow> answer (Plain (Redirect (withFlash ''/app/profile'' ''Profile updated.''))) w1)"

section \<open>admin.go\<close>

text \<open>The roles of a form are those its checkboxes named; of them only user and admin are passed on.\<close>

definition adminFormFromRequest :: "echoContext \<Rightarrow> adminUserForm" where
  "adminFormFromRequest c =
     (let named = (case map_of (wr_Form (cx_Request c)) ''roles'' of Some vs \<Rightarrow> vs | None \<Rightarrow> []) in
      \<lparr>auf_ID = 0, auf_Handle = FormValue c ''handle'', auf_Email = FormValue c ''email'', auf_Password = FormValue c ''password'',
       auf_IsActive = (FormValue c ''is_active'' = ''on''), auf_Roles = (\<lambda>role. role \<in> set named)\<rparr>)"

definition selectedRoles :: "(string \<Rightarrow> bool) \<Rightarrow> string list" where
  "selectedRoles roleMap = filter roleMap [RoleUser, RoleAdmin]"

definition ParamUUID :: "site \<Rightarrow> echoContext \<Rightarrow> uuid option" where
  "ParamUUID S c = jl_uuid_parse (st_JWT S) (wr_ID (cx_Request c))"

definition ListUsersPage :: handler where
  "ListUsersPage c w =
     (case ListUsers w of
        (Inl _, w1) \<Rightarrow> answer (Plain (TextResponse 500 ''could not load users'')) w1
      | (Inr users, w1) \<Rightarrow> answer (Rendered 200 ''admin/users'' (AdminUsersView (baseView c ''User Management'') users)) w1)"

definition create_form_view :: "echoContext \<Rightarrow> adminUserForm \<Rightarrow> (string \<times> string) list \<Rightarrow> string \<Rightarrow> viewData" where
  "create_form_view c form roles err = AdminUserFormView (baseView c ''Create User'')
     \<lparr>afv_Heading = ''Create User'', afv_SubmitLabel = ''Create user'', afv_Action = ''/app/admin/users'',
      afv_CancelURL = ''/app/admin/users'', afv_Form = form, afv_RoleOptions = roles, afv_Error = err\<rparr>"

definition edit_form_view :: "site \<Rightarrow> echoContext \<Rightarrow> uuid \<Rightarrow> adminUserForm \<Rightarrow> (string \<times> string) list \<Rightarrow> string \<Rightarrow> viewData" where
  "edit_form_view S c i form roles err = AdminUserFormView (baseView c ''Edit User'')
     \<lparr>afv_Heading = ''Edit User'', afv_SubmitLabel = ''Save changes'',
      afv_Action = ''/app/admin/users/'' @ jl_uuid_string (st_JWT S) i,
      afv_CancelURL = ''/app/admin/users'', afv_Form = form, afv_RoleOptions = roles, afv_Error = err\<rparr>"

definition ShowCreateUser :: handler where
  "ShowCreateUser c w =
     (case ListRoles w of
        (Inl _, w1) \<Rightarrow> answer (Plain (TextResponse 500 ''could not load roles'')) w1
      | (Inr roles, w1) \<Rightarrow> answer (Rendered 200 ''admin/user-form'' (create_form_view c
          \<lparr>auf_ID = 0, auf_Handle = [], auf_Email = [], auf_Password = [], auf_IsActive = True, auf_Roles = (\<lambda>r. r = RoleUser)\<rparr>
          roles [])) w1)"

definition CreateUserPage :: "site \<Rightarrow> handler" where
  "CreateUserPage S c w =
     (case ListRoles w of
        (Inl _, w1) \<Rightarrow> answer (Plain (TextResponse 500 ''could not load roles'')) w1
      | (Inr roles, w1) \<Rightarrow>
          let form = adminFormFromRequest c in
          (case CreateUser (st_Ext S) (auf_Handle form) (auf_Email form) (auf_Password form) (auf_IsActive form)
             (selectedRoles (auf_Roles form)) w1 of
            (Inl err, w2) \<Rightarrow> answer (Rendered 422 ''admin/user-form'' (create_form_view c form roles (serviceMessage err))) w2
          | (Inr _, w2) \<Rightarrow> answer (Plain (Redirect (withFlash ''/app/admin/users'' ''User created.''))) w2))"

definition ShowEditUser :: "site \<Rightarrow> handler" where
  "ShowEditUser S c w =
     (case ListRoles w of
        (Inl _, w1) \<Rightarrow> answer (Plain (TextResponse 500 ''could not load roles'')) w1
      | (Inr roles, w1) \<Rightarrow>
          (case ParamUUID S c of
             None \<Rightarrow> answer (Plain (TextResponse 400 ''invalid user id'')) w1
           | Some userID \<Rightarrow>
               (case GetUser userID w1 of
                  (Inl _, w2) \<Rightarrow> answer (Plain (TextResponse 404 ''user not found'')) w2
                | (Inr user, w2) \<Rightarrow> answer (Rendered 200 ''admin/user-form''
                    (edit_form_view S c (user_ID user) (adminFormFromUser user) roles [])) w2)))"

definition UpdateUserPage :: "site \<Rightarrow> handler" where
  "UpdateUserPage S c w =
     (case ListRoles w of
        (Inl _, w1) \<Rightarrow> answer (Plain (TextResponse 500 ''could not load roles'')) w1
      | (Inr roles, w1) \<Rightarrow>
          (case ParamUUID S c of
             None \<Rightarrow> answer (Plain (TextResponse 400 ''invalid user id'')) w1
           | Some userID \<Rightarrow>
               let form = (adminFormFromRequest c)\<lparr>auf_ID := userID\<rparr> in
               (case UpdateUser (st_Ext S) \<lparr>uu_ActorUserID = vw_ID (fst (CurrentViewer c)), uu_UserID = userID,
                    uu_Handle = auf_Handle form, uu_Email = auf_Email form, uu_Password = auf_Password form,
                    uu_IsActive = auf_IsActive form, uu_Roles = selectedRoles (auf_Roles form)\<rparr> w1 of
                 (Inl err, w2) \<Rightarrow> answer (Rendered 422 ''admin/user-form''
                   (edit_form_view S c userID form roles (serviceMessage err))) w2
               | (Inr _, w2) \<Rightarrow> answer (Plain (Redirect (withFlash ''/app/admin/users'' ''User updated.''))) w2)))"

definition SendPasswordReset :: "site \<Rightarrow> handler" where
  "SendPasswordReset S c w =
     (case ParamUUID S c of
        None \<Rightarrow> answer (Plain (TextResponse 400 ''invalid user id'')) w
      | Some userID \<Rightarrow>
          (case SendReset (st_Ext S) (st_Mailgun S) userID (st_BaseURL S) w of
             (Inl err, w1) \<Rightarrow> answer (Plain (Redirect (withFlash ''/app/admin/users'' (serviceMessage err)))) w1
           | (Inr _, w1) \<Rightarrow> answer (Plain (Redirect (withFlash ''/app/admin/users'' ''Password reset email sent.''))) w1))"

definition DeleteUserPage :: "site \<Rightarrow> handler" where
  "DeleteUserPage S c w =
     (case ParamUUID S c of
        None \<Rightarrow> answer (Plain (TextResponse 400 ''invalid user id'')) w
      | Some userID \<Rightarrow>
          (case DeleteUser (vw_ID (fst (CurrentViewer c))) userID w of
             (Inl err, w1) \<Rightarrow> answer (Plain (Redirect (withFlash ''/app/admin/users'' (serviceMessage err)))) w1
           | (Inr _, w1) \<Rightarrow> answer (Plain (Redirect (withFlash ''/app/admin/users'' ''User deleted.''))) w1))"

definition invitationFilterOptions :: "(string \<times> string) list" where
  "invitationFilterOptions = [([], ''All''), (''unused'', ''Unused''), (''expired'', ''Expired''), (''used'', ''Used'')]"

definition normalizeInvitationFilter :: "string \<Rightarrow> string" where
  "normalizeInvitationFilter v = (if v \<in> {''unused'', ''expired'', ''used''} then v else [])"

definition ListInvitationsPage :: "site \<Rightarrow> handler" where
  "ListInvitationsPage S c w =
     (let filt = normalizeInvitationFilter (QueryParam c ''filter'') in
      case ListInvitations filt w of
        (Inl _, w1) \<Rightarrow> answer (Plain (TextResponse 500 ''could not load invitations'')) w1
      | (Inr ivs, w1) \<Rightarrow> answer (Rendered 200 ''admin/invitations'' (AdminInvitationsView (baseView c ''Invitations'')
          (map (\<lambda>iv. (iv, st_BaseURL S @ ''/register?code='' @ iv_Code iv)) ivs) filt invitationFilterOptions)) w1)"

definition ShowInviteForm :: handler where
  "ShowInviteForm c w = answer (Rendered 200 ''admin/invite-form'' (AdminInviteFormView (baseView c ''Send Invitation'') [] [])) w"

definition SendInvitation :: "site \<Rightarrow> handler" where
  "SendInvitation S c w =
     (let email = FormValue c ''email'' in
      case CreateAndSend (st_Ext S) (st_Mailgun S) (vw_ID (fst (CurrentViewer c))) email (st_BaseURL S) w of
        (Inl err, w1) \<Rightarrow> answer (Rendered 422 ''admin/invite-form''
          (AdminInviteFormView (baseView c ''Send Invitation'') email (serviceMessage err))) w1
      | (Inr _, w1) \<Rightarrow> answer (Plain (Redirect (withFlash ''/app/admin/invitations'' ''Invitation sent.''))) w1)"

definition ResendInvitationPage :: "site \<Rightarrow> handler" where
  "ResendInvitationPage S c w =
     (case ParamUUID S c of
        None \<Rightarrow> answer (Plain (TextResponse 400 ''invalid invitation id'')) w
      | Some i \<Rightarrow>
          (case ResendInvitation (st_Ext S) (st_Mailgun S) i (st_BaseURL S) w of
             (Inl err, w1) \<Rightarrow> answer (Plain (Redirect (withFlash ''/app/admin/invitations'' (serviceMessage err)))) w1
           | (Inr _, w1) \<Rightarrow> answer (Plain (Redirect (withFlash ''/app/admin/invitations'' ''Invitation resent.''))) w1))"

definition ArchiveInvitationPage :: "site \<Rightarrow> handler" where
  "ArchiveInvitationPage S c w =
     (case ParamUUID S c of
        None \<Rightarrow> answer (Plain (TextResponse 400 ''invalid invitation id'')) w
      | Some i \<Rightarrow>
          (case ArchiveInvitation i w of
             (Inl _, w1) \<Rightarrow> answer (Plain (Redirect (withFlash ''/app/admin/invitations'' ''Could not archive invitation.''))) w1
           | (Inr _, w1) \<Rightarrow> answer (Plain (Redirect (withFlash ''/app/admin/invitations'' ''Invitation archived.''))) w1))"

section \<open>api.go, api_games.go and health.go\<close>

abbreviation api_error :: "nat \<Rightarrow> string \<Rightarrow> reply" where
  "api_error status msg \<equiv> Plain (JSONError status msg)"

definition Login :: "site \<Rightarrow> handler" where
  "Login S c w =
     (case st_LoginBody S (wr_Body (cx_Request c)) of
        None \<Rightarrow> answer (api_error 400 ''invalid request body'') w
      | Some (email, password) \<Rightarrow>
          if TrimSpace email = [] \<or> password = [] then answer (api_error 400 ''email and password are required'') w
          else (case Authenticate (st_Ext S) email password w of
            (Inl err, w1) \<Rightarrow>
              if errors_is err (Sentinel ErrInvalidCredentials) \<or> errors_is err (Sentinel ErrInactiveUser)
              then answer (api_error 401 ''invalid credentials'') w1
              else answer (api_error 500 ''internal error'') w1
          | (Inr user, w1) \<Rightarrow>
              (case IssueTokens (st_JWT S) (st_Ext S) (st_Manager S) (user_ID user) w1 of
                 (Inl _, w2) \<Rightarrow> answer (api_error 500 ''internal error'') w2
               | (Inr pair, w2) \<Rightarrow> answer (LoginBody 200 \<lparr>al_AccessToken = tp_AccessToken pair, al_RefreshToken = tp_RefreshToken pair,
                   al_AccessExpiry = st_RFC3339 S (tp_AccessExpiry pair), al_RefreshExpiry = st_RFC3339 S (tp_RefreshExpiry pair)\<rparr>) w2)))"

definition Health :: "site \<Rightarrow> handler" where
  "Health S c w = answer (HealthBody 200 ''ok'' (st_Version S)) w"

text \<open>\<open>strconv.ParseInt(s, 10, 64)\<close>: an optional sign, digits, and the range of \<open>int64\<close>.\<close>

definition digit_value :: "char \<Rightarrow> int option" where
  "digit_value ch = (let n = of_char ch :: nat in if 48 \<le> n \<and> n \<le> 57 then Some (int n - 48) else None)"

fun parse_digits :: "int \<Rightarrow> string \<Rightarrow> int option" where
  "parse_digits acc [] = Some acc"
| "parse_digits acc (ch # cs) = (case digit_value ch of None \<Rightarrow> None | Some d \<Rightarrow> parse_digits (10 * acc + d) cs)"

definition ParseInt :: "string \<Rightarrow> int option" where
  "ParseInt s =
     (let (neg, digits) = (case s of [] \<Rightarrow> (False, [])
        | ch # cs \<Rightarrow> if ch = CHR ''-'' then (True, cs) else if ch = CHR ''+'' then (False, cs) else (False, s)) in
      if digits = [] then None
      else case parse_digits 0 digits of
        None \<Rightarrow> None
      | Some n \<Rightarrow> let v = (if neg then - n else n) in if - (2 ^ 63) \<le> v \<and> v < 2 ^ 63 then Some v else None)"

definition parseGameID :: "echoContext \<Rightarrow> int option" where
  "parseGameID c = ParseInt (wr_ID (cx_Request c))"

definition apiGameFromService :: "site \<Rightarrow> game \<Rightarrow> apiGameResponse" where
  "apiGameFromService S g = \<lparr>ag_ID = game_ID g, ag_Name = game_Name g, ag_Status = game_Status g,
     ag_CurrentTurn = game_CurrentTurn g, ag_CreatedAt = st_RFC3339 S (game_CreatedAt g),
     ag_UpdatedAt = st_RFC3339 S (game_UpdatedAt g)\<rparr>"

definition apiCreateGame :: "site \<Rightarrow> handler" where
  "apiCreateGame S c w =
     (case st_GameBody S (wr_Body (cx_Request c)) of
        None \<Rightarrow> answer (api_error 400 ''invalid request body'') w
      | Some name \<Rightarrow>
          (case CreateGame name w of
             (Inl err, w1) \<Rightarrow>
               if errors_is err (Sentinel ErrInvalidGameName) then answer (api_error 400 ''name is required'') w1
               else answer (api_error 500 ''internal error'') w1
           | (Inr g, w1) \<Rightarrow> answer (CreatedBody 201 (game_ID g)) w1))"

definition apiListGames :: "site \<Rightarrow> handler" where
  "apiListGames S c w =
     (case ListGames w of
        (Inl _, w1) \<Rightarrow> answer (api_error 500 ''internal error'') w1
      | (Inr gs, w1) \<Rightarrow> answer (GamesBody 200 (map (apiGameFromService S) gs)) w1)"

definition apiGetGame :: "site \<Rightarrow> handler" where
  "apiGetGame S c w =
     (case parseGameID c of
        None \<Rightarrow> answer (api_error 400 ''invalid game id'') w
      | Some i \<Rightarrow>
          (case GetGame i w of
             (Inl err, w1) \<Rightarrow>
               if errors_is err (Sentinel ErrGameNotFound) then answer (api_error 404 ''game not found'') w1
               else answer (api_error 500 ''internal error'') w1
           | (Inr g, w1) \<Rightarrow> answer (GameBody 200 (apiGameFromService S g)) w1))"

definition apiUpdateGame :: handler where
  "apiUpdateGame c w =
     (case parseGameID c of
        None \<Rightarrow> answer (api_error 400 ''invalid game id'') w
      | Some _ \<Rightarrow> answer (api_error 501 ''not yet implemented'') w)"

definition apiDeleteGame :: handler where
  "apiDeleteGame c w =
     (case parseGameID c of
        None \<Rightarrow> answer (api_error 400 ''invalid game id'') w
      | Some i \<Rightarrow>
          (case DeleteGame i w of
             (Inl err, w1) \<Rightarrow>
               if errors_is err (Sentinel ErrGameNotFound) then answer (api_error 404 ''game not found'') w1
               else answer (api_error 500 ''internal error'') w1
           | (Inr _, w1) \<Rightarrow> answer (NoContent 204) w1))"

definition Healthz :: handler where
  "Healthz c w = answer (Plain (TextResponse 200 ''ok'')) w"

text \<open>\<open>Ping\<close> is a round trip to the database.\<close>

definition Readyz :: handler where
  "Readyz c w =
     (case external (\<lambda>w. (Inr (), w)) w of
        (Inl _, w1) \<Rightarrow> answer (Plain (TextResponse 503 ''not ready'')) w1
      | (Inr _, w1) \<Rightarrow> answer (Plain (TextResponse 200 ''ok'')) w1)"

end
