(* ===== verification/Server.thy ===== *)
theory Server
  imports Handlers
begin

text \<open>
  internal/server/server.go: the middleware and the table of routes.  A middleware is a function
  from handlers to handlers, as in the code, and \<open>registerRoutes\<close> gives for each method and path the
  handler wrapped in the middleware of its groups.  Matching a request with a route is echo's; the
  rate limiter of the sign-in routes is a parameter here and the subject of another theory.
\<close>

section \<open>Middleware\<close>

type_synonym middleware = "handler \<Rightarrow> handler"

definition requireAuth :: "site \<Rightarrow> middleware" where
  "requireAuth S nxt c w =
     (case RequireAuth (st_JWT S) (st_Ext S) (st_Manager S) (wr_Session (cx_Request c)) w of
        (Answer resp cookies, w1) \<Rightarrow> ((Plain resp, cookies), w1)
      | (Next claims cookies, w1) \<Rightarrow>
          (case nxt (c\<lparr>cx_Claims := Some claims\<rparr>) w1 of ((r, later), w2) \<Rightarrow> ((r, cookies @ later), w2)))"

definition loadCurrentViewer :: "site \<Rightarrow> middleware" where
  "loadCurrentViewer S nxt c w =
     (case cx_Claims c of
        None \<Rightarrow> answer (Plain (Redirect ''/signin'')) w
      | Some claims \<Rightarrow>
          (case UserID (st_JWT S) claims of
             None \<Rightarrow> answer (Plain (Redirect ''/signin'')) w
           | Some userID \<Rightarrow>
               (case GetUser userID w of
                  (Inl _, w1) \<Rightarrow> answer (Plain (Redirect ''/signin'')) w1
                | (Inr user, w1) \<Rightarrow>
                    if \<not> user_IsActive user then answer (Plain (Redirect ''/signin'')) w1
                    else nxt (c\<lparr>cx_Viewer := Some \<lparr>vw_ID = user_ID user, vw_Handle = user_Handle user, vw_Email = user_Email user,
                                 vw_IsActive = user_IsActive user, vw_Roles = user_Roles user\<rparr>\<rparr>) w1)))"

definition requireRole :: "string \<Rightarrow> middleware" where
  "requireRole role nxt c w =
     (case CurrentViewer c of (viewer, ok) \<Rightarrow>
        if \<not> ok \<or> \<not> HasRole viewer role then
          (if HasPrefix (rq_Path (wr_Session (cx_Request c))) ''/api/'' then answer (Plain (JSONError 403 ''forbidden'')) w
           else answer (Plain (TextResponse 403 ''forbidden'')) w)
        else nxt c w)"

section \<open>Routes\<close>

definition registerRoutes :: "site \<Rightarrow> middleware \<Rightarrow> (string \<times> string \<times> handler) list" where
  "registerRoutes S authRL =
     (let games = (\<lambda>h. requireAuth S (loadCurrentViewer S (requireRole RoleAdmin h)));
          app = (\<lambda>h. requireAuth S (loadCurrentViewer S h));
          admin = (\<lambda>h. app (requireRole RoleAdmin h))
      in
      [(''GET'', ''/healthz'', Healthz),
       (''GET'', ''/readyz'', Readyz),
       (''GET'', ''/api/v1/health'', Health S),
       (''POST'', ''/api/v1/login'', authRL (Login S)),
       (''POST'', ''/api/v1/games'', games (apiCreateGame S)),
       (''GET'', ''/api/v1/games'', games (apiListGames S)),
       (''GET'', ''/api/v1/games/:id'', games (apiGetGame S)),
       (''PUT'', ''/api/v1/games/:id'', games apiUpdateGame),
       (''DELETE'', ''/api/v1/games/:id'', games apiDeleteGame),
       (''GET'', ''/'', ShowHome),
       (''GET'', ''/register'', ShowRegister S),
       (''POST'', ''/register'', RegisterPage S),
       (''GET'', ''/signin'', ShowSignIn S),
       (''POST'', ''/signin'', authRL (SignIn S)),
       (''GET'', ''/forgot-password'', ShowForgotPassword S),
       (''POST'', ''/forgot-password'', authRL (ForgotPassword S)),
       (''GET'', ''/request-access'', ShowRequestAccess S),
       (''POST'', ''/request-access'', authRL (RequestAccess S)),
       (''GET'', ''/reset-password'', ShowResetPassword S),
       (''POST'', ''/reset-password'', authRL (ResetPasswordPage S)),
       (''POST'', ''/logout'', SignOut S),
       (''POST'', ''/refresh'', RefreshPage S),
       (''GET'', ''/app'', app (\<lambda>c. answer (Plain (Redirect ''/app/profile'')))),
       (''GET'', ''/app/profile'', app ShowProfile),
       (''POST'', ''/app/profile'', app (UpdateProfilePage S)),
       (''GET'', ''/app/admin/users'', admin ListUsersPage),
       (''GET'', ''/app/admin/users/new'', admin ShowCreateUser),
       (''POST'', ''/app/admin/users'', admin (CreateUserPage S)),
       (''GET'', ''/app/admin/users/:id/edit'', admin (ShowEditUser S)),
       (''POST'', ''/app/admin/users/:id'', admin (UpdateUserPage S)),
       (''POST'', ''/app/admin/users/:id/reset-password'', admin (SendPasswordReset S)),
       (''POST'', ''/app/admin/users/:id/delete'', admin (DeleteUserPage S)),
       (''GET'', ''/app/admin/invitations'', admin (ListInvitationsPage S)),
       (''GET'', ''/app/admin/invitations/new'', admin ShowInviteForm),
       (''POST'', ''/app/admin/invitations'', admin (SendInvitation S)),
       (''POST'', ''/app/admin/invitations/:id/resend'', admin (ResendInvitationPage S)),
       (''POST'', ''/app/admin/invitations/:id/archive'', admin (ArchiveInvitationPage S))])"

section \<open>Who is asking\<close>

text \<open>The request carries a usable token for the account \<open>i\<close>, which is an active administrator.\<close>

definition signed_in_as :: "site \<Rightarrow> echoContext \<Rightarrow> world \<Rightarrow> uuid \<Rightarrow> bool" where
  "signed_in_as S c w i \<longleftrightarrow> (\<exists>raw claims. UserID (st_JWT S) claims = Some i \<and>
     (tokenFromRequest (wr_Session (cx_Request c)) = Some raw \<and> vouched (st_JWT S) w TokenTypeAccess raw claims \<or>
      rq_RefreshCookie (wr_Session (cx_Request c)) = Some raw \<and> vouched (st_JWT S) w TokenTypeRefresh raw claims))"

definition active_admin :: "world \<Rightarrow> uuid \<Rightarrow> bool" where
  "active_admin w i \<longleftrightarrow> i \<in> admins (w_db w) \<and> (\<exists>u \<in> set (db_users (w_db w)). ur_ID u = i \<and> ur_IsActive u)"

text \<open>What is relied on of the libraries: sound verification of tokens, and identifiers that survive printing.\<close>

definition jwt_laws :: "jwtlib \<Rightarrow> bool" where
  "jwt_laws J \<longleftrightarrow> jwt_sound J \<and> (\<forall>i. jl_uuid_parse J (jl_uuid_string J i) = Some i)"

lemma quiet_tryRefreshAccess:
  assumes J: "jwt_sound J"
  shows "\<exists>fs. snd (tryRefreshAccess J e m rq w) = w\<lparr>w_faults := fs\<rparr>"
proof (cases "\<exists>v. rq_RefreshCookie rq = Some v \<and> v \<noteq> []")
  case False
  then show ?thesis using same_world by (auto simp: tryRefreshAccess_def split: option.split)
next
  case True
  then obtain v where v: "rq_RefreshCookie rq = Some v" "v \<noteq> []" by blast
  obtain r1 w1 where p: "parseToken J e v TokenTypeRefresh w = (r1, w1)" by force
  obtain fs where w1: "w1 = w\<lparr>w_faults := fs\<rparr>" using quietD [OF quiet_parseToken [OF J] p] by blast
  have i: "IssueTokens J e m u w1 = (r2, w2) \<Longrightarrow> \<exists>fs. w2 = w\<lparr>w_faults := fs\<rparr>" for u r2 w2
    using quietD [OF quiet_IssueTokens] w1 by fastforce
  show ?thesis
    using v p i w1 by (auto simp: tryRefreshAccess_def ParseRefreshToken_def split: sum.split option.split prod.split)
qed

lemma quiet_RequireAuth:
  assumes J: "jwt_sound J"
  shows "\<exists>fs. snd (RequireAuth J e m rq w) = w\<lparr>w_faults := fs\<rparr>"
proof (cases "tokenFromRequest rq")
  case None
  then show ?thesis using quiet_tryRefreshAccess [OF J, of e m rq w]
    by (auto simp: RequireAuth_def split: prod.split option.split)
next
  case (Some raw)
  obtain r1 w1 where p: "parseToken J e raw TokenTypeAccess w = (r1, w1)" by force
  obtain fs where w1: "w1 = w\<lparr>w_faults := fs\<rparr>" using quietD [OF quiet_parseToken [OF J] p] by blast
  show ?thesis using Some p quiet_tryRefreshAccess [OF J, of e m rq w1] w1
    by (auto simp: RequireAuth_def ParseAccessToken_def split: prod.split option.split sum.split)
qed

section \<open>What the guards let through\<close>

lemma requireAuth_cases:
  assumes J: "jwt_laws (st_JWT S)" and run: "requireAuth S h c w = ((r, cs), w')"
  obtains (stopped) "r = Plain (unauthorized (wr_Session (cx_Request c)))" and "\<exists>fs. w' = w\<lparr>w_faults := fs\<rparr>"
  | (passed) claims i w1 cs2 where "UserID (st_JWT S) claims = Some i" and "signed_in_as S c w i"
      and "\<exists>fs. w1 = w\<lparr>w_faults := fs\<rparr>" and "h (c\<lparr>cx_Claims := Some claims\<rparr>) w1 = ((r, cs2), w')"
  | (unreadable) claims w1 cs2 where "UserID (st_JWT S) claims = None"
      and "\<exists>fs. w1 = w\<lparr>w_faults := fs\<rparr>" and "h (c\<lparr>cx_Claims := Some claims\<rparr>) w1 = ((r, cs2), w')"
proof -
  let ?rq = "wr_Session (cx_Request c)"
  have sound: "jwt_sound (st_JWT S)" using J by (simp add: jwt_laws_def)
  obtain res w1 where a: "RequireAuth (st_JWT S) (st_Ext S) (st_Manager S) ?rq w = (res, w1)" by force
  have w1: "\<exists>fs. w1 = w\<lparr>w_faults := fs\<rparr>" using quiet_RequireAuth [OF sound, of "st_Ext S" "st_Manager S" ?rq w] a by simp
  show thesis
  proof (cases res)
    case (Answer resp cookies)
    with RequireAuth_Answer a run stopped w1 show ?thesis by (auto simp: requireAuth_def)
  next
    case (Next claims cookies)
    from a Next run obtain cs2 where h: "h (c\<lparr>cx_Claims := Some claims\<rparr>) w1 = ((r, cs2), w')"
      by (auto simp: requireAuth_def split: prod.splits)
    show ?thesis
    proof (cases "UserID (st_JWT S) claims")
      case None
      with unreadable w1 h show ?thesis by blast
    next
      case (Some i)
      have "signed_in_as S c w i"
        using RequireAuth_Next [OF sound a [unfolded Next]]
      proof (elim disjE exE conjE)
        fix raw assume "tokenFromRequest ?rq = Some raw" "vouched (st_JWT S) w TokenTypeAccess raw claims"
        with Some show ?thesis unfolding signed_in_as_def by blast
      next
        fix raw c0 u assume *: "rq_RefreshCookie ?rq = Some raw" "vouched (st_JWT S) w TokenTypeRefresh raw c0"
          "UserID (st_JWT S) c0 = Some u" "tc_Subject claims = jl_uuid_string (st_JWT S) u"
        then have "u = i" using Some J by (simp add: UserID_def jwt_laws_def)
        with * show ?thesis unfolding signed_in_as_def by blast
      qed
      with passed Some w1 h show ?thesis by blast
    qed
  qed
qed

definition viewer_of :: "user \<Rightarrow> viewer" where
  "viewer_of user = \<lparr>vw_ID = user_ID user, vw_Handle = user_Handle user, vw_Email = user_Email user,
     vw_IsActive = user_IsActive user, vw_Roles = user_Roles user\<rparr>"

lemma loadCurrentViewer_cases:
  assumes run: "loadCurrentViewer S h (c\<lparr>cx_Claims := Some claims\<rparr>) w = ((r, cs), w')"
  obtains (stopped) "r = Plain (Redirect ''/signin'')" and "w_db w' = w_db w"
  | (passed) i row w1 where "UserID (st_JWT S) claims = Some i" and "row \<in> set (db_users (w_db w))" and "ur_ID row = i"
      and "ur_IsActive row" and "w_db w1 = w_db w" and "w_fresh w1 = w_fresh w"
      and "h (c\<lparr>cx_Claims := Some claims, cx_Viewer := Some (viewer_of (hydrated (w_db w) row))\<rparr>) w1 = ((r, cs), w')"
proof (cases "UserID (st_JWT S) claims")
  case None
  with run stopped show ?thesis by (simp add: loadCurrentViewer_def answer_def)
next
  case (Some i)
  obtain res w1 where g: "GetUser i w = (res, w1)" by force
  have db: "w_db w1 = w_db w" "w_fresh w1 = w_fresh w" using readsD [OF reads_users(9) g] by simp_all
  show ?thesis
  proof (cases res)
    case (Inl err)
    with run Some g db stopped show ?thesis by (simp add: loadCurrentViewer_def answer_def)
  next
    case (Inr user)
    with g obtain row where row: "row \<in> set (db_users (w_db w))" "ur_ID row = i" "user = hydrated (w_db w) row"
      by (auto elim!: GetUser_Inr)
    show ?thesis
    proof (cases "ur_IsActive row")
      case False
      with run Some g Inr row db stopped show ?thesis by (simp add: loadCurrentViewer_def answer_def hydrated_def)
    next
      case True
      with run Some g Inr row have "h (c\<lparr>cx_Claims := Some claims, cx_Viewer := Some (viewer_of (hydrated (w_db w) row))\<rparr>) w1 = ((r, cs), w')"
        by (simp add: loadCurrentViewer_def viewer_of_def hydrated_def)
      with passed Some row True db show ?thesis by blast
    qed
  qed
qed

text \<open>What the guard answers instead of calling the handler.\<close>

definition refusal :: "reply \<Rightarrow> bool" where
  "refusal r \<longleftrightarrow> r \<in> {Plain (Redirect ''/signin''), Plain (JSONError 401 ''authentication required''),
     Plain (TextResponse 401 ''authentication required''), Plain (JSONError 403 ''forbidden''), Plain (TextResponse 403 ''forbidden'')}"

lemma app_guard:
  assumes J: "jwt_laws (st_JWT S)" and run: "requireAuth S (loadCurrentViewer S h) c w = ((r, cs), w')"
  obtains (refused) "refusal r" and "w_db w' = w_db w"
  | (passed) i row claims w1 cs2 where "signed_in_as S c w i" and "row \<in> set (db_users (w_db w))" and "ur_ID row = i"
      and "ur_IsActive row" and "w_db w1 = w_db w" and "w_fresh w1 = w_fresh w"
      and "h (c\<lparr>cx_Claims := Some claims, cx_Viewer := Some (viewer_of (hydrated (w_db w) row))\<rparr>) w1 = ((r, cs2), w')"
  using J run
proof (cases rule: requireAuth_cases)
  case stopped
  then show ?thesis using refused by (auto simp: refusal_def unauthorized_def)
next
  case (unreadable claims w1 cs2)
  from unreadable(3) unreadable(1,2) show ?thesis
    by (cases rule: loadCurrentViewer_cases) (auto intro: refused simp: refusal_def)
next
  case (passed claims i w1 cs2)
  from passed(3) obtain fs where w1: "w1 = w\<lparr>w_faults := fs\<rparr>" by blast
  from passed(4) show ?thesis
  proof (cases rule: loadCurrentViewer_cases)
    case stopped
    with w1 show ?thesis by (auto intro: refused simp: refusal_def)
  next
    case inner: (passed j row w2)
    with passed w1 show ?thesis by (auto intro!: that(2) [of i row w2 claims cs2])
  qed
qed

lemma admin_guard:
  assumes J: "jwt_laws (st_JWT S)" and ok: "users_ok (w_db w) n"
    and run: "requireAuth S (loadCurrentViewer S (requireRole RoleAdmin h)) c w = ((r, cs), w')"
  shows "(refusal r \<and> w_db w' = w_db w) \<or> (\<exists>i. signed_in_as S c w i \<and> active_admin w i)"
  using J run
proof (cases rule: app_guard)
  case refused
  then show ?thesis by blast
next
  case (passed i row claims w1 cs2)
  show ?thesis
  proof (cases "HasRole (viewer_of (hydrated (w_db w) row)) RoleAdmin")
    case True
    then have "RoleAdmin \<in> set (role_names (w_db w) i)"
      using passed(3) by (simp add: HasRole_def viewer_of_def hydrated_def list_ex_iff)
    then have "i \<in> admins (w_db w)" using role_names_admin [OF ok] by simp
    with passed have "signed_in_as S c w i \<and> active_admin w i" by (auto simp: active_admin_def)
    then show ?thesis by blast
  next
    case False
    with passed(5,7) show ?thesis by (auto simp: requireRole_def CurrentViewer_def answer_def refusal_def split: if_splits)
  qed
qed

section \<open>What the other routes can change\<close>

text \<open>
  Changes anybody may cause: a new account, a used mark on an invitation, profiles, passwords and reset
  tokens.  Roles of administrators, whether accounts are there and active, games, signing keys and
  what invitations there are stay as they are.
\<close>

definition issued_part :: "invitation_row \<Rightarrow> invitation_row" where
  "issued_part v = v\<lparr>ir_UsedBy := None, ir_UsedAt := None\<rparr>"

definition unprivileged :: "db \<Rightarrow> db \<Rightarrow> bool" where
  "unprivileged d d' \<longleftrightarrow> admins d' = admins d \<and> keys_games d' = keys_games d \<and>
     map issued_part (db_invitations d') = map issued_part (db_invitations d) \<and>
     (\<forall>u \<in> set (db_users d). \<exists>u' \<in> set (db_users d'). ur_ID u' = ur_ID u \<and> ur_IsActive u' = ur_IsActive u)"

lemma unprivileged_refl [simp]: "unprivileged d d"
  by (auto simp: unprivileged_def)

lemma unprivileged_trans: "unprivileged d d' \<Longrightarrow> unprivileged d' d'' \<Longrightarrow> unprivileged d d''"
  unfolding unprivileged_def by (metis (no_types, lifting))

text \<open>A row-wise change of the users that keeps their identifiers and whether they are active.\<close>

lemma unprivileged_users:
  assumes "\<And>u. ur_ID (f u) = ur_ID u \<and> ur_IsActive (f u) = ur_IsActive u"
  shows "unprivileged d (d\<lparr>db_users := map f (db_users d)\<rparr>)"
  using assms by (auto simp: unprivileged_def admins_def roles_of_def)

lemma unprivileged_resets: "unprivileged d (d\<lparr>db_resets := ts\<rparr>)"
  by (auto simp: unprivileged_def admins_def roles_of_def)

lemma Register_unprivileged:
  assumes ok: "users_ok (w_db w) (w_fresh w)" and run: "Register e h m p w = (r, w')"
  shows "unprivileged (w_db w) (w_db w')"
proof -
  have "unprivileged (w_db w) (w_db w')" if new: "new_account e h m p True (role_ids (normalizeRoles e [RoleUser])) w (w_db w') row" for row
  proof -
    from new have g: "regrants (ur_ID row) {1} ((w_db w)\<lparr>db_users := db_users (w_db w) @ [row]\<rparr>) (w_db w')"
      and i: "ur_ID row = w_fresh w" unfolding new_account_def role_ids_user by blast+
    have "admins (w_db w') = admins (w_db w)"
      using admins_regrants [OF g] admin_fresh [OF ok, of "ur_ID row"] i by simp
    then show ?thesis using regrants_db [OF g] by (auto simp: unprivileged_def)
  qed
  then show ?thesis using create_account_cases [OF ok run [unfolded Register_eq]] by auto
qed

lemma RedeemInvitation_unprivileged:
  assumes "RedeemInvitation code u w = (r, w')"
  shows "unprivileged (w_db w) (w_db w')"
proof -
  let ?p = "\<lambda>d. (accounts d, db_keys d, db_games d, map issued_part (db_invitations d))"
  have "frames ?p (sql_MarkInvitationUsed i u)" for i
    unfolding sql_MarkInvitationUsed_def
    by (rule frames_external) (auto simp: update_invitation_def issued_part_def)
  then have "frames ?p (RedeemInvitation code u)"
    unfolding RedeemInvitation_def by (intro frames_intros)
  from framesD [OF this assms] show ?thesis by (auto simp: unprivileged_def admins_def roles_of_def)
qed

lemma SendResetByEmail_unprivileged:
  assumes "SendResetByEmail e cfg m base w = (r, w')"
  shows "unprivileged (w_db w) (w_db w')"
proof -
  let ?p = "\<lambda>d. (accounts d, db_keys d, db_games d, db_invitations d)"
  have "frames ?p (sql_CreatePasswordResetToken u code x)" for u code x
    unfolding sql_CreatePasswordResetToken_def by (rule frames_external) (auto simp: Let_def)
  then have "frames ?p (SendResetByEmail e cfg m base)"
    unfolding SendResetByEmail_def issueReset_def by (intro frames_intros)
  from framesD [OF this assms] show ?thesis by (auto simp: unprivileged_def admins_def roles_of_def)
qed

lemma ResetPassword_unprivileged:
  assumes "ResetPassword e code m p w = (r, w')"
  shows "unprivileged (w_db w) (w_db w')"
  using ResetPassword_cases [OF assms]
proof (elim disjE conjE)
  assume "reset_done e code m p w (w_db w')"
  then obtain i hash rid where "w_db w' = (w_db w)\<lparr>db_users := with_password i hash (w_now w) (db_users (w_db w)),
      db_resets := mark_used rid (w_now w) (db_resets (w_db w))\<rparr>" unfolding reset_done_def by blast
  then show ?thesis unfolding with_password_def
    by (simp only:) (rule unprivileged_trans [OF unprivileged_users unprivileged_resets], simp)
qed simp

lemma UpdateProfile_db:
  assumes "UpdateProfile e i h m w = (r, w')"
  shows "w_db w' = w_db w \<or> (\<exists>h' m'. w_db w' = (w_db w)\<lparr>db_users := map (\<lambda>u. if ur_ID u = i
    then u\<lparr>ur_Handle := h', ur_Email := m', ur_UpdatedAt := w_now w\<rparr> else u) (db_users (w_db w))\<rparr>)"
proof -
  have sql: "w_db w1 = w_db w \<or> w_db w1 = (w_db w)\<lparr>db_users := map (\<lambda>u. if ur_ID u = i
      then u\<lparr>ur_Handle := h', ur_Email := m', ur_UpdatedAt := w_now w\<rparr> else u) (db_users (w_db w))\<rparr>"
    if "sql_UpdateUserProfile e i h' m' w = (r1, w1)" for h' m' r1 w1
    using that by (auto simp: sql_UpdateUserProfile_def update_user_checked_def update_user_def external_def
        split: list.splits fault.splits option.splits)
  show ?thesis
  proof (cases "\<exists>h' m'. normalizeHandle e h = Inr h' \<and> normalizeEmail e m = Inr m'")
    case False
    with assms show ?thesis
      by (cases "normalizeHandle e h"; cases "normalizeEmail e m") (auto simp: UpdateProfile_def run_simps)
  next
    case True
    then obtain h' m' where n: "normalizeHandle e h = Inr h'" "normalizeEmail e m = Inr m'" by blast
    obtain r1 w1 where q: "sql_UpdateUserProfile e i h' m' w = (r1, w1)" by force
    have "w_db w' = w_db w1" using assms n q readsD [OF reads_users(8)]
      by (cases r1) (auto simp: UpdateProfile_def run_simps)
    with sql [OF q] show ?thesis by auto
  qed
qed

lemma UpdateProfile_unprivileged: "UpdateProfile e i h m w = (r, w') \<Longrightarrow> unprivileged (w_db w) (w_db w')"
  by (drule UpdateProfile_db) (auto intro!: unprivileged_users split: if_splits)

section \<open>The handlers outside the guards\<close>

text \<open>A handler whose effect on the tables anybody may cause.\<close>

definition public_handler :: "handler \<Rightarrow> bool" where
  "public_handler h \<longleftrightarrow> (\<forall>c w. users_ok (w_db w) (w_fresh w) \<longrightarrow> unprivileged (w_db w) (w_db (snd (h c w))))"

named_theorems public_intros "handlers whose effect anybody may cause"

lemma answer_db [simp]: "snd (answer r w) = w"
  by (simp add: answer_def)

lemma reads_db: "reads m \<Longrightarrow> w_db (snd (m w)) = w_db w"
  by (simp add: reads_def)

lemma issueSession_db: "issueSession S u w = (p, w') \<Longrightarrow> w_db w' = w_db w"
  using quiet_same(1) [OF quiet_IssueTokens] by (auto simp: issueSession_def split: prod.splits sum.splits)

lemma public_same: "(\<And>c w. w_db (snd (h c w)) = w_db w) \<Longrightarrow> public_handler h"
  by (simp add: public_handler_def)

lemma reads_pages:
  "ValidateCode code w = (r1, w1) \<Longrightarrow> w_db w1 = w_db w" "Authenticate e m p w = (r2, w1) \<Longrightarrow> w_db w1 = w_db w"
  "AccessRequest_Send e cfg admin inp w = (r3, w1) \<Longrightarrow> w_db w1 = w_db w" "GetUser i w = (r4, w1) \<Longrightarrow> w_db w1 = w_db w"
  "IssueTokens J e mg u w = (r5, w1) \<Longrightarrow> w_db w1 = w_db w"
  by (erule conjunct1 [OF readsD [OF reads_invitations(2)]] conjunct1 [OF readsD [OF reads_services(1)]]
      conjunct1 [OF readsD [OF reads_AccessRequest]] conjunct1 [OF readsD [OF reads_users(9)]] quiet_same(1) [OF quiet_IssueTokens])+

lemma public_constant [public_intros]:
  "public_handler (ShowSignIn S)" "public_handler (ShowRequestAccess S)" "public_handler (ShowForgotPassword S)"
  "public_handler (ShowResetPassword S)" "public_handler (SignOut S)" "public_handler ShowHome" "public_handler ShowProfile"
  "public_handler (Health S)" "public_handler Healthz" "public_handler (\<lambda>c. answer r)"
  by (simp_all add: public_handler_def ShowSignIn_def ShowRequestAccess_def ShowForgotPassword_def ShowResetPassword_def
      SignOut_def ShowHome_def ShowProfile_def Health_def Healthz_def Let_def)

lemma public_reading [public_intros]:
  "public_handler (ShowRegister S)" "public_handler (SignIn S)" "public_handler (RequestAccess S)" "public_handler (Login S)"
  "public_handler Readyz"
proof -
  show "public_handler (ShowRegister S)"
    by (rule public_same) (auto simp: ShowRegister_def Let_def split: prod.split sum.split dest: reads_pages)
  show "public_handler (SignIn S)"
    by (rule public_same) (auto simp: SignIn_def Let_def split: prod.split sum.split dest!: reads_pages issueSession_db)
  show "public_handler (RequestAccess S)"
    by (rule public_same) (auto simp: RequestAccess_def Let_def split: prod.split sum.split dest!: reads_pages)
  show "public_handler (Login S)"
    by (rule public_same) (auto simp: Login_def Let_def split: prod.split sum.split option.split dest!: reads_pages)
  show "public_handler Readyz"
    by (rule public_same) (auto simp: Readyz_def external_def split: list.split fault.split)
qed

lemma public_RefreshPage [public_intros]:
  assumes J: "jwt_laws (st_JWT S)"
  shows "public_handler (RefreshPage S)"
proof (rule public_same)
  fix c w
  have p: "ParseRefreshToken (st_JWT S) (st_Ext S) v w = (r1, w1) \<Longrightarrow> w_db w1 = w_db w" for v r1 w1
    using J unfolding ParseRefreshToken_def jwt_laws_def by (blast intro: quiet_same(1) [OF quiet_parseToken])
  show "w_db (snd (RefreshPage S c w)) = w_db w"
    by (auto simp: RefreshPage_def Let_def split: prod.split sum.split option.split dest!: p reads_pages(4) issueSession_db)
qed

lemma public_changing [public_intros]:
  "public_handler (RegisterPage S)" "public_handler (ForgotPassword S)" "public_handler (ResetPasswordPage S)"
  "public_handler (UpdateProfilePage S)"
proof -
  show "public_handler (ForgotPassword S)"
    unfolding public_handler_def ForgotPassword_def Let_def answer_db
    using SendResetByEmail_unprivileged by (metis surjective_pairing)
  show "public_handler (ResetPasswordPage S)"
    unfolding public_handler_def ResetPasswordPage_def Let_def
    by (auto split: prod.split sum.split dest: ResetPassword_unprivileged)
  show "public_handler (UpdateProfilePage S)"
    unfolding public_handler_def UpdateProfilePage_def Let_def
    by (auto split: prod.split sum.split dest: UpdateProfile_unprivileged)
  show "public_handler (RegisterPage S)"
    unfolding public_handler_def
  proof (intro allI impI)
    fix c and w :: world assume ok: "users_ok (w_db w) (w_fresh w)"
    have v: "w_db w1 = w_db w \<and> w_fresh w1 = w_fresh w" if "ValidateCode code w = (r1, w1)" for code r1 w1
      using readsD [OF reads_invitations(2) that] by simp
    have reg: "unprivileged (w_db w) (w_db w2)" if "ValidateCode code w = (r1, w1)" "Register e h m p w1 = (r2, w2)" for code r1 w1 e h m p r2 w2
      using Register_unprivileged [OF _ that(2)] v [OF that(1)] ok by simp
    have red: "unprivileged (w_db w2) (w_db (snd (RedeemInvitation code u w2)))" for code u w2
      using RedeemInvitation_unprivileged by (metis surjective_pairing)
    note both = unprivileged_trans [OF reg red]
    show "unprivileged (w_db w) (w_db (snd (RegisterPage S c w)))"
      using v by (auto simp: RegisterPage_def Let_def split: prod.split sum.split dest!: issueSession_db intro: reg both)
  qed
qed

lemma public_guarded [public_intros]:
  assumes J: "jwt_laws (st_JWT S)" and h: "public_handler h"
  shows "public_handler (requireAuth S (loadCurrentViewer S h))"
  unfolding public_handler_def
proof (intro allI impI)
  fix c and w :: world assume ok: "users_ok (w_db w) (w_fresh w)"
  obtain r cs w' where run: "requireAuth S (loadCurrentViewer S h) c w = ((r, cs), w')" by (metis surj_pair)
  have "unprivileged (w_db w) (w_db w')"
    using J run
  proof (cases rule: app_guard)
    case (passed i row claims w1 cs2)
    with h ok show ?thesis unfolding public_handler_def by (metis snd_conv)
  qed simp
  with run show "unprivileged (w_db w) (w_db (snd (requireAuth S (loadCurrentViewer S h) c w)))" by simp
qed

text \<open>A rate limiter lets a request through or answers it, and nothing else.\<close>

definition limits :: "middleware \<Rightarrow> bool" where
  "limits rl \<longleftrightarrow> (\<forall>h c w. rl h c w = h c w \<or> (\<exists>r. rl h c w = answer r w))"

lemma public_limited: "limits rl \<Longrightarrow> public_handler h \<Longrightarrow> public_handler (rl h)"
  unfolding limits_def public_handler_def by (metis answer_db unprivileged_refl)

section \<open>The table of routes\<close>

definition admin_area :: "string \<Rightarrow> bool" where
  "admin_area path \<longleftrightarrow> HasPrefix path ''/app/admin'' \<or> HasPrefix path ''/api/v1/games''"

lemma routes_guarded:
  assumes J: "jwt_laws (st_JWT S)" and rl: "limits rl"
  shows "list_all (\<lambda>(m, path, h). (\<exists>h'. h = requireAuth S (loadCurrentViewer S (requireRole RoleAdmin h'))) \<or>
    \<not> admin_area path \<and> public_handler h) (registerRoutes S rl)"
  unfolding registerRoutes_def Let_def list.pred_inject prod.case admin_area_def HasPrefix_def
  by (intro conjI; ((rule disjI1, rule exI, rule refl) | (rule disjI2, rule conjI, simp, intro public_intros J public_limited [OF rl]) | simp))

section \<open>Signing up\<close>

text \<open>In a world without faults a registration meets none, and the clock a call reads does not move under it.\<close>

definition stays_calm :: "'a svc \<Rightarrow> bool" where
  "stays_calm m \<longleftrightarrow> (\<forall>w. (w_faults w = [] \<longrightarrow> w_faults (snd (m w)) = []) \<and> w_now (snd (m w)) = w_now w)"

named_theorems calm_intros "methods that bring no faults and take no time of their own"

lemma calm_steps [calm_intros]:
  "stays_calm (sret a)" "stays_calm (sfail err)" "stays_calm (of_sum x)" "stays_calm (query f)" "stays_calm now"
  "stays_calm (rand_bytes n)"
  by (simp_all add: stays_calm_def sret_def sfail_def of_sum_def query_def now_def rand_bytes_def external_def split: list.split fault.split)

lemma calm_external: "(\<And>w. w_faults (snd (f w)) = w_faults w \<and> w_now (snd (f w)) = w_now w) \<Longrightarrow> stays_calm (external f)"
  by (simp add: stays_calm_def external_def split: list.split fault.split)

lemma calm_exec [calm_intros]: "stays_calm (exec f)"
  unfolding exec_def by (rule calm_external) simp

lemma calm_if [calm_intros]: "stays_calm m1 \<Longrightarrow> stays_calm m2 \<Longrightarrow> stays_calm (if b then m1 else m2)"
  by simp

lemma calmD: "stays_calm m \<Longrightarrow> m w = (r, w') \<Longrightarrow> (w_faults w = [] \<longrightarrow> w_faults w' = []) \<and> w_now w' = w_now w"
  unfolding stays_calm_def by (metis snd_conv)

lemma calm_sbind [calm_intros]:
  assumes m: "stays_calm m" and f: "\<And>a. stays_calm (f a)"
  shows "stays_calm (sbind m f)"
  using f unfolding stays_calm_def sbind_def by (auto split: prod.split sum.split dest: calmD [OF m])

lemma calm_on_error [calm_intros]:
  assumes m: "stays_calm m"
  shows "stays_calm (on_error m h)"
  unfolding stays_calm_def on_error_def by (auto split: prod.split sum.split dest: calmD [OF m])

lemma calm_with_tx [calm_intros]:
  assumes m: "stays_calm m"
  shows "stays_calm (with_tx b c m)"
  unfolding stays_calm_def with_tx_def external_def by (auto split: prod.splits sum.splits list.splits fault.splits dest!: calmD [OF m])

lemma calm_Register: "stays_calm (Register e h m p)"
proof -
  have add: "stays_calm (add_role_list i rs)" for i rs
    by (induction rs) (auto intro!: calm_intros calm_external simp: sql_AddRoleToUser_def)
  have create: "stays_calm (sql_CreateUser e h' m' hash a)" for h' m' hash a
    unfolding sql_CreateUser_def by (rule calm_external) (auto simp: Let_def split: option.split)
  have hash: "stays_calm (HashPassword e p)"
    unfolding HashPassword_def by (intro calm_intros) (auto intro: calm_intros split: option.split)
  show ?thesis
    unfolding Register_def setRoles_def sql_RemoveAllRolesFromUser_def GetUser_def sql_GetUserByID_def hydrateUser_def
      sql_ListRoleNamesByUser_def
    by (intro calm_intros add create hash)
qed

lemma calm_Redeem: "stays_calm (RedeemInvitation code u)"
  unfolding RedeemInvitation_def ValidateCode_def sql_GetInvitationByCode_def sql_MarkInvitationUsed_def
  by (intro calm_intros calm_external) (simp add: update_invitation_def)

abbreviation welcomed :: reply where
  "welcomed \<equiv> Plain (Redirect (withFlash ''/app'' ''Welcome aboard.''))"

lemma RegisterPage_cases:
  assumes run: "RegisterPage S c w = ((r, cs), w')"
  obtains (refused) "w_db w' = w_db w" and "r \<noteq> welcomed"
  | (tried) iv w1 res w2 where "ValidateCode (FormValue c ''code'') w = (Inr iv, w1)"
      and "lower (st_Ext S) (TrimSpace (FormValue c ''email'')) = iv_Email iv"
      and "Register (st_Ext S) (FormValue c ''handle'') (FormValue c ''email'') (FormValue c ''password'') w1 = (res, w2)"
      and "\<And>err. res = Inl err \<Longrightarrow> w' = w2 \<and> r \<noteq> welcomed"
      and "\<And>user. res = Inr user \<Longrightarrow> w_db w' = w_db (snd (RedeemInvitation (FormValue c ''code'') (user_ID user) w2))"
proof (cases "FormValue c ''code'' = []")
  case True
  with run refused show ?thesis by (auto simp: RegisterPage_def answer_def withFlash_def)
next
  case False
  obtain v w1 where v: "ValidateCode (FormValue c ''code'') w = (v, w1)" by force
  have db: "w_db w1 = w_db w" by (rule reads_pages(1) [OF v])
  show ?thesis
  proof (cases "\<exists>iv. v = Inr iv \<and> lower (st_Ext S) (TrimSpace (FormValue c ''email'')) = iv_Email iv")
    case no: False
    with run False v db refused show ?thesis
      by (auto simp: RegisterPage_def Let_def answer_def split: sum.splits if_splits)
  next
    case True
    then obtain iv where iv: "v = Inr iv" "lower (st_Ext S) (TrimSpace (FormValue c ''email'')) = iv_Email iv" by blast
    obtain res w2 where reg: "Register (st_Ext S) (FormValue c ''handle'') (FormValue c ''email'') (FormValue c ''password'') w1 = (res, w2)"
      by force
    show ?thesis
    proof (rule tried [OF v [unfolded iv(1)] iv(2) reg])
      fix err assume "res = Inl err"
      with run False v iv reg show "w' = w2 \<and> r \<noteq> welcomed" by (auto simp: RegisterPage_def answer_def)
    next
      fix user assume "res = Inr user"
      with run False v iv reg show "w_db w' = w_db (snd (RedeemInvitation (FormValue c ''code'') (user_ID user) w2))"
        by (auto simp: RegisterPage_def answer_def Let_def split: prod.splits dest: issueSession_db)
    qed
  qed
qed

lemma normalizeEmail_Inr: "normalizeEmail e email = Inr m \<Longrightarrow> m = lower e (TrimSpace email)"
  by (auto simp: normalizeEmail_def Let_def split: option.splits if_splits)

lemma Redeem_calm:
  assumes ok: "invitations_ok (w_db w) n" and calm: "calm w" and v: "v \<in> set (db_invitations (w_db w))" "ir_UsedAt v = None"
    "w_now w \<le> ir_ExpiresAt v" and u: "u \<in> ur_ID ` set (db_users (w_db w))"
  shows "w_db (snd (RedeemInvitation (ir_Code v) u w)) = (w_db w)\<lparr>db_invitations :=
    map (\<lambda>v'. if ir_ID v' = ir_ID v then v'\<lparr>ir_UsedBy := Some u, ir_UsedAt := Some (w_now w)\<rparr> else v') (db_invitations (w_db w))\<rparr>"
  using ValidateCode_calm [OF ok calm v(1)] v calm u
  by (simp add: RedeemInvitation_def run_simps sql_MarkInvitationUsed_def external_calm update_invitation_def mapInvitationRow_def)

text \<open>The page a used code gets, whatever else the form holds.\<close>

lemma RegisterPage_used:
  assumes ok: "invitations_ok (w_db w) n" and calm: "calm w" and v: "v \<in> set (db_invitations (w_db w))" "ir_UsedAt v \<noteq> None"
    and cd: "FormValue c ''code'' = ir_Code v" "ir_Code v \<noteq> []"
  shows "\<exists>form. RegisterPage S c w = ((Rendered 422 ''public/register'' (InviteRegisterView (baseView c ''Register'') form (ir_Code v) []
    ''That invitation has already been used.''), []), w)"
  using ValidateCode_calm [OF ok calm v(1)] v(2) cd
  by (auto simp: RegisterPage_def Let_def answer_def serviceMessage_def)

lemma signup_account:
  assumes ok: "world_ok w" and val: "ValidateCode code w = (Inr iv, w1)"
    and addr: "lower e (TrimSpace email) = iv_Email iv" and reg: "Register e handle email pw w1 = (res, w2)"
  shows "w_db w2 = w_db w \<and> (\<exists>err. res = Inl err) \<or>
    (\<exists>v row. v \<in> set (db_invitations (w_db w)) \<and> ir_Code v = code \<and> ir_UsedAt v = None \<and> w_now w \<le> ir_ExpiresAt v \<and>
       ur_Email row = ir_Email v \<and> ur_ID row = w_fresh w \<and> db_users (w_db w2) = db_users (w_db w) @ [row] \<and>
       roles_of (w_db w2) (ur_ID row) = {1} \<and> (res = Inr (hydrated (w_db w2) row) \<or> (\<exists>err. res = Inl err)) \<and>
       db_invitations (w_db w2) = db_invitations (w_db w) \<and> invitations_ok (w_db w2) (w_fresh w2))"
proof -
  from ValidateCode_Inr [OF val] obtain v where v: "v \<in> set (db_invitations (w_db w))" "ir_Code v = code" "ir_UsedAt v = None"
    "w_now w \<le> ir_ExpiresAt v" "iv = mapInvitationRow v []" and same: "w_db w1 = w_db w" "w_now w1 = w_now w" "w_fresh w1 = w_fresh w"
    by blast
  have u1: "users_ok (w_db w1) (w_fresh w1)" and r1: "refs_ok (w_db w1) (w_fresh w1)"
    using ok same by (simp_all add: world_ok_def)
  have inv2: "invitations_ok (w_db w2) (w_fresh w2)" using keepsD [OF keeps_refs_methods(1) r1 reg] by (simp add: refs_ok_def)
  from create_account_cases [OF u1 reg [unfolded Register_eq]]
  consider "w_db w2 = w_db w1 \<and> (\<exists>err. res = Inl err)"
    | row where "new_account e handle email pw True (role_ids (normalizeRoles e [RoleUser])) w1 (w_db w2) row"
        "res = Inr (hydrated (w_db w2) row) \<or> (\<exists>err. res = Inl err)" by blast
  then show ?thesis
  proof cases
    case 1
    with same show ?thesis by simp
  next
    case (2 row)
    then have g: "regrants (ur_ID row) {1} ((w_db w)\<lparr>db_users := db_users (w_db w) @ [row]\<rparr>) (w_db w2)"
      and m: "normalizeEmail e email = Inr (ur_Email row)" and i: "ur_ID row = w_fresh w"
      unfolding new_account_def role_ids_user same by blast+
    have "ur_Email row = ir_Email v" using normalizeEmail_Inr [OF m] addr v(5) by (simp add: mapInvitationRow_def)
    moreover have "roles_of (w_db w2) (ur_ID row) = {1}" using g by (simp add: regrants_def)
    ultimately show ?thesis using v same regrants_db [OF g] i 2(2) inv2
      by (intro disjI2 exI [of _ v] exI [of _ row]) simp
  qed
qed

lemma user_ID_hydrated [simp]: "user_ID (hydrated d row) = ur_ID row"
  by (simp add: hydrated_def)

lemma Redeem_frames: "accounts (w_db (snd (RedeemInvitation code u w))) = accounts (w_db w)"
  using frames_invitation_methods(4) unfolding frames_def by (metis (no_types, lifting) prod.inject)

text \<open>After a sign-up that met no faults the invitation is used up.\<close>

lemma redeemed_after_signup:
  assumes val: "ValidateCode code w = (Inr iv, w1)" and reg: "Register e handle email pw w1 = (res, w2)"
    and inv: "db_invitations (w_db w2) = db_invitations (w_db w)" "invitations_ok (w_db w2) (w_fresh w2)"
    and v: "v \<in> set (db_invitations (w_db w))" "ir_Code v = code" "ir_UsedAt v = None" "w_now w \<le> ir_ExpiresAt v"
    and row: "row \<in> set (db_users (w_db w2))" and calm: "w_faults w = []"
    and w3: "w_db w3 = w_db (snd (RedeemInvitation code (ur_ID row) w2))" "w_faults w3 = []"
    and page: "FormValue c ''code'' = code" "code \<noteq> []"
  shows "\<exists>form. RegisterPage S c w3 = ((Rendered 422 ''public/register'' (InviteRegisterView (baseView c ''Register'') form code []
    ''That invitation has already been used.''), []), w3)"
proof -
  have "stays_calm (ValidateCode code)"
    unfolding ValidateCode_def sql_GetInvitationByCode_def by (intro calm_intros)
  then have "w_faults w1 = []" and n1: "w_now w1 = w_now w" using val calm unfolding stays_calm_def by (metis snd_conv)+
  then have "calm w2" and n2: "w_now w2 = w_now w"
    using calm_Register reg unfolding stays_calm_def calm_def by (metis snd_conv)+
  from Redeem_calm [OF inv(2) \<open>calm w2\<close>, of v "ur_ID row"] v inv(1) n2 row
  have db: "w_db w3 = (w_db w2)\<lparr>db_invitations := map (\<lambda>v'. if ir_ID v' = ir_ID v
      then v'\<lparr>ir_UsedBy := Some (ur_ID row), ir_UsedAt := Some (w_now w2)\<rparr> else v') (db_invitations (w_db w2))\<rparr>"
    using w3(1) by simp
  have mem: "v\<lparr>ir_UsedBy := Some (ur_ID row), ir_UsedAt := Some (w_now w2)\<rparr> \<in> set (db_invitations (w_db w3))"
    using v(1) inv(1) by (auto simp: db)
  obtain r4 w4 where red: "RedeemInvitation code (ur_ID row) w2 = (r4, w4)" by force
  have "invitations_ok (w_db w3) (w_fresh w4)"
    using keepsD [OF keeps_invitation_methods(4) inv(2) red] w3(1) red by simp
  from RegisterPage_used [OF this _ mem, of c S] w3(2) v(2) page show ?thesis by (simp add: calm_def)
qed

section \<open>Properties\<close>

text \<open>A site to evaluate on, an administrator who is signed in there, and a visitor with an invitation.\<close>

definition sample_site :: site where
  "sample_site = \<lparr>st_JWT = sample_jwt, st_Ext = sample_ext, st_Manager = sample_manager, st_Mailgun = sample_mailgun,
     st_BaseURL = ''http://x'', st_AdminEmail = ''a@b.io'', st_RequestAccessEnabled = True,
     st_LoginBody = (\<lambda>_. None), st_GameBody = (\<lambda>_. None), st_RFC3339 = (\<lambda>_. []), st_Version = ''0.1''\<rparr>"

definition sample_context :: "(string \<times> string list) list \<Rightarrow> echoContext" where
  "sample_context form = \<lparr>cx_Request = \<lparr>wr_Session = sample_request, wr_Form = form, wr_Query = [], wr_ID = [], wr_Body = [],
     wr_RealIP = ''::1''\<rparr>, cx_Claims = None, cx_Viewer = None\<rparr>"

definition admin_world :: world where
  "admin_world = sample_world (initial_db\<lparr>db_users := [alice], db_user_roles := [(7, 2)], db_keys := sample_keys\<rparr>) 9"

definition visitor_world :: world where
  "visitor_world = sample_world (initial_db\<lparr>db_users := [alice\<lparr>ur_ID := 2\<rparr>], db_user_roles := [(2, 2)], db_keys := sample_keys,
     db_invitations := [carol\<lparr>ir_InvitedBy := 2\<rparr>]\<rparr>) 7"

definition visitor_form :: "(string \<times> string list) list" where
  "visitor_form = [(''code'', [''abc'']), (''handle'', ['' Carol'']), (''email'', [''C@b.io '']), (''password'', [''password1''])]"

lemma sample_site_laws: "jwt_laws (st_JWT sample_site)"
  using sample_jwt_laws by (simp add: sample_site_def jwt_laws_def jwt_complete_def)

lemma sample_keys_ok: "db_keys d = sample_keys \<Longrightarrow> 7 \<le> n \<Longrightarrow> keys_ok d n"
  by (auto simp: keys_ok_def key_shape_def active_of_def sample_keys_def sample_key_def
      TokenTypeAccess_def TokenTypeRefresh_def)

lemma admin_world_ok: "users_ok (w_db admin_world) (w_fresh admin_world)"
  by (simp add: admin_world_def sample_world_def users_ok_def initial_db_def alice_def handlePattern_def handle_char_def)

lemma admin_page:
  "\<exists>p. requireAuth sample_site (loadCurrentViewer sample_site (requireRole RoleAdmin ShowCreateUser)) (sample_context []) admin_world =
     ((Rendered 200 ''admin/user-form'' p, []), admin_world)"
proof -
  let ?w = "admin_world"
  have auth: "RequireAuth sample_jwt sample_ext sample_manager sample_request ?w =
      (Next (jt_Claims (sample_token 5 ''access'' 10000000000)) [], ?w)"
    using sample_passes_in [of ?w 9, OF _ _ _ _ sample_bearer(1)] sample_keys_ok [of "w_db ?w" 9] by (simp add: admin_world_def sample_world_def)
  have calm: "calm ?w" by (simp add: calm_def admin_world_def sample_world_def)
  have user: "GetUser 7 ?w = (Inr (hydrated (w_db ?w) alice), ?w)"
    using GetUser_calm [OF admin_world_ok calm, of alice] by (simp add: admin_world_def sample_world_def alice_def)
  have adm: "RoleAdmin \<in> set (user_Roles (hydrated (w_db ?w) alice))"
    by (simp add: hydrated_def role_names_def admin_world_def sample_world_def alice_def initial_db_def RoleAdmin_def)
  have act: "user_IsActive (hydrated (w_db ?w) alice)" by (simp add: hydrated_def alice_def)
  obtain rs where roles: "ListRoles ?w = (Inr rs, ?w)" using calm by (auto simp: ListRoles_def sql_ListRoles_def run_simps query_calm)
  have id: "UserID sample_jwt (jt_Claims (sample_token 5 ''access'' 10000000000)) = Some 7"
    using sample_jwt_laws(2) by (simp add: UserID_def sample_token_def jwt_complete_def sample_jwt_def table_jwt_def)
  show ?thesis
    by (simp add: requireAuth_def loadCurrentViewer_def requireRole_def sample_site_def sample_context_def auth user id
        CurrentViewer_def HasRole_def list_ex_iff adm act ShowCreateUser_def roles answer_def)
qed

lemma visitor_world_ok: "world_ok visitor_world"
proof -
  have "users_ok (w_db visitor_world) (w_fresh visitor_world)"
    by (simp add: visitor_world_def sample_world_def users_ok_def initial_db_def alice_def handlePattern_def handle_char_def)
  moreover have "keys_ok (w_db visitor_world) (w_fresh visitor_world)"
    by (simp add: visitor_world_def sample_world_def sample_keys_ok)
  moreover have "refs_ok (w_db visitor_world) (w_fresh visitor_world)"
    by (simp add: visitor_world_def sample_world_def refs_ok_def invitations_ok_def resets_ok_def carol_def alice_def initial_db_def)
  moreover have "games_ok visitor_world"
    by (simp add: visitor_world_def sample_world_def games_ok_def initial_db_def)
  ultimately show ?thesis by (simp add: world_ok_def)
qed

definition carol_user :: user_row where
  "carol_user = \<lparr>ur_ID = 7, ur_Handle = ''carol'', ur_Email = ''c@b.io'', ur_PasswordHash = ''password1'', ur_IsActive = True,
     ur_CreatedAt = 1000, ur_UpdatedAt = 1000\<rparr>"

lemma visitor_Register:
  "Register sample_ext '' Carol'' ''C@b.io '' ''password1'' visitor_world =
     (Inr (hydrated (initial_db\<lparr>db_user_roles := [(2, 2), (7, 1)]\<rparr>) carol_user),
      visitor_world\<lparr>w_db := (w_db visitor_world)\<lparr>db_users := [alice\<lparr>ur_ID := 2\<rparr>, carol_user], db_user_roles := [(2, 2), (7, 1)]\<rparr>, w_fresh := 8\<rparr>)"
proof -
  have n: "normalizeHandle sample_ext '' Carol'' = Inr ''carol''" "normalizeEmail sample_ext ''C@b.io '' = Inr ''c@b.io''"
    "validatePassword ''password1'' = Inr ()" "normalizeRoles sample_ext [''user''] = [''user'']" by code_simp+
  have v: "user_violation sample_ext (w_db visitor_world) None ''carol'' ''c@b.io'' = None"
    unfolding visitor_world_def sample_world_def world.select_convs by code_simp
  have g: "ext_bcrypt_generate sample_ext p s = Some p" for p s by (simp add: sample_ext_def)
  show ?thesis
    using v by (simp add: RoleUser_def Register_def run_simps n g HashPassword_def rand_bytes_def external_def sample_world_def visitor_world_def
        with_tx_def sql_CreateUser_def Let_def setRoles_def sql_RemoveAllRolesFromUser_def exec_def
        sql_AddRoleToUser_def add_roles_def GetUser_def sql_GetUserByID_def query_def find_row_def hydrateUser_def
        sql_ListRoleNamesByUser_def hydrated_def alice_def carol_user_def)
      (simp add: initial_db_def role_names_def hydrateUser_def sql_ListRoleNamesByUser_def query_def external_def run_simps)
qed

lemma visitor_signs_up:
  "\<exists>cs w'. RegisterPage sample_site (sample_context visitor_form) visitor_world = ((welcomed, cs), w') \<and>
     db_users (w_db w') \<noteq> db_users (w_db visitor_world) \<and> w_faults w' = []"
proof -
  let ?w = "visitor_world" and ?c = "sample_context visitor_form" and ?v = "carol\<lparr>ir_InvitedBy := 2\<rparr>"
  have f: "FormValue ?c ''code'' = ''abc''" "FormValue ?c ''handle'' = '' Carol''" "FormValue ?c ''email'' = ''C@b.io ''"
    "FormValue ?c ''password'' = ''password1''"
    by (simp_all add: FormValue_def sample_context_def visitor_form_def)
  have calm: "calm ?w" by (simp add: calm_def visitor_world_def sample_world_def)
  have inv: "invitations_ok (w_db ?w) (w_fresh ?w)" using visitor_world_ok by (simp add: world_ok_def refs_ok_def)
  have val: "ValidateCode ''abc'' ?w = (Inr (mapInvitationRow ?v []), ?w)"
    using ValidateCode_calm [OF inv calm, of ?v] by (simp add: visitor_world_def sample_world_def carol_def)
  have addr: "lower sample_ext (TrimSpace ''C@b.io '') = ''c@b.io''" by code_simp
  obtain w2 where reg: "Register sample_ext '' Carol'' ''C@b.io '' ''password1'' ?w =
      (Inr (hydrated (initial_db\<lparr>db_user_roles := [(2, 2), (7, 1)]\<rparr>) carol_user), w2)"
    and w2: "db_users (w_db w2) = [alice\<lparr>ur_ID := 2\<rparr>, carol_user]" "w_faults w2 = []" "w_now w2 = 1000" "db_keys (w_db w2) = sample_keys"
    using visitor_Register by (simp add: visitor_world_def sample_world_def)
  obtain r3 w3 where red: "RedeemInvitation ''abc'' 7 w2 = (r3, w3)" by force
  have w3: "accounts (w_db w3) = accounts (w_db w2)" "db_keys (w_db w3) = db_keys (w_db w2)" "w_faults w3 = []" "w_now w3 = 1000"
    using frames_invitation_methods(4) red calm_Redeem w2
    unfolding frames_def stays_calm_def by (metis (no_types, lifting) prod.inject snd_conv)+
  have id: "ur_ID carol_user = 7" by (simp add: carol_user_def)
  have "IssueTokens sample_jwt sample_ext sample_manager 7 w3 =
     (Inr \<lparr>tp_AccessToken = ''A'', tp_AccessExpiry = 10000001000, tp_RefreshToken = ''R'', tp_RefreshExpiry = 20000001000\<rparr>, w3)"
    by (rule sample_tokens_in) (simp_all add: calm_def w2 w3)
  then have "\<exists>cs. RegisterPage sample_site ?c ?w = ((welcomed, cs), w3)"
    by (simp add: RegisterPage_def Let_def f sample_site_def val addr mapInvitationRow_def carol_def reg id red issueSession_def first_reply_def)
  moreover have "db_users (w_db w3) \<noteq> db_users (w_db ?w)" using w2 w3(1) by (simp add: visitor_world_def sample_world_def)
  ultimately show ?thesis using w3(3) by blast
qed

text \<open>C1.  Whatever a request to any route sends: what only an administrator may change (who is an administrator, whether an
  account is there and active, games, signing keys, invitations) stays as it is, and the admin area answers with a refusal,
  unless the request carries a usable token of an account that is an active administrator at that moment.\<close>

theorem privileged_routes:
  assumes "jwt_laws (st_JWT S)" and "limits rl" and "users_ok (w_db w) (w_fresh w)"
    and "(meth, path, h) \<in> set (registerRoutes S rl)" and "h c w = ((r, cs), w')"
    and "\<not> unprivileged (w_db w) (w_db w') \<or> admin_area path \<and> \<not> refusal r"
  shows "\<exists>i. signed_in_as S c w i \<and> active_admin w i"
proof -
  from routes_guarded [OF assms(1,2)] assms(4)
  consider h' where "h = requireAuth S (loadCurrentViewer S (requireRole RoleAdmin h'))"
    | "\<not> admin_area path" "public_handler h" by (fastforce simp: list_all_iff)
  then show ?thesis
  proof cases
    case 1
    with admin_guard [OF assms(1,3), of h' c r cs w'] assms(5,6) show ?thesis by auto
  next
    case 2
    then have "unprivileged (w_db w) (w_db w')" using assms(3,5) unfolding public_handler_def by (metis snd_conv)
    with 2 assms(6) show ?thesis by blast
  qed
qed

theorem privileged_routes_witness:
  "\<exists>i. signed_in_as sample_site (sample_context []) admin_world i \<and> active_admin admin_world i"
proof -
  obtain p where page: "requireAuth sample_site (loadCurrentViewer sample_site (requireRole RoleAdmin ShowCreateUser))
      (sample_context []) admin_world = ((Rendered 200 ''admin/user-form'' p, []), admin_world)" using admin_page by blast
  show ?thesis
  proof (rule privileged_routes [where rl = "\<lambda>h. h" and path = "''/app/admin/users/new''" and S = sample_site
      and h = "requireAuth sample_site (loadCurrentViewer sample_site (requireRole RoleAdmin ShowCreateUser))"
      and c = "sample_context []" and w = admin_world, OF sample_site_laws _ admin_world_ok _ page])
    show "limits (\<lambda>h. h)" by (simp add: limits_def)
    show "(''GET'', ''/app/admin/users/new'', requireAuth sample_site (loadCurrentViewer sample_site (requireRole RoleAdmin ShowCreateUser)))
      \<in> set (registerRoutes sample_site (\<lambda>h. h))" by (simp add: registerRoutes_def Let_def)
  qed (simp add: admin_area_def HasPrefix_def refusal_def)
qed

text \<open>C4.  An account is made through the sign-up page only with the code of an invitation that is unused and not expired, for
  the address it was sent to, and with the role user alone; when the page welcomes the visitor and nothing failed, the
  invitation is used up, and from then on the page refuses its code to everybody.  (A redemption that fails is only
  logged: then the account is there and the code can still be used.)\<close>

theorem signup_by_invitation:
  assumes "world_ok w" and "RegisterPage S c w = ((r, cs), w')"
    and "db_users (w_db w') \<noteq> db_users (w_db w)"
  shows "\<exists>v row. v \<in> set (db_invitations (w_db w)) \<and> ir_Code v = FormValue c ''code'' \<and> ir_UsedAt v = None \<and>
    w_now w \<le> ir_ExpiresAt v \<and> ur_Email row = ir_Email v \<and> ur_ID row = w_fresh w \<and>
    db_users (w_db w') = db_users (w_db w) @ [row] \<and> roles_of (w_db w') (ur_ID row) = {1} \<and>
    (r = welcomed \<and> w_faults w = [] \<longrightarrow> (\<forall>S2 c2 w2. w_db w2 = w_db w' \<and> w_faults w2 = [] \<and> FormValue c2 ''code'' = ir_Code v \<longrightarrow>
       (\<exists>form. RegisterPage S2 c2 w2 = ((Rendered 422 ''public/register'' (InviteRegisterView (baseView c2 ''Register'') form
          (ir_Code v) [] ''That invitation has already been used.''), []), w2))))"
  using assms(2)
proof (cases rule: RegisterPage_cases)
  case refused
  with assms(3) show ?thesis by simp
next
  case (tried iv w1 res w2)
  have w': "w_db w' = w_db w2 \<and> r \<noteq> welcomed" if "res = Inl err" for err using tried(4) [OF that] by simp
  from signup_account [OF assms(1) tried(1,2,3)] assms(3) w' obtain v row where
    v: "v \<in> set (db_invitations (w_db w))" "ir_Code v = FormValue c ''code''" "ir_UsedAt v = None" "w_now w \<le> ir_ExpiresAt v"
    and row: "ur_Email row = ir_Email v" "ur_ID row = w_fresh w" "db_users (w_db w2) = db_users (w_db w) @ [row]"
      "roles_of (w_db w2) (ur_ID row) = {1}" and mem: "row \<in> set (db_users (w_db w2))"
    and res: "res = Inr (hydrated (w_db w2) row) \<or> (\<exists>err. res = Inl err)"
    and inv: "db_invitations (w_db w2) = db_invitations (w_db w)" "invitations_ok (w_db w2) (w_fresh w2)"
    by auto
  from res show ?thesis
  proof (elim disjE exE)
    fix err assume "res = Inl err"
    from w' [OF this] v row show ?thesis by auto
  next
    assume "res = Inr (hydrated (w_db w2) row)"
    note db = tried(5) [OF this, unfolded user_ID_hydrated]
    have "accounts (w_db w') = accounts (w_db w2)" by (simp add: db Redeem_frames)
    then have acc: "db_users (w_db w') = db_users (w_db w2)" "roles_of (w_db w') = roles_of (w_db w2)" by (simp_all add: roles_of_def fun_eq_iff)
    have later: "\<exists>form. RegisterPage S2 c2 w3 = ((Rendered 422 ''public/register'' (InviteRegisterView (baseView c2 ''Register'') form
          (ir_Code v) [] ''That invitation has already been used.''), []), w3)"
      if "w_faults w = []" "ir_Code v \<noteq> []" "w_db w3 = w_db w'" "w_faults w3 = []" "FormValue c2 ''code'' = ir_Code v" for S2 c2 w3
      using redeemed_after_signup [OF tried(1,3) inv v(1) v(2) v(3,4) mem that(1), of w3 c2 S2] that db v(2) by simp
    have "ir_Code v \<noteq> []" using assms(2,3) v(2) by (auto simp: RegisterPage_def Let_def answer_def)
    with v row acc later show ?thesis by (intro exI [of _ v] exI [of _ row]) simp
  qed
qed

theorem signup_by_invitation_witness:
  "\<exists>(w1 :: world) cs form. RegisterPage sample_site (sample_context visitor_form) visitor_world = ((welcomed, cs), w1) \<and>
     ur_Email (last (db_users (w_db w1))) = ''c@b.io'' \<and>
     RegisterPage sample_site (sample_context visitor_form) w1 = ((Rendered 422 ''public/register'' (InviteRegisterView
       (baseView (sample_context visitor_form) ''Register'') form ''abc'' [] ''That invitation has already been used.''), []), w1)"
proof -
  obtain cs w1 where page: "RegisterPage sample_site (sample_context visitor_form) visitor_world = ((welcomed, cs), w1)"
    and new: "db_users (w_db w1) \<noteq> db_users (w_db visitor_world)" and calm: "w_faults w1 = []"
    using visitor_signs_up by blast
  have "FormValue (sample_context visitor_form) ''code'' = ''abc''"
    by (simp add: FormValue_def sample_context_def visitor_form_def)
  with signup_by_invitation [OF visitor_world_ok page new] page calm show ?thesis
    by (auto simp: visitor_world_def sample_world_def carol_def)
qed

end
