(* ===== verification/Middleware.thy ===== *)
theory Middleware
  imports Server
begin

text \<open>
  internal/middleware: the rate limiter of the sign-in routes (ratelimit.go) and the guard against
  cross-origin requests (fetchmetadata.go).  The token bucket of golang.org/x/time/rate is a parameter;
  \<open>http.CrossOriginProtection\<close> is modelled after the standard library, with the host that \<open>url.Parse\<close>
  finds in an origin as a parameter.  The main results: forgetting idle visitors changes no answer of the
  limiter, and a state-changing request that a browser marks as foreign reaches no handler.
\<close>

section \<open>Rate limiter\<close>

record 'l limiterlib =
  ll_NewLimiter :: "rat \<Rightarrow> int \<Rightarrow> 'l"
  ll_AllowN :: "int \<Rightarrow> int \<Rightarrow> 'l \<Rightarrow> bool \<times> 'l"

record 'l rateLimiterVisitor =
  vi_limiter :: 'l
  vi_lastSeen :: int

record 'l rateLimiter =
  rl_rate :: rat
  rl_burst :: int
  rl_visitors :: "string \<rightharpoonup> 'l rateLimiterVisitor"
  rl_cleanupGap :: int
  rl_lastClean :: int

definition DefaultAuthRate :: rat where
  "DefaultAuthRate = 1 / 6"

definition DefaultAuthBurst :: int where
  "DefaultAuthBurst = 5"

definition NewRateLimiter :: "rat \<Rightarrow> int \<Rightarrow> int \<Rightarrow> 'l rateLimiter" where
  "NewRateLimiter r burst t =
     \<lparr>rl_rate = r, rl_burst = burst, rl_visitors = (\<lambda>_. None), rl_cleanupGap = 600 * second, rl_lastClean = t\<rparr>"

definition drop_idle :: "int \<Rightarrow> int \<Rightarrow> (string \<rightharpoonup> 'l rateLimiterVisitor) \<Rightarrow> (string \<rightharpoonup> 'l rateLimiterVisitor)" where
  "drop_idle gap t vs = (\<lambda>k. case vs k of None \<Rightarrow> None | Some v \<Rightarrow> if t - vi_lastSeen v > gap then None else Some v)"

text \<open>\<open>allow\<close> at the time \<open>t\<close>.  The visitor is a pointer in the code, so the limiter's change is seen in the map;
  the visitor of this request was seen just now and survives the cleaning.\<close>

definition allow :: "'l limiterlib \<Rightarrow> int \<Rightarrow> string \<Rightarrow> 'l rateLimiter \<Rightarrow> bool \<times> 'l rateLimiter" where
  "allow lib t key rl =
     (let v = (case rl_visitors rl key of
                 None \<Rightarrow> \<lparr>vi_limiter = ll_NewLimiter lib (rl_rate rl) (rl_burst rl), vi_lastSeen = t\<rparr>
               | Some v \<Rightarrow> v\<lparr>vi_lastSeen := t\<rparr>);
          vs = (rl_visitors rl)(key \<mapsto> v);
          rl1 = (if t - rl_lastClean rl > rl_cleanupGap rl
                 then rl\<lparr>rl_visitors := drop_idle (rl_cleanupGap rl) t vs, rl_lastClean := t\<rparr>
                 else rl\<lparr>rl_visitors := vs\<rparr>)
      in case ll_AllowN lib t 1 (vi_limiter v) of
           (ok, l) \<Rightarrow> (ok, rl1\<lparr>rl_visitors := (rl_visitors rl1)(key \<mapsto> v\<lparr>vi_limiter := l\<rparr>)\<rparr>))"

text \<open>The middleware keeps the limiter between requests.\<close>

definition RateLimit :: "'l limiterlib \<Rightarrow> 'l rateLimiter \<Rightarrow> handler \<Rightarrow> echoContext \<Rightarrow> world
    \<Rightarrow> ((reply \<times> cookie list) \<times> world) \<times> 'l rateLimiter" where
  "RateLimit lib rl nxt c w =
     (case allow lib (w_now w) (wr_RealIP (cx_Request c)) rl of
        (ok, rl1) \<Rightarrow>
          (if \<not> ok then answer (Plain (TextResponse 429 ''too many requests; please slow down and try again'')) w else nxt c w, rl1))"

lemma RateLimit_limits: "limits (\<lambda>h c w. fst (RateLimit lib rl h c w))"
  unfolding limits_def RateLimit_def by (auto split: prod.split)

section \<open>A limiter for every address\<close>

text \<open>The history of one address: its limiter after requests at the given times.\<close>

definition used :: "'l limiterlib \<Rightarrow> rat \<Rightarrow> int \<Rightarrow> int list \<Rightarrow> 'l" where
  "used lib r b ts = foldl (\<lambda>l t. snd (ll_AllowN lib t 1 l)) (ll_NewLimiter lib r b) ts"

text \<open>The abstract limiter: every address has a limiter of its own that is never forgotten.\<close>

definition spec_answers :: "'l limiterlib \<Rightarrow> rat \<Rightarrow> int \<Rightarrow> (int \<times> string) list \<Rightarrow> bool list" where
  "spec_answers lib r b reqs =
     map (\<lambda>i. fst (ll_AllowN lib (fst (reqs ! i)) 1 (used lib r b (map fst (filter (\<lambda>q. snd q = snd (reqs ! i)) (take i reqs))))))
       [0..<length reqs]"

fun answers :: "'l limiterlib \<Rightarrow> 'l rateLimiter \<Rightarrow> (int \<times> string) list \<Rightarrow> bool list" where
  "answers lib rl [] = []"
| "answers lib rl ((t, key) # reqs) = (case allow lib t key rl of (ok, rl1) \<Rightarrow> ok # answers lib rl1 reqs)"

text \<open>What is relied on of the token bucket: idle for longer than the gap it is full again, as a new one is.\<close>

definition refills :: "'l limiterlib \<Rightarrow> rat \<Rightarrow> int \<Rightarrow> int \<Rightarrow> bool" where
  "refills lib r b gap \<longleftrightarrow> (\<forall>ts t. sorted ts \<and> ts \<noteq> [] \<and> t - last ts > gap \<longrightarrow>
     ll_AllowN lib t 1 (used lib r b ts) = ll_AllowN lib t 1 (ll_NewLimiter lib r b))"

lemma refillsD:
  "refills lib r b gap \<Longrightarrow> sorted ts \<Longrightarrow> ts \<noteq> [] \<Longrightarrow> t - last ts > gap \<Longrightarrow>
     ll_AllowN lib t 1 (used lib r b ts) = ll_AllowN lib t 1 (ll_NewLimiter lib r b)"
  unfolding refills_def by blast

text \<open>The limiter after the requests \<open>past\<close>, the last of them at \<open>t\<close>.\<close>

definition times_of :: "string \<Rightarrow> (int \<times> string) list \<Rightarrow> int list" where
  "times_of key past = map fst (filter (\<lambda>q. snd q = key) past)"

definition remembers :: "'l limiterlib \<Rightarrow> (int \<times> string) list \<Rightarrow> int \<Rightarrow> 'l rateLimiter \<Rightarrow> bool" where
  "remembers lib past t rl \<longleftrightarrow> (\<forall>key. case rl_visitors rl key of
       None \<Rightarrow> times_of key past = [] \<or> t - last (times_of key past) > rl_cleanupGap rl
     | Some v \<Rightarrow> times_of key past \<noteq> [] \<and> vi_lastSeen v = last (times_of key past) \<and>
         vi_limiter v = used lib (rl_rate rl) (rl_burst rl) (times_of key past))"

lemma used_snoc [simp]: "used lib r b (ts @ [t]) = snd (ll_AllowN lib t 1 (used lib r b ts))"
  by (simp add: used_def)

lemma used_Nil [simp]: "used lib r b [] = ll_NewLimiter lib r b"
  by (simp add: used_def)

lemma times_of_snoc [simp]: "times_of key (past @ [(t, k)]) = (if k = key then times_of key past @ [t] else times_of key past)"
  by (simp add: times_of_def)

lemma sorted_times_of: "sorted (map fst past) \<Longrightarrow> sorted (times_of key past)"
  unfolding times_of_def by (metis sorted_filter)

lemma allow_step:
  assumes law: "refills lib (rl_rate rl) (rl_burst rl) (rl_cleanupGap rl)" and past: "sorted (map fst past)"
    and inv: "remembers lib past t rl" and t: "t \<le> t'"
  obtains rl' where "allow lib t' key rl = (fst (ll_AllowN lib t' 1 (used lib (rl_rate rl) (rl_burst rl) (times_of key past))), rl')"
    and "remembers lib (past @ [(t', key)]) t' rl'"
    and "rl_rate rl' = rl_rate rl" "rl_burst rl' = rl_burst rl" "rl_cleanupGap rl' = rl_cleanupGap rl"
proof -
  let ?new = "ll_NewLimiter lib (rl_rate rl) (rl_burst rl)" and ?ts = "times_of key past"
  let ?u = "used lib (rl_rate rl) (rl_burst rl) ?ts"
  define v where "v = (case rl_visitors rl key of None \<Rightarrow> \<lparr>vi_limiter = ?new, vi_lastSeen = t'\<rparr> | Some v \<Rightarrow> v\<lparr>vi_lastSeen := t'\<rparr>)"
  have same: "ll_AllowN lib t' 1 (vi_limiter v) = ll_AllowN lib t' 1 ?u"
  proof (cases "rl_visitors rl key")
    case None
    with inv have "?ts = [] \<or> t - last ?ts > rl_cleanupGap rl" by (auto simp: remembers_def dest: spec [of _ key])
    then show ?thesis
    proof
      assume "t - last ?ts > rl_cleanupGap rl"
      then have "?ts = [] \<or> ll_AllowN lib t' 1 ?u = ll_AllowN lib t' 1 ?new"
        using refillsD [OF law sorted_times_of [OF past, of key], of t'] t by auto
      with None show ?thesis by (auto simp: v_def)
    qed (simp add: v_def None)
  next
    case (Some v')
    with inv show ?thesis by (auto simp: remembers_def v_def dest: spec [of _ key])
  qed
  have seen: "vi_lastSeen v = t'" by (simp add: v_def split: option.split)
  let ?vs = "(rl_visitors rl)(key \<mapsto> v)"
  define rl1 where "rl1 = (if t' - rl_lastClean rl > rl_cleanupGap rl
      then rl\<lparr>rl_visitors := drop_idle (rl_cleanupGap rl) t' ?vs, rl_lastClean := t'\<rparr> else rl\<lparr>rl_visitors := ?vs\<rparr>)"
  define rl' where "rl' = rl1\<lparr>rl_visitors := (rl_visitors rl1)(key \<mapsto> v\<lparr>vi_limiter := snd (ll_AllowN lib t' 1 ?u)\<rparr>)\<rparr>"
  have run: "allow lib t' key rl = (fst (ll_AllowN lib t' 1 ?u), rl')"
    unfolding allow_def Let_def v_def [symmetric] rl1_def [symmetric] same rl'_def by (simp split: prod.split)
  have set: "rl_rate rl' = rl_rate rl" "rl_burst rl' = rl_burst rl" "rl_cleanupGap rl' = rl_cleanupGap rl"
    by (simp_all add: rl'_def rl1_def)
  have "remembers lib (past @ [(t', key)]) t' rl'"
    unfolding remembers_def set
  proof
    fix k
    show "case rl_visitors rl' k of None \<Rightarrow> times_of k (past @ [(t', key)]) = [] \<or> t' - last (times_of k (past @ [(t', key)])) > rl_cleanupGap rl
      | Some v \<Rightarrow> times_of k (past @ [(t', key)]) \<noteq> [] \<and> vi_lastSeen v = last (times_of k (past @ [(t', key)])) \<and>
          vi_limiter v = used lib (rl_rate rl) (rl_burst rl) (times_of k (past @ [(t', key)]))"
    proof (cases "k = key")
      case True
      then show ?thesis using seen by (simp add: rl'_def)
    next
      case False
      have kept: "rl_visitors rl' k = rl_visitors rl k \<or>
          rl_visitors rl' k = None \<and> (\<exists>v'. rl_visitors rl k = Some v' \<and> t' - vi_lastSeen v' > rl_cleanupGap rl)"
        using False by (auto simp: rl'_def rl1_def drop_idle_def split: option.split)
      with inv False t show ?thesis
        by (auto simp: remembers_def split: option.splits dest!: spec [of _ k])
    qed
  qed
  with run set that show thesis by blast
qed

lemma answers_spec:
  assumes "refills lib (rl_rate rl) (rl_burst rl) (rl_cleanupGap rl)" and "sorted (map fst (past @ reqs))"
    and "remembers lib past t rl" and "\<forall>q \<in> set reqs. t \<le> fst q"
  shows "answers lib rl reqs = map (\<lambda>i. fst (ll_AllowN lib (fst ((past @ reqs) ! i)) 1
      (used lib (rl_rate rl) (rl_burst rl) (times_of (snd ((past @ reqs) ! i)) (take i (past @ reqs))))))
    [length past..<length past + length reqs]"
  using assms
proof (induction reqs arbitrary: past t rl)
  case (Cons q reqs)
  obtain t' key where q: "q = (t', key)" by force
  have past: "sorted (map fst past)" using Cons.prems(2) by (simp add: sorted_append)
  obtain rl' where run: "allow lib t' key rl = (fst (ll_AllowN lib t' 1 (used lib (rl_rate rl) (rl_burst rl) (times_of key past))), rl')"
    and inv: "remembers lib (past @ [(t', key)]) t' rl'"
    and set: "rl_rate rl' = rl_rate rl" "rl_burst rl' = rl_burst rl" "rl_cleanupGap rl' = rl_cleanupGap rl"
    using allow_step [OF Cons.prems(1) past Cons.prems(3), of t' key] Cons.prems(4) q by auto
  have later: "\<forall>q \<in> set reqs. t' \<le> fst q" using Cons.prems(2) q by (auto simp: sorted_append)
  have "answers lib rl' reqs = map (\<lambda>i. fst (ll_AllowN lib (fst ((past @ q # reqs) ! i)) 1
      (used lib (rl_rate rl) (rl_burst rl) (times_of (snd ((past @ q # reqs) ! i)) (take i (past @ q # reqs))))))
    [Suc (length past)..<length past + length (q # reqs)]"
    using Cons.IH [OF _ _ inv later] Cons.prems(1,2) q set by simp
  moreover have "[length past..<length past + length (q # reqs)] = length past # [Suc (length past)..<length past + length (q # reqs)]"
    by (simp add: upt_rec)
  ultimately show ?case using run q by simp
qed simp

section \<open>Cross-origin requests\<close>

record crossHeaders =
  ch_SecFetchSite :: string
  ch_Origin :: string
  ch_Host :: string

text \<open>\<open>Check\<close> of the standard library, without exceptions for origins: whether the request is allowed.\<close>

definition crossOriginCheck :: "(string \<Rightarrow> string option) \<Rightarrow> crossHeaders \<Rightarrow> string \<Rightarrow> bool" where
  "crossOriginCheck urlHost hdr meth =
     (if meth \<in> {''GET'', ''HEAD'', ''OPTIONS''} then True
      else if ch_SecFetchSite hdr = [] then
        (if ch_Origin hdr = [] then True else urlHost (ch_Origin hdr) = Some (ch_Host hdr))
      else ch_SecFetchSite hdr \<in> {''same-origin'', ''none''})"

definition FetchMetadata :: "(string \<Rightarrow> string option) \<Rightarrow> crossHeaders \<Rightarrow> middleware" where
  "FetchMetadata urlHost hdr nxt c w =
     (if \<not> crossOriginCheck urlHost hdr (rq_Method (wr_Session (cx_Request c)))
      then answer (Plain (TextResponse 403 ''forbidden: cross-origin request rejected'')) w
      else nxt c w)"

text \<open>A page that only shows something changes nothing but the faults to come.\<close>

definition inert :: "handler \<Rightarrow> bool" where
  "inert h \<longleftrightarrow> (\<forall>c w. \<exists>fs. snd (h c w) = w\<lparr>w_faults := fs\<rparr>)"

named_theorems inert_intros "handlers that change nothing"

lemma quiet_external_look [quiet_intros]: "(\<And>w. snd (f w) = w) \<Longrightarrow> quiet (external f)"
  unfolding quiet_def external_def by (auto split: list.split fault.split intro: same_world)

lemma quiet_reading [quiet_intros]:
  "quiet (ValidateCode code)" "quiet (GetUser i)" "quiet ListUsers" "quiet ListRoles" "quiet ListGames" "quiet (GetGame k)"
  unfolding ValidateCode_def sql_GetInvitationByCode_def GetUser_def hydrateUser_def
    sql_GetUserByID_def sql_ListRoleNamesByUser_def ListUsers_def sql_ListUsersWithRoles_def ListRoles_def sql_ListRoles_def
    ListGames_def sql_ListGames_def GetGame_def sql_GetGameByID_def
  by (intro quiet_intros)+

lemma quiet_ListInvitations [quiet_intros]: "quiet (ListInvitations filt)"
  unfolding ListInvitations_def sql_ListInvitations_def by (intro quiet_intros) simp

lemma inert_answer: "\<exists>fs. snd (answer r w) = w\<lparr>w_faults := fs\<rparr>"
  by (simp add: same_world)

lemma inertI: "(\<And>c w r w'. h c w = (r, w') \<Longrightarrow> \<exists>fs. w' = w\<lparr>w_faults := fs\<rparr>) \<Longrightarrow> inert h"
  unfolding inert_def by (metis surjective_pairing)

lemma inertD: "inert h \<Longrightarrow> h c w = (r, w') \<Longrightarrow> \<exists>fs. w' = w\<lparr>w_faults := fs\<rparr>"
  unfolding inert_def by (metis snd_conv)

lemma inert_constant [inert_intros]:
  "inert (ShowSignIn S)" "inert (ShowRequestAccess S)" "inert (ShowForgotPassword S)" "inert (ShowResetPassword S)" "inert ShowHome"
  "inert ShowProfile" "inert (Health S)" "inert Healthz" "inert (\<lambda>c. answer r)" "inert ShowInviteForm"
  by (simp_all add: inert_def ShowSignIn_def ShowRequestAccess_def ShowForgotPassword_def ShowResetPassword_def same_world
      ShowHome_def ShowProfile_def Health_def Healthz_def ShowInviteForm_def Let_def)

lemma quiet_reads:
  "ValidateCode code w = (r1, w') \<Longrightarrow> \<exists>fs. w' = w\<lparr>w_faults := fs\<rparr>" "GetUser i w = (r2, w') \<Longrightarrow> \<exists>fs. w' = w\<lparr>w_faults := fs\<rparr>"
  "ListUsers w = (r3, w') \<Longrightarrow> \<exists>fs. w' = w\<lparr>w_faults := fs\<rparr>" "ListRoles w = (r4, w') \<Longrightarrow> \<exists>fs. w' = w\<lparr>w_faults := fs\<rparr>"
  "ListGames w = (r5, w') \<Longrightarrow> \<exists>fs. w' = w\<lparr>w_faults := fs\<rparr>" "GetGame k w = (r6, w') \<Longrightarrow> \<exists>fs. w' = w\<lparr>w_faults := fs\<rparr>"
  "ListInvitations filt w = (r7, w') \<Longrightarrow> \<exists>fs. w' = w\<lparr>w_faults := fs\<rparr>"
  by (erule quietD [rotated], intro quiet_intros)+

lemma inert_pages [inert_intros]:
  "inert (ShowRegister S)" "inert Readyz" "inert (apiListGames S)" "inert (apiGetGame S)" "inert ListUsersPage"
  "inert ShowCreateUser" "inert (ShowEditUser S)" "inert (ListInvitationsPage S)"
proof -
  show "inert (ShowRegister S)" "inert (apiListGames S)" "inert (apiGetGame S)" "inert ListUsersPage" "inert ShowCreateUser"
    "inert (ListInvitationsPage S)"
    unfolding inert_def ShowRegister_def apiListGames_def apiGetGame_def ListUsersPage_def ShowCreateUser_def ListInvitationsPage_def Let_def
    by (auto simp: answer_def same_world split: prod.split sum.split option.split dest!: quiet_reads)
  show "inert Readyz"
    by (auto simp: inert_def Readyz_def external_def answer_def same_world split: list.split fault.split)
  show "inert (ShowEditUser S)"
    by (auto simp: inert_def ShowEditUser_def answer_def same_world split: prod.split sum.split option.split dest!: quiet_reads)
qed

lemma inert_requireRole [inert_intros]: "inert h \<Longrightarrow> inert (requireRole role h)"
  unfolding inert_def requireRole_def by (auto simp: answer_def same_world split: prod.split)

lemma inert_loadCurrentViewer [inert_intros]:
  assumes h: "inert h"
  shows "inert (loadCurrentViewer S h)"
proof (rule inertI)
  fix c w r w' assume run: "loadCurrentViewer S h c w = (r, w')"
  show "\<exists>fs. w' = w\<lparr>w_faults := fs\<rparr>"
  proof (cases "\<exists>claims i. cx_Claims c = Some claims \<and> UserID (st_JWT S) claims = Some i")
    case False
    with run show ?thesis by (auto simp: loadCurrentViewer_def answer_def same_world split: option.splits)
  next
    case True
    then obtain claims i where c: "cx_Claims c = Some claims" "UserID (st_JWT S) claims = Some i" by blast
    obtain u w1 where get: "GetUser i w = (u, w1)" by force
    from quiet_reads(2) [OF get] obtain fs where w1: "w1 = w\<lparr>w_faults := fs\<rparr>" by blast
    consider "w' = w1" | c2 where "h c2 w1 = (r, w')"
      using run c get by (auto simp: loadCurrentViewer_def answer_def split: sum.splits if_splits)
    then show ?thesis
    proof cases
      case 2
      from inertD [OF h this] w1 show ?thesis by auto
    qed (use w1 in blast)
  qed
qed

lemma inert_requireAuth [inert_intros]:
  assumes J: "jwt_sound (st_JWT S)" and h: "inert h"
  shows "inert (requireAuth S h)"
proof (rule inertI)
  fix c w r w' assume run: "requireAuth S h c w = (r, w')"
  obtain res w1 where auth: "RequireAuth (st_JWT S) (st_Ext S) (st_Manager S) (wr_Session (cx_Request c)) w = (res, w1)" by force
  with quiet_RequireAuth [OF J] obtain fs where w1: "w1 = w\<lparr>w_faults := fs\<rparr>" by (metis snd_conv)
  consider "w' = w1" | c2 r2 where "h c2 w1 = (r2, w')"
    using run auth by (cases res) (auto simp: requireAuth_def split: prod.splits)
  then show "\<exists>fs. w' = w\<lparr>w_faults := fs\<rparr>"
  proof cases
    case 2
    from inertD [OF h this] w1 show ?thesis by auto
  qed (use w1 in blast)
qed

text \<open>Every route that answers GET requests is inert.\<close>

lemma get_routes_inert:
  assumes J: "jwt_sound (st_JWT S)"
  shows "list_all (\<lambda>(m, path, h). m = ''GET'' \<longrightarrow> inert h) (registerRoutes S rl)"
  unfolding registerRoutes_def Let_def list.pred_inject prod.case
  by (intro conjI impI inert_intros J; simp)

lemma routes_methods: "list_all (\<lambda>(m, path, h). m \<in> {''GET'', ''POST'', ''PUT'', ''DELETE''}) (registerRoutes S rl)"
  by (simp add: registerRoutes_def Let_def)

section \<open>Properties\<close>

text \<open>C27.  Forgetting the visitors that were idle for ten minutes changes no answer of the rate limiter: in every sequence of
  requests in the order of time it answers each request as if every address had a token bucket of its own that is
  never forgotten.\<close>

theorem rate_limiter_forgets_nothing:
  assumes "refills lib r b (600 * second)" and "sorted (map fst reqs)" and "\<forall>q \<in> set reqs. t0 \<le> fst q"
  shows "answers lib (NewRateLimiter r b t0) reqs = spec_answers lib r b reqs"
proof -
  let ?rl = "NewRateLimiter r b t0 :: 'a rateLimiter"
  have new: "rl_rate ?rl = r" "rl_burst ?rl = b" "rl_cleanupGap ?rl = 600 * second" by (simp_all add: NewRateLimiter_def)
  have "remembers lib [] t0 ?rl" by (simp add: remembers_def NewRateLimiter_def times_of_def)
  from answers_spec [OF _ _ this assms(3)] assms(1,2) show ?thesis
    unfolding new by (simp add: spec_answers_def times_of_def)
qed

text \<open>A token bucket in exact arithmetic, for evaluation: level, time of the last request, rate and size.\<close>

definition bucket_level :: "int \<Rightarrow> rat \<times> int option \<times> rat \<times> int \<Rightarrow> rat" where
  "bucket_level t l = (case l of (level, prev, r, b) \<Rightarrow>
     (case prev of None \<Rightarrow> of_int b | Some t0 \<Rightarrow> min (of_int b) (level + r * of_int (t - t0) / of_int second)))"

definition bucket :: "(rat \<times> int option \<times> rat \<times> int) limiterlib" where
  "bucket = \<lparr>ll_NewLimiter = (\<lambda>r b. (of_int b, None, r, b)),
     ll_AllowN = (\<lambda>t n l. if bucket_level t l \<ge> of_int n then (True, (bucket_level t l - of_int n, Some t, snd (snd l)))
        else (False, (bucket_level t l, Some t, snd (snd l))))\<rparr>"

lemma bucket_used:
  assumes "sorted ts" and "ts \<noteq> []"
  shows "\<exists>lv. used bucket DefaultAuthRate DefaultAuthBurst ts = (lv, Some (last ts), DefaultAuthRate, DefaultAuthBurst) \<and> 0 \<le> lv"
  using assms
proof (induction ts rule: rev_induct)
  case (snoc t ts)
  show ?case
  proof (cases "ts = []")
    case True
    then show ?thesis by (simp add: used_def bucket_def bucket_level_def DefaultAuthBurst_def)
  next
    case False
    with snoc obtain lv where u: "used bucket DefaultAuthRate DefaultAuthBurst ts = (lv, Some (last ts), DefaultAuthRate, DefaultAuthBurst)"
      and lv: "0 \<le> lv" by (auto simp: sorted_append)
    have "0 \<le> t - last ts" using snoc.prems(1) False by (simp add: sorted_append)
    then have "0 \<le> bucket_level t (lv, Some (last ts), DefaultAuthRate, DefaultAuthBurst)"
      using lv by (simp add: bucket_level_def DefaultAuthRate_def DefaultAuthBurst_def second_def)
    with u show ?thesis by (simp add: bucket_def)
  qed
qed simp

lemma bucket_refills: "refills bucket DefaultAuthRate DefaultAuthBurst (600 * second)"
  unfolding refills_def
proof (intro allI impI, elim conjE)
  fix ts :: "int list" and t assume ts: "sorted ts" "ts \<noteq> []" and idle: "600 * second < t - last ts"
  from bucket_used [OF ts] obtain lv where u: "used bucket DefaultAuthRate DefaultAuthBurst ts =
      (lv, Some (last ts), DefaultAuthRate, DefaultAuthBurst)" and lv: "0 \<le> lv" by blast
  have "(of_int (600 * second) :: rat) \<le> of_int (t - last ts)" using idle by (simp only: of_int_le_iff)
  then have "100 \<le> (of_int (t - last ts) :: rat) / 6000000000" by (simp add: second_def le_divide_eq)
  then have "5 \<le> lv + of_int (t - last ts) / 6000000000" using lv by linarith
  then have "bucket_level t (lv, Some (last ts), DefaultAuthRate, DefaultAuthBurst) = 5"
    by (simp add: bucket_level_def DefaultAuthRate_def DefaultAuthBurst_def second_def min_def)
  then show "ll_AllowN bucket t 1 (used bucket DefaultAuthRate DefaultAuthBurst ts) =
      ll_AllowN bucket t 1 (ll_NewLimiter bucket DefaultAuthRate DefaultAuthBurst)"
    unfolding u by (simp add: bucket_def bucket_level_def DefaultAuthBurst_def)
qed

theorem rate_limiter_forgets_nothing_witness:
  "answers bucket (NewRateLimiter DefaultAuthRate DefaultAuthBurst 0)
     [(0, ''a''), (1, ''a''), (2, ''a''), (3, ''a''), (4, ''a''), (5, ''a''), (700 * second, ''b''), (701 * second, ''a'')] =
     [True, True, True, True, True, False, True, True]"
proof -
  have "answers bucket (NewRateLimiter DefaultAuthRate DefaultAuthBurst 0)
     [(0, ''a''), (1, ''a''), (2, ''a''), (3, ''a''), (4, ''a''), (5, ''a''), (700 * second, ''b''), (701 * second, ''a'')] =
     spec_answers bucket DefaultAuthRate DefaultAuthBurst
     [(0, ''a''), (1, ''a''), (2, ''a''), (3, ''a''), (4, ''a''), (5, ''a''), (700 * second, ''b''), (701 * second, ''a'')]"
    by (rule rate_limiter_forgets_nothing [OF bucket_refills]) (simp_all add: second_def)
  also have "\<dots> = [True, True, True, True, True, False, True, True]"
    by (simp add: spec_answers_def used_def bucket_def bucket_level_def DefaultAuthRate_def DefaultAuthBurst_def second_def upt_rec)
  finally show ?thesis .
qed

text \<open>C14.  A request that the browser marks as coming from another site or another origin, by \<open>Sec-Fetch-Site\<close> or, where that
  header is missing, by an \<open>Origin\<close> that is not the host the request names, changes no table and sends no mail on any route: a
  state-changing one is refused before its handler runs, and what GET routes do changes nothing.  (Requests of the same
  site but another origin are among those refused, against the comment of the middleware.)\<close>

theorem foreign_requests_inert:
  assumes "jwt_sound (st_JWT S)" and "(meth, path, h) \<in> set (registerRoutes S rl)"
    and "rq_Method (wr_Session (cx_Request c)) = meth"
    and "ch_SecFetchSite hdr \<notin> {[], ''same-origin'', ''none''} \<or>
      ch_SecFetchSite hdr = [] \<and> ch_Origin hdr \<noteq> [] \<and> urlHost (ch_Origin hdr) \<noteq> Some (ch_Host hdr)"
    and "FetchMetadata urlHost hdr h c w = ((r, cs), w')"
  shows "w_db w' = w_db w \<and> w_outbox w' = w_outbox w \<and>
    (meth \<noteq> ''GET'' \<longrightarrow> r = Plain (TextResponse 403 ''forbidden: cross-origin request rejected'') \<and> cs = [] \<and> w' = w)"
proof (cases "meth = ''GET''")
  case True
  with get_routes_inert [OF assms(1), of rl] assms(2) have "inert h" by (auto simp: list_all_iff)
  moreover have "h c w = ((r, cs), w')" using assms(3,5) True by (simp add: FetchMetadata_def crossOriginCheck_def)
  ultimately obtain fs where "w' = w\<lparr>w_faults := fs\<rparr>" using inertD by blast
  with True show ?thesis by simp
next
  case False
  have "meth \<in> {''GET'', ''POST'', ''PUT'', ''DELETE''}" using routes_methods [of S rl] assms(2) by (auto simp: list_all_iff)
  with False assms(3,4) have "\<not> crossOriginCheck urlHost hdr (rq_Method (wr_Session (cx_Request c)))"
    by (auto simp: crossOriginCheck_def)
  with assms(5) show ?thesis by (simp add: FetchMetadata_def answer_def)
qed

text \<open>A forged sign-up, which without the middleware would make the account (\<open>visitor_signs_up\<close>).\<close>

definition forged_signup :: echoContext where
  "forged_signup = sample_context visitor_form\<lparr>cx_Request := (cx_Request (sample_context visitor_form))\<lparr>wr_Session :=
     sample_request\<lparr>rq_Method := ''POST''\<rparr>\<rparr>\<rparr>"

theorem foreign_requests_inert_witness:
  "list_all (\<lambda>hdr. FetchMetadata (\<lambda>org. Some (drop 7 org)) hdr (RegisterPage sample_site) forged_signup visitor_world =
       ((Plain (TextResponse 403 ''forbidden: cross-origin request rejected''), []), visitor_world))
     [\<lparr>ch_SecFetchSite = ''cross-site'', ch_Origin = ''http://evil'', ch_Host = ''x''\<rparr>,
      \<lparr>ch_SecFetchSite = ''same-site'', ch_Origin = ''http://a.x'', ch_Host = ''x''\<rparr>,
      \<lparr>ch_SecFetchSite = [], ch_Origin = ''http://evil'', ch_Host = ''x''\<rparr>]"
proof -
  have route: "(''POST'', ''/register'', RegisterPage sample_site) \<in> set (registerRoutes sample_site (\<lambda>h. h))"
    by (simp add: registerRoutes_def Let_def)
  have sound: "jwt_sound (st_JWT sample_site)" using sample_site_laws by (simp add: jwt_laws_def)
  have verb: "rq_Method (wr_Session (cx_Request forged_signup)) = ''POST''" by (simp add: forged_signup_def)
  have "FetchMetadata (\<lambda>org. Some (drop 7 org)) hdr (RegisterPage sample_site) forged_signup visitor_world =
       ((Plain (TextResponse 403 ''forbidden: cross-origin request rejected''), []), visitor_world)"
    if "ch_SecFetchSite hdr \<notin> {[], ''same-origin'', ''none''} \<or>
      ch_SecFetchSite hdr = [] \<and> ch_Origin hdr \<noteq> [] \<and> Some (drop 7 (ch_Origin hdr)) \<noteq> Some (ch_Host hdr)" for hdr
  proof -
    obtain r cs w' where run: "FetchMetadata (\<lambda>org. Some (drop 7 org)) hdr (RegisterPage sample_site) forged_signup visitor_world = ((r, cs), w')"
      by (metis surj_pair)
    from foreign_requests_inert [OF sound route verb that run] run show ?thesis by simp
  qed
  then show ?thesis by simp
qed

text \<open>Against the comment of the middleware, a request from the same site but another origin is refused.\<close>

theorem same_site_refused:
  "FetchMetadata urlHost \<lparr>ch_SecFetchSite = ''same-site'', ch_Origin = org, ch_Host = host\<rparr> h
     (c\<lparr>cx_Request := (cx_Request c)\<lparr>wr_Session := (wr_Session (cx_Request c))\<lparr>rq_Method := ''POST''\<rparr>\<rparr>\<rparr>) w =
   ((Plain (TextResponse 403 ''forbidden: cross-origin request rejected''), []), w)"
  by (simp add: FetchMetadata_def crossOriginCheck_def answer_def)

end
