(* ===== verification/Host.thy ===== *)
theory Host
  imports Database
begin

text \<open>
  What the programs use of package os: environment variables and files.  Every call consumes one entry of
  \<open>ho_faults\<close> and fails when it says so (\<open>Breaks\<close>): a write that breaks may leave anything behind in the file it writes, and the making of
  directories may stop on the way.
  Paths are compared as strings: links and different spellings of a path are not modelled.
\<close>

datatype 'c io_fault = Works | Breaks "'c option" nat

record 'c host =
  ho_files :: "string \<rightharpoonup> 'c"
  ho_dirs :: "string set"
  ho_env :: "string \<Rightarrow> string"
  ho_faults :: "'c io_fault list"

datatype osError = NotExist | IOFailure

datatype fileInfo = RegularFile | Directory

type_synonym ('c, 'a) io = "'c host \<Rightarrow> (osError + 'a) \<times> 'c host"

definition os_call :: "('c option \<Rightarrow> nat \<Rightarrow> 'c host \<Rightarrow> 'c host) \<Rightarrow> ('c, 'a) io \<Rightarrow> ('c, 'a) io" where
  "os_call spoil f h =
     (case ho_faults h of
        [] \<Rightarrow> f h
      | Works # fs \<Rightarrow> f (h\<lparr>ho_faults := fs\<rparr>)
      | Breaks junk made # fs \<Rightarrow> (Inl IOFailure, spoil junk made (h\<lparr>ho_faults := fs\<rparr>)))"

definition Stat :: "string \<Rightarrow> ('c, fileInfo) io" where
  "Stat path = os_call (\<lambda>_ _ h. h) (\<lambda>h.
     (if path \<in> ho_dirs h then Inr Directory else if path \<in> dom (ho_files h) then Inr RegularFile else Inl NotExist, h))"

definition ReadFile :: "string \<Rightarrow> ('c, 'c) io" where
  "ReadFile path = os_call (\<lambda>_ _ h. h) (\<lambda>h.
     (if path \<in> ho_dirs h then Inl IOFailure else case ho_files h path of None \<Rightarrow> Inl NotExist | Some c \<Rightarrow> Inr c, h))"

definition WriteFile :: "string \<Rightarrow> 'c \<Rightarrow> ('c, unit) io" where
  "WriteFile path c = os_call (\<lambda>junk _ h. if path \<in> ho_dirs h then h else h\<lparr>ho_files := (ho_files h)(path := junk)\<rparr>) (\<lambda>h.
     if path \<in> ho_dirs h then (Inl IOFailure, h) else (Inr (), h\<lparr>ho_files := (ho_files h)(path \<mapsto> c)\<rparr>))"

text \<open>Renaming is atomic: it happens completely or not at all.\<close>

definition Rename :: "string \<Rightarrow> string \<Rightarrow> ('c, unit) io" where
  "Rename src dst = os_call (\<lambda>_ _ h. h) (\<lambda>h.
     case ho_files h src of
       None \<Rightarrow> (Inl NotExist, h)
     | Some c \<Rightarrow> if dst \<in> ho_dirs h then (Inl IOFailure, h) else (Inr (), h\<lparr>ho_files := (ho_files h)(src := None, dst \<mapsto> c)\<rparr>))"

definition ancestors :: "string \<Rightarrow> string set" where
  "ancestors path = insert path (set (map (\<lambda>i. take i path) (filter (\<lambda>i. path ! i = CHR ''/'') [1..<length path])))"

text \<open>The directories are made from the top; those made before \<open>MkdirAll\<close> broke stay.\<close>

definition MkdirAll :: "string \<Rightarrow> ('c, unit) io" where
  "MkdirAll path = os_call
     (\<lambda>_ made h. if ancestors path \<inter> dom (ho_files h) \<noteq> {} then h
        else h\<lparr>ho_dirs := ho_dirs h \<union> {dir \<in> ancestors path. length dir \<le> made}\<rparr>)
     (\<lambda>h. if ancestors path \<inter> dom (ho_files h) \<noteq> {} then (Inl IOFailure, h)
        else (Inr (), h\<lparr>ho_dirs := ho_dirs h \<union> ancestors path\<rparr>))"

section \<open>What the calls leave alone\<close>

text \<open>A call that touches no file but those in \<open>P\<close>, and never the environment.\<close>

definition touches :: "string set \<Rightarrow> ('c, 'a) io \<Rightarrow> bool" where
  "touches P m \<longleftrightarrow> (\<forall>h q. (q \<notin> P \<longrightarrow> ho_files (snd (m h)) q = ho_files h q) \<and> ho_env (snd (m h)) = ho_env h)"

lemma touchesD:
  "touches P m \<Longrightarrow> m h = (r, h') \<Longrightarrow> (q \<notin> P \<longrightarrow> ho_files h' q = ho_files h q) \<and> ho_env h' = ho_env h"
  unfolding touches_def by (metis snd_conv)

lemma touches_os_call:
  assumes "\<And>junk made h q. (q \<notin> P \<longrightarrow> ho_files (spoil junk made h) q = ho_files h q) \<and> ho_env (spoil junk made h) = ho_env h" and "touches P f"
  shows "touches P (os_call spoil f)"
  using assms unfolding touches_def os_call_def by (simp split: list.split io_fault.split)

lemma touches_os [simp, intro]:
  "touches {} (Stat path)" "touches {} (ReadFile path)" "touches {path} (WriteFile path c)" "touches {src, dst} (Rename src dst)"
  "touches {} (MkdirAll path)"
  unfolding Stat_def ReadFile_def WriteFile_def Rename_def MkdirAll_def
  by (rule touches_os_call; simp add: touches_def split: option.split)+

lemma files_same: "touches {} m \<Longrightarrow> m h = (r, h') \<Longrightarrow> ho_files h' = ho_files h"
  by (rule ext) (simp add: touchesD)

lemma env_same:
  "Stat p h = (r1, h') \<Longrightarrow> ho_env h' = ho_env h" "ReadFile p h = (r2, h') \<Longrightarrow> ho_env h' = ho_env h"
  "WriteFile p c h = (r3, h') \<Longrightarrow> ho_env h' = ho_env h" "Rename p q h = (r4, h') \<Longrightarrow> ho_env h' = ho_env h"
  "MkdirAll p h = (r5, h') \<Longrightarrow> ho_env h' = ho_env h"
  by (drule touchesD [rotated], rule touches_os, erule conjunct2)+

lemma reading_files:
  "Stat p h = (r1, h') \<Longrightarrow> ho_files h' = ho_files h" "ReadFile p h = (r2, h') \<Longrightarrow> ho_files h' = ho_files h"
  "MkdirAll p h = (r3, h') \<Longrightarrow> ho_files h' = ho_files h"
  by (drule files_same [rotated], rule touches_os, simp)+

lemma WriteFile_Inr: "WriteFile p c h = (Inr u, h') \<Longrightarrow> ho_files h' = (ho_files h)(p \<mapsto> c) \<and> p \<notin> ho_dirs h \<and> ho_dirs h' = ho_dirs h"
  by (auto simp: WriteFile_def os_call_def split: list.splits io_fault.splits if_splits)

lemma Rename_Inr: "Rename p q h = (Inr u, h') \<Longrightarrow> (\<exists>c. ho_files h p = Some c \<and> ho_files h' = (ho_files h)(p := None, q \<mapsto> c)) \<and>
    q \<notin> ho_dirs h' \<and> ho_dirs h' = ho_dirs h"
  by (auto simp: Rename_def os_call_def split: list.splits io_fault.splits if_splits option.splits)

lemma Rename_Inl: "Rename p q h = (Inl e, h') \<Longrightarrow> ho_files h' = ho_files h \<and> ho_dirs h' = ho_dirs h"
  by (auto simp: Rename_def os_call_def split: list.splits io_fault.splits if_splits option.splits)

text \<open>Without faults the calls do what they say.\<close>

lemma calm_os:
  assumes "ho_faults h = []"
  shows "Stat p h = (if p \<in> ho_dirs h then Inr Directory else if p \<in> dom (ho_files h) then Inr RegularFile else Inl NotExist, h)"
    and "ReadFile p h = (if p \<in> ho_dirs h then Inl IOFailure else case ho_files h p of None \<Rightarrow> Inl NotExist | Some c \<Rightarrow> Inr c, h)"
  using assms by (simp_all add: Stat_def ReadFile_def os_call_def)

end
