(* ===== verification/Config.thy ===== *)
theory Config
  imports Mailer Host
begin

text \<open>
  internal/config: the configuration of the server and the tools (config.go).  It is put together from
  defaults, a JSON file and the environment, and written by \<open>init-config\<close>.  The JSON codec and the text of
  durations are parameters.  The main results: writing is atomic whatever call breaks, and what was
  written is what the programs load.
\<close>

section \<open>Data\<close>

record config =
  cf_ConfigPath :: string
  cf_AppAddr :: string
  cf_DatabaseURL :: string
  cf_DataDir :: string
  cf_JWTAccessTTL :: int
  cf_JWTRefreshTTL :: int
  cf_CookieSecure :: bool
  cf_BaseURL :: string
  cf_Mailgun :: mailgunConfig
  cf_RequestAccessEnabled :: bool
  cf_AdminContactEmail :: string

record initOptions =
  io_AppAddr :: string
  io_DatabaseURL :: string
  io_DataDir :: string
  io_JWTAccessTTL :: int
  io_JWTRefreshTTL :: int
  io_CookieSecure :: bool
  io_BaseURL :: string
  io_Mailgun :: mailgunConfig
  io_RequestAccessEnabled :: bool
  io_AdminContactEmail :: string
  io_Force :: bool

record fileConfig =
  fc_Version :: int
  fc_AppAddr :: string
  fc_DatabaseURL :: string
  fc_DataDir :: string
  fc_JWTAccessTTL :: string
  fc_JWTRefreshTTL :: string
  fc_CookieSecure :: bool
  fc_BaseURL :: string
  fc_Mailgun :: mailgunConfig
  fc_RequestAccessEnabled :: bool
  fc_AdminContactEmail :: string

text \<open>The decoder refuses unknown fields and leaves absent ones at their zero values.\<close>

record codec =
  cd_Decode :: "string \<Rightarrow> fileConfig option"
  cd_MarshalIndent :: "fileConfig \<Rightarrow> string option"
  cd_ParseDuration :: "string \<Rightarrow> int option"
  cd_DurationString :: "int \<Rightarrow> string"
  cd_Dir :: "string \<Rightarrow> string"

definition configVersion :: int where
  "configVersion = 1"

definition minute :: int where
  "minute = 60 * 1000000000"

section \<open>Defaults and the environment\<close>

definition DefaultPath :: "(string \<Rightarrow> string) \<Rightarrow> string" where
  "DefaultPath env = (if TrimSpace (env ''DRYNN_CONFIG_PATH'') \<noteq> [] then TrimSpace (env ''DRYNN_CONFIG_PATH'')
     else ''data/var/drynn/server.json'')"

definition DefaultDataDir :: string where
  "DefaultDataDir = ''data/var/drynn/data''"

definition envOrDefault :: "(string \<Rightarrow> string) \<Rightarrow> string \<Rightarrow> string \<Rightarrow> string" where
  "envOrDefault env key fallback = (if env key \<noteq> [] then env key else fallback)"

definition ParseBool :: "string \<Rightarrow> bool option" where
  "ParseBool s =
     (if s \<in> {''1'', ''t'', ''T'', ''TRUE'', ''true'', ''True''} then Some True
      else if s \<in> {''0'', ''f'', ''F'', ''FALSE'', ''false'', ''False''} then Some False
      else None)"

definition boolOrDefault :: "(string \<Rightarrow> string) \<Rightarrow> string \<Rightarrow> bool \<Rightarrow> bool" where
  "boolOrDefault env key fallback =
     (if env key = [] then fallback else case ParseBool (env key) of None \<Rightarrow> fallback | Some b \<Rightarrow> b)"

definition defaultString :: "string \<Rightarrow> string \<Rightarrow> string" where
  "defaultString value fallback = (if TrimSpace value = [] then fallback else TrimSpace value)"

definition defaultDuration :: "int \<Rightarrow> int \<Rightarrow> int" where
  "defaultDuration value fallback = (if value \<le> 0 then fallback else value)"

definition durationOrDefault :: "codec \<Rightarrow> (string \<Rightarrow> string) \<Rightarrow> string \<Rightarrow> int \<Rightarrow> int" where
  "durationOrDefault lib env key fallback =
     (if env key = [] then fallback else case cd_ParseDuration lib (env key) of None \<Rightarrow> fallback | Some d \<Rightarrow> d)"

definition applyEnvOverrides :: "codec \<Rightarrow> (string \<Rightarrow> string) \<Rightarrow> config \<Rightarrow> config" where
  "applyEnvOverrides lib env cfg = cfg\<lparr>
     cf_AppAddr := envOrDefault env ''DRYNN_APP_ADDR'' (cf_AppAddr cfg),
     cf_DatabaseURL := envOrDefault env ''DRYNN_DATABASE_URL'' (cf_DatabaseURL cfg),
     cf_DataDir := envOrDefault env ''DRYNN_DATA_DIR'' (cf_DataDir cfg),
     cf_JWTAccessTTL := durationOrDefault lib env ''DRYNN_JWT_ACCESS_TTL'' (cf_JWTAccessTTL cfg),
     cf_JWTRefreshTTL := durationOrDefault lib env ''DRYNN_JWT_REFRESH_TTL'' (cf_JWTRefreshTTL cfg),
     cf_CookieSecure := boolOrDefault env ''DRYNN_COOKIE_SECURE'' (cf_CookieSecure cfg),
     cf_BaseURL := envOrDefault env ''DRYNN_BASE_URL'' (cf_BaseURL cfg),
     cf_Mailgun := \<lparr>
       mc_APIKey = envOrDefault env ''DRYNN_MAILGUN_API_KEY'' (mc_APIKey (cf_Mailgun cfg)),
       mc_SendingDomain = envOrDefault env ''DRYNN_MAILGUN_SENDING_DOMAIN'' (mc_SendingDomain (cf_Mailgun cfg)),
       mc_FromAddress = envOrDefault env ''DRYNN_MAILGUN_FROM_ADDRESS'' (mc_FromAddress (cf_Mailgun cfg)),
       mc_FromName = envOrDefault env ''DRYNN_MAILGUN_FROM_NAME'' (mc_FromName (cf_Mailgun cfg))\<rparr>,
     cf_RequestAccessEnabled := boolOrDefault env ''DRYNN_REQUEST_ACCESS_ENABLED'' (cf_RequestAccessEnabled cfg),
     cf_AdminContactEmail := envOrDefault env ''DRYNN_ADMIN_CONTACT_EMAIL'' (cf_AdminContactEmail cfg)\<rparr>"

section \<open>Loading\<close>

definition nonempty_or :: "string \<Rightarrow> string \<Rightarrow> string" where
  "nonempty_or s fallback = (if s \<noteq> [] then s else fallback)"

definition ttl_or :: "codec \<Rightarrow> string \<Rightarrow> string \<Rightarrow> int \<Rightarrow> goError + int" where
  "ttl_or lib field s fallback =
     (if s = [] then Inr fallback
      else case cd_ParseDuration lib s of None \<Rightarrow> Inl (Wrap (''parse '' @ field) (ErrorString ''duration'')) | Some d \<Rightarrow> Inr d)"

text \<open>The part of \<open>mergeFileConfig\<close> after decoding.\<close>

definition merge_decoded :: "codec \<Rightarrow> fileConfig \<Rightarrow> config \<Rightarrow> goError + config" where
  "merge_decoded lib fc cfg =
     (if fc_Version fc \<noteq> 0 \<and> fc_Version fc \<noteq> configVersion then Inl (ErrorString ''unsupported config version'')
      else case ttl_or lib ''jwt_access_ttl'' (fc_JWTAccessTTL fc) (cf_JWTAccessTTL cfg) of
        Inl e \<Rightarrow> Inl e
      | Inr accessTTL \<Rightarrow>
          (case ttl_or lib ''jwt_refresh_ttl'' (fc_JWTRefreshTTL fc) (cf_JWTRefreshTTL cfg) of
             Inl e \<Rightarrow> Inl e
           | Inr refreshTTL \<Rightarrow> Inr (cfg\<lparr>
               cf_AppAddr := nonempty_or (fc_AppAddr fc) (cf_AppAddr cfg),
               cf_DatabaseURL := nonempty_or (fc_DatabaseURL fc) (cf_DatabaseURL cfg),
               cf_DataDir := nonempty_or (fc_DataDir fc) (cf_DataDir cfg),
               cf_JWTAccessTTL := accessTTL,
               cf_JWTRefreshTTL := refreshTTL,
               cf_CookieSecure := fc_CookieSecure fc,
               cf_BaseURL := nonempty_or (fc_BaseURL fc) (cf_BaseURL cfg),
               cf_Mailgun := \<lparr>
                 mc_APIKey = nonempty_or (mc_APIKey (fc_Mailgun fc)) (mc_APIKey (cf_Mailgun cfg)),
                 mc_SendingDomain = nonempty_or (mc_SendingDomain (fc_Mailgun fc)) (mc_SendingDomain (cf_Mailgun cfg)),
                 mc_FromAddress = nonempty_or (mc_FromAddress (fc_Mailgun fc)) (mc_FromAddress (cf_Mailgun cfg)),
                 mc_FromName = nonempty_or (mc_FromName (fc_Mailgun fc)) (mc_FromName (cf_Mailgun cfg))\<rparr>,
               cf_RequestAccessEnabled := fc_RequestAccessEnabled fc,
               cf_AdminContactEmail := nonempty_or (fc_AdminContactEmail fc) (cf_AdminContactEmail cfg)\<rparr>)))"

definition os_error :: "osError \<Rightarrow> goError" where
  "os_error e = ErrorString (case e of NotExist \<Rightarrow> ''file does not exist'' | IOFailure \<Rightarrow> ''i/o error'')"

definition mergeFileConfig :: "codec \<Rightarrow> string \<Rightarrow> config \<Rightarrow> string host \<Rightarrow> (goError + config) \<times> string host" where
  "mergeFileConfig lib path cfg h =
     (case Stat path h of
        (Inl NotExist, h1) \<Rightarrow> (Inr cfg, h1)
      | (Inl e, h1) \<Rightarrow> (Inl (Wrap ''stat config file'' (os_error e)), h1)
      | (Inr Directory, h1) \<Rightarrow> (Inl (ErrorString (''config path '' @ path @ '' is a directory'')), h1)
      | (Inr RegularFile, h1) \<Rightarrow>
          (case ReadFile path h1 of
             (Inl e, h2) \<Rightarrow> (Inl (Wrap ''read config file'' (os_error e)), h2)
           | (Inr data, h2) \<Rightarrow>
               (case cd_Decode lib data of
                  None \<Rightarrow> (Inl (Wrap ''decode config file'' (ErrorString ''json'')), h2)
                | Some fc \<Rightarrow> (merge_decoded lib fc cfg, h2))))"

definition default_config :: "string \<Rightarrow> config" where
  "default_config path = \<lparr>cf_ConfigPath = path, cf_AppAddr = '':8080'', cf_DatabaseURL = [], cf_DataDir = DefaultDataDir,
     cf_JWTAccessTTL = 15 * minute, cf_JWTRefreshTTL = 7 * 24 * 60 * minute, cf_CookieSecure = False, cf_BaseURL = [],
     cf_Mailgun = \<lparr>mc_APIKey = [], mc_SendingDomain = [], mc_FromAddress = [], mc_FromName = []\<rparr>,
     cf_RequestAccessEnabled = False, cf_AdminContactEmail = []\<rparr>"

definition config_path :: "string host \<Rightarrow> string \<Rightarrow> string" where
  "config_path h path = (if TrimSpace path = [] then DefaultPath (ho_env h) else path)"

definition LoadPath :: "codec \<Rightarrow> string \<Rightarrow> string host \<Rightarrow> (goError + config) \<times> string host" where
  "LoadPath lib path h =
     (let path = config_path h path in
      case mergeFileConfig lib path (default_config path) h of
        (Inl e, h1) \<Rightarrow> (Inl e, h1)
      | (Inr merged, h1) \<Rightarrow>
          (let cfg = applyEnvOverrides lib (ho_env h1) merged in
           if cf_DatabaseURL cfg = [] then (Inl (ErrorString (''DATABASE_URL is required in '' @ path @ '' or the environment'')), h1)
           else if cf_BaseURL cfg = [] then (Inl (ErrorString (''base_url is required in '' @ path @ '' or DRYNN_BASE_URL in the environment'')), h1)
           else (Inr cfg, h1)))"

definition Load :: "codec \<Rightarrow> string host \<Rightarrow> (goError + config) \<times> string host" where
  "Load lib h = LoadPath lib (DefaultPath (ho_env h)) h"

section \<open>Writing\<close>

definition file_config :: "codec \<Rightarrow> initOptions \<Rightarrow> fileConfig" where
  "file_config lib opts = \<lparr>
     fc_Version = configVersion,
     fc_AppAddr = defaultString (io_AppAddr opts) '':8080'',
     fc_DatabaseURL = TrimSpace (io_DatabaseURL opts),
     fc_DataDir = defaultString (io_DataDir opts) DefaultDataDir,
     fc_JWTAccessTTL = cd_DurationString lib (defaultDuration (io_JWTAccessTTL opts) (15 * minute)),
     fc_JWTRefreshTTL = cd_DurationString lib (defaultDuration (io_JWTRefreshTTL opts) (7 * 24 * 60 * minute)),
     fc_CookieSecure = io_CookieSecure opts,
     fc_BaseURL = TrimSpace (io_BaseURL opts),
     fc_Mailgun = \<lparr>
       mc_APIKey = TrimSpace (mc_APIKey (io_Mailgun opts)),
       mc_SendingDomain = TrimSpace (mc_SendingDomain (io_Mailgun opts)),
       mc_FromAddress = TrimSpace (mc_FromAddress (io_Mailgun opts)),
       mc_FromName = TrimSpace (mc_FromName (io_Mailgun opts))\<rparr>,
     fc_RequestAccessEnabled = io_RequestAccessEnabled opts,
     fc_AdminContactEmail = TrimSpace (io_AdminContactEmail opts)\<rparr>"

text \<open>The checks before anything is written: \<open>None\<close> when the file may be written.\<close>

definition refuse_existing :: "bool \<Rightarrow> string \<Rightarrow> string host \<Rightarrow> goError option \<times> string host" where
  "refuse_existing force path h =
     (if force then (None, h)
      else case Stat path h of
        (Inr _, h1) \<Rightarrow> (Some (ErrorString (''config file already exists at '' @ path)), h1)
      | (Inl NotExist, h1) \<Rightarrow> (None, h1)
      | (Inl e, h1) \<Rightarrow> (Some (Wrap ''stat config file'' (os_error e)), h1))"

definition replace_file :: "string \<Rightarrow> string \<Rightarrow> string host \<Rightarrow> goError option \<times> string host" where
  "replace_file path payload h =
     (case WriteFile (path @ ''.tmp'') payload h of
        (Inl e, h1) \<Rightarrow> (Some (Wrap ''write config file'' (os_error e)), h1)
      | (Inr _, h1) \<Rightarrow>
          (case Rename (path @ ''.tmp'') path h1 of
             (Inl e, h2) \<Rightarrow> (Some (Wrap ''replace config file'' (os_error e)), h2)
           | (Inr _, h2) \<Rightarrow> (None, h2)))"

definition WritePath :: "codec \<Rightarrow> string \<Rightarrow> initOptions \<Rightarrow> string host \<Rightarrow> (goError + config) \<times> string host" where
  "WritePath lib path opts h =
     (let path = config_path h path; fc = file_config lib opts in
      if fc_DatabaseURL fc = [] then (Inl (ErrorString ''database URL is required''), h)
      else if fc_BaseURL fc = [] then (Inl (ErrorString ''base URL is required''), h)
      else case refuse_existing (io_Force opts) path h of
        (Some e, h1) \<Rightarrow> (Inl e, h1)
      | (None, h1) \<Rightarrow>
          (case MkdirAll (cd_Dir lib path) h1 of
             (Inl e, h2) \<Rightarrow> (Inl (Wrap ''create config directory'' (os_error e)), h2)
           | (Inr _, h2) \<Rightarrow>
               (case MkdirAll (fc_DataDir fc) h2 of
                  (Inl e, h3) \<Rightarrow> (Inl (Wrap ''create data directory'' (os_error e)), h3)
                | (Inr _, h3) \<Rightarrow>
                    (case cd_MarshalIndent lib fc of
                       None \<Rightarrow> (Inl (Wrap ''marshal config file'' (ErrorString ''json'')), h3)
                     | Some payload \<Rightarrow>
                         (case replace_file path (payload @ [CHR 0x0A]) h3 of
                            (Some e, h4) \<Rightarrow> (Inl e, h4)
                          | (None, h4) \<Rightarrow> LoadPath lib path h4)))))"

section \<open>What is written and what is loaded\<close>

text \<open>The configuration the options ask for, before the environment has its say.\<close>

definition intended :: "initOptions \<Rightarrow> string \<Rightarrow> config" where
  "intended opts path = \<lparr>cf_ConfigPath = path, cf_AppAddr = defaultString (io_AppAddr opts) '':8080'',
     cf_DatabaseURL = TrimSpace (io_DatabaseURL opts), cf_DataDir = defaultString (io_DataDir opts) DefaultDataDir,
     cf_JWTAccessTTL = defaultDuration (io_JWTAccessTTL opts) (15 * minute),
     cf_JWTRefreshTTL = defaultDuration (io_JWTRefreshTTL opts) (7 * 24 * 60 * minute),
     cf_CookieSecure = io_CookieSecure opts, cf_BaseURL = TrimSpace (io_BaseURL opts),
     cf_Mailgun = fc_Mailgun (file_config undefined opts),
     cf_RequestAccessEnabled = io_RequestAccessEnabled opts, cf_AdminContactEmail = TrimSpace (io_AdminContactEmail opts)\<rparr>"

text \<open>What is relied on of the codec for the options at hand: the file decodes to what was encoded, and a positive duration
  survives being printed.\<close>

definition codec_laws :: "codec \<Rightarrow> initOptions \<Rightarrow> bool" where
  "codec_laws lib opts \<longleftrightarrow>
     (\<forall>payload. cd_MarshalIndent lib (file_config lib opts) = Some payload \<longrightarrow>
        cd_Decode lib (payload @ [CHR 0x0A]) = Some (file_config lib opts)) \<and>
     (\<forall>d > 0. cd_DurationString lib d \<noteq> [] \<and> cd_ParseDuration lib (cd_DurationString lib d) = Some d)"

lemma defaultDuration_pos: "0 < fallback \<Longrightarrow> 0 < defaultDuration d fallback"
  by (simp add: defaultDuration_def)

lemma defaultString_nonempty: "fallback \<noteq> [] \<Longrightarrow> defaultString s fallback \<noteq> []"
  by (simp add: defaultString_def)

lemma merge_written:
  assumes "codec_laws lib opts"
  shows "merge_decoded lib (file_config lib opts) (default_config path) = Inr (intended opts path)"
proof -
  have "ttl_or lib field (cd_DurationString lib (defaultDuration d fb)) e = Inr (defaultDuration d fb)" if "0 < fb" for field d fb e
    using assms defaultDuration_pos [OF that, of d] by (simp add: codec_laws_def ttl_or_def)
  moreover have "0 < 15 * minute" "0 < 7 * 24 * 60 * minute" by (simp_all add: minute_def)
  moreover have "nonempty_or (defaultString s fb) x = defaultString s fb" if "fb \<noteq> []" for s fb x
    using defaultString_nonempty [OF that] by (simp add: nonempty_or_def)
  moreover have "nonempty_or s [] = s" for s by (simp add: nonempty_or_def)
  moreover have "DefaultDataDir \<noteq> []" by (simp add: DefaultDataDir_def)
  ultimately show ?thesis
    by (simp add: merge_decoded_def file_config_def configVersion_def default_config_def intended_def)
qed

lemma config_path_again: "ho_env h2 = ho_env h \<Longrightarrow> config_path h2 (config_path h path) = config_path h path"
  by (simp add: config_path_def)

lemma Stat_same: "Stat p h = (r, h') \<Longrightarrow> ho_files h' = ho_files h \<and> ho_env h' = ho_env h"
  by (simp add: reading_files(1) env_same(1))

lemma ReadFile_same: "ReadFile p h = (r, h') \<Longrightarrow> ho_files h' = ho_files h \<and> ho_env h' = ho_env h"
  by (simp add: reading_files(2) env_same(2))

lemma LoadPath_reads: "LoadPath lib path h = (r, h') \<Longrightarrow> ho_files h' = ho_files h \<and> ho_env h' = ho_env h"
  by (auto simp: LoadPath_def mergeFileConfig_def Let_def split: prod.splits sum.splits osError.splits fileInfo.splits option.splits
      if_splits dest!: Stat_same ReadFile_same)

lemma replace_file_cases:
  assumes "replace_file path payload h = (r, h')"
  shows "ho_env h' = ho_env h \<and> (\<forall>q. q \<notin> {path, path @ ''.tmp''} \<longrightarrow> ho_files h' q = ho_files h q) \<and>
    ((\<exists>e. r = Some e) \<and> ho_files h' path = ho_files h path \<or> r = None \<and> ho_files h' path = Some payload \<and> path \<notin> ho_dirs h')"
proof -
  obtain r1 h1 where w: "WriteFile (path @ ''.tmp'') payload h = (r1, h1)" by force
  have 1: "ho_env h1 = ho_env h" "q \<noteq> path @ ''.tmp'' \<Longrightarrow> ho_files h1 q = ho_files h q" for q
    using touchesD [OF touches_os(3) w] by auto
  show ?thesis
  proof (cases r1)
    case (Inl e)
    with assms w have "r = Some (Wrap ''write config file'' (os_error e))" "h' = h1" by (auto simp: replace_file_def)
    with 1 show ?thesis by simp
  next
    case (Inr u)
    obtain r2 h2 where m: "Rename (path @ ''.tmp'') path h1 = (r2, h2)" by force
    have 2: "ho_env h2 = ho_env h1" by (rule env_same(4) [OF m])
    have payload: "ho_files h1 (path @ ''.tmp'') = Some payload" using WriteFile_Inr w Inr by fastforce
    show ?thesis
    proof (cases r2)
      case (Inl e)
      with assms w m \<open>r1 = Inr u\<close> have "r = Some (Wrap ''replace config file'' (os_error e))" "h' = h2" by (auto simp: replace_file_def)
      with 1 2 Rename_Inl [of "path @ ''.tmp''" path h1 e h2] m Inl show ?thesis by simp
    next
      case (Inr u2)
      with assms w m \<open>r1 = Inr u\<close> have "r = None" "h' = h2" by (auto simp: replace_file_def)
      with 1 2 Rename_Inr [of "path @ ''.tmp''" path h1 u2 h2] m Inr payload show ?thesis by auto
    qed
  qed
qed

lemma WritePath_cases:
  assumes run: "WritePath lib path opts h = (r, h')" and p: "p = config_path h path"
  obtains (kept) "\<forall>q. q \<notin> {p, p @ ''.tmp''} \<longrightarrow> ho_files h' q = ho_files h q" and "ho_files h' p = ho_files h p" and "\<exists>e. r = Inl e"
  | (written) payload h4 where "cd_MarshalIndent lib (file_config lib opts) = Some payload" and "LoadPath lib p h4 = (r, h')"
      and "ho_files h4 p = Some (payload @ [CHR 0x0A])" and "\<forall>q. q \<notin> {p, p @ ''.tmp''} \<longrightarrow> ho_files h4 q = ho_files h q"
      and "ho_env h4 = ho_env h" and "p \<notin> ho_dirs h4" and "io_Force opts \<or> ho_files h p = None"
      and "TrimSpace (io_DatabaseURL opts) \<noteq> []" and "TrimSpace (io_BaseURL opts) \<noteq> []"
proof -
  obtain r1 h1 where e: "refuse_existing (io_Force opts) p h = (r1, h1)" by force
  have 1: "ho_files h1 = ho_files h" "ho_env h1 = ho_env h" "r1 = None \<Longrightarrow> io_Force opts \<or> ho_files h p = None"
    using e by (auto simp: refuse_existing_def Stat_def os_call_def split: list.splits io_fault.splits if_splits osError.splits sum.splits)
  obtain r2 h2 where d1: "MkdirAll (cd_Dir lib p) h1 = (r2, h2)" by force
  obtain r3 h3 where d2: "MkdirAll (fc_DataDir (file_config lib opts)) h2 = (r3, h3)" by force
  have 3: "ho_files h3 = ho_files h" "ho_env h3 = ho_env h" "ho_files h2 = ho_files h"
    using 1 reading_files(3) [OF d1] reading_files(3) [OF d2] env_same(5) [OF d1] env_same(5) [OF d2] by simp_all
  show thesis
  proof (cases "TrimSpace (io_DatabaseURL opts) \<noteq> [] \<and> TrimSpace (io_BaseURL opts) \<noteq> [] \<and> r1 = None \<and> (\<exists>u. r2 = Inr u) \<and> (\<exists>u. r3 = Inr u) \<and>
      cd_MarshalIndent lib (file_config lib opts) \<noteq> None")
    case False
    then have "ho_files h' = ho_files h \<and> (\<exists>e. r = Inl e)"
      using run e d1 d2 1 3 unfolding WritePath_def Let_def p [symmetric]
      by (auto simp: file_config_def split: if_splits option.splits sum.splits prod.splits)
    then show thesis using kept by simp
  next
    case True
    then obtain payload where pl: "cd_MarshalIndent lib (file_config lib opts) = Some payload" by blast
    obtain r4 h4 where rep: "replace_file p (payload @ [CHR 0x0A]) h3 = (r4, h4)" by force
    have run': "(case r4 of Some e \<Rightarrow> (Inl e, h4) | None \<Rightarrow> LoadPath lib p h4) = (r, h')"
      using run e d1 d2 True pl rep unfolding WritePath_def Let_def p [symmetric]
      by (auto simp: file_config_def split: if_splits option.splits sum.splits prod.splits)
    from replace_file_cases [OF rep] consider er where "r4 = Some er" "ho_files h4 p = ho_files h3 p"
      | "r4 = None" "ho_files h4 p = Some (payload @ [CHR 0x0A])" "p \<notin> ho_dirs h4" by blast
    then show thesis
    proof cases
      case 1
      with run' kept replace_file_cases [OF rep] 3 show ?thesis by auto
    next
      case 2
      show ?thesis
        by (rule written [OF pl]) (use 2 run' replace_file_cases [OF rep] 3 1 True in auto)
    qed
  qed
qed

lemma LoadPath_file:
  assumes "ho_files h p = Some data" and "p \<notin> ho_dirs h" and "cd_Decode lib data = Some fc" and "config_path h path = p"
    and "LoadPath lib path h = (Inr cfg, h')"
  shows "\<exists>merged. merge_decoded lib fc (default_config p) = Inr merged \<and> cfg = applyEnvOverrides lib (ho_env h) merged"
proof -
  obtain r1 h1 where st: "Stat p h = (r1, h1)" by force
  obtain r2 h2 where rd: "ReadFile p h1 = (r2, h2)" by force
  have "r1 = Inr RegularFile \<or> r1 = Inl IOFailure"
    using st assms(1,2) by (auto simp: Stat_def os_call_def split: list.splits io_fault.splits)
  moreover have h1: "ho_files h1 = ho_files h" "ho_env h1 = ho_env h" "ho_env h2 = ho_env h"
    using reading_files(1) [OF st] env_same(1) [OF st] env_same(2) [OF rd] by simp_all
  moreover have "r2 = Inr data \<or> (\<exists>e. r2 = Inl e)"
    using rd h1 assms(1) by (auto simp: ReadFile_def os_call_def split: list.splits io_fault.splits if_splits)
  ultimately show ?thesis
    using assms(3,4,5) st rd by (auto simp: LoadPath_def mergeFileConfig_def Let_def split: sum.splits if_splits)
qed

section \<open>Properties\<close>

text \<open>C15.  Writing the configuration is atomic whatever call breaks: the file is the old one, or the complete encoding of the
  options; without force an existing file stays; no other file but the temporary one changes; and a result means that the
  new file is in place.\<close>

theorem WritePath_atomic:
  assumes "WritePath lib path opts h = (r, h')" and "p = config_path h path"
  shows "(\<forall>q. q \<noteq> p \<and> q \<noteq> p @ ''.tmp'' \<longrightarrow> ho_files h' q = ho_files h q) \<and>
    (ho_files h' p = ho_files h p \<or> (\<exists>payload. cd_MarshalIndent lib (file_config lib opts) = Some payload \<and>
       ho_files h' p = Some (payload @ [CHR 0x0A]) \<and> (io_Force opts \<or> ho_files h p = None))) \<and>
    (\<forall>cfg. r = Inr cfg \<longrightarrow> (\<exists>payload. cd_MarshalIndent lib (file_config lib opts) = Some payload \<and> ho_files h' p = Some (payload @ [CHR 0x0A])))"
  using assms
proof (cases rule: WritePath_cases)
  case kept
  then show ?thesis by auto
next
  case (written payload h4)
  with LoadPath_reads [OF written(2)] show ?thesis by auto
qed

definition sample_mail :: mailgunConfig where
  "sample_mail = \<lparr>mc_APIKey = ''k'', mc_SendingDomain = ''d'', mc_FromAddress = ''f@d'', mc_FromName = []\<rparr>"

definition sample_options :: initOptions where
  "sample_options = \<lparr>io_AppAddr = [], io_DatabaseURL = '' db '', io_DataDir = [], io_JWTAccessTTL = 0, io_JWTRefreshTTL = 5,
     io_CookieSecure = True, io_BaseURL = ''http://x'', io_Mailgun = sample_mail, io_RequestAccessEnabled = True,
     io_AdminContactEmail = ''a@b.io'', io_Force = False\<rparr>"

definition sample_file :: fileConfig where
  "sample_file = \<lparr>fc_Version = 1, fc_AppAddr = '':8080'', fc_DatabaseURL = ''db'', fc_DataDir = DefaultDataDir,
     fc_JWTAccessTTL = utoa (nat (15 * minute)), fc_JWTRefreshTTL = utoa 5, fc_CookieSecure = True, fc_BaseURL = ''http://x'',
     fc_Mailgun = sample_mail, fc_RequestAccessEnabled = True, fc_AdminContactEmail = ''a@b.io''\<rparr>"

definition sample_codec :: codec where
  "sample_codec = \<lparr>cd_Decode = (\<lambda>s. if s = ''{}'' @ [CHR 0x0A] then Some sample_file else None),
     cd_MarshalIndent = (\<lambda>c. if c = sample_file then Some ''{}'' else None),
     cd_ParseDuration = (\<lambda>s. Some (int (digits_value s))), cd_DurationString = (\<lambda>d. utoa (nat d)), cd_Dir = (\<lambda>_. ''data'')\<rparr>"

definition empty_host :: "string host" where
  "empty_host = \<lparr>ho_files = (\<lambda>_. None), ho_dirs = {}, ho_env = (\<lambda>k. if k = ''DRYNN_APP_ADDR'' then '':9'' else []), ho_faults = []\<rparr>"

lemma sample_trims: "TrimSpace '' db '' = ''db''" "TrimSpace ''http://x'' = ''http://x''" "TrimSpace ''a@b.io'' = ''a@b.io''"
  "TrimSpace ''k'' = ''k''" "TrimSpace ''d'' = ''d''" "TrimSpace ''f@d'' = ''f@d''" "TrimSpace [] = []" "TrimSpace ''c'' = ''c''"
  by code_simp+

lemma sample_file_config: "file_config sample_codec sample_options = sample_file"
  by (simp add: file_config_def sample_options_def sample_trims sample_mail_def defaultString_def defaultDuration_def configVersion_def
      sample_file_def sample_codec_def)

lemma utoa_nonempty: "utoa n \<noteq> []"
  by (subst utoa.simps) simp

lemma sample_codec_laws: "codec_laws sample_codec sample_options"
  unfolding codec_laws_def sample_file_config by (simp add: sample_codec_def digits_value_utoa utoa_nonempty)

lemma sample_LoadPath:
  assumes "ho_files h ''c'' = Some (''{}'' @ [CHR 0x0A])" and "''c'' \<notin> ho_dirs h" and "ho_faults h = []"
    and "ho_env h = ho_env empty_host"
  shows "LoadPath sample_codec ''c'' h = (Inr (applyEnvOverrides sample_codec (ho_env empty_host) (intended sample_options ''c'')), h)"
proof -
  have "merge_decoded sample_codec sample_file (default_config ''c'') = Inr (intended sample_options ''c'')"
    using merge_written [OF sample_codec_laws] by (simp add: sample_file_config)
  with assms show ?thesis
    by (simp add: LoadPath_def Let_def config_path_def sample_trims mergeFileConfig_def calm_os sample_codec_def applyEnvOverrides_def
        envOrDefault_def empty_host_def intended_def sample_options_def dom_def)
qed

lemma sample_written:
  "\<exists>h'. WritePath sample_codec ''c'' sample_options empty_host =
     (Inr (applyEnvOverrides sample_codec (ho_env empty_host) (intended sample_options ''c'')), h') \<and>
   ho_files h' ''c'' = Some (''{}'' @ [CHR 0x0A])"
proof -
  define h4 where "h4 = empty_host\<lparr>ho_dirs := {''data''} \<union> ancestors DefaultDataDir, ho_files := [''c'' \<mapsto> ''{}'' @ [CHR 0x0A]]\<rparr>"
  have dirs: "ancestors ''data'' = {''data''}" "''c'' \<notin> ancestors DefaultDataDir" "''c.tmp'' \<notin> ancestors DefaultDataDir" by code_simp+
  have env: "ho_files empty_host = Map.empty" "ho_dirs empty_host = {}" "ho_faults empty_host = []" by (simp_all add: empty_host_def)
  have opts: "cd_MarshalIndent sample_codec sample_file = Some ''{}''" "cd_Dir sample_codec q = ''data''" "\<not> io_Force sample_options"
    "fc_DatabaseURL sample_file \<noteq> []" "fc_BaseURL sample_file \<noteq> []" "fc_DataDir sample_file = DefaultDataDir" for q
    by (simp_all add: sample_codec_def sample_options_def sample_file_def)
  have load: "LoadPath sample_codec ''c'' h4 =
      (Inr (applyEnvOverrides sample_codec (ho_env empty_host) (intended sample_options ''c'')), h4)"
    using dirs by (intro sample_LoadPath) (simp_all add: h4_def env)
  have put: "(Map.empty(''c.tmp'' \<mapsto> v))(''c.tmp'' := None, ''c'' \<mapsto> v) = [''c'' \<mapsto> v]" for v :: string by auto
  have made: "MkdirAll ''data'' empty_host = (Inr (), empty_host\<lparr>ho_dirs := {''data''}\<rparr>)"
    "MkdirAll DefaultDataDir (empty_host\<lparr>ho_dirs := {''data''}\<rparr>) = (Inr (), empty_host\<lparr>ho_dirs := {''data''} \<union> ancestors DefaultDataDir\<rparr>)"
    using dirs by (simp_all add: MkdirAll_def os_call_def env)
  have rep: "replace_file ''c'' (''{}'' @ [CHR 0x0A]) (empty_host\<lparr>ho_dirs := {''data''} \<union> ancestors DefaultDataDir\<rparr>) = (None, h4)"
    using dirs put by (simp add: replace_file_def WriteFile_def Rename_def os_call_def env h4_def)
  have "WritePath sample_codec ''c'' sample_options empty_host = LoadPath sample_codec ''c'' h4"
    using rep by (simp add: WritePath_def Let_def config_path_def sample_trims sample_file_config opts refuse_existing_def calm_os env made)
  then show ?thesis using load by (simp add: h4_def)
qed

text \<open>A host with a configuration to replace.\<close>

definition forced_options :: initOptions where
  "forced_options = sample_options\<lparr>io_Force := True\<rparr>"

definition configured_host :: "string io_fault list \<Rightarrow> string host" where
  "configured_host faults = empty_host\<lparr>ho_files := [''c'' \<mapsto> ''old''], ho_faults := faults\<rparr>"

lemma forced_run:
  assumes "replace_file ''c'' (''{}'' @ [CHR 0x0A])
      (configured_host faults\<lparr>ho_dirs := {''data''} \<union> ancestors DefaultDataDir\<rparr>) = (err, h)"
  shows "WritePath sample_codec ''c'' forced_options (configured_host (Works # Works # faults)) =
      (case err of Some e \<Rightarrow> (Inl e, h) | None \<Rightarrow> LoadPath sample_codec ''c'' h)"
proof -
  have dirs: "ancestors ''data'' = {''data''}" "''c'' \<notin> ancestors DefaultDataDir" by code_simp+
  have opts: "cd_MarshalIndent sample_codec sample_file = Some ''{}''" "cd_Dir sample_codec q = ''data''" "io_Force forced_options"
    "fc_DatabaseURL sample_file \<noteq> []" "fc_BaseURL sample_file \<noteq> []" "fc_DataDir sample_file = DefaultDataDir" for q
    by (simp_all add: sample_codec_def sample_options_def forced_options_def sample_file_def)
  have content: "file_config sample_codec forced_options = sample_file"
    using sample_file_config by (simp add: file_config_def forced_options_def)
  have made: "MkdirAll ''data'' (configured_host (Works # Works # faults)) = (Inr (), configured_host (Works # faults)\<lparr>ho_dirs := {''data''}\<rparr>)"
    "MkdirAll DefaultDataDir (configured_host (Works # faults)\<lparr>ho_dirs := {''data''}\<rparr>) =
      (Inr (), configured_host faults\<lparr>ho_dirs := {''data''} \<union> ancestors DefaultDataDir\<rparr>)"
    using dirs by (simp_all add: MkdirAll_def os_call_def configured_host_def empty_host_def)
  show ?thesis
    using assms by (simp add: WritePath_def Let_def config_path_def sample_trims content opts refuse_existing_def made split: option.split)
qed

theorem WritePath_atomic_witness:
  "\<exists>h1 cfg h2. WritePath sample_codec ''c'' forced_options (configured_host [Works, Works, Breaks (Some ''{'') 0]) =
       (Inl (Wrap ''write config file'' (os_error IOFailure)), h1) \<and>
     ho_files h1 ''c'' = Some ''old'' \<and> ho_files h1 ''c.tmp'' = Some ''{'' \<and> ho_files h1 ''d'' = None \<and>
     WritePath sample_codec ''c'' forced_options (configured_host [Works, Works]) = (Inr cfg, h2) \<and>
     ho_files h2 ''c'' = Some (''{}'' @ [CHR 0x0A]) \<and> ho_files h2 ''d'' = None"
proof -
  have path: "''c'' = config_path (configured_host faults) ''c''" for faults by (simp add: config_path_def sample_trims)
  have dirs: "''c'' \<notin> ancestors DefaultDataDir" "''c.tmp'' \<notin> ancestors DefaultDataDir" by code_simp+
  obtain h1 where half: "replace_file ''c'' (''{}'' @ [CHR 0x0A])
      (configured_host [Breaks (Some ''{'') 0]\<lparr>ho_dirs := {''data''} \<union> ancestors DefaultDataDir\<rparr>) =
      (Some (Wrap ''write config file'' (os_error IOFailure)), h1)" "ho_files h1 ''c'' = Some ''old''" "ho_files h1 ''c.tmp'' = Some ''{''"
    using dirs by (simp add: replace_file_def WriteFile_def os_call_def configured_host_def)
  have run1: "WritePath sample_codec ''c'' forced_options (configured_host [Works, Works, Breaks (Some ''{'') 0]) =
      (Inl (Wrap ''write config file'' (os_error IOFailure)), h1)" using forced_run [OF half(1)] by simp
  obtain h where new: "replace_file ''c'' (''{}'' @ [CHR 0x0A])
      (configured_host []\<lparr>ho_dirs := {''data''} \<union> ancestors DefaultDataDir\<rparr>) = (None, h)" "ho_files h ''c'' = Some (''{}'' @ [CHR 0x0A])"
      "ho_dirs h = {''data''} \<union> ancestors DefaultDataDir" "ho_faults h = []" "ho_env h = ho_env empty_host"
    using dirs by (simp add: replace_file_def WriteFile_def Rename_def os_call_def configured_host_def empty_host_def)
  obtain cfg where run2: "WritePath sample_codec ''c'' forced_options (configured_host [Works, Works]) = (Inr cfg, h)"
    using forced_run [OF new(1)] sample_LoadPath [OF new(2)] new(3-5) dirs by simp
  have other: "ho_files (configured_host faults) ''d'' = None" for faults by (simp add: configured_host_def)
  from WritePath_atomic [OF run1 path] other have "ho_files h1 ''d'' = None" by auto
  moreover from WritePath_atomic [OF run2 path] other have "ho_files h ''d'' = None" "ho_files h ''c'' = Some (''{}'' @ [CHR 0x0A])"
    by (auto simp: sample_codec_def split: if_splits)
  ultimately show ?thesis using run1 run2 half by blast
qed

text \<open>C38.  What was written is what the programs load: a successful write returns the configuration the options ask for, with
  its defaults and the overrides of the environment, and every later load that finds this file and environment returns
  it again.\<close>

theorem WritePath_LoadPath:
  assumes "codec_laws lib opts" and "WritePath lib path opts h = (Inr cfg, h')"
    and "p = config_path h path" and "ho_files h2 p = ho_files h' p" and "p \<notin> ho_dirs h2" and "ho_env h2 = ho_env h" and "ho_faults h2 = []"
  shows "cfg = applyEnvOverrides lib (ho_env h) (intended opts p) \<and> LoadPath lib path h2 = (Inr cfg, h2)"
  using assms(2,3)
proof (cases rule: WritePath_cases)
  case (written payload h4)
  have dec: "cd_Decode lib (payload @ [CHR 0x0A]) = Some (file_config lib opts)"
    using assms(1) written(1) unfolding codec_laws_def by blast
  have path4: "config_path h4 p = p" using config_path_again [of h4 h path] written(5) assms(3) by simp
  from LoadPath_file [OF written(3) written(6) dec path4 written(2)] have cfg: "cfg = applyEnvOverrides lib (ho_env h) (intended opts p)"
    using merge_written [OF assms(1), of p] written(5) by simp
  have "ho_files h2 p = Some (payload @ [CHR 0x0A])"
    using assms(4) LoadPath_reads [OF written(2)] written(3) by simp
  moreover have "config_path h2 path = p" using assms(3,6) by (simp add: config_path_def)
  moreover have "cf_DatabaseURL cfg \<noteq> []" "cf_BaseURL cfg \<noteq> []"
    using written(8,9) by (simp_all add: cfg applyEnvOverrides_def envOrDefault_def intended_def)
  ultimately have "LoadPath lib path h2 = (Inr cfg, h2)"
    using assms(5,6,7) dec merge_written [OF assms(1), of p] cfg
    by (simp add: LoadPath_def Let_def mergeFileConfig_def calm_os dom_def)
  with cfg show ?thesis by simp
qed simp

theorem WritePath_LoadPath_witness:
  "\<exists>h' cfg. WritePath sample_codec ''c'' sample_options empty_host = (Inr cfg, h') \<and> cf_AppAddr cfg = '':9'' \<and>
     cf_DatabaseURL cfg = ''db'' \<and> cf_JWTAccessTTL cfg = 15 * minute \<and>
     LoadPath sample_codec ''c'' (empty_host\<lparr>ho_files := ho_files h'\<rparr>) = (Inr cfg, empty_host\<lparr>ho_files := ho_files h'\<rparr>)"
proof -
  obtain cfg h' where run: "WritePath sample_codec ''c'' sample_options empty_host = (Inr cfg, h')" using sample_written by blast
  have p: "''c'' = config_path empty_host ''c''" by (simp add: config_path_def sample_trims)
  have "cfg = applyEnvOverrides sample_codec (ho_env empty_host) (intended sample_options ''c'') \<and>
      LoadPath sample_codec ''c'' (empty_host\<lparr>ho_files := ho_files h'\<rparr>) = (Inr cfg, empty_host\<lparr>ho_files := ho_files h'\<rparr>)"
    by (rule WritePath_LoadPath [OF sample_codec_laws run p]) (simp_all add: empty_host_def)
  moreover have "cf_AppAddr (applyEnvOverrides sample_codec (ho_env empty_host) (intended sample_options ''c'')) = '':9''"
    "cf_DatabaseURL (applyEnvOverrides sample_codec (ho_env empty_host) (intended sample_options ''c'')) = ''db''"
    "cf_JWTAccessTTL (applyEnvOverrides sample_codec (ho_env empty_host) (intended sample_options ''c'')) = 15 * minute"
    by (simp_all add: applyEnvOverrides_def envOrDefault_def empty_host_def intended_def sample_options_def sample_trims
        durationOrDefault_def defaultDuration_def)
  ultimately show ?thesis using run by blast
qed

end
