(* ===== verification/Simulate.thy ===== *)
theory Simulate
  imports Worldgen Report Host
begin

text \<open>
  cmd/drynn/simulate.go and the diagnostics of cmd/drynn/main.go: the tools that run the generator and
  write its reports.  A report is represented by what it shows (\<open>ClusterHTML\<close> and so on), not by its bytes;
  \<open>filepath.Join\<close> is a parameter.  The main results: the staged run of \<open>simulate\<close> is \<open>Generate\<close> followed by
  writing the reports, and the statistics of \<open>test-hexmap\<close> agree with each other.  What is printed on
  the terminal is not modelled but for those statistics.
\<close>

section \<open>Running the stages one by one\<close>

record simulateOpts =
  sm_radius :: int
  sm_systems :: int
  sm_minDistance :: int
  sm_merge :: bool
  sm_seed1 :: u64
  sm_seed2 :: u64
  sm_randomSeeds :: bool
  sm_outDir :: string
  sm_jsonPath :: string
  sm_coords :: bool
  sm_planets :: bool
  sm_deposits :: bool

datatype report =
    ClusterHTML cluster rat bool bool bool
  | TemplateHTML homeStarTemplate
  | UnavailableHTML int int int
  | StateJSON stateDoc

text \<open>\<open>binary.LittleEndian.Uint64\<close> of eight random bytes.\<close>

definition le64 :: "nat list \<Rightarrow> u64" where
  "le64 bs = word_of_nat (foldr (\<lambda>b acc. b + 256 * acc) bs 0)"

definition cryptoRandSeeds :: "nat list \<Rightarrow> u64 \<times> u64" where
  "cryptoRandSeeds buf = (le64 (take 8 buf), le64 (drop 8 buf))"

definition template_report :: "int \<Rightarrow> homeStarTemplateOutcome \<Rightarrow> report" where
  "template_report n outcome =
     (case hso_Template outcome of
        None \<Rightarrow> UnavailableHTML n (hso_Attempts outcome) (hso_BestScore outcome)
      | Some t \<Rightarrow> TemplateHTML t)"

definition template_name :: "int \<Rightarrow> string" where
  "template_name n = ''home-system-'' @ utoa (nat n) @ ''.html''"

text \<open>The slot of a template; the array has ten slots, and 3 to 9 are filled.\<close>

definition outcome_at :: "cluster \<Rightarrow> int \<Rightarrow> homeStarTemplateOutcome" where
  "outcome_at c n = (case cl_HomeStarTemplates c ! nat n of Some x \<Rightarrow> x
     | None \<Rightarrow> \<lparr>hso_NumPlanets = n, hso_Template = None, hso_Attempts = 0, hso_BestScore = 0\<rparr>)"

text \<open>Writing files one after the other, up to the first failure.\<close>

fun write_all :: "(string \<times> string \<times> report) list \<Rightarrow> report host \<Rightarrow> goError option \<times> report host" where
  "write_all [] h = (None, h)"
| "write_all ((what, path, x) # rest) h =
     (case WriteFile path x h of
        (Inl e, h1) \<Rightarrow> (Some (Wrap (''write '' @ what) (ErrorString ''i/o error'')), h1)
      | (Inr _, h1) \<Rightarrow> write_all rest h1)"

definition simulate_reports :: "(string \<Rightarrow> string \<Rightarrow> string) \<Rightarrow> simulateOpts \<Rightarrow> u64 \<times> u64 \<Rightarrow> cluster \<Rightarrow> (string \<times> string \<times> report) list" where
  "simulate_reports join opts seeds c =
     (''cluster.html'', join (sm_outDir opts) ''cluster.html'',
        ClusterHTML c 0 (sm_coords opts) (sm_planets opts \<or> sm_deposits opts) (sm_deposits opts)) #
     map (\<lambda>n. (join (sm_outDir opts) (template_name n), join (sm_outDir opts) (template_name n), template_report n (outcome_at c n))) [3..9] @
     (if sm_jsonPath opts = [] then []
      else [(sm_jsonPath opts, sm_jsonPath opts,
        StateJSON (buildStateDoc \<lparr>so_Seed1 = fst seeds, so_Seed2 = snd seeds, so_Cluster = Some c\<rparr>))])"

definition simulate_seeds :: "simulateOpts \<Rightarrow> nat list \<Rightarrow> u64 \<times> u64" where
  "simulate_seeds opts buf = (if sm_randomSeeds opts then cryptoRandSeeds buf else (sm_seed1 opts, sm_seed2 opts))"

definition runSimulate :: "(string \<Rightarrow> string \<Rightarrow> string) \<Rightarrow> simulateOpts \<Rightarrow> nat list \<Rightarrow> report host
    \<Rightarrow> (goError option \<times> report host) go" where
  "runSimulate join opts buf h =
     (let seeds = simulate_seeds opts buf in
      case MkdirAll (sm_outDir opts) h of
        (Inl e, h1) \<Rightarrow> ret (Some (Wrap ''create out dir'' (ErrorString ''i/o error'')), h1)
      | (Inr _, h1) \<Rightarrow>
          (let rng = NewFromSeed (fst seeds) (snd seeds);
               (rngTemplates, rng) = Split rng; (rngCluster, rng) = Split rng; (rngDeposits, rng) = Split rng in
           go_bind (GenerateHomeStarTemplates DefaultViabilityWindow DefaultMaxCandidateRolls rngTemplates) (\<lambda>(templates, _).
           go_bind (GenerateCluster \<lparr>co_Radius = sm_radius opts, co_NumSystems = sm_systems opts,
               co_MinimumDistance = sm_minDistance opts, co_Merge = sm_merge opts\<rparr> rngCluster) (\<lambda>((c, err), _).
           go_bind (GenerateDeposits (Some (c\<lparr>cl_HomeStarTemplates := templates\<rparr>)) rngDeposits) (\<lambda>(cl, _).
           case cl of None \<Rightarrow> ret (None, h1) | Some c \<Rightarrow> ret (write_all (simulate_reports join opts seeds c) h1))))))"

section \<open>The staged run is Generate\<close>

definition simulate_options :: "simulateOpts \<Rightarrow> u64 \<times> u64 \<Rightarrow> goError gen_option list" where
  "simulate_options opts seeds = [WithDesiredRadius (sm_radius opts), WithDesiredNumberOfSystems (sm_systems opts),
     WithMinimumDistance (sm_minDistance opts), WithMerge (sm_merge opts), WithPRNG (NewFromSeed (fst seeds) (snd seeds))]"

lemma go_bind_swap:
  assumes "\<And>p. m \<noteq> panics p" and "\<And>p. m' \<noteq> panics p"
  shows "go_bind m (\<lambda>a. go_bind m' (f a)) = go_bind m' (\<lambda>b. go_bind m (\<lambda>a. f a b))"
  using assms by (cases m; cases m'; auto simp: go_bind_def split: option.split sum.split)

lemma no_panic: "always m P \<Longrightarrow> m r \<noteq> panics p"
  using alwaysD [of m P r] by (auto simp: yields_def)

lemma simulate_stages:
  assumes "sm_radius opts \<le> 2 ^ 29" and seeds: "seeds = simulate_seeds opts buf"
    and dir: "MkdirAll (sm_outDir opts) h = (Inr (), h1)"
  shows "runSimulate join opts buf h = go_bind (Generate (simulate_options opts seeds))
    (\<lambda>(c, err). case c of None \<Rightarrow> ret (None, h1) | Some c \<Rightarrow> ret (write_all (simulate_reports join opts seeds c) h1))"
proof -
  let ?g = "default_generator\<lparr>gen_desiredRadius := sm_radius opts, gen_desiredNumSystems := sm_systems opts,
    gen_minimumDistance := sm_minDistance opts, gen_merge := sm_merge opts, gen_r := NewFromSeed (fst seeds) (snd seeds)\<rparr>"
  have opts: "apply_options (simulate_options opts seeds) default_generator = Inr ?g"
    by (simp add: simulate_options_def WithDesiredRadius_def WithDesiredNumberOfSystems_def WithMinimumDistance_def WithMerge_def WithPRNG_def)
  have co: "cluster_options ?g = \<lparr>co_Radius = sm_radius opts, co_NumSystems = sm_systems opts,
      co_MinimumDistance = sm_minDistance opts, co_Merge = sm_merge opts\<rparr>" by (simp add: cluster_options_def)
  have set: "gen_r ?g = NewFromSeed (fst seeds) (snd seeds)" "gen_viabilityWindow ?g = DefaultViabilityWindow"
    "gen_maxCandidateRolls ?g = DefaultMaxCandidateRolls" by (simp_all add: default_generator_def)
  have set_default: "gen_viabilityWindow default_generator = DefaultViabilityWindow"
    "gen_maxCandidateRolls default_generator = DefaultMaxCandidateRolls" by (simp_all add: default_generator_def)
  have swap: "go_bind (GenerateHomeStarTemplates DefaultViabilityWindow DefaultMaxCandidateRolls r) (\<lambda>a. go_bind (GenerateCluster (cluster_options ?g) r') (f a)) =
      go_bind (GenerateCluster (cluster_options ?g) r') (\<lambda>b. go_bind (GenerateHomeStarTemplates DefaultViabilityWindow DefaultMaxCandidateRolls r) (\<lambda>a. f a b))"
    for r r' and f :: "_ \<Rightarrow> _ \<Rightarrow> (goError option \<times> report host) go"
  proof (rule go_bind_swap)
    show "GenerateHomeStarTemplates DefaultViabilityWindow DefaultMaxCandidateRolls r \<noteq> panics p" for p
      by (rule no_panic [OF always_GenerateHomeStarTemplates])
    show "GenerateCluster (cluster_options ?g) r' \<noteq> panics p" for p
      by (rule no_panic [OF always_GenerateCluster]) (use assms(1) co in simp)
  qed
  show ?thesis
    unfolding runSimulate_def Generate_def opts run_stages_def set Let_def seeds [symmetric] dir prod.case sum.case
    by (simp add: co case_prod_unfold go_bind_assoc set_default swap [unfolded co])
qed

lemma write_all_None:
  "write_all ws h = (None, h') \<Longrightarrow> ho_files h' = foldl (\<lambda>fs (_, path, x). fs(path \<mapsto> x)) (ho_files h) ws"
proof (induction ws arbitrary: h)
  case (Cons a ws)
  obtain what path x where a: "a = (what, path, x)" by (cases a)
  obtain r h1 where w: "WriteFile path x h = (r, h1)" by force
  with Cons.prems obtain u where r: "r = Inr u" by (cases r) (auto simp: a)
  then have rest: "write_all ws h1 = (None, h')" using Cons.prems w by (simp add: a)
  have "ho_files h1 = (ho_files h)(path \<mapsto> x)" using WriteFile_Inr [of path x h u h1] w r by simp
  then show ?case using Cons.IH [OF rest] by (simp add: a)
qed simp

lemma write_all_files:
  "write_all ws h = (e, h') \<Longrightarrow> q \<notin> (fst \<circ> snd) ` set ws \<Longrightarrow> ho_files h' q = ho_files h q"
proof (induction ws arbitrary: h)
  case (Cons a ws)
  obtain what path x where a: "a = (what, path, x)" by (cases a)
  obtain r h1 where w: "WriteFile path x h = (r, h1)" by force
  have h1: "ho_files h1 q = ho_files h q" using touchesD [OF touches_os(3) w] Cons.prems(2) by (auto simp: a)
  show ?case
  proof (cases r)
    case (Inl err)
    with Cons.prems(1) w h1 show ?thesis by (simp add: a)
  next
    case (Inr u)
    with Cons.prems w have "write_all ws h1 = (e, h')" by (simp add: a)
    with Cons.IH [of h1] Cons.prems(2) h1 show ?thesis by simp
  qed
qed simp

section \<open>The statistics of test-hexmap\<close>

definition starsBySys :: "cluster \<Rightarrow> int \<Rightarrow> int" where
  "starsBySys c i = int (length (filter (\<lambda>s. star_SystemID s = i) (cl_Stars c)))"

record breakdown =
  bd_one :: int
  bd_two :: int
  bd_three :: int
  bd_four :: int
  bd_fivePlus :: int

definition count_system :: "cluster \<Rightarrow> system \<Rightarrow> breakdown \<Rightarrow> breakdown" where
  "count_system c s b =
     (if starsBySys c (sys_ID s) = 1 then b\<lparr>bd_one := bd_one b + 1\<rparr>
      else if starsBySys c (sys_ID s) = 2 then b\<lparr>bd_two := bd_two b + 1\<rparr>
      else if starsBySys c (sys_ID s) = 3 then b\<lparr>bd_three := bd_three b + 1\<rparr>
      else if starsBySys c (sys_ID s) = 4 then b\<lparr>bd_four := bd_four b + 1\<rparr>
      else b\<lparr>bd_fivePlus := bd_fivePlus b + 1\<rparr>)"

definition star_breakdown :: "cluster \<Rightarrow> breakdown" where
  "star_breakdown c = fold (count_system c) (cl_Systems c) \<lparr>bd_one = 0, bd_two = 0, bd_three = 0, bd_four = 0, bd_fivePlus = 0\<rparr>"

definition hex_at :: "cluster \<Rightarrow> nat \<Rightarrow> axial" where
  "hex_at c i = sys_Hex (cl_Systems c ! i)"

text \<open>Sorted, as the code keeps them.\<close>

definition pair_distances :: "cluster \<Rightarrow> int list" where
  "pair_distances c = sort (concat (map (\<lambda>i. map (\<lambda>j. Distance (hex_at c i) (hex_at c j)) [Suc i..<length (cl_Systems c)])
     [0..<length (cl_Systems c)]))"

definition MaxInt :: int where
  "MaxInt = 2 ^ 63 - 1"

definition nearest_distance :: "cluster \<Rightarrow> nat \<Rightarrow> int" where
  "nearest_distance c i = fold (\<lambda>j nn. if i = j then nn else
     let d = Distance (hex_at c i) (hex_at c j) in if d < nn then d else nn) [0..<length (cl_Systems c)] MaxInt"

definition nearest_distances :: "cluster \<Rightarrow> int list" where
  "nearest_distances c = sort (map (nearest_distance c) [0..<length (cl_Systems c)])"

text \<open>The histogram: keys in order, each with its count and the length of its bar.\<close>

definition histogram :: "int list \<Rightarrow> (int \<times> int \<times> int) list" where
  "histogram nn =
     (let count = (\<lambda>k. int (count_list nn k)); maxCount = Max (insert 0 (set (map count nn))) in
      map (\<lambda>k. (k, count k, let barLen = count k * 40 div maxCount in if barLen = 0 \<and> count k > 0 then 1 else barLen))
        (sort (remdups nn)))"

text \<open>The mean and the median of a sorted slice, in \<open>float64\<close>, and what is printed of each sample.\<close>

definition mean :: "int list \<Rightarrow> rat" where
  "mean xs = float_div (float_of_int (sum_list xs)) (float_of_int (int (length xs)))"

definition median :: "int list \<Rightarrow> rat" where
  "median xs = (let n = length xs in
     if n mod 2 = 1 then float_of_int (xs ! (n div 2))
     else float_div (float_of_int (xs ! (n div 2 - 1) + xs ! (n div 2))) 2)"

record sample_stats =
  ss_count :: int
  ss_min :: int
  ss_max :: int
  ss_mean :: rat
  ss_median :: rat

definition stats_of :: "int list \<Rightarrow> sample_stats" where
  "stats_of xs = \<lparr>ss_count = int (length xs), ss_min = hd xs, ss_max = last xs, ss_mean = mean xs, ss_median = median xs\<rparr>"

text \<open>The two diagnostics: what they print, the error they return and the files they leave.\<close>

record hexmap_summary =
  hm_systems :: int
  hm_stars :: int
  hm_multi :: int
  hm_breakdown :: breakdown
  hm_distances :: "(sample_stats \<times> sample_stats \<times> (int \<times> int \<times> int) list) option"

definition hexmap_summary_of :: "cluster \<Rightarrow> hexmap_summary" where
  "hexmap_summary_of c = \<lparr>hm_systems = int (length (cl_Systems c)), hm_stars = TotalStars c, hm_multi = CountMultiStarSystems c,
     hm_breakdown = star_breakdown c,
     hm_distances = (if 2 \<le> length (cl_Systems c)
       then Some (stats_of (pair_distances c), stats_of (nearest_distances c), histogram (nearest_distances c)) else None)\<rparr>"

record cluster_summary =
  cs_systems :: int
  cs_stars :: int
  cs_planets :: int
  cs_radius :: int
  cs_breakdown :: breakdown

definition cluster_summary_of :: "cluster \<Rightarrow> cluster_summary" where
  "cluster_summary_of c = \<lparr>cs_systems = int (length (cl_Systems c)), cs_stars = TotalStars c, cs_planets = TotalPlanets c,
     cs_radius = cl_Radius c, cs_breakdown = star_breakdown c\<rparr>"

datatype toolError = GenerateError "goError + placeError" | WriteError osError

record testOpts =
  to_radius :: int
  to_systems :: int
  to_minDistance :: int
  to_noMerge :: bool
  to_seed1 :: u64
  to_seed2 :: u64
  to_randomSeeds :: bool
  to_coords :: bool
  to_html :: bool
  to_planets :: bool
  to_pixel :: rat
  to_out :: string

definition test_options :: "testOpts \<Rightarrow> nat list \<Rightarrow> goError gen_option list" where
  "test_options opts buf =
     (let seeds = if to_randomSeeds opts then cryptoRandSeeds buf else (to_seed1 opts, to_seed2 opts) in
      [WithDesiredRadius (to_radius opts), WithDesiredNumberOfSystems (to_systems opts),
       WithMinimumDistance (to_minDistance opts), WithMerge (\<not> to_noMerge opts), WithPRNG (NewFromSeed (fst seeds) (snd seeds))])"

definition write_html :: "string \<Rightarrow> report \<Rightarrow> report host \<Rightarrow> toolError option \<times> report host" where
  "write_html path x h = (case WriteFile path x h of (Inl e, h1) \<Rightarrow> (Some (WriteError e), h1) | (Inr _, h1) \<Rightarrow> (None, h1))"

definition runTestHexmap :: "(string \<Rightarrow> string \<Rightarrow> string) \<Rightarrow> testOpts \<Rightarrow> nat list \<Rightarrow> report host
    \<Rightarrow> (hexmap_summary option \<times> toolError option \<times> report host) go" where
  "runTestHexmap join opts buf h = go_bind (Generate (test_options opts buf)) (\<lambda>(cl, err). case cl of
       None \<Rightarrow> (case err of Some e \<Rightarrow> ret (None, Some (GenerateError e), h) | None \<Rightarrow> panics NilDereference)
     | Some c \<Rightarrow> ret (Some (hexmap_summary_of c),
         write_html (join (to_out opts) ''hexmap.html'') (ClusterHTML c 0 (to_coords opts) False False) h))"

definition runTestCluster :: "(string \<Rightarrow> string \<Rightarrow> string) \<Rightarrow> testOpts \<Rightarrow> nat list \<Rightarrow> report host
    \<Rightarrow> (cluster_summary option \<times> toolError option \<times> report host) go" where
  "runTestCluster join opts buf h = go_bind (Generate (test_options opts buf)) (\<lambda>(cl, err). case cl of
       None \<Rightarrow> (case err of Some e \<Rightarrow> ret (None, Some (GenerateError e), h) | None \<Rightarrow> panics NilDereference)
     | Some c \<Rightarrow> ret (Some (cluster_summary_of c),
         if to_html opts then write_html (join (to_out opts) ''cluster.html'') (ClusterHTML c (to_pixel opts) (to_coords opts) (to_planets opts) False) h
         else (None, h)))"

section \<open>The statistics agree\<close>

lemma Min_pair: "finite A \<Longrightarrow> Min (insert a (insert b A)) = Min (insert (min a b) A)" for a b :: int
  by (cases "A = {}") (auto simp: min.assoc)

lemma fold_least:
  "fold (\<lambda>j nn. if i = j then nn else let d = f j in if d < nn then d else nn) js M = Min (insert M (f ` (set js - {i})))"
  for M :: int
proof (induction js arbitrary: M)
  case (Cons j js)
  show ?case
  proof (cases "i = j")
    case True
    with Cons show ?thesis by simp
  next
    case False
    have "(if f j < M then f j else M) = min M (f j)" by (simp add: min_def)
    moreover have "f ` (set (j # js) - {i}) = insert (f j) (f ` (set js - {i}))" using False by auto
    ultimately show ?thesis using Cons [of "min M (f j)"] Min_pair [of "f ` (set js - {i})" M "f j"] False by (simp add: Let_def)
  qed
qed simp

lemma others: "2 \<le> n \<Longrightarrow> \<exists>j. j < n \<and> j \<noteq> (i :: nat)"
  by (intro exI [of _ "if i = 0 then 1 else 0"]) simp

lemma nearest_distance_Min:
  assumes n: "2 \<le> length (cl_Systems c)" "i < length (cl_Systems c)"
    and small: "\<forall>s \<in> set (cl_Systems c). \<forall>t \<in> set (cl_Systems c). Distance (sys_Hex s) (sys_Hex t) < MaxInt"
  shows "nearest_distance c i = Min ((\<lambda>j. Distance (hex_at c i) (hex_at c j)) ` ({0..<length (cl_Systems c)} - {i}))"
proof -
  let ?D = "(\<lambda>j. Distance (hex_at c i) (hex_at c j)) ` ({0..<length (cl_Systems c)} - {i})"
  have ne: "?D \<noteq> {}" "finite ?D" using others [OF n(1), of i] by auto
  have "\<forall>d \<in> ?D. d < MaxInt" using small n by (auto simp: hex_at_def)
  then have "Min ?D < MaxInt" using Min_in [OF ne(2,1)] by blast
  moreover have "nearest_distance c i = Min (insert MaxInt ?D)" by (simp add: nearest_distance_def fold_least)
  ultimately show ?thesis using ne by simp
qed

lemma set_pair_distances:
  "set (pair_distances c) = {Distance (hex_at c i) (hex_at c j) | i j. i < j \<and> j < length (cl_Systems c)}" (is "_ = ?P")
proof
  show "set (pair_distances c) \<subseteq> ?P" by (auto simp: pair_distances_def Suc_le_eq) blast
  show "?P \<subseteq> set (pair_distances c)"
  proof (clarsimp simp: pair_distances_def)
    fix i j assume "i < j" "j < length (cl_Systems c)"
    then show "\<exists>x \<in> {0..<length (cl_Systems c)}. Distance (hex_at c i) (hex_at c j) \<in> (\<lambda>j. Distance (hex_at c x) (hex_at c j)) ` {Suc x..<length (cl_Systems c)}"
      by (intro bexI [of _ i] imageI) auto
  qed
qed

lemma nearest_is_pair:
  assumes "2 \<le> length (cl_Systems c)" "i < length (cl_Systems c)"
    and "\<forall>s \<in> set (cl_Systems c). \<forall>t \<in> set (cl_Systems c). Distance (sys_Hex s) (sys_Hex t) < MaxInt"
  shows "nearest_distance c i \<in> set (pair_distances c)"
proof -
  let ?I = "{0..<length (cl_Systems c)} - {i}"
  have "?I \<noteq> {}" using others [OF assms(1), of i] by auto
  then have "nearest_distance c i \<in> (\<lambda>j. Distance (hex_at c i) (hex_at c j)) ` ?I"
    unfolding nearest_distance_Min [OF assms] by (intro Min_in) auto
  then obtain j where "j \<in> ?I" and d: "nearest_distance c i = Distance (hex_at c i) (hex_at c j)" by blast
  then have j: "nearest_distance c i = Distance (hex_at c i) (hex_at c j)" "j < length (cl_Systems c)" "j \<noteq> i" by simp_all
  then show ?thesis unfolding set_pair_distances
    using assms(2) hex.dist_sym [of "hex_at c i" "hex_at c j"] by (metis (mono_tags, lifting) mem_Collect_eq linorder_neqE_nat)
qed

lemma nearest_le_pair:
  assumes "i < length (cl_Systems c)" "j < length (cl_Systems c)" "i \<noteq> j"
    and "\<forall>s \<in> set (cl_Systems c). \<forall>t \<in> set (cl_Systems c). Distance (sys_Hex s) (sys_Hex t) < MaxInt"
  shows "nearest_distance c i \<le> Distance (hex_at c i) (hex_at c j)"
proof -
  have "2 \<le> length (cl_Systems c)" using assms(1-3) by simp
  from nearest_distance_Min [OF this assms(1,4)] show ?thesis using assms(2,3) by (simp add: Min_le)
qed

lemma hd_sort: "xs \<noteq> [] \<Longrightarrow> hd (sort xs) = Min (set xs)" for xs :: "int list"
proof -
  assume "xs \<noteq> []"
  then obtain y ys where s: "sort xs = y # ys" by (cases "sort xs") (metis length_0_conv length_sort, auto)
  then have "\<forall>z \<in> set (y # ys). y \<le> z" using sorted_sort [of xs] by (metis list.set_intros(1) set_ConsD sorted_simps(2) order_refl)
  then show ?thesis using s by (metis List.finite_set Min_eqI list.sel(1) list.set_intros(1) set_sort)
qed

lemma last_sort: "xs \<noteq> [] \<Longrightarrow> last (sort xs) = Max (set xs)" for xs :: "int list"
proof -
  assume ne: "xs \<noteq> []"
  then have s: "sort xs \<noteq> []" by (metis length_0_conv length_sort)
  then have "sort xs = butlast (sort xs) @ [last (sort xs)]" by simp
  then have "\<forall>z \<in> set (sort xs). z \<le> last (sort xs)"
    using sorted_sort [of xs] by (metis sorted_append Un_iff empty_iff empty_set list.set_intros(1) set_ConsD set_append order_refl)
  then show ?thesis using s by (metis List.finite_set Max_eqI last_in_set set_sort)
qed

lemma length_pairs: "2 * (\<Sum>i\<leftarrow>[0..<n]. n - Suc i) = n * (n - 1)"
proof -
  have "(\<Sum>i\<leftarrow>[0..<n]. n - Suc i) = (\<Sum>i<n. n - Suc i)" by (simp add: interv_sum_list_conv_sum_set_nat atLeast0LessThan)
  also have "\<dots> = (\<Sum>i<n. i)" by (rule sum.nat_diff_reindex)
  finally have "(\<Sum>i\<leftarrow>[0..<n]. n - Suc i) = (\<Sum>i<n. i)" .
  moreover have "2 * (\<Sum>i<n. i) = n * (n - 1)"
  proof (induction n)
    case (Suc n)
    then show ?case by (cases n) (simp_all add: algebra_simps)
  qed simp
  ultimately show ?thesis by simp
qed

lemma length_pair_distances: "2 * length (pair_distances c) = length (cl_Systems c) * (length (cl_Systems c) - 1)"
  using length_pairs [of "length (cl_Systems c)"] by (simp add: pair_distances_def length_concat o_def)

lemma nearest_distances_ne: "2 \<le> length (cl_Systems c) \<Longrightarrow> nearest_distances c \<noteq> []"
  by (cases "cl_Systems c") (simp_all add: nearest_distances_def flip: length_greater_0_conv)

lemma pair_distances_ne: "2 \<le> length (cl_Systems c) \<Longrightarrow> pair_distances c \<noteq> []"
proof
  assume "2 \<le> length (cl_Systems c)" "pair_distances c = []"
  then show False using length_pair_distances [of c] by (cases "length (cl_Systems c)") simp_all
qed

lemma count_system_total:
  "bd_one (count_system c s b) + bd_two (count_system c s b) + bd_three (count_system c s b) + bd_four (count_system c s b) +
     bd_fivePlus (count_system c s b) = bd_one b + bd_two b + bd_three b + bd_four b + bd_fivePlus b + 1"
  by (simp add: count_system_def)

lemma breakdown_total: "bd_one (star_breakdown c) + bd_two (star_breakdown c) + bd_three (star_breakdown c) + bd_four (star_breakdown c) +
    bd_fivePlus (star_breakdown c) = int (length (cl_Systems c))"
proof -
  have "bd_one (fold (count_system c) ss b) + bd_two (fold (count_system c) ss b) + bd_three (fold (count_system c) ss b) +
      bd_four (fold (count_system c) ss b) + bd_fivePlus (fold (count_system c) ss b) =
    bd_one b + bd_two b + bd_three b + bd_four b + bd_fivePlus b + int (length ss)" for ss b
    by (induction ss arbitrary: b) (simp_all add: count_system_total)
  then show ?thesis by (simp add: star_breakdown_def)
qed

lemma histogram_bars:
  assumes "(k, n, bar) \<in> set (histogram nn)"
  shows "n = int (count_list nn k) \<and> k \<in> set nn \<and> 1 \<le> bar \<and> bar \<le> 40"
proof -
  let ?count = "\<lambda>k. int (count_list nn k)" and ?max = "Max (insert 0 (set (map (\<lambda>k. int (count_list nn k)) nn)))"
  from assms have k: "k \<in> set nn" "n = ?count k"
    and bar: "bar = (let barLen = ?count k * 40 div ?max in if barLen = 0 \<and> ?count k > 0 then 1 else barLen)"
    by (auto simp: histogram_def Let_def)
  have "count_list nn k > 0" using k(1) count_list_0_iff [of nn k] by simp
  then have pos: "0 < ?count k" by simp
  have le: "?count k \<le> ?max" using k(1) by (intro Max_ge) auto
  have "0 < ?max" using pos le by linarith
  then have "?count k * 40 div ?max \<le> (?max * 40) div ?max" using le by (intro zdiv_mono1) linarith+
  then have "?count k * 40 div ?max \<le> 40" using \<open>0 < ?max\<close> by simp
  moreover have "0 \<le> ?count k * 40 div ?max" using pos le by (simp add: pos_imp_zdiv_nonneg_iff)
  ultimately show ?thesis using k bar pos by (auto simp: Let_def)
qed

lemma histogram_counts: "sum_list (map (\<lambda>(k, n, bar). n) (histogram nn)) = int (length nn)"
proof -
  have "map (\<lambda>(k, n, bar). n) (histogram nn) = map (\<lambda>k. int (count_list nn k)) (sort (remdups nn))"
    by (simp add: histogram_def Let_def o_def)
  also have "sum_list \<dots> = (\<Sum>k \<in> set nn. int (count_list nn k))"
    by (subst sum_list_distinct_conv_sum_set) simp_all
  also have "\<dots> = int (length nn)" using sum_count_set [of nn "set nn"] by (simp flip: of_nat_sum)
  finally show ?thesis .
qed

lemma nearest_pairs:
  assumes "2 \<le> length (cl_Systems c)"
    and "\<forall>s \<in> set (cl_Systems c). \<forall>t \<in> set (cl_Systems c). Distance (sys_Hex s) (sys_Hex t) < MaxInt"
  shows "hd (nearest_distances c) = hd (pair_distances c) \<and> last (nearest_distances c) \<le> last (pair_distances c) \<and>
    set (nearest_distances c) \<subseteq> set (pair_distances c)"
proof -
  let ?n = "length (cl_Systems c)"
  have sub: "set (nearest_distances c) \<subseteq> set (pair_distances c)"
    using nearest_is_pair [OF assms(1) _ assms(2)] by (auto simp: nearest_distances_def)
  have ne: "nearest_distances c \<noteq> []" "pair_distances c \<noteq> []"
    by (rule nearest_distances_ne [OF assms(1)], rule pair_distances_ne [OF assms(1)])
  have hd: "hd (nearest_distances c) = Min (set (nearest_distances c))" "hd (pair_distances c) = Min (set (pair_distances c))"
    using hd_sort [of "nearest_distances c"] hd_sort [of "pair_distances c"] ne by (simp_all add: nearest_distances_def pair_distances_def sorted_sort_id)
  have last: "last (nearest_distances c) = Max (set (nearest_distances c))" "last (pair_distances c) = Max (set (pair_distances c))"
    using last_sort [of "nearest_distances c"] last_sort [of "pair_distances c"] ne by (simp_all add: nearest_distances_def pair_distances_def sorted_sort_id)
  have "Min (set (nearest_distances c)) \<le> d" if "d \<in> set (pair_distances c)" for d
  proof -
    from that obtain i j where d: "d = Distance (hex_at c i) (hex_at c j)" "i < j" "j < ?n" unfolding set_pair_distances by blast
    then have "nearest_distance c i \<le> d" using nearest_le_pair [of i c j] assms(2) by simp
    moreover have "nearest_distance c i \<in> set (nearest_distances c)" using d by (simp add: nearest_distances_def)
    ultimately show ?thesis by (meson List.finite_set Min_le order_trans)
  qed
  then have "Min (set (nearest_distances c)) = Min (set (pair_distances c))"
    using ne sub by (intro Min_eqI [symmetric]) auto
  moreover have "Max (set (nearest_distances c)) \<le> Max (set (pair_distances c))" using ne sub by (intro Max_mono) auto
  ultimately show ?thesis using sub by (simp only: hd last)
qed

section \<open>What test-hexmap reports of a generated map\<close>

lemma sum_list_between:
  fixes xs :: "int list"
  assumes "\<forall>x \<in> set xs. a \<le> x \<and> x \<le> b"
  shows "a * int (length xs) \<le> sum_list xs \<and> sum_list xs \<le> b * int (length xs)"
  using assms by (induction xs) (auto simp: algebra_simps)

lemma mean_between:
  assumes xs: "xs \<noteq> []" "\<forall>x \<in> set xs. a \<le> x \<and> x \<le> b" and small: "0 \<le> a" "b * int (length xs) < 2 ^ 53" "b < 2 ^ 53" "int (length xs) < 2 ^ 53"
  shows "of_int a \<le> mean xs \<and> mean xs \<le> of_int b"
proof -
  let ?n = "int (length xs)"
  have n: "0 < ?n" using xs(1) by simp
  have sum: "a * ?n \<le> sum_list xs" "sum_list xs \<le> b * ?n" using sum_list_between [OF xs(2)] by auto
  have "0 \<le> a * ?n" using small(1) by simp
  with sum small(2) have "\<bar>sum_list xs\<bar> < 2 ^ 53" by linarith
  then have m: "mean xs = fl64 (of_int (sum_list xs) / of_int ?n)"
    using fl64_int [of ?n] fl64_int [of "sum_list xs"] small(4) by (simp add: mean_def float_ops del: of_int_of_nat_eq)
  have ab: "a \<le> b" using sum n by (metis mult_le_cancel_right order_trans not_less)
  have "(of_int a :: rat) * of_int ?n \<le> of_int (sum_list xs)" using sum(1) by (metis of_int_le_iff of_int_mult)
  moreover have "(of_int (sum_list xs) :: rat) \<le> of_int b * of_int ?n" using sum(2) by (metis of_int_le_iff of_int_mult)
  ultimately have "of_int a \<le> (of_int (sum_list xs) :: rat) / of_int ?n" "(of_int (sum_list xs) :: rat) / of_int ?n \<le> of_int b"
    using n by (simp_all add: pos_le_divide_eq pos_divide_le_eq)
  then show ?thesis unfolding m using ab small by (intro f64.between_ints) auto
qed

lemma half_between:
  assumes "2 * a \<le> s" and "s \<le> 2 * b"
  shows "of_int a \<le> (of_int s :: rat) / 2 \<and> (of_int s :: rat) / 2 \<le> of_int b"
proof -
  have "of_int (2 * a) \<le> (of_int s :: rat)" "(of_int s :: rat) \<le> of_int (2 * b)" using assms by (simp_all only: of_int_le_iff)
  then show ?thesis by simp
qed

lemma median_between:
  assumes xs: "xs \<noteq> []" "\<forall>x \<in> set xs. a \<le> x \<and> x \<le> b" and small: "0 \<le> a" "b < 2 ^ 52"
  shows "of_int a \<le> median xs \<and> median xs \<le> of_int b"
proof -
  let ?n = "length xs"
  have at: "a \<le> xs ! i \<and> xs ! i \<le> b" if "i < ?n" for i using that xs(2) nth_mem by blast
  have n: "0 < ?n" using xs(1) by simp
  show ?thesis
  proof (cases "?n mod 2 = 1")
    case True
    have "?n div 2 < ?n" using n by simp
    with at [of "?n div 2"] True small show ?thesis by (simp add: median_def Let_def float_ops fl64_int)
  next
    case False
    have i: "?n div 2 - 1 < ?n" "?n div 2 < ?n" using n by linarith+
    have s: "2 * a \<le> xs ! (?n div 2 - 1) + xs ! (?n div 2)" "xs ! (?n div 2 - 1) + xs ! (?n div 2) \<le> 2 * b"
      using at [OF i(1)] at [OF i(2)] by auto
    then have "median xs = fl64 (of_int (xs ! (?n div 2 - 1) + xs ! (?n div 2)) / 2)"
      using False small by (simp add: median_def Let_def float_ops fl64_int del: of_int_add)
    moreover have "of_int a \<le> (of_int (xs ! (?n div 2 - 1) + xs ! (?n div 2)) :: rat) / 2 \<and>
        (of_int (xs ! (?n div 2 - 1) + xs ! (?n div 2)) :: rat) / 2 \<le> of_int b"
      using s by (rule half_between)
    moreover have "\<bar>a\<bar> < 2 ^ 53" "\<bar>b\<bar> < 2 ^ 53" using s small by auto
    ultimately show ?thesis by (metis f64.between_ints)
  qed
qed

text \<open>A sorted sample reports its least and its greatest member, and a mean and a median between them.\<close>

definition stats_ok :: "sample_stats \<Rightarrow> bool" where
  "stats_ok ss \<longleftrightarrow> of_int (ss_min ss) \<le> ss_mean ss \<and> ss_mean ss \<le> of_int (ss_max ss) \<and>
     of_int (ss_min ss) \<le> ss_median ss \<and> ss_median ss \<le> of_int (ss_max ss)"

lemma stats_of_ok:
  assumes "xs \<noteq> []" and "\<forall>x \<in> set xs. 0 \<le> x \<and> x \<le> b" and "sort xs = xs" and "b * int (length xs) < 2 ^ 53" "b < 2 ^ 52" "int (length xs) < 2 ^ 53"
  shows "stats_ok (stats_of xs)"
proof -
  have mm: "hd xs = Min (set xs)" "last xs = Max (set xs)" using hd_sort [OF assms(1)] last_sort [OF assms(1)] assms(3) by simp_all
  then have mem: "hd xs \<in> set xs" "last xs \<in> set xs" using assms(1) by simp_all
  have between: "\<forall>x \<in> set xs. hd xs \<le> x \<and> x \<le> last xs" using mm by simp
  have b: "0 \<le> hd xs" "last xs \<le> b" using mem assms(2) by blast+
  then have "last xs * int (length xs) \<le> b * int (length xs)" by (intro mult_right_mono) auto
  with assms(4) have "last xs * int (length xs) < 2 ^ 53" by simp
  then show ?thesis
    using mean_between [OF assms(1) between b(1)] median_between [OF assms(1) between b(1)] b(2) assms(5,6)
    by (simp add: stats_ok_def stats_of_def)
qed

text \<open>The numbers of a summary fit together, and fit the options.\<close>

definition summary_ok :: "testOpts \<Rightarrow> hexmap_summary \<Rightarrow> bool" where
  "summary_ok opts s \<longleftrightarrow> (let n = hm_systems s; b = hm_breakdown s in
     n \<le> max 0 (to_systems opts) \<and>
     bd_one b + bd_two b + bd_three b + bd_four b + bd_fivePlus b = n \<and>
     hm_multi s = bd_two b + bd_three b + bd_four b + bd_fivePlus b \<and>
     n \<le> hm_stars s \<and> hm_stars s \<le> 5 * n \<and>
     (to_noMerge opts \<longrightarrow> bd_one b = n \<and> hm_stars s = n) \<and>
     (hm_distances s = None \<longleftrightarrow> n < 2) \<and>
     (case hm_distances s of None \<Rightarrow> True | Some (pairs, nn, hist) \<Rightarrow>
        2 * ss_count pairs = n * (n - 1) \<and> ss_count nn = n \<and> stats_ok pairs \<and> stats_ok nn \<and>
        to_minDistance opts < ss_min pairs \<and> ss_min nn = ss_min pairs \<and>
        ss_max nn \<le> ss_max pairs \<and> ss_max pairs \<le> 2 * to_radius opts \<and>
        sum_list (map (\<lambda>(k, m, bar). m) hist) = n \<and> (\<forall>(k, m, bar) \<in> set hist. ss_min nn \<le> k \<and> k \<le> ss_max nn \<and> 1 \<le> bar \<and> bar \<le> 40)))"

lemma count_stars:
  assumes "\<forall>s \<in> set ss. 1 \<le> starsBySys c (sys_ID s)"
  shows "bd_one (fold (count_system c) ss b) = bd_one b + int (length (filter (\<lambda>s. starsBySys c (sys_ID s) = 1) ss)) \<and>
    bd_two (fold (count_system c) ss b) + bd_three (fold (count_system c) ss b) + bd_four (fold (count_system c) ss b) +
      bd_fivePlus (fold (count_system c) ss b) =
    bd_two b + bd_three b + bd_four b + bd_fivePlus b + int (length (filter (\<lambda>s. 1 < starsBySys c (sys_ID s)) ss))"
  using assms
proof (induction ss arbitrary: b)
  case (Cons s ss)
  then have "1 \<le> starsBySys c (sys_ID s)" "\<forall>s \<in> set ss. 1 \<le> starsBySys c (sys_ID s)" by simp_all
  with Cons.IH [of "count_system c s b"] show ?case
    by (cases "starsBySys c (sys_ID s) = 1") (auto simp: count_system_def)
qed simp

lemma stars_of_system: "starsBySys c i = int (length (StarsForSystem c i))"
  by (simp add: starsBySys_def StarsForSystem_def)

lemma multi_star_systems:
  assumes ids: "map sys_ID (cl_Systems c) = [1..int (length (cl_Systems c))]"
    and refs: "\<forall>s \<in> set (cl_Stars c). 1 \<le> star_SystemID s \<and> star_SystemID s \<le> int (length (cl_Systems c))"
  shows "CountMultiStarSystems c = int (length (filter (\<lambda>s. 1 < starsBySys c (sys_ID s)) (cl_Systems c)))"
proof -
  have "{i. 1 < length (StarsForSystem c i)} = sys_ID ` set (filter (\<lambda>s. 1 < starsBySys c (sys_ID s)) (cl_Systems c))"
    (is "?A = ?B")
  proof
    show "?B \<subseteq> ?A" by (auto simp: stars_of_system)
    show "?A \<subseteq> ?B"
    proof
      fix i assume i: "i \<in> ?A"
      then have "filter (\<lambda>s. star_SystemID s = i) (cl_Stars c) \<noteq> []" by (auto simp: StarsForSystem_def)
      then obtain s where "s \<in> set (cl_Stars c)" "star_SystemID s = i" by (auto simp: filter_empty_conv)
      with refs have "i \<in> set (map sys_ID (cl_Systems c))" by (auto simp: ids)
      with i show "i \<in> ?B" by (auto simp: stars_of_system)
    qed
  qed
  moreover have "distinct (map sys_ID (cl_Systems c))" by (simp add: ids)
  then have "distinct (map sys_ID (filter (\<lambda>s. 1 < starsBySys c (sys_ID s)) (cl_Systems c)))" by (rule distinct_map_filter)
  then have "card (sys_ID ` set (filter (\<lambda>s. 1 < starsBySys c (sys_ID s)) (cl_Systems c))) =
      length (filter (\<lambda>s. 1 < starsBySys c (sys_ID s)) (cl_Systems c))"
    using distinct_card by fastforce
  ultimately show ?thesis by (simp only: CountMultiStarSystems_card)
qed

lemma length_by_key:
  assumes "f ` set xs \<subseteq> set ks" and "distinct ks"
  shows "length xs = (\<Sum>k\<leftarrow>ks. length (filter (\<lambda>x. f x = k) xs))"
proof -
  have "length (filter (\<lambda>x. f x = k) xs) = count_list (map f xs) k" for k by (induction xs) auto
  then have "(\<Sum>k\<leftarrow>ks. length (filter (\<lambda>x. f x = k) xs)) = (\<Sum>k \<in> set ks. count_list (map f xs) k)"
    by (simp add: sum_list_distinct_conv_sum_set assms(2))
  also have "\<dots> = length (map f xs)" using sum_count_set [of "map f xs" "set ks"] assms(1) by simp
  finally show ?thesis by simp
qed

lemma stars_between:
  assumes "\<forall>s \<in> set ss. 1 \<le> f s \<and> f s \<le> (m :: nat)"
  shows "length ss \<le> (\<Sum>s\<leftarrow>ss. f s) \<and> (\<Sum>s\<leftarrow>ss. f s) \<le> m * length ss"
  using assms by (induction ss) (auto simp: algebra_simps)

text \<open>What the layout of a map means for its distances.\<close>

lemma pair_distance_bounds:
  assumes layout: "layout_ok r d merge c" and x: "x \<in> set (pair_distances c)"
  shows "d < x \<and> 0 \<le> x \<and> x \<le> 2 * r"
proof -
  from x obtain i j where ij: "x = Distance (hex_at c i) (hex_at c j)" "i < j" "j < length (cl_Systems c)"
    unfolding set_pair_distances by blast
  then have mem: "cl_Systems c ! i \<in> set (cl_Systems c)" "cl_Systems c ! j \<in> set (cl_Systems c)" by simp_all
  have "distinct (map sys_Hex (cl_Systems c))" using layout by (simp add: layout_ok_def)
  then have "cl_Systems c ! i \<noteq> cl_Systems c ! j" using ij(2,3) by (simp add: distinct_map nth_eq_iff_index_eq)
  then have "d < x" using layout mem unfolding layout_ok_def ij(1) hex_at_def by blast
  moreover have "Contains r (hex_at c i)" "Contains r (hex_at c j)" using layout mem by (auto simp: layout_ok_def hex_at_def)
  then have "x \<le> 2 * r" by (auto simp: Contains_def ij(1) Distance_le)
  moreover have "0 \<le> x" unfolding ij(1) using Distance_ge(1) [of "hex_at c i" "hex_at c j"] by linarith
  ultimately show ?thesis by blast
qed

lemma systems_fit:
  assumes "layout_ok r d merge c"
  shows "int (length (cl_Systems c)) \<le> Capacity r"
proof -
  have "sys_Hex ` set (cl_Systems c) \<subseteq> set (Disk r)" using assms by (auto simp: layout_ok_def set_Disk)
  then have "card (set (map sys_Hex (cl_Systems c))) \<le> card (set (Disk r))" by (simp add: card_mono)
  moreover have "distinct (map sys_Hex (cl_Systems c))" using assms by (simp add: layout_ok_def)
  then have "card (set (map sys_Hex (cl_Systems c))) = length (cl_Systems c)" by (metis distinct_card length_map)
  moreover have "card (set (Disk r)) = length (Disk r)" using distinct_Disk by (rule distinct_card)
  ultimately show ?thesis using length_Disk [of r] by linarith
qed

text \<open>The distances of a small map pass for samples.\<close>

lemma distance_samples:
  assumes layout: "layout_ok r d merge c" and r: "r \<le> 500" and n: "2 \<le> length (cl_Systems c)"
  shows "stats_ok (stats_of (pair_distances c)) \<and> stats_ok (stats_of (nearest_distances c)) \<and>
    hd (nearest_distances c) = hd (pair_distances c) \<and> last (nearest_distances c) \<le> last (pair_distances c) \<and>
    d < hd (pair_distances c) \<and> last (pair_distances c) \<le> 2 * r"
proof -
  let ?n = "length (cl_Systems c)"
  have near: "Distance (sys_Hex s) (sys_Hex t) < MaxInt" if "s \<in> set (cl_Systems c)" "t \<in> set (cl_Systems c)" for s t
  proof -
    have "Contains r (sys_Hex s)" "Contains r (sys_Hex t)" using layout that by (auto simp: layout_ok_def)
    then have "Distance (sys_Hex s) (sys_Hex t) \<le> 2 * r" by (auto simp: Contains_def Distance_le)
    with r show ?thesis by (simp add: MaxInt_def)
  qed
  then have agree: "hd (nearest_distances c) = hd (pair_distances c)" "last (nearest_distances c) \<le> last (pair_distances c)"
    "set (nearest_distances c) \<subseteq> set (pair_distances c)"
    using nearest_pairs [OF n] by blast+
  have range: "\<forall>x \<in> set (pair_distances c). 0 \<le> x \<and> x \<le> 1000" using pair_distance_bounds [OF layout] r by force
  have "0 \<le> r"
    using layout n by (cases "cl_Systems c") (auto simp: layout_ok_def Contains_def Distance_alt)
  then have "Capacity r \<le> 1 + 3 * (500 * 501)" using r mult_mono [of r 500 "r + 1" 501] by (simp add: Capacity_def)
  then have "int ?n \<le> 800000" using systems_fit [OF layout] by simp
  then have "?n \<le> 800000" by simp
  then have small: "?n * (?n - 1) \<le> 800000 * 800000" by (intro mult_mono) auto
  then have pairs: "int (length (pair_distances c)) \<le> 640000000000" using length_pair_distances [of c] by simp
  have nn: "int (length (nearest_distances c)) \<le> 800000" using \<open>?n \<le> 800000\<close> by (simp add: nearest_distances_def)
  have "stats_ok (stats_of (pair_distances c))"
    by (rule stats_of_ok [OF pair_distances_ne [OF n] range]) (use pairs in \<open>simp_all add: pair_distances_def sorted_sort_id\<close>)
  moreover have "stats_ok (stats_of (nearest_distances c))"
    by (rule stats_of_ok [where b = 1000, OF nearest_distances_ne [OF n]])
      (use nn range agree(3) in \<open>auto simp: nearest_distances_def sorted_sort_id\<close>)
  moreover have "hd (pair_distances c) \<in> set (pair_distances c)" "last (pair_distances c) \<in> set (pair_distances c)"
    using pair_distances_ne [OF n] by simp_all
  ultimately show ?thesis using agree pair_distance_bounds [OF layout] by blast
qed

definition test_cluster_options :: "testOpts \<Rightarrow> clusterOptions" where
  "test_cluster_options opts = \<lparr>co_Radius = to_radius opts, co_NumSystems = to_systems opts,
     co_MinimumDistance = to_minDistance opts, co_Merge = \<not> to_noMerge opts\<rparr>"

lemma summary_stars:
  assumes c: "cluster_ok c" and layout: "layout_ok r d merge c"
  shows "hm_multi (hexmap_summary_of c) = bd_two (star_breakdown c) + bd_three (star_breakdown c) + bd_four (star_breakdown c) +
      bd_fivePlus (star_breakdown c)"
    and "int (length (cl_Systems c)) \<le> TotalStars c" and "TotalStars c \<le> 5 * int (length (cl_Systems c))"
    and "\<not> merge \<Longrightarrow> bd_one (star_breakdown c) = int (length (cl_Systems c)) \<and> TotalStars c = int (length (cl_Systems c))"
proof -
  let ?n = "length (cl_Systems c)" and ?f = "\<lambda>s. length (StarsForSystem c (sys_ID s))"
  have ids: "map sys_ID (cl_Systems c) = [1..int ?n]"
    and refs: "\<forall>s \<in> set (cl_Stars c). 1 \<le> star_SystemID s \<and> star_SystemID s \<le> int ?n"
    using c by (auto simp: cluster_ok_def)
  have f: "1 \<le> ?f s \<and> ?f s \<le> 5 \<and> (\<not> merge \<longrightarrow> ?f s = 1)" if "s \<in> set (cl_Systems c)" for s
    using layout that by (auto simp: layout_ok_def)
  then have pos: "\<forall>s \<in> set (cl_Systems c). 1 \<le> starsBySys c (sys_ID s)" by (force simp: stars_of_system)
  show "hm_multi (hexmap_summary_of c) = bd_two (star_breakdown c) + bd_three (star_breakdown c) + bd_four (star_breakdown c) +
      bd_fivePlus (star_breakdown c)"
    using count_stars [OF pos, of "\<lparr>bd_one = 0, bd_two = 0, bd_three = 0, bd_four = 0, bd_fivePlus = 0\<rparr>"] multi_star_systems [OF ids refs]
    by (simp add: hexmap_summary_of_def star_breakdown_def)
  have "length (cl_Stars c) = (\<Sum>k\<leftarrow>map sys_ID (cl_Systems c). length (StarsForSystem c k))"
    unfolding StarsForSystem_def by (rule length_by_key) (use refs in \<open>auto simp: ids\<close>)
  then have total: "TotalStars c = int (\<Sum>s\<leftarrow>cl_Systems c. ?f s)" by (simp add: TotalStars_def o_def)
  have "?n \<le> (\<Sum>s\<leftarrow>cl_Systems c. ?f s)" "(\<Sum>s\<leftarrow>cl_Systems c. ?f s) \<le> 5 * ?n"
    using stars_between [of "cl_Systems c" ?f 5] f by blast+
  then show "int ?n \<le> TotalStars c" "TotalStars c \<le> 5 * int ?n" unfolding total by linarith+
  assume "\<not> merge"
  with f have one: "\<forall>s \<in> set (cl_Systems c). ?f s = 1" by blast
  then have "filter (\<lambda>s. starsBySys c (sys_ID s) = 1) (cl_Systems c) = cl_Systems c" by (simp add: stars_of_system)
  moreover have "(\<Sum>s\<leftarrow>cl_Systems c. ?f s) \<le> ?n" using stars_between [of "cl_Systems c" ?f 1] one by simp
  ultimately show "bd_one (star_breakdown c) = int ?n \<and> TotalStars c = int ?n"
    using count_stars [OF pos, of "\<lparr>bd_one = 0, bd_two = 0, bd_three = 0, bd_four = 0, bd_fivePlus = 0\<rparr>"] \<open>?n \<le> _\<close>
    unfolding total by (simp add: star_breakdown_def)
qed

lemma summary_of_ok:
  assumes "cluster_result (test_cluster_options opts) (c\<lparr>cl_HomeStarTemplates := [], cl_Deposits := []\<rparr>, e)" and r: "to_radius opts \<le> 500"
  shows "summary_ok opts (hexmap_summary_of c)"
proof -
  let ?c = "c\<lparr>cl_HomeStarTemplates := [], cl_Deposits := []\<rparr>" and ?n = "int (length (cl_Systems c))"
  have "starsBySys ?c = starsBySys c" by (simp add: starsBySys_def fun_eq_iff)
  then have stars: "count_system ?c = count_system c" by (intro ext) (simp only: count_system_def)
  have hex: "hex_at ?c = hex_at c" by (simp add: hex_at_def fun_eq_iff)
  have "nearest_distance ?c = nearest_distance c" unfolding nearest_distance_def fun_eq_iff hex by simp
  then have same: "hexmap_summary_of ?c = hexmap_summary_of c"
    by (simp add: hexmap_summary_of_def star_breakdown_def stars TotalStars_def CountMultiStarSystems_def pair_distances_def
      nearest_distances_def hex)
  have ok: "cluster_ok ?c" and layout: "layout_ok (to_radius opts) (to_minDistance opts) (\<not> to_noMerge opts) ?c"
    using assms(1) by (simp_all add: cluster_result_def test_cluster_options_def Let_def)
  have n: "?n \<le> max 0 (to_systems opts)"
    using assms(1) by (auto simp: cluster_result_def test_cluster_options_def Let_def split: option.splits placeError.splits)
  have bars: "hd (nearest_distances ?c) \<le> k \<and> k \<le> last (nearest_distances ?c) \<and> 1 \<le> bar \<and> bar \<le> 40"
    if "(k, m, bar) \<in> set (histogram (nearest_distances ?c))" for k m bar
  proof -
    have k: "k \<in> set (nearest_distances ?c)" "1 \<le> bar \<and> bar \<le> 40" using histogram_bars [OF that] by auto
    then have "nearest_distances ?c \<noteq> []" by auto
    then have "hd (nearest_distances ?c) = Min (set (nearest_distances ?c))" "last (nearest_distances ?c) = Max (set (nearest_distances ?c))"
      using hd_sort [of "nearest_distances ?c"] last_sort [of "nearest_distances ?c"] by (simp_all add: nearest_distances_def sorted_sort_id)
    with k show ?thesis by simp
  qed
  have counts: "2 * int (length (pair_distances ?c)) = ?n * (?n - 1)" if "2 \<le> length (cl_Systems ?c)"
  proof -
    have "int (2 * length (pair_distances ?c)) = int (length (cl_Systems c) * (length (cl_Systems c) - 1))"
      using length_pair_distances [of ?c] by simp
    then show ?thesis using that by (simp add: of_nat_diff)
  qed
  have "summary_ok opts (hexmap_summary_of ?c)"
  proof (cases "2 \<le> length (cl_Systems ?c)")
    case True
    have "length (nearest_distances ?c) = length (cl_Systems ?c)" by (simp add: nearest_distances_def)
    then show ?thesis
      using distance_samples [OF layout r True] True n bars counts [OF True] summary_stars [OF ok layout] breakdown_total [of ?c]
        histogram_counts [of "nearest_distances ?c"]
      by (auto simp: summary_ok_def hexmap_summary_of_def stats_of_def Let_def)
  next
    case False
    then show ?thesis
      using n summary_stars [OF ok layout] breakdown_total [of ?c] by (auto simp: summary_ok_def hexmap_summary_of_def Let_def)
  qed
  then show ?thesis by (simp only: same)
qed

lemma yields_test_run:
  assumes "to_radius opts \<le> 500"
    and "\<And>c e. summary_ok opts (hexmap_summary_of c) \<Longrightarrow> P (Some c, map_option Inr e)"
  shows "yields (Generate (test_options opts buf)) P"
proof -
  let ?seeds = "if to_randomSeeds opts then cryptoRandSeeds buf else (to_seed1 opts, to_seed2 opts)"
  let ?g = "default_generator\<lparr>gen_desiredRadius := to_radius opts, gen_desiredNumSystems := to_systems opts,
    gen_minimumDistance := to_minDistance opts, gen_merge := \<not> to_noMerge opts, gen_r := NewFromSeed (fst ?seeds) (snd ?seeds)\<rparr>"
  have g: "apply_options (test_options opts buf) default_generator = Inr ?g"
    by (simp add: test_options_def Let_def WithDesiredRadius_def WithDesiredNumberOfSystems_def WithMinimumDistance_def
      WithMerge_def WithPRNG_def default_generator_def)
  have opts: "cluster_options ?g = test_cluster_options opts" by (simp add: cluster_options_def test_cluster_options_def)
  have r: "gen_desiredRadius ?g \<le> 2 ^ 29" using assms(1) by simp
  show ?thesis unfolding Generate_def g sum.case
    by (rule yields_bind, rule yields_conseq [OF yields_run_stages [OF r]])
      (auto simp: run_ok_def opts split: option.splits intro!: assms(2) summary_of_ok [OF _ assms(1)])
qed

lemma write_html_files:
  assumes "write_html path x h = (err, h')"
  shows "(err = None \<longrightarrow> ho_files h' = (ho_files h)(path \<mapsto> x)) \<and> (\<forall>q. q \<noteq> path \<longrightarrow> ho_files h' q = ho_files h q)"
proof -
  obtain r h1 where w: "WriteFile path x h = (r, h1)" by force
  have other: "ho_files h1 q = ho_files h q" if "q \<noteq> path" for q using touchesD [OF touches_os(3) w] that by simp
  show ?thesis
  proof (cases r)
    case (Inr u)
    then show ?thesis using assms w other WriteFile_Inr [of path x h u h1] by (simp add: write_html_def)
  next
    case (Inl e)
    then show ?thesis using assms w other by (auto simp: write_html_def)
  qed
qed

lemma test_runs_agree:
  assumes "runTestHexmap join opts buf h = ret (Some s, w)" and "runTestCluster join opts buf h = ret (Some t, w')"
  shows "cs_systems t = hm_systems s \<and> cs_stars t = hm_stars s \<and> cs_breakdown t = hm_breakdown s"
proof (cases "Generate (test_options opts buf)")
  case (Some m)
  show ?thesis
  proof (cases m)
    case (Inr x)
    obtain cl err where "x = (cl, err)" by force
    with assms Some Inr show ?thesis
      by (cases cl; cases err) (auto simp: runTestHexmap_def runTestCluster_def hexmap_summary_of_def cluster_summary_of_def)
  qed (use assms Some in \<open>simp add: runTestHexmap_def\<close>)
qed (use assms in \<open>simp add: runTestHexmap_def\<close>)

section \<open>Properties\<close>

text \<open>C39.  The staged run of \<open>simulate\<close> is \<open>Generate\<close> with the same options and seeds, followed by writing the reports: it returns,
  panics or runs on exactly when \<open>Generate\<close> does.  Without an error every report is in its file, a later one winning over
  an earlier one of the same name, and whatever fails no other file changes.\<close>

theorem simulate_is_Generate:
  assumes "sm_radius opts \<le> 2 ^ 29" and "seeds = simulate_seeds opts buf" and "MkdirAll (sm_outDir opts) h = (Inr (), h1)"
  shows "runSimulate join opts buf h = go_bind (Generate (simulate_options opts seeds))
      (\<lambda>(c, err). case c of None \<Rightarrow> ret (None, h1) | Some c \<Rightarrow> ret (write_all (simulate_reports join opts seeds c) h1)) \<and>
    (\<forall>c e h'. write_all (simulate_reports join opts seeds c) h1 = (e, h') \<longrightarrow>
       (e = None \<longrightarrow> ho_files h' = foldl (\<lambda>fs (_, path, x). fs(path \<mapsto> x)) (ho_files h) (simulate_reports join opts seeds c)) \<and>
       (\<forall>q. q \<notin> (fst \<circ> snd) ` set (simulate_reports join opts seeds c) \<longrightarrow> ho_files h' q = ho_files h q))"
proof (intro conjI allI impI)
  show "runSimulate join opts buf h = go_bind (Generate (simulate_options opts seeds))
      (\<lambda>(c, err). case c of None \<Rightarrow> ret (None, h1) | Some c \<Rightarrow> ret (write_all (simulate_reports join opts seeds c) h1))"
    by (rule simulate_stages [OF assms])
next
  fix c e h'
  assume w: "write_all (simulate_reports join opts seeds c) h1 = (e, h')" and "e = None"
  then show "ho_files h' = foldl (\<lambda>fs (_, path, x). fs(path \<mapsto> x)) (ho_files h) (simulate_reports join opts seeds c)"
    using write_all_None [of "simulate_reports join opts seeds c" h1 h'] reading_files(3) [OF assms(3)] by simp
next
  fix c e h' q
  assume w: "write_all (simulate_reports join opts seeds c) h1 = (e, h')"
    and q: "q \<notin> (fst \<circ> snd) ` set (simulate_reports join opts seeds c)"
  show "ho_files h' q = ho_files h q" by (rule trans [OF write_all_files [OF w q] fun_cong [OF reading_files(3) [OF assms(3)]]])
qed

definition sample_run :: simulateOpts where
  "sample_run = \<lparr>sm_radius = 3, sm_systems = 4, sm_minDistance = 1, sm_merge = True, sm_seed1 = 20, sm_seed2 = 20, sm_randomSeeds = False,
     sm_outDir = ''out'', sm_jsonPath = ''state.json'', sm_coords = False, sm_planets = True, sm_deposits = False\<rparr>"

theorem simulate_is_Generate_witness:
  "\<exists>h1. runSimulate (\<lambda>dir name. dir @ ''/'' @ name) sample_run [] \<lparr>ho_files = Map.empty, ho_dirs = {}, ho_env = (\<lambda>_. []), ho_faults = []\<rparr> =
     go_bind (Generate (simulate_options sample_run (20, 20)))
      (\<lambda>(c, err). case c of None \<Rightarrow> ret (None, h1)
       | Some c \<Rightarrow> ret (write_all (simulate_reports (\<lambda>dir name. dir @ ''/'' @ name) sample_run (20, 20) c) h1)) \<and> ho_dirs h1 = {''out''}"
proof -
  let ?h = "\<lparr>ho_files = Map.empty, ho_dirs = {}, ho_env = (\<lambda>_. []), ho_faults = []\<rparr> :: report host"
  have "ancestors ''out'' = {''out''}" by code_simp
  then have "MkdirAll (sm_outDir sample_run) ?h = (Inr (), ?h\<lparr>ho_dirs := {''out''}\<rparr>)"
    by (simp add: MkdirAll_def os_call_def sample_run_def)
  moreover have "(20, 20) = simulate_seeds sample_run []" by (simp add: simulate_seeds_def sample_run_def)
  ultimately have "runSimulate (\<lambda>dir name. dir @ ''/'' @ name) sample_run [] ?h =
     go_bind (Generate (simulate_options sample_run (20, 20)))
      (\<lambda>(c, err). case c of None \<Rightarrow> ret (None, ?h\<lparr>ho_dirs := {''out''}\<rparr>)
       | Some c \<Rightarrow> ret (write_all (simulate_reports (\<lambda>dir name. dir @ ''/'' @ name) sample_run (20, 20) c) (?h\<lparr>ho_dirs := {''out''}\<rparr>)))"
    using simulate_is_Generate [of sample_run "(20, 20)" "[]" ?h "?h\<lparr>ho_dirs := {''out''}\<rparr>" "\<lambda>dir name. dir @ ''/'' @ name"]
    by (simp add: sample_run_def)
  then show ?thesis by (intro exI [of _ "?h\<lparr>ho_dirs := {''out''}\<rparr>"]) simp
qed


text \<open>C40.  \<open>test-hexmap\<close> with a radius up to 500 never panics; the numbers it prints fit together and fit the options:
  classes and totals of stars, pairs and nearest neighbours, extremes, means and medians, and the bars of the histogram.  It
  changes no file but its page, which without an error shows the cluster it reported on; \<open>test-cluster\<close> with the same
  options reports the same systems and stars.\<close>

theorem runTestHexmap_correct:
  assumes "to_radius opts \<le> 500"
  shows "yields (runTestHexmap join opts buf h) (\<lambda>(out, err, h'). \<exists>c. out = Some (hexmap_summary_of c) \<and> summary_ok opts (hexmap_summary_of c) \<and>
      (err = None \<longrightarrow> ho_files h' = (ho_files h)(join (to_out opts) ''hexmap.html'' \<mapsto> ClusterHTML c 0 (to_coords opts) False False)) \<and>
      (\<forall>q. q \<noteq> join (to_out opts) ''hexmap.html'' \<longrightarrow> ho_files h' q = ho_files h q)) \<and>
    (\<forall>s t w w'. runTestHexmap join opts buf h = ret (Some s, w) \<and> runTestCluster join opts buf h = ret (Some t, w') \<longrightarrow>
       cs_systems t = hm_systems s \<and> cs_stars t = hm_stars s \<and> cs_breakdown t = hm_breakdown s)"
proof (intro conjI allI impI)
  show "yields (runTestHexmap join opts buf h) (\<lambda>(out, err, h'). \<exists>c. out = Some (hexmap_summary_of c) \<and> summary_ok opts (hexmap_summary_of c) \<and>
      (err = None \<longrightarrow> ho_files h' = (ho_files h)(join (to_out opts) ''hexmap.html'' \<mapsto> ClusterHTML c 0 (to_coords opts) False False)) \<and>
      (\<forall>q. q \<noteq> join (to_out opts) ''hexmap.html'' \<longrightarrow> ho_files h' q = ho_files h q))"
    unfolding runTestHexmap_def
  proof (rule yields_bind, rule yields_test_run [OF assms])
    fix c e assume "summary_ok opts (hexmap_summary_of c)"
    then show "yields (case (Some c, map_option Inr e) of (cl, err) \<Rightarrow> case cl of
        None \<Rightarrow> (case err of Some e \<Rightarrow> ret (None, Some (GenerateError e), h) | None \<Rightarrow> panics NilDereference)
      | Some c \<Rightarrow> ret (Some (hexmap_summary_of c),
          write_html (join (to_out opts) ''hexmap.html'') (ClusterHTML c 0 (to_coords opts) False False) h))
      (\<lambda>(out, err, h'). \<exists>c. out = Some (hexmap_summary_of c) \<and> summary_ok opts (hexmap_summary_of c) \<and>
        (err = None \<longrightarrow> ho_files h' = (ho_files h)(join (to_out opts) ''hexmap.html'' \<mapsto> ClusterHTML c 0 (to_coords opts) False False)) \<and>
        (\<forall>q. q \<noteq> join (to_out opts) ''hexmap.html'' \<longrightarrow> ho_files h' q = ho_files h q))"
      using write_html_files by (auto split: prod.splits)
  qed
next
  fix s t w w'
  assume "runTestHexmap join opts buf h = ret (Some s, w) \<and> runTestCluster join opts buf h = ret (Some t, w')"
  then show "cs_systems t = hm_systems s" "cs_stars t = hm_stars s" "cs_breakdown t = hm_breakdown s"
    using test_runs_agree [of join opts buf h s w t w'] by blast+
qed

definition sample_test :: testOpts where
  "sample_test = \<lparr>to_radius = 15, to_systems = 100, to_minDistance = 0, to_noMerge = False, to_seed1 = 20, to_seed2 = 20,
     to_randomSeeds = False, to_coords = False, to_html = False, to_planets = False, to_pixel = 0, to_out = ''.''\<rparr>"

theorem runTestHexmap_correct_witness:
  "yields (runTestHexmap (\<lambda>dir name. dir @ ''/'' @ name) sample_test [] \<lparr>ho_files = Map.empty, ho_dirs = {}, ho_env = (\<lambda>_. []), ho_faults = []\<rparr>)
     (\<lambda>(out, err, h'). \<exists>c. out = Some (hexmap_summary_of c) \<and> summary_ok sample_test (hexmap_summary_of c))"
  by (rule yields_conseq, rule runTestHexmap_correct [THEN conjunct1]) (auto simp: sample_test_def)

end
