(* ===== verification/AdminTool.thy ===== *)
theory AdminTool
  imports System Config
begin

text \<open>
  cmd/db/main.go: the tool of the operator.  A command loads the configuration, opens the database
  and calls one service.  Parsing the command line (package ff) ends in a \<open>dbCommand\<close>; \<open>uuid.Parse\<close> and
  whether \<open>pgxpool.New\<close> takes the URL are parameters, the ping may fail like any call.  The main results:
  whatever is run is a sequence of service steps and touches no file but the configuration, rotating a
  key with the default grace period ends no session, and the seeded administrator can sign in.
\<close>

section \<open>Commands\<close>

record dbLib =
  dl_codec :: codec
  dl_ext :: ext
  dl_uuid :: "string \<Rightarrow> uuid option"
  dl_pool :: "string \<Rightarrow> bool"
  dl_version :: string

datatype dbCommand =
    InitConfig initOptions
  | SeedAdmin (seed_handle: string) (seed_email: string) (seed_password: string)
  | SeedTestersTo int
  | SetPassword string string
  | JwtKeyCreate string int
  | JwtKeyExpire string int
  | JwtKeyDelete string
  | JwtKey "string list"
  | Version
  | Root "string list"

text \<open>What a command prints when it succeeds.\<close>

datatype dbOutput =
    WroteConfig string string
  | EnsuredAdmin string string
  | NothingToDo int
  | CreatedTesters int
  | UpdatedPassword string
  | CreatedKey signingKey "signingKey option"
  | ExpiredKey signingKey
  | DeletedKey uuid
  | PrintedVersion string

definition ErrHelp :: goError where
  "ErrHelp = ErrorString ''help requested''"

definition testerEmailDomain :: string where
  "testerEmailDomain = ''drynn.test''"

definition testerSentinelPasswordHash :: string where
  "testerSentinelPasswordHash = ''!tester_account_password_not_set!''"

definition ttlForTokenType :: "ext \<Rightarrow> config \<Rightarrow> string \<Rightarrow> goError + int" where
  "ttlForTokenType e cfg tokenType =
     (let t = lower e (TrimSpace tokenType) in
      if t = TokenTypeAccess then Inr (cf_JWTAccessTTL cfg)
      else if t = TokenTypeRefresh then Inr (cf_JWTRefreshTTL cfg)
      else Inl (Sentinel ErrInvalidTokenType))"

definition parseKeyID :: "dbLib \<Rightarrow> string \<Rightarrow> goError + uuid" where
  "parseKeyID lib raw =
     (if raw = [] then Inl (ErrorString ''key id is required'')
      else case dl_uuid lib raw of None \<Rightarrow> Inl (Wrap ''parse key id'' (ErrorString ''invalid UUID'')) | Some i \<Rightarrow> Inr i)"

definition ping :: "unit svc" where
  "ping = external (\<lambda>w. (Inr (), w))"

definition openDatabase :: "dbLib \<Rightarrow> string \<Rightarrow> string host \<times> world \<Rightarrow> (goError + config) \<times> (string host \<times> world)" where
  "openDatabase lib path hw =
     (case LoadPath (dl_codec lib) path (fst hw) of
        (Inl err, h) \<Rightarrow> (Inl err, (h, snd hw))
      | (Inr cfg, h) \<Rightarrow>
          if \<not> dl_pool lib (cf_DatabaseURL cfg) then (Inl (Wrap ''connect database'' (ErrorString ''invalid URL'')), (h, snd hw))
          else (case on_error ping (Wrap ''ping database'') (snd hw) of
            (Inl err, w) \<Rightarrow> (Inl err, (h, w))
          | (Inr _, w) \<Rightarrow> (Inr cfg, (h, w))))"

definition seed_admin :: "ext \<Rightarrow> string \<Rightarrow> string \<Rightarrow> string \<Rightarrow> dbOutput svc" where
  "seed_admin e handle email password =
     (if handle = [] \<or> email = [] \<or> password = [] then sfail (ErrorString ''handle, email, and password are required'')
      else sbind (on_error (EnsureBootstrapAdmin e handle email password) (Wrap ''seed admin'')) (\<lambda>_.
        sret (EnsuredAdmin handle email)))"

definition seed_testers :: "ext \<Rightarrow> int \<Rightarrow> world \<Rightarrow> ((goError + dbOutput) \<times> world) option" where
  "seed_testers e target w =
     (if target < 1 then Some (Inl (ErrorString ''count must be at least 1''), w)
      else case SeedTesters e target testerEmailDomain testerSentinelPasswordHash w of
        None \<Rightarrow> None
      | Some ((_, Some err), w') \<Rightarrow> Some (Inl (Wrap ''seed testers'' err), w')
      | Some ((created, None), w') \<Rightarrow>
          Some (Inr (if created = 0 then NothingToDo target else CreatedTesters created), w'))"

definition set_password :: "ext \<Rightarrow> string \<Rightarrow> string \<Rightarrow> dbOutput svc" where
  "set_password e email password =
     (if email = [] \<or> password = [] then sfail (ErrorString ''email and password are required'')
      else sbind (on_error (SetPasswordByEmail e email password) (Wrap ''set password'')) (\<lambda>_. sret (UpdatedPassword email)))"

definition jwt_key_create :: "ext \<Rightarrow> config \<Rightarrow> string \<Rightarrow> int \<Rightarrow> dbOutput svc" where
  "jwt_key_create e cfg tokenType verifyOldFor =
     sbind (of_sum (if verifyOldFor < 0 then ttlForTokenType e cfg tokenType else Inr verifyOldFor)) (\<lambda>gracePeriod.
     sbind (on_error (CreateSigningKey e tokenType gracePeriod) (Wrap ''create jwt signing key'')) (\<lambda>(created, retired).
     sret (CreatedKey created retired)))"

definition jwt_key_expire :: "dbLib \<Rightarrow> string \<Rightarrow> int \<Rightarrow> dbOutput svc" where
  "jwt_key_expire lib raw verifyFor =
     sbind (of_sum (parseKeyID lib raw)) (\<lambda>i.
     sbind (on_error (ExpireSigningKey i verifyFor) (Wrap ''expire jwt signing key'')) (\<lambda>retired. sret (ExpiredKey retired)))"

definition jwt_key_delete :: "dbLib \<Rightarrow> string \<Rightarrow> dbOutput svc" where
  "jwt_key_delete lib raw =
     sbind (of_sum (parseKeyID lib raw)) (\<lambda>i.
     sbind (on_error (DeleteSigningKey i) (Wrap ''delete jwt signing key'')) (\<lambda>_. sret (DeletedKey i)))"

text \<open>The commands that open the database, and what each does once it is open.\<close>

definition db_bound :: "dbCommand \<Rightarrow> bool" where
  "db_bound c = (case c of SeedAdmin _ _ _ \<Rightarrow> True | SeedTestersTo _ \<Rightarrow> True | SetPassword _ _ \<Rightarrow> True
     | JwtKeyCreate _ _ \<Rightarrow> True | JwtKeyExpire _ _ \<Rightarrow> True | JwtKeyDelete _ \<Rightarrow> True | _ \<Rightarrow> False)"

definition db_exec :: "dbLib \<Rightarrow> config \<Rightarrow> dbCommand \<Rightarrow> world \<Rightarrow> ((goError + dbOutput) \<times> world) option" where
  "db_exec lib cfg c w = (case c of
       SeedAdmin handle email password \<Rightarrow> Some (seed_admin (dl_ext lib) handle email password w)
     | SeedTestersTo target \<Rightarrow> seed_testers (dl_ext lib) target w
     | SetPassword email password \<Rightarrow> Some (set_password (dl_ext lib) email password w)
     | JwtKeyCreate tokenType verifyOldFor \<Rightarrow> Some (jwt_key_create (dl_ext lib) cfg tokenType verifyOldFor w)
     | JwtKeyExpire raw verifyFor \<Rightarrow> Some (jwt_key_expire lib raw verifyFor w)
     | JwtKeyDelete raw \<Rightarrow> Some (jwt_key_delete lib raw w)
     | _ \<Rightarrow> Some (Inl ErrHelp, w))"

definition init_config :: "dbLib \<Rightarrow> string \<Rightarrow> initOptions \<Rightarrow> string host \<Rightarrow> (goError + dbOutput) \<times> string host" where
  "init_config lib path opts h =
     (case WritePath (dl_codec lib) path opts h of
        (Inl err, h') \<Rightarrow> (Inl err, h')
      | (Inr cfg, h') \<Rightarrow> (Inr (WroteConfig (cf_ConfigPath cfg) (cf_DataDir cfg)), h'))"

definition unknown_command :: "string \<Rightarrow> string list \<Rightarrow> goError" where
  "unknown_command what args = (if args = [] \<or> hd args = ''help'' then ErrHelp else ErrorString what)"

definition db_run :: "dbLib \<Rightarrow> string \<Rightarrow> dbCommand \<Rightarrow> string host \<times> world
    \<Rightarrow> ((goError + dbOutput) \<times> (string host \<times> world)) option" where
  "db_run lib path c hw =
     (if db_bound c then
        (case openDatabase lib path hw of
           (Inl err, hw') \<Rightarrow> Some (Inl err, hw')
         | (Inr cfg, (h, w)) \<Rightarrow> map_option (\<lambda>(r, w'). (r, (h, w'))) (db_exec lib cfg c w))
      else Some (case c of
          InitConfig opts \<Rightarrow> (case init_config lib path opts (fst hw) of (r, h) \<Rightarrow> (r, (h, snd hw)))
        | JwtKey args \<Rightarrow> (Inl (unknown_command ''unknown jwt-key command'' args), hw)
        | Root args \<Rightarrow> (Inl (unknown_command ''unknown command'' args), hw)
        | _ \<Rightarrow> (Inr (PrintedVersion (dl_version lib)), hw)))"

section \<open>Commands are service steps\<close>

abbreviation steps :: "ext \<Rightarrow> mailgunConfig \<Rightarrow> world \<Rightarrow> world \<Rightarrow> bool" where
  "steps e mail \<equiv> (serves e mail)\<^sup>*\<^sup>*"

lemma reachable_steps: "steps e mail w w' \<Longrightarrow> reachable e mail w \<Longrightarrow> reachable e mail w'"
  by (induction rule: rtranclp_induct) (auto intro: reachable.step)

lemma snd_on_error: "snd (on_error m h w) = snd (m w)"
  by (simp add: on_error_def split: prod.split sum.split)

lemma snd_then_ret: "snd (sbind m (\<lambda>a. sret (f a)) w) = snd (m w)"
  by (simp add: sbind_def sret_def split: prod.split sum.split)

lemma snd_of_sum: "snd (sbind (of_sum x) k w) = (case x of Inl _ \<Rightarrow> w | Inr a \<Rightarrow> snd (k a w))"
  by (simp add: sbind_def of_sum_def split: sum.split)

lemma ping_steps: "steps e mail w (snd (on_error ping h w))"
proof -
  have "snd (ping w) = w\<lparr>w_faults := w_faults (snd (ping w))\<rparr>"
    by (simp add: ping_def external_def split: list.split fault.split)
  then show ?thesis unfolding snd_on_error by (metis faults_come r_into_rtranclp)
qed

lemma openDatabase_steps:
  assumes "openDatabase lib path (h, w) = (r, (h', w'))"
  shows "steps e mail w w' \<and> ho_files h' = ho_files h \<and> w_db w' = w_db w \<and> w_fresh w' = w_fresh w \<and> w_now w' = w_now w \<and>
    (\<forall>cfg. r = Inr cfg \<longrightarrow> fst (LoadPath (dl_codec lib) path h) = Inr cfg)"
proof -
  obtain rl h1 where l: "LoadPath (dl_codec lib) path h = (rl, h1)" by force
  obtain rp w1 where p: "on_error ping (Wrap ''ping database'') w = (rp, w1)" by force
  have "steps e mail w w1" using ping_steps [of e mail w "Wrap ''ping database''"] p by simp
  moreover have "w_db w1 = w_db w \<and> w_fresh w1 = w_fresh w \<and> w_now w1 = w_now w"
    using p by (cases rp) (auto simp: on_error_Inr on_error_Inl ping_def dest: external_skip_db)
  moreover have "(h', w') = (h1, w) \<and> (\<exists>err. r = Inl err) \<or> (h', w') = (h1, w1) \<and> ((\<exists>err. r = Inl err) \<or> r = rl)"
    using assms l p by (auto simp: openDatabase_def split: sum.splits if_splits)
  ultimately show ?thesis using LoadPath_reads [OF l] l by auto
qed

lemma db_exec_steps:
  assumes "users_ok (w_db w) (w_fresh w)"
  shows "\<exists>r w'. db_exec lib cfg c w = Some (r, w') \<and> steps (dl_ext lib) mail w w'"
proof -
  let ?e = "dl_ext lib"
  have one: "\<exists>r w'. m w = (r, w') \<and> steps ?e mail w w'"
    if "snd (m w) = w \<or> serves ?e mail w (snd (m w))" for m :: "dbOutput svc"
    using that by (cases "m w") auto
  show ?thesis
  proof (cases c)
    case (SeedAdmin h m p)
    then show ?thesis
      by (simp add: db_exec_def) (rule one, auto simp: seed_admin_def snd_then_ret snd_on_error sfail_def intro: bootstrap)
  next
    case (SeedTestersTo n)
    from SeedTesters_returns [OF assms, of ?e n testerEmailDomain testerSentinelPasswordHash] obtain k err w' where
      s: "SeedTesters ?e n testerEmailDomain testerSentinelPasswordHash w = Some ((k, err), w')" by blast
    from seed_testers [OF s] have "steps ?e mail w w'" by blast
    with s SeedTestersTo show ?thesis by (cases err) (auto simp: db_exec_def seed_testers_def)
  next
    case (SetPassword m p)
    then show ?thesis
      by (simp add: db_exec_def) (rule one, auto simp: set_password_def snd_then_ret snd_on_error sfail_def intro: serves.set_password)
  next
    case (JwtKeyCreate t g)
    then show ?thesis
      by (simp add: db_exec_def) (rule one, auto simp: jwt_key_create_def snd_of_sum case_prod_unfold snd_then_ret snd_on_error
        intro: create_key split: sum.split)
  next
    case (JwtKeyExpire i g)
    then show ?thesis
      by (simp add: db_exec_def) (rule one, auto simp: jwt_key_expire_def snd_of_sum snd_then_ret snd_on_error intro: expire_key split: sum.split)
  next
    case (JwtKeyDelete i)
    then show ?thesis
      by (simp add: db_exec_def) (rule one, auto simp: jwt_key_delete_def snd_of_sum snd_then_ret snd_on_error intro: delete_key split: sum.split)
  qed (auto simp: db_exec_def)
qed

text \<open>The files a command may write.\<close>

definition writes :: "string host \<Rightarrow> string \<Rightarrow> dbCommand \<Rightarrow> string set" where
  "writes h path c = (case c of InitConfig _ \<Rightarrow> {config_path h path, config_path h path @ ''.tmp''} | _ \<Rightarrow> {})"

lemma init_config_files:
  assumes "init_config lib path opts h = (r, h')" and "q \<notin> writes h path (InitConfig opts)"
  shows "ho_files h' q = ho_files h q"
proof -
  obtain rw where w: "WritePath (dl_codec lib) path opts h = (rw, h')"
    using assms(1) by (auto simp: init_config_def split: prod.splits sum.splits)
  show ?thesis
  proof (rule WritePath_cases [OF w refl], goal_cases kept written)
    case kept then show ?thesis using assms(2) by (simp add: writes_def)
  next
    case (written payload h4)
    with LoadPath_reads [OF written(2)] show ?thesis using assms(2) by (simp add: writes_def)
  qed
qed

lemma db_run_steps:
  assumes "users_ok (w_db w) (w_fresh w)"
  shows "\<exists>r h' w'. db_run lib path c (h, w) = Some (r, (h', w')) \<and> steps (dl_ext lib) mail w w' \<and>
    (\<not> db_bound c \<longrightarrow> w' = w) \<and> (\<forall>q. q \<notin> writes h path c \<longrightarrow> ho_files h' q = ho_files h q)"
proof (cases "db_bound c")
  case True
  then have wr: "writes h path c = {}" by (cases c) (auto simp: writes_def db_bound_def)
  obtain r h1 w1 where o: "openDatabase lib path (h, w) = (r, (h1, w1))" by (metis surj_pair)
  note 1 = openDatabase_steps [OF o, of "dl_ext lib" mail]
  show ?thesis
  proof (cases r)
    case (Inl err)
    then show ?thesis using True o 1 by (auto simp: db_run_def)
  next
    case (Inr cfg)
    have "users_ok (w_db w1) (w_fresh w1)" using 1 assms by simp
    from db_exec_steps [OF this, of lib cfg c mail] obtain r2 w2 where "db_exec lib cfg c w1 = Some (r2, w2)" "steps (dl_ext lib) mail w1 w2" by blast
    then show ?thesis using True o 1 Inr by (auto simp: db_run_def)
  qed
next
  case False
  show ?thesis
  proof (cases c)
    case (InitConfig opts)
    obtain r h' where "init_config lib path opts h = (r, h')" by force
    with InitConfig show ?thesis using init_config_files by (auto simp: db_run_def db_bound_def)
  qed (use False in \<open>auto simp: db_run_def db_bound_def writes_def\<close>)
qed

lemma reachable_ok: "reachable e mail w \<Longrightarrow> world_ok w"
  by (induction rule: reachable.induct) (auto simp: starts_ok dest: serves_keeps [where a = False])

lemma steps_admins: "steps e mail w w' \<Longrightarrow> world_ok w \<Longrightarrow> admins (w_db w) \<noteq> {} \<longrightarrow> admins (w_db w') \<noteq> {}"
proof -
  assume s: "steps e mail w w'" and ok: "world_ok w"
  have "world_ok w' \<and> (admins (w_db w) \<noteq> {} \<longrightarrow> admins (w_db w') \<noteq> {})" using s
    by (induction rule: rtranclp_induct)
      (use ok in \<open>auto dest: serves_keeps [where a = False] serves_keeps [where a = True]\<close>)
  then show ?thesis by blast
qed

section \<open>Rotating a key\<close>

lemma ttl_access: "normalizeTokenType e tokenType = Inr TokenTypeAccess \<Longrightarrow> ttlForTokenType e cfg tokenType = Inr g \<Longrightarrow> g = cf_JWTAccessTTL cfg"
  by (auto simp: normalizeTokenType_def ttlForTokenType_def Let_def TokenTypeAccess_def TokenTypeRefresh_def split: if_splits)

text \<open>What \<open>jwt-key create\<close> with the default grace period does to the tables.\<close>

lemma jwt_key_create_run:
  assumes run: "db_run lib path (JwtKeyCreate tokenType grace) (h, w) = Some (r, (h2, w2))" and "grace < 0"
  obtains "w_db w2 = w_db w"
  | cfg g wp r' wk where "fst (LoadPath (dl_codec lib) path h) = Inr cfg" and "ttlForTokenType (dl_ext lib) cfg tokenType = Inr g"
      and "w_db wp = w_db w" and "w_fresh wp = w_fresh w" and "w_now wp = w_now w"
      and "CreateSigningKey (dl_ext lib) tokenType g wp = (r', wk)" and "w_db w2 = w_db wk"
proof -
  obtain ro h1 wp where o: "openDatabase lib path (h, w) = (ro, (h1, wp))" by (metis surj_pair)
  have p: "w_db wp = w_db w" "w_fresh wp = w_fresh w" "w_now wp = w_now w" "\<And>cfg. ro = Inr cfg \<Longrightarrow> fst (LoadPath (dl_codec lib) path h) = Inr cfg"
    using openDatabase_steps [OF o] by blast+
  show thesis
  proof (cases ro)
    case (Inl err)
    with run o p that(1) show ?thesis by (simp add: db_run_def db_bound_def)
  next
    case (Inr cfg)
    then have e: "jwt_key_create (dl_ext lib) cfg tokenType grace wp = (r, w2)"
      using run o by (simp add: db_run_def db_bound_def db_exec_def split: prod.splits)
    show ?thesis
    proof (cases "ttlForTokenType (dl_ext lib) cfg tokenType")
      case (Inl err)
      with e assms(2) p that(1) show ?thesis by (auto simp: jwt_key_create_def sbind_def of_sum_def sfail_def)
    next
      case g: (Inr g)
      obtain r' wk where k: "CreateSigningKey (dl_ext lib) tokenType g wp = (r', wk)" by force
      have "snd (jwt_key_create (dl_ext lib) cfg tokenType grace wp) = wk"
        using g assms(2) k by (simp add: jwt_key_create_def snd_of_sum case_prod_unfold snd_then_ret snd_on_error)
      with e p Inr g k that(2) show ?thesis by simp
    qed
  qed
qed

section \<open>The seeded administrator\<close>

text \<open>The account that \<open>seed-admin\<close> leaves: active, with the address and password of the command and the administrator's roles.\<close>

definition is_admin_account :: "ext \<Rightarrow> string \<Rightarrow> string \<Rightarrow> db \<Rightarrow> user_row \<Rightarrow> bool" where
  "is_admin_account e m p d row \<longleftrightarrow> row \<in> set (db_users d) \<and> normalizeEmail e m = Inr (ur_Email row) \<and> ur_IsActive row \<and>
     (\<exists>salt. ext_bcrypt_generate e p salt = Some (ur_PasswordHash row)) \<and> roles_of d (ur_ID row) = {1, 2}"

lemma admin_role_ids: "role_ids (normalizeRoles e [RoleUser, RoleAdmin]) = {1, 2}"
proof -
  have "lower e (TrimSpace RoleUser) = RoleUser" "lower e (TrimSpace RoleAdmin) = RoleAdmin" by (simp_all add: lower_role)
  then have "set (normalizeRoles e [RoleUser, RoleAdmin]) = {RoleUser, RoleAdmin}"
    by (auto simp: set_normalizeRoles RoleUser_def RoleAdmin_def RoleTester_def)
  then show ?thesis by (auto simp: role_ids_def role_id_def RoleUser_def RoleAdmin_def)
qed

lemma update_user_row:
  assumes "row \<in> set (db_users (w_db w))" and "ur_ID row = i"
  shows "(f row)\<lparr>ur_UpdatedAt := w_now w\<rparr> \<in> set (db_users (w_db (update_user i f w)))"
  using assms by (auto simp: update_user_def intro!: rev_image_eqI [of row])

lemma AdminUpdate_row:
  assumes "sql_AdminUpdateUser e i h m a w = (Inr r, w')"
  shows "\<exists>row \<in> set (db_users (w_db w')). ur_ID row = i \<and> ur_Email row = m \<and> ur_IsActive row = a"
proof -
  from external_InrD [OF assms [unfolded sql_AdminUpdateUser_def update_user_checked_def]] obtain fs where
    run: "(case find (\<lambda>u. ur_ID u = i) (db_users (w_db w)) of None \<Rightarrow> (Inl NoRows, w\<lparr>w_faults := fs\<rparr>)
      | Some u \<Rightarrow> (case user_violation e (w_db w) (Some i) h m of Some c \<Rightarrow> (Inl (PgError c), w\<lparr>w_faults := fs\<rparr>)
        | None \<Rightarrow> (Inr (u\<lparr>ur_Handle := h, ur_Email := m, ur_IsActive := a, ur_UpdatedAt := w_now w\<rparr>),
            update_user i (\<lambda>u. u\<lparr>ur_Handle := h, ur_Email := m, ur_IsActive := a\<rparr>) (w\<lparr>w_faults := fs\<rparr>)))) = (Inr r, w')"
    by (auto cong: option.case_cong)
  then obtain u where "find (\<lambda>u. ur_ID u = i) (db_users (w_db w)) = Some u"
    and w': "w' = update_user i (\<lambda>u. u\<lparr>ur_Handle := h, ur_Email := m, ur_IsActive := a\<rparr>) (w\<lparr>w_faults := fs\<rparr>)"
    by (auto split: option.splits)
  then have "u \<in> set (db_users (w_db w))" "ur_ID u = i" by (auto simp: find_Some_iff)
  with update_user_row [of u "w\<lparr>w_faults := fs\<rparr>" i] show ?thesis
    unfolding w' by (intro bexI [of _ "u\<lparr>ur_Handle := h, ur_Email := m, ur_IsActive := a, ur_UpdatedAt := w_now w\<rparr>"]) auto
qed

lemma update_password_row:
  assumes run: "update_password e i p w = (Inr x, w')" and p: "p \<noteq> []"
    and row: "row \<in> set (db_users (w_db w))" "ur_ID row = i"
  shows "\<exists>row' \<in> set (db_users (w_db w')). ur_ID row' = i \<and> ur_Email row' = ur_Email row \<and> ur_IsActive row' = ur_IsActive row \<and>
    (\<exists>salt. ext_bcrypt_generate e p salt = Some (ur_PasswordHash row'))"
proof -
  from run p obtain hash w1 where h: "HashPassword e p w = (Inr hash, w1)" and s: "sql_SetUserPassword i hash w1 = (Inr x, w')"
    unfolding update_password_def by (auto elim!: sbind_InrE simp: on_error_Inr of_sum_def)
  have "w_db w1 = w_db w" using readsD [OF reads_HashPassword h] by simp
  then have "row\<lparr>ur_PasswordHash := hash, ur_UpdatedAt := w_now w1\<rparr> \<in> set (db_users (w_db w'))"
    using SetUserPassword_Inr [OF s] row by (auto simp: with_password_def intro!: rev_image_eqI [of row])
  with HashPassword_Inr [OF h] row(2) show ?thesis
    by (intro bexI [of _ "row\<lparr>ur_PasswordHash := hash, ur_UpdatedAt := w_now w1\<rparr>"]) auto
qed

lemma frames_roles: "sql_AdminUpdateUser e i h m a w = (r, w') \<Longrightarrow> db_roles (w_db w') = db_roles (w_db w)"
  by (rule framesD [OF frames_users(3)]) simp_all

lemma UpdateUser_admin:
  assumes ok: "users_ok (w_db w) (w_fresh w)" and run: "UpdateUser e inp w = (Inr u, w')"
    and inp: "uu_IsActive inp" "uu_Password inp \<noteq> []" "uu_Roles inp = [RoleUser, RoleAdmin]"
  shows "\<exists>row. is_admin_account e (uu_Email inp) (uu_Password inp) (w_db w') row"
proof -
  let ?i = "uu_UserID inp" and ?roles = "normalizeRoles e [RoleUser, RoleAdmin]"
  let ?body = "\<lambda>handle email. sbind (getUserWithQueries ?i) (\<lambda>existing.
      sbind (ensureActiveAdminInvariant (user_Roles existing) ?roles True) (\<lambda>_.
      sbind (on_error (sql_AdminUpdateUser e ?i handle email True) mapConstraintError) (\<lambda>_.
      sbind (update_password e ?i (uu_Password inp)) (\<lambda>_. setRoles e ?i ?roles))))"
  from run inp obtain handle email wt where m: "normalizeEmail e (uu_Email inp) = Inr email"
    and tx: "with_tx ''begin update user tx'' ''commit update user tx'' (?body handle email) w = (Inr (), wt)" and g: "GetUser ?i wt = (Inr u, w')"
    unfolding UpdateUser_def Let_def by (auto elim!: sbind_InrE simp: of_sum_def sfail_def split: if_splits)
  have db: "w_db w' = w_db wt" using readsD [OF reads_users(9) g] by simp
  from tx show ?thesis
  proof (cases rule: with_tx_cases)
    case (committed w0 x wb)
    then have "?body handle email w0 = (Inr (), wb)" by simp
    then obtain existing w1 w2 w3 w4 row where 1: "getUserWithQueries ?i w0 = (Inr existing, w1)"
      and 2: "ensureActiveAdminInvariant (user_Roles existing) ?roles True w1 = (Inr (), w2)"
      and 3: "sql_AdminUpdateUser e ?i handle email True w2 = (Inr row, w3)"
      and 4: "update_password e ?i (uu_Password inp) w3 = (Inr (), w4)" and 5: "setRoles e ?i ?roles w4 = (Inr (), wb)"
      by (auto elim!: sbind_InrE simp: on_error_Inr)
    have "db_roles (w_db w2) = db_roles initial_db"
      using readsD [OF reads_users(10) 1] readsD [OF reads_users(11) 2] committed ok by (simp add: users_ok_def)
    then have initial: "db_roles (w_db w4) = db_roles initial_db"
      using frames_roles [OF 3] framesD [OF frames_update_password 4] by simp
    note s = conjunct1 [OF setRoles_Inr [OF 5 initial], unfolded normalizeRoles_idem admin_role_ids]
    from AdminUpdate_row [OF 3] obtain r3 where r3: "r3 \<in> set (db_users (w_db w3))" "ur_ID r3 = ?i" "ur_Email r3 = email" "ur_IsActive r3"
      by auto
    from update_password_row [OF 4 inp(2) r3(1,2)] obtain r4 where "r4 \<in> set (db_users (w_db w4))" "ur_ID r4 = ?i" "ur_Email r4 = email"
      "ur_IsActive r4" "\<exists>salt. ext_bcrypt_generate e (uu_Password inp) salt = Some (ur_PasswordHash r4)" using r3 by auto
    then show ?thesis using s regrants_db(2) [OF s] m db committed
      by (intro exI [of _ r4]) (auto simp: is_admin_account_def regrants_def)
  qed simp
qed

lemma bootstrap_admin:
  assumes ok: "users_ok (w_db w) (w_fresh w)" and run: "EnsureBootstrapAdmin e h m p w = (Inr x, w')" and h: "TrimSpace h \<noteq> []"
  shows "\<exists>row. is_admin_account e (TrimSpace m) p (w_db w') row"
proof -
  from run h have p: "p \<noteq> []" by (auto simp: EnsureBootstrapAdmin_def Let_def sfail_def split: if_splits)
  let ?inp = "\<lambda>row. \<lparr>uu_ActorUserID = ur_ID row, uu_UserID = ur_ID row, uu_Handle = TrimSpace h, uu_Email = TrimSpace m,
    uu_Password = p, uu_IsActive = True, uu_Roles = [RoleUser, RoleAdmin]\<rparr>"
  from run h obtain res w1 where a: "attempt (sql_GetUserByEmail (projr (normalizeEmail e (TrimSpace m)))) w = (Inr res, w1)"
    and rest: "(\<exists>err. res = Inl err \<and> sbind (CreateUser e (TrimSpace h) (TrimSpace m) p True [RoleUser, RoleAdmin]) (\<lambda>_. sret ()) w1 = (Inr x, w')) \<or>
      (\<exists>row. res = Inr row \<and> sbind (UpdateUser e (?inp row)) (\<lambda>_. sret ()) w1 = (Inr x, w'))"
    by (auto simp: EnsureBootstrapAdmin_def Let_def sfail_def of_sum_def elim!: sbind_InrE split: if_splits sum.splits)
  have "reads (attempt (sql_GetUserByEmail (projr (normalizeEmail e (TrimSpace m)))))" by (intro reads_intros)
  from readsD [OF this a] have ok1: "users_ok (w_db w1) (w_fresh w1)" using ok by simp
  from rest show ?thesis
  proof (elim disjE exE conjE)
    fix err assume "sbind (CreateUser e (TrimSpace h) (TrimSpace m) p True [RoleUser, RoleAdmin]) (\<lambda>_. sret ()) w1 = (Inr x, w')"
    then obtain u where c: "CreateUser e (TrimSpace h) (TrimSpace m) p True [RoleUser, RoleAdmin] w1 = (Inr u, w')"
      by (auto elim!: sbind_InrE simp: sret_def)
    from create_account_cases [OF ok1 c [unfolded CreateUser_eq]] obtain row where
      "new_account e (TrimSpace h) (TrimSpace m) p True {1, 2} w1 (w_db w') row"
      by (auto simp: normalizeRoles_idem admin_role_ids)
    then have n: "regrants (ur_ID row) {1, 2} ((w_db w1)\<lparr>db_users := db_users (w_db w1) @ [row]\<rparr>) (w_db w')"
      "normalizeEmail e (TrimSpace m) = Inr (ur_Email row)" "ur_IsActive row" "\<exists>salt. ext_bcrypt_generate e p salt = Some (ur_PasswordHash row)"
      unfolding new_account_def by blast+
    have "row \<in> set (db_users (w_db w'))" using regrants_db(2) [OF n(1)] by simp
    moreover have "roles_of (w_db w') (ur_ID row) = {1, 2}" using n(1) by (simp add: regrants_def)
    ultimately show ?thesis using n(2-4) by (auto simp: is_admin_account_def)
  next
    fix row assume "sbind (UpdateUser e (?inp row)) (\<lambda>_. sret ()) w1 = (Inr x, w')"
    then obtain u where "UpdateUser e (?inp row) w1 = (Inr u, w')" by (auto elim!: sbind_InrE simp: sret_def)
    from UpdateUser_admin [OF ok1 this] p show ?thesis by simp
  qed
qed

lemma db_run_exec:
  assumes "db_run lib path c (h, w) = Some (Inr out, (h', w'))" and "db_bound c"
  shows "\<exists>cfg w1. fst (LoadPath (dl_codec lib) path h) = Inr cfg \<and> w_db w1 = w_db w \<and> w_fresh w1 = w_fresh w \<and> w_now w1 = w_now w \<and>
    db_exec lib cfg c w1 = Some (Inr out, w')"
proof -
  obtain r h1 w1 where o: "openDatabase lib path (h, w) = (r, (h1, w1))" by (metis surj_pair)
  from assms o obtain cfg where "r = Inr cfg" "db_exec lib cfg c w1 = Some (Inr out, w')"
    by (cases r) (auto simp: db_run_def)
  with openDatabase_steps [OF o] show ?thesis by blast
qed

section \<open>Properties\<close>

text \<open>C16.  Every command of the operator's tool comes to an end and is a sequence of service steps: from a reachable world it leads
  to a reachable world, so all tables stay well formed and the last administrator stays.  A command that needs no database
  leaves it alone, and no file changes but the configuration, by \<open>init-config\<close>.\<close>

theorem db_run_safe:
  assumes "reachable (dl_ext lib) mail w"
  shows "\<exists>r h' w'. db_run lib path c (h, w) = Some (r, (h', w')) \<and> reachable (dl_ext lib) mail w' \<and> world_ok w' \<and>
    (admins (w_db w) \<noteq> {} \<longrightarrow> admins (w_db w') \<noteq> {}) \<and> (\<not> db_bound c \<longrightarrow> w' = w) \<and>
    (\<forall>q. q \<notin> writes h path c \<longrightarrow> ho_files h' q = ho_files h q)"
proof -
  have "users_ok (w_db w) (w_fresh w)" using reachable_ok [OF assms] by (simp add: world_ok_def)
  from db_run_steps [OF this, of lib path c h mail] obtain r h' w' where
    run: "db_run lib path c (h, w) = Some (r, (h', w'))" "\<not> db_bound c \<longrightarrow> w' = w" "\<forall>q. q \<notin> writes h path c \<longrightarrow> ho_files h' q = ho_files h q"
    and s: "steps (dl_ext lib) mail w w'" by blast
  note r = reachable_steps [OF s assms]
  show ?thesis using run r reachable_ok [OF r] steps_admins [OF s reachable_ok [OF assms]] by blast
qed

definition sample_lib :: dbLib where
  "sample_lib = \<lparr>dl_codec = sample_codec, dl_ext = sample_ext, dl_uuid = (\<lambda>s. if s = ''9'' then Some 9 else None),
     dl_pool = (\<lambda>_. True), dl_version = ''0.1.0''\<rparr>"

definition configured :: "string host" where
  "configured = empty_host\<lparr>ho_files := [''c'' \<mapsto> ''{}'' @ [CHR 0x0A]]\<rparr>"

theorem db_run_safe_witness:
  "\<exists>r h' w'. db_run sample_lib ''c'' (SeedTestersTo 3) (configured, sample_world initial_db 7) = Some (r, (h', w')) \<and>
     reachable sample_ext sample_mail w' \<and> ho_files h' = ho_files configured"
proof -
  have "reachable (dl_ext sample_lib) sample_mail (sample_world initial_db 7)"
    by (rule reachable.start) (simp add: starts_def sample_world_def)
  from db_run_safe [OF this, of "''c''" "SeedTestersTo 3" configured] show ?thesis
    by (auto simp: sample_lib_def writes_def fun_eq_iff)
qed

text \<open>C12.  \<open>jwt-key create\<close> without \<open>--verify-old-for\<close> ends no session: the grace period is the lifetime of the tokens in the
  configuration, so an access token issued before the rotation lets requests through, as the user it was issued for, until
  it expires, whichever token type is rotated and whether or not the rotation goes through.\<close>

theorem jwt_key_create_keeps_sessions:
  assumes "keys_ok (w_db w) (w_fresh w)" and "jwt_complete J" and "IssueTokens J (dl_ext lib) m u w = (Inr pair, w1)"
    and "w_db wr = w_db w" and "w_fresh w \<le> w_fresh wr" and "w_now w \<le> w_now wr"
    and run: "db_run lib path (JwtKeyCreate tokenType grace) (h, wr) = Some (r, (h2, w2))" and "grace < 0"
    and ttl: "\<And>cfg. fst (LoadPath (dl_codec lib) path h) = Inr cfg \<Longrightarrow> mg_accessTTL m \<le> cf_JWTAccessTTL cfg"
    and later: "w_db w3 = w_db w2" "w_faults w3 = []" "w_now w3 < jl_numeric_date J (tp_AccessExpiry pair)"
      "tokenFromRequest rq = Some (tp_AccessToken pair)"
  shows "\<exists>c. RequireAuth J (dl_ext lib) m rq w3 = (Next c [], w3) \<and> UserID J c = Some u"
proof (cases rule: jwt_key_create_run [OF run \<open>grace < 0\<close>, case_names kept rotated])
  case kept
  have ok3: "keys_ok (w_db w3) (w_fresh w)" using assms(1,4) later(1) kept by simp
  have "\<exists>k' \<in> set (db_keys (w_db w3)). same_key k k' \<and>
      (k' = k \<or> (\<exists>g. mg_accessTTL m \<le> g \<and> k' = retire_key (w_now w) (w_now w + g) k))"
    if "k \<in> set (active_of TokenTypeAccess (db_keys (w_db w)))" for k
    using that assms(4) later(1) kept by (auto simp: active_of_def same_key_def)
  from session_lasts [OF assms(1-3) ok3 order_refl this later(2-4)] show ?thesis by blast
next
  case (rotated cfg g wp r' wk)
  have "normalizeTokenType (dl_ext lib) tokenType = Inr TokenTypeAccess \<longrightarrow> mg_accessTTL m \<le> g"
    using ttl [OF rotated(1)] ttl_access [OF _ rotated(2)] by blast
  from session_survives [OF assms(1-3) _ _ _ rotated(6) this _ later(2-4)] rotated assms(4-6) later(1) show ?thesis by simp
qed

theorem jwt_key_create_keeps_sessions_witness:
  "\<exists>r h2 w2 c w3. db_run sample_lib ''c'' (JwtKeyCreate ''access'' (- 1)) (configured, signed_in) = Some (r, (h2, w2)) \<and>
     w_db w3 = w_db w2 \<and> RequireAuth sample_jwt sample_ext sample_manager sample_request w3 = (Next c [], w3) \<and> UserID sample_jwt c = Some 7"
proof -
  have ok: "users_ok (w_db signed_in) (w_fresh signed_in)"
    by (simp add: signed_in_def sample_world_def users_ok_def initial_db_def)
  from db_run_steps [OF ok, of sample_lib "''c''" "JwtKeyCreate ''access'' (- 1)" configured sample_mail] obtain r h2 w2 where
    run: "db_run sample_lib ''c'' (JwtKeyCreate ''access'' (- 1)) (configured, signed_in) = Some (r, (h2, w2))" by blast
  have load: "fst (LoadPath (dl_codec sample_lib) ''c'' configured) =
      Inr (applyEnvOverrides sample_codec (ho_env empty_host) (intended sample_options ''c''))"
    using sample_LoadPath [of configured] by (simp add: configured_def sample_lib_def empty_host_def)
  let ?w3 = "w2\<lparr>w_faults := [], w_now := 5000000000\<rparr>"
  have "\<exists>c. RequireAuth sample_jwt (dl_ext sample_lib) sample_manager sample_request ?w3 = (Next c [], ?w3) \<and> UserID sample_jwt c = Some 7"
  proof (rule jwt_key_create_keeps_sessions [OF signed_in_ok sample_jwt_laws(2) _ refl order_refl order_refl run])
    show "IssueTokens sample_jwt (dl_ext sample_lib) sample_manager 7 signed_in = (Inr \<lparr>tp_AccessToken = ''A'', tp_AccessExpiry = 10000001000,
        tp_RefreshToken = ''R'', tp_RefreshExpiry = 20000001000\<rparr>, signed_in)"
      using sample_tokens by (simp add: sample_lib_def)
    show "mg_accessTTL sample_manager \<le> cf_JWTAccessTTL cfg" if "fst (LoadPath (dl_codec sample_lib) ''c'' configured) = Inr cfg" for cfg
      using that load by (auto simp: sample_manager_def applyEnvOverrides_def durationOrDefault_def empty_host_def intended_def sample_options_def
        defaultDuration_def minute_def)
  qed (simp_all add: sample_bearer sample_jwt_def table_jwt_def second_def)
  then obtain c where "RequireAuth sample_jwt sample_ext sample_manager sample_request ?w3 = (Next c [], ?w3)" "UserID sample_jwt c = Some 7"
    by (auto simp: sample_lib_def)
  with run show ?thesis by (intro exI [of _ r] exI [of _ h2] exI [of _ w2] exI [of _ c] exI [of _ ?w3]) simp
qed

text \<open>C22.  \<open>seed-admin\<close> makes an administrator who can sign in: when it reports no error for a handle that is not blank, the account with
  its address is active, has exactly the roles user and admin, and is signed in with its password, whether the account was made
  or an existing one was updated.\<close>

theorem seed_admin_signs_in:
  assumes "users_ok (w_db w) (w_fresh w)"
    and "\<forall>q salt hash. ext_bcrypt_generate (dl_ext lib) q salt = Some hash \<longrightarrow> ext_bcrypt_compare (dl_ext lib) hash q"
    and run: "db_run lib path (SeedAdmin handle email password) (h, w) = Some (Inr out, (h', w'))" and "TrimSpace handle \<noteq> []"
    and later: "w_db w2 = w_db w'" "w_faults w2 = []" "w_fresh w' \<le> w_fresh w2"
  shows "\<exists>u. Authenticate (dl_ext lib) (TrimSpace email) password w2 = (Inr u, w2) \<and> user_Roles u = [RoleAdmin, RoleUser] \<and>
    user_ID u \<in> admins (w_db w2)"
proof -
  let ?e = "dl_ext lib"
  from db_run_exec [OF run] obtain w1 where w1: "w_db w1 = w_db w" "w_fresh w1 = w_fresh w"
    and x: "seed_admin ?e handle email password w1 = (Inr out, w')"
    by (auto simp: db_bound_def db_exec_def)
  then obtain y where b: "EnsureBootstrapAdmin ?e handle email password w1 = (Inr y, w')"
    by (auto simp: seed_admin_def sfail_def sret_def on_error_Inr elim!: sbind_InrE split: if_splits)
  have ok1: "users_ok (w_db w1) (w_fresh w1)" using assms(1) w1 by simp
  from bootstrap_admin [OF ok1 b assms(4)] obtain row where row: "is_admin_account ?e (TrimSpace email) password (w_db w2) row"
    using later(1) by auto
  have ok2: "users_ok (w_db w2) (w_fresh w2)" using keepsD [OF keeps_EnsureBootstrapAdmin ok1 b] later users.mono by metis
  have calm: "calm w2" using later(2) by (simp add: calm_def)
  have mem: "row \<in> set (db_users (w_db w2))" and addr: "normalizeEmail ?e (TrimSpace email) = Inr (ur_Email row)"
    using row by (simp_all add: is_admin_account_def)
  have "role_names (w_db w2) (ur_ID row) = [RoleAdmin, RoleUser]"
    using row ok2 by (simp add: role_names_initial users_ok_def is_admin_account_def RoleAdmin_def RoleUser_def)
  then show ?thesis
    using Authenticate_row [OF ok2 calm mem addr, of password] row assms(2)
    by (auto simp: is_admin_account_def hydrated_def admins_def)
qed

definition seeded :: world where
  "seeded = (sample_world initial_db 7)\<lparr>w_db := initial_db\<lparr>db_users := [\<lparr>ur_ID = 7, ur_Handle = ''alice'', ur_Email = ''a@b.io'',
     ur_PasswordHash = ''password1'', ur_IsActive = True, ur_CreatedAt = 1000, ur_UpdatedAt = 1000\<rparr>], db_user_roles := [(7, 1), (7, 2)]\<rparr>, w_fresh := 8\<rparr>"

lemma sample_seeding:
  "\<exists>w'. EnsureBootstrapAdmin sample_ext ''alice'' ''a@b.io'' ''password1'' (sample_world initial_db 7) = (Inr (), w') \<and>
     w_db w' = w_db seeded"
proof -
  have n: "normalizeHandle sample_ext ''alice'' = Inr ''alice''" "normalizeEmail sample_ext ''a@b.io'' = Inr ''a@b.io''"
    "validatePassword ''password1'' = Inr ()" "normalizeRoles sample_ext [''user'', ''admin''] = [''user'', ''admin'']"
    "user_violation sample_ext initial_db None ''alice'' ''a@b.io'' = None" "TrimSpace ''alice'' = ''alice''" "TrimSpace ''a@b.io'' = ''a@b.io''"
    "TrimSpace ''password1'' = ''password1''" by code_simp+
  have g: "ext_bcrypt_generate sample_ext p s = Some p" for p s by (simp add: sample_ext_def)
  have roles: "filter (\<lambda>r. rr_Name r = ''user'') (db_roles initial_db) = [\<lparr>rr_ID = 1, rr_Name = ''user'', rr_Description = ''Authenticated user''\<rparr>]"
    "filter (\<lambda>r. rr_Name r = ''admin'') (db_roles initial_db) = [\<lparr>rr_ID = 2, rr_Name = ''admin'', rr_Description = ''Administrator''\<rparr>]"
    "\<exists>r \<in> set (db_roles initial_db). rr_Name r = ''user''" "\<exists>r \<in> set (db_roles initial_db). rr_Name r = ''admin''"
    "db_user_roles initial_db = []" "db_users initial_db = []"
    by (simp_all add: initial_db_def)
  show ?thesis
    by (simp add: EnsureBootstrapAdmin_def CreateUser_def run_simps n g HashPassword_def rand_bytes_def external_def sample_world_def
        with_tx_def sql_CreateUser_def Let_def setRoles_def sql_RemoveAllRolesFromUser_def exec_def roles attempt_def sql_GetUserByEmail_def
        sql_AddRoleToUser_def add_roles_def GetUser_def sql_GetUserByID_def query_def find_row_def hydrateUser_def
        sql_ListRoleNamesByUser_def RoleUser_def RoleAdmin_def seeded_def)
qed

theorem seed_admin_signs_in_witness:
  "\<exists>w2 u. Authenticate sample_ext ''a@b.io'' ''password1'' w2 = (Inr u, w2) \<and> user_Roles u = [''admin'', ''user''] \<and> w_db w2 = w_db seeded"
proof -
  have t: "TrimSpace ''alice'' \<noteq> []" "TrimSpace ''a@b.io'' = ''a@b.io''" by code_simp+
  obtain w' where b: "EnsureBootstrapAdmin sample_ext ''alice'' ''a@b.io'' ''password1'' (sample_world initial_db 7) = (Inr (), w')"
    and db: "w_db w' = w_db seeded" using sample_seeding by blast
  have load: "LoadPath sample_codec ''c'' configured = (Inr (applyEnvOverrides sample_codec (ho_env empty_host) (intended sample_options ''c'')), configured)"
    by (rule sample_LoadPath) (simp_all add: configured_def empty_host_def)
  have "ping (sample_world initial_db 7) = (Inr (), sample_world initial_db 7)" by (simp add: ping_def external_def sample_world_def)
  with b load have run: "db_run sample_lib ''c'' (SeedAdmin ''alice'' ''a@b.io'' ''password1'') (configured, sample_world initial_db 7) =
      Some (Inr (EnsuredAdmin ''alice'' ''a@b.io''), (configured, w'))"
    by (simp add: db_run_def db_bound_def openDatabase_def sample_lib_def run_simps db_exec_def seed_admin_def)
  have ok: "users_ok (w_db (sample_world initial_db 7)) (w_fresh (sample_world initial_db 7))"
    by (simp add: sample_world_def users_ok_initial)
  have law: "\<forall>q salt hash. ext_bcrypt_generate (dl_ext sample_lib) q salt = Some hash \<longrightarrow> ext_bcrypt_compare (dl_ext sample_lib) hash q"
    by (simp add: sample_lib_def sample_ext_def)
  let ?w = "seeded\<lparr>w_fresh := w_fresh w'\<rparr>"
  from seed_admin_signs_in [OF ok law run t(1), of ?w] db t(2) have
    "\<exists>u. Authenticate sample_ext ''a@b.io'' ''password1'' ?w = (Inr u, ?w) \<and> user_Roles u = [RoleAdmin, RoleUser]"
    by (auto simp: sample_lib_def seeded_def sample_world_def)
  then obtain u where "Authenticate sample_ext ''a@b.io'' ''password1'' ?w = (Inr u, ?w)" "user_Roles u = [RoleAdmin, RoleUser]" by blast
  then show ?thesis by (intro exI [of _ ?w] exI [of _ u]) (simp add: RoleAdmin_def RoleUser_def)
qed

end
