(* ===== verification/Client.thy ===== *)
theory Client
  imports Config
begin

text \<open>
  cmd/drynn: the command line client (session.go, game.go, and the commands login, logout, health and game of main.go).
  It keeps a session file with the server's URL and the tokens, and talks to the server over HTTP.  Parameters:
  the network with its state, the JSON codecs, \<open>url.JoinPath\<close>, and whether \<open>http.NewRequest\<close> takes a URL.
  Parsing the command line (package ff) ends in a \<open>drynnCommand\<close>.  The main results: the session file is replaced
  atomically, a login is what later commands authenticate with, and after a logout no command sends anything.
\<close>

section \<open>State\<close>

record sessionData =
  sd_ServerURL :: string
  sd_AccessToken :: string
  sd_RefreshToken :: string

record httpRequest =
  hq_Method :: string
  hq_URL :: string
  hq_Body :: "string option"
  hq_Authorization :: "string option"
  hq_ContentType :: "string option"

text \<open>A response; the body is \<open>None\<close> when reading it fails.\<close>

record httpResponse =
  hp_StatusCode :: int
  hp_Status :: string
  hp_Body :: "string option"

record 'n clientLib =
  cl_Send :: "httpRequest \<Rightarrow> 'n \<Rightarrow> httpResponse option \<times> 'n"
  cl_ValidURL :: "string \<Rightarrow> bool"
  cl_JoinPath :: "string \<Rightarrow> string list \<Rightarrow> string option"
  cl_LoginBody :: "string \<Rightarrow> string \<Rightarrow> string"
  cl_ApiError :: "string \<Rightarrow> string option"
  cl_Tokens :: "string \<Rightarrow> (string \<times> string) option"
  cl_Health :: "string \<Rightarrow> (string \<times> string) option"
  cl_ValidJSON :: "string \<Rightarrow> bool"
  cl_DecodeSession :: "string \<Rightarrow> sessionData option"
  cl_EncodeSession :: "sessionData \<Rightarrow> string"
  cl_UserConfigDir :: "string option"
  cl_Join :: "string list \<Rightarrow> string"
  cl_Codec :: codec
  cl_Version :: string

text \<open>The client's surroundings: the file system, the network, what was sent and what was printed.\<close>

record 'n client =
  ct_host :: "string host"
  ct_net :: 'n
  ct_sent :: "httpRequest list"
  ct_out :: "string list"

record drynnRuntime =
  rt_session :: sessionData
  rt_serverURL :: string

definition noSession :: sessionData where
  "noSession = \<lparr>sd_ServerURL = [], sd_AccessToken = [], sd_RefreshToken = []\<rparr>"

definition println :: "string \<Rightarrow> 'n client \<Rightarrow> 'n client" where
  "println s c = c\<lparr>ct_out := ct_out c @ [s]\<rparr>"

section \<open>The session file\<close>

definition sessionPath :: "'n clientLib \<Rightarrow> goError + string" where
  "sessionPath lib = (case cl_UserConfigDir lib of
     None \<Rightarrow> Inl (Wrap ''config dir'' (ErrorString ''not defined''))
   | Some dir \<Rightarrow> Inr (cl_Join lib [dir, ''drynn'', ''drynn.json'']))"

definition loadSession :: "'n clientLib \<Rightarrow> string host \<Rightarrow> (goError + sessionData) \<times> string host" where
  "loadSession lib h = (case sessionPath lib of
     Inl err \<Rightarrow> (Inl err, h)
   | Inr path \<Rightarrow> (case ReadFile path h of
       (Inl NotExist, h1) \<Rightarrow> (Inr noSession, h1)
     | (Inl err, h1) \<Rightarrow> (Inl (Wrap ''read session'' (os_error err)), h1)
     | (Inr data, h1) \<Rightarrow> (case cl_DecodeSession lib data of
         None \<Rightarrow> (Inl (Wrap ''decode session'' (ErrorString ''json'')), h1)
       | Some s \<Rightarrow> (Inr s, h1))))"

definition replace_session :: "string \<Rightarrow> string \<Rightarrow> string host \<Rightarrow> goError option \<times> string host" where
  "replace_session path payload h = (case WriteFile (path @ ''.tmp'') payload h of
     (Inl err, h1) \<Rightarrow> (Some (Wrap ''write session'' (os_error err)), h1)
   | (Inr _, h1) \<Rightarrow> (case Rename (path @ ''.tmp'') path h1 of
       (Inl err, h2) \<Rightarrow> (Some (Wrap ''replace session'' (os_error err)), h2)
     | (Inr _, h2) \<Rightarrow> (None, h2)))"

definition saveSession :: "'n clientLib \<Rightarrow> sessionData \<Rightarrow> string host \<Rightarrow> goError option \<times> string host" where
  "saveSession lib s h = (case sessionPath lib of
     Inl err \<Rightarrow> (Some err, h)
   | Inr path \<Rightarrow> (case MkdirAll (cd_Dir (cl_Codec lib) path) h of
       (Inl err, h1) \<Rightarrow> (Some (Wrap ''create session dir'' (os_error err)), h1)
     | (Inr _, h1) \<Rightarrow> replace_session path (cl_EncodeSession lib s @ [CHR 0x0A]) h1))"

definition clearTokens :: "'n clientLib \<Rightarrow> string host \<Rightarrow> goError option \<times> string host" where
  "clearTokens lib h = (case loadSession lib h of
     (Inl err, h1) \<Rightarrow> (Some err, h1)
   | (Inr s, h1) \<Rightarrow> saveSession lib (s\<lparr>sd_AccessToken := [], sd_RefreshToken := []\<rparr>) h1)"

definition TrimRightSlash :: "string \<Rightarrow> string" where
  "TrimRightSlash s = rev (dropWhile (\<lambda>c. c = CHR ''/'') (rev s))"

definition server_required :: goError where
  "server_required = ErrorString ''server URL is required: use --server, DRYNN_SERVER_URL, or --config''"

definition resolveServerURL :: "'n clientLib \<Rightarrow> string \<Rightarrow> string \<Rightarrow> sessionData \<Rightarrow> string host \<Rightarrow> (goError + string) \<times> string host" where
  "resolveServerURL lib serverFlag configPath existing h =
     (let v = ho_env h ''DRYNN_SERVER_URL''; from_session = (if sd_ServerURL existing \<noteq> [] then Inr (sd_ServerURL existing) else Inl server_required) in
      if serverFlag \<noteq> [] then (Inr (TrimRightSlash serverFlag), h)
      else if v \<noteq> [] then (Inr (TrimRightSlash v), h)
      else if configPath \<noteq> [] then
        (case LoadPath (cl_Codec lib) configPath h of
           (Inl err, h1) \<Rightarrow> (Inl (Wrap ''load config'' err), h1)
         | (Inr cfg, h1) \<Rightarrow> if cf_BaseURL cfg \<noteq> [] then (Inr (TrimRightSlash (cf_BaseURL cfg)), h1) else (from_session, h1))
      else (from_session, h))"

section \<open>Requests\<close>

text \<open>\<open>httpClient.Do\<close>: the request is sent and the network moves on.\<close>

definition Do :: "'n clientLib \<Rightarrow> httpRequest \<Rightarrow> 'n client \<Rightarrow> httpResponse option \<times> 'n client" where
  "Do lib rq c = (case cl_Send lib rq (ct_net c) of (resp, n) \<Rightarrow> (resp, c\<lparr>ct_net := n, ct_sent := ct_sent c @ [rq]\<rparr>))"

text \<open>\<open>httpClient.Get\<close> and \<open>httpClient.Post\<close> make the request themselves.\<close>

definition Fetch :: "'n clientLib \<Rightarrow> httpRequest \<Rightarrow> 'n client \<Rightarrow> httpResponse option \<times> 'n client" where
  "Fetch lib rq c = (if cl_ValidURL lib (hq_URL rq) then Do lib rq c else (None, c))"

definition newAuthenticatedRequest :: "'n clientLib \<Rightarrow> string \<Rightarrow> string \<Rightarrow> string option \<Rightarrow> sessionData \<Rightarrow> goError + httpRequest" where
  "newAuthenticatedRequest lib verb rawURL body s =
     (if \<not> cl_ValidURL lib rawURL then Inl (ErrorString ''invalid URL'')
      else Inr \<lparr>hq_Method = verb, hq_URL = rawURL, hq_Body = body, hq_Authorization = Some (''Bearer '' @ sd_AccessToken s), hq_ContentType = None\<rparr>)"

definition readAPIError :: "'n clientLib \<Rightarrow> httpResponse \<Rightarrow> string \<Rightarrow> goError" where
  "readAPIError lib resp fallback =
     (let body = (case hp_Body resp of None \<Rightarrow> [] | Some b \<Rightarrow> b);
          other = (if fallback \<noteq> [] then ErrorString fallback else ErrorString (hp_Status resp)) in
      case cl_ApiError lib body of Some e \<Rightarrow> if e \<noteq> [] then ErrorString e else other | None \<Rightarrow> other)"

definition not_logged_in :: goError where
  "not_logged_in = ErrorString ''not logged in; run 'drynn login' first''"

text \<open>What the game commands share: the URL, the request, the transport.\<close>

definition api_call :: "'n clientLib \<Rightarrow> drynnRuntime \<Rightarrow> string \<Rightarrow> string \<Rightarrow> string \<Rightarrow> string list \<Rightarrow> string option \<Rightarrow> 'n client
    \<Rightarrow> (goError + httpResponse) \<times> 'n client" where
  "api_call lib rt build what verb parts body c = (case cl_JoinPath lib (rt_serverURL rt) parts of
     None \<Rightarrow> (Inl (Wrap build (ErrorString ''invalid URL'')), c)
   | Some endpoint \<Rightarrow> (case newAuthenticatedRequest lib verb endpoint body (rt_session rt) of
       Inl err \<Rightarrow> (Inl (Wrap ''build request'' err), c)
     | Inr rq \<Rightarrow> (case Do lib (if body = None then rq else rq\<lparr>hq_ContentType := Some ''application/json''\<rparr>) c of
         (None, c1) \<Rightarrow> (Inl (Wrap what (ErrorString ''transport'')), c1)
       | (Some resp, c1) \<Rightarrow> (Inr resp, c1))))"

definition print_body :: "httpResponse \<Rightarrow> 'n client \<Rightarrow> goError option \<times> 'n client" where
  "print_body resp c = (case hp_Body resp of
     None \<Rightarrow> (Some (Wrap ''read response'' (ErrorString ''transport'')), c)
   | Some b \<Rightarrow> (None, println b c))"

definition runGameCreate :: "'n clientLib \<Rightarrow> string \<Rightarrow> drynnRuntime \<Rightarrow> 'n client \<Rightarrow> goError option \<times> 'n client" where
  "runGameCreate lib file rt c =
     (if file = [] then (Some (ErrorString ''--file is required''), c)
      else if sd_AccessToken (rt_session rt) = [] then (Some not_logged_in, c)
      else case ReadFile file (ct_host c) of
        (Inl err, h1) \<Rightarrow> (Some (Wrap ''read file'' (os_error err)), c\<lparr>ct_host := h1\<rparr>)
      | (Inr body, h1) \<Rightarrow>
          if \<not> cl_ValidJSON lib body then (Some (ErrorString ''file does not contain valid JSON''), c\<lparr>ct_host := h1\<rparr>)
          else (case api_call lib rt ''build games URL'' ''create game request'' ''POST'' [''/api/v1/games''] (Some body) (c\<lparr>ct_host := h1\<rparr>) of
            (Inl err, c1) \<Rightarrow> (Some err, c1)
          | (Inr resp, c1) \<Rightarrow>
              if hp_StatusCode resp \<noteq> 201 then (Some (readAPIError lib resp (''create game failed: '' @ hp_Status resp)), c1)
              else print_body resp c1))"

definition runGameList :: "'n clientLib \<Rightarrow> drynnRuntime \<Rightarrow> 'n client \<Rightarrow> goError option \<times> 'n client" where
  "runGameList lib rt c =
     (if sd_AccessToken (rt_session rt) = [] then (Some not_logged_in, c)
      else case api_call lib rt ''build games URL'' ''list games request'' ''GET'' [''/api/v1/games''] None c of
        (Inl err, c1) \<Rightarrow> (Some err, c1)
      | (Inr resp, c1) \<Rightarrow>
          if hp_StatusCode resp \<noteq> 200 then (Some (readAPIError lib resp (''list games failed: '' @ hp_Status resp)), c1)
          else print_body resp c1)"

definition runGameShow :: "'n clientLib \<Rightarrow> string \<Rightarrow> drynnRuntime \<Rightarrow> 'n client \<Rightarrow> goError option \<times> 'n client" where
  "runGameShow lib gameID rt c =
     (if gameID = [] then (Some (ErrorString ''--id is required''), c)
      else if sd_AccessToken (rt_session rt) = [] then (Some not_logged_in, c)
      else case api_call lib rt ''build game URL'' ''show game request'' ''GET'' [''/api/v1/games'', gameID] None c of
        (Inl err, c1) \<Rightarrow> (Some err, c1)
      | (Inr resp, c1) \<Rightarrow>
          if hp_StatusCode resp \<noteq> 200 then (Some (readAPIError lib resp (''show game failed: '' @ hp_Status resp)), c1)
          else print_body resp c1)"

definition runGameDelete :: "'n clientLib \<Rightarrow> string \<Rightarrow> drynnRuntime \<Rightarrow> 'n client \<Rightarrow> goError option \<times> 'n client" where
  "runGameDelete lib gameID rt c =
     (if gameID = [] then (Some (ErrorString ''--id is required''), c)
      else if sd_AccessToken (rt_session rt) = [] then (Some not_logged_in, c)
      else case api_call lib rt ''build game URL'' ''delete game request'' ''DELETE'' [''/api/v1/games'', gameID] None c of
        (Inl err, c1) \<Rightarrow> (Some err, c1)
      | (Inr resp, c1) \<Rightarrow>
          if hp_StatusCode resp \<noteq> 204 then (Some (readAPIError lib resp (''delete game failed: '' @ hp_Status resp)), c1)
          else (None, println ''deleted'' c1))"

definition runGameUpdate :: "'n clientLib \<Rightarrow> string \<Rightarrow> drynnRuntime \<Rightarrow> 'n client \<Rightarrow> goError option \<times> 'n client" where
  "runGameUpdate lib gameID rt c =
     (if gameID = [] then (Some (ErrorString ''--id is required''), c)
      else if sd_AccessToken (rt_session rt) = [] then (Some not_logged_in, c)
      else case api_call lib rt ''build game URL'' ''update game request'' ''PUT'' [''/api/v1/games'', gameID] None c of
        (Inl err, c1) \<Rightarrow> (Some err, c1)
      | (Inr resp, c1) \<Rightarrow>
          if hp_StatusCode resp = 200 then print_body resp c1
          else (Some (readAPIError lib resp (''update game failed: '' @ hp_Status resp)), c1))"

section \<open>Commands\<close>

definition on_host :: "(string host \<Rightarrow> goError option \<times> string host) \<Rightarrow> 'n client \<Rightarrow> goError option \<times> 'n client" where
  "on_host f c = (case f (ct_host c) of (err, h) \<Rightarrow> (err, c\<lparr>ct_host := h\<rparr>))"

definition login :: "'n clientLib \<Rightarrow> string \<Rightarrow> string \<Rightarrow> drynnRuntime \<Rightarrow> 'n client \<Rightarrow> goError option \<times> 'n client" where
  "login lib email password rt c =
     (if email = [] \<or> password = [] then (Some (ErrorString ''email and password are required''), c)
      else case cl_JoinPath lib (rt_serverURL rt) [''/api/v1/login''] of
        None \<Rightarrow> (Some (Wrap ''build login URL'' (ErrorString ''invalid URL'')), c)
      | Some endpoint \<Rightarrow>
          (case Fetch lib \<lparr>hq_Method = ''POST'', hq_URL = endpoint, hq_Body = Some (cl_LoginBody lib email password),
              hq_Authorization = None, hq_ContentType = Some ''application/json''\<rparr> c of
            (None, c1) \<Rightarrow> (Some (Wrap ''login request'' (ErrorString ''transport'')), c1)
          | (Some resp, c1) \<Rightarrow> (case hp_Body resp of
              None \<Rightarrow> (Some (Wrap ''read response'' (ErrorString ''transport'')), c1)
            | Some body \<Rightarrow>
                if hp_StatusCode resp \<noteq> 200 then
                  (Some (ErrorString (''login failed: '' @ (case cl_ApiError lib body of
                     Some e \<Rightarrow> if e \<noteq> [] then e else hp_Status resp | None \<Rightarrow> hp_Status resp))), c1)
                else (case cl_Tokens lib body of
                  None \<Rightarrow> (Some (Wrap ''decode response'' (ErrorString ''json'')), c1)
                | Some (access, refresh) \<Rightarrow>
                    (case on_host (saveSession lib \<lparr>sd_ServerURL = rt_serverURL rt, sd_AccessToken = access, sd_RefreshToken = refresh\<rparr>) c1 of
                      (Some err, c2) \<Rightarrow> (Some err, c2)
                    | (None, c2) \<Rightarrow> (None, println ''logged in'' c2))))))"

definition logout :: "'n clientLib \<Rightarrow> 'n client \<Rightarrow> goError option \<times> 'n client" where
  "logout lib c = (case on_host (clearTokens lib) c of
     (Some err, c1) \<Rightarrow> (Some err, c1)
   | (None, c1) \<Rightarrow> (None, println ''logged out'' c1))"

definition health :: "'n clientLib \<Rightarrow> drynnRuntime \<Rightarrow> 'n client \<Rightarrow> goError option \<times> 'n client" where
  "health lib rt c = (case cl_JoinPath lib (rt_serverURL rt) [''/api/v1/health''] of
     None \<Rightarrow> (Some (Wrap ''build health URL'' (ErrorString ''invalid URL'')), c)
   | Some endpoint \<Rightarrow>
       (case Fetch lib \<lparr>hq_Method = ''GET'', hq_URL = endpoint, hq_Body = None, hq_Authorization = None, hq_ContentType = None\<rparr> c of
         (None, c1) \<Rightarrow> (Some (Wrap ''health request'' (ErrorString ''transport'')), c1)
       | (Some resp, c1) \<Rightarrow> (case hp_Body resp of
           None \<Rightarrow> (Some (Wrap ''read response'' (ErrorString ''transport'')), c1)
         | Some body \<Rightarrow>
             if hp_StatusCode resp \<noteq> 200 then (Some (ErrorString (''health check failed: '' @ hp_Status resp)), c1)
             else (case cl_Health lib body of
               None \<Rightarrow> (Some (Wrap ''decode response'' (ErrorString ''json'')), c1)
             | Some (status, version) \<Rightarrow> (None, println (''status='' @ status @ '' version='' @ version) c1)))))"

datatype drynnCommand =
    Login string string
  | Logout
  | Health
  | GameCreate string
  | GameList
  | GameShow string
  | GameUpdate string
  | GameDelete string
  | Game "string list"
  | ShowVersion
  | Help "string list"

text \<open>The commands that need a session and a server, and what \<open>run\<close> prepares for them.\<close>

definition needs_server :: "drynnCommand \<Rightarrow> bool" where
  "needs_server cmd = (case cmd of Logout \<Rightarrow> False | ShowVersion \<Rightarrow> False | Help _ \<Rightarrow> False | _ \<Rightarrow> True)"

definition prepare :: "'n clientLib \<Rightarrow> string \<Rightarrow> string \<Rightarrow> drynnCommand \<Rightarrow> string host \<Rightarrow> (goError + drynnRuntime) \<times> string host" where
  "prepare lib serverFlag configPath cmd h =
     (if \<not> needs_server cmd then (Inr \<lparr>rt_session = noSession, rt_serverURL = []\<rparr>, h)
      else case loadSession lib h of
        (Inl err, h1) \<Rightarrow> (Inl err, h1)
      | (Inr s, h1) \<Rightarrow>
          if (case cmd of Login _ _ \<Rightarrow> True | _ \<Rightarrow> False) \<and> configPath \<noteq> [] \<and> sd_AccessToken s \<noteq> []
          then (Inl (ErrorString ''existing session found; run 'drynn logout' before using --config''), h1)
          else (case resolveServerURL lib serverFlag configPath s h1 of
            (Inl err, h2) \<Rightarrow> (Inl err, h2)
          | (Inr url, h2) \<Rightarrow> (Inr \<lparr>rt_session = s, rt_serverURL = url\<rparr>, h2)))"

definition command :: "'n clientLib \<Rightarrow> drynnCommand \<Rightarrow> drynnRuntime \<Rightarrow> 'n client \<Rightarrow> goError option \<times> 'n client" where
  "command lib cmd rt c = (case cmd of
       Login email password \<Rightarrow> login lib email password rt c
     | Logout \<Rightarrow> logout lib c
     | Health \<Rightarrow> health lib rt c
     | GameCreate file \<Rightarrow> runGameCreate lib file rt c
     | GameList \<Rightarrow> runGameList lib rt c
     | GameShow gameID \<Rightarrow> runGameShow lib gameID rt c
     | GameUpdate gameID \<Rightarrow> runGameUpdate lib gameID rt c
     | GameDelete gameID \<Rightarrow> runGameDelete lib gameID rt c
     | Game args \<Rightarrow> (Some (ErrorString (if args = [] \<or> hd args = ''help'' then ''help requested'' else ''unknown game command'')), c)
     | ShowVersion \<Rightarrow> (None, println (cl_Version lib) c)
     | Help args \<Rightarrow> (Some (ErrorString (if args = [] \<or> hd args = ''help'' then ''help requested'' else ''unknown command'')), c))"

definition drynn :: "'n clientLib \<Rightarrow> string \<Rightarrow> string \<Rightarrow> drynnCommand \<Rightarrow> 'n client \<Rightarrow> goError option \<times> 'n client" where
  "drynn lib serverFlag configPath cmd c = (case prepare lib serverFlag configPath cmd (ct_host c) of
     (Inl err, h1) \<Rightarrow> (Some err, c\<lparr>ct_host := h1\<rparr>)
   | (Inr rt, h1) \<Rightarrow> command lib cmd rt (c\<lparr>ct_host := h1\<rparr>))"

section \<open>What is sent\<close>

text \<open>The requests a run of a command sends.\<close>

definition sent_by :: "('n client \<Rightarrow> goError option \<times> 'n client) \<Rightarrow> 'n client \<Rightarrow> httpRequest list" where
  "sent_by m c = drop (length (ct_sent c)) (ct_sent (snd (m c)))"

text \<open>A computation that sends at most one request, and only one that satisfies \<open>P\<close>.\<close>

definition sends :: "(httpRequest \<Rightarrow> bool) \<Rightarrow> ('n client \<Rightarrow> 'a \<times> 'n client) \<Rightarrow> bool" where
  "sends P m \<longleftrightarrow> (\<forall>c. ct_sent (snd (m c)) = ct_sent c \<or> (\<exists>rq. P rq \<and> ct_sent (snd (m c)) = ct_sent c @ [rq]))"

lemma sends_sent_by:
  assumes "sends P m"
  shows "sent_by m c = [] \<or> (\<exists>rq. P rq \<and> sent_by m c = [rq])"
proof -
  have "ct_sent (snd (m c)) = ct_sent c \<or> (\<exists>rq. P rq \<and> ct_sent (snd (m c)) = ct_sent c @ [rq])" using assms by (simp add: sends_def)
  then show ?thesis by (auto simp: sent_by_def)
qed

lemma ct_sent_simps [simp]: "ct_sent (println s c) = ct_sent c" "ct_sent (snd (print_body resp c)) = ct_sent c"
  "ct_sent (snd (on_host f c)) = ct_sent c"
  by (auto simp: println_def print_body_def on_host_def split: option.split prod.split)

text \<open>A request with the token of the session, to the server of the run.\<close>

definition authentic :: "'n clientLib \<Rightarrow> drynnRuntime \<Rightarrow> httpRequest \<Rightarrow> bool" where
  "authentic lib rt rq \<longleftrightarrow> hq_Authorization rq = Some (''Bearer '' @ sd_AccessToken (rt_session rt)) \<and>
     (\<exists>parts. cl_JoinPath lib (rt_serverURL rt) parts = Some (hq_URL rq))"

lemma api_call_sends:
  "ct_sent (snd (api_call lib rt build what verb parts body c)) = ct_sent c \<or>
   (\<exists>rq. authentic lib rt rq \<and> ct_sent (snd (api_call lib rt build what verb parts body c)) = ct_sent c @ [rq])"
  by (auto simp: api_call_def newAuthenticatedRequest_def Do_def authentic_def split: option.split prod.split)

lemma game_commands_send:
  fixes lib :: "'n clientLib"
  shows "sends (authentic lib rt) (runGameCreate lib file rt)" "sends (authentic lib rt) (runGameList lib rt)"
  "sends (authentic lib rt) (runGameShow lib i rt)" "sends (authentic lib rt) (runGameUpdate lib i rt)"
  "sends (authentic lib rt) (runGameDelete lib i rt)"
proof -
  have step: "ct_sent (snd (case api_call lib rt build what verb parts body c of (Inl err, c1) \<Rightarrow> (Some err, c1) | (Inr resp, c1) \<Rightarrow> f resp c1)) = ct_sent c \<or>
     (\<exists>rq. authentic lib rt rq \<and> ct_sent (snd (case api_call lib rt build what verb parts body c of
        (Inl err, c1) \<Rightarrow> (Some err, c1) | (Inr resp, c1) \<Rightarrow> f resp c1)) = ct_sent c @ [rq])"
    if "\<And>resp c1. ct_sent (snd (f resp c1)) = ct_sent c1"
    for f :: "httpResponse \<Rightarrow> 'n client \<Rightarrow> goError option \<times> 'n client" and build what verb parts body and c :: "'n client"
    using api_call_sends [of lib rt build what verb parts body c] that by (auto split: prod.split sum.split)
  show "sends (authentic lib rt) (runGameList lib rt)" "sends (authentic lib rt) (runGameShow lib i rt)"
    "sends (authentic lib rt) (runGameUpdate lib i rt)" "sends (authentic lib rt) (runGameDelete lib i rt)"
    unfolding sends_def runGameList_def runGameShow_def runGameUpdate_def runGameDelete_def by (auto intro!: step)
  show "sends (authentic lib rt) (runGameCreate lib file rt)"
    unfolding sends_def
  proof
    fix c :: "'n client"
    obtain r h where "ReadFile file (ct_host c) = (r, h)" by force
    then show "ct_sent (snd (runGameCreate lib file rt c)) = ct_sent c \<or>
        (\<exists>rq. authentic lib rt rq \<and> ct_sent (snd (runGameCreate lib file rt c)) = ct_sent c @ [rq])"
      using step [of "\<lambda>resp c1. if hp_StatusCode resp \<noteq> 201 then (Some (readAPIError lib resp (''create game failed: '' @ hp_Status resp)), c1)
          else print_body resp c1" "''build games URL''" "''create game request''" "''POST''" "[''/api/v1/games'']" "Some (projr r)" "c\<lparr>ct_host := h\<rparr>"]
      by (cases r) (simp_all add: runGameCreate_def)
  qed
qed

text \<open>Login and health send no token.\<close>

lemma open_commands_send:
  fixes lib :: "'n clientLib"
  shows "sends (\<lambda>rq. hq_Authorization rq = None) (login lib email pw rt)" "sends (\<lambda>rq. hq_Authorization rq = None) (health lib rt)"
proof -
  have f: "ct_sent (snd (Fetch lib rq c)) = ct_sent c \<or> ct_sent (snd (Fetch lib rq c)) = ct_sent c @ [rq]" for rq and c :: "'n client"
    by (simp add: Fetch_def Do_def split: prod.split)
  show "sends (\<lambda>rq. hq_Authorization rq = None) (health lib rt)"
    unfolding sends_def
  proof
    fix c :: "'n client"
    show "ct_sent (snd (health lib rt c)) = ct_sent c \<or> (\<exists>rq. hq_Authorization rq = None \<and> ct_sent (snd (health lib rt c)) = ct_sent c @ [rq])"
    proof (cases "cl_JoinPath lib (rt_serverURL rt) [''/api/v1/health'']")
      case (Some endpoint)
      let ?rq = "\<lparr>hq_Method = ''GET'', hq_URL = endpoint, hq_Body = None, hq_Authorization = None, hq_ContentType = None\<rparr>"
      obtain r c1 where r: "Fetch lib ?rq c = (r, c1)" by force
      then have "ct_sent (snd (health lib rt c)) = ct_sent c1"
        using Some by (auto simp: health_def split: option.split)
      with f [of ?rq c] r show ?thesis by auto
    qed (simp add: health_def)
  qed
  show "sends (\<lambda>rq. hq_Authorization rq = None) (login lib email pw rt)"
    unfolding sends_def
  proof
    fix c :: "'n client"
    show "ct_sent (snd (login lib email pw rt c)) = ct_sent c \<or> (\<exists>rq. hq_Authorization rq = None \<and> ct_sent (snd (login lib email pw rt c)) = ct_sent c @ [rq])"
    proof (cases "email \<noteq> [] \<and> pw \<noteq> [] \<and> cl_JoinPath lib (rt_serverURL rt) [''/api/v1/login''] \<noteq> None")
      case True
      then obtain endpoint where url: "cl_JoinPath lib (rt_serverURL rt) [''/api/v1/login''] = Some endpoint" by blast
      let ?rq = "\<lparr>hq_Method = ''POST'', hq_URL = endpoint, hq_Body = Some (cl_LoginBody lib email pw), hq_Authorization = None,
        hq_ContentType = Some ''application/json''\<rparr>"
      obtain r c1 where r: "Fetch lib ?rq c = (r, c1)" by force
      have h: "ct_sent (snd (case on_host g c1 of (Some err, c2) \<Rightarrow> (Some err, c2) | (None, c2) \<Rightarrow> (None, println ''logged in'' c2))) = ct_sent c1" for g
        using ct_sent_simps(3) [of g c1] by (cases "on_host g c1") (auto split: option.split)
      have "ct_sent (snd (login lib email pw rt c)) = ct_sent c1"
        using True url r by (auto simp: login_def h split: option.split)
      with f [of ?rq c] r show ?thesis by auto
    qed (auto simp: login_def)
  qed
qed

section \<open>The session from run to run\<close>

text \<open>The session file holds \<open>s\<close>.\<close>

definition stored :: "'n clientLib \<Rightarrow> sessionData \<Rightarrow> string host \<Rightarrow> bool" where
  "stored lib s h \<longleftrightarrow> (case sessionPath lib of Inl _ \<Rightarrow> False
     | Inr path \<Rightarrow> ho_files h path = Some (cl_EncodeSession lib s @ [CHR 0x0A]) \<and> path \<notin> ho_dirs h)"

text \<open>
  What the client relies on of its codecs: package json keeps strings of valid UTF-8 and decodes to such strings only (it
  replaces every other byte), so a session of such strings is read back as it was written.
\<close>

definition continues :: "char \<Rightarrow> bool" where
  "continues c \<longleftrightarrow> (let n = of_char c :: nat in 128 \<le> n \<and> n \<le> 191)"

text \<open>The number of bytes of the character that \<open>c\<close> and \<open>d\<close> begin, or 0.\<close>

definition rune_length :: "char \<Rightarrow> char \<Rightarrow> nat" where
  "rune_length c d = (let n = of_char c :: nat; m = of_char d :: nat in
     if 194 \<le> n \<and> n \<le> 223 then 2
     else if n = 224 then (if 160 \<le> m then 3 else 0)
     else if n = 237 then (if m \<le> 159 then 3 else 0)
     else if 225 \<le> n \<and> n \<le> 239 then 3
     else if n = 240 then (if 144 \<le> m then 4 else 0)
     else if 241 \<le> n \<and> n \<le> 243 then 4
     else if n = 244 then (if m \<le> 143 then 4 else 0)
     else 0)"

fun utf8_valid :: "string \<Rightarrow> bool" where
  "utf8_valid [] = True"
| "utf8_valid [c] = ((of_char c :: nat) < 128)"
| "utf8_valid (c # d # s) =
     (if (of_char c :: nat) < 128 then utf8_valid (d # s)
      else let k = rune_length c d in
        2 \<le> k \<and> k - 2 \<le> length s \<and> list_all continues (d # take (k - 2) s) \<and> utf8_valid (drop (k - 2) s))"

definition session_valid :: "sessionData \<Rightarrow> bool" where
  "session_valid s \<longleftrightarrow> utf8_valid (sd_ServerURL s) \<and> utf8_valid (sd_AccessToken s) \<and> utf8_valid (sd_RefreshToken s)"

definition session_codec :: "'n clientLib \<Rightarrow> bool" where
  "session_codec lib \<longleftrightarrow>
     (\<forall>s. session_valid s \<longrightarrow> cl_DecodeSession lib (cl_EncodeSession lib s @ [CHR 0x0A]) = Some s) \<and>
     (\<forall>d s. cl_DecodeSession lib d = Some s \<longrightarrow> session_valid s) \<and>
     (\<forall>b access refresh. cl_Tokens lib b = Some (access, refresh) \<longrightarrow> utf8_valid access \<and> utf8_valid refresh)"

lemma loadSession_valid:
  assumes "session_codec lib" and "loadSession lib h = (Inr s, h')"
  shows "session_valid s"
  using assms by (auto simp: loadSession_def session_codec_def noSession_def session_valid_def split: sum.splits prod.splits osError.splits option.splits)

lemma replace_session_file:
  "snd (replace_session path payload h) = snd (replace_file path payload h) \<and>
   (fst (replace_session path payload h) = None \<longleftrightarrow> fst (replace_file path payload h) = None)"
proof -
  obtain r1 h1 where w: "WriteFile (path @ ''.tmp'') payload h = (r1, h1)" by force
  obtain r2 h2 where m: "Rename (path @ ''.tmp'') path h1 = (r2, h2)" by force
  show ?thesis by (cases r1; cases r2) (simp_all add: replace_session_def replace_file_def w m)
qed

lemma saveSession_stored:
  assumes "saveSession lib s h = (None, h')"
  shows "stored lib s h'"
proof -
  from assms obtain path where p: "sessionPath lib = Inr path" by (auto simp: saveSession_def split: sum.splits)
  obtain r1 h1 where d: "MkdirAll (cd_Dir (cl_Codec lib) path) h = (r1, h1)" by force
  with assms p have r: "replace_session path (cl_EncodeSession lib s @ [CHR 0x0A]) h1 = (None, h')"
    by (auto simp: saveSession_def split: sum.splits)
  obtain x where f: "replace_file path (cl_EncodeSession lib s @ [CHR 0x0A]) h1 = (x, h')"
    using replace_session_file [of path "cl_EncodeSession lib s @ [CHR 0x0A]" h1] r by (metis prod.collapse snd_conv)
  moreover have "x = None" using replace_session_file [of path "cl_EncodeSession lib s @ [CHR 0x0A]" h1] r f by simp
  ultimately have "ho_files h' path = Some (cl_EncodeSession lib s @ [CHR 0x0A])" "path \<notin> ho_dirs h'"
    using replace_file_cases [OF f] by auto
  with p show ?thesis by (simp add: stored_def)
qed

lemma ReadFile_stored:
  assumes "ho_files h path = Some data" and "path \<notin> ho_dirs h" and "ReadFile path h = (r, h')"
  shows "(r = Inr data \<or> r = Inl IOFailure) \<and> (ho_faults h = [] \<longrightarrow> r = Inr data \<and> h' = h) \<and> ho_files h' = ho_files h \<and> ho_env h' = ho_env h"
  using assms(1,2) assms(3) reading_files(2) [OF assms(3)] env_same(2) [OF assms(3)]
  by (auto simp: ReadFile_def os_call_def split: list.splits io_fault.splits if_splits)

lemma loadSession_stored:
  assumes "session_codec lib" and "session_valid s" and "stored lib s h" and "loadSession lib h = (r, h')"
  shows "(r = Inr s \<or> (\<exists>err. r = Inl err)) \<and> (ho_faults h = [] \<longrightarrow> r = Inr s \<and> h' = h) \<and> ho_files h' = ho_files h \<and> ho_env h' = ho_env h"
proof -
  from assms(3) obtain path where p: "sessionPath lib = Inr path" "ho_files h path = Some (cl_EncodeSession lib s @ [CHR 0x0A])" "path \<notin> ho_dirs h"
    by (auto simp: stored_def split: sum.splits)
  obtain rd h1 where "ReadFile path h = (rd, h1)" by force
  with ReadFile_stored [OF p(2,3) this] assms(1,2,4) p(1) show ?thesis by (auto simp: loadSession_def session_codec_def)
qed

lemma resolve_from_session:
  "ho_env h ''DRYNN_SERVER_URL'' = [] \<Longrightarrow> resolveServerURL lib [] [] s h =
     ((if sd_ServerURL s \<noteq> [] then Inr (sd_ServerURL s) else Inl server_required), h)"
  by (simp add: resolveServerURL_def Let_def)

definition game_command :: "drynnCommand \<Rightarrow> bool" where
  "game_command cmd = (case cmd of GameCreate _ \<Rightarrow> True | GameList \<Rightarrow> True | GameShow _ \<Rightarrow> True | GameUpdate _ \<Rightarrow> True
     | GameDelete _ \<Rightarrow> True | _ \<Rightarrow> False)"

lemma game_needs_server: "game_command cmd \<Longrightarrow> needs_server cmd"
  by (cases cmd) (simp_all add: game_command_def needs_server_def)

lemma game_not_login: "game_command cmd \<Longrightarrow> \<not> (case cmd of Login _ _ \<Rightarrow> True | _ \<Rightarrow> False)"
  by (cases cmd) (simp_all add: game_command_def)

lemma prepare_stored:
  assumes codec: "session_codec lib" and valid: "session_valid s" and st: "stored lib s h" and need: "needs_server cmd" and run: "prepare lib sf cp cmd h = (Inr rt, h')"
  shows "rt_session rt = s \<and> (sf = [] \<and> cp = [] \<and> ho_env h ''DRYNN_SERVER_URL'' = [] \<longrightarrow> rt_serverURL rt = sd_ServerURL s)"
proof -
  obtain r h1 where l: "loadSession lib h = (r, h1)" by force
  note ls = loadSession_stored [OF codec valid st l]
  with run need l have r: "r = Inr s" by (auto simp: prepare_def)
  obtain ru h2 where u: "resolveServerURL lib sf cp s h1 = (ru, h2)" by force
  have "\<exists>url. ru = Inr url \<and> rt = \<lparr>rt_session = s, rt_serverURL = url\<rparr>"
    using run need l r u by (auto simp: prepare_def split: if_splits sum.splits)
  with ls u resolve_from_session [of h1 lib s] show ?thesis by (auto split: if_splits)
qed

lemma game_command_sends:
  assumes "game_command cmd"
  shows "sends (authentic lib rt) (command lib cmd rt)"
    and "sd_AccessToken (rt_session rt) = [] \<Longrightarrow> \<exists>err. command lib cmd rt c = (Some err, c)"
proof -
  show "sends (authentic lib rt) (command lib cmd rt)"
    using assms game_commands_send [of lib rt] by (cases cmd) (simp_all add: game_command_def command_def [abs_def])
  show "\<exists>err. command lib cmd rt c = (Some err, c)" if "sd_AccessToken (rt_session rt) = []"
    using assms that
    by (cases cmd) (simp_all add: game_command_def command_def runGameCreate_def runGameList_def runGameShow_def runGameUpdate_def runGameDelete_def)
qed

lemma drynn_game:
  assumes "game_command cmd"
  shows "(\<exists>err h1. prepare lib sf cp cmd (ct_host c) = (Inl err, h1) \<and> drynn lib sf cp cmd c = (Some err, c\<lparr>ct_host := h1\<rparr>)) \<or>
    (\<exists>rt h1. prepare lib sf cp cmd (ct_host c) = (Inr rt, h1) \<and> drynn lib sf cp cmd c = command lib cmd rt (c\<lparr>ct_host := h1\<rparr>))"
proof -
  obtain r h1 where "prepare lib sf cp cmd (ct_host c) = (r, h1)" by force
  then show ?thesis by (cases r) (auto simp: drynn_def)
qed

text \<open>What a login that reports no error did.\<close>

definition login_request :: "'n clientLib \<Rightarrow> string \<Rightarrow> string \<Rightarrow> string \<Rightarrow> httpRequest" where
  "login_request lib email password endpoint = \<lparr>hq_Method = ''POST'', hq_URL = endpoint, hq_Body = Some (cl_LoginBody lib email password),
     hq_Authorization = None, hq_ContentType = Some ''application/json''\<rparr>"

lemma Fetch_Some:
  assumes "Fetch lib rq c = (Some resp, c')"
  shows "fst (cl_Send lib rq (ct_net c)) = Some resp \<and> ct_sent c' = ct_sent c @ [rq]"
  using assms by (auto simp: Fetch_def Do_def split: if_splits prod.splits)

lemma login_None:
  assumes "login lib email password rt c = (None, c')"
  shows "\<exists>endpoint resp body access refresh. cl_JoinPath lib (rt_serverURL rt) [''/api/v1/login''] = Some endpoint \<and>
    fst (cl_Send lib (login_request lib email password endpoint) (ct_net c)) = Some resp \<and> hp_StatusCode resp = 200 \<and> hp_Body resp = Some body \<and>
    cl_Tokens lib body = Some (access, refresh) \<and> ct_sent c' = ct_sent c @ [login_request lib email password endpoint] \<and>
    stored lib \<lparr>sd_ServerURL = rt_serverURL rt, sd_AccessToken = access, sd_RefreshToken = refresh\<rparr> (ct_host c')"
proof -
  from assms have ne: "\<not> (email = [] \<or> password = [])" by (auto simp: login_def)
  from assms ne obtain endpoint where url: "cl_JoinPath lib (rt_serverURL rt) [''/api/v1/login''] = Some endpoint"
    by (auto simp: login_def split: option.splits)
  let ?rq = "login_request lib email password endpoint"
  obtain r c1 where f: "Fetch lib ?rq c = (r, c1)" by force
  have run: "(case r of None \<Rightarrow> (Some (Wrap ''login request'' (ErrorString ''transport'')), c1)
      | Some resp \<Rightarrow> (case hp_Body resp of None \<Rightarrow> (Some (Wrap ''read response'' (ErrorString ''transport'')), c1)
        | Some body \<Rightarrow> if hp_StatusCode resp \<noteq> 200 then (Some (ErrorString (''login failed: '' @ (case cl_ApiError lib body of
                     Some e \<Rightarrow> if e \<noteq> [] then e else hp_Status resp | None \<Rightarrow> hp_Status resp))), c1)
            else (case cl_Tokens lib body of None \<Rightarrow> (Some (Wrap ''decode response'' (ErrorString ''json'')), c1)
              | Some (access, refresh) \<Rightarrow> (case on_host (saveSession lib
                    \<lparr>sd_ServerURL = rt_serverURL rt, sd_AccessToken = access, sd_RefreshToken = refresh\<rparr>) c1 of
                  (Some err, c2) \<Rightarrow> (Some err, c2) | (None, c2) \<Rightarrow> (None, println ''logged in'' c2))))) = (None, c')"
    using assms ne url f by (simp add: login_def login_request_def)
  then obtain resp where r: "r = Some resp" by (cases r) auto
  with run obtain body where body: "hp_Body resp = Some body" by (cases "hp_Body resp") auto
  with run r have ok: "hp_StatusCode resp = 200" by (auto split: if_splits)
  with run r body obtain access refresh where tok: "cl_Tokens lib body = Some (access, refresh)" by (cases "cl_Tokens lib body") auto
  let ?s = "\<lparr>sd_ServerURL = rt_serverURL rt, sd_AccessToken = access, sd_RefreshToken = refresh\<rparr>"
  obtain e h where sv: "saveSession lib ?s (ct_host c1) = (e, h)" by force
  with run r body ok tok have "e = None" "c' = println ''logged in'' (c1\<lparr>ct_host := h\<rparr>)"
    by (cases e; simp add: on_host_def)+
  with saveSession_stored [of lib ?s "ct_host c1" h] sv have "stored lib ?s (ct_host c')" by (simp add: println_def)
  moreover have "ct_sent c' = ct_sent c1" using \<open>c' = _\<close> by simp
  ultimately show ?thesis using Fetch_Some [of lib ?rq c resp c1] f r url body ok tok by auto
qed

lemma drynn_login_None:
  assumes "drynn lib sf cp (Login email password) c = (None, c')"
  shows "\<exists>rt h1 endpoint resp body access refresh. prepare lib sf cp (Login email password) (ct_host c) = (Inr rt, h1) \<and>
    cl_JoinPath lib (rt_serverURL rt) [''/api/v1/login''] = Some endpoint \<and>
    fst (cl_Send lib (login_request lib email password endpoint) (ct_net c)) = Some resp \<and> hp_StatusCode resp = 200 \<and> hp_Body resp = Some body \<and>
    cl_Tokens lib body = Some (access, refresh) \<and> ct_sent c' = ct_sent c @ [login_request lib email password endpoint] \<and>
    stored lib \<lparr>sd_ServerURL = rt_serverURL rt, sd_AccessToken = access, sd_RefreshToken = refresh\<rparr> (ct_host c')"
proof -
  obtain r h1 where p: "prepare lib sf cp (Login email password) (ct_host c) = (r, h1)" by force
  with assms obtain rt where rt: "r = Inr rt" and run: "login lib email password rt (c\<lparr>ct_host := h1\<rparr>) = (None, c')"
    by (cases r) (auto simp: drynn_def command_def)
  have same: "ct_net (c\<lparr>ct_host := h1\<rparr>) = ct_net c" "ct_sent (c\<lparr>ct_host := h1\<rparr>) = ct_sent c" by simp_all
  show ?thesis using login_None [OF run, unfolded same] p rt by blast
qed

lemma logout_None:
  assumes "logout lib c = (None, c')"
  shows "\<exists>s. stored lib (s\<lparr>sd_AccessToken := [], sd_RefreshToken := []\<rparr>) (ct_host c') \<and>
    (\<exists>h1. loadSession lib (ct_host c) = (Inr s, h1)) \<and> ct_sent c' = ct_sent c"
proof -
  obtain r h1 where l: "loadSession lib (ct_host c) = (r, h1)" by force
  from assms l obtain s where s: "r = Inr s" by (cases r) (auto simp: logout_def on_host_def clearTokens_def)
  obtain e h2 where sv: "saveSession lib (s\<lparr>sd_AccessToken := [], sd_RefreshToken := []\<rparr>) h1 = (e, h2)" by force
  with assms l s have "e = None" "c' = println ''logged out'' (c\<lparr>ct_host := h2\<rparr>)"
    by (cases e; simp add: logout_def on_host_def clearTokens_def)+
  with saveSession_stored [of lib "s\<lparr>sd_AccessToken := [], sd_RefreshToken := []\<rparr>" h1 h2] sv l s show ?thesis
    by (auto simp: println_def)
qed

lemma stored_same: "ho_files h' = ho_files h \<Longrightarrow> ho_dirs h' = ho_dirs h \<Longrightarrow> stored lib s h' = stored lib s h"
  by (simp add: stored_def split: sum.split)

text \<open>With a stored session, a game command sends its token or nothing.\<close>

lemma stored_game_command:
  assumes codec: "session_codec lib" and valid: "session_valid s" and st: "stored lib s (ct_host c)" and game: "game_command cmd"
  shows "sent_by (drynn lib sf cp cmd) c = [] \<or> (\<exists>rt rq. rt_session rt = s \<and> authentic lib rt rq \<and> sent_by (drynn lib sf cp cmd) c = [rq] \<and>
      (sf = [] \<and> cp = [] \<and> ho_env (ct_host c) ''DRYNN_SERVER_URL'' = [] \<longrightarrow> rt_serverURL rt = sd_ServerURL s))"
    and "sd_AccessToken s = [] \<Longrightarrow> sent_by (drynn lib sf cp cmd) c = [] \<and> (\<exists>err. fst (drynn lib sf cp cmd c) = Some err)"
proof -
  from drynn_game [OF game, of lib sf cp c] consider (refused) err h1 where "drynn lib sf cp cmd c = (Some err, c\<lparr>ct_host := h1\<rparr>)"
    | (run) rt h1 where "prepare lib sf cp cmd (ct_host c) = (Inr rt, h1)" "drynn lib sf cp cmd c = command lib cmd rt (c\<lparr>ct_host := h1\<rparr>)"
    by blast
  note cases = this
  show "sent_by (drynn lib sf cp cmd) c = [] \<or> (\<exists>rt rq. rt_session rt = s \<and> authentic lib rt rq \<and> sent_by (drynn lib sf cp cmd) c = [rq] \<and>
      (sf = [] \<and> cp = [] \<and> ho_env (ct_host c) ''DRYNN_SERVER_URL'' = [] \<longrightarrow> rt_serverURL rt = sd_ServerURL s))"
    using cases
  proof cases
    case refused
    then show ?thesis by (simp add: sent_by_def)
  next
    case run
    have "sent_by (drynn lib sf cp cmd) c = sent_by (command lib cmd rt) (c\<lparr>ct_host := h1\<rparr>)" using run by (simp add: sent_by_def)
    with sends_sent_by [OF game_command_sends(1) [OF game], of lib rt "c\<lparr>ct_host := h1\<rparr>"] prepare_stored [OF codec valid st game_needs_server [OF game] run(1)]
    show ?thesis by auto
  qed
  show "sent_by (drynn lib sf cp cmd) c = [] \<and> (\<exists>err. fst (drynn lib sf cp cmd c) = Some err)" if "sd_AccessToken s = []"
    using cases
  proof cases
    case refused
    then show ?thesis by (simp add: sent_by_def)
  next
    case run
    have "sd_AccessToken (rt_session rt) = []" using prepare_stored [OF codec valid st game_needs_server [OF game] run(1)] that by simp
    from game_command_sends(2) [OF game this, of lib "c\<lparr>ct_host := h1\<rparr>"] run(2) show ?thesis by (auto simp: sent_by_def)
  qed
qed

text \<open>What the game commands without a body ask for.\<close>

definition game_request :: "drynnCommand \<Rightarrow> (string \<times> string list) option" where
  "game_request cmd = (case cmd of
       GameList \<Rightarrow> Some (''GET'', [''/api/v1/games''])
     | GameShow i \<Rightarrow> if i = [] then None else Some (''GET'', [''/api/v1/games'', i])
     | GameUpdate i \<Rightarrow> if i = [] then None else Some (''PUT'', [''/api/v1/games'', i])
     | GameDelete i \<Rightarrow> if i = [] then None else Some (''DELETE'', [''/api/v1/games'', i])
     | _ \<Rightarrow> None)"

lemma api_call_ready:
  assumes "cl_JoinPath lib (rt_serverURL rt) parts = Some url" and "cl_ValidURL lib url"
  shows "ct_sent (snd (api_call lib rt build what verb parts None c)) = ct_sent c @ [\<lparr>hq_Method = verb, hq_URL = url, hq_Body = None,
    hq_Authorization = Some (''Bearer '' @ sd_AccessToken (rt_session rt)), hq_ContentType = None\<rparr>]"
  using assms by (simp add: api_call_def newAuthenticatedRequest_def Do_def split: prod.split option.split)

lemma after_call:
  assumes "ct_sent (snd x) = l" and "\<And>resp c1. ct_sent (snd (f resp c1)) = ct_sent c1"
  shows "ct_sent (snd (case x of (Inl err, c1) \<Rightarrow> (Some err, c1) | (Inr resp, c1) \<Rightarrow> f resp c1)) = l"
  using assms by (auto split: prod.split sum.split)

lemma game_request_sends:
  assumes req: "game_request cmd = Some (verb, parts)" and token: "sd_AccessToken (rt_session rt) \<noteq> []"
    and url: "cl_JoinPath lib (rt_serverURL rt) parts = Some url" "cl_ValidURL lib url"
  shows "ct_sent (snd (command lib cmd rt c)) = ct_sent c @ [\<lparr>hq_Method = verb, hq_URL = url, hq_Body = None,
    hq_Authorization = Some (''Bearer '' @ sd_AccessToken (rt_session rt)), hq_ContentType = None\<rparr>]"
  using req token api_call_ready [OF url]
  by (cases cmd) (auto simp: game_request_def command_def runGameList_def runGameShow_def runGameUpdate_def runGameDelete_def
      split: if_splits intro!: after_call)

lemma stored_game_request:
  assumes codec: "session_codec lib" and valid: "session_valid s" and st: "stored lib s (ct_host c)"
    and env: "ho_env (ct_host c) ''DRYNN_SERVER_URL'' = []" and calm: "ho_faults (ct_host c) = []"
    and ok: "sd_ServerURL s \<noteq> []" "sd_AccessToken s \<noteq> []" and req: "game_request cmd = Some (verb, parts)"
    and url: "cl_JoinPath lib (sd_ServerURL s) parts = Some url" "cl_ValidURL lib url"
  shows "sent_by (drynn lib [] [] cmd) c = [\<lparr>hq_Method = verb, hq_URL = url, hq_Body = None,
    hq_Authorization = Some (''Bearer '' @ sd_AccessToken s), hq_ContentType = None\<rparr>]"
proof -
  let ?rt = "\<lparr>rt_session = s, rt_serverURL = sd_ServerURL s\<rparr>"
  obtain r h1 where l: "loadSession lib (ct_host c) = (r, h1)" by force
  with loadSession_stored [OF codec valid st l] calm have "loadSession lib (ct_host c) = (Inr s, ct_host c)" by simp
  then have "prepare lib [] [] cmd (ct_host c) = (Inr ?rt, ct_host c)"
    using ok(1) req resolve_from_session [OF env, of lib s]
    by (cases cmd) (simp_all add: prepare_def needs_server_def game_request_def)
  then have "drynn lib [] [] cmd c = command lib cmd ?rt c" by (simp add: drynn_def)
  with game_request_sends [OF req, of ?rt lib url c] ok(2) url show ?thesis by (simp add: sent_by_def)
qed

text \<open>Commands other than the game commands send no token.\<close>

lemma other_commands_send:
  assumes "\<not> game_command cmd"
  shows "\<forall>rq \<in> set (sent_by (drynn lib sf cp cmd) c). hq_Authorization rq = None"
proof -
  obtain r h1 where p: "prepare lib sf cp cmd (ct_host c) = (r, h1)" by force
  have quiet: "sends (\<lambda>rq. hq_Authorization rq = None) (command lib cmd rt)" for rt
  proof (cases cmd)
    case Logout
    have "ct_sent (snd (logout lib c)) = ct_sent c" for c
      using ct_sent_simps(3) [of "clearTokens lib" c] by (cases "on_host (clearTokens lib) c") (auto simp: logout_def split: option.split)
    with Logout show ?thesis by (simp add: command_def [abs_def] sends_def)
  qed (use assms open_commands_send [of lib] in \<open>simp_all add: game_command_def command_def [abs_def] sends_def\<close>)
  show ?thesis
  proof (cases r)
    case (Inl err)
    with p show ?thesis by (simp add: drynn_def sent_by_def)
  next
    case (Inr rt)
    with p have "sent_by (drynn lib sf cp cmd) c = sent_by (command lib cmd rt) (c\<lparr>ct_host := h1\<rparr>)" by (simp add: drynn_def sent_by_def)
    with sends_sent_by [OF quiet, of rt "c\<lparr>ct_host := h1\<rparr>"] show ?thesis by auto
  qed
qed

section \<open>Properties\<close>

text \<open>C23.  A login that reports no error is what the client works with afterwards: its tokens come from the server's answer to
  the one request it sent, and as long as the session file is that one and no other server is named (no flags, no
  \<open>DRYNN_SERVER_URL\<close>), a game command sends at most one request, which goes to the same server with that access token; without
  a fault it sends exactly the request it stands for.  (The server's URL is taken to be valid UTF-8, which a flag
  or a variable need not be; the session file could not hold it otherwise.)\<close>

theorem login_authenticates:
  assumes "session_codec lib" and "drynn lib sf cp (Login email password) c = (None, c1)"
    and later: "ho_files (ct_host c2) = ho_files (ct_host c1)" "ho_dirs (ct_host c2) = ho_dirs (ct_host c1)"
      "ho_env (ct_host c2) ''DRYNN_SERVER_URL'' = []"
  shows "\<exists>rt h1 endpoint resp body access refresh.
    prepare lib sf cp (Login email password) (ct_host c) = (Inr rt, h1) \<and> (sf \<noteq> [] \<longrightarrow> rt_serverURL rt = TrimRightSlash sf) \<and>
    cl_JoinPath lib (rt_serverURL rt) [''/api/v1/login''] = Some endpoint \<and>
    sent_by (drynn lib sf cp (Login email password)) c = [login_request lib email password endpoint] \<and>
    fst (cl_Send lib (login_request lib email password endpoint) (ct_net c)) = Some resp \<and> hp_StatusCode resp = 200 \<and>
    hp_Body resp = Some body \<and> cl_Tokens lib body = Some (access, refresh) \<and>
    (utf8_valid (rt_serverURL rt) \<longrightarrow>
      (\<forall>cmd. game_command cmd \<longrightarrow> sent_by (drynn lib [] [] cmd) c2 = [] \<or>
         (\<exists>rq parts. sent_by (drynn lib [] [] cmd) c2 = [rq] \<and> hq_Authorization rq = Some (''Bearer '' @ access) \<and>
            cl_JoinPath lib (rt_serverURL rt) parts = Some (hq_URL rq))) \<and>
      (\<forall>cmd verb parts url. game_request cmd = Some (verb, parts) \<and> ho_faults (ct_host c2) = [] \<and> rt_serverURL rt \<noteq> [] \<and> access \<noteq> [] \<and>
         cl_JoinPath lib (rt_serverURL rt) parts = Some url \<and> cl_ValidURL lib url \<longrightarrow>
         sent_by (drynn lib [] [] cmd) c2 = [\<lparr>hq_Method = verb, hq_URL = url, hq_Body = None,
           hq_Authorization = Some (''Bearer '' @ access), hq_ContentType = None\<rparr>]))"
proof -
  from drynn_login_None [OF assms(2)] obtain rt h1 endpoint resp body access refresh where
    login: "prepare lib sf cp (Login email password) (ct_host c) = (Inr rt, h1)"
      "cl_JoinPath lib (rt_serverURL rt) [''/api/v1/login''] = Some endpoint"
      "fst (cl_Send lib (login_request lib email password endpoint) (ct_net c)) = Some resp" "hp_StatusCode resp = 200" "hp_Body resp = Some body"
      "cl_Tokens lib body = Some (access, refresh)" and one: "ct_sent c1 = ct_sent c @ [login_request lib email password endpoint]"
    and st: "stored lib \<lparr>sd_ServerURL = rt_serverURL rt, sd_AccessToken = access, sd_RefreshToken = refresh\<rparr> (ct_host c1)" by blast
  let ?s = "\<lparr>sd_ServerURL = rt_serverURL rt, sd_AccessToken = access, sd_RefreshToken = refresh\<rparr>"
  have st2: "stored lib ?s (ct_host c2)" using st stored_same [OF later(1,2), of lib ?s] by simp
  have flag: "sf \<noteq> [] \<Longrightarrow> rt_serverURL rt = TrimRightSlash sf"
    using login(1) by (auto simp: prepare_def needs_server_def resolveServerURL_def Let_def split: sum.splits prod.splits if_splits)
  have sent: "sent_by (drynn lib sf cp (Login email password)) c = [login_request lib email password endpoint]"
    using one assms(2) by (simp add: sent_by_def)
  have valid: "session_valid ?s" if "utf8_valid (rt_serverURL rt)"
    using that login(6) assms(1) by (auto simp: session_valid_def session_codec_def)
  have games: "sent_by (drynn lib [] [] cmd) c2 = [] \<or> (\<exists>rq parts. sent_by (drynn lib [] [] cmd) c2 = [rq] \<and>
      hq_Authorization rq = Some (''Bearer '' @ access) \<and> cl_JoinPath lib (rt_serverURL rt) parts = Some (hq_URL rq))"
    if "game_command cmd" "utf8_valid (rt_serverURL rt)" for cmd
    using stored_game_command(1) [OF assms(1) valid [OF that(2)] st2 that(1), of "[]" "[]"] later(3) by (auto simp: authentic_def)
  have exact: "sent_by (drynn lib [] [] cmd) c2 = [\<lparr>hq_Method = verb, hq_URL = url, hq_Body = None,
      hq_Authorization = Some (''Bearer '' @ access), hq_ContentType = None\<rparr>]"
    if "utf8_valid (rt_serverURL rt)" "game_request cmd = Some (verb, parts)" "ho_faults (ct_host c2) = []" "rt_serverURL rt \<noteq> []"
      "access \<noteq> []" "cl_JoinPath lib (rt_serverURL rt) parts = Some url" "cl_ValidURL lib url" for cmd verb parts url
    using stored_game_request [OF assms(1) valid [OF that(1)] st2 later(3) that(3) _ _ that(2)] that(4-7) by simp
  show ?thesis using login flag sent games exact by blast
qed

text \<open>A network of one server, which answers every request with a token, and a codec that keeps the lengths in unary.\<close>

definition unary :: "nat \<Rightarrow> string" where
  "unary n = replicate n (CHR ''1'') @ ''.''"

definition count_unary :: "string \<Rightarrow> nat" where
  "count_unary d = length (takeWhile (\<lambda>c. c = CHR ''1'') d)"

lemma count_unary [simp]: "count_unary (unary n @ d) = n"
  by (induction n) (simp_all add: count_unary_def unary_def)

lemma length_unary [simp]: "length (unary n) = Suc n"
  by (simp add: unary_def)

definition sample_encode :: "sessionData \<Rightarrow> string" where
  "sample_encode s = unary (length (sd_ServerURL s)) @ unary (length (sd_AccessToken s)) @ sd_ServerURL s @ sd_AccessToken s @ sd_RefreshToken s"

definition sample_decode :: "string \<Rightarrow> sessionData option" where
  "sample_decode d = (let n = count_unary d; d1 = drop (Suc n) d; m = count_unary d1; d2 = drop (Suc m) d1;
     s = \<lparr>sd_ServerURL = take n d2, sd_AccessToken = take m (drop n d2), sd_RefreshToken = butlast (drop (n + m) d2)\<rparr> in
     if session_valid s then Some s else None)"

definition sample_clientLib :: "nat clientLib" where
  "sample_clientLib = \<lparr>
     cl_Send = (\<lambda>rq n. (Some \<lparr>hp_StatusCode = 200, hp_Status = ''200 OK'', hp_Body = Some ''A''\<rparr>, Suc n)),
     cl_ValidURL = (\<lambda>_. True), cl_JoinPath = (\<lambda>base parts. Some (base @ concat parts)), cl_LoginBody = (\<lambda>m p. m @ '':'' @ p),
     cl_ApiError = (\<lambda>_. None), cl_Tokens = (\<lambda>b. if utf8_valid b then Some (b, ''R'') else None), cl_Health = (\<lambda>_. None), cl_ValidJSON = (\<lambda>_. True),
     cl_DecodeSession = sample_decode, cl_EncodeSession = sample_encode, cl_UserConfigDir = Some ''cfg'',
     cl_Join = (\<lambda>ps. concat ps), cl_Codec = sample_codec, cl_Version = ''0.1.0''\<rparr>"

lemma sample_client_simps:
  "cl_Send sample_clientLib rq n = (Some \<lparr>hp_StatusCode = 200, hp_Status = ''200 OK'', hp_Body = Some ''A''\<rparr>, Suc n)"
  "cl_ValidURL sample_clientLib u" "cl_JoinPath sample_clientLib u parts = Some (u @ concat parts)"
  "cl_LoginBody sample_clientLib m p = m @ '':'' @ p" "cl_Tokens sample_clientLib b = (if utf8_valid b then Some (b, ''R'') else None)"
  "sessionPath sample_clientLib = Inr ''cfgdrynndrynn.json''" "cd_Dir (cl_Codec sample_clientLib) path = ''data''"
  "cl_EncodeSession sample_clientLib = sample_encode" "cl_DecodeSession sample_clientLib = sample_decode"
  by (simp_all add: sample_clientLib_def sessionPath_def sample_codec_def)

lemma ascii_valid: "utf8_valid ''A''" "utf8_valid ''R''" "utf8_valid ''http://h''"
  by code_simp+

lemma checked_Some: "(if P x then Some x else None) = Some s \<Longrightarrow> P s"
  by (simp split: if_splits)

lemma sample_session_codec: "session_codec sample_clientLib"
  unfolding session_codec_def
proof (intro conjI allI impI)
  fix s assume "session_valid s"
  then show "cl_DecodeSession sample_clientLib (cl_EncodeSession sample_clientLib s @ [CHR 0x0A]) = Some s"
    by (simp add: sample_client_simps sample_encode_def sample_decode_def Let_def session_valid_def)
next
  fix d s assume "cl_DecodeSession sample_clientLib d = Some s"
  then show "session_valid s" unfolding sample_client_simps sample_decode_def Let_def by (rule checked_Some)
next
  fix b access refresh assume "cl_Tokens sample_clientLib b = Some (access, refresh)"
  then show "utf8_valid access" "utf8_valid refresh" using ascii_valid by (auto simp: sample_client_simps split: if_splits)
qed

definition fresh_client :: "nat client" where
  "fresh_client = \<lparr>ct_host = \<lparr>ho_files = Map.empty, ho_dirs = {}, ho_env = (\<lambda>_. []), ho_faults = []\<rparr>, ct_net = 0, ct_sent = [], ct_out = []\<rparr>"

definition sample_session :: sessionData where
  "sample_session = \<lparr>sd_ServerURL = ''http://h'', sd_AccessToken = ''A'', sd_RefreshToken = ''R''\<rparr>"

definition after_login :: "nat client" where
  "after_login = \<lparr>ct_host = \<lparr>ho_files = [''cfgdrynndrynn.json'' \<mapsto> sample_encode sample_session @ [CHR 0x0A]], ho_dirs = {''data''},
     ho_env = (\<lambda>_. []), ho_faults = []\<rparr>, ct_net = 1,
     ct_sent = [login_request sample_clientLib ''a@b.io'' ''pw'' ''http://h/api/v1/login''], ct_out = [''logged in'']\<rparr>"

lemma sample_prepare:
  "prepare sample_clientLib ''http://h/'' [] (Login ''a@b.io'' ''pw'') (ct_host fresh_client) =
    (Inr \<lparr>rt_session = noSession, rt_serverURL = ''http://h''\<rparr>, ct_host fresh_client)"
proof -
  have url: "TrimRightSlash ''http://h/'' = ''http://h''" by code_simp
  have load: "loadSession sample_clientLib (ct_host fresh_client) = (Inr noSession, ct_host fresh_client)"
    by (simp add: loadSession_def sample_client_simps fresh_client_def ReadFile_def os_call_def)
  show ?thesis by (simp add: prepare_def needs_server_def load resolveServerURL_def Let_def url)
qed

lemma sample_login:
  "drynn sample_clientLib ''http://h/'' [] (Login ''a@b.io'' ''pw'') fresh_client = (None, after_login)"
proof -
  have dirs: "ancestors ''data'' = {''data''}" by code_simp
  have put: "(Map.empty(''cfgdrynndrynn.json.tmp'' \<mapsto> v))(''cfgdrynndrynn.json.tmp'' := None, ''cfgdrynndrynn.json'' \<mapsto> v) =
      [''cfgdrynndrynn.json'' \<mapsto> v]" for v :: string by auto
  have "saveSession sample_clientLib sample_session (ct_host fresh_client) = (None, ct_host after_login)"
    by (simp add: saveSession_def sample_client_simps replace_session_def fresh_client_def after_login_def MkdirAll_def os_call_def dirs
        WriteFile_def Rename_def put)
  then have save: "on_host (saveSession sample_clientLib sample_session) (fresh_client\<lparr>ct_net := 1,
      ct_sent := [login_request sample_clientLib ''a@b.io'' ''pw'' ''http://h/api/v1/login'']\<rparr>) =
      (None, after_login\<lparr>ct_out := []\<rparr>)"
    by (simp add: on_host_def fresh_client_def after_login_def)
  have fetch: "Fetch sample_clientLib (login_request sample_clientLib ''a@b.io'' ''pw'' ''http://h/api/v1/login'') fresh_client =
      (Some \<lparr>hp_StatusCode = 200, hp_Status = ''200 OK'', hp_Body = Some ''A''\<rparr>, fresh_client\<lparr>ct_net := 1,
      ct_sent := [login_request sample_clientLib ''a@b.io'' ''pw'' ''http://h/api/v1/login'']\<rparr>)"
    by (simp add: Fetch_def Do_def sample_client_simps fresh_client_def)
  show ?thesis
    using save fetch unfolding drynn_def sample_prepare
    by (simp add: command_def login_def sample_client_simps(3,5) ascii_valid login_request_def sample_session_def println_def after_login_def)
qed

theorem login_authenticates_witness:
  "drynn sample_clientLib ''http://h/'' [] (Login ''a@b.io'' ''pw'') fresh_client = (None, after_login) \<and>
   sent_by (drynn sample_clientLib ''http://h/'' [] (Login ''a@b.io'' ''pw'')) fresh_client =
     [login_request sample_clientLib ''a@b.io'' ''pw'' ''http://h/api/v1/login''] \<and>
   sent_by (drynn sample_clientLib [] [] GameList) after_login = [\<lparr>hq_Method = ''GET'', hq_URL = ''http://h/api/v1/games'',
     hq_Body = None, hq_Authorization = Some ''Bearer A'', hq_ContentType = None\<rparr>] \<and>
   sent_by (drynn sample_clientLib [] [] (GameDelete ''/7'')) after_login = [\<lparr>hq_Method = ''DELETE'', hq_URL = ''http://h/api/v1/games/7'',
     hq_Body = None, hq_Authorization = Some ''Bearer A'', hq_ContentType = None\<rparr>]"
proof -
  have env: "ho_env (ct_host after_login) ''DRYNN_SERVER_URL'' = []" and calm: "ho_faults (ct_host after_login) = []"
    by (simp_all add: after_login_def)
  have sent: "sent_by (drynn sample_clientLib ''http://h/'' [] (Login ''a@b.io'' ''pw'')) fresh_client =
     [login_request sample_clientLib ''a@b.io'' ''pw'' ''http://h/api/v1/login'']"
    unfolding sent_by_def sample_login snd_conv by (simp add: after_login_def fresh_client_def)
  from login_authenticates [OF sample_session_codec sample_login refl refl env] obtain rt h1 endpoint resp body access refresh where
    run: "prepare sample_clientLib ''http://h/'' [] (Login ''a@b.io'' ''pw'') (ct_host fresh_client) = (Inr rt, h1)"
      "fst (cl_Send sample_clientLib (login_request sample_clientLib ''a@b.io'' ''pw'' endpoint) (ct_net fresh_client)) = Some resp"
      "hp_Body resp = Some body" "cl_Tokens sample_clientLib body = Some (access, refresh)"
    and exact: "\<And>cmd verb parts url. utf8_valid (rt_serverURL rt) \<Longrightarrow> game_request cmd = Some (verb, parts) \<Longrightarrow>
      ho_faults (ct_host after_login) = [] \<Longrightarrow> rt_serverURL rt \<noteq> [] \<Longrightarrow> access \<noteq> [] \<Longrightarrow>
      cl_JoinPath sample_clientLib (rt_serverURL rt) parts = Some url \<Longrightarrow> cl_ValidURL sample_clientLib url \<Longrightarrow>
      sent_by (drynn sample_clientLib [] [] cmd) after_login = [\<lparr>hq_Method = verb, hq_URL = url, hq_Body = None,
        hq_Authorization = Some (''Bearer '' @ access), hq_ContentType = None\<rparr>]"
    by blast
  have rt: "rt_serverURL rt = ''http://h''" using run(1) by (auto simp: sample_prepare)
  have access: "access = ''A''" using run(2-4) by (auto simp: sample_client_simps split: if_splits)
  show ?thesis
    using sent sample_login exact [of GameList] exact [of "GameDelete ''/7''"] calm
    by (simp add: rt access ascii_valid game_request_def sample_client_simps)
qed

text \<open>C13.  After a logout that reports no error the client is silent: with the same session file, every game command is refused before
  anything is sent, whatever flags, environment and faults it meets, and the other commands send no token.\<close>

theorem logged_out_is_silent:
  assumes "session_codec lib" and "drynn lib sf cp Logout c = (None, c1)"
    and later: "ho_files (ct_host c2) = ho_files (ct_host c1)" "ho_dirs (ct_host c2) = ho_dirs (ct_host c1)"
  shows "(game_command cmd \<longrightarrow> sent_by (drynn lib sf2 cp2 cmd) c2 = [] \<and> (\<exists>err. fst (drynn lib sf2 cp2 cmd c2) = Some err)) \<and>
    (\<forall>rq \<in> set (sent_by (drynn lib sf2 cp2 cmd) c2). hq_Authorization rq = None)"
proof (cases "game_command cmd")
  case True
  have "logout lib c = (None, c1)" using assms(2) by (simp add: drynn_def prepare_def needs_server_def command_def)
  from logout_None [OF this] obtain s h1 where st: "stored lib (s\<lparr>sd_AccessToken := [], sd_RefreshToken := []\<rparr>) (ct_host c2)"
    and "loadSession lib (ct_host c) = (Inr s, h1)"
    using stored_same [OF later] by blast
  from loadSession_valid [OF assms(1) this(2)] have "session_valid (s\<lparr>sd_AccessToken := [], sd_RefreshToken := []\<rparr>)"
    by (simp add: session_valid_def)
  from stored_game_command(2) [OF assms(1) this st True, of sf2 cp2] show ?thesis by simp
next
  case False
  then show ?thesis using other_commands_send by blast
qed

theorem logged_out_is_silent_witness:
  "\<exists>c1. drynn sample_clientLib [] [] Logout after_login = (None, c1) \<and> sent_by (drynn sample_clientLib [] [] GameList) c1 = []"
proof -
  have dirs: "ancestors ''data'' = {''data''}" by code_simp
  have "stored sample_clientLib sample_session (ct_host after_login)"
    by (simp add: stored_def sample_client_simps after_login_def)
  moreover have "session_valid sample_session" by (simp add: session_valid_def sample_session_def ascii_valid)
  ultimately have
    load: "loadSession sample_clientLib (ct_host after_login) = (Inr sample_session, ct_host after_login)"
    using loadSession_stored [OF sample_session_codec]
    by (cases "loadSession sample_clientLib (ct_host after_login)") (auto simp: after_login_def)
  have "fst (saveSession sample_clientLib (sample_session\<lparr>sd_AccessToken := [], sd_RefreshToken := []\<rparr>) (ct_host after_login)) = None"
    by (simp add: saveSession_def sample_client_simps replace_session_def MkdirAll_def os_call_def WriteFile_def Rename_def after_login_def dirs)
  then obtain h where save: "saveSession sample_clientLib (sample_session\<lparr>sd_AccessToken := [], sd_RefreshToken := []\<rparr>) (ct_host after_login) = (None, h)"
    by (metis prod.collapse)
  let ?c = "println ''logged out'' (after_login\<lparr>ct_host := h\<rparr>)"
  have run: "drynn sample_clientLib [] [] Logout after_login = (None, ?c)"
    by (simp add: drynn_def prepare_def needs_server_def command_def logout_def on_host_def clearTokens_def load save)
  from logged_out_is_silent [OF sample_session_codec run refl refl, of GameList "[]" "[]"] run show ?thesis
    by (intro exI [of _ ?c]) (simp add: game_command_def)
qed

end
