(* ===== verification/Pages.thy ===== *)
theory Pages
  imports Server
begin

text \<open>
  internal/server/render.go: the renderer of the HTML pages.  It parses a template per page at start-up
  and looks the template up when a handler renders.  Parsing and executing templates
  (html/template) are parameters.  The main result: whatever a route renders, its template was
  parsed at start-up, and a template is only ever given the kind of data it was written for.
\<close>

section \<open>The renderer\<close>

record templateConfig =
  tc_layout :: string
  tc_page :: string

definition public_page :: "string \<Rightarrow> templateConfig" where
  "public_page name = \<lparr>tc_layout = ''web/templates/layouts/public.gohtml'', tc_page = ''web/templates/pages/'' @ name @ ''.gohtml''\<rparr>"

definition app_page :: "string \<Rightarrow> templateConfig" where
  "app_page name = \<lparr>tc_layout = ''web/templates/layouts/app.gohtml'', tc_page = ''web/templates/pages/'' @ name @ ''.gohtml''\<rparr>"

definition pages :: "(string \<times> templateConfig) list" where
  "pages =
     [(''public/home'', public_page ''public/home''),
      (''public/register'', public_page ''public/register''),
      (''public/signin'', public_page ''public/signin''),
      (''public/reset-password'', public_page ''public/reset_password''),
      (''public/forgot-password'', public_page ''public/forgot_password''),
      (''public/request-access'', public_page ''public/request_access''),
      (''app/profile'', app_page ''app/profile''),
      (''admin/users'', app_page ''admin/users''),
      (''admin/user-form'', app_page ''admin/user_form''),
      (''admin/invitations'', app_page ''admin/invitations''),
      (''admin/invite-form'', app_page ''admin/invite_form'')]"

text \<open>The functions of the templates that compute something.\<close>

fun template_hasRole :: "string list \<Rightarrow> string \<Rightarrow> bool" where
  "template_hasRole [] role = False"
| "template_hasRole (current # roles) role = (if current = role then True else template_hasRole roles role)"

definition template_expired :: "int \<Rightarrow> int \<Rightarrow> bool" where
  "template_expired clock t \<longleftrightarrow> clock > t"

text \<open>\<open>ParseFS\<close> takes the files (a pattern among them) and gives a template or fails.\<close>

record 't templateLib =
  tl_ParseFS :: "string \<Rightarrow> string list \<Rightarrow> 't option"
  tl_Execute :: "'t \<Rightarrow> string \<Rightarrow> viewData \<Rightarrow> string option"

type_synonym 't templateRenderer = "string \<rightharpoonup> 't"

fun parse_pages :: "'t templateLib \<Rightarrow> (string \<times> templateConfig) list \<Rightarrow> 't templateRenderer \<Rightarrow> goError + 't templateRenderer" where
  "parse_pages lib [] renderer = Inr renderer"
| "parse_pages lib ((name, cfg) # ps) renderer =
     (case tl_ParseFS lib name [tc_layout cfg, ''web/components/*.gohtml'', tc_page cfg] of
        None \<Rightarrow> Inl (Wrap (''parse template '' @ name) (ErrorString ''template''))
      | Some tmpl \<Rightarrow> parse_pages lib ps (renderer(name \<mapsto> tmpl)))"

text \<open>The pages are a map in the code: \<open>order\<close> is the order in which \<open>range\<close> visits them.\<close>

definition newTemplateRenderer :: "'t templateLib \<Rightarrow> ((string \<times> templateConfig) list \<Rightarrow> (string \<times> templateConfig) list)
    \<Rightarrow> goError + 't templateRenderer" where
  "newTemplateRenderer lib order = parse_pages lib (order pages) (\<lambda>_. None)"

definition Render :: "'t templateLib \<Rightarrow> 't templateRenderer \<Rightarrow> string \<Rightarrow> viewData \<Rightarrow> goError + string" where
  "Render lib renderer name data =
     (case renderer name of
        None \<Rightarrow> Inl (ErrorString (''template '' @ name @ '' not found''))
      | Some tmpl \<Rightarrow> (case tl_Execute lib tmpl ''base'' data of
            None \<Rightarrow> Inl (ErrorString ''execute template'')
          | Some html \<Rightarrow> Inr html))"

lemma template_hasRole_iff: "template_hasRole roles role \<longleftrightarrow> role \<in> set roles"
  by (induction roles) auto

text \<open>After parsing, the renderer has exactly the pages, each with the template of its own files.\<close>

definition parsed :: "'t templateLib \<Rightarrow> string \<Rightarrow> templateConfig \<Rightarrow> 't option" where
  "parsed lib name cfg = tl_ParseFS lib name [tc_layout cfg, ''web/components/*.gohtml'', tc_page cfg]"

lemma parse_pages_renderer:
  "parse_pages lib ps renderer = Inr r \<Longrightarrow> distinct (map fst ps) \<Longrightarrow>
     (\<forall>(name, cfg) \<in> set ps. parsed lib name cfg \<noteq> None \<and> r name = parsed lib name cfg) \<and>
     (\<forall>name. name \<notin> fst ` set ps \<longrightarrow> r name = renderer name)"
proof (induction lib ps renderer rule: parse_pages.induct)
  case (2 lib name cfg ps renderer)
  then obtain tmpl where t: "parsed lib name cfg = Some tmpl"
    and run: "parse_pages lib ps (renderer(name \<mapsto> tmpl)) = Inr r"
    by (auto simp: parsed_def split: option.splits)
  have d: "distinct (map fst ps)" "name \<notin> fst ` set ps" using "2.prems" by auto
  from "2.IH" [OF t [unfolded parsed_def] run d(1)] t d(2) show ?case by auto
qed simp

lemma pages_distinct: "distinct (map fst pages)"
  by (simp add: pages_def)

lemma newTemplateRenderer_pages:
  assumes "newTemplateRenderer lib order = Inr r" and "mset (order pages) = mset pages" and "name \<in> fst ` set pages"
  shows "\<exists>cfg tmpl. map_of pages name = Some cfg \<and> parsed lib name cfg = Some tmpl \<and> r name = Some tmpl"
proof -
  have d: "distinct (map fst (order pages))"
    using pages_distinct assms(2) by (metis distinct_map mset_eq_imp_distinct_iff mset_eq_setD)
  obtain cfg where c: "(name, cfg) \<in> set pages" using assms(3) by auto
  then have "(name, cfg) \<in> set (order pages)" using mset_eq_setD [OF assms(2)] by simp
  with parse_pages_renderer [OF assms(1) [unfolded newTemplateRenderer_def] d]
  have "parsed lib name cfg \<noteq> None" "r name = parsed lib name cfg" by auto
  moreover have "map_of pages name = Some cfg" using c pages_distinct by (rule map_of_is_SomeI [rotated])
  ultimately show ?thesis by auto
qed

section \<open>What the handlers render\<close>

text \<open>The template a view is written for.\<close>

fun page_of :: "viewData \<Rightarrow> string" where
  "page_of (HomeView _) = ''public/home''"
| "page_of (InviteRegisterView _ _ _ _ _) = ''public/register''"
| "page_of (SignInView _ _ _ _) = ''public/signin''"
| "page_of (ProfileView _ _ _ _) = ''app/profile''"
| "page_of (AdminUsersView _ _) = ''admin/users''"
| "page_of (AdminUserFormView _ _) = ''admin/user-form''"
| "page_of (AdminInvitationsView _ _ _ _) = ''admin/invitations''"
| "page_of (AdminInviteFormView _ _ _) = ''admin/invite-form''"
| "page_of (ResetPasswordView _ _ _ _) = ''public/reset-password''"
| "page_of (ForgotPasswordView _ _ _) = ''public/forgot-password''"
| "page_of (RequestAccessView _ _ _ _ _) = ''public/request-access''"

lemma page_of_known: "page_of v \<in> fst ` set pages"
  by (cases v) (simp_all add: pages_def)

definition typed_reply :: "reply \<Rightarrow> bool" where
  "typed_reply r = (case r of Rendered status name v \<Rightarrow> name = page_of v | _ \<Rightarrow> True)"

definition typed_handler :: "handler \<Rightarrow> bool" where
  "typed_handler h \<longleftrightarrow> (\<forall>c w. typed_reply (fst (fst (h c w))))"

named_theorems typed_intros "handlers that give a template the data it is written for"

lemma typed_reply_simps [simp]:
  "typed_reply (Plain resp)" "typed_reply (Rendered n name v) \<longleftrightarrow> name = page_of v" "typed_reply (LoginBody n l)"
  "typed_reply (GameBody n g)" "typed_reply (GamesBody n gs)" "typed_reply (CreatedBody n i)" "typed_reply (HealthBody n s t)"
  "typed_reply (NoContent n)" "typed_reply ErrNotFound"
  by (simp_all add: typed_reply_def)

lemma fst_answer [simp]: "fst (answer r w) = (r, [])"
  by (simp add: answer_def)

lemma typed_answer [typed_intros]: "typed_reply r \<Longrightarrow> typed_handler (\<lambda>c. answer r)"
  by (simp add: typed_handler_def)

lemma typed_session: "issueSession S u w = (p, w') \<Longrightarrow> typed_reply r \<Longrightarrow> typed_reply (fst (first_reply p r))"
  by (auto simp: issueSession_def first_reply_def split: prod.splits sum.splits)

lemmas typed_splits = prod.split sum.split option.split

lemma typed_public [typed_intros]:
  "typed_handler (ShowRegister S)" "typed_handler (RegisterPage S)" "typed_handler (ShowSignIn S)" "typed_handler (SignIn S)"
  "typed_handler (ShowRequestAccess S)" "typed_handler (RequestAccess S)" "typed_handler (ShowForgotPassword S)"
  "typed_handler (ForgotPassword S)" "typed_handler (ShowResetPassword S)" "typed_handler (ResetPasswordPage S)"
  "typed_handler (SignOut S)" "typed_handler (RefreshPage S)" "typed_handler ShowHome" "typed_handler ShowProfile"
  "typed_handler (UpdateProfilePage S)"
  unfolding typed_handler_def ShowRegister_def RegisterPage_def ShowSignIn_def SignIn_def ShowRequestAccess_def RequestAccess_def
    ShowForgotPassword_def ForgotPassword_def ShowResetPassword_def ResetPasswordPage_def SignOut_def RefreshPage_def ShowHome_def
    ShowProfile_def UpdateProfilePage_def Let_def
  by (auto split: typed_splits intro: typed_session)

lemma typed_admin [typed_intros]:
  "typed_handler ListUsersPage" "typed_handler ShowCreateUser" "typed_handler (CreateUserPage S)" "typed_handler (ShowEditUser S)"
  "typed_handler (UpdateUserPage S)" "typed_handler (SendPasswordReset S)" "typed_handler (DeleteUserPage S)"
  "typed_handler (ListInvitationsPage S)" "typed_handler ShowInviteForm" "typed_handler (SendInvitation S)"
  "typed_handler (ResendInvitationPage S)" "typed_handler (ArchiveInvitationPage S)"
  unfolding typed_handler_def ListUsersPage_def ShowCreateUser_def CreateUserPage_def ShowEditUser_def UpdateUserPage_def
    SendPasswordReset_def DeleteUserPage_def ListInvitationsPage_def ShowInviteForm_def SendInvitation_def
    ResendInvitationPage_def ArchiveInvitationPage_def create_form_view_def edit_form_view_def Let_def
  by (auto split: typed_splits)

lemma typed_api [typed_intros]:
  "typed_handler (Login S)" "typed_handler (Health S)" "typed_handler (apiCreateGame S)" "typed_handler (apiListGames S)"
  "typed_handler (apiGetGame S)" "typed_handler apiUpdateGame" "typed_handler apiDeleteGame" "typed_handler Healthz"
  "typed_handler Readyz"
  unfolding typed_handler_def Login_def Health_def apiCreateGame_def apiListGames_def apiGetGame_def apiUpdateGame_def
    apiDeleteGame_def Healthz_def Readyz_def
  by (auto split: typed_splits)

lemma typed_requireAuth [typed_intros]: "typed_handler h \<Longrightarrow> typed_handler (requireAuth S h)"
  unfolding typed_handler_def requireAuth_def by (auto split: prod.split passage.split) (metis fst_conv)

lemma typed_loadCurrentViewer [typed_intros]: "typed_handler h \<Longrightarrow> typed_handler (loadCurrentViewer S h)"
  unfolding typed_handler_def loadCurrentViewer_def by (auto split: typed_splits)

lemma typed_requireRole [typed_intros]: "typed_handler h \<Longrightarrow> typed_handler (requireRole role h)"
  unfolding typed_handler_def requireRole_def by (auto split: prod.split)

text \<open>A rate limiter lets a request through or answers it with a text.\<close>

definition limits_plainly :: "middleware \<Rightarrow> bool" where
  "limits_plainly rl \<longleftrightarrow> (\<forall>h c w. rl h c w = h c w \<or> (\<exists>resp. rl h c w = answer (Plain resp) w))"

lemma typed_limited: "limits_plainly rl \<Longrightarrow> typed_handler h \<Longrightarrow> typed_handler (rl h)"
  unfolding limits_plainly_def typed_handler_def by (metis fst_answer fst_conv typed_reply_simps(1))

lemma typed_routes:
  assumes rl: "limits_plainly rl"
  shows "list_all (\<lambda>(verb, path, h). typed_handler h) (registerRoutes S rl)"
  unfolding registerRoutes_def Let_def list.pred_inject prod.case
  by (intro conjI typed_intros typed_limited [OF rl]; simp)

text \<open>A template library for the witness: every page parses, and executing a template names the page.\<close>

definition sample_templates :: "string templateLib" where
  "sample_templates = \<lparr>tl_ParseFS = (\<lambda>name files. Some name), tl_Execute = (\<lambda>tmpl block v. Some tmpl)\<rparr>"

section \<open>Properties\<close>

text \<open>C29.  Once the renderer is made, every page any route renders has a template, parsed from the files listed for
  it, and gets the kind of view data it is written for: rendering never fails with an unknown
  template.\<close>

theorem routes_render_known_pages:
  assumes "newTemplateRenderer lib order = Inr renderer" and "mset (order pages) = mset pages"
    and "limits_plainly rl" and "(verb, path, h) \<in> set (registerRoutes S rl)"
    and "h c w = ((Rendered status name v, cookies), w')"
  shows "name = page_of v \<and>
    (\<exists>cfg tmpl. map_of pages name = Some cfg \<and> parsed lib name cfg = Some tmpl \<and>
      Render lib renderer name v = (case tl_Execute lib tmpl ''base'' v of
        None \<Rightarrow> Inl (ErrorString ''execute template'') | Some html \<Rightarrow> Inr html))"
proof -
  have "typed_handler h" using typed_routes [OF assms(3), of S] assms(4) by (auto simp: list_all_iff)
  then have "typed_reply (fst (fst (h c w)))" by (simp add: typed_handler_def)
  then have n: "name = page_of v" by (simp add: assms(5))
  with newTemplateRenderer_pages [OF assms(1,2) page_of_known [of v]] show ?thesis by (auto simp: Render_def)
qed

theorem routes_render_known_pages_witness:
  "\<exists>renderer. newTemplateRenderer sample_templates rev = Inr renderer \<and>
    (\<exists>cfg tmpl. map_of pages ''public/home'' = Some cfg \<and> parsed sample_templates ''public/home'' cfg = Some tmpl)"
proof -
  obtain renderer where r: "newTemplateRenderer sample_templates rev = Inr renderer"
    by (simp add: newTemplateRenderer_def pages_def sample_templates_def)
  have rl: "limits_plainly (\<lambda>h. h)" by (simp add: limits_plainly_def)
  have route: "(''GET'', ''/'', ShowHome) \<in> set (registerRoutes sample_site (\<lambda>h. h))"
    by (simp add: registerRoutes_def Let_def)
  have run: "ShowHome (sample_context []) admin_world =
      ((Rendered 200 ''public/home'' (HomeView (baseView (sample_context []) ''Drynn'')), []), admin_world)"
    by (simp add: ShowHome_def answer_def)
  from routes_render_known_pages [OF r _ rl route run] r show ?thesis by auto
qed

end
