(* ===== verification/Startup.thy ===== *)
theory Startup
  imports AdminTool Middleware Pages
begin

text \<open>
  How the programs start: the environment files (internal/config/dotenv.go), the server
  (\<open>server.New\<close> of internal/server/server.go and cmd/server/main.go) and the mail tool (cmd/email/main.go).
  godotenv's parser of a file and the flag packages are parameters.  The main results: which
  of the environment, the files and their order decides a variable; a server that starts has signing keys,
  its pages and the settings of its configuration, and has changed nothing else; the mail
  tool sends the message it was given or nothing.
\<close>

section \<open>Environment files\<close>

text \<open>The environment of the process; \<open>Getenv\<close> does not tell an empty variable from a missing one.\<close>

type_synonym environment = "string \<rightharpoonup> string"

definition Getenv :: "environment \<Rightarrow> string \<Rightarrow> string" where
  "Getenv m key = (case m key of None \<Rightarrow> [] | Some v \<Rightarrow> v)"

text \<open>The parser of a file, as godotenv has it.\<close>

type_synonym dotenvParser = "string \<Rightarrow> environment option"

text \<open>\<open>godotenv.Load\<close> reads and parses a file and sets the variables that are not set yet.\<close>

definition godotenv_Load :: "dotenvParser \<Rightarrow> string \<Rightarrow> environment \<Rightarrow> string host \<Rightarrow> goError option \<times> environment \<times> string host" where
  "godotenv_Load parse path m h =
     (case ReadFile path h of
        (Inl e, h1) \<Rightarrow> (Some (os_error e), m, h1)
      | (Inr data, h1) \<Rightarrow>
          (case parse data of
             None \<Rightarrow> (Some (ErrorString ''dotenv''), m, h1)
           | Some vars \<Rightarrow> (None, vars ++ m, h1)))"

definition isfile :: "string \<Rightarrow> string host \<Rightarrow> bool \<times> string host" where
  "isfile path h = (case Stat path h of (Inr RegularFile, h1) \<Rightarrow> (True, h1) | (_, h1) \<Rightarrow> (False, h1))"

fun dotfiles_loop :: "dotenvParser \<Rightarrow> string \<Rightarrow> string list \<Rightarrow> environment \<Rightarrow> string host \<Rightarrow> goError option \<times> environment \<times> string host" where
  "dotfiles_loop parse env [] m h = (None, m, h)"
| "dotfiles_loop parse env (path # paths) m h =
     (if env = ''test'' \<and> path = ''.env.local'' then dotfiles_loop parse env paths m h
      else case isfile path h of
        (False, h1) \<Rightarrow> dotfiles_loop parse env paths m h1
      | (True, h1) \<Rightarrow>
          (case godotenv_Load parse path m h1 of
             (Some err, m1, h2) \<Rightarrow> (Some (Wrap path err), m1, h2)
           | (None, m1, h2) \<Rightarrow> dotfiles_loop parse env paths m1 h2))"

definition LoadDotfiles :: "dotenvParser \<Rightarrow> string \<Rightarrow> environment \<Rightarrow> string host \<Rightarrow> goError option \<times> environment \<times> string host" where
  "LoadDotfiles parse env m h =
     (if env = [] then (Some (ErrorString ''missing environment''), m, h)
      else if env \<notin> {''development'', ''test'', ''production''} then (Some (ErrorString ''unknown environment''), m, h)
      else dotfiles_loop parse env [''.env.'' @ env @ ''.local'', ''.env.local'', ''.env.'' @ env, ''.env''] m h)"

section \<open>The server\<close>

text \<open>What the program is linked with; \<open>su_libs\<close> is the site before the configuration is filled in.\<close>

record 't startupLib =
  su_dl :: dbLib
  su_templates :: "'t templateLib"
  su_order :: "(string \<times> templateConfig) list \<Rightarrow> (string \<times> templateConfig) list"
  su_libs :: site
  su_Parse :: dotenvParser

record ('t, 'l) app =
  ap_cfg :: config
  ap_site :: site
  ap_renderer :: "'t templateRenderer"
  ap_limiter :: "'l rateLimiter"

definition configured_site :: "'t startupLib \<Rightarrow> config \<Rightarrow> site" where
  "configured_site lib cfg = (su_libs lib)\<lparr>
     st_Ext := dl_ext (su_dl lib),
     st_Manager := \<lparr>mg_accessTTL = cf_JWTAccessTTL cfg, mg_refreshTTL = cf_JWTRefreshTTL cfg, mg_cookieSecure = cf_CookieSecure cfg\<rparr>,
     st_Mailgun := cf_Mailgun cfg,
     st_BaseURL := cf_BaseURL cfg,
     st_AdminEmail := cf_AdminContactEmail cfg,
     st_RequestAccessEnabled := (cf_RequestAccessEnabled cfg \<and> cf_AdminContactEmail cfg \<noteq> []),
     st_Version := dl_version (su_dl lib)\<rparr>"

definition server_New :: "'t startupLib \<Rightarrow> config \<Rightarrow> ('t, 'l) app svc" where
  "server_New lib cfg =
     sbind (if dl_pool (su_dl lib) (cf_DatabaseURL cfg) then sret ()
            else sfail (Wrap ''connect database'' (ErrorString ''invalid URL''))) (\<lambda>_.
     sbind (on_error ping (Wrap ''ping database'')) (\<lambda>_.
     sbind (on_error (EnsureReady (dl_ext (su_dl lib))) (Wrap ''jwt signing keys'')) (\<lambda>_.
     sbind (of_sum (newTemplateRenderer (su_templates lib) (su_order lib))) (\<lambda>renderer.
     sbind now (\<lambda>t.
     sret \<lparr>ap_cfg = cfg, ap_site = configured_site lib cfg, ap_renderer = renderer,
           ap_limiter = NewRateLimiter DefaultAuthRate DefaultAuthBurst t\<rparr>)))))"

text \<open>The routes the server registers, for a state of its rate limiter.\<close>

definition app_routes :: "'l limiterlib \<Rightarrow> ('t, 'l) app \<Rightarrow> (string \<times> string \<times> handler) list" where
  "app_routes lib a = registerRoutes (ap_site a) (\<lambda>h c w. fst (RateLimit lib (ap_limiter a) h c w))"

definition skipPaths :: "middleware \<Rightarrow> string list \<Rightarrow> middleware" where
  "skipPaths mw paths nxt c w =
     (if rq_Path (wr_Session (cx_Request c)) \<in> set paths then nxt c w else mw nxt c w)"

datatype ('t, 'l) serverResult =
    ServerVersion string
  | Serving "('t, 'l) app"
  | ServerFatal goError

definition environment_name :: "environment \<Rightarrow> string" where
  "environment_name m = (if Getenv m ''DRYNN_ENV'' = [] then ''development'' else Getenv m ''DRYNN_ENV'')"

text \<open>The flag \<open>-config\<close> is \<open>None\<close> when it is not given; its default is read after the environment files.\<close>

definition flag_or_default :: "string option \<Rightarrow> (string \<Rightarrow> string) \<Rightarrow> string" where
  "flag_or_default flag env = (case flag of None \<Rightarrow> DefaultPath env | Some p \<Rightarrow> p)"

definition server_main :: "'t startupLib \<Rightarrow> string list \<Rightarrow> string option \<Rightarrow> environment \<Rightarrow> string host \<Rightarrow> world
    \<Rightarrow> ('t, 'l) serverResult \<times> environment \<times> string host \<times> world" where
  "server_main lib args configFlag m h w =
     (if args \<noteq> [] \<and> hd args = ''version'' then (ServerVersion (dl_version (su_dl lib)), m, h, w)
      else case LoadDotfiles (su_Parse lib) (environment_name m) m h of
        (Some err, m1, h1) \<Rightarrow> (ServerFatal (Wrap ''dotenv'' err), m1, h1, w)
      | (None, m1, h1) \<Rightarrow>
          (let h1 = h1\<lparr>ho_env := Getenv m1\<rparr> in
           case LoadPath (dl_codec (su_dl lib)) (flag_or_default configFlag (ho_env h1)) h1 of
             (Inl err, h2) \<Rightarrow> (ServerFatal err, m1, h2, w)
           | (Inr cfg, h2) \<Rightarrow>
               (case server_New lib cfg w of
                  (Inl err, w1) \<Rightarrow> (ServerFatal err, m1, h2, w1)
                | (Inr a, w1) \<Rightarrow> (Serving a, m1, h2, w1))))"

section \<open>The mail tool\<close>

record sendFlags =
  sf_Config :: "string option"
  sf_To :: string
  sf_Subject :: string
  sf_Body :: string
  sf_BodyFile :: string

definition send_body :: "sendFlags \<Rightarrow> string host \<Rightarrow> (goError + string) \<times> string host" where
  "send_body fl h =
     (if sf_BodyFile fl \<noteq> [] then
        (case ReadFile (sf_BodyFile fl) h of
           (Inl e, h1) \<Rightarrow> (Inl (Wrap ''read body file'' (os_error e)), h1)
         | (Inr data, h1) \<Rightarrow> (Inr data, h1))
      else (Inr (sf_Body fl), h))"

definition runSend :: "codec \<Rightarrow> sendFlags \<Rightarrow> string host \<Rightarrow> world \<Rightarrow> goError option \<times> string host \<times> world" where
  "runSend lib fl h w =
     (if TrimSpace (sf_To fl) = [] then (Some (ErrorString ''to is required''), h, w)
      else if TrimSpace (sf_Subject fl) = [] then (Some (ErrorString ''subject is required''), h, w)
      else if sf_Body fl \<noteq> [] \<and> sf_BodyFile fl \<noteq> [] then (Some (ErrorString ''specify only one of -body or -body-file''), h, w)
      else case send_body fl h of
        (Inl err, h1) \<Rightarrow> (Some err, h1, w)
      | (Inr htmlBody, h1) \<Rightarrow>
          if TrimSpace htmlBody = [] then (Some (ErrorString ''body is required (use -body or -body-file)''), h1, w)
          else (case LoadPath lib (flag_or_default (sf_Config fl) (ho_env h)) h1 of
             (Inl err, h2) \<Rightarrow> (Some err, h2, w)
           | (Inr cfg, h2) \<Rightarrow>
               if \<not> Configured (cf_Mailgun cfg) then (Some (ErrorString (''mailgun is not configured in '' @ cf_ConfigPath cfg)), h2, w)
               else (case Send (cf_Mailgun cfg) (sf_To fl) (sf_Subject fl) htmlBody w of
                  (Inl err, w1) \<Rightarrow> (Some (Wrap ''send email'' err), h2, w1)
                | (Inr _, w1) \<Rightarrow> (None, h2, w1))))"

datatype emailCommand = NoCommand | SendCommand sendFlags | EmailVersion | EmailHelp | UnknownCommand string

datatype emailExit = Usage | Sent | EmailPrinted string | Fatal goError

definition email_main :: "'t startupLib \<Rightarrow> emailCommand \<Rightarrow> environment \<Rightarrow> string host \<Rightarrow> world
    \<Rightarrow> emailExit \<times> environment \<times> string host \<times> world" where
  "email_main lib cmd m h w =
     (case LoadDotfiles (su_Parse lib) (environment_name m) m h of
        (Some err, m1, h1) \<Rightarrow> (Fatal (Wrap ''dotenv'' err), m1, h1, w)
      | (None, m1, h1) \<Rightarrow>
          (let h1 = h1\<lparr>ho_env := Getenv m1\<rparr> in
           case cmd of
             NoCommand \<Rightarrow> (Usage, m1, h1, w)
           | EmailHelp \<Rightarrow> (Usage, m1, h1, w)
           | EmailVersion \<Rightarrow> (EmailPrinted (dl_version (su_dl lib)), m1, h1, w)
           | UnknownCommand name \<Rightarrow> (Fatal (ErrorString (''unknown command '' @ name)), m1, h1, w)
           | SendCommand fl \<Rightarrow>
               (case runSend (dl_codec (su_dl lib)) fl h1 w of
                  (None, h2, w1) \<Rightarrow> (Sent, m1, h2, w1)
                | (Some err, h2, w1) \<Rightarrow> (Fatal err, m1, h2, w1))))"

section \<open>What the environment files decide\<close>

lemma isfile_same: "isfile path h = (b, h') \<Longrightarrow> ho_files h' = ho_files h \<and> ho_env h' = ho_env h"
  by (auto simp: isfile_def split: prod.splits sum.splits fileInfo.splits dest!: Stat_same)

lemma godotenv_Load_same:
  assumes "godotenv_Load parse path m h = (r, m', h')"
  shows "m \<subseteq>\<^sub>m m' \<and> ho_files h' = ho_files h \<and> ho_env h' = ho_env h"
  using assms by (auto simp: godotenv_Load_def split: prod.splits sum.splits option.splits dest!: ReadFile_same)

lemma dotfiles_loop_step:
  assumes "\<not> (env = ''test'' \<and> path = ''.env.local'')"
  shows "dotfiles_loop parse env (path # paths) m h =
    (case isfile path h of
        (False, h1) \<Rightarrow> dotfiles_loop parse env paths m h1
      | (True, h1) \<Rightarrow>
          (case godotenv_Load parse path m h1 of
             (Some err, m1, h2) \<Rightarrow> (Some (Wrap path err), m1, h2)
           | (None, m1, h2) \<Rightarrow> dotfiles_loop parse env paths m1 h2))"
  unfolding dotfiles_loop.simps if_not_P [OF assms] ..

lemma dotfiles_loop_same:
  "dotfiles_loop parse env paths m h = (r, m', h') \<Longrightarrow> m \<subseteq>\<^sub>m m' \<and> ho_files h' = ho_files h \<and> ho_env h' = ho_env h"
proof (induction paths arbitrary: m h)
  case (Cons path paths)
  show ?case
  proof (cases "env = ''test'' \<and> path = ''.env.local''")
    case True
    with Cons show ?thesis by simp
  next
    case False
    obtain b h1 where f: "isfile path h = (b, h1)" by force
    obtain e m1 h2 where g: "godotenv_Load parse path m h1 = (e, m1, h2)" by (metis surj_pair)
    note run = Cons.prems [unfolded dotfiles_loop_step [OF False] f prod.case g]
    have "b \<and> (\<exists>err. e = Some err) \<and> m' = m1 \<and> h' = h2 \<or> b \<and> dotfiles_loop parse env paths m1 h2 = (r, m', h') \<or>
        \<not> b \<and> dotfiles_loop parse env paths m h1 = (r, m', h')"
      using run by (cases b; cases e) auto
    with isfile_same [OF f] godotenv_Load_same [OF g] show ?thesis by (auto dest!: Cons.IH intro: map_le_trans)
  qed
qed simp

text \<open>The variables a file defines, and whether it can be read.\<close>

definition dot_values :: "dotenvParser \<Rightarrow> string host \<Rightarrow> string \<Rightarrow> environment" where
  "dot_values parse h path =
     (if path \<in> ho_dirs h then Map.empty
      else case ho_files h path of None \<Rightarrow> Map.empty | Some data \<Rightarrow> (case parse data of None \<Rightarrow> Map.empty | Some vars \<Rightarrow> vars))"

definition dot_broken :: "dotenvParser \<Rightarrow> string host \<Rightarrow> string \<Rightarrow> bool" where
  "dot_broken parse h path =
     (path \<notin> ho_dirs h \<and> (case ho_files h path of None \<Rightarrow> False | Some data \<Rightarrow> parse data = None))"

definition dotfiles :: "string \<Rightarrow> string list" where
  "dotfiles env = filter (\<lambda>path. \<not> (env = ''test'' \<and> path = ''.env.local''))
     [''.env.'' @ env @ ''.local'', ''.env.local'', ''.env.'' @ env, ''.env'']"

lemma dotfiles_step:
  assumes "ho_faults h = []" and "\<not> (env = ''test'' \<and> path = ''.env.local'')"
  shows "dotfiles_loop parse env (path # paths) m h =
    (if dot_broken parse h path then (Some (Wrap path (ErrorString ''dotenv'')), m, h)
     else dotfiles_loop parse env paths (dot_values parse h path ++ m) h)"
  unfolding dotfiles_loop_step [OF assms(2)]
  by (auto simp: dot_broken_def dot_values_def isfile_def godotenv_Load_def calm_os [OF assms(1)] split: option.split)

lemma dotfiles_loop_calm:
  assumes "ho_faults h = []"
  shows "dotfiles_loop parse env paths m h =
    (let ps = filter (\<lambda>path. \<not> (env = ''test'' \<and> path = ''.env.local'')) paths;
         good = takeWhile (\<lambda>path. \<not> dot_broken parse h path) ps
     in (case dropWhile (\<lambda>path. \<not> dot_broken parse h path) ps of [] \<Rightarrow> None | path # _ \<Rightarrow> Some (Wrap path (ErrorString ''dotenv'')),
         foldl (\<lambda>m path. dot_values parse h path ++ m) m good, h))"
proof (induction paths arbitrary: m)
  case (Cons path paths)
  show ?case
  proof (cases "env = ''test'' \<and> path = ''.env.local''")
    case True
    with Cons show ?thesis by (simp add: Let_def)
  next
    case False
    with Cons show ?thesis by (subst dotfiles_step [OF assms False]) (simp add: Let_def)
  qed
qed simp

lemma LoadDotfiles_calm:
  assumes "ho_faults h = []" and "env \<in> {''development'', ''test'', ''production''}" and "\<forall>path \<in> set (dotfiles env). \<not> dot_broken parse h path"
  shows "LoadDotfiles parse env m h = (None, foldl (\<lambda>m path. dot_values parse h path ++ m) m (dotfiles env), h)"
proof -
  have "takeWhile (\<lambda>path. \<not> dot_broken parse h path) (dotfiles env) = dotfiles env"
    "dropWhile (\<lambda>path. \<not> dot_broken parse h path) (dotfiles env) = []"
    using assms(3) by (simp_all add: takeWhile_eq_all_conv dropWhile_eq_Nil_conv)
  moreover have "env \<noteq> []" using assms(2) by auto
  ultimately show ?thesis using assms(2)
    unfolding LoadDotfiles_def dotfiles_loop_calm [OF assms(1)] Let_def dotfiles_def [symmetric] by (simp only: list.case if_True if_False)
      auto
qed

text \<open>The value of the first map that has one.\<close>

fun first_value :: "environment list \<Rightarrow> string \<Rightarrow> string option" where
  "first_value [] key = None"
| "first_value (m # ms) key = (case m key of None \<Rightarrow> first_value ms key | Some v \<Rightarrow> Some v)"

lemma foldl_first_value:
  "foldl (\<lambda>m path. f path ++ m) m paths key = first_value (m # map f paths) key"
proof (induction paths arbitrary: m)
  case (Cons path paths)
  then show ?case by (simp add: map_add_def split: option.split)
qed (simp split: option.split)

lemma LoadDotfiles_same:
  assumes "LoadDotfiles parse env m h = (r, m', h')"
  shows "m \<subseteq>\<^sub>m m' \<and> ho_files h' = ho_files h \<and> ho_env h' = ho_env h"
proof -
  have "m' = m \<and> h' = h \<or> (\<exists>paths. dotfiles_loop parse env paths m h = (r, m', h'))"
    using assms unfolding LoadDotfiles_def by (metis prod.inject)
  then show ?thesis using dotfiles_loop_same by auto
qed

section \<open>What a starting server does\<close>

lemma ping_same:
  assumes "on_error ping f w = (r, w')"
  shows "steps e mail w w' \<and> w_db w' = w_db w \<and> w_fresh w' = w_fresh w \<and> w_now w' = w_now w \<and> (w_faults w = [] \<longrightarrow> r = Inr () \<and> w' = w)"
proof -
  have "steps e mail w w'" using ping_steps [of e mail w f] assms by simp
  moreover have "w_db w' = w_db w \<and> w_fresh w' = w_fresh w \<and> w_now w' = w_now w"
    using assms by (cases r) (auto simp: on_error_Inr on_error_Inl ping_def dest: external_skip_db)
  moreover have "w_faults w = [] \<Longrightarrow> r = Inr () \<and> w' = w"
    using assms by (auto simp: on_error_def ping_def external_def)
  ultimately show ?thesis by blast
qed

definition keys_ready :: "world \<Rightarrow> world \<Rightarrow> bool" where
  "keys_ready w w' \<longleftrightarrow> (\<forall>tt \<in> {TokenTypeAccess, TokenTypeRefresh}. \<exists>k. active_of tt (db_keys (w_db w')) = [k] \<and>
     (active_of tt (db_keys (w_db w)) = [k] \<or> active_of tt (db_keys (w_db w)) = []))"

lemma server_New_starts:
  fixes lib :: "'t startupLib"
  assumes ok: "keys_ok (w_db w) (w_fresh w)"
    and run: "(server_New lib cfg :: ('t, 'l) app svc) w = (r, w')"
  shows "steps (dl_ext (su_dl lib)) mail w w' \<and> all_but_keys (w_db w') = all_but_keys (w_db w) \<and>
    (\<forall>a. r = Inr a \<longrightarrow> keys_ready w w' \<and> ap_cfg a = cfg \<and> ap_site a = configured_site lib cfg \<and>
       newTemplateRenderer (su_templates lib) (su_order lib) = Inr (ap_renderer a) \<and> rl_visitors (ap_limiter a) = Map.empty) \<and>
    (w_faults w = [] \<and> dl_pool (su_dl lib) (cf_DatabaseURL cfg) \<and> (\<exists>rd. newTemplateRenderer (su_templates lib) (su_order lib) = Inr rd) \<longrightarrow>
       (\<exists>a. r = Inr a))"
proof (cases "dl_pool (su_dl lib) (cf_DatabaseURL cfg)")
  case False
  with run show ?thesis by (auto simp: server_New_def sbind_def sfail_def)
next
  case True
  let ?e = "dl_ext (su_dl lib)"
  obtain r1 w1 where p: "on_error ping (Wrap ''ping database'') w = (r1, w1)" by force
  note s1 = ping_same [OF p, of ?e mail]
  show ?thesis
  proof (cases r1)
    case (Inl err)
    with True run p s1 show ?thesis by (auto simp: server_New_def sbind_def sret_def)
  next
    case (Inr u)
    obtain r2 w2 where k: "EnsureReady ?e w1 = (r2, w2)" by force
    have "serves ?e mail w1 w2" using serves.ensure_ready [of ?e mail w1] k by simp
    then have s2: "steps ?e mail w w2" using s1 by (meson rtranclp.rtrancl_into_rtrancl)
    have f2: "all_but_keys (w_db w2) = all_but_keys (w_db w)" using framesD [OF frames_EnsureReady k] s1 by simp
    have ok1: "keys_ok (w_db w1) (w_fresh w1)" using ok s1 by simp
    note ready = EnsureReady_correct [OF ok1, of ?e]
    show ?thesis
    proof (cases r2)
      case (Inl err)
      then have "w_faults w1 \<noteq> []" using ready k by auto
      with Inl Inr True run p k s1 s2 f2 show ?thesis by (auto simp: server_New_def sbind_def sret_def on_error_def)
    next
      case ready2: (Inr u2)
      have kr: "keys_ready w w2" using conjunct1 [OF ready] k ready2 s1 by (simp add: keys_ready_def)
      have w': "w' = w2" and r: "r = (case newTemplateRenderer (su_templates lib) (su_order lib) of Inl err \<Rightarrow> Inl err
          | Inr rd \<Rightarrow> Inr \<lparr>ap_cfg = cfg, ap_site = configured_site lib cfg, ap_renderer = rd,
              ap_limiter = NewRateLimiter DefaultAuthRate DefaultAuthBurst (w_now w2)\<rparr>)"
        using True run p Inr k ready2
        by (auto simp: server_New_def sbind_def sret_def on_error_def of_sum_def now_def split: sum.splits)
      show ?thesis unfolding w' r using s2 f2 kr by (auto simp: NewRateLimiter_def split: sum.splits)
    qed
  qed
qed

lemma server_main_cases:
  assumes "server_main lib args flag m h w = (res, m', h', w')"
  obtains (no_app) "\<forall>a. res \<noteq> Serving a" "w' = w" "ho_files h' = ho_files h"
  | (new) h1 h2 cfg r where "LoadDotfiles (su_Parse lib) (environment_name m) m h = (None, m', h1)"
      "LoadPath (dl_codec (su_dl lib)) (flag_or_default flag (Getenv m')) (h1\<lparr>ho_env := Getenv m'\<rparr>) = (Inr cfg, h2)"
      "server_New lib cfg w = (r, w')" "res = (case r of Inl err \<Rightarrow> ServerFatal err | Inr a \<Rightarrow> Serving a)" "ho_files h' = ho_files h"
proof (cases "args \<noteq> [] \<and> hd args = ''version''")
  case True
  with assms no_app show ?thesis by (auto simp: server_main_def)
next
  case False
  obtain e m1 h1 where d: "LoadDotfiles (su_Parse lib) (environment_name m) m h = (e, m1, h1)" by (metis surj_pair)
  note files = LoadDotfiles_same [OF d]
  show ?thesis
  proof (cases e)
    case (Some err)
    with False assms d files no_app show ?thesis by (auto simp: server_main_def)
  next
    case None
    obtain rc h2 where l: "LoadPath (dl_codec (su_dl lib)) (flag_or_default flag (Getenv m1)) (h1\<lparr>ho_env := Getenv m1\<rparr>) = (rc, h2)"
      by force
    note files2 = LoadPath_reads [OF l]
    show ?thesis
    proof (cases rc)
      case (Inl err)
      with False None assms d l files files2 no_app show ?thesis by (auto simp: server_main_def Let_def)
    next
      case (Inr cfg)
      obtain r w1 where n: "(server_New lib cfg :: ('a, 'b) app svc) w = (r, w1)" by force
      have "res = (case r of Inl err \<Rightarrow> ServerFatal err | Inr a \<Rightarrow> Serving a)" "m' = m1" "h' = h2" "w' = w1"
        using False None assms d l n Inr by (auto simp: server_main_def Let_def split: sum.splits)
      with d None l n Inr files files2 new show ?thesis by auto
    qed
  qed
qed

section \<open>Sending a message\<close>

lemma Send_message:
  assumes "Send cfg to subject body w = (r, w')"
  shows "w_db w' = w_db w \<and>
    (w_outbox w' = w_outbox w @ [\<lparr>mail_from = from_header cfg, mail_to = to, mail_subject = subject, mail_body = body\<rparr>] \<and>
       (r = Inr () \<or> r = Inl (Wrap ''mailgun send'' ConnError) \<and> w_faults w = ReplyLost # w_faults w') \<or>
     w_outbox w' = w_outbox w \<and> (\<exists>err. r = Inl err))"
    and "w_faults w = [] \<Longrightarrow> r = Inr ()"
  using assms by (auto simp: Send_def on_error_def external_def split: list.splits fault.splits)

text \<open>The message \<open>runSend\<close> is asked to send.\<close>

definition wanted_body :: "sendFlags \<Rightarrow> string host \<Rightarrow> string \<Rightarrow> bool" where
  "wanted_body fl h body \<longleftrightarrow>
     (if sf_BodyFile fl = [] then body = sf_Body fl else sf_Body fl = [] \<and> ho_files h (sf_BodyFile fl) = Some body)"

lemma ReadFile_Inr: "ReadFile p h = (Inr c, h') \<Longrightarrow> ho_files h p = Some c"
  by (auto simp: ReadFile_def os_call_def split: list.splits io_fault.splits if_splits option.splits)

lemma send_body_Inr:
  assumes "send_body fl h = (r, h')"
  shows "ho_files h' = ho_files h \<and> ho_env h' = ho_env h \<and>
    (\<forall>body. r = Inr body \<and> \<not> (sf_Body fl \<noteq> [] \<and> sf_BodyFile fl \<noteq> []) \<longrightarrow> wanted_body fl h body)"
  using assms by (auto simp: send_body_def wanted_body_def split: if_splits prod.splits sum.splits dest: ReadFile_same ReadFile_Inr)

lemma runSend_cases:
  assumes "runSend lib fl h w = (r, h', w')"
  obtains (refused) err where "r = Some err" "w' = w" "ho_files h' = ho_files h"
  | (tried) body cfg h1 rs where "TrimSpace (sf_To fl) \<noteq> []" "TrimSpace (sf_Subject fl) \<noteq> []" "TrimSpace body \<noteq> []" "wanted_body fl h body"
      "LoadPath lib (flag_or_default (sf_Config fl) (ho_env h)) h1 = (Inr cfg, h')" "ho_files h1 = ho_files h" "ho_files h' = ho_files h"
      "Configured (cf_Mailgun cfg)"
      "Send (cf_Mailgun cfg) (sf_To fl) (sf_Subject fl) body w = (rs, w')"
      "r = (case rs of Inl err \<Rightarrow> Some (Wrap ''send email'' err) | Inr _ \<Rightarrow> None)"
proof (cases "TrimSpace (sf_To fl) = [] \<or> TrimSpace (sf_Subject fl) = [] \<or> sf_Body fl \<noteq> [] \<and> sf_BodyFile fl \<noteq> []")
  case True
  with assms refused show ?thesis by (auto simp: runSend_def split: if_splits)
next
  case False
  obtain rb h1 where b: "send_body fl h = (rb, h1)" by force
  note body = send_body_Inr [OF b]
  show ?thesis
  proof (cases rb)
    case (Inl err)
    with False assms b body refused show ?thesis by (auto simp: runSend_def)
  next
    case (Inr htmlBody)
    obtain rc h2 where l: "LoadPath lib (flag_or_default (sf_Config fl) (ho_env h)) h1 = (rc, h2)" by force
    note files = LoadPath_reads [OF l]
    show ?thesis
    proof (cases "TrimSpace htmlBody = [] \<or> (\<exists>err. rc = Inl err) \<or> (\<exists>cfg. rc = Inr cfg \<and> \<not> Configured (cf_Mailgun cfg))")
      case True
      with False assms b Inr l body files refused show ?thesis by (auto simp: runSend_def split: if_splits)
    next
      case sent: False
      then obtain cfg where cfg: "rc = Inr cfg" "Configured (cf_Mailgun cfg)" by (cases rc) auto
      obtain rs w1 where s: "Send (cf_Mailgun cfg) (sf_To fl) (sf_Subject fl) htmlBody w = (rs, w1)" by force
      have "r = (case rs of Inl err \<Rightarrow> Some (Wrap ''send email'' err) | Inr _ \<Rightarrow> None)" "h' = h2" "w' = w1"
        using False sent assms b Inr l cfg s by (auto simp: runSend_def split: sum.splits)
      with False sent b Inr l cfg s body files tried show ?thesis by auto
    qed
  qed
qed

section \<open>A sample installation\<close>

definition started_host :: "string host" where
  "started_host = empty_host\<lparr>ho_files := [''c'' \<mapsto> ''{}'' @ [CHR 0x0A]]\<rparr>"

definition started_env :: environment where
  "started_env = [''DRYNN_APP_ADDR'' \<mapsto> '':9'']"

definition sample_startup :: "string startupLib" where
  "sample_startup = \<lparr>su_dl = \<lparr>dl_codec = sample_codec, dl_ext = sample_ext, dl_uuid = (\<lambda>_. None), dl_pool = (\<lambda>_. True), dl_version = ''1''\<rparr>,
     su_templates = sample_templates, su_order = rev, su_libs = sample_site, su_Parse = (\<lambda>_. None)\<rparr>"

lemma started_Getenv: "Getenv started_env = ho_env empty_host"
  by (rule ext) (simp add: Getenv_def started_env_def empty_host_def)

lemma started_dotfiles: "LoadDotfiles parse ''development'' m started_host = (None, m, started_host)"
proof -
  have names: "dotfiles ''development'' = [''.env.development.local'', ''.env.local'', ''.env.development'', ''.env'']"
    by (simp add: dotfiles_def)
  have "dot_values parse started_host path = Map.empty \<and> \<not> dot_broken parse started_host path" if "path \<noteq> ''c''" for path
    using that by (simp add: dot_values_def dot_broken_def started_host_def empty_host_def)
  then show ?thesis
    by (subst LoadDotfiles_calm) (simp_all add: names, simp add: started_host_def empty_host_def)
qed

lemma started_config:
  "LoadPath sample_codec ''c'' started_host = (Inr (applyEnvOverrides sample_codec (ho_env empty_host) (intended sample_options ''c'')), started_host)"
  by (rule sample_LoadPath) (simp_all add: started_host_def empty_host_def)

section \<open>Properties\<close>

text \<open>C30.  \<open>LoadDotfiles\<close> never changes a variable that is set, nor any file, whatever call fails, and refuses
  an unknown environment.  Without faults and with files that parse, each variable gets the value of the
  first that has one: the process, .env.ENV.local, .env.local (not in test), .env.ENV, .env.\<close>

theorem LoadDotfiles_precedence:
  assumes "LoadDotfiles parse env m h = (r, m', h')"
  shows "m \<subseteq>\<^sub>m m' \<and> ho_files h' = ho_files h \<and>
    (env \<notin> {''development'', ''test'', ''production''} \<longrightarrow> r \<noteq> None \<and> m' = m) \<and>
    (ho_faults h = [] \<and> env \<in> {''development'', ''test'', ''production''} \<and> (\<forall>path \<in> set (dotfiles env). \<not> dot_broken parse h path) \<longrightarrow>
      r = None \<and> (\<forall>key. m' key = first_value (m # map (dot_values parse h) (dotfiles env)) key))"
proof (intro conjI impI)
  show "m \<subseteq>\<^sub>m m'" "ho_files h' = ho_files h" using LoadDotfiles_same [OF assms] by simp_all
next
  assume "env \<notin> {''development'', ''test'', ''production''}"
  with assms show "r \<noteq> None" "m' = m" by (auto simp: LoadDotfiles_def split: if_splits)
next
  assume a: "ho_faults h = [] \<and> env \<in> {''development'', ''test'', ''production''} \<and> (\<forall>path \<in> set (dotfiles env). \<not> dot_broken parse h path)"
  with assms LoadDotfiles_calm [of h env parse m]
  show "r = None" "\<forall>key. m' key = first_value (m # map (dot_values parse h) (dotfiles env)) key"
    by (auto simp only: foldl_first_value prod.inject)
qed

text \<open>Three files, of which a test does not read the one that does not parse.\<close>

definition dotted_host :: "string host" where
  "dotted_host = empty_host\<lparr>ho_files := [''.env.test.local'' \<mapsto> ''a'', ''.env.local'' \<mapsto> ''?'', ''.env'' \<mapsto> ''b'']\<rparr>"

definition dotted_parse :: dotenvParser where
  "dotted_parse data =
     (if data = ''a'' then Some [''X'' \<mapsto> ''1'', ''DRYNN_APP_ADDR'' \<mapsto> '':1'']
      else if data = ''b'' then Some [''X'' \<mapsto> ''2'', ''Y'' \<mapsto> ''3''] else None)"

theorem LoadDotfiles_precedence_witness:
  "\<exists>m' h'. LoadDotfiles dotted_parse ''test'' started_env dotted_host = (None, m', h') \<and>
     m' ''DRYNN_APP_ADDR'' = Some '':9'' \<and> m' ''X'' = Some ''1'' \<and> m' ''Y'' = Some ''3'' \<and> m' ''Z'' = None"
proof -
  obtain r m' h' where run: "LoadDotfiles dotted_parse ''test'' started_env dotted_host = (r, m', h')" by (metis surj_pair)
  have names: "dotfiles ''test'' = [''.env.test.local'', ''.env.test'', ''.env'']" by (simp add: dotfiles_def)
  have calm: "ho_faults dotted_host = []" by (simp add: dotted_host_def empty_host_def)
  have files: "dot_values dotted_parse dotted_host ''.env.test.local'' = [''X'' \<mapsto> ''1'', ''DRYNN_APP_ADDR'' \<mapsto> '':1'']"
    "dot_values dotted_parse dotted_host ''.env.test'' = Map.empty" "dot_values dotted_parse dotted_host ''.env'' = [''X'' \<mapsto> ''2'', ''Y'' \<mapsto> ''3'']"
    "\<forall>path \<in> set (dotfiles ''test''). \<not> dot_broken dotted_parse dotted_host path"
    by (simp_all add: names dot_values_def dot_broken_def dotted_host_def empty_host_def dotted_parse_def)
  from LoadDotfiles_precedence [OF run] calm files(4)
  have "r = None \<and> (\<forall>key. m' key = first_value (started_env # map (dot_values dotted_parse dotted_host) (dotfiles ''test'')) key)" by simp
  with run show ?thesis by (simp add: names files(1-3) started_env_def)
qed

text \<open>C28.  Starting the server is a sequence of service steps that changes no table but the signing keys and
  no file.  A server that starts has exactly one active key of each type (the one that was active if there
  was one), every page parsed, and the settings of the configuration that its file and the environment
  after the environment files give.  It does start when nothing fails and the configuration, the
  database URL and the templates are good.\<close>

theorem server_main_starts:
  fixes lib :: "'t startupLib" and res :: "('t, 'l) serverResult"
  assumes "keys_ok (w_db w) (w_fresh w)" and "server_main lib args flag m h w = (res, m', h', w')"
  shows "steps (dl_ext (su_dl lib)) mail w w' \<and> all_but_keys (w_db w') = all_but_keys (w_db w) \<and> ho_files h' = ho_files h \<and>
    (\<forall>a. res = Serving a \<longrightarrow> keys_ready w w' \<and> ap_site a = configured_site lib (ap_cfg a) \<and>
       newTemplateRenderer (su_templates lib) (su_order lib) = Inr (ap_renderer a) \<and>
       (\<exists>h1. LoadDotfiles (su_Parse lib) (environment_name m) m h = (None, m', h1) \<and>
          fst (LoadPath (dl_codec (su_dl lib)) (flag_or_default flag (Getenv m')) (h1\<lparr>ho_env := Getenv m'\<rparr>)) = Inr (ap_cfg a))) \<and>
    (\<forall>m1 h1 cfg h2 rd. \<not> (args \<noteq> [] \<and> hd args = ''version'') \<and> w_faults w = [] \<and>
       LoadDotfiles (su_Parse lib) (environment_name m) m h = (None, m1, h1) \<and>
       LoadPath (dl_codec (su_dl lib)) (flag_or_default flag (Getenv m1)) (h1\<lparr>ho_env := Getenv m1\<rparr>) = (Inr cfg, h2) \<and>
       dl_pool (su_dl lib) (cf_DatabaseURL cfg) \<and> newTemplateRenderer (su_templates lib) (su_order lib) = Inr rd \<longrightarrow>
       (\<exists>a. res = Serving a))"
  using assms(2)
proof (cases rule: server_main_cases)
  case no_app
  have "\<not> (\<exists>m1 h1 cfg h2 rd. \<not> (args \<noteq> [] \<and> hd args = ''version'') \<and> w_faults w = [] \<and>
       LoadDotfiles (su_Parse lib) (environment_name m) m h = (None, m1, h1) \<and>
       LoadPath (dl_codec (su_dl lib)) (flag_or_default flag (Getenv m1)) (h1\<lparr>ho_env := Getenv m1\<rparr>) = (Inr cfg, h2) \<and>
       dl_pool (su_dl lib) (cf_DatabaseURL cfg) \<and> newTemplateRenderer (su_templates lib) (su_order lib) = Inr rd)"
  proof clarify
    fix m1 h1 cfg h2 rd
    assume v: "\<not> (args \<noteq> [] \<and> hd args = ''version'')" and f: "w_faults w = []"
      and d: "LoadDotfiles (su_Parse lib) (environment_name m) m h = (None, m1, h1)"
      and l: "LoadPath (dl_codec (su_dl lib)) (flag_or_default flag (Getenv m1)) (h1\<lparr>ho_env := Getenv m1\<rparr>) = (Inr cfg, h2)"
      and p: "dl_pool (su_dl lib) (cf_DatabaseURL cfg)" and t: "newTemplateRenderer (su_templates lib) (su_order lib) = Inr rd"
    obtain r w1 where n: "(server_New lib cfg :: ('t, 'l) app svc) w = (r, w1)" by force
    from server_New_starts [OF assms(1) n] f p t obtain a where "r = Inr a" by blast
    with v d l n assms(2) have "res = Serving a" by (simp add: server_main_def Let_def if_not_P [OF v] del: de_Morgan_conj)
    with no_app(1) show False by simp
  qed
  with no_app show ?thesis by auto
next
  case (new h1 h2 cfg r)
  from server_New_starts [OF assms(1) new(3), of mail] new show ?thesis by (cases r) auto
qed

theorem server_main_starts_witness:
  "\<exists>a m' h' w'. server_main sample_startup [] (Some ''c'') started_env started_host (sample_world initial_db 3) =
     (Serving a :: (string, nat) serverResult, m', h', w') \<and> keys_ready (sample_world initial_db 3) w' \<and>
     cf_AppAddr (ap_cfg a) = '':9''"
proof -
  obtain res :: "(string, nat) serverResult" and m' h' w' where
    run: "server_main sample_startup [] (Some ''c'') started_env started_host (sample_world initial_db 3) = (res, m', h', w')"
    by (metis surj_pair)
  have ok: "keys_ok (w_db (sample_world initial_db 3)) (w_fresh (sample_world initial_db 3))"
    by (simp add: sample_world_def sample_key_ok)
  have env: "environment_name started_env = ''development''" by (simp add: environment_name_def Getenv_def started_env_def)
  have host: "started_host\<lparr>ho_env := Getenv started_env\<rparr> = started_host"
    by (simp add: started_Getenv started_host_def)
  obtain rd where rd: "newTemplateRenderer sample_templates rev = Inr rd"
    by (simp add: newTemplateRenderer_def pages_def sample_templates_def)
  note starts = server_main_starts [OF ok run, where mail = sample_mail]
  have "\<exists>a. res = Serving a"
    using starts [THEN conjunct2, THEN conjunct2, THEN conjunct2, THEN conjunct2, rule_format,
        of started_env started_host "applyEnvOverrides sample_codec (ho_env empty_host) (intended sample_options ''c'')" started_host rd]
    by (simp add: env started_dotfiles host started_config flag_or_default_def sample_startup_def rd sample_world_def)
  then obtain a where a: "res = Serving a" by blast
  with starts have "keys_ready (sample_world initial_db 3) w'" "\<exists>h1. LoadDotfiles (su_Parse sample_startup) (environment_name started_env) started_env started_host = (None, m', h1) \<and>
      fst (LoadPath (dl_codec (su_dl sample_startup)) (flag_or_default (Some ''c'') (Getenv m')) (h1\<lparr>ho_env := Getenv m'\<rparr>)) = Inr (ap_cfg a)"
    by blast+
  then have "Inr (ap_cfg a) = fst (LoadPath sample_codec ''c'' started_host)"
    by (auto simp: env started_dotfiles host flag_or_default_def sample_startup_def)
  then have "cf_AppAddr (ap_cfg a) = '':9''"
    by (simp add: started_config applyEnvOverrides_def envOrDefault_def empty_host_def)
  with run a \<open>keys_ready (sample_world initial_db 3) w'\<close> show ?thesis by blast
qed

text \<open>C31.  \<open>runSend\<close> changes no table and no file.  When it reports no error it has sent exactly the one message it was
  asked for, which is complete, with the Mailgun settings of the configuration; when it reports one, nothing was
  sent, or that very message was and Mailgun's answer was lost.  Without faults a complete message is sent.\<close>

theorem runSend_correct:
  assumes "runSend lib fl h w = (r, h', w')"
  shows "w_db w' = w_db w \<and> ho_files h' = ho_files h \<and>
    (w_outbox w' = w_outbox w \<and> r \<noteq> None \<or>
     (\<exists>body cfg h1. TrimSpace (sf_To fl) \<noteq> [] \<and> TrimSpace (sf_Subject fl) \<noteq> [] \<and> TrimSpace body \<noteq> [] \<and> wanted_body fl h body \<and>
        LoadPath lib (flag_or_default (sf_Config fl) (ho_env h)) h1 = (Inr cfg, h') \<and> ho_files h1 = ho_files h \<and>
        Configured (cf_Mailgun cfg) \<and>
        w_outbox w' = w_outbox w @ [\<lparr>mail_from = from_header (cf_Mailgun cfg), mail_to = sf_To fl, mail_subject = sf_Subject fl, mail_body = body\<rparr>] \<and>
        (r = None \<or> r = Some (Wrap ''send email'' (Wrap ''mailgun send'' ConnError)) \<and> w_faults w = ReplyLost # w_faults w'))) \<and>
    (\<forall>body cfg. ho_faults h = [] \<and> w_faults w = [] \<and> TrimSpace (sf_To fl) \<noteq> [] \<and> TrimSpace (sf_Subject fl) \<noteq> [] \<and> TrimSpace body \<noteq> [] \<and>
        wanted_body fl h body \<and> sf_BodyFile fl \<notin> ho_dirs h \<and> fst (LoadPath lib (flag_or_default (sf_Config fl) (ho_env h)) h) = Inr cfg \<and>
        Configured (cf_Mailgun cfg) \<longrightarrow> r = None)"
proof -
  have done_if: "r = None" if calm: "ho_faults h = []" "w_faults w = []" and full: "TrimSpace (sf_To fl) \<noteq> []" "TrimSpace (sf_Subject fl) \<noteq> []"
      "TrimSpace body \<noteq> []" "wanted_body fl h body" "sf_BodyFile fl \<notin> ho_dirs h"
      and cfg: "fst (LoadPath lib (flag_or_default (sf_Config fl) (ho_env h)) h) = Inr cfg" "Configured (cf_Mailgun cfg)" for body cfg
  proof -
    have one: "\<not> (sf_Body fl \<noteq> [] \<and> sf_BodyFile fl \<noteq> [])" using full(4) by (auto simp: wanted_body_def split: if_splits)
    have body: "send_body fl h = (Inr body, h)"
      using full(4,5) calm(1) by (auto simp: send_body_def wanted_body_def calm_os split: if_splits)
    obtain h2 where l: "LoadPath lib (flag_or_default (sf_Config fl) (ho_env h)) h = (Inr cfg, h2)" using cfg(1) by (metis prod.collapse)
    obtain rs w1 where s: "Send (cf_Mailgun cfg) (sf_To fl) (sf_Subject fl) body w = (rs, w1)" by force
    from Send_message(2) [OF s calm(2)] show ?thesis
      using assms one body l s full(1-3) cfg(2) by (auto simp: runSend_def)
  qed
  show ?thesis using assms
  proof (cases rule: runSend_cases)
    case (tried body cfg h1 rs)
    note out = Send_message(1) [OF tried(9)]
    show ?thesis
    proof (cases "w_outbox w' = w_outbox w")
      case True
      with out have "\<exists>err. rs = Inl err" by auto
      with True out tried(7,10) done_if show ?thesis by auto
    next
      case False
      with out have sent: "w_outbox w' = w_outbox w @ [\<lparr>mail_from = from_header (cf_Mailgun cfg), mail_to = sf_To fl,
          mail_subject = sf_Subject fl, mail_body = body\<rparr>]" by blast
      have "r = None \<or> r = Some (Wrap ''send email'' (Wrap ''mailgun send'' ConnError)) \<and> w_faults w = ReplyLost # w_faults w'"
        using out False tried(10) by auto
      with sent out tried(1-8) done_if show ?thesis by blast
    qed
  next
    case (refused err)
    with done_if show ?thesis by auto
  qed
qed

theorem runSend_correct_witness:
  "\<exists>r h' w'. runSend sample_codec \<lparr>sf_Config = Some ''c'', sf_To = ''k'', sf_Subject = ''d'', sf_Body = ''c'', sf_BodyFile = []\<rparr>
      started_host (sample_world initial_db 3) = (r, h', w') \<and> r = None \<and> map mail_to (w_outbox w') = [''k'']"
proof -
  let ?fl = "\<lparr>sf_Config = Some ''c'', sf_To = ''k'', sf_Subject = ''d'', sf_Body = ''c'', sf_BodyFile = []\<rparr>"
  obtain r h' w' where run: "runSend sample_codec ?fl started_host (sample_world initial_db 3) = (r, h', w')" by (metis surj_pair)
  then have r: "r = None"
    by (auto simp: runSend_def sample_trims send_body_def flag_or_default_def started_config Send_def on_error_def external_def sample_world_def
        applyEnvOverrides_def envOrDefault_def empty_host_def intended_def file_config_def sample_options_def sample_mail_def Configured_def)
  moreover have "w_outbox (sample_world initial_db 3) = []" by (simp add: sample_world_def)
  ultimately show ?thesis using runSend_correct [OF run] run by auto
qed

end
