(* ===== verification/Maths.thy ===== *)
theory Maths
  imports Float64
begin

text \<open>
  The float operations of the viewers and of the Cartesian generator: addition and subtraction, the
  conversion to \<open>int\<close>, \<open>math.Round\<close>, and package math's \<open>Sqrt\<close>, \<open>Cbrt\<close>, \<open>Sin\<close> and \<open>Cos\<close>, which are
  a parameter; \<open>math_ok\<close> states the bounds of their results.
\<close>

section \<open>Floats\<close>

definition float_add :: "rat \<Rightarrow> rat \<Rightarrow> rat" where "float_add x y = fl64 (x + y)"
definition float_sub :: "rat \<Rightarrow> rat \<Rightarrow> rat" where "float_sub x y = fl64 (x - y)"

text \<open>The conversion \<open>int(x)\<close> drops the fraction, \<open>math.Round\<close> rounds half away from zero.\<close>

definition float_trunc :: "rat \<Rightarrow> int" where
  "float_trunc x = (if x < 0 then - \<lfloor>- x\<rfloor> else \<lfloor>x\<rfloor>)"

definition math_Round :: "rat \<Rightarrow> int" where
  "math_Round x = (if x < 0 then - \<lfloor>- x + 1 / 2\<rfloor> else \<lfloor>x + 1 / 2\<rfloor>)"

record mathLib =
  Sqrt :: "rat \<Rightarrow> rat"
  Cbrt :: "rat \<Rightarrow> rat"
  Sin :: "rat \<Rightarrow> rat"
  Cos :: "rat \<Rightarrow> rat"

definition math_ok :: "mathLib \<Rightarrow> bool" where
  "math_ok M \<longleftrightarrow> (\<forall>x. \<bar>Sin M x\<bar> \<le> 1 \<and> \<bar>Cos M x\<bar> \<le> 1) \<and>
     (\<forall>x. 0 \<le> x \<and> x \<le> 1 \<longrightarrow> 0 \<le> Sqrt M x \<and> Sqrt M x \<le> 1 \<and> 0 \<le> Cbrt M x \<and> Cbrt M x \<le> 1)"

text \<open>The constant \<open>2 * math.Pi\<close> as a float.\<close>

definition two_Pi :: rat where "two_Pi = 884279719003555 / 140737488355328"

text \<open>What the maps need to know of the square root of 3.\<close>

definition sqrt3_ok :: "mathLib \<Rightarrow> bool" where
  "sqrt3_ok M \<longleftrightarrow> 1 \<le> Sqrt M 3 \<and> Sqrt M 3 \<le> 2"

text \<open>A mathematical library within the bounds, for the witnesses.\<close>

definition flat_math :: mathLib where
  "flat_math = \<lparr>Sqrt = (\<lambda>x. min x 2), Cbrt = (\<lambda>x. x), Sin = (\<lambda>_. 0), Cos = (\<lambda>_. 1)\<rparr>"

lemma flat_math_ok: "math_ok flat_math"
  by (simp add: math_ok_def flat_math_def)

lemma flat_math_sqrt3: "sqrt3_ok flat_math"
  by (simp add: sqrt3_ok_def flat_math_def)

section \<open>Relative errors\<close>

lemma fl64_relative_pos:
  assumes "0 < x"
  shows "\<bar>fl64 x - x\<bar> \<le> x / 2 ^ 53"
proof -
  define e where "e = float_exponent x"
  have low: "pow2 e * 2 ^ 52 \<le> x"
    using float_exponent_bounds [of x] assms by (simp add: e_def pow2_add) (simp add: pow2_def)
  have "fl64 x - x = (of_int (round_even (x / pow2 e)) - x / pow2 e) * pow2 e"
    using assms by (simp add: fl64_def Let_def left_diff_distrib flip: e_def)
  then have "\<bar>fl64 x - x\<bar> = \<bar>of_int (round_even (x / pow2 e)) - x / pow2 e\<bar> * pow2 e"
    by (simp add: abs_mult less_imp_le)
  also have "\<dots> \<le> 1 / 2 * pow2 e" by (intro mult_right_mono round_even_near less_imp_le pow2_pos)
  also have "\<dots> \<le> x / 2 ^ 53" using low by simp
  finally show ?thesis .
qed

lemma fl64_relative: "\<bar>fl64 x - x\<bar> \<le> \<bar>x\<bar> / 2 ^ 53"
proof -
  consider "0 < x" | "x = 0" | "0 < - x" by linarith
  then show ?thesis
  proof cases
    case 3
    with fl64_relative_pos [OF this] show ?thesis by (simp add: fl64_minus)
  qed (use fl64_relative_pos [of x] in simp_all)
qed

text \<open>Within an interval: the error of a value bounded by \<open>c\<close>.\<close>

lemma fl64_near: "\<bar>x\<bar> \<le> c \<Longrightarrow> \<bar>fl64 x - x\<bar> \<le> c / 2 ^ 53"
  using fl64_relative [of x] by simp

text \<open>A product with a half-integer is strictly increasing in it, as long as it is not too large.\<close>

lemma fl64_half: "\<bar>k\<bar> < 2 ^ 53 \<Longrightarrow> fl64 (of_int k / 2) = of_int k / 2"
  by (rule fl64_exact [where m = k and e = "-1"]) (simp_all add: pow2_def)

lemma halves_bound: "\<bar>k\<bar> \<le> (2 ^ 32 :: int) \<Longrightarrow> \<bar>of_int k / 2\<bar> \<le> (2 ^ 31 :: rat)"
proof -
  assume "\<bar>k\<bar> \<le> (2 ^ 32 :: int)"
  then have "(of_int \<bar>k\<bar> :: rat) \<le> of_int (2 ^ 32)" by (simp only: of_int_le_iff)
  then show ?thesis by simp
qed

lemma scaled_halves:
  assumes "0 < a" and "\<bar>k\<bar> \<le> 2 ^ 32" and "\<bar>l\<bar> \<le> 2 ^ 32" and "k < l"
  shows "float_mul a (of_int k / 2) + a / 2 * (of_int (l - k) - 1 / 2 ^ 20) \<le> float_mul a (of_int l / 2)"
proof -
  have err: "\<bar>float_mul a (of_int m / 2) - a * (of_int m / 2)\<bar> \<le> a / 2 ^ 22" if "\<bar>m\<bar> \<le> 2 ^ 32" for m
  proof -
    have "\<bar>a * (of_int m / 2)\<bar> = a * \<bar>of_int m / 2\<bar>" using assms(1) by (simp only: abs_mult abs_of_pos)
    also have "\<dots> \<le> a * 2 ^ 31" by (rule mult_left_mono [OF halves_bound [OF that]]) (use assms(1) in simp)
    finally show ?thesis unfolding float_mul_def by (drule_tac fl64_near) simp
  qed
  have combine: "p + g \<le> q" if "y = x + d" "g = d - (e + e)" "p \<le> x + e" "y - e \<le> q" for d e g p q x y :: rat
    using that by linarith
  show ?thesis
  proof (rule combine)
    show "a * (of_int l / 2) = a * (of_int k / 2) + a / 2 * of_int (l - k)" by (simp add: field_simps)
    show "a / 2 * (of_int (l - k) - 1 / 2 ^ 20) = a / 2 * of_int (l - k) - (a / 2 ^ 22 + a / 2 ^ 22)"
      by (simp only: right_diff_distrib) simp
    show "float_mul a (of_int k / 2) \<le> a * (of_int k / 2) + a / 2 ^ 22" "a * (of_int l / 2) - a / 2 ^ 22 \<le> float_mul a (of_int l / 2)"
      using err [OF assms(2)] err [OF assms(3)] unfolding abs_le_iff by linarith+
  qed
qed

end
