(* ===== verification/Viewer.thy ===== *)
theory Viewer
  imports Report Worldgen Maths
begin

text \<open>
  The HTML reports of internal/worldgen: hexviewer.go (the hex maps), viewer.go (\<open>Cluster.ToHTML\<close>) and
  templateviewer.go.  A page is the list of what it shows, in the order in which it is written: the
  shapes of a map with their coordinates as floats, the sections, rows and cells of the tables.  The
  markup around them and the printing of the numbers are not modelled.  The main result: the page of a
  generated cluster shows every hex, every star, every planet and every deposit exactly once, each under its parent.
\<close>

section \<open>Drawings\<close>

datatype svg =
    Polygon "(rat \<times> rat) list"
  | Circle rat rat rat
  | TextLabel rat rat rat int int

record drawing =
  dw_width :: int
  dw_height :: int
  dw_viewBox :: "rat \<times> rat \<times> rat \<times> rat"
  dw_items :: "svg list"

text \<open>The constant \<open>math.Pi / 3.0\<close> as a float.\<close>

definition third_Pi :: rat where "third_Pi = 4716158501352294 / 4503599627370496"

text \<open>\<open>renderStarDots\<close>: the dots of a die face, at most five.\<close>

definition star_dots :: "rat \<Rightarrow> int \<Rightarrow> (rat \<times> rat) list" where
  "star_dots d k =
     (if k = 1 then [(0, 0)]
      else if k = 2 then [(- d, - d), (d, d)]
      else if k = 3 then [(- d, - d), (0, 0), (d, d)]
      else if k = 4 then [(- d, - d), (d, - d), (- d, d), (d, d)]
      else [(- d, - d), (d, - d), (0, 0), (- d, d), (d, d)])"

definition renderStarDots :: "rat \<Rightarrow> rat \<Rightarrow> rat \<Rightarrow> int \<Rightarrow> svg list" where
  "renderStarDots cx cy sz k =
     (let r = float_mul sz (fl64 (15 / 100)); d = float_mul sz (fl64 (28 / 100))
      in map (\<lambda>(x, y). Circle (float_add cx x) (float_add cy y) r) (star_dots d k))"

definition hex_corners :: "mathLib \<Rightarrow> rat \<Rightarrow> rat \<Rightarrow> rat \<Rightarrow> (rat \<times> rat) list" where
  "hex_corners M sz cx cy = map (\<lambda>i. let angle = float_mul third_Pi (float_of_int i) in
     (float_add cx (float_mul sz (Cos M angle)), float_add cy (float_mul sz (Sin M angle)))) [0..5]"

definition hex_outline :: "mathLib \<Rightarrow> rat \<Rightarrow> rat \<Rightarrow> rat \<Rightarrow> svg" where
  "hex_outline M sz cx cy = Polygon (hex_corners M sz cx cy)"

definition axialToPixel :: "mathLib \<Rightarrow> int \<Rightarrow> int \<Rightarrow> rat \<Rightarrow> rat \<times> rat" where
  "axialToPixel M q r sz =
     (float_mul (float_mul sz (3 / 2)) (float_of_int q),
      float_mul (float_mul sz (Sqrt M 3)) (float_add (float_of_int r) (float_mul (1 / 2) (float_of_int q))))"

text \<open>The size of a hex that fits the page, but at least 4.\<close>

definition fit_disk :: "mathLib \<Rightarrow> int \<Rightarrow> rat \<Rightarrow> rat" where
  "fit_disk M radius pixSize =
     (if pixSize \<le> 0 then
        (let sizeFromW = float_div 1200 (float_add (float_mul 3 (float_of_int radius)) 1);
             sizeFromH = float_div 1200 (float_mul (Sqrt M 3) (float_add (float_mul 2 (float_of_int radius)) 1));
             fitted = min sizeFromW sizeFromH
         in if fitted < 4 then 4 else fitted)
      else pixSize)"

definition star_map :: "int \<Rightarrow> viewerSystem list \<Rightarrow> axial \<rightharpoonup> int" where
  "star_map radius systems =
     fold (\<lambda>s m. if Contains radius (vs_Hex s) then m(vs_Hex s \<mapsto> vs_Stars s) else m) systems Map.empty"

definition stars_at :: "(axial \<rightharpoonup> int) \<Rightarrow> axial \<Rightarrow> int" where
  "stars_at m h = (case m h of None \<Rightarrow> 0 | Some k \<Rightarrow> k)"

text \<open>The loop that tracks the bounding box.  It starts from infinities, so of no numbers at all it makes nothing here.\<close>

definition least_of :: "rat list \<Rightarrow> rat" where
  "least_of xs = fold (\<lambda>x m. if x < m then x else m) (tl xs) (hd xs)"

definition greatest_of :: "rat list \<Rightarrow> rat" where
  "greatest_of xs = fold (\<lambda>x m. if x > m then x else m) (tl xs) (hd xs)"

text \<open>What is drawn for one hex: its outline, its dots, its coordinates.\<close>

type_synonym hexPix = "axial \<times> rat \<times> rat"

definition pix_outline :: "mathLib \<Rightarrow> rat \<Rightarrow> hexPix \<Rightarrow> svg" where
  "pix_outline M pixSize hp = hex_outline M pixSize (fst (snd hp)) (snd (snd hp))"

definition pix_dots :: "(axial \<rightharpoonup> int) \<Rightarrow> rat \<Rightarrow> hexPix \<Rightarrow> svg list" where
  "pix_dots starMap pixSize hp =
     (let k = stars_at starMap (fst hp) in if k > 0 then renderStarDots (fst (snd hp)) (snd (snd hp)) pixSize k else [])"

definition pix_label :: "mathLib \<Rightarrow> (axial \<rightharpoonup> int) \<Rightarrow> rat \<Rightarrow> rat \<Rightarrow> hexPix \<Rightarrow> svg list" where
  "pix_label M starMap pixSize fontSize hp =
     (if stars_at starMap (fst hp) > 0
      then [TextLabel (fst (snd hp)) (float_add (snd (snd hp)) (float_mul (float_mul pixSize (Sqrt M 3)) (fl64 (38 / 100))))
              fontSize (hexQ (fst hp)) (hexR (fst hp))]
      else [])"

text \<open>The map of a disk.  An empty disk (a negative radius) has an infinite bounding box and is not drawn here.\<close>

definition RenderDiskSVG :: "mathLib \<Rightarrow> int \<Rightarrow> viewerSystem list \<Rightarrow> rat \<Rightarrow> bool \<Rightarrow> drawing option" where
  "RenderDiskSVG M radius systems pixSize showCoords =
     (let sqrt3 = Sqrt M 3;
          starMap = star_map radius systems;
          pixSize = fit_disk M radius pixSize;
          pixels = map (\<lambda>h. (h, axialToPixel M (hexQ h) (hexR h) pixSize)) (Disk radius);
          minX = least_of (map (\<lambda>hp. fst (snd hp)) pixels); maxX = greatest_of (map (\<lambda>hp. fst (snd hp)) pixels);
          minY = least_of (map (\<lambda>hp. snd (snd hp)) pixels); maxY = greatest_of (map (\<lambda>hp. snd (snd hp)) pixels);
          vbX = float_sub (float_sub minX pixSize) 40;
          vbY = float_sub (float_sub minY (float_div (float_mul pixSize sqrt3) 2)) 40;
          vbW = float_add (float_add (float_sub maxX minX) (float_mul 2 pixSize)) 80;
          vbH = float_add (float_add (float_sub maxY minY) (float_mul pixSize sqrt3)) 80;
          fontSize = (let f = float_mul pixSize (fl64 (28 / 100)) in if f < 8 then 8 else f)
      in if pixels = [] then None
         else Some \<lparr>dw_width = \<lceil>vbW\<rceil>, dw_height = \<lceil>vbH\<rceil>, dw_viewBox = (vbX, vbY, vbW, vbH),
           dw_items = map (pix_outline M pixSize) pixels @ concat (map (pix_dots starMap pixSize) pixels) @
             (if showCoords then concat (map (pix_label M starMap pixSize fontSize) pixels) else [])\<rparr>)"

definition RenderDiskHTMLWithCoords :: "mathLib \<Rightarrow> int \<Rightarrow> viewerSystem list \<Rightarrow> bool \<Rightarrow> string + drawing option" where
  "RenderDiskHTMLWithCoords M radius systems showCoords =
     (if radius < 0 then Inl ''radius must be non-negative'' else Inr (RenderDiskSVG M radius systems 0 showCoords))"

definition RenderDiskHTML :: "mathLib \<Rightarrow> int \<Rightarrow> viewerSystem list \<Rightarrow> string + drawing option" where
  "RenderDiskHTML M radius systems =
     (if radius < 0 then Inl ''radius must be non-negative'' else Inr (RenderDiskSVG M radius systems 0 False))"

text \<open>The rectangular map: the centre of a cell, and the whole grid column by column.\<close>

definition cell_centre :: "mathLib \<Rightarrow> rat \<Rightarrow> int \<Rightarrow> int \<Rightarrow> rat \<times> rat" where
  "cell_centre M pixSize col row =
     (float_add 40 (float_mul pixSize (float_add (float_mul (3 / 2) (float_of_int col)) 1)),
      float_add 40 (float_mul (float_mul pixSize (Sqrt M 3))
        (float_add (float_add (float_of_int row) (float_mul (1 / 2) (float_of_int (col mod 2)))) (1 / 2))))"

definition fit_grid :: "mathLib \<Rightarrow> int \<Rightarrow> int \<Rightarrow> rat \<Rightarrow> rat" where
  "fit_grid M numCols numRows pixSize =
     (if pixSize \<le> 0 then
        (let sizeFromW = float_div 1200 (float_add (float_mul (3 / 2) (float_of_int numCols)) (1 / 2));
             sizeFromH = float_div 1200 (float_mul (Sqrt M 3) (float_add (float_of_int numRows) (1 / 2)));
             fitted = min sizeFromW sizeFromH
         in if fitted < 4 then 4 else fitted)
      else pixSize)"

definition renderHexHTML :: "mathLib \<Rightarrow> ((int \<times> int) \<rightharpoonup> int) \<Rightarrow> int \<Rightarrow> int \<Rightarrow> rat \<Rightarrow> drawing" where
  "renderHexHTML M cells numCols numRows pixSize =
     (let (numCols, numRows) = (if numCols \<le> 0 \<or> numRows \<le> 0 then (1, 1) else (numCols, numRows));
          pixSize = fit_grid M numCols numRows pixSize;
          w = \<lceil>float_add (float_mul pixSize (float_add (float_mul (3 / 2) (float_of_int numCols)) (1 / 2))) 80\<rceil>;
          h = \<lceil>float_add (float_mul (float_mul pixSize (Sqrt M 3)) (float_add (float_of_int numRows) (1 / 2))) 80\<rceil>;
          cell = (\<lambda>col row. case cell_centre M pixSize col row of (cx, cy) \<Rightarrow>
            hex_outline M pixSize cx cy #
            (case cells (col, row) of None \<Rightarrow> [] | Some k \<Rightarrow> if k > 0 then renderStarDots cx cy pixSize k else []))
      in \<lparr>dw_width = w, dw_height = h, dw_viewBox = (0, 0, of_int w, of_int h),
          dw_items = concat (map (\<lambda>col. concat (map (cell col) [0..numRows - 1])) [0..numCols - 1])\<rparr>)"

definition SystemsToHTML :: "mathLib \<Rightarrow> viewerSystem list \<Rightarrow> rat \<Rightarrow> drawing" where
  "SystemsToHTML M systems pixSize =
     (case grid_cells systems of (cells, numCols, numRows) \<Rightarrow> renderHexHTML M cells numCols numRows pixSize)"

section \<open>The page of a cluster\<close>

record planetRow =
  row_Orbit :: int
  row_Kind :: string
  row_Diameter :: int
  row_Density :: rat
  row_Gravity :: rat
  row_Temperature :: int
  row_Pressure :: int
  row_Atmosphere :: "string option"
  row_Mining :: rat

record depositRow =
  row_ID :: int
  row_Resource :: string
  row_Unit :: string
  row_Quantity :: string
  row_Yield :: rat
  row_DepositMining :: rat

record starSection =
  sec_Index :: int
  sec_Kind :: string
  sec_Color :: string
  sec_Size :: int
  sec_Planets :: "planetRow list"
  sec_Deposits :: "(int \<times> string \<times> depositRow list) list"

record systemSection =
  sec_Q :: int
  sec_R :: int
  sec_Stars :: "starSection list"

text \<open>\<open>m[key(x)] = append(m[key(x)], x)\<close> for each \<open>x\<close>.\<close>

definition group_by :: "('a \<Rightarrow> int) \<Rightarrow> 'a list \<Rightarrow> int \<Rightarrow> 'a list" where
  "group_by key xs = fold (\<lambda>x m. m(key x := m (key x) @ [x])) xs (\<lambda>_. [])"

definition report_planet_row :: "planet \<Rightarrow> planetRow" where
  "report_planet_row p = \<lparr>row_Orbit = planet_Orbit p, row_Kind = planetKind_String (planet_Kind p), row_Diameter = planet_Diameter p * 1000,
     row_Density = planet_Density p, row_Gravity = planet_Gravity p, row_Temperature = planet_TemperatureClass p,
     row_Pressure = planet_PressureClass p, row_Atmosphere = gasMixLabel (planet_Gases p), row_Mining = planet_MiningDifficulty p\<rparr>"

definition report_deposit_row :: "deposit \<Rightarrow> depositRow" where
  "report_deposit_row d = \<lparr>row_ID = dep_ID d, row_Resource = resource_Label (dep_Resource d), row_Unit = resource_UnitCode (dep_Resource d),
     row_Quantity = formatQuantity (dep_Quantity d), row_Yield = float_mul (dep_YieldPct d) 100, row_DepositMining = dep_MiningDifficulty d\<rparr>"

definition writeDepositsDetails :: "planet \<Rightarrow> deposit list \<Rightarrow> int \<times> string \<times> depositRow list" where
  "writeDepositsDetails p deposits = (planet_Orbit p, planetKind_String (planet_Kind p), map report_deposit_row deposits)"

definition star_section :: "(int \<Rightarrow> planet list) \<Rightarrow> (int \<Rightarrow> deposit list) \<Rightarrow> bool \<Rightarrow> nat \<Rightarrow> star \<Rightarrow> starSection" where
  "star_section planetsByStar depositsByPlanet showDeposits i s =
     (let planets = planetsByStar (star_ID s) in
      \<lparr>sec_Index = int i + 1, sec_Kind = starType_String (star_Kind s), sec_Color = starColor_String (star_Color s),
       sec_Size = star_Size s, sec_Planets = map report_planet_row planets,
       sec_Deposits = (if showDeposits then map (\<lambda>p. writeDepositsDetails p (depositsByPlanet (planet_ID p))) planets else [])\<rparr>)"

definition writePlanetReport :: "cluster \<Rightarrow> bool \<Rightarrow> systemSection list" where
  "writePlanetReport g showDeposits =
     (let starsBySys = group_by star_SystemID (cl_Stars g);
          planetsByStar = group_by planet_StarID (cl_Planets g);
          depositsByPlanet = (if showDeposits then group_by dep_PlanetID (cl_Deposits g) else (\<lambda>_. []))
      in map (\<lambda>sys. \<lparr>sec_Q = hexQ (sys_Hex sys), sec_R = hexR (sys_Hex sys),
           sec_Stars = map (\<lambda>(i, s). star_section planetsByStar depositsByPlanet showDeposits i s)
             (enumerate 0 (starsBySys (sys_ID sys)))\<rparr>) (cl_Systems g))"

record clusterPage =
  pg_Map :: "drawing option"
  pg_Report :: "systemSection list option"

definition Cluster_ToHTML :: "mathLib \<Rightarrow> cluster \<Rightarrow> rat \<Rightarrow> bool \<Rightarrow> bool \<Rightarrow> bool \<Rightarrow> clusterPage" where
  "Cluster_ToHTML M g pixelSize showCoords showPlanets showDeposits =
     \<lparr>pg_Map = RenderDiskSVG M (cl_Radius g) (viewer_systems g) pixelSize showCoords,
      pg_Report = (if showPlanets then Some (writePlanetReport g showDeposits) else None)\<rparr>"

section \<open>The pages of the templates\<close>

record templateRow =
  tr_Orbit :: int
  tr_Diameter :: int
  tr_Gravity :: rat
  tr_Temperature :: int
  tr_Pressure :: int
  tr_Atmosphere :: "string option"
  tr_Mining :: rat
  tr_Home :: bool

datatype templatePage =
    TemplatePage int int "templateRow list"
  | UnavailablePage int int int

definition templateAtmosphereLabel :: "templateGas list \<Rightarrow> string option" where
  "templateAtmosphereLabel atm =
     (if length atm = 0 then None
      else Some (Join (map (\<lambda>e. gas_String (tg_Gas e) @ '' '' @ itoa (tg_Percent e) @ ''%'') atm) '', ''))"

definition template_row :: "nat \<Rightarrow> templatePlanet \<Rightarrow> templateRow" where
  "template_row i p = \<lparr>tr_Orbit = int i + 1, tr_Diameter = tp_Diameter p * 1000,
     tr_Gravity = float_div (float_of_int (tp_Gravity p)) 100, tr_Temperature = tp_TemperatureClass p,
     tr_Pressure = tp_PressureClass p, tr_Atmosphere = templateAtmosphereLabel (tp_Atmosphere p),
     tr_Mining = float_div (float_of_int (tp_MiningDifficulty p)) 100, tr_Home = (tp_Special p = 1)\<rparr>"

definition Template_ToHTML :: "homeStarTemplate \<Rightarrow> templatePage" where
  "Template_ToHTML t = TemplatePage (tmpl_NumPlanets t) (tmpl_ViabilityScore t)
     (map (\<lambda>(i, p). template_row i p) (enumerate 0 (tmpl_Planets t)))"

definition HomeStarTemplateUnavailableHTML :: "int \<Rightarrow> int \<Rightarrow> int \<Rightarrow> templatePage" where
  "HomeStarTemplateUnavailableHTML numPlanets tries bestScore = UnavailablePage numPlanets tries bestScore"

section \<open>Grouping loses nothing\<close>

lemma group_by_filter: "group_by key xs k = filter (\<lambda>x. key x = k) xs"
proof (induction xs rule: rev_induct)
  case (snoc x xs)
  have "group_by key (xs @ [x]) k = (if key x = k then group_by key xs k @ [x] else group_by key xs k)"
    by (simp add: group_by_def)
  with snoc show ?case by simp
qed (simp add: group_by_def)

lemma mset_filter_key:
  "k \<notin> K \<Longrightarrow> mset (filter (\<lambda>x. f x = k) xs) + mset (filter (\<lambda>x. f x \<in> K) xs) = mset (filter (\<lambda>x. f x \<in> insert k K) xs)"
  by (induction xs) auto

lemma mset_groups:
  "distinct ks \<Longrightarrow> mset (concat (map (\<lambda>k. filter (\<lambda>x. f x = k) xs) ks)) = mset (filter (\<lambda>x. f x \<in> set ks) xs)"
proof (induction ks)
  case (Cons k ks)
  then show ?case using mset_filter_key [of k "set ks" f xs] by simp
qed simp

lemma groups_complete:
  assumes "distinct ks" and "f ` set xs \<subseteq> set ks"
  shows "mset (concat (map (\<lambda>k. filter (\<lambda>x. f x = k) xs) ks)) = mset xs"
proof -
  have "filter (\<lambda>x. f x \<in> set ks) xs = xs" using assms(2) by (auto simp: filter_id_conv)
  with mset_groups [OF assms(1), of f xs] show ?thesis by simp
qed

lemma mset_concat_map: "mset (concat (map f xs)) = (\<Sum>x \<in># mset xs. mset (f x))"
  by (induction xs) simp_all

lemma mset_concat_cong: "mset xs = mset ys \<Longrightarrow> mset (concat (map f xs)) = mset (concat (map f ys))"
  by (simp add: mset_concat_map)

lemma concat_concat_map: "concat (map (\<lambda>k. concat (map g (f k))) ks) = concat (map g (concat (map f ks)))"
  by (induction ks) simp_all

section \<open>What the map shows\<close>

definition shapes :: "(svg \<Rightarrow> bool) \<Rightarrow> drawing \<Rightarrow> int" where
  "shapes P d = int (length (filter P (dw_items d)))"

fun is_hex :: "svg \<Rightarrow> bool" where "is_hex (Polygon vs) = (length vs = 6)" | "is_hex _ = False"
fun is_dot :: "svg \<Rightarrow> bool" where "is_dot (Circle _ _ _) = True" | "is_dot _ = False"
fun is_label :: "svg \<Rightarrow> bool" where "is_label (TextLabel _ _ _ _ _) = True" | "is_label _ = False"

lemma outline_shapes [simp]:
  "is_hex (hex_outline M sz cx cy)" "\<not> is_dot (hex_outline M sz cx cy)" "\<not> is_label (hex_outline M sz cx cy)"
  by (simp_all add: hex_outline_def hex_corners_def)

lemma renderStarDots_shapes:
  "filter is_dot (renderStarDots cx cy sz k) = renderStarDots cx cy sz k"
  "filter is_hex (renderStarDots cx cy sz k) = []" "filter is_label (renderStarDots cx cy sz k) = []"
  by (auto simp: renderStarDots_def Let_def filter_id_conv filter_empty_conv)

lemma length_renderStarDots: "1 \<le> k \<Longrightarrow> k \<le> 5 \<Longrightarrow> int (length (renderStarDots cx cy sz k)) = k"
  by (simp add: renderStarDots_def star_dots_def Let_def)

lemma Disk_nonempty: "0 \<le> r \<Longrightarrow> Disk r \<noteq> []"
proof -
  assume "0 \<le> r"
  then have "Axial 0 0 \<in> set (Disk r)" by (simp add: set_Disk Contains_def Distance_alt)
  then show ?thesis by auto
qed

lemma RenderDiskSVG_items:
  assumes "0 \<le> r" and "p = fit_disk M r pix"
  shows "\<exists>d sz. RenderDiskSVG M r ss pix coords = Some d \<and>
    (let pixels = map (\<lambda>h. (h, axialToPixel M (hexQ h) (hexR h) p)) (Disk r) in
     dw_items d = map (pix_outline M p) pixels @ concat (map (pix_dots (star_map r ss) p) pixels) @
      (if coords then concat (map (pix_label M (star_map r ss) p sz) pixels) else []))"
  using Disk_nonempty [OF assms(1)] unfolding RenderDiskSVG_def Let_def assms(2) by auto

text \<open>The stars of the systems, found back through the map of the stars.\<close>

lemma stars_at_sum:
  "distinct (map vs_Hex ss) \<Longrightarrow> \<forall>s \<in> set ss. Contains r (vs_Hex s) \<Longrightarrow>
     stars_at (star_map r ss) h = sum_list (map vs_Stars (filter (\<lambda>s. vs_Hex s = h) ss))"
proof (induction ss rule: rev_induct)
  case (snoc s ss)
  have "star_map r (ss @ [s]) = (star_map r ss)(vs_Hex s \<mapsto> vs_Stars s)"
    using snoc.prems by (simp add: star_map_def)
  moreover have "filter (\<lambda>t. vs_Hex t = h) ss = []" if "vs_Hex s = h"
    using snoc.prems(1) that by (force simp: filter_empty_conv image_iff)
  ultimately show ?case using snoc by (auto simp: stars_at_def)
qed (simp add: stars_at_def star_map_def)

lemma sum_list_concat_map: "sum_list (map g (concat xss)) = (\<Sum>xs\<leftarrow>xss. sum_list (map g xs))"
  by (induction xss) simp_all

lemma sum_over_disk:
  assumes "distinct (map vs_Hex ss)" and "\<forall>s \<in> set ss. Contains r (vs_Hex s)"
  shows "(\<Sum>h\<leftarrow>Disk r. stars_at (star_map r ss) h) = sum_list (map vs_Stars ss)"
proof -
  have "(\<Sum>h\<leftarrow>Disk r. stars_at (star_map r ss) h) = sum_list (map vs_Stars (concat (map (\<lambda>h. filter (\<lambda>s. vs_Hex s = h) ss) (Disk r))))"
    by (simp add: stars_at_sum [OF assms] sum_list_concat_map comp_def)
  also have "\<dots> = sum_list (map vs_Stars ss)"
    using groups_complete [OF distinct_Disk, of vs_Hex ss r] assms(2)
    by (metis (no_types, lifting) image_subsetI mset_map set_Disk sum_mset_sum_list)
  finally show ?thesis .
qed

lemma stars_at_range:
  assumes "distinct (map vs_Hex ss)" and "\<forall>s \<in> set ss. Contains r (vs_Hex s) \<and> 1 \<le> vs_Stars s \<and> vs_Stars s \<le> 5"
  shows "0 \<le> stars_at (star_map r ss) h \<and> stars_at (star_map r ss) h \<le> 5 \<and> (0 < stars_at (star_map r ss) h \<longleftrightarrow> h \<in> vs_Hex ` set ss)"
proof (cases "h \<in> vs_Hex ` set ss")
  case True
  then obtain s where s: "s \<in> set ss" "vs_Hex s = h" by auto
  then have "filter (\<lambda>t. vs_Hex t = h) ss = [s]"
    using assms(1) by (induction ss) (force simp: filter_empty_conv image_iff)+
  with s assms stars_at_sum [OF assms(1), of r h] show ?thesis by auto
next
  case False
  then have "filter (\<lambda>t. vs_Hex t = h) ss = []" by (auto simp: filter_empty_conv)
  with False assms stars_at_sum [OF assms(1), of r h] show ?thesis by auto
qed

lemma length_concat_int: "int (length (concat xss)) = (\<Sum>xs\<leftarrow>xss. int (length xs))"
  by (induction xss) simp_all

lemma shapes_of_items:
  fixes M :: mathLib and p :: rat
  shows "filter is_hex (map (pix_outline M p) px) = map (pix_outline M p) px"
    "filter is_dot (map (pix_outline M p) px) = []" "filter is_label (map (pix_outline M p) px) = []"
    "filter is_dot (concat (map (pix_dots m p) px)) = concat (map (pix_dots m p) px)"
    "filter is_hex (concat (map (pix_dots m p) px)) = []" "filter is_label (concat (map (pix_dots m p) px)) = []"
    "filter is_label (concat (map (pix_label M m p sz) px)) = concat (map (pix_label M m p sz) px)"
    "filter is_hex (concat (map (pix_label M m p sz) px)) = []" "filter is_dot (concat (map (pix_label M m p sz) px)) = []"
  by (induction px) (simp_all add: pix_outline_def pix_dots_def Let_def renderStarDots_shapes pix_label_def)

text \<open>What is drawn, hex by hex in the order of the disk: outlines, dots and labels.\<close>

definition hex_at :: "mathLib \<Rightarrow> rat \<Rightarrow> axial \<Rightarrow> rat \<times> rat" where
  "hex_at M sz h = axialToPixel M (hexQ h) (hexR h) sz"

definition outline_at :: "mathLib \<Rightarrow> rat \<Rightarrow> axial \<Rightarrow> svg" where
  "outline_at M sz h = hex_outline M sz (fst (hex_at M sz h)) (snd (hex_at M sz h))"

definition dots_at :: "mathLib \<Rightarrow> rat \<Rightarrow> axial \<Rightarrow> int \<Rightarrow> svg list" where
  "dots_at M sz h k = (if k = 0 then [] else renderStarDots (fst (hex_at M sz h)) (snd (hex_at M sz h)) sz k)"

definition label_at :: "mathLib \<Rightarrow> rat \<Rightarrow> rat \<Rightarrow> axial \<Rightarrow> svg" where
  "label_at M sz font h = TextLabel (fst (hex_at M sz h))
     (float_add (snd (hex_at M sz h)) (float_mul (float_mul sz (Sqrt M 3)) (fl64 (38 / 100)))) font (hexQ h) (hexR h)"

lemma concat_if: "concat (map (\<lambda>x. if P x then [f x] else []) xs) = map f (filter P xs)"
  by (induction xs) simp_all

lemma map_items:
  assumes r: "0 \<le> r" and hexes: "distinct (map vs_Hex ss)"
    and stars: "\<forall>s \<in> set ss. Contains r (vs_Hex s) \<and> 1 \<le> vs_Stars s \<and> vs_Stars s \<le> 5"
    and sz: "sz = fit_disk M r pix"
  shows "\<exists>d. RenderDiskSVG M r ss pix coords = Some d \<and>
    filter is_hex (dw_items d) = map (outline_at M sz) (Disk r) \<and>
    filter is_dot (dw_items d) = concat (map (\<lambda>h. dots_at M sz h (\<Sum>s\<leftarrow>filter (\<lambda>s. vs_Hex s = h) ss. vs_Stars s)) (Disk r)) \<and>
    (\<exists>font. filter is_label (dw_items d) = (if coords then map (label_at M sz font) (filter (\<lambda>h. h \<in> vs_Hex ` set ss) (Disk r)) else []))"
proof -
  define pixels where "pixels = map (\<lambda>h. (h, axialToPixel M (hexQ h) (hexR h) sz)) (Disk r)"
  obtain d font where d: "RenderDiskSVG M r ss pix coords = Some d"
    and items: "dw_items d = map (pix_outline M sz) pixels @ concat (map (pix_dots (star_map r ss) sz) pixels) @
      (if coords then concat (map (pix_label M (star_map r ss) sz font) pixels) else [])"
    using RenderDiskSVG_items [OF r sz, of ss coords] unfolding Let_def pixels_def by blast
  note range = stars_at_range [OF hexes stars]
  have sum: "stars_at (star_map r ss) h = (\<Sum>s\<leftarrow>filter (\<lambda>s. vs_Hex s = h) ss. vs_Stars s)" for h
    using stars by (intro stars_at_sum [OF hexes]) blast
  have outlines: "map (pix_outline M sz) pixels = map (outline_at M sz) (Disk r)"
    by (simp add: pixels_def pix_outline_def outline_at_def hex_at_def comp_def)
  have "pix_dots (star_map r ss) sz (h, axialToPixel M (hexQ h) (hexR h) sz) = dots_at M sz h (stars_at (star_map r ss) h)" for h
  proof (cases "0 < stars_at (star_map r ss) h")
    case True
    then show ?thesis by (simp add: pix_dots_def dots_at_def hex_at_def Let_def)
  next
    case False
    with range [of h] have "stars_at (star_map r ss) h = 0" by linarith
    then show ?thesis by (simp add: pix_dots_def dots_at_def)
  qed
  then have dots: "concat (map (pix_dots (star_map r ss) sz) pixels) =
      concat (map (\<lambda>h. dots_at M sz h (\<Sum>s\<leftarrow>filter (\<lambda>s. vs_Hex s = h) ss. vs_Stars s)) (Disk r))"
    by (simp add: pixels_def comp_def sum)
  have "pix_label M (star_map r ss) sz font (h, axialToPixel M (hexQ h) (hexR h) sz) =
      (if h \<in> vs_Hex ` set ss then [label_at M sz font h] else [])" for h
    using range [of h] by (simp add: pix_label_def label_at_def hex_at_def)
  then have labels: "concat (map (pix_label M (star_map r ss) sz font) pixels) =
      map (label_at M sz font) (filter (\<lambda>h. h \<in> vs_Hex ` set ss) (Disk r))"
    unfolding pixels_def map_map comp_def by (simp only: concat_if)
  have "filter is_hex (dw_items d) = map (pix_outline M sz) pixels"
    "filter is_dot (dw_items d) = concat (map (pix_dots (star_map r ss) sz) pixels)"
    "filter is_label (dw_items d) = (if coords then concat (map (pix_label M (star_map r ss) sz font) pixels) else [])"
    by (simp_all add: items shapes_of_items)
  with d show ?thesis unfolding outlines dots labels by blast
qed

text \<open>How many of each there are.\<close>

lemma length_dots_at: "0 \<le> k \<Longrightarrow> k \<le> 5 \<Longrightarrow> int (length (dots_at M sz h k)) = k"
  by (simp add: dots_at_def length_renderStarDots)

lemma map_shapes:
  fixes ss :: "viewerSystem list"
  assumes r: "0 \<le> r" and hexes: "distinct (map vs_Hex ss)"
    and stars: "\<forall>s \<in> set ss. Contains r (vs_Hex s) \<and> 1 \<le> vs_Stars s \<and> vs_Stars s \<le> 5"
    and items: "filter is_hex (dw_items d) = map (outline_at M sz) (Disk r)"
      "filter is_dot (dw_items d) = concat (map (\<lambda>h. dots_at M sz h (\<Sum>s\<leftarrow>filter (\<lambda>s. vs_Hex s = h) ss. vs_Stars s)) (Disk r))"
      "filter is_label (dw_items d) = (if coords then map (label_at M sz font) (filter (\<lambda>h. h \<in> vs_Hex ` set ss) (Disk r)) else [])"
  shows "shapes is_hex d = Capacity r \<and>
    shapes is_dot d = sum_list (map vs_Stars ss) \<and> shapes is_label d = (if coords then int (length ss) else 0)"
proof -
  have sum: "stars_at (star_map r ss) h = (\<Sum>s\<leftarrow>filter (\<lambda>s. vs_Hex s = h) ss. vs_Stars s)" for h
    using stars by (intro stars_at_sum [OF hexes]) blast
  have "int (length (dots_at M sz h (\<Sum>s\<leftarrow>filter (\<lambda>s. vs_Hex s = h) ss. vs_Stars s))) = stars_at (star_map r ss) h" for h
    using stars_at_range [OF hexes stars, of h] unfolding sum [symmetric] by (intro length_dots_at) simp_all
  then have "shapes is_dot d = sum_list (map (stars_at (star_map r ss)) (Disk r))"
    by (simp add: shapes_def items length_concat_int comp_def)
  also have "\<dots> = sum_list (map vs_Stars ss)" using hexes stars by (intro sum_over_disk) auto
  finally have dots: "shapes is_dot d = sum_list (map vs_Stars ss)" .
  have "length (filter (\<lambda>h. h \<in> vs_Hex ` set ss) (Disk r)) = card (set (filter (\<lambda>h. h \<in> vs_Hex ` set ss) (Disk r)))"
    by (simp only: distinct_card distinct_filter distinct_Disk)
  also have "set (filter (\<lambda>h. h \<in> vs_Hex ` set ss) (Disk r)) = vs_Hex ` set ss"
    using stars by (auto simp: set_Disk)
  also have "card (vs_Hex ` set ss) = length ss"
    using distinct_card [OF hexes] by simp
  finally show ?thesis using dots by (simp add: shapes_def items length_Disk)
qed

section \<open>Where it is drawn\<close>

text \<open>The centres of different hexes are apart by almost the size of a hex in one of the two directions, and the dots
  stay within a third of it, apart from each other: no two dots of the map coincide.\<close>

lemma fit_disk_pos: "0 < fit_disk M r pix"
proof -
  have "0 < (if pix \<le> 0 then if f < 4 then 4 else f else pix)" for f pix :: rat by auto
  then show ?thesis unfolding fit_disk_def Let_def .
qed

lemma fl64_double: "\<bar>fl64 x\<bar> \<le> 2 * \<bar>x\<bar>"
proof -
  have "\<bar>x\<bar> / 2 ^ 53 \<le> \<bar>x\<bar>" by simp
  with fl64_relative [of x] show ?thesis by linarith
qed

lemma scaled_apart:
  assumes "0 < a" and "\<bar>k\<bar> \<le> 2 ^ 32" and "\<bar>l\<bar> \<le> 2 ^ 32" and "k + 2 \<le> l"
  shows "float_mul a (of_int k / 2) + a * (99 / 100) \<le> float_mul a (of_int l / 2)"
proof -
  have "(of_int 2 :: rat) \<le> of_int (l - k)" using assms(4) by (simp only: of_int_le_iff)
  then have "a / 2 * (2 - 1 / 100) \<le> a / 2 * (of_int (l - k) - 1 / 2 ^ 20)"
    using assms(1) by (intro mult_left_mono) simp_all
  moreover have "a / 2 * (2 - 1 / 100) = a * (199 / 200)" by simp
  moreover have "a * (99 / 100) \<le> a * (199 / 200)" using assms(1) by (intro mult_left_mono) simp_all
  ultimately show ?thesis using scaled_halves [OF assms(1-3)] assms(4) by linarith
qed

lemma scaled_bound:
  assumes "0 \<le> a" and "\<bar>k\<bar> \<le> 2 ^ 31"
  shows "\<bar>float_mul a (of_int k / 2)\<bar> \<le> a * 2 ^ 31"
proof -
  have "(of_int \<bar>k\<bar> :: rat) \<le> of_int (2 ^ 31)" using assms(2) by (simp only: of_int_le_iff)
  then have "\<bar>of_int k / 2 :: rat\<bar> \<le> 2 ^ 30" by simp
  then have "a * \<bar>of_int k / 2 :: rat\<bar> \<le> a * 2 ^ 30" by (rule mult_left_mono [OF _ assms(1)])
  moreover have "\<bar>a * (of_int k / 2)\<bar> = a * \<bar>of_int k / 2 :: rat\<bar>" using assms(1) by (simp only: abs_mult abs_of_nonneg)
  moreover have "2 * (a * 2 ^ 30) = a * 2 ^ 31" by simp
  ultimately show ?thesis using fl64_double [of "a * (of_int k / 2)"] unfolding float_mul_def by linarith
qed

lemma hex_at_halves:
  assumes "\<bar>hexQ h\<bar> \<le> 2 ^ 29" and "\<bar>hexR h\<bar> \<le> 2 ^ 29"
  shows "hex_at M sz h = (float_mul (float_mul sz (3 / 2)) (of_int (2 * hexQ h) / 2),
    float_mul (float_mul sz (Sqrt M 3)) (of_int (2 * hexR h + hexQ h) / 2))"
proof -
  have 1: "float_of_int (hexQ h) = of_int (hexQ h)" "float_of_int (hexR h) = of_int (hexR h)"
    using assms by (simp_all add: float_of_int_def fl64_int)
  have 2: "float_mul (1 / 2) (of_int (hexQ h)) = of_int (hexQ h) / 2"
    using assms fl64_half [of "hexQ h"] by (simp add: float_mul_def)
  have 3: "float_add (of_int (hexR h)) (of_int (hexQ h) / 2) = of_int (2 * hexR h + hexQ h) / 2"
    using assms fl64_half [of "2 * hexR h + hexQ h"] by (simp add: float_add_def add_divide_distrib)
  have 4: "of_int (hexQ h) = (of_int (2 * hexQ h) / 2 :: rat)" by simp
  show ?thesis unfolding hex_at_def axialToPixel_def 1 2 3 by (simp only: 4 [symmetric])
qed

lemma fl64_about: "\<bar>fl64 x - x\<bar> \<le> \<bar>x\<bar> / 1000"
proof -
  have "\<bar>x\<bar> / 2 ^ 53 \<le> \<bar>x\<bar> / 1000" by (rule divide_left_mono) simp_all
  with fl64_relative [of x] show ?thesis by linarith
qed

text \<open>The steps from hex to hex.\<close>

lemma steps_bounds:
  assumes "0 < sz" and "sqrt3_ok M"
  shows "0 < float_mul sz (3 / 2)" "sz \<le> float_mul sz (3 / 2)" "float_mul sz (3 / 2) \<le> sz * 4"
    "0 < float_mul sz (Sqrt M 3)" "sz * (99 / 100) \<le> float_mul sz (Sqrt M 3)" "float_mul sz (Sqrt M 3) \<le> sz * 4"
proof -
  have b: "float_mul sz k \<le> sz * 4 \<and> sz * (99 / 100) \<le> float_mul sz k" if "1 \<le> k" "k \<le> 2" for k
  proof -
    have "sz * 1 \<le> sz * k" "sz * k \<le> sz * 2" using that assms(1) by (intro mult_left_mono; simp)+
    moreover from this have "\<bar>float_mul sz k - sz * k\<bar> \<le> sz * k / 1000" using fl64_about [of "sz * k"] assms(1)
      unfolding float_mul_def by simp
    ultimately show ?thesis using assms(1) by linarith
  qed
  have "\<bar>float_mul sz (3 / 2) - sz * (3 / 2)\<bar> \<le> sz * (3 / 2) / 1000"
    using fl64_about [of "sz * (3 / 2)"] assms(1) unfolding float_mul_def by simp
  then show "sz \<le> float_mul sz (3 / 2)" using assms(1) by linarith
  then show "0 < float_mul sz (3 / 2)" using assms(1) by linarith
  show "float_mul sz (3 / 2) \<le> sz * 4" using b [of "3 / 2"] by simp
  show "sz * (99 / 100) \<le> float_mul sz (Sqrt M 3)" "float_mul sz (Sqrt M 3) \<le> sz * 4"
    using b [of "Sqrt M 3"] assms(2) by (simp_all add: sqrt3_ok_def)
  then show "0 < float_mul sz (Sqrt M 3)" using assms(1) by linarith
qed

lemma Contains_small:
  assumes "Contains r h" and "r \<le> 2 ^ 29"
  shows "\<bar>hexQ h\<bar> \<le> 2 ^ 29" "\<bar>hexR h\<bar> \<le> 2 ^ 29"
  using assms by (simp_all add: Contains_def Distance_le)

lemma hexes_apart:
  assumes "0 < sz" and "sqrt3_ok M" and r: "r \<le> 2 ^ 29" and h: "Contains r h" "Contains r h'"
  shows "hexQ h < hexQ h' \<Longrightarrow> fst (hex_at M sz h) + sz * (9 / 10) \<le> fst (hex_at M sz h')"
    and "hexQ h = hexQ h' \<Longrightarrow> fst (hex_at M sz h) = fst (hex_at M sz h')"
    and "hexQ h = hexQ h' \<Longrightarrow> hexR h < hexR h' \<Longrightarrow> snd (hex_at M sz h) + sz * (9 / 10) \<le> snd (hex_at M sz h')"
proof -
  note small = Contains_small [OF h(1) r] Contains_small [OF h(2) r]
  note at = hex_at_halves [OF small(1,2), of M sz] hex_at_halves [OF small(3,4), of M sz]
  note b = steps_bounds [OF assms(1,2)]
  show "fst (hex_at M sz h) + sz * (9 / 10) \<le> fst (hex_at M sz h')" if "hexQ h < hexQ h'"
  proof -
    have "float_mul (float_mul sz (3 / 2)) (of_int (2 * hexQ h) / 2) + float_mul sz (3 / 2) * (99 / 100) \<le>
        float_mul (float_mul sz (3 / 2)) (of_int (2 * hexQ h') / 2)"
      using b(1) small that by (intro scaled_apart) auto
    then show ?thesis unfolding at fst_conv using b(2) assms(1) by linarith
  qed
  show "fst (hex_at M sz h) = fst (hex_at M sz h')" if "hexQ h = hexQ h'" unfolding at using that by simp
  show "snd (hex_at M sz h) + sz * (9 / 10) \<le> snd (hex_at M sz h')" if "hexQ h = hexQ h'" "hexR h < hexR h'"
  proof -
    have "float_mul (float_mul sz (Sqrt M 3)) (of_int (2 * hexR h + hexQ h) / 2) + float_mul sz (Sqrt M 3) * (99 / 100) \<le>
        float_mul (float_mul sz (Sqrt M 3)) (of_int (2 * hexR h' + hexQ h') / 2)"
      using b(4) small that by (intro scaled_apart) auto
    then show ?thesis unfolding at snd_conv using b(5) assms(1) by linarith
  qed
qed

lemma hex_at_bound:
  assumes "0 < sz" and "sqrt3_ok M" and "r \<le> 2 ^ 29" and "Contains r h"
  shows "\<bar>fst (hex_at M sz h)\<bar> \<le> sz * 2 ^ 33" "\<bar>snd (hex_at M sz h)\<bar> \<le> sz * 2 ^ 33"
proof -
  note small = Contains_small [OF assms(4,3)]
  note b = steps_bounds [OF assms(1,2)]
  have "\<bar>float_mul (float_mul sz (3 / 2)) (of_int (2 * hexQ h) / 2)\<bar> \<le> float_mul sz (3 / 2) * 2 ^ 31"
    "\<bar>float_mul (float_mul sz (Sqrt M 3)) (of_int (2 * hexR h + hexQ h) / 2)\<bar> \<le> float_mul sz (Sqrt M 3) * 2 ^ 31"
    using small b(1,4) by (intro scaled_bound; simp)+
  then show "\<bar>fst (hex_at M sz h)\<bar> \<le> sz * 2 ^ 33" "\<bar>snd (hex_at M sz h)\<bar> \<le> sz * 2 ^ 33"
    unfolding hex_at_halves [OF small] fst_conv snd_conv using b(3,6) by simp_all
qed

text \<open>The dots of a hex.\<close>

definition dot_step :: "rat \<Rightarrow> rat" where
  "dot_step sz = float_mul sz (fl64 (28 / 100))"

lemma dot_step_bounds:
  assumes "0 < sz"
  shows "sz / 4 \<le> dot_step sz" "dot_step sz \<le> sz * (3 / 10)"
proof -
  have "\<bar>fl64 (28 / 100) - 28 / 100\<bar> \<le> (28 / 100 / 1000 :: rat)" using fl64_about [of "28 / 100"] by simp
  then have k: "27 / 100 \<le> fl64 (28 / 100)" "fl64 (28 / 100) \<le> 29 / 100" by linarith+
  have "sz * (27 / 100) \<le> sz * fl64 (28 / 100)" "sz * fl64 (28 / 100) \<le> sz * (29 / 100)"
    using k assms by (intro mult_left_mono; simp)+
  moreover from this have "\<bar>dot_step sz - sz * fl64 (28 / 100)\<bar> \<le> sz * fl64 (28 / 100) / 1000"
    using fl64_about [of "sz * fl64 (28 / 100)"] assms k(1) unfolding dot_step_def float_mul_def by (simp add: abs_mult)
  ultimately show "sz / 4 \<le> dot_step sz" "dot_step sz \<le> sz * (3 / 10)" using assms by linarith+
qed

lemma dot_near:
  assumes "0 < sz" and "\<bar>c\<bar> \<le> sz * 2 ^ 33" and "\<bar>x\<bar> \<le> sz"
  shows "\<bar>float_add c x - (c + x)\<bar> \<le> sz / 1000"
proof -
  have "\<bar>c + x\<bar> \<le> sz * 2 ^ 34" using assms by (simp add: abs_le_iff)
  from fl64_near [OF this] have "\<bar>float_add c x - (c + x)\<bar> \<le> sz * 2 ^ 34 / 2 ^ 53" unfolding float_add_def .
  also have "\<dots> \<le> sz / 1000" using assms(1) by simp
  finally show ?thesis .
qed

lemma dot_offsets: "(x, y) \<in> set (star_dots d k) \<Longrightarrow> x \<in> {- d, 0, d} \<and> y \<in> {- d, 0, d}"
  by (auto simp: star_dots_def split: if_splits)

lemma dot_offset_inj:
  assumes "0 < sz" and "\<bar>c\<bar> \<le> sz * 2 ^ 33" and "x \<in> {- dot_step sz, 0, dot_step sz}" and "y \<in> {- dot_step sz, 0, dot_step sz}"
    and "float_add c x = float_add c y"
  shows "x = y"
proof -
  note d = dot_step_bounds [OF assms(1)]
  have "\<bar>x\<bar> \<le> sz" "\<bar>y\<bar> \<le> sz" using assms(1,3,4) d by auto
  from dot_near [OF assms(1,2) this(1)] dot_near [OF assms(1,2) this(2)] assms(1,5)
  have "x - y \<le> sz / 500" "y - x \<le> sz / 500" by linarith+
  moreover have "sz / 500 < sz / 4" using assms(1) by simp
  ultimately show ?thesis using assms(1,3,4) d by auto
qed

lemma dots_within:
  assumes "0 < sz" and "\<bar>fst (hex_at M sz h)\<bar> \<le> sz * 2 ^ 33" and "\<bar>snd (hex_at M sz h)\<bar> \<le> sz * 2 ^ 33"
  shows "distinct (dots_at M sz h k)"
    and "e \<in> set (dots_at M sz h k) \<Longrightarrow> \<exists>x y r. e = Circle x y r \<and> \<bar>x - fst (hex_at M sz h)\<bar> \<le> sz / 3 \<and> \<bar>y - snd (hex_at M sz h)\<bar> \<le> sz / 3"
proof -
  note d = dot_step_bounds [OF assms(1)]
  define f where "f = (\<lambda>(x, y). Circle (float_add (fst (hex_at M sz h)) x) (float_add (snd (hex_at M sz h)) y) (float_mul sz (fl64 (15 / 100))))"
  have dots: "dots_at M sz h k = (if k = 0 then [] else map f (star_dots (dot_step sz) k))"
    by (simp add: dots_at_def renderStarDots_def f_def dot_step_def)
  have "inj_on f (set (star_dots (dot_step sz) k))"
    by (auto simp: inj_on_def f_def dest!: dot_offsets intro: dot_offset_inj [OF assms(1,2)] dot_offset_inj [OF assms(1,3)])
  moreover have "distinct (star_dots (dot_step sz) k)" using assms(1) d by (simp add: star_dots_def)
  ultimately show "distinct (dots_at M sz h k)" by (simp add: dots distinct_map)
  have near: "\<bar>float_add c x - c\<bar> \<le> sz / 3" if "\<bar>c\<bar> \<le> sz * 2 ^ 33" "x \<in> {- dot_step sz, 0, dot_step sz}" for c x
  proof -
    have "\<bar>x\<bar> \<le> sz * (3 / 10)" using that(2) d assms(1) by auto
    moreover from this have "\<bar>x\<bar> \<le> sz" using assms(1) by linarith
    ultimately show ?thesis using dot_near [OF assms(1) that(1), of x] assms(1) by linarith
  qed
  show "\<exists>x y r. e = Circle x y r \<and> \<bar>x - fst (hex_at M sz h)\<bar> \<le> sz / 3 \<and> \<bar>y - snd (hex_at M sz h)\<bar> \<le> sz / 3"
    if "e \<in> set (dots_at M sz h k)"
  proof -
    from that obtain x y where o: "(x, y) \<in> set (star_dots (dot_step sz) k)" and e: "e = f (x, y)"
      by (auto simp: dots split: if_splits)
    from near [OF assms(2)] near [OF assms(3)] dot_offsets [OF o] show ?thesis by (simp add: e f_def)
  qed
qed

lemma distinct_concat_map:
  assumes "distinct hs" and "\<And>h. h \<in> set hs \<Longrightarrow> distinct (f h)"
    and "\<And>h h' e. h \<in> set hs \<Longrightarrow> h' \<in> set hs \<Longrightarrow> e \<in> set (f h) \<Longrightarrow> e \<in> set (f h') \<Longrightarrow> h = h'"
  shows "distinct (concat (map f hs))"
  using assms
proof (induction hs)
  case (Cons h hs)
  have "distinct (concat (map f hs))" using Cons.prems by (intro Cons.IH) auto
  moreover have "set (f h) \<inter> set (concat (map f hs)) = {}"
  proof (rule ccontr)
    assume "set (f h) \<inter> set (concat (map f hs)) \<noteq> {}"
    then obtain e h' where "e \<in> set (f h)" "h' \<in> set hs" "e \<in> set (f h')" by auto
    with Cons.prems(3) [of h h' e] Cons.prems(1) show False by auto
  qed
  ultimately show ?case using Cons.prems(2) by simp
qed simp

lemma dots_distinct:
  assumes "0 < sz" and "sqrt3_ok M" and r: "r \<le> 2 ^ 29"
  shows "distinct (concat (map (\<lambda>h. dots_at M sz h (k h)) (Disk r)))"
proof (rule distinct_concat_map)
  show "distinct (Disk r)" by (rule distinct_Disk)
next
  fix h assume "h \<in> set (Disk r)"
  then have "Contains r h" by (simp add: set_Disk)
  from dots_within(1) [OF assms(1) hex_at_bound [OF assms this]] show "distinct (dots_at M sz h (k h))" .
next
  fix h h' e
  assume "h \<in> set (Disk r)" "h' \<in> set (Disk r)" and e: "e \<in> set (dots_at M sz h (k h))" "e \<in> set (dots_at M sz h' (k h'))"
  then have c: "Contains r h" "Contains r h'" by (simp_all add: set_Disk)
  from dots_within(2) [OF assms(1) hex_at_bound [OF assms c(1)] e(1)] dots_within(2) [OF assms(1) hex_at_bound [OF assms c(2)] e(2)]
  obtain x y where near: "\<bar>x - fst (hex_at M sz h)\<bar> \<le> sz / 3" "\<bar>y - snd (hex_at M sz h)\<bar> \<le> sz / 3"
    "\<bar>x - fst (hex_at M sz h')\<bar> \<le> sz / 3" "\<bar>y - snd (hex_at M sz h')\<bar> \<le> sz / 3" by auto
  have close: "\<not> u + sz * (9 / 10) \<le> v" if "\<bar>z - u\<bar> \<le> sz / 3" "\<bar>z - v\<bar> \<le> sz / 3" for u v z
    using that assms(1) by linarith
  note apart = close [OF near(1,3)] close [OF near(3,1)] close [OF near(2,4)] close [OF near(4,2)]
  have "\<not> hexQ h < hexQ h'" "\<not> hexQ h' < hexQ h"
    using hexes_apart(1) [OF assms c] hexes_apart(1) [OF assms c(2,1)] apart(1,2) by blast+
  then have q: "hexQ h = hexQ h'" by simp
  have "\<not> hexR h < hexR h'" "\<not> hexR h' < hexR h"
    using hexes_apart(3) [OF assms c q] hexes_apart(3) [OF assms c(2,1) q [symmetric]] apart(3,4) by blast+
  then have "hexR h = hexR h'" by simp
  with q show "h = h'" by (simp add: axial.expand)
qed

section \<open>What the report shows\<close>

lemma group_by_accessors:
  "group_by star_SystemID (cl_Stars c) = StarsForSystem c"
  "group_by planet_StarID (cl_Planets c) = PlanetsForStar c"
  "group_by dep_PlanetID (cl_Deposits c) = DepositsForPlanet c"
  by (simp_all add: fun_eq_iff group_by_filter StarsForSystem_def PlanetsForStar_def DepositsForPlanet_def)

definition deposits_shown :: "cluster \<Rightarrow> bool \<Rightarrow> int \<Rightarrow> deposit list" where
  "deposits_shown c showDeposits = (if showDeposits then DepositsForPlanet c else (\<lambda>_. []))"

lemma report_alt:
  "writePlanetReport c b = map (\<lambda>sys. \<lparr>sec_Q = hexQ (sys_Hex sys), sec_R = hexR (sys_Hex sys),
     sec_Stars = map (\<lambda>(i, s). star_section (PlanetsForStar c) (deposits_shown c b) b i s)
       (enumerate 0 (StarsForSystem c (sys_ID sys)))\<rparr>) (cl_Systems c)"
  by (simp add: writePlanetReport_def Let_def group_by_accessors deposits_shown_def)

text \<open>Each system's section is under the system's coordinates and holds a section for each of its stars,
  numbered from one; each star's section holds a row for each of its planets and, when deposits are
  shown, a block for each planet with a row for each of its deposits.\<close>

definition star_shown :: "cluster \<Rightarrow> bool \<Rightarrow> starSection \<Rightarrow> star \<Rightarrow> bool" where
  "star_shown c showDeposits sec s \<longleftrightarrow>
     sec_Kind sec = starType_String (star_Kind s) \<and> sec_Color sec = starColor_String (star_Color s) \<and> sec_Size sec = star_Size s \<and>
     sec_Planets sec = map report_planet_row (PlanetsForStar c (star_ID s)) \<and>
     map (\<lambda>(_, _, rows). rows) (sec_Deposits sec) =
       (if showDeposits then map (\<lambda>p. map report_deposit_row (DepositsForPlanet c (planet_ID p))) (PlanetsForStar c (star_ID s)) else [])"

definition system_shown :: "cluster \<Rightarrow> bool \<Rightarrow> systemSection \<Rightarrow> system \<Rightarrow> bool" where
  "system_shown c showDeposits sec sys \<longleftrightarrow>
     Axial (sec_Q sec) (sec_R sec) = sys_Hex sys \<and>
     map sec_Index (sec_Stars sec) = [1..int (length (StarsForSystem c (sys_ID sys)))] \<and>
     list_all2 (star_shown c showDeposits) (sec_Stars sec) (StarsForSystem c (sys_ID sys))"

definition all_stars :: "systemSection list \<Rightarrow> starSection list" where
  "all_stars rep = concat (map sec_Stars rep)"

definition report_complete :: "cluster \<Rightarrow> bool \<Rightarrow> systemSection list \<Rightarrow> bool" where
  "report_complete c showDeposits rep \<longleftrightarrow>
     list_all2 (system_shown c showDeposits) rep (cl_Systems c) \<and>
     length (all_stars rep) = length (cl_Stars c) \<and>
     mset (concat (map sec_Planets (all_stars rep))) = image_mset report_planet_row (mset (cl_Planets c)) \<and>
     mset (concat (map (\<lambda>st. concat (map (\<lambda>(_, _, rows). rows) (sec_Deposits st))) (all_stars rep))) =
       (if showDeposits then image_mset report_deposit_row (mset (cl_Deposits c)) else {#})"

text \<open>What the map shows of a cluster: hex by hex in the order of the disk, the outline and, for each star of the hex's system, a dot
  and, when asked for, the coordinates of the system, all at the hex's place; places of hexes with a larger \<open>q\<close> are further to the
  right and of those with the same \<open>q\<close> and a larger \<open>r\<close> further down, and no two dots coincide.\<close>

definition stars_on :: "cluster \<Rightarrow> axial \<Rightarrow> int" where
  "stars_on c h = (\<Sum>sys\<leftarrow>filter (\<lambda>sys. sys_Hex sys = h) (cl_Systems c). int (length (StarsForSystem c (sys_ID sys))))"

definition map_complete :: "mathLib \<Rightarrow> rat \<Rightarrow> cluster \<Rightarrow> bool \<Rightarrow> drawing \<Rightarrow> bool" where
  "map_complete M sz c showCoords d \<longleftrightarrow>
     filter is_hex (dw_items d) = map (outline_at M sz) (Disk (cl_Radius c)) \<and>
     filter is_dot (dw_items d) = concat (map (\<lambda>h. dots_at M sz h (stars_on c h)) (Disk (cl_Radius c))) \<and>
     (\<exists>font. filter is_label (dw_items d) = (if showCoords then map (label_at M sz font)
        (filter (\<lambda>h. h \<in> sys_Hex ` set (cl_Systems c)) (Disk (cl_Radius c))) else [])) \<and>
     (\<forall>h \<in> set (Disk (cl_Radius c)). \<forall>h' \<in> set (Disk (cl_Radius c)).
        (hexQ h < hexQ h' \<longrightarrow> fst (hex_at M sz h) < fst (hex_at M sz h')) \<and>
        (hexQ h = hexQ h' \<and> hexR h < hexR h' \<longrightarrow>
           fst (hex_at M sz h) = fst (hex_at M sz h') \<and> snd (hex_at M sz h) < snd (hex_at M sz h'))) \<and>
     distinct (filter is_dot (dw_items d)) \<and>
     shapes is_hex d = Capacity (cl_Radius c) \<and> shapes is_dot d = int (length (cl_Stars c)) \<and>
     shapes is_label d = (if showCoords then int (length (cl_Systems c)) else 0)"

definition page_complete :: "mathLib \<Rightarrow> rat \<Rightarrow> cluster \<Rightarrow> bool \<Rightarrow> bool \<Rightarrow> clusterPage \<Rightarrow> bool" where
  "page_complete M sz c showCoords showDeposits pg \<longleftrightarrow>
     (\<exists>d rep. pg_Map pg = Some d \<and> pg_Report pg = Some rep \<and> map_complete M sz c showCoords d \<and> report_complete c showDeposits rep)"

lemma star_section_shown: "star_shown c b (star_section (PlanetsForStar c) (deposits_shown c b) b i s) s"
  by (simp add: star_shown_def star_section_def deposits_shown_def writeDepositsDetails_def Let_def comp_def)

lemma enumerate_shown:
  "list_all2 (star_shown c b) (map (\<lambda>(i, s). star_section (PlanetsForStar c) (deposits_shown c b) b i s) (enumerate n ss)) ss"
  by (induction ss arbitrary: n) (simp_all add: star_section_shown)

lemma enumerate_index:
  "map (sec_Index \<circ> (\<lambda>(i, s). star_section P D b i s)) (enumerate n ss) = [int n + 1..int n + int (length ss)]"
proof (induction ss arbitrary: n)
  case (Cons s ss)
  have "[int n + 1..int n + int (length (s # ss))] = (int n + 1) # [int (Suc n) + 1..int (Suc n) + int (length ss)]"
    by (subst upto_rec1) (simp_all add: ac_simps)
  then show ?case using Cons.IH [of "Suc n"] by (simp only:) (simp add: star_section_def Let_def)
qed simp

lemma systems_shown: "list_all2 (system_shown c b) (writePlanetReport c b) (cl_Systems c)"
  unfolding report_alt list_all2_map1
  by (rule list_all2_refl) (simp add: system_shown_def enumerate_shown enumerate_index [where n = 0, simplified])

text \<open>Rows of all the stars' sections: those of the stars, system by system.\<close>

lemma shown_stars:
  "list_all2 (system_shown c b) rep ss \<Longrightarrow>
     list_all2 (star_shown c b) (all_stars rep) (concat (map (\<lambda>sys. StarsForSystem c (sys_ID sys)) ss))"
  by (induction rule: list_all2_induct) (auto simp: all_stars_def system_shown_def intro: list_all2_appendI)

lemma shown_rows:
  "list_all2 (star_shown c b) secs ss \<Longrightarrow>
     concat (map sec_Planets secs) = map report_planet_row (concat (map (\<lambda>s. PlanetsForStar c (star_ID s)) ss)) \<and>
     concat (map (\<lambda>st. concat (map (\<lambda>(_, _, rows). rows) (sec_Deposits st))) secs) =
       (if b then map report_deposit_row (concat (map (\<lambda>p. DepositsForPlanet c (planet_ID p)) (concat (map (\<lambda>s. PlanetsForStar c (star_ID s)) ss)))) else [])"
  by (induction rule: list_all2_induct) (auto simp: star_shown_def map_concat comp_def)

lemma children_complete:
  assumes "distinct (map f xs)" and "g ` set ys \<subseteq> f ` set xs" and "mset xs' = mset xs"
  shows "mset (concat (map (\<lambda>x. filter (\<lambda>y. g y = f x) ys) xs')) = mset ys"
proof -
  have "mset (concat (map (\<lambda>x. filter (\<lambda>y. g y = f x) ys) xs')) = mset (concat (map (\<lambda>x. filter (\<lambda>y. g y = f x) ys) xs))"
    by (rule mset_concat_cong [OF assms(3)])
  also have "map (\<lambda>x. filter (\<lambda>y. g y = f x) ys) xs = map (\<lambda>k. filter (\<lambda>y. g y = k) ys) (map f xs)" by simp
  also have "mset (concat \<dots>) = mset ys" using assms(1,2) by (intro groups_complete) auto
  finally show ?thesis .
qed

lemma report_is_complete:
  assumes ok: "cluster_ok (c\<lparr>cl_HomeStarTemplates := [], cl_Deposits := []\<rparr>)" and deposits: "deposits_ok c"
  shows "report_complete c b (writePlanetReport c b)"
proof -
  let ?stars = "concat (map (\<lambda>sys. StarsForSystem c (sys_ID sys)) (cl_Systems c))"
  let ?planets = "concat (map (\<lambda>s. PlanetsForStar c (star_ID s)) ?stars)"
  have ids: "map sys_ID (cl_Systems c) = [1..int (length (cl_Systems c))]" "map star_ID (cl_Stars c) = [1..int (length (cl_Stars c))]"
    "map planet_ID (cl_Planets c) = [1..int (length (cl_Planets c))]"
    using ok by (simp_all add: cluster_ok_def)
  have sets: "sys_ID ` set (cl_Systems c) = {1..int (length (cl_Systems c))}" "star_ID ` set (cl_Stars c) = {1..int (length (cl_Stars c))}"
    using ids by (metis list.set_map set_upto)+
  have 1: "mset ?stars = mset (cl_Stars c)" unfolding StarsForSystem_def
    using ok sets(1) by (intro children_complete) (auto simp: ids cluster_ok_def)
  have 2: "mset ?planets = mset (cl_Planets c)" unfolding PlanetsForStar_def
    using ok sets(2) by (intro children_complete [OF _ _ 1]) (auto simp: ids cluster_ok_def)
  have 3: "mset (concat (map (\<lambda>p. DepositsForPlanet c (planet_ID p)) ?planets)) = mset (cl_Deposits c)" unfolding DepositsForPlanet_def
    using deposits by (intro children_complete [OF _ _ 2]) (auto simp: ids deposits_ok_def)
  note shown = shown_stars [OF systems_shown, of c b]
  have "length (all_stars (writePlanetReport c b)) = length (cl_Stars c)"
    using list_all2_lengthD [OF shown] 1 by (metis size_mset)
  with shown_rows [OF shown] 2 3 show ?thesis
    by (simp add: report_complete_def systems_shown del: concat_map_singleton)
qed

lemma page_is_complete:
  assumes res: "cluster_result opts (c\<lparr>cl_HomeStarTemplates := [], cl_Deposits := []\<rparr>, err)" and "deposits_ok c"
    and r: "0 \<le> co_Radius opts" "co_Radius opts \<le> 2 ^ 29" and M: "sqrt3_ok M"
  shows "page_complete M (fit_disk M (cl_Radius c) pix) c coords b (Cluster_ToHTML M c pix coords True b)"
proof -
  let ?c = "c\<lparr>cl_HomeStarTemplates := [], cl_Deposits := []\<rparr>"
  let ?sz = "fit_disk M (cl_Radius c) pix"
  have ok: "cluster_ok ?c" and layout: "layout_ok (co_Radius opts) (co_MinimumDistance opts) (co_Merge opts) ?c"
    and radius: "cl_Radius c = co_Radius opts"
    using res by (simp_all add: cluster_result_def Let_def)
  have hexes: "map vs_Hex (viewer_systems c) = map sys_Hex (cl_Systems c)"
    "sum_list (map vs_Stars (viewer_systems c)) = int (length (concat (map (\<lambda>sys. StarsForSystem c (sys_ID sys)) (cl_Systems c))))"
    by (simp_all add: viewer_systems_counts comp_def length_concat_int)
  have stars: "\<forall>s \<in> set (viewer_systems c). Contains (cl_Radius c) (vs_Hex s) \<and> 1 \<le> vs_Stars s \<and> vs_Stars s \<le> 5"
    using layout by (auto simp: viewer_systems_counts layout_ok_def radius StarsForSystem_def)
  have on: "(\<Sum>s\<leftarrow>filter (\<lambda>s. vs_Hex s = h) (viewer_systems c). vs_Stars s) = stars_on c h" for h
    by (simp add: viewer_systems_counts stars_on_def filter_map comp_def)
  have hexset: "vs_Hex ` set (viewer_systems c) = sys_Hex ` set (cl_Systems c)" using hexes(1) by (metis set_map)
  have dist: "distinct (map vs_Hex (viewer_systems c))" using layout by (simp add: hexes layout_ok_def)
  obtain d font where d: "RenderDiskSVG M (cl_Radius c) (viewer_systems c) pix coords = Some d"
    and items: "filter is_hex (dw_items d) = map (outline_at M ?sz) (Disk (cl_Radius c))"
      "filter is_dot (dw_items d) = concat (map (\<lambda>h. dots_at M ?sz h (\<Sum>s\<leftarrow>filter (\<lambda>s. vs_Hex s = h) (viewer_systems c). vs_Stars s)) (Disk (cl_Radius c)))"
      "filter is_label (dw_items d) = (if coords then map (label_at M ?sz font)
        (filter (\<lambda>h. h \<in> vs_Hex ` set (viewer_systems c)) (Disk (cl_Radius c))) else [])"
    using map_items [OF _ dist stars refl, of M pix coords] r(1) radius by auto
  have report: "report_complete c b (writePlanetReport c b)" by (rule report_is_complete [OF ok assms(2)])
  then have "sum_list (map vs_Stars (viewer_systems c)) = int (length (cl_Stars c))"
    using list_all2_lengthD [OF shown_stars [OF systems_shown, of c b]] by (simp add: hexes report_complete_def)
  moreover have "length (viewer_systems c) = length (cl_Systems c)" by (simp add: viewer_systems_counts)
  moreover have "0 \<le> cl_Radius c" using r(1) radius by simp
  moreover note map_shapes [OF _ dist stars items]
  ultimately have shapes: "shapes is_hex d = Capacity (cl_Radius c)" "shapes is_dot d = int (length (cl_Stars c))"
    "shapes is_label d = (if coords then int (length (cl_Systems c)) else 0)" by simp_all
  note pos = fit_disk_pos [of M "cl_Radius c" pix]
  have small: "cl_Radius c \<le> 2 ^ 29" using r(2) radius by simp
  have places: "(hexQ h < hexQ h' \<longrightarrow> fst (hex_at M ?sz h) < fst (hex_at M ?sz h')) \<and>
      (hexQ h = hexQ h' \<and> hexR h < hexR h' \<longrightarrow> fst (hex_at M ?sz h) = fst (hex_at M ?sz h') \<and> snd (hex_at M ?sz h) < snd (hex_at M ?sz h'))"
    if "h \<in> set (Disk (cl_Radius c))" "h' \<in> set (Disk (cl_Radius c))" for h h'
    using hexes_apart [OF pos M small, of h h'] that pos by (auto simp: set_Disk)
  have "map_complete M ?sz c coords d"
    unfolding map_complete_def using items [unfolded on hexset] shapes places dots_distinct [OF pos M small] by auto
  with d report show ?thesis by (simp add: page_complete_def Cluster_ToHTML_def)
qed

section \<open>Properties\<close>

text \<open>C32.  The page of a generated cluster is complete: whatever the options and the seeds, its map shows every
  hex of the disk once, in its place, one dot for every star in the hex of the star's system and, when asked for, the
  coordinates of every system in its hex; places of different hexes differ (a larger q is further right, a larger r
  further down) and no two dots coincide.  Its
  report shows every system in order, under it each of its stars, under a star each of its planets and
  under a planet, when asked for, each of its deposits; over the whole page every star, planet and deposit
  appears exactly once.\<close>

theorem cluster_page_complete:
  assumes "apply_options opts default_generator = Inr g" and "0 \<le> gen_desiredRadius g" and "gen_desiredRadius g \<le> 2 ^ 29" and "sqrt3_ok M"
  shows "yields (Generate opts) (\<lambda>(c, err). case c of None \<Rightarrow> False
    | Some c \<Rightarrow> page_complete M (fit_disk M (cl_Radius c) pixelSize) c coords b (Cluster_ToHTML M c pixelSize coords True b))"
  unfolding Generate_def assms(1) sum.case
proof (rule yields_bind, rule yields_conseq [OF yields_run_stages [OF assms(3)]], clarify)
  fix c err
  assume run: "run_ok g (c, err)"
  then obtain c0 where c: "c = Some c0" by (auto simp: run_ok_def split: option.splits)
  have res: "cluster_result (cluster_options g) (c0\<lparr>cl_HomeStarTemplates := [], cl_Deposits := []\<rparr>, err)" and dep: "deposits_ok c0"
    using run by (simp_all add: run_ok_def c)
  have "page_complete M (fit_disk M (cl_Radius c0) pixelSize) c0 coords b (Cluster_ToHTML M c0 pixelSize coords True b)"
    by (rule page_is_complete [OF res dep]) (use assms in \<open>simp_all add: cluster_options_def\<close>)
  then show "yields (ret (c, map_option Inr err)) (\<lambda>(c, err). case c of None \<Rightarrow> False
    | Some c \<Rightarrow> page_complete M (fit_disk M (cl_Radius c) pixelSize) c coords b (Cluster_ToHTML M c pixelSize coords True b))"
    by (simp add: c)
qed

theorem cluster_page_complete_witness:
  "yields (Generate [WithDesiredRadius 3 :: 'e gen_option]) (\<lambda>(c, err). case c of None \<Rightarrow> False
    | Some c \<Rightarrow> page_complete flat_math (fit_disk flat_math (cl_Radius c) 0) c True True (Cluster_ToHTML flat_math c 0 True True True))"
  by (rule cluster_page_complete [where g = "default_generator\<lparr>gen_desiredRadius := 3\<rparr>"])
    (simp_all add: WithDesiredRadius_def default_generator_def flat_math_sqrt3)

text \<open>The rectangular map is not a map of axial coordinates: two systems that share a border, half a hex apart in
  height on the map of the disk, are drawn one and a half hexes apart in height by \<open>SystemsToHTML\<close>, which
  takes axial coordinates for the columns and rows of a grid whose odd columns are shifted.\<close>

theorem grid_separates_neighbours:
  "Distance (Axial 0 0) (Axial 1 (- 1)) = 1 \<and>
   (let cells = fst (grid_cells [\<lparr>vs_Hex = Axial 0 0, vs_Stars = 1\<rparr>, \<lparr>vs_Hex = Axial 1 (- 1), vs_Stars = 1\<rparr>]);
        y = (\<lambda>c. float_mul (float_mul pixSize (Sqrt M 3)) c)
    in cells (1, 2) = Some 1 \<and> cells (2, 1) = Some 1 \<and>
       snd (cell_centre M pixSize 1 2) = float_add 40 (y 3) \<and> snd (cell_centre M pixSize 2 1) = float_add 40 (y (3 / 2)) \<and>
       snd (axialToPixel M 0 0 pixSize) = y 0 \<and> snd (axialToPixel M 1 (- 1) pixSize) = y (- (1 / 2)))"
proof -
  have floats: "float_of_int 0 = 0" "float_of_int 1 = 1" "float_of_int (- 1) = - 1" "float_of_int 2 = 2" "float_mul (1 / 2) 0 = 0" "float_mul (1 / 2) 1 = 1 / 2"
    "float_add (float_add 2 (1 / 2)) (1 / 2) = 3" "float_add (float_add 1 0) (1 / 2) = 3 / 2" "float_add (- 1) (1 / 2) = - (1 / 2)" "float_add 0 0 = 0"
    by code_simp+
  show ?thesis
    by (simp add: floats Let_def cell_centre_def axialToPixel_def grid_cells_def Distance_alt)
qed

end
