(* ===== verification/Cartesian.thy ===== *)
theory Cartesian
  imports Rolls Maths
begin

text \<open>
  internal/worldgen/cartesian: the older generator of a galaxy in Cartesian coordinates.
  points.go (the integer type \<open>Point\<close>, the float type \<open>point\<close>, the searches and sorts over
  them, the point generators), stars.go, galaxy.go and generator.go.

  The floats are finite rationals rounded after every operation, as the amd64 compiler does (it fuses
  no multiplication and addition).  \<open>math.Sqrt\<close>, \<open>Cbrt\<close>, \<open>Sin\<close> and \<open>Cos\<close> are the parameter
  \<open>mathLib\<close> (Maths).  \<open>range\<close> over a map visits the keys
  in an order that Go leaves open: it is a parameter too.  \<open>sort.Slice\<close> and
  \<open>slices.SortFunc\<close> promise a sorted permutation; the model takes the one of insertion.
\<close>

section \<open>Sorting with a comparison\<close>

fun insert_by :: "('a \<Rightarrow> 'a \<Rightarrow> bool) \<Rightarrow> 'a \<Rightarrow> 'a list \<Rightarrow> 'a list" where
  "insert_by before x [] = [x]"
| "insert_by before x (y # ys) = (if before x y then x # y # ys else y # insert_by before x ys)"

definition sort_by :: "('a \<Rightarrow> 'a \<Rightarrow> bool) \<Rightarrow> 'a list \<Rightarrow> 'a list" where
  "sort_by before xs = foldr (insert_by before) xs []"

definition cmp_Compare :: "'a::linorder \<Rightarrow> 'a \<Rightarrow> int" where
  "cmp_Compare a b = (if a < b then -1 else if b < a then 1 else 0)"

section \<open>Integer points\<close>

datatype Point = Point (X: int) (Y: int) (Z: int)

definition DistanceSquared :: "Point \<Rightarrow> Point \<Rightarrow> int" where
  "DistanceSquared p b =
     (let dx = X p - X b; dy = X p - Y b; dz = Z p - Z b
      in wrap64 (dx * dx + dy * dy + dz * dz))"

definition Point_Distance :: "mathLib \<Rightarrow> Point \<Rightarrow> Point \<Rightarrow> int" where
  "Point_Distance M p b = \<lceil>Sqrt M (float_of_int (DistanceSquared p b))\<rceil>"

definition Less :: "Point \<Rightarrow> Point \<Rightarrow> bool" where
  "Less p q =
     (if X p < X q then True
      else if X p > X q then False
      else if Y p < Y q then True
      else if Y p > Y q then False
      else Z p \<le> Z q)"

text \<open>The loop of \<open>NearestNeighbor\<close>: index, best index and best squared distance so far.\<close>

fun NearestNeighbor_loop :: "Point \<Rightarrow> int \<Rightarrow> int \<Rightarrow> Point list \<Rightarrow> int \<Rightarrow> int \<Rightarrow> int" where
  "NearestNeighbor_loop p n i [] best bestDistSq = best"
| "NearestNeighbor_loop p n i (q # qs) best bestDistSq =
     (if i = n then NearestNeighbor_loop p n (i + 1) qs best bestDistSq
      else let d = DistanceSquared p q in
        if d < bestDistSq then NearestNeighbor_loop p n (i + 1) qs i d
        else NearestNeighbor_loop p n (i + 1) qs best bestDistSq)"

definition NearestNeighbor :: "Point list \<Rightarrow> int \<Rightarrow> int go" where
  "NearestNeighbor ps n = go_bind (go_index ps n) (\<lambda>p. ret (NearestNeighbor_loop p n 0 ps (-1) (-1)))"

fun NoCloserThan_loop :: "Point \<Rightarrow> int \<Rightarrow> int \<Rightarrow> int \<Rightarrow> Point list \<Rightarrow> bool" where
  "NoCloserThan_loop p dSq n i [] = True"
| "NoCloserThan_loop p dSq n i (q # qs) =
     (if i = n then NoCloserThan_loop p dSq n (i + 1) qs
      else if DistanceSquared p q < dSq then False
      else NoCloserThan_loop p dSq n (i + 1) qs)"

definition NoCloserThan :: "Point list \<Rightarrow> int \<Rightarrow> int \<Rightarrow> bool go" where
  "NoCloserThan ps n d =
     (if d \<le> 0 then ret True
      else let dSq = wrap64 (d * d) in
        go_bind (go_index ps n) (\<lambda>p. ret (NoCloserThan_loop p dSq n 0 ps)))"

definition SortPoints_cmp :: "Point \<Rightarrow> Point \<Rightarrow> int" where
  "SortPoints_cmp a b =
     (let da = wrap64 (X a * X a + Y a * Y a); db = wrap64 (X b * X b + Y b * Y b);
          c = cmp_Compare da db
      in if c \<noteq> 0 then c
         else let c = cmp_Compare (X a) (X b)
           in if c \<noteq> 0 then c else cmp_Compare (Y a) (Y b))"

definition SortPoints :: "Point list \<Rightarrow> Point list" where
  "SortPoints ps = sort_by (\<lambda>a b. SortPoints_cmp a b \<le> 0) ps"

section \<open>Float points\<close>

record point =
  px :: rat
  py :: rat
  pz :: rat

definition distanceSquared :: "point \<Rightarrow> point \<Rightarrow> rat" where
  "distanceSquared a b =
     (let dx = float_sub (px a) (px b); dy = float_sub (py a) (py b); dz = float_sub (pz a) (pz b)
      in float_add (float_add (float_mul dx dx) (float_mul dy dy)) (float_mul dz dz))"

definition point_distance :: "mathLib \<Rightarrow> point \<Rightarrow> point \<Rightarrow> rat" where
  "point_distance M a b = Sqrt M (distanceSquared a b)"

text \<open>\<open>bestDistSq\<close> starts at \<open>math.Inf(1)\<close>, here \<open>None\<close>.\<close>

fun nearestNeighbor_loop :: "point \<Rightarrow> int \<Rightarrow> point list \<Rightarrow> int \<Rightarrow> rat option \<Rightarrow> int" where
  "nearestNeighbor_loop p i [] best bestDistSq = best"
| "nearestNeighbor_loop p i (q # qs) best bestDistSq =
     (let d = distanceSquared p q in
      if (case bestDistSq of None \<Rightarrow> True | Some b \<Rightarrow> d < b)
      then nearestNeighbor_loop p (i + 1) qs i (Some d)
      else nearestNeighbor_loop p (i + 1) qs best bestDistSq)"

definition nearestNeighbor :: "point \<Rightarrow> point list \<Rightarrow> int" where
  "nearestNeighbor p ps = nearestNeighbor_loop p 0 ps (-1) None"

fun noCloserThan_loop :: "point \<Rightarrow> rat \<Rightarrow> point list \<Rightarrow> bool" where
  "noCloserThan_loop p dSq [] = True"
| "noCloserThan_loop p dSq (q # qs) =
     (if distanceSquared p q < dSq then False else noCloserThan_loop p dSq qs)"

definition noCloserThan :: "point \<Rightarrow> point list \<Rightarrow> rat \<Rightarrow> bool" where
  "noCloserThan p ps d = (if d \<le> 0 then True else noCloserThan_loop p (float_mul d d) ps)"

definition scale :: "point \<Rightarrow> rat \<Rightarrow> point" where
  "scale p s = \<lparr>px = float_mul (px p) s, py = float_mul (py p) s, pz = float_mul (pz p) s\<rparr>"

definition quantize :: "point \<Rightarrow> rat \<Rightarrow> Point" where
  "quantize p s = (let p = scale p s in Point (float_trunc (px p)) (float_trunc (py p)) (float_trunc (pz p)))"

definition norm_squared :: "rat \<Rightarrow> rat \<Rightarrow> rat \<Rightarrow> rat" where
  "norm_squared x y z = float_add (float_add (float_mul x x) (float_mul y y)) (float_mul z z)"

definition sortPoints_cmp :: "point \<Rightarrow> point \<Rightarrow> int" where
  "sortPoints_cmp a b =
     (let da = norm_squared (px a) (py a) (pz a); db = norm_squared (px b) (py b) (pz b);
          c = cmp_Compare da db
      in if c \<noteq> 0 then c
         else let c = cmp_Compare (px a) (px b) in if c \<noteq> 0 then c
         else let c = cmp_Compare (py a) (py b) in if c \<noteq> 0 then c
         else cmp_Compare (pz a) (pz b))"

definition sortPoints :: "point list \<Rightarrow> point list" where
  "sortPoints ps = sort_by (\<lambda>a b. sortPoints_cmp a b \<le> 0) ps"

text \<open>\<open>GenerateSystems\<close> also leaves its argument sorted.\<close>

definition GenerateSystems :: "point list \<Rightarrow> rat \<Rightarrow> Point list \<times> point list" where
  "GenerateSystems ps radius =
     (let ps = sortPoints ps
      in (map (\<lambda>p. Point (math_Round (float_mul (px p) radius)) (math_Round (float_mul (py p) radius)) 0) ps,
          ps))"

section \<open>The unused roller\<close>

definition Roller_roll :: "int \<Rightarrow> int \<Rightarrow> int roller" where
  "Roller_roll low high r =
     (let (low, high) = (if high < low then (high, low) else (low, high));
          delta = wrap64 (wrap64 (high - low) + 1)
      in go_bind (IntN delta r) (\<lambda>(v, r). ret (wrap64 (low + v), r)))"

lemma wrap64_wrap64_add: "wrap64 (wrap64 x + y) = wrap64 (x + y)"
  by (simp add: wrap64_def mod_simps) (simp add: ac_simps)

lemma Roller_roll_Roll: "Roller_roll = Roll"
  by (simp add: fun_eq_iff Roller_roll_def Roll_def wrap64_wrap64_add)

section \<open>Point generators\<close>

type_synonym pointGenerator = "int \<Rightarrow> point list roller"

definition draw :: "rat roller" where "draw r = ret (PRNG_Float64 r)"

partial_function (option) NaiveSphere_loop :: "nat \<Rightarrow> point list \<Rightarrow> prng \<Rightarrow> (panic + point list \<times> prng) option" where
  "NaiveSphere_loop n points r =
     (if length points < n
      then let (u, r) = PRNG_Float64 r; x = float_sub (float_mul 2 u) 1;
               (v, r) = PRNG_Float64 r; y = float_sub (float_mul 2 v) 1;
               (w, r) = PRNG_Float64 r; z = float_sub (float_mul 2 w) 1
        in NaiveSphere_loop n
             (if norm_squared x y z \<le> 1 then points @ [\<lparr>px = x, py = y, pz = z\<rparr>] else points) r
      else ret (points, r))"

definition NaiveSphere_Generate :: pointGenerator where
  "NaiveSphere_Generate n = (if n \<le> 0 then rret [] else NaiveSphere_loop (nat n) [])"

text \<open>\<open>for range n { points = append(points, next()) }\<close>\<close>

fun repeat_points :: "nat \<Rightarrow> point roller \<Rightarrow> point list roller" where
  "repeat_points 0 pt = rret []"
| "repeat_points (Suc n) pt = rbind pt (\<lambda>p. rbind (repeat_points n pt) (\<lambda>ps. rret (p # ps)))"

definition disk_point :: "mathLib \<Rightarrow> point roller" where
  "disk_point M =
     rbind draw (\<lambda>u. let radius = Sqrt M u in
     rbind draw (\<lambda>v. let phi = float_mul two_Pi v in
     rret \<lparr>px = float_mul radius (Cos M phi), py = float_mul radius (Sin M phi), pz = 0\<rparr>))"

definition UniformDisk_Generate :: "mathLib \<Rightarrow> pointGenerator" where
  "UniformDisk_Generate M n = (if n \<le> 0 then rret [] else repeat_points (nat n) (disk_point M))"

definition sphere_point :: "mathLib \<Rightarrow> point roller" where
  "sphere_point M =
     rbind draw (\<lambda>u. let cosTheta = float_sub 1 (float_mul 2 u);
                         sinTheta = Sqrt M (float_sub 1 (float_mul cosTheta cosTheta)) in
     rbind draw (\<lambda>v. let phi = float_mul two_Pi v in
     rbind draw (\<lambda>w. let radius = Cbrt M w in
     rret \<lparr>px = float_mul (float_mul radius sinTheta) (Cos M phi),
           py = float_mul (float_mul radius sinTheta) (Sin M phi),
           pz = float_mul radius cosTheta\<rparr>)))"

definition UniformSphere_Generate :: "mathLib \<Rightarrow> pointGenerator" where
  "UniformSphere_Generate M n = (if n \<le> 0 then rret [] else repeat_points (nat n) (sphere_point M))"

definition NaiveDisk_Generate :: "mathLib \<Rightarrow> pointGenerator" where
  "NaiveDisk_Generate M n =
     rbind (UniformSphere_Generate M n) (\<lambda>points. rret (map (\<lambda>p. p\<lparr>pz := 0\<rparr>) points))"

section \<open>The galaxy\<close>

abbreviation (input) "starDwarf \<equiv> 1 :: int"
abbreviation (input) "starDegenerate \<equiv> 2 :: int"
abbreviation (input) "starMainSequence \<equiv> 3 :: int"
abbreviation (input) "starGiant \<equiv> 4 :: int"
abbreviation (input) "colorRed \<equiv> 7 :: int"

text \<open>The fields \<open>planets\<close> and \<open>wormholes\<close> stay nil; nothing writes or reads them.\<close>

record galaxyStar =
  gs_Point :: Point
  gs_kind :: int
  gs_color :: int
  gs_size :: int
  gs_numPlanets :: int
  gs_homeSystem :: bool

record Galaxy =
  gx_Radius :: rat
  gx_Stars :: "galaxyStar list"

partial_function (option) grow_radius :: "rat \<Rightarrow> rat \<Rightarrow> (panic + rat) option" where
  "grow_radius minVolume r =
     (if float_mul (float_mul r r) r < minVolume then grow_radius minVolume (float_add r 1) else ret r)"

definition minVolume :: "int \<Rightarrow> rat" where
  "minVolume n = float_div (float_mul (float_mul (float_mul (float_of_int n) 20) 20) 20) 90"

definition galaxyRadius :: "int \<Rightarrow> rat \<Rightarrow> rat go" where
  "galaxyRadius desiredNumSystems desiredRadius =
     (if desiredRadius \<le> 6 then grow_radius (minVolume desiredNumSystems) 6 else ret desiredRadius)"

text \<open>The location grid is the list of the keys of the map, the latest first.\<close>

fun fill_grid :: "int \<Rightarrow> rat \<Rightarrow> point list \<Rightarrow> Point list \<Rightarrow> Point list" where
  "fill_grid desiredNumSystems radius [] grid = grid"
| "fill_grid desiredNumSystems radius (p # ps) grid =
     (if int (length grid) \<ge> desiredNumSystems then grid
      else fill_grid desiredNumSystems radius ps (List.insert (quantize p radius) grid))"

definition planet_rolls :: "int \<Rightarrow> int \<Rightarrow> int roller" where
  "planet_rolls kind color =
     (let sizeOfDie = 2 + (colorRed - color);
          numberOfRolls = (if kind > 2 then kind - 1 else kind) in
      rbind (repeat_rolls (Roll 1 sizeOfDie) (nat numberOfRolls) (-2)) (\<lambda>k.
      rbind (bump_up (Roll 1 2) 1 k) (\<lambda>k.
      bump_down (Roll 1 3) 9 k)))"

definition galaxy_star :: "Point \<Rightarrow> galaxyStar roller" where
  "galaxy_star p =
     rbind (Roll 1 (starGiant + 6)) (\<lambda>t.
     let kind = (if t = starDwarf then starDwarf else if t = starDegenerate then starDegenerate
                 else if t = starGiant then starGiant else starMainSequence) in
     rbind (Roll 1 colorRed) (\<lambda>color.
     rbind (D10 1) (\<lambda>d. let size = d - 1 in
     rbind (planet_rolls kind color) (\<lambda>numberOfPlanets.
     rret \<lparr>gs_Point = p, gs_kind = kind, gs_color = color, gs_size = size,
           gs_numPlanets = 0, gs_homeSystem = False\<rparr>))))"

fun galaxy_stars :: "Point list \<Rightarrow> galaxyStar list roller" where
  "galaxy_stars [] = rret []"
| "galaxy_stars (p # ps) = rbind (galaxy_star p) (\<lambda>s. rbind (galaxy_stars ps) (\<lambda>ss. rret (s # ss)))"

definition StandardGalaxy_Generate ::
  "(Point list \<Rightarrow> Point list) \<Rightarrow> int \<Rightarrow> rat \<Rightarrow> pointGenerator \<Rightarrow> Galaxy roller" where
  "StandardGalaxy_Generate order desiredNumSystems desiredRadius pg =
     rbind (rlift (galaxyRadius desiredNumSystems desiredRadius)) (\<lambda>radius.
     if desiredNumSystems < 0 then rpanic InvalidArgument
     else rbind (pg (wrap64 (desiredNumSystems * 100))) (\<lambda>ps.
       let grid = fill_grid desiredNumSystems radius ps [Point 0 0 0];
           points = sort_by Less (order grid)
       in rbind (galaxy_stars points) (\<lambda>stars. rret \<lparr>gx_Radius = radius, gx_Stars = stars\<rparr>)))"

section \<open>Options\<close>

type_synonym galaxyGenerator = "int \<Rightarrow> rat \<Rightarrow> pointGenerator \<Rightarrow> Galaxy roller"

record galaxyOptions =
  go_desiredNumSystems :: int
  go_desiredRadius :: rat
  go_gg :: galaxyGenerator
  go_pg :: pointGenerator
  go_r :: prng

type_synonym 'e galaxyOption = "galaxyOptions \<Rightarrow> 'e + galaxyOptions"

definition WithDesiredNumberOfSystems_cartesian :: "int \<Rightarrow> 'e galaxyOption" where
  "WithDesiredNumberOfSystems_cartesian n g = Inr (g\<lparr>go_desiredNumSystems := n\<rparr>)"
definition WithDesiredRadius_cartesian :: "rat \<Rightarrow> 'e galaxyOption" where
  "WithDesiredRadius_cartesian n g = Inr (g\<lparr>go_desiredRadius := n\<rparr>)"
definition WithGalaxyGenerator :: "galaxyGenerator \<Rightarrow> 'e galaxyOption" where
  "WithGalaxyGenerator gg g = Inr (g\<lparr>go_gg := gg\<rparr>)"
definition WithPointGenerator :: "pointGenerator \<Rightarrow> 'e galaxyOption" where
  "WithPointGenerator pg g = Inr (g\<lparr>go_pg := pg\<rparr>)"
definition WithPRNG_cartesian :: "prng \<Rightarrow> 'e galaxyOption" where
  "WithPRNG_cartesian r g = Inr (g\<lparr>go_r := r\<rparr>)"

fun apply_galaxy_options :: "'e galaxyOption list \<Rightarrow> 'e galaxyOption" where
  "apply_galaxy_options [] g = Inr g"
| "apply_galaxy_options (opt # opts) g =
     (case opt g of Inl e \<Rightarrow> Inl e | Inr g \<Rightarrow> apply_galaxy_options opts g)"

definition galaxy_defaults :: "mathLib \<Rightarrow> (Point list \<Rightarrow> Point list) \<Rightarrow> galaxyOptions" where
  "galaxy_defaults M order =
     \<lparr>go_desiredNumSystems = 100, go_desiredRadius = 0, go_gg = StandardGalaxy_Generate order,
      go_pg = NaiveDisk_Generate M, go_r = NewFromSeed 10 10\<rparr>"

definition Galaxy_Generate ::
  "mathLib \<Rightarrow> (Point list \<Rightarrow> Point list) \<Rightarrow> 'e galaxyOption list \<Rightarrow> ('e + Galaxy) go" where
  "Galaxy_Generate M order options =
     (case apply_galaxy_options options (galaxy_defaults M order) of
        Inl e \<Rightarrow> ret (Inl e)
      | Inr g \<Rightarrow> go_bind (go_gg g (go_desiredNumSystems g) (go_desiredRadius g) (go_pg g) (go_r g))
                  (\<lambda>(galaxy, r). ret (Inr galaxy)))"

section \<open>The order of the points\<close>

text \<open>\<open>Less\<close> is the lexicographic order, so the library's theory of sorting applies to \<open>Point\<close>.\<close>

instantiation Point :: linorder
begin

definition less_eq_Point :: "Point \<Rightarrow> Point \<Rightarrow> bool" where
  "less_eq_Point p q = Less p q"

definition less_Point :: "Point \<Rightarrow> Point \<Rightarrow> bool" where
  "less_Point p q = (Less p q \<and> \<not> Less q p)"

instance
proof
  fix p q s :: Point
  show "(p < q) = (p \<le> q \<and> \<not> q \<le> p)" by (simp add: less_Point_def less_eq_Point_def)
  show "p \<le> p" by (simp add: less_eq_Point_def Less_def)
  show "p \<le> q \<Longrightarrow> q \<le> s \<Longrightarrow> p \<le> s"
    by (auto simp: less_eq_Point_def Less_def split: if_splits)
  show "p \<le> q \<Longrightarrow> q \<le> p \<Longrightarrow> p = q"
    by (cases p; cases q) (auto simp: less_eq_Point_def Less_def split: if_splits)
  show "p \<le> q \<or> q \<le> p" by (auto simp: less_eq_Point_def Less_def)
qed

end

lemma insert_by_Less [simp]: "insert_by Less p ps = insort p ps"
  by (induction ps) (simp_all add: less_eq_Point_def)

lemma sort_by_Less: "sort_by Less ps = sort ps"
proof -
  have "insert_by Less = insort_key (\<lambda>x. x)" by (intro ext) simp
  then show ?thesis by (simp add: sort_by_def sort_key_def)
qed

lemma strictly_sorted_Less:
  assumes "distinct ps"
  shows "sorted_wrt (\<lambda>p q. Less p q \<and> p \<noteq> q) (sort ps)"
proof -
  have "sorted_wrt (<) (sort ps)" using assms by (simp add: strict_sorted_iff)
  then show ?thesis
    by (rule sorted_wrt_mono_rel [rotated]) (auto simp: less_Point_def)
qed

lemma mset_insert_by [simp]: "mset (insert_by before x ys) = add_mset x (mset ys)"
  by (induction ys) auto

lemma mset_sort_by [simp]: "mset (sort_by before xs) = mset xs"
  unfolding sort_by_def by (induction xs) simp_all

lemma set_sort_by [simp]: "set (sort_by before xs) = set xs"
  using mset_sort_by [of before xs] by (metis set_mset_mset)

lemma length_sort_by [simp]: "length (sort_by before xs) = length xs"
  using mset_sort_by [of before xs] by (metis size_mset)

lemma sorted_sort_by:
  assumes total: "\<And>a b. before a b \<or> before b a"
    and trans: "\<And>a b c. before a b \<Longrightarrow> before b c \<Longrightarrow> before a c"
  shows "sorted_wrt before (sort_by before xs)"
proof -
  have ins: "sorted_wrt before (insert_by before x ys)" if "sorted_wrt before ys" for x ys
    using that
  proof (induction ys)
    case (Cons y ys)
    have "set (insert_by before x ys) = insert x (set ys)"
      using mset_insert_by [of before x ys] by (metis set_mset_add_mset_insert set_mset_mset)
    with Cons total [of x y] show ?case by (auto intro: trans)
  qed simp
  show ?thesis unfolding sort_by_def by (induction xs) (simp_all add: ins)
qed

text \<open>With an order whose ties are equalities the sorted permutation is unique.\<close>

lemma sorted_permutation_unique:
  assumes "sorted_wrt before xs" and "sorted_wrt before ys" and "mset xs = mset ys"
    and "\<And>a b. before a b \<Longrightarrow> before b a \<Longrightarrow> a = b"
  shows "xs = ys"
  using assms(1-3)
proof (induction xs arbitrary: ys)
  case (Cons x xs)
  then obtain y ys' where ys: "ys = y # ys'" by (cases ys) auto
  have "x \<in> set ys" "y \<in> set (x # xs)"
    using Cons.prems(3) ys by (metis list.set_intros(1) set_mset_mset)+
  with Cons.prems(1,2) ys have "x = y" by (auto intro: assms(4))
  with Cons ys show ?case by simp
qed simp

section \<open>The sort of the float points\<close>

definition point_le :: "point \<Rightarrow> point \<Rightarrow> bool" where
  "point_le a b \<longleftrightarrow> sortPoints_cmp a b \<le> 0"

lemma cmp_Compare_simps [simp]:
  "cmp_Compare a b = 0 \<longleftrightarrow> a = b"
  "cmp_Compare a b \<le> 0 \<longleftrightarrow> a \<le> b"
  by (auto simp: cmp_Compare_def)

lemma point_le_iff:
  "point_le a b \<longleftrightarrow>
     (let da = norm_squared (px a) (py a) (pz a); db = norm_squared (px b) (py b) (pz b) in
      da < db \<or> da = db \<and> (px a < px b \<or> px a = px b \<and> (py a < py b \<or> py a = py b \<and> pz a \<le> pz b)))"
  by (auto simp: point_le_def sortPoints_cmp_def Let_def)

lemma point_le_total: "point_le a b \<or> point_le b a"
  unfolding point_le_iff Let_def by linarith

lemma point_le_trans: assumes "point_le a b" and "point_le b c" shows "point_le a c"
  using assms unfolding point_le_iff Let_def by (elim disjE conjE; simp)

lemma point_le_antisym: assumes "point_le a b" and "point_le b a" shows "a = (b::point)"
proof -
  have "px a = px b \<and> py a = py b \<and> pz a = pz b"
    using assms unfolding point_le_iff Let_def by linarith
  then show ?thesis by (simp add: point.equality)
qed

lemma sortPoints_point_le: "sortPoints ps = sort_by point_le ps"
proof -
  have "(\<lambda>a b. sortPoints_cmp a b \<le> 0) = point_le" by (intro ext) (simp add: point_le_def)
  then show ?thesis by (simp add: sortPoints_def)
qed

lemma sortPoints_unique:
  assumes "sorted_wrt point_le ys" and "mset ys = mset ps"
  shows "sortPoints ps = ys"
  using sorted_sort_by [of point_le ps, OF point_le_total point_le_trans] assms point_le_antisym
  by (intro sorted_permutation_unique [of point_le]) (auto simp: sortPoints_point_le)

section \<open>The searches\<close>

text \<open>The index of the nearest point, the lowest one when several are as near.\<close>

definition nearest_at :: "point \<Rightarrow> point list \<Rightarrow> nat \<Rightarrow> bool" where
  "nearest_at p ps k \<longleftrightarrow> k < length ps \<and>
     (\<forall>j < length ps. distanceSquared p (ps ! k) \<le> distanceSquared p (ps ! j)) \<and>
     (\<forall>j < k. distanceSquared p (ps ! k) < distanceSquared p (ps ! j))"

lemma nearest_at_snoc:
  assumes "nearest_at p ps k"
  shows "nearest_at p (ps @ [q]) (if distanceSquared p q < distanceSquared p (ps ! k) then length ps else k)"
  using assms by (auto simp: nearest_at_def nth_append less_Suc_eq dest: less_le_trans)

lemma nearestNeighbor_loop_nearest:
  assumes "nearest_at p ps k"
  shows "\<exists>k'. nearest_at p (ps @ qs) k' \<and>
    nearestNeighbor_loop p (int (length ps)) qs (int k) (Some (distanceSquared p (ps ! k))) = int k'"
  using assms
proof (induction qs arbitrary: ps k)
  case (Cons q qs)
  let ?k = "if distanceSquared p q < distanceSquared p (ps ! k) then length ps else k"
  have "k < length ps" using Cons.prems by (simp add: nearest_at_def)
  moreover from Cons.IH [OF nearest_at_snoc [OF Cons.prems, of q]] obtain k' where
    "nearest_at p (ps @ q # qs) k'"
    "nearestNeighbor_loop p (int (length ps) + 1) qs (int ?k) (Some (distanceSquared p ((ps @ [q]) ! ?k))) = int k'"
    by (auto simp: add.commute)
  ultimately show ?case by (intro exI [of _ k']) (auto simp: nth_append Let_def split: if_splits)
qed auto

lemma nearestNeighbor_nearest:
  assumes "ps \<noteq> []"
  shows "\<exists>k. nearest_at p ps k \<and> nearestNeighbor p ps = int k"
proof -
  obtain q qs where ps: "ps = q # qs" using assms by (cases ps) auto
  have "nearest_at p [q] 0" by (simp add: nearest_at_def)
  from nearestNeighbor_loop_nearest [OF this, of qs] show ?thesis
    by (simp add: ps nearestNeighbor_def Let_def)
qed

lemma noCloserThan_loop_iff:
  "noCloserThan_loop p dSq ps \<longleftrightarrow> (\<forall>q \<in> set ps. dSq \<le> distanceSquared p q)"
  by (induction ps) (auto simp: not_less)

lemma NoCloserThan_loop_iff:
  "NoCloserThan_loop p dSq n i ps \<longleftrightarrow>
     (\<forall>j < length ps. i + int j \<noteq> n \<longrightarrow> dSq \<le> DistanceSquared p (ps ! j))"
  by (induction ps arbitrary: i) (auto simp: not_less All_less_Suc2 algebra_simps)

text \<open>Coordinates of this size cannot make the squared distance wrap around.\<close>

definition small :: "Point \<Rightarrow> bool" where
  "small p \<longleftrightarrow> \<bar>X p\<bar> \<le> 2 ^ 29 \<and> \<bar>Y p\<bar> \<le> 2 ^ 29 \<and> \<bar>Z p\<bar> \<le> 2 ^ 29"

lemma square_bound: fixes a :: int assumes "\<bar>a\<bar> \<le> 2 ^ 30" shows "0 \<le> a * a \<and> a * a \<le> 2 ^ 60"
proof -
  have "\<bar>a\<bar> * \<bar>a\<bar> \<le> 2 ^ 30 * 2 ^ 30" using assms by (intro mult_mono) auto
  then show ?thesis by (simp flip: abs_mult)
qed

lemma wrap64_sum3:
  "0 \<le> a \<and> a \<le> 2 ^ 60 \<Longrightarrow> 0 \<le> b \<and> b \<le> 2 ^ 60 \<Longrightarrow> 0 \<le> c \<and> c \<le> 2 ^ 60 \<Longrightarrow> wrap64 (a + b + c) = a + b + c"
  by (rule wrap64_id) simp_all

lemma DistanceSquared_small:
  assumes "small p" and "small q"
  shows "DistanceSquared p q = (X p - X q)\<^sup>2 + (X p - Y q)\<^sup>2 + (Z p - Z q)\<^sup>2" and "0 \<le> DistanceSquared p q"
proof -
  have "\<bar>X p - X q\<bar> \<le> 2 ^ 30" "\<bar>X p - Y q\<bar> \<le> 2 ^ 30" "\<bar>Z p - Z q\<bar> \<le> 2 ^ 30"
    using assms by (auto simp: small_def)
  note b = this [THEN square_bound]
  show *: "DistanceSquared p q = (X p - X q)\<^sup>2 + (X p - Y q)\<^sup>2 + (Z p - Z q)\<^sup>2"
    unfolding DistanceSquared_def Let_def wrap64_sum3 [OF b] by (simp add: power2_eq_square)
  then show "0 \<le> DistanceSquared p q" by simp
qed

lemma NearestNeighbor_loop_blind:
  assumes "small p" and "\<forall>q \<in> set ps. small q"
  shows "NearestNeighbor_loop p n i ps (-1) (-1) = -1"
  using assms(2)
proof (induction ps arbitrary: i)
  case (Cons q qs)
  then have "0 \<le> DistanceSquared p q" using assms(1) by (intro DistanceSquared_small) auto
  with Cons show ?case by (simp add: Let_def)
qed simp

section \<open>Coordinates\<close>

definition in_cube :: "point \<Rightarrow> bool" where
  "in_cube p \<longleftrightarrow> \<bar>px p\<bar> \<le> 1 \<and> \<bar>py p\<bar> \<le> 1 \<and> \<bar>pz p\<bar> \<le> 1"

lemma fl64_unit: "\<bar>x\<bar> \<le> 1 \<Longrightarrow> \<bar>fl64 x\<bar> \<le> 1"
  using f64.between_ints [of "-1" x 1] by (simp add: abs_le_iff)

lemma fl64_unit_pos: "0 \<le> x \<Longrightarrow> x \<le> 1 \<Longrightarrow> 0 \<le> fl64 x \<and> fl64 x \<le> 1"
  using f64.between_ints [of 0 x 1] by simp

lemma float_mul_unit: assumes "\<bar>x\<bar> \<le> 1" and "\<bar>y\<bar> \<le> 1" shows "\<bar>float_mul x y\<bar> \<le> 1"
  using mult_mono [of "\<bar>x\<bar>" 1 "\<bar>y\<bar>" 1] assms by (simp add: float_mul_def abs_mult fl64_unit)

lemma float_trunc_abs: "\<bar>of_int (float_trunc x)\<bar> \<le> \<bar>x\<bar>"
proof (cases "x < 0")
  case True
  then have "(0::int) \<le> \<lfloor>- x\<rfloor>" by simp
  with True show ?thesis by (simp add: float_trunc_def)
next
  case False
  then have "(0::int) \<le> \<lfloor>x\<rfloor>" by simp
  with False show ?thesis by (simp add: float_trunc_def)
qed

lemma fl64_abs_le: assumes "\<bar>x\<bar> \<le> s" and "fl64 s = s" shows "\<bar>fl64 x\<bar> \<le> s"
  using fl64_mono [of x s] fl64_mono [of "- s" x] assms by (simp add: fl64_minus abs_le_iff)

lemma scaled_trunc:
  assumes "\<bar>x\<bar> \<le> 1" and "fl64 s = s" and "0 \<le> s"
  shows "\<bar>of_int (float_trunc (float_mul x s))\<bar> \<le> s"
proof -
  have "\<bar>x * s\<bar> \<le> s" using assms(1,3) mult_right_mono [of "\<bar>x\<bar>" 1 s] by (simp add: abs_mult)
  then have "\<bar>float_mul x s\<bar> \<le> s" unfolding float_mul_def by (rule fl64_abs_le [OF _ assms(2)])
  with float_trunc_abs show ?thesis by (rule order_trans)
qed

text \<open>The grid point lies in the cube of the radius.\<close>

definition in_box :: "rat \<Rightarrow> Point \<Rightarrow> bool" where
  "in_box s p \<longleftrightarrow> \<bar>of_int (X p)\<bar> \<le> s \<and> \<bar>of_int (Y p)\<bar> \<le> s \<and> \<bar>of_int (Z p)\<bar> \<le> s"

lemma in_box_quantize: "in_cube p \<Longrightarrow> fl64 s = s \<Longrightarrow> 0 \<le> s \<Longrightarrow> in_box s (quantize p s)"
  by (simp add: in_box_def quantize_def scale_def in_cube_def scaled_trunc Let_def)

text \<open>
  The ball: the generator that rejects points checks the rounded sum of the squares.  The grid point of a point it
  keeps lies in the ball of the radius, up to a relative error of less than \<open>1 / 2 ^ 48\<close>.
\<close>

definition unit_ball :: "point \<Rightarrow> bool" where
  "unit_ball p \<longleftrightarrow> norm_squared (px p) (py p) (pz p) \<le> 1"

definition in_ball :: "rat \<Rightarrow> Point \<Rightarrow> bool" where
  "in_ball s p \<longleftrightarrow> of_int ((X p)\<^sup>2 + (Y p)\<^sup>2 + (Z p)\<^sup>2) \<le> s\<^sup>2 * (1 + 1 / 2 ^ 48)"

lemma fl64_shrinks: assumes "0 \<le> x" shows "x * (1 - 1 / 2 ^ 53) \<le> fl64 x"
proof -
  have "x * (1 - 1 / 2 ^ 53) = x - x / 2 ^ 53" by (simp add: right_diff_distrib)
  with fl64_relative [of x] show ?thesis unfolding abs_le_iff abs_of_nonneg [OF assms] by linarith
qed

lemma norm_squared_shrinks: "(x\<^sup>2 + y\<^sup>2 + z\<^sup>2) * (1 - 1 / 2 ^ 53) ^ 3 \<le> norm_squared x y z"
proof -
  let ?c = "1 - 1 / 2 ^ 53 :: rat"
  have c: "0 \<le> ?c" "?c ^ 2 \<le> ?c" by (simp_all add: power2_eq_square)
  have sq: "v\<^sup>2 * ?c \<le> float_mul v v" for v
    unfolding float_mul_def power2_eq_square by (rule fl64_shrinks) simp
  then have pos: "0 \<le> float_mul v v" for v using mult_nonneg_nonneg [OF _ c(1), of "v\<^sup>2"] by (meson order_trans zero_le_power2)
  have "(x\<^sup>2 + y\<^sup>2) * ?c ^ 2 = (x\<^sup>2 * ?c + y\<^sup>2 * ?c) * ?c" by (simp add: power2_eq_square distrib_right)
  also have "\<dots> \<le> (float_mul x x + float_mul y y) * ?c" by (intro mult_right_mono add_mono sq c)
  also have "\<dots> \<le> float_add (float_mul x x) (float_mul y y)"
    unfolding float_add_def using pos by (intro fl64_shrinks) simp
  finally have xy: "(x\<^sup>2 + y\<^sup>2) * ?c ^ 2 \<le> float_add (float_mul x x) (float_mul y y)" .
  have "z\<^sup>2 * ?c ^ 2 \<le> z\<^sup>2 * ?c" by (rule mult_left_mono [OF c(2)]) simp
  with sq [of z] have zz: "z\<^sup>2 * ?c ^ 2 \<le> float_mul z z" by (rule order_trans [rotated])
  have xy0: "0 \<le> float_add (float_mul x x) (float_mul y y)"
    by (rule order_trans [OF _ xy]) simp
  have "(x\<^sup>2 + y\<^sup>2 + z\<^sup>2) * ?c ^ 3 = ((x\<^sup>2 + y\<^sup>2) * ?c ^ 2 + z\<^sup>2 * ?c ^ 2) * ?c"
    by (simp add: power2_eq_square power3_eq_cube distrib_right)
  also have "\<dots> \<le> (float_add (float_mul x x) (float_mul y y) + float_mul z z) * ?c" by (intro mult_right_mono add_mono xy zz c)
  also have "\<dots> \<le> norm_squared x y z"
    unfolding norm_squared_def float_add_def [of "float_add _ _"] using pos xy0 by (intro fl64_shrinks) simp
  finally show ?thesis .
qed

lemma scaled_trunc_square: "(of_int (float_trunc (float_mul x s)))\<^sup>2 \<le> x\<^sup>2 * s\<^sup>2 * (1 + 1 / 2 ^ 53)\<^sup>2"
proof -
  have "\<bar>float_mul x s\<bar> \<le> \<bar>x * s\<bar> * (1 + 1 / 2 ^ 53)"
  proof -
    have "\<bar>x * s\<bar> * (1 + 1 / 2 ^ 53) = \<bar>x * s\<bar> + \<bar>x * s\<bar> / 2 ^ 53" by (simp add: distrib_left)
    with fl64_relative [of "x * s"] show ?thesis unfolding float_mul_def by linarith
  qed
  with float_trunc_abs have "\<bar>of_int (float_trunc (float_mul x s))\<bar> \<le> \<bar>x * s\<bar> * (1 + 1 / 2 ^ 53)" by (rule order_trans)
  then have "\<bar>of_int (float_trunc (float_mul x s))\<bar>\<^sup>2 \<le> (\<bar>x * s\<bar> * (1 + 1 / 2 ^ 53))\<^sup>2" by (rule power_mono) simp
  then show ?thesis unfolding power_mult_distrib power2_abs .
qed

lemma in_ball_quantize:
  assumes "unit_ball p"
  shows "in_ball s (quantize p s)"
proof -
  let ?n = "(px p)\<^sup>2 + (py p)\<^sup>2 + (pz p)\<^sup>2"
  have n: "?n * (1 - 1 / 2 ^ 53) ^ 3 \<le> 1" using norm_squared_shrinks assms unfolding unit_ball_def by (rule order_trans)
  have "(1 + 1 / 2 ^ 53)\<^sup>2 \<le> (1 - 1 / 2 ^ 53) ^ 3 * (1 + 1 / 2 ^ 48 :: rat)"
    by (simp add: power2_eq_square power3_eq_cube)
  then have "?n * (1 + 1 / 2 ^ 53)\<^sup>2 \<le> ?n * ((1 - 1 / 2 ^ 53) ^ 3 * (1 + 1 / 2 ^ 48))" by (rule mult_left_mono) simp
  also have "\<dots> = ?n * (1 - 1 / 2 ^ 53) ^ 3 * (1 + 1 / 2 ^ 48)" by (simp only: mult.assoc)
  also have "\<dots> \<le> 1 * (1 + 1 / 2 ^ 48)" by (rule mult_right_mono [OF n]) simp
  finally have "s\<^sup>2 * (?n * (1 + 1 / 2 ^ 53)\<^sup>2) \<le> s\<^sup>2 * (1 * (1 + 1 / 2 ^ 48))" by (rule mult_left_mono) simp
  moreover have "s\<^sup>2 * (?n * (1 + 1 / 2 ^ 53)\<^sup>2) = (px p)\<^sup>2 * s\<^sup>2 * (1 + 1 / 2 ^ 53)\<^sup>2 + (py p)\<^sup>2 * s\<^sup>2 * (1 + 1 / 2 ^ 53)\<^sup>2 +
      (pz p)\<^sup>2 * s\<^sup>2 * (1 + 1 / 2 ^ 53)\<^sup>2"
    by (simp only: distrib_left distrib_right mult.assoc mult.commute mult.left_commute)
  ultimately show ?thesis
    using scaled_trunc_square [of "px p" s] scaled_trunc_square [of "py p" s] scaled_trunc_square [of "pz p" s]
    unfolding in_ball_def quantize_def scale_def Let_def by (simp only: Point.sel point.simps of_int_add of_int_power)
qed

lemma in_ball_origin: "in_ball s (Point 0 0 0)"
  by (simp add: in_ball_def)

lemma PRNG_Float64_unit:
  assumes "PRNG_Float64 r = (u, r')"
  shows "0 \<le> u \<and> u \<le> 1"
proof -
  define w where "w = uint (drop_bit 11 (push_bit 11 (shd r)))"
  have w: "0 \<le> w" "w < 2 ^ 53"
    using uint_lt2p [of "push_bit 11 (shd r)"]
    by (simp_all add: w_def drop_bit_eq_div uint_div pos_imp_zdiv_nonneg_iff)
  have u: "u = fl64 (fl64 (of_int w) / 2 ^ 53)"
    using assms by (simp add: PRNG_Float64_def rand_Float64_def rand_Uint64_def float_ops w_def del: of_int_uint)
  have "fl64 (of_int w) = of_int w" using w by (intro fl64_int) simp
  moreover have "(of_int w :: rat) \<le> of_int (2 ^ 53)" using w by (simp only: of_int_le_iff)
  ultimately show ?thesis unfolding u using w(1) by (intro fl64_unit_pos) simp_all
qed

lemma always_draw [always_intros]: "(\<And>u. 0 \<le> u \<Longrightarrow> u \<le> 1 \<Longrightarrow> P u) \<Longrightarrow> always draw P"
  unfolding always_def draw_def using PRNG_Float64_unit by (fastforce simp: yields_def)

section \<open>The point generators\<close>

text \<open>
  What a \<open>PointGenerator\<close> promises and the galaxy relies on: as many points as asked for, with
  coordinates between -1 and 1.  The sum of the squares of a point of the ball can exceed 1 by
  the last bit when it is computed from rounded sines and cosines, so the contract is the cube.
\<close>

locale point_source =
  fixes gen :: pointGenerator
  assumes points: "always (gen n) (\<lambda>ps. length ps = nat n \<and> list_all in_cube ps)"
begin

lemma grid_within:
  assumes "fl64 s = s" and "0 \<le> s"
  shows "always (gen n) (\<lambda>ps. list_all (in_box s) (map (\<lambda>p. quantize p s) ps))"
  by (rule always_conseq [OF points]) (auto simp: list_all_iff intro: in_box_quantize assms)

lemma nonpositive: "n \<le> 0 \<Longrightarrow> always (gen n) (\<lambda>ps. ps = [])"
  by (rule always_conseq [OF points]) simp

end

lemma coordinate_unit: assumes "0 \<le> u" and "u \<le> 1" shows "\<bar>float_sub (float_mul 2 u) 1\<bar> \<le> 1"
proof -
  have "0 \<le> float_mul 2 u" "float_mul 2 u \<le> 2"
    using f64.between_ints [of 0 "2 * u" 2] assms by (simp_all add: float_mul_def)
  then show ?thesis unfolding float_sub_def by (intro fl64_unit) (simp add: abs_le_iff)
qed

lemma cosTheta_unit: assumes "0 \<le> u" and "u \<le> 1" shows "\<bar>float_sub 1 (float_mul 2 u)\<bar> \<le> 1"
proof -
  have "0 \<le> float_mul 2 u" "float_mul 2 u \<le> 2"
    using f64.between_ints [of 0 "2 * u" 2] assms by (simp_all add: float_mul_def)
  then show ?thesis unfolding float_sub_def by (intro fl64_unit) (simp add: abs_le_iff)
qed

lemma sine_square_unit:
  assumes "\<bar>c\<bar> \<le> 1"
  shows "0 \<le> float_sub 1 (float_mul c c) \<and> float_sub 1 (float_mul c c) \<le> 1"
proof -
  have "c * c \<le> 1" using mult_mono [of "\<bar>c\<bar>" 1 "\<bar>c\<bar>" 1] assms by (simp flip: abs_mult)
  then have "0 \<le> float_mul c c \<and> float_mul c c \<le> 1"
    unfolding float_mul_def by (intro fl64_unit_pos) simp_all
  then show ?thesis unfolding float_sub_def by (intro fl64_unit_pos) simp_all
qed

definition ball_point :: "point \<Rightarrow> bool" where
  "ball_point p \<longleftrightarrow> in_cube p \<and> unit_ball p"

lemma always_NaiveSphere_loop:
  assumes "length points \<le> n" and "list_all ball_point points"
  shows "always (NaiveSphere_loop n points) (\<lambda>ps. length ps = n \<and> list_all ball_point ps)"
proof -
  let ?Q = "\<lambda>n points (r :: prng) res. length points \<le> n \<and> list_all ball_point points \<longrightarrow>
      (\<exists>ps r'. res = Inr (ps, r') \<and> length ps = n \<and> list_all ball_point ps)"
  have "?Q n points r res" if "NaiveSphere_loop n points r = Some res" for r res
  proof (rule NaiveSphere_loop.raw_induct [where P = ?Q, OF _ that])
    fix f :: "nat \<Rightarrow> point list \<Rightarrow> prng \<Rightarrow> (panic + point list \<times> prng) option" and n points r res
    assume IH: "\<And>n points r res. f n points r = Some res \<Longrightarrow> ?Q n points r res"
      and eq: "(if length points < n
        then let (u, r) = PRNG_Float64 r; x = float_sub (float_mul 2 u) 1;
                 (v, r) = PRNG_Float64 r; y = float_sub (float_mul 2 v) 1;
                 (w, r) = PRNG_Float64 r; z = float_sub (float_mul 2 w) 1
          in f n (if norm_squared x y z \<le> 1 then points @ [\<lparr>px = x, py = y, pz = z\<rparr>] else points) r
        else ret (points, r)) = Some res"
    obtain u r1 v r2 w r3 where draws:
      "PRNG_Float64 r = (u, r1)" "PRNG_Float64 r1 = (v, r2)" "PRNG_Float64 r2 = (w, r3)"
      by (metis surj_pair)
    note unit = draws [THEN PRNG_Float64_unit]
    let ?p = "\<lparr>px = float_sub (float_mul 2 u) 1, py = float_sub (float_mul 2 v) 1, pz = float_sub (float_mul 2 w) 1\<rparr>"
    have cube: "in_cube ?p" using unit by (simp add: in_cube_def coordinate_unit)
    show "?Q n points r res"
    proof (cases "length points < n")
      case True
      with eq obtain points' where "f n points' r3 = Some res" "points' = points @ [?p] \<and> ball_point ?p \<or> points' = points"
        using cube by (auto simp: draws Let_def ball_point_def unit_ball_def split: if_splits)
      with IH True show ?thesis by fastforce
    next
      case False
      with eq show ?thesis by auto
    qed
  qed
  with assms show ?thesis unfolding always_def yields_def
    by (fastforce split: option.splits sum.splits)
qed

text \<open>The generators that keep to the ball.\<close>

locale ball_source = point_source +
  assumes ball: "always (gen n) (list_all unit_ball)"
begin

lemma grid_in_ball: "always (gen n) (\<lambda>ps. list_all (in_ball s) (map (\<lambda>p. quantize p s) ps))"
  by (rule always_conseq [OF ball]) (auto simp: list_all_iff intro: in_ball_quantize)

end

lemma NaiveSphere_points: "always (NaiveSphere_Generate n) (\<lambda>ps. length ps = nat n \<and> list_all ball_point ps)"
  by (auto simp: NaiveSphere_Generate_def intro: always_rret always_NaiveSphere_loop)

interpretation naive_sphere: ball_source NaiveSphere_Generate
  by unfold_locales (rule always_conseq [OF NaiveSphere_points], auto simp: list_all_iff ball_point_def)+

lemma always_repeat_points:
  "always pt in_cube \<Longrightarrow> always (repeat_points n pt) (\<lambda>ps. length ps = n \<and> list_all in_cube ps)"
proof (induction n)
  case (Suc n)
  show ?case unfolding repeat_points.simps
    by (rule always_bindI [OF Suc.prems], rule always_bindI [OF Suc.IH [OF Suc.prems]])
      (auto intro: always_rret)
qed (simp add: always_rret)

lemma always_disk_point:
  assumes "math_ok M"
  shows "always (disk_point M) in_cube"
  unfolding disk_point_def Let_def using assms
  by (intro always_rbind always_draw always_rret)
    (simp add: in_cube_def math_ok_def float_mul_unit)

lemma always_sphere_point:
  assumes "math_ok M"
  shows "always (sphere_point M) in_cube"
proof -
  have s: "\<bar>Sqrt M (float_sub 1 (float_mul c c))\<bar> \<le> 1" if "\<bar>c\<bar> \<le> 1" for c
    using sine_square_unit [OF that] assms by (simp add: math_ok_def)
  show ?thesis unfolding sphere_point_def Let_def using assms
    by (intro always_rbind always_draw always_rret)
      (simp add: in_cube_def math_ok_def float_mul_unit s cosTheta_unit)
qed

lemma uniform_disk_source: "math_ok M \<Longrightarrow> point_source (UniformDisk_Generate M)"
  by unfold_locales
    (auto simp: UniformDisk_Generate_def intro: always_rret always_repeat_points always_disk_point)

lemma uniform_sphere_source: "math_ok M \<Longrightarrow> point_source (UniformSphere_Generate M)"
  by unfold_locales
    (auto simp: UniformSphere_Generate_def intro: always_rret always_repeat_points always_sphere_point)

lemma naive_disk_source:
  assumes "math_ok M"
  shows "point_source (NaiveDisk_Generate M)"
proof
  show "always (NaiveDisk_Generate M n) (\<lambda>ps. length ps = nat n \<and> list_all in_cube ps)" for n
    unfolding NaiveDisk_Generate_def
    by (rule always_bindI [OF point_source.points [OF uniform_sphere_source [OF assms]]])
      (auto intro!: always_rret simp: list_all_iff in_cube_def)
qed

section \<open>The radius\<close>

definition cube :: "rat \<Rightarrow> rat" where "cube x = float_mul (float_mul x x) x"

lemma cube_top: "cube (of_int (2 ^ 24)) = 2 ^ 72"
proof -
  have "fl64 (2 ^ 48 :: rat) = 2 ^ 48" using fl64_int [of "2 ^ 48"] by simp
  moreover have "fl64 (2 ^ 72 :: rat) = 2 ^ 72"
    by (rule fl64_exact [of _ 1 72]) (simp_all add: pow2_def)
  ultimately show ?thesis by (simp add: cube_def float_mul_def)
qed

lemma grow_radius_step:
  assumes "\<bar>k\<bar> < 2 ^ 52"
  shows "grow_radius m (of_int k) = (if cube (of_int k) < m then grow_radius m (of_int (k + 1)) else ret (of_int k))"
proof -
  have "float_add (of_int k) 1 = of_int (k + 1)"
    using fl64_int [of "k + 1"] assms by (simp add: float_add_def)
  then show ?thesis by (subst grow_radius.simps) (simp add: cube_def)
qed

lemma grow_radius_returns:
  assumes "k \<le> 2 ^ 24" and "0 \<le> k" and "m \<le> 2 ^ 72"
  shows "\<exists>j. k \<le> j \<and> j \<le> 2 ^ 24 \<and> grow_radius m (of_int k) = ret (of_int j) \<and>
    m \<le> cube (of_int j) \<and> (\<forall>i. k \<le> i \<and> i < j \<longrightarrow> cube (of_int i) < m)"
  using assms(1,2)
proof (induction "nat (2 ^ 24 - k)" arbitrary: k)
  case 0
  then have k: "k = 2 ^ 24" by simp
  show ?case using cube_top assms(3) grow_radius_step [of k m] unfolding k
    by (intro exI [of _ "2 ^ 24"]) simp
next
  case (Suc d)
  have step: "grow_radius m (of_int k) =
      (if cube (of_int k) < m then grow_radius m (of_int (k + 1)) else ret (of_int k))"
    using Suc.prems by (intro grow_radius_step) simp
  show ?case
  proof (cases "cube (of_int k) < m")
    case True
    from Suc.hyps(2) Suc.prems have "d = nat (2 ^ 24 - (k + 1))" "k + 1 \<le> 2 ^ 24" "0 \<le> k + 1" by simp_all
    from Suc.hyps(1) [OF this] obtain j where j: "k + 1 \<le> j" "j \<le> 2 ^ 24"
      "grow_radius m (of_int (k + 1)) = ret (of_int j)" "m \<le> cube (of_int j)"
      "\<forall>i. k + 1 \<le> i \<and> i < j \<longrightarrow> cube (of_int i) < m" by auto
    have "cube (of_int i) < m" if "k \<le> i" "i < j" for i
      using that j(5) True by (cases "i = k") auto
    with j True step show ?thesis by (intro exI [of _ j]) auto
  next
    case False
    with step Suc.prems show ?thesis by (intro exI [of _ k]) auto
  qed
qed

lemma fl64_pow2: "fl64 (2 ^ e) = 2 ^ e"
  by (rule fl64_exact [of _ 1 "int e"]) (simp_all add: pow2_def)

lemma fl64_le_pow2: "x \<le> 2 ^ e \<Longrightarrow> fl64 x \<le> 2 ^ e"
  using fl64_mono [of x "2 ^ e"] by (simp add: fl64_pow2)

lemma minVolume_bound: assumes "n < 2 ^ 63" shows "minVolume n \<le> 2 ^ 72"
proof -
  have "of_int n \<le> (of_int (2 ^ 63) :: rat)" using assms by (simp only: of_int_le_iff)
  then have "float_of_int n \<le> 2 ^ 63" unfolding float_of_int_def by (intro fl64_le_pow2) simp
  then have "float_mul (float_of_int n) 20 \<le> 2 ^ 68"
    unfolding float_mul_def by (intro fl64_le_pow2) simp
  then have "float_mul (float_mul (float_of_int n) 20) 20 \<le> 2 ^ 73"
    unfolding float_mul_def by (intro fl64_le_pow2) simp
  then have "float_mul (float_mul (float_mul (float_of_int n) 20) 20) 20 \<le> 2 ^ 78"
    unfolding float_mul_def by (intro fl64_le_pow2) simp
  then show ?thesis unfolding minVolume_def float_div_def by (intro fl64_le_pow2) simp
qed

text \<open>The least whole radius from 6 on whose cube holds the volume, or the radius asked for.\<close>

definition radius_ok :: "int \<Rightarrow> rat \<Rightarrow> rat \<Rightarrow> bool" where
  "radius_ok n desired radius \<longleftrightarrow>
     (if desired \<le> 6 then \<exists>j. radius = of_int j \<and> 6 \<le> j \<and> j \<le> 2 ^ 24 \<and> minVolume n \<le> cube radius \<and>
        (\<forall>i. 6 \<le> i \<and> i < j \<longrightarrow> cube (of_int i) < minVolume n)
      else radius = desired)"

lemma galaxyRadius_ok:
  assumes "n < 2 ^ 63"
  shows "\<exists>radius. galaxyRadius n desired = ret radius \<and> radius_ok n desired radius"
  using grow_radius_returns [of 6 "minVolume n", OF _ _ minVolume_bound [OF assms]]
  by (auto simp: galaxyRadius_def radius_ok_def)

lemma radius_ok_float:
  assumes "radius_ok n desired radius" and "fl64 desired = desired"
  shows "fl64 radius = radius" and "6 \<le> radius"
proof -
  have *: "fl64 radius = radius \<and> 6 \<le> radius"
  proof (cases "desired \<le> 6")
    case True
    then obtain j where j: "radius = of_int j" "6 \<le> j" "j \<le> 2 ^ 24" using assms(1) by (auto simp: radius_ok_def)
    moreover have "fl64 (of_int j) = (of_int j :: rat)" using j by (intro fl64_int) simp
    moreover have "(of_int 6 :: rat) \<le> of_int j" using j by (simp only: of_int_le_iff)
    ultimately show ?thesis by simp
  next
    case False
    with assms show ?thesis by (simp add: radius_ok_def)
  qed
  then show "fl64 radius = radius" "6 \<le> radius" by simp_all
qed

section \<open>Stars\<close>

definition galaxy_star_ok :: "galaxyStar \<Rightarrow> bool" where
  "galaxy_star_ok s \<longleftrightarrow> 1 \<le> gs_kind s \<and> gs_kind s \<le> 4 \<and> 1 \<le> gs_color s \<and> gs_color s \<le> 7 \<and>
     0 \<le> gs_size s \<and> gs_size s \<le> 9 \<and> gs_numPlanets s = 0 \<and> \<not> gs_homeSystem s"

lemma always_planet_rolls:
  assumes "1 \<le> kind" and "kind \<le> 4" and "1 \<le> color" and "color \<le> 7"
  shows "always (planet_rolls kind color) (\<lambda>n. 1 \<le> n \<and> n \<le> 9)"
proof -
  have roll: "always (Roll 1 m) (\<lambda>d. 1 \<le> d \<and> d \<le> k)" if "1 \<le> m" "m \<le> k" "m < 2 ^ 62" for m k
    using that by (intro always_Roll) auto
  show ?thesis unfolding planet_rolls_def Let_def
    by (rule always_bindI [where P = "\<lambda>_. True"], rule always_repeat_rolls [OF roll [OF _ order_refl]])
      (use assms in \<open>auto intro!: always_rbind always_bump_up [OF roll [of 2 2]] always_bump_down [OF roll [of 3 3]]\<close>)
qed

lemma always_galaxy_star: "always (galaxy_star p) (\<lambda>s. gs_Point s = p \<and> galaxy_star_ok s)"
  unfolding galaxy_star_def Let_def
  by (intro always_rbind always_Roll always_dice always_conseq [OF always_planet_rolls] always_rret)
    (auto simp: galaxy_star_ok_def)

lemma always_galaxy_stars:
  "always (galaxy_stars ps) (\<lambda>ss. map gs_Point ss = ps \<and> list_all galaxy_star_ok ss)"
proof (induction ps)
  case (Cons p ps)
  show ?case unfolding galaxy_stars.simps
    by (rule always_bindI [OF always_galaxy_star], rule always_bindI [OF Cons.IH])
      (auto intro: always_rret)
qed (simp add: always_rret)

section \<open>The grid\<close>

definition grid_ok :: "int \<Rightarrow> rat \<Rightarrow> Point list \<Rightarrow> bool" where
  "grid_ok n radius grid \<longleftrightarrow> distinct grid \<and> Point 0 0 0 \<in> set grid \<and>
     int (length grid) \<le> max 1 n \<and> list_all (in_box radius) grid"

lemma grid_ok_start: "0 \<le> radius \<Longrightarrow> grid_ok n radius [Point 0 0 0]"
  by (simp add: grid_ok_def in_box_def)

lemma fill_grid_ok:
  assumes "grid_ok n radius grid" and "list_all in_cube ps" and "fl64 radius = radius" and "0 \<le> radius"
  shows "grid_ok n radius (fill_grid n radius ps grid)"
  using assms(1,2)
proof (induction ps arbitrary: grid)
  case (Cons p ps)
  have "grid_ok n radius (List.insert (quantize p radius) grid)" if "int (length grid) < n"
    using that Cons.prems assms(3,4)
    by (auto simp: grid_ok_def list_all_iff List.insert_def in_box_quantize)
  with Cons show ?case by (simp add: not_le)
qed simp

lemma fill_grid_all:
  assumes "list_all B grid" and "list_all (\<lambda>p. B (quantize p radius)) ps"
  shows "list_all B (fill_grid n radius ps grid)"
  using assms
proof (induction ps arbitrary: grid)
  case (Cons p ps)
  have "list_all B (List.insert (quantize p radius) grid)" using Cons.prems by (auto simp: list_all_iff)
  with Cons show ?case by simp
qed simp

text \<open>The last point is not lost: the grid stops short of the number only if the points ran out.\<close>

lemma fill_grid_full:
  "int (length (fill_grid n radius ps grid)) < n \<Longrightarrow>
     set (fill_grid n radius ps grid) = set grid \<union> (\<lambda>p. quantize p radius) ` set ps"
  by (induction ps arbitrary: grid) (auto split: if_splits)

definition galaxy_ok :: "int \<Rightarrow> rat \<Rightarrow> Galaxy \<Rightarrow> bool" where
  "galaxy_ok n desired g \<longleftrightarrow> radius_ok n desired (gx_Radius g) \<and>
     sorted_wrt (\<lambda>p q. Less p q \<and> p \<noteq> q) (map gs_Point (gx_Stars g)) \<and>
     Point 0 0 0 \<in> gs_Point ` set (gx_Stars g) \<and> int (length (gx_Stars g)) \<le> max 1 n \<and>
     list_all (\<lambda>s. in_box (gx_Radius g) (gs_Point s) \<and> galaxy_star_ok s) (gx_Stars g)"

text \<open>What \<open>range\<close> over a map promises: every key once, in any order.\<close>

definition range_order :: "('a list \<Rightarrow> 'a list) \<Rightarrow> bool" where
  "range_order order \<longleftrightarrow> (\<forall>xs. mset (order xs) = mset xs)"

lemma sort_by_Less_order: "range_order order \<Longrightarrow> sort_by Less (order ps) = sort ps"
  unfolding sort_by_Less range_order_def
  by (metis properties_for_sort sorted_sort mset_sort)

lemma always_both: "always m P \<Longrightarrow> always m Q \<Longrightarrow> always m (\<lambda>a. P a \<and> Q a)"
  unfolding always_def yields_def by (fastforce split: option.splits sum.splits)

lemma always_StandardGalaxy_within:
  assumes "0 \<le> n" and "n < 2 ^ 63" and "fl64 desired = desired"
    and order: "range_order order" and src: "point_source pg"
    and more_src: "\<And>m. always (pg m) (list_all Q)" and B: "\<And>p radius. Q p \<Longrightarrow> B radius (quantize p radius)" "\<And>radius. B radius (Point 0 0 0)"
  shows "always (StandardGalaxy_Generate order n desired pg)
    (\<lambda>g. galaxy_ok n desired g \<and> list_all (\<lambda>s. B (gx_Radius g) (gs_Point s)) (gx_Stars g))"
proof -
  let ?ok = "\<lambda>g. galaxy_ok n desired g \<and> list_all (\<lambda>s. B (gx_Radius g) (gs_Point s)) (gx_Stars g)"
  obtain radius where r: "galaxyRadius n desired = ret radius" "radius_ok n desired radius"
    using galaxyRadius_ok [OF assms(2)] by blast
  note rf = radius_ok_float [OF r(2) assms(3)]
  have step: "always (let grid = fill_grid n radius ps [Point 0 0 0]; points = sort_by Less (order grid)
      in rbind (galaxy_stars points) (\<lambda>stars. rret \<lparr>gx_Radius = radius, gx_Stars = stars\<rparr>)) ?ok"
    if "list_all in_cube ps" "list_all Q ps" for ps
  proof -
    define grid where "grid = fill_grid n radius ps [Point 0 0 0]"
    have g: "grid_ok n radius grid" unfolding grid_def using rf that
      by (intro fill_grid_ok grid_ok_start) auto
    have b: "list_all (B radius) grid" unfolding grid_def using that(2) B
      by (intro fill_grid_all) (auto simp: list_all_iff)
    have ok: "?ok \<lparr>gx_Radius = radius, gx_Stars = ss\<rparr>"
      if "map gs_Point ss = sort grid" "list_all galaxy_star_ok ss" for ss
    proof -
      have "gs_Point ` set ss = set grid" using that(1) by (metis set_map set_sort)
      moreover have "length ss = length grid" using that(1) by (metis length_map length_sort)
      moreover have "B radius (gs_Point s)" if "s \<in> set ss" for s
        using b calculation(1) that by (auto simp: list_all_iff)
      ultimately show ?thesis using that g r(2)
        by (auto simp: galaxy_ok_def grid_ok_def strictly_sorted_Less list_all_iff)
    qed
    show ?thesis unfolding Let_def sort_by_Less_order [OF order]
      by (rule always_bindI [OF always_galaxy_stars]) (auto intro!: always_rret ok simp: grid_def)
  qed
  show ?thesis unfolding StandardGalaxy_Generate_def
    by (rule always_rbind, rule always_rlift)
      (use r(1) assms(1) step in \<open>auto simp: yields_def intro!: always_bindI [OF always_both [OF point_source.points [OF src] more_src]]\<close>)
qed

lemma always_StandardGalaxy:
  assumes "0 \<le> n" and "n < 2 ^ 63" and "fl64 desired = desired" and "range_order order" and "point_source pg"
  shows "always (StandardGalaxy_Generate order n desired pg) (galaxy_ok n desired)"
proof -
  have src: "always (pg m) (list_all (\<lambda>_. True))" for m
    by (rule always_conseq [OF point_source.points [OF assms(5)]]) (simp add: list_all_iff)
  have "always (StandardGalaxy_Generate order n desired pg)
      (\<lambda>g. galaxy_ok n desired g \<and> list_all (\<lambda>s. (\<lambda>_ _. True) (gx_Radius g) (gs_Point s)) (gx_Stars g))"
    by (rule always_StandardGalaxy_within [OF assms src]) simp_all
  then show ?thesis by (rule always_conseq) simp
qed

text \<open>With the standard generator and every option given.\<close>

lemma Galaxy_Generate_standard:
  "Galaxy_Generate M order [WithDesiredNumberOfSystems_cartesian n, WithDesiredRadius_cartesian desired,
     WithPointGenerator pg, WithPRNG_cartesian r] =
   go_bind (StandardGalaxy_Generate order n desired pg r) (\<lambda>(g, r). ret (Inr g))"
  by (simp add: Galaxy_Generate_def galaxy_defaults_def WithDesiredNumberOfSystems_cartesian_def
      WithDesiredRadius_cartesian_def WithPointGenerator_def WithPRNG_cartesian_def)

lemma range_order_id: "range_order (\<lambda>ps. ps)"
  by (simp add: range_order_def)

lemma range_order_rev: "range_order rev"
  by (simp add: range_order_def)

section \<open>The radius in integers\<close>

text \<open>For up to \<open>2 ^ 40\<close> systems the floats of the radius search decide as integers would.\<close>

lemma int_pow_bound:
  fixes i :: int
  assumes "0 \<le> i" and "i \<le> 2 ^ 16"
  shows "i * i \<le> 2 ^ 32" and "i ^ 3 \<le> 2 ^ 48"
  using power_mono [OF assms(2,1), of 2] power_mono [OF assms(2,1), of 3] by (simp_all add: power2_eq_square)

lemma cube_int:
  assumes "0 \<le> i" and "i \<le> 2 ^ 16"
  shows "cube (of_int i) = of_int (i ^ 3)"
proof -
  note b = int_pow_bound [OF assms]
  have "float_mul (of_int i) (of_int i) = of_int (i * i)"
    using fl64_int [of "i * i"] b(1) assms(1) by (simp add: float_mul_def)
  moreover have "float_mul (of_int (i * i)) (of_int i) = of_int (i ^ 3)"
    using fl64_int [of "i ^ 3"] b(2) assms(1) by (simp add: float_mul_def power3_eq_cube)
  ultimately show ?thesis by (simp add: cube_def)
qed

lemma minVolume_int:
  assumes "0 \<le> n" and "n \<le> 2 ^ 39"
  shows "minVolume n = fl64 (of_int (800 * n) / 9)"
proof -
  have "float_of_int n = of_int n" using fl64_int [of n] assms by (simp add: float_of_int_def)
  moreover have "float_mul (of_int n) 20 = of_int (20 * n)"
    using fl64_int [of "20 * n"] assms by (simp add: float_mul_def mult.commute)
  moreover have "float_mul (of_int (20 * n)) 20 = of_int (400 * n)"
    using fl64_int [of "400 * n"] assms by (simp add: float_mul_def mult.commute)
  moreover have "float_mul (of_int (400 * n)) 20 = of_int (8000 * n)"
    using fl64_int [of "8000 * n"] assms by (simp add: float_mul_def mult.commute)
  ultimately show ?thesis by (simp add: minVolume_def float_div_def)
qed

lemma cube_less_minVolume:
  assumes i: "0 \<le> i" "i \<le> 2 ^ 16" and n: "0 \<le> n" "n \<le> 2 ^ 39"
  shows "cube (of_int i) < minVolume n \<longleftrightarrow> 9 * i ^ 3 < 800 * n"
proof
  assume "cube (of_int i) < minVolume n"
  then have less: "of_int (i ^ 3) < fl64 (of_int (800 * n) / 9)" 
    unfolding cube_int [OF i] minVolume_int [OF n] .
  show "9 * i ^ 3 < 800 * n"
  proof (rule ccontr)
    assume "\<not> 9 * i ^ 3 < 800 * n"
    then have "(of_int (800 * n) :: rat) \<le> of_int (9 * i ^ 3)" by (simp only: of_int_le_iff not_less)
    then have "of_int (800 * n) / 9 \<le> (of_int (i ^ 3) :: rat)" by (simp add: divide_le_eq)
    from fl64_mono [OF this] have "fl64 (of_int (800 * n) / 9) \<le> of_int (i ^ 3)"
      using fl64_int [of "i ^ 3"] int_pow_bound(2) [OF i] i(1) by simp
    with less show False by simp
  qed
next
  assume "9 * i ^ 3 < 800 * n"
  then have "16 * (9 * i ^ 3 + 1) \<le> 16 * (800 * n)" by simp
  then have "9 * (16 * i ^ 3 + 1) \<le> 16 * (800 * n)" by simp
  then have "(of_int (9 * (16 * i ^ 3 + 1)) :: rat) \<le> of_int (16 * (800 * n))" by (simp only: of_int_le_iff)
  then have "of_int (16 * i ^ 3 + 1) / 16 \<le> (of_int (800 * n) / 9 :: rat)" by (simp add: field_simps)
  from fl64_mono [OF this] have "fl64 (of_int (16 * i ^ 3 + 1) / 16) \<le> minVolume n"
    unfolding minVolume_int [OF n] .
  moreover have "fl64 (of_int (16 * i ^ 3 + 1) / 16) = of_int (16 * i ^ 3 + 1) / 16"
    using int_pow_bound(2) [OF i] i(1)
    by (intro fl64_exact [where m = "16 * i ^ 3 + 1" and e = "-4"]) (simp_all add: pow2_def)
  ultimately have "of_int (16 * i ^ 3 + 1) / 16 \<le> minVolume n" by (simp only:)
  moreover have "(of_int (i ^ 3) :: rat) < of_int (16 * i ^ 3 + 1) / 16" by simp
  ultimately show "cube (of_int i) < minVolume n" unfolding cube_int [OF i] by (rule less_le_trans [rotated])
qed

section \<open>Properties\<close>

text \<open>C33.  \<open>Generate\<close> with the standard galaxy generator, any point generator that keeps its contract
  and any of the settings never panics, and what it returns is a galaxy: its stars stand on distinct points in
  the order of \<open>Less\<close>, the origin among them, inside the cube of its radius (with the generator that rejects the points
  outside the ball: inside the ball of its radius, up to rounding), at most as many as
  asked for, with kind, color and size in their ranges and, because the number it rolls is not stored, without planets; and
  the order in which the map of the location grid is visited has no influence on the result.\<close>

theorem Galaxy_Generate_correct:
  fixes order order' :: "Point list \<Rightarrow> Point list"
  defines "options \<equiv> \<lambda>n desired pg r. [WithDesiredNumberOfSystems_cartesian n, WithDesiredRadius_cartesian desired,
    WithPointGenerator pg, WithPRNG_cartesian r]"
  assumes "0 \<le> n" and "n < 2 ^ 63" and "fl64 desired = desired" and "desired < 2 ^ 63"
    and "range_order order" and "range_order order'" and "point_source pg"
  shows "yields (Galaxy_Generate M order (options n desired pg r)) (\<lambda>res. \<exists>g. res = Inr g \<and> galaxy_ok n desired g \<and>
      (pg = NaiveSphere_Generate \<longrightarrow> list_all (\<lambda>s. in_ball (gx_Radius g) (gs_Point s)) (gx_Stars g))) \<and>
    (Galaxy_Generate M order (options n desired pg r) :: ('e + Galaxy) go) =
      Galaxy_Generate M order' (options n desired pg r)"
proof
  have gen: "Galaxy_Generate M ord (options n desired pg r) =
      go_bind (StandardGalaxy_Generate ord n desired pg r) (\<lambda>(g, r). ret (Inr g))" for ord
    unfolding options_def by (rule Galaxy_Generate_standard)
  let ?Q = "\<lambda>p. pg = NaiveSphere_Generate \<longrightarrow> unit_ball p"
  let ?B = "\<lambda>radius p. pg = NaiveSphere_Generate \<longrightarrow> in_ball radius p"
  have src: "always (pg m) (list_all ?Q)" for m
    using naive_sphere.ball [of m] point_source.points [OF assms(8), of m]
    by (cases "pg = NaiveSphere_Generate") (auto elim!: always_conseq simp: list_all_iff)
  have "always (StandardGalaxy_Generate order n desired pg)
      (\<lambda>g. galaxy_ok n desired g \<and> list_all (\<lambda>s. ?B (gx_Radius g) (gs_Point s)) (gx_Stars g))"
    by (rule always_StandardGalaxy_within [where Q = ?Q and B = ?B, OF assms(2,3,4,6,8) src])
      (auto intro: in_ball_quantize in_ball_origin)
  from alwaysD [OF this, of r]
  show "yields (Galaxy_Generate M order (options n desired pg r)) (\<lambda>res. \<exists>g. res = Inr g \<and> galaxy_ok n desired g \<and>
      (pg = NaiveSphere_Generate \<longrightarrow> list_all (\<lambda>s. in_ball (gx_Radius g) (gs_Point s)) (gx_Stars g)))"
    unfolding gen by (rule yields_bind [OF yields_conseq]) (auto simp: list_all_iff)
  show "(Galaxy_Generate M order (options n desired pg r) :: ('e + Galaxy) go) =
      Galaxy_Generate M order' (options n desired pg r)"
    unfolding gen StandardGalaxy_Generate_def sort_by_Less_order [OF assms(6)] sort_by_Less_order [OF assms(7)] ..
qed

theorem Galaxy_Generate_correct_witness:
  "yields (Galaxy_Generate flat_math rev
      [WithDesiredNumberOfSystems_cartesian 100, WithDesiredRadius_cartesian 0, WithPointGenerator NaiveSphere_Generate,
       WithPRNG_cartesian (NewFromSeed 10 10)] :: (string + Galaxy) go)
    (\<lambda>res. \<exists>g. res = Inr g \<and> galaxy_ok 100 0 g \<and> list_all (\<lambda>s. in_ball (gx_Radius g) (gs_Point s)) (gx_Stars g)) \<and>
   yields (Galaxy_Generate flat_math rev
      [WithDesiredNumberOfSystems_cartesian 100, WithDesiredRadius_cartesian 0, WithPointGenerator (NaiveDisk_Generate flat_math),
       WithPRNG_cartesian (NewFromSeed 10 10)] :: (string + Galaxy) go)
    (\<lambda>res. \<exists>g. res = Inr g \<and> galaxy_ok 100 0 g)"
proof -
  have "yields (Galaxy_Generate flat_math rev
      [WithDesiredNumberOfSystems_cartesian 100, WithDesiredRadius_cartesian 0, WithPointGenerator pg,
       WithPRNG_cartesian (NewFromSeed 10 10)] :: (string + Galaxy) go)
    (\<lambda>res. \<exists>g. res = Inr g \<and> galaxy_ok 100 0 g \<and>
      (pg = NaiveSphere_Generate \<longrightarrow> list_all (\<lambda>s. in_ball (gx_Radius g) (gs_Point s)) (gx_Stars g)))" if "point_source pg" for pg
    by (rule Galaxy_Generate_correct [where order' = rev, THEN conjunct1]) (simp_all add: range_order_rev that)
  note run = this [OF naive_sphere.point_source_axioms] this [OF naive_disk_source [OF flat_math_ok]]
  show ?thesis by (intro conjI) (rule yields_conseq [OF run(1)], blast, rule yields_conseq [OF run(2)], blast)
qed

text \<open>C34.  The search for the radius ends, and its floats decide as integers would: for up to
  \<open>2 ^ 39\<close> systems and no radius above 6 asked for, the radius is the least whole number from 6
  on whose cube holds the volume of 8000 cubic parsecs for every 90 systems.\<close>

theorem galaxyRadius_least:
  assumes "0 \<le> n" and "n \<le> 2 ^ 39" and "desired \<le> 6"
  shows "\<exists>j \<ge> 6. galaxyRadius n desired = ret (of_int j) \<and> 800 * n \<le> 9 * j ^ 3 \<and>
    (\<forall>i. 6 \<le> i \<and> i < j \<longrightarrow> 9 * i ^ 3 < 800 * n)"
proof -
  have "n < 2 ^ 63" using assms by simp
  from galaxyRadius_ok [OF this, of desired] obtain j where j: "galaxyRadius n desired = ret (of_int j)"
    "6 \<le> j" "minVolume n \<le> cube (of_int j)" "\<And>i. 6 \<le> i \<Longrightarrow> i < j \<Longrightarrow> cube (of_int i) < minVolume n"
    using assms(3) by (auto simp: radius_ok_def)
  have "\<not> cube (of_int (2 ^ 16)) < minVolume n"
    using assms cube_less_minVolume [of "2 ^ 16" n] by simp
  with j(4) [of "2 ^ 16"] have "j \<le> 2 ^ 16" by force
  with j cube_less_minVolume [OF _ _ assms(1,2)] show ?thesis
    by (intro exI [of _ j]) (auto simp: not_less [symmetric])
qed

theorem galaxyRadius_least_witness:
  "\<exists>j \<ge> 6. galaxyRadius 90 0 = ret (of_int j) \<and> 800 * 90 \<le> 9 * j ^ 3 \<and>
    (\<forall>i. 6 \<le> i \<and> i < j \<longrightarrow> 9 * i ^ 3 < 800 * (90::int))"
  by (rule galaxyRadius_least) simp_all

text \<open>\<open>nearestNeighbor\<close> returns the index of a nearest point, the lowest one among equals, and
  \<open>noCloserThan\<close> agrees with it: it asks whether that point is at the distance at least.\<close>

theorem nearestNeighbor_correct:
  assumes "ps \<noteq> []"
  shows "\<exists>k < length ps. nearestNeighbor p ps = int k \<and>
    (\<forall>j < length ps. distanceSquared p (ps ! k) \<le> distanceSquared p (ps ! j)) \<and>
    (\<forall>j < k. distanceSquared p (ps ! k) < distanceSquared p (ps ! j)) \<and>
    (noCloserThan p ps d \<longleftrightarrow> d \<le> 0 \<or> float_mul d d \<le> distanceSquared p (ps ! k))"
proof -
  obtain k where k: "nearest_at p ps k" "nearestNeighbor p ps = int k"
    using nearestNeighbor_nearest [OF assms] by blast
  have "noCloserThan p ps d \<longleftrightarrow> d \<le> 0 \<or> float_mul d d \<le> distanceSquared p (ps ! k)"
    using k(1) unfolding noCloserThan_def noCloserThan_loop_iff nearest_at_def all_set_conv_all_nth
    by (auto intro: order_trans)
  with k show ?thesis by (intro exI [of _ k]) (simp add: nearest_at_def)
qed

theorem nearestNeighbor_correct_witness:
  "\<exists>k < 2. nearestNeighbor \<lparr>px = 0, py = 0, pz = 0\<rparr> [\<lparr>px = 1, py = 0, pz = 0\<rparr>, \<lparr>px = 0, py = 1 / 2, pz = 0\<rparr>] = int k"
  using nearestNeighbor_correct [of "[\<lparr>px = 1, py = 0, pz = 0\<rparr>, \<lparr>px = 0, py = 1 / 2, pz = 0\<rparr>]"
      "\<lparr>px = 0, py = 0, pz = 0\<rparr>" 0]
  by (simp only: list.simps list.size not_False_eq_True simp_thms) auto

text \<open>The searches over integer points do not do what they document: whatever points it gets
  (with coordinates up to \<open>2 ^ 29\<close>), \<open>NearestNeighbor\<close> answers -1, and \<open>DistanceSquared\<close>, which
  subtracts the second point's Y from the first one's X, gives a point a distance from itself and
  so makes \<open>NoCloserThan\<close> take distances for what they are not.\<close>

theorem NearestNeighbor_blind:
  assumes "\<forall>p \<in> set ps. small p" and "0 \<le> n" and "n < int (length ps)"
  shows "NearestNeighbor ps n = ret (-1) \<and>
    (\<forall>p \<in> set ps. \<forall>q \<in> set ps. DistanceSquared p q = (X p - X q)\<^sup>2 + (X p - Y q)\<^sup>2 + (Z p - Z q)\<^sup>2) \<and>
    (\<forall>p \<in> set ps. DistanceSquared p p = 0 \<longleftrightarrow> X p = Y p)"
proof -
  have "ps ! nat n \<in> set ps" using assms by simp
  with assms have "NearestNeighbor ps n = ret (-1)"
    by (simp add: NearestNeighbor_def go_index_def NearestNeighbor_loop_blind)
  with assms(1) show ?thesis by (simp add: DistanceSquared_small)
qed

theorem NearestNeighbor_blind_witness:
  "NearestNeighbor [Point 0 0 0, Point 1 0 0] 0 = ret (-1) \<and> DistanceSquared (Point 1 0 0) (Point 1 0 0) \<noteq> 0"
  using NearestNeighbor_blind [of "[Point 0 0 0, Point 1 0 0]" 0] by (simp add: small_def)

end
