(* ===== verification/Plots.thy ===== *)
theory Plots
  imports Viewer Cartesian Host
begin

text \<open>
  The viewers of internal/worldgen/cartesian: hex_viewer.go (the galaxy snapped to a grid of hexes) and
  points_viewer.go (an oblique projection of the points and their projections to the planes).  As in
  theory Viewer a page is the list of the shapes it shows, with the coordinates as floats; markup and
  the printing of numbers are not modelled.  \<open>slices.SortFunc\<close> leaves the order of equal keys open;
  the model takes the one of insertion.  The main results: the hex map accounts for every star of the
  galaxy whatever the order in which Go visits its map of cells, and the picture of a generated galaxy
  shows every star in each of its five views, inside the frame of the view.
\<close>

section \<open>Shapes\<close>

datatype plot =
    Outline "(rat \<times> rat) list"
  | Segment rat rat rat rat
  | Box rat rat rat rat
  | Dot rat rat rat "rat option"
  | Caption rat rat string
  | More rat rat rat int

record plotPage =
  pp_width :: int
  pp_height :: int
  pp_items :: "plot list"

section \<open>The hex map of a galaxy\<close>

text \<open>\<open>pixelToOddQ\<close>: fractional axial coordinates, rounded in the cube, as column and row.\<close>

definition cube_round :: "rat \<Rightarrow> rat \<Rightarrow> rat \<Rightarrow> rat \<times> rat" where
  "cube_round cx cy cz =
     (let rx = of_int (math_Round cx); ry = of_int (math_Round cy); rz = of_int (math_Round cz);
          dx = \<bar>float_sub rx cx\<bar>; dy = \<bar>float_sub ry cy\<bar>; dz = \<bar>float_sub rz cz\<bar>
      in if dx > dy \<and> dx > dz then (float_sub (- ry) rz, rz)
         else if dy > dz then (rx, rz)
         else (rx, float_sub (- rx) ry))"

definition pixelToOddQ :: "mathLib \<Rightarrow> rat \<Rightarrow> rat \<Rightarrow> rat \<Rightarrow> int \<times> int" where
  "pixelToOddQ M x y sz =
     (let q = float_div (float_mul (fl64 (2 / 3)) x) sz;
          r = float_div (float_add (float_mul (fl64 (- 1 / 3)) x) (float_mul (float_div (Sqrt M 3) 3) y)) sz;
          cx = q; cz = r; cy = float_sub (- cx) cz;
          (rx, rz) = cube_round cx cy cz;
          aq = float_trunc rx; ar = float_trunc rz
      in (aq, ar + (aq - aq mod 2) div 2))"

definition cell_items :: "mathLib \<Rightarrow> (int \<times> int \<Rightarrow> int) \<Rightarrow> rat \<Rightarrow> int \<Rightarrow> int \<Rightarrow> plot list" where
  "cell_items M cells pixSize col row =
     (case cell_centre M pixSize col row of (cx, cy) \<Rightarrow>
        let k = cells (col, row) in
        Outline (hex_corners M pixSize cx cy) #
        (if k = 1 then [Dot cx cy (float_mul pixSize (fl64 (27 / 100))) None]
         else if k > 1 then [Dot cx cy (float_mul pixSize (fl64 (27 / 100))) None,
           More cx (float_add cy (float_mul pixSize (fl64 (48 / 100)))) (float_mul pixSize (fl64 (38 / 100))) (k - 1)]
         else []))"

definition renderHexHTML_cartesian :: "mathLib \<Rightarrow> (int \<times> int \<Rightarrow> int) \<Rightarrow> int \<Rightarrow> int \<Rightarrow> rat \<Rightarrow> rat \<Rightarrow> rat \<Rightarrow> plotPage" where
  "renderHexHTML_cartesian M cells numCols numRows pixSize svgW svgH =
     (let (numCols, numRows) = (if numCols \<le> 0 \<or> numRows \<le> 0 then (1, 1) else (numCols, numRows));
          pixSize = fit_grid M numCols numRows pixSize;
          svgW = (if svgW \<le> 0 then of_int \<lceil>float_add (float_mul pixSize (float_add (float_mul (3 / 2) (float_of_int numCols)) (1 / 2))) 80\<rceil> else svgW);
          svgH = (if svgH \<le> 0 then of_int \<lceil>float_add (float_mul (float_mul pixSize (Sqrt M 3)) (float_add (float_of_int numRows) (1 / 2))) 80\<rceil> else svgH)
      in \<lparr>pp_width = float_trunc svgW, pp_height = float_trunc svgH,
          pp_items = concat (map (\<lambda>col. concat (map (cell_items M cells pixSize col) [0..numRows - 1])) [0..numCols - 1])\<rparr>)"

text \<open>The stars' cells, the number of stars of each, and the bounds of the cells in the order in which
  \<open>range\<close> visits the map.\<close>

definition least_int :: "int list \<Rightarrow> int" where
  "least_int xs = fold (\<lambda>x m. if x < m then x else m) (tl xs) (hd xs)"
definition greatest_int :: "int list \<Rightarrow> int" where
  "greatest_int xs = fold (\<lambda>x m. if x > m then x else m) (tl xs) (hd xs)"

definition count_cells :: "(int \<times> int) list \<Rightarrow> int \<times> int \<Rightarrow> int" where
  "count_cells hs = fold (\<lambda>h m. m(h := m h + 1)) hs (\<lambda>_. 0)"

definition cell_size :: "(rat \<times> rat) list \<Rightarrow> rat \<Rightarrow> rat" where
  "cell_size stars cellSize =
     (let minX = least_of (map fst stars); maxX = greatest_of (map fst stars);
          minY = least_of (map snd stars); maxY = greatest_of (map snd stars);
          worldW = (let w = float_sub maxX minX in if w = 0 then 1 else w);
          worldH = (let h = float_sub maxY minY in if h = 0 then 1 else h)
      in if cellSize \<le> 0
         then (let c = float_div (max worldW worldH) 40 in if c \<le> 0 then 1 else c)
         else cellSize)"

definition shift_cells :: "(int \<times> int \<Rightarrow> int) \<Rightarrow> int \<Rightarrow> int \<Rightarrow> (int \<times> int) list \<Rightarrow> int \<times> int \<Rightarrow> int" where
  "shift_cells counts minQ minR keys = fold (\<lambda>h m. m((fst h - minQ + 1, snd h - minR + 1) := counts h)) keys (\<lambda>_. 0)"

definition GalaxyToHexHTML :: "mathLib \<Rightarrow> ((int \<times> int) list \<Rightarrow> (int \<times> int) list) \<Rightarrow> Galaxy \<Rightarrow> rat \<Rightarrow> plotPage" where
  "GalaxyToHexHTML M order g cellSize =
     (if gx_Stars g = [] then renderHexHTML_cartesian M (\<lambda>_. 0) 0 0 0 0 0
      else
        let stars = map (\<lambda>s. (float_of_int (X (gs_Point s)), float_of_int (Y (gs_Point s)))) (gx_Stars g);
            cellSize = cell_size stars cellSize;
            hs = map (\<lambda>(x, y). pixelToOddQ M x y cellSize) stars;
            counts = count_cells hs;
            keys = order (remdups hs);
            minQ = least_int (map fst keys); maxQ = greatest_int (map fst keys);
            minR = least_int (map snd keys); maxR = greatest_int (map snd keys)
        in renderHexHTML_cartesian M (shift_cells counts minQ minR keys) (maxQ - minQ + 3) (maxR - minR + 3) 0 0 0)"

section \<open>The picture of the points\<close>

definition clamp01 :: "rat \<Rightarrow> rat" where
  "clamp01 t = (if t < 0 then 0 else if t > 1 then 1 else t)"

text \<open>\<open>html.EscapeString\<close>\<close>

definition EscapeString :: "string \<Rightarrow> string" where
  "EscapeString s = concat (map (\<lambda>c.
     if c = CHR ''&'' then ''&amp;'' else if c = CHR 0x27 then ''&#39;'' else if c = CHR ''<'' then ''&lt;''
     else if c = CHR ''>'' then ''&gt;'' else if c = CHR 0x22 then ''&#34;'' else [c]) s)"

definition opacity_of :: "rat \<Rightarrow> rat" where
  "opacity_of t = float_add (fl64 (62 / 100)) (float_mul (fl64 (33 / 100)) t)"

text \<open>A point in a panel, with the key the panel's points are sorted by.\<close>

definition panel_point :: "rat \<Rightarrow> rat \<Rightarrow> rat \<Rightarrow> rat \<Rightarrow> (point \<Rightarrow> rat \<times> rat \<times> rat) \<Rightarrow> point \<Rightarrow> rat \<times> plot" where
  "panel_point plotX plotY plotW plotH proj p =
     (case proj p of (u, v, t) \<Rightarrow>
        let ix = float_add plotX (float_mul (float_div (float_add u 1) 2) plotW);
            iy = float_sub (float_add plotY plotH) (float_mul (float_div (float_add v 1) 2) plotH);
            k = clamp01 (float_div (float_add t 1) 2)
        in (float_add iy (float_mul (fl64 (1 / 10)) ix),
            Dot ix iy (float_add (fl64 (27 / 10)) (float_mul (fl64 (9 / 10)) k)) (Some (opacity_of k))))"

definition by_key :: "rat \<times> 'a \<Rightarrow> rat \<times> 'a \<Rightarrow> bool" where
  "by_key a b \<longleftrightarrow> cmp_Compare (fst a) (fst b) \<le> 0"

definition writeProjectionPanel ::
  "point list \<Rightarrow> string \<Rightarrow> rat \<Rightarrow> rat \<Rightarrow> rat \<Rightarrow> rat \<Rightarrow> (point \<Rightarrow> rat \<times> rat \<times> rat) \<Rightarrow> plot list" where
  "writeProjectionPanel points label x y w h proj =
     (if w \<le> 0 \<or> h \<le> 0 then []
      else [Box x y w h, Caption (float_add x 8) (float_add y 16) (EscapeString label)] @
        (let plotX = float_add x 18; plotY = float_add (float_add y 18) 8;
             plotW = float_sub w 36; plotH = float_sub (float_sub h 36) 8
         in if plotW \<le> 0 \<or> plotH \<le> 0 then []
            else
              let midX = float_add plotX (float_div plotW 2); midY = float_add plotY (float_div plotH 2)
              in [Box plotX plotY plotW plotH, Segment midX plotY midX (float_add plotY plotH),
                  Segment plotX midY (float_add plotX plotW) midY] @
                 map snd (sort_by by_key (map (panel_point plotX plotY plotW plotH proj) points))))"

text \<open>The layout of the page and the oblique projection.\<close>

record pageLayout =
  la_mainX :: rat
  la_mainY :: rat
  la_mainH :: rat
  la_insetX :: rat
  la_insetY :: rat
  la_cx :: rat
  la_cy :: rat
  la_sx :: rat
  la_sy :: rat
  la_sz :: rat

definition page_layout :: "rat \<Rightarrow> rat \<Rightarrow> bool \<Rightarrow> pageLayout" where
  "page_layout pageW pageH debug =
     (let contentTop = 52; contentBottom = float_sub pageH 24;
          mainX = 24; mainY = contentTop; mainW = float_sub pageW 48;
          mainH = float_sub contentBottom contentTop;
          mainH = (if debug then float_sub mainH 196 else mainH);
          insetX = float_sub (float_add mainX mainW) 180; insetY = mainY;
          room = float_sub (float_sub insetX 12) mainX;
          mainPlotW = (if room > 260 then room else mainW)
      in \<lparr>la_mainX = mainX, la_mainY = mainY, la_mainH = mainH, la_insetX = insetX, la_insetY = insetY,
          la_cx = float_add mainX (float_mul mainPlotW (fl64 (52 / 100))),
          la_cy = float_add mainY (float_mul mainH (fl64 (62 / 100))),
          la_sx = float_mul mainPlotW (fl64 (23 / 100)), la_sy = float_mul mainH (fl64 (12 / 100)),
          la_sz = float_mul mainH (fl64 (22 / 100))\<rparr>)"

definition projectMain :: "pageLayout \<Rightarrow> point \<Rightarrow> rat \<times> rat \<times> rat \<times> rat" where
  "projectMain la p =
     (let bx = float_add (la_cx la) (float_mul (float_sub (px p) (py p)) (la_sx la));
          b = float_add (la_cy la) (float_mul (float_add (px p) (py p)) (la_sy la))
      in (bx, b, bx, float_sub b (float_mul (pz p) (la_sz la))))"

text \<open>A point of the main view: its drop line and its dot, with the sort key.\<close>

definition main_point :: "pageLayout \<Rightarrow> point \<Rightarrow> rat \<times> plot \<times> plot" where
  "main_point la p =
     (case projectMain la p of (bx, b, sx, sy) \<Rightarrow>
        let t = clamp01 (float_div (float_add (pz p) 1) 2)
        in (float_add sy (float_mul (fl64 (15 / 100)) sx), Segment bx b sx sy,
            Dot sx sy (float_add 3 (float_mul (fl64 (18 / 10)) t)) (Some (opacity_of t))))"

definition base_circle :: "mathLib \<Rightarrow> pageLayout \<Rightarrow> plot" where
  "base_circle M la = Outline (map (\<lambda>i.
     let theta = float_div (float_mul two_Pi (float_of_int i)) 72;
         (bx, b, _, _) = projectMain la \<lparr>px = Cos M theta, py = Sin M theta, pz = 0\<rparr>
     in (bx, b)) [0..71])"

definition axis_line :: "pageLayout \<Rightarrow> point \<times> point \<Rightarrow> plot" where
  "axis_line la ab = (case ab of (a, b) \<Rightarrow>
     case projectMain la a of (x1, y1, _, _) \<Rightarrow> case projectMain la b of (x2, y2, _, _) \<Rightarrow> Segment x1 y1 x2 y2)"

definition axes :: "(point \<times> point) list" where
  "axes = [(\<lparr>px = - 1, py = 0, pz = 0\<rparr>, \<lparr>px = 1, py = 0, pz = 0\<rparr>),
           (\<lparr>px = 0, py = - 1, pz = 0\<rparr>, \<lparr>px = 0, py = 1, pz = 0\<rparr>)]"

definition main_view :: "mathLib \<Rightarrow> pageLayout \<Rightarrow> point list \<Rightarrow> string \<Rightarrow> plot list" where
  "main_view M la points escapedTitle =
     (let proj = sort_by by_key (map (main_point la) points)
      in [Caption 24 22 escapedTitle, base_circle M la] @ map (axis_line la) axes @
         map (\<lambda>pp. fst (snd pp)) proj @ map (\<lambda>pp. snd (snd pp)) proj)"

definition debug_panels :: "pageLayout \<Rightarrow> rat \<Rightarrow> point list \<Rightarrow> plot list list" where
  "debug_panels la pageW points =
     (let debugY = float_add (float_add (la_mainY la) (la_mainH la)) 16;
          debugW = float_sub pageW 48;
          panelW = float_div (float_sub debugW 28) 3;
          py' = float_add debugY 10
      in [Caption 24 (float_sub debugY 4) ''Debug projections'' #
            writeProjectionPanel points ''XY'' 24 py' panelW 170 (\<lambda>p. (px p, py p, pz p)),
          writeProjectionPanel points ''XZ'' (float_add (float_add 24 panelW) 14) py' panelW 170 (\<lambda>p. (px p, pz p, py p)),
          writeProjectionPanel points ''YZ'' (float_add 24 (float_mul 2 (float_add panelW 14))) py' panelW 170 (\<lambda>p. (py p, pz p, px p))])"

definition inset_panel :: "pageLayout \<Rightarrow> point list \<Rightarrow> plot list" where
  "inset_panel la points =
     writeProjectionPanel points ''XY inset'' (la_insetX la) (la_insetY la) 180 180 (\<lambda>p. (px p, py p, pz p))"

definition writePointsSVG :: "mathLib \<Rightarrow> point list \<Rightarrow> string \<Rightarrow> int \<Rightarrow> int \<Rightarrow> bool \<Rightarrow> plotPage" where
  "writePointsSVG M points escapedTitle width height debug =
     (let pageW = float_of_int width; la = page_layout pageW (float_of_int height) debug
      in \<lparr>pp_width = width, pp_height = height,
          pp_items = main_view M la points escapedTitle @ inset_panel la points @
            (if debug then concat (debug_panels la pageW points) else [])\<rparr>)"

definition renderPointsHTML :: "mathLib \<Rightarrow> point list \<Rightarrow> string \<Rightarrow> bool \<Rightarrow> plotPage" where
  "renderPointsHTML M points title debug = writePointsSVG M points (EscapeString title) 1100 760 debug"

text \<open>A galaxy of radius 0 with stars has coordinates that are no numbers; it is not drawn here.\<close>

definition star_point :: "rat \<Rightarrow> galaxyStar \<Rightarrow> point" where
  "star_point radius s = \<lparr>px = float_div (float_of_int (X (gs_Point s))) radius,
     py = float_div (float_of_int (Y (gs_Point s))) radius, pz = float_div (float_of_int (Z (gs_Point s))) radius\<rparr>"

definition GalaxyToHTML :: "mathLib \<Rightarrow> Galaxy \<Rightarrow> string \<Rightarrow> plotPage option" where
  "GalaxyToHTML M g generatorName =
     (if gx_Radius g = 0 \<and> gx_Stars g \<noteq> [] then None
      else Some (renderPointsHTML M (map (star_point (gx_Radius g)) (gx_Stars g)) generatorName True))"

definition generator_named :: "mathLib \<Rightarrow> string \<Rightarrow> pointGenerator option" where
  "generator_named M g =
     (if g = ''naiveDisk'' then Some (NaiveDisk_Generate M)
      else if g = ''naiveSphere'' then Some NaiveSphere_Generate
      else if g = ''uniformDisk'' then Some (UniformDisk_Generate M)
      else if g = ''uniformSphere'' then Some (UniformSphere_Generate M)
      else None)"

definition TestPointsGenerator ::
  "mathLib \<Rightarrow> (string \<Rightarrow> string \<Rightarrow> string) \<Rightarrow> int \<Rightarrow> string \<Rightarrow> string \<Rightarrow> plotPage host \<Rightarrow> ((osError + unit) \<times> plotPage host) go" where
  "TestPointsGenerator M join n g p h =
     (case generator_named M g of
        None \<Rightarrow> panics Assertion
      | Some pg \<Rightarrow> go_bind (pg n (NewFromSeed 10 10)) (\<lambda>(set, _).
          ret (WriteFile (join p (g @ ''.html'')) (renderPointsHTML M set (join p g) True) h)))"

section \<open>The hex map accounts for every star\<close>

lemma least_int_Min: "xs \<noteq> [] \<Longrightarrow> least_int xs = Min (set xs)"
proof (cases xs)
  case (Cons y ys)
  have "fold (\<lambda>x m. if x < m then x else m) ys y = fold min ys y" for y :: int
    by (rule fold_cong) (auto simp: min_def fun_eq_iff)
  with Cons Min.set_eq_fold [of y ys] show ?thesis by (simp add: least_int_def)
qed simp

lemma greatest_int_Max: "xs \<noteq> [] \<Longrightarrow> greatest_int xs = Max (set xs)"
proof (cases xs)
  case (Cons y ys)
  have "fold (\<lambda>x m. if x > m then x else m) ys y = fold max ys y" for y :: int
    by (rule fold_cong) (auto simp: max_def fun_eq_iff)
  with Cons Max.set_eq_fold [of y ys] show ?thesis by (simp add: greatest_int_def)
qed simp

lemma count_cells: "count_cells hs h = int (count_list hs h)"
proof (induction hs rule: rev_induct)
  case (snoc k hs)
  then show ?case by (cases "h = k") (auto simp: count_cells_def count_list_append)
qed (simp add: count_cells_def)

lemma shift_cells:
  "shift_cells counts minQ minR keys (a, b) =
     (if (a + minQ - 1, b + minR - 1) \<in> set keys then counts (a + minQ - 1, b + minR - 1) else 0)"
proof (induction keys rule: rev_induct)
  case (snoc h keys)
  have "(a, b) = (fst h - minQ + 1, snd h - minR + 1) \<longleftrightarrow> h = (a + minQ - 1, b + minR - 1)" by (cases h) auto
  with snoc show ?case by (auto simp: shift_cells_def)
qed (simp add: shift_cells_def)

text \<open>The stars a map accounts for: one for a dot, and as many as its label says.\<close>

definition stars_of_item :: "plot \<Rightarrow> int" where
  "stars_of_item it = (case it of Dot _ _ _ _ \<Rightarrow> 1 | More _ _ _ k \<Rightarrow> k | _ \<Rightarrow> 0)"

definition stars_drawn :: "plotPage \<Rightarrow> int" where
  "stars_drawn page = (\<Sum>it\<leftarrow>pp_items page. stars_of_item it)"

lemma cell_items_stars: "0 \<le> cells (col, row) \<Longrightarrow> sum_list (map stars_of_item (cell_items M cells sz col row)) = cells (col, row)"
  by (simp add: cell_items_def Let_def stars_of_item_def split: prod.split)

lemma sum_grid:
  fixes f :: "int \<times> int \<Rightarrow> int"
  shows "(\<Sum>c\<leftarrow>[a..b]. \<Sum>r\<leftarrow>[a'..b']. f (c, r)) = sum f ({a..b} \<times> {a'..b'})"
  by (simp add: sum_list_distinct_conv_sum_set sum.cartesian_product)

lemma renderHexHTML_stars:
  assumes "\<And>h. 0 \<le> cells h" and "0 < nc" and "0 < nr"
  shows "stars_drawn (renderHexHTML_cartesian M cells nc nr sz w h) = sum cells ({0..nc - 1} \<times> {0..nr - 1})"
  using assms
  by (simp add: stars_drawn_def renderHexHTML_cartesian_def Let_def sum_list_concat_map comp_def cell_items_stars sum_grid)

lemma shifted_sum:
  assumes "hs \<noteq> []" and keys: "set keys = set hs"
    and bounds: "minQ = Min (fst ` set hs)" "maxQ = Max (fst ` set hs)" "minR = Min (snd ` set hs)" "maxR = Max (snd ` set hs)"
  shows "sum (shift_cells (count_cells hs) minQ minR keys) ({0..maxQ - minQ + 3 - 1} \<times> {0..maxR - minR + 3 - 1}) = int (length hs)"
proof -
  let ?B = "{minQ - 1..maxQ + 1} \<times> {minR - 1..maxR + 1}"
  have "sum (shift_cells (count_cells hs) minQ minR keys) ({0..maxQ - minQ + 3 - 1} \<times> {0..maxR - minR + 3 - 1}) = sum (count_cells hs) ?B"
    by (rule sum.reindex_bij_witness [where i = "\<lambda>(q, r). (q - minQ + 1, r - minR + 1)" and j = "\<lambda>(a, b). (a + minQ - 1, b + minR - 1)"])
      (auto simp: shift_cells keys count_cells count_list_0_iff)
  also have "\<dots> = int (sum (count_list hs) ?B)" by (simp add: count_cells)
  also have "sum (count_list hs) ?B = length hs"
  proof (rule sum_count_set)
    have "Min (fst ` set hs) \<le> fst h" "fst h \<le> Max (fst ` set hs)" "Min (snd ` set hs) \<le> snd h" "snd h \<le> Max (snd ` set hs)"
      if "h \<in> set hs" for h
      using that by simp_all
    then show "set hs \<subseteq> ?B" unfolding bounds by fastforce
  qed simp
  finally show ?thesis .
qed

lemma range_orderD: "range_order order \<Longrightarrow> set (order xs) = set xs"
  unfolding range_order_def by (metis set_mset_mset)

lemma shift_cells_set: "set keys = set keys' \<Longrightarrow> shift_cells counts minQ minR keys = shift_cells counts minQ minR keys'"
  by (intro ext) (auto simp: shift_cells split: prod.split)

section \<open>The picture shows every star in every view\<close>

definition dot_of :: "plot \<Rightarrow> (rat \<times> rat) list" where
  "dot_of it = (case it of Dot x y _ _ \<Rightarrow> [(x, y)] | _ \<Rightarrow> [])"

definition dots :: "plot list \<Rightarrow> (rat \<times> rat) list" where
  "dots items = concat (map dot_of items)"

definition inside :: "rat \<Rightarrow> rat \<Rightarrow> rat \<Rightarrow> rat \<Rightarrow> rat \<times> rat \<Rightarrow> bool" where
  "inside x y w h c \<longleftrightarrow> x \<le> fst c \<and> fst c \<le> float_add x w \<and> y \<le> snd c \<and> snd c \<le> float_add y h"

text \<open>A view of \<open>n\<close> points: a frame, and \<open>n\<close> dots inside it.\<close>

definition panel_ok :: "nat \<Rightarrow> plot list \<Rightarrow> bool" where
  "panel_ok n items \<longleftrightarrow> length (dots items) = n \<and>
     (\<exists>x y w h. Box x y w h \<in> set items \<and> 0 < w \<and> 0 < h \<and> list_all (inside x y w h) (dots items))"

definition picture_ok :: "nat \<Rightarrow> plotPage \<Rightarrow> bool" where
  "picture_ok n page \<longleftrightarrow> pp_width page = 1100 \<and> pp_height page = 760 \<and>
     (\<exists>main inset xy xz yz. pp_items page = main @ inset @ xy @ xz @ yz \<and> length (dots main) = n \<and>
        list_all (\<lambda>c. 0 \<le> fst c \<and> fst c \<le> 1100 \<and> 0 \<le> snd c \<and> snd c \<le> 760) (dots main) \<and>
        list_all (panel_ok n) [inset, xy, xz, yz])"

lemma dots_simps [simp]:
  "dots [] = []" "dots (it # items) = dot_of it @ dots items" "dots (xs @ ys) = dots xs @ dots ys"
  by (simp_all add: dots_def)

lemma dot_of_simps [simp]:
  "dot_of (Outline vs) = []" "dot_of (Segment a b c d) = []" "dot_of (Box a b c d) = []" "dot_of (Dot x y r t) = [(x, y)]"
  "dot_of (Caption x y l) = []" "dot_of (More x y z k) = []"
  by (simp_all add: dot_of_def)

lemma half_unit: assumes "\<bar>u\<bar> \<le> 1" shows "0 \<le> float_div (float_add u 1) 2 \<and> float_div (float_add u 1) 2 \<le> 1"
proof -
  have "0 \<le> float_add u 1 \<and> float_add u 1 \<le> 2"
    using assms f64.between_ints [of 0 "u + 1" 2] by (simp add: float_add_def abs_le_iff)
  then show ?thesis unfolding float_div_def by (intro fl64_unit_pos) simp_all
qed

lemma float_mul_upto:
  assumes "0 \<le> t" and "t \<le> 1" and "0 \<le> s" and "fl64 s = s"
  shows "0 \<le> float_mul t s \<and> float_mul t s \<le> s"
  using assms fl64_mono [of 0 "t * s"] fl64_mono [of "t * s" s] mult_right_mono [of t 1 s] by (simp add: float_mul_def)

text \<open>A plot area whose corners and sides are floats that fit together.\<close>

definition plot_area :: "rat \<Rightarrow> rat \<Rightarrow> rat \<Rightarrow> rat \<Rightarrow> bool" where
  "plot_area x y w h \<longleftrightarrow> 0 < w \<and> 0 < h \<and> fl64 x = x \<and> fl64 w = w \<and> fl64 h = h \<and>
     fl64 (float_add y h) = float_add y h \<and> float_sub (float_add y h) h = y"

lemma panel_point_inside:
  assumes area: "plot_area x y w h" and p: "proj p = (u, v, t)" "\<bar>u\<bar> \<le> 1" "\<bar>v\<bar> \<le> 1"
  shows "\<exists>c. dot_of (snd (panel_point x y w h proj p)) = [c] \<and> inside x y w h c"
proof -
  define a where "a = float_mul (float_div (float_add u 1) 2) w"
  define b where "b = float_mul (float_div (float_add v 1) 2) h"
  have a: "0 \<le> a \<and> a \<le> w" and b: "0 \<le> b \<and> b \<le> h"
    unfolding a_def b_def using area half_unit [OF p(2)] half_unit [OF p(3)]
    by (simp_all add: plot_area_def float_mul_upto)
  have "x \<le> float_add x a \<and> float_add x a \<le> float_add x w"
    using a area fl64_mono [of x "x + a"] fl64_mono [of "x + a" "x + w"] by (simp add: float_add_def plot_area_def)
  moreover have "y \<le> float_sub (float_add y h) b \<and> float_sub (float_add y h) b \<le> float_add y h"
    using b area fl64_mono [of "float_add y h - h" "float_add y h - b"] fl64_mono [of "float_add y h - b" "float_add y h"]
    by (simp add: float_sub_def plot_area_def)
  ultimately show ?thesis by (simp add: panel_point_def p(1) Let_def inside_def flip: a_def b_def)
qed

lemma dots_of_singles:
  assumes "list_all (\<lambda>x. \<exists>c. dot_of (f x) = [c] \<and> P c) xs"
  shows "length (dots (map f xs)) = length xs \<and> list_all P (dots (map f xs))"
  using assms by (induction xs) auto

lemma list_all_sort_by: "list_all P (sort_by before xs) = list_all P xs"
  by (simp add: list_all_iff)

lemma panel_is_ok:
  assumes "0 < w" and "0 < h"
    and area: "plot_area (float_add x 18) (float_add (float_add y 18) 8) (float_sub w 36) (float_sub (float_sub h 36) 8)"
    and p: "\<And>p. p \<in> set points \<Longrightarrow> \<exists>u v t. proj p = (u, v, t) \<and> \<bar>u\<bar> \<le> 1 \<and> \<bar>v\<bar> \<le> 1"
  shows "panel_ok (length points) (writeProjectionPanel points label x y w h proj)"
proof -
  let ?X = "float_add x 18" and ?Y = "float_add (float_add y 18) 8" and ?W = "float_sub w 36" and ?H = "float_sub (float_sub h 36) 8"
  have pos: "0 < ?W" "0 < ?H" using area by (simp_all add: plot_area_def)
  let ?ps = "sort_by by_key (map (panel_point ?X ?Y ?W ?H proj) points)"
  have "list_all (\<lambda>k. \<exists>c. dot_of (snd k) = [c] \<and> inside ?X ?Y ?W ?H c) ?ps"
    using p panel_point_inside [OF area] by (fastforce simp: list_all_sort_by list_all_iff)
  from dots_of_singles [OF this] assms(1,2) pos show ?thesis
    by (auto simp: panel_ok_def writeProjectionPanel_def Let_def not_le)
qed

text \<open>The layout of the page as the viewers use it: 1100 by 760 with the three projections below.\<close>

lemma fl64_numeral: "(numeral k :: int) < 2 ^ 53 \<Longrightarrow> fl64 (numeral k) = numeral k"
  using fl64_int [of "numeral k"] by simp

lemmas whole_floats = float_add_def float_sub_def float_of_int_def fl64_numeral

lemma layout_values:
  "float_of_int 1100 = 1100" "float_of_int 760 = 760"
  "la_mainY (page_layout 1100 760 True) = 52" "la_mainH (page_layout 1100 760 True) = 488"
  "la_insetX (page_layout 1100 760 True) = 896" "la_insetY (page_layout 1100 760 True) = 52"
  by (simp_all add: page_layout_def Let_def whole_floats)

lemma between_1024ths:
  assumes "of_int a / 1024 \<le> x" and "x \<le> of_int b / 1024" and "\<bar>a\<bar> < 2 ^ 53" and "\<bar>b\<bar> < 2 ^ 53"
  shows "of_int a / 1024 \<le> fl64 x \<and> fl64 x \<le> of_int b / 1024"
proof -
  have "fl64 (of_int m / 1024) = of_int m / 1024" if "\<bar>m\<bar> < 2 ^ 53" for m
    using that by (intro fl64_exact [where m = m and e = "- 10"]) (simp_all add: pow2_def)
  then show ?thesis using fl64_mono [OF assms(1)] fl64_mono [OF assms(2)] assms(3,4) by metis
qed

text \<open>A length times a constant between \<open>a / 1024\<close> and \<open>b / 1024\<close>.\<close>

lemma scaled_between:
  assumes "of_int a / 1024 \<le> c" and "c \<le> of_int b / 1024" and "0 \<le> s"
    and "of_int lo \<le> s * (of_int a / 1024)" and "s * (of_int b / 1024) \<le> of_int hi"
    and "\<bar>a\<bar> < 2 ^ 53" "\<bar>b\<bar> < 2 ^ 53" "\<bar>lo\<bar> < 2 ^ 53" "\<bar>hi\<bar> < 2 ^ 53"
  shows "of_int lo \<le> float_mul s (fl64 c) \<and> float_mul s (fl64 c) \<le> of_int hi"
  unfolding float_mul_def
  using between_1024ths [OF assms(1,2,6,7)] assms(3-5) mult_left_mono [of "of_int a / 1024" "fl64 c" s] mult_left_mono [of "fl64 c" "of_int b / 1024" s]
  by (intro f64.between_ints assms) linarith+

lemma layout_bounds:
  "470 \<le> la_cx (page_layout 1100 760 True) \<and> la_cx (page_layout 1100 760 True) \<le> 472"
  "354 \<le> la_cy (page_layout 1100 760 True) \<and> la_cy (page_layout 1100 760 True) \<le> 355"
  "197 \<le> la_sx (page_layout 1100 760 True) \<and> la_sx (page_layout 1100 760 True) \<le> 199"
  "58 \<le> la_sy (page_layout 1100 760 True) \<and> la_sy (page_layout 1100 760 True) \<le> 59"
  "107 \<le> la_sz (page_layout 1100 760 True) \<and> la_sz (page_layout 1100 760 True) \<le> 108"
proof -
  have room: "float_sub (float_sub (float_sub (float_add 24 1052) 180) 12) 24 = 860" "float_sub 1100 48 = 1052"
    "float_sub (float_sub (float_sub 760 24) 52) 196 = 488" by (simp_all add: whole_floats)
  have x: "446 \<le> float_mul 860 (fl64 (52 / 100)) \<and> float_mul 860 (fl64 (52 / 100)) \<le> 448"
    using scaled_between [of 532 "52 / 100" 533 860 446 448] by simp
  have y: "302 \<le> float_mul 488 (fl64 (62 / 100)) \<and> float_mul 488 (fl64 (62 / 100)) \<le> 303"
    using scaled_between [of 634 "62 / 100" 635 488 302 303] by simp
  show "470 \<le> la_cx (page_layout 1100 760 True) \<and> la_cx (page_layout 1100 760 True) \<le> 472"
    using x f64.between_ints [of 470 "24 + float_mul 860 (fl64 (52 / 100))" 472]
    by (simp add: page_layout_def Let_def room float_add_def [of 24 "float_mul a b" for a b])
  show "354 \<le> la_cy (page_layout 1100 760 True) \<and> la_cy (page_layout 1100 760 True) \<le> 355"
    using y f64.between_ints [of 354 "52 + float_mul 488 (fl64 (62 / 100))" 355]
    by (simp add: page_layout_def Let_def room float_add_def [of 52 "float_mul a b" for a b])
  show "197 \<le> la_sx (page_layout 1100 760 True) \<and> la_sx (page_layout 1100 760 True) \<le> 199"
    using scaled_between [of 235 "23 / 100" 236 860 197 199] by (simp add: page_layout_def Let_def room)
  show "58 \<le> la_sy (page_layout 1100 760 True) \<and> la_sy (page_layout 1100 760 True) \<le> 59"
    using scaled_between [of 122 "12 / 100" 123 488 58 59] by (simp add: page_layout_def Let_def room)
  show "107 \<le> la_sz (page_layout 1100 760 True) \<and> la_sz (page_layout 1100 760 True) \<le> 108"
    using scaled_between [of 225 "22 / 100" 226 488 107 108] by (simp add: page_layout_def Let_def room)
qed

lemma fl64_idem [simp]: "fl64 (fl64 x) = fl64 x"
proof (cases "x = 0")
  case False
  define e where "e = float_exponent x"
  define m where "m = round_even (x / pow2 e)"
  have x: "fl64 x = of_int m * pow2 e" using False by (simp add: fl64_def Let_def m_def e_def)
  have b: "\<bar>x\<bar> < pow2 (e + 53)" using float_exponent_bounds [OF False] by (simp add: e_def)
  then have "\<bar>x / pow2 e\<bar> \<le> of_int (2 ^ 53)" by (simp add: pow2_add field_simps abs_mult) (simp add: pow2_def)
  then have "x / pow2 e \<le> of_int (2 ^ 53)" "of_int (- (2 ^ 53)) \<le> x / pow2 e"
    unfolding abs_le_iff of_int_minus by linarith+
  then have "m \<le> 2 ^ 53" "- (2 ^ 53) \<le> m" unfolding m_def by (metis round_even_int round_even_mono)+
  then consider "\<bar>m\<bar> < 2 ^ 53" | "m = 2 ^ 53" | "m = - (2 ^ 53)" by linarith
  then show ?thesis
  proof cases
    case 1
    then show ?thesis unfolding x by (intro fl64_exact [OF refl])
  next
    case 2
    then have "fl64 x = of_int (2 ^ 52) * pow2 (e + 1)" unfolding x by (simp add: pow2_add) (simp add: pow2_def)
    then show ?thesis by (rule fl64_exact) simp
  next
    case 3
    then have "fl64 x = of_int (- (2 ^ 52)) * pow2 (e + 1)" unfolding x by (simp add: pow2_add) (simp add: pow2_def)
    then show ?thesis by (rule fl64_exact) simp
  qed
qed simp

lemma areas:
  "plot_area (float_add 896 18) (float_add (float_add 52 18) 8) (float_sub 180 36) (float_sub (float_sub 180 36) 8)"
  "plot_area (float_add a 18) (float_add (float_add 566 18) 8) (float_sub (float_div 1024 3) 36) (float_sub (float_sub 170 36) 8)"
proof -
  have "300 \<le> float_div 1024 3 - 36" using f64.between_ints [of 341 "1024 / 3" 342] by (simp add: float_div_def)
  then have "0 < float_sub (float_div 1024 3) 36" 
    using fl64_mono [of 300 "float_div 1024 3 - 36"] by (simp add: float_sub_def fl64_numeral)
  then show "plot_area (float_add a 18) (float_add (float_add 566 18) 8) (float_sub (float_div 1024 3) 36) (float_sub (float_sub 170 36) 8)"
    unfolding plot_area_def by (simp add: whole_floats)
qed (simp add: plot_area_def whole_floats)

lemma main_point_on_page:
  assumes "in_cube p"
  shows "\<exists>c. dot_of (snd (snd (main_point (page_layout 1100 760 True) p))) = [c] \<and>
    0 \<le> fst c \<and> fst c \<le> 1100 \<and> 0 \<le> snd c \<and> snd c \<le> 760"
proof -
  let ?la = "page_layout 1100 760 True"
  have twice: "- of_int (2 * k) \<le> float_mul d s \<and> float_mul d s \<le> of_int (2 * k)"
    if "\<bar>d\<bar> \<le> 2" "0 \<le> s" "s \<le> of_int k" "0 \<le> k" "k < 1000" for d s :: rat and k :: int
  proof -
    have "\<bar>d * s\<bar> \<le> 2 * of_int k" unfolding abs_mult using that by (intro mult_mono) simp_all
    then show ?thesis unfolding float_mul_def using that f64.between_ints [of "- (2 * k)" "d * s" "2 * k"] by (simp add: abs_le_iff)
  qed
  have xy: "\<bar>float_sub (px p) (py p)\<bar> \<le> 2" "\<bar>float_add (px p) (py p)\<bar> \<le> 2" "\<bar>pz p\<bar> \<le> 2"
    using assms f64.between_ints [of "-2" "px p - py p" 2] f64.between_ints [of "-2" "px p + py p" 2]
    by (simp_all add: in_cube_def float_sub_def float_add_def abs_le_iff)
  have x: "- 398 \<le> float_mul (float_sub (px p) (py p)) (la_sx ?la) \<and> float_mul (float_sub (px p) (py p)) (la_sx ?la) \<le> 398"
    using twice [OF xy(1), of "la_sx ?la" 199] layout_bounds(3) by simp
  have y: "- 118 \<le> float_mul (float_add (px p) (py p)) (la_sy ?la) \<and> float_mul (float_add (px p) (py p)) (la_sy ?la) \<le> 118"
    using twice [OF xy(2), of "la_sy ?la" 59] layout_bounds(4) by simp
  have z: "- 216 \<le> float_mul (pz p) (la_sz ?la) \<and> float_mul (pz p) (la_sz ?la) \<le> 216"
    using twice [OF xy(3), of "la_sz ?la" 108] layout_bounds(5) by simp
  define cx where "cx = float_add (la_cx ?la) (float_mul (float_sub (px p) (py p)) (la_sx ?la))"
  define b where "b = float_add (la_cy ?la) (float_mul (float_add (px p) (py p)) (la_sy ?la))"
  define cy where "cy = float_sub b (float_mul (pz p) (la_sz ?la))"
  have "0 \<le> cx \<and> cx \<le> 1100" unfolding cx_def float_add_def [of "la_cx ?la"] using x layout_bounds(1) f64.between_ints [of 0 _ 1100] by simp
  moreover have "236 \<le> b \<and> b \<le> 473" unfolding b_def float_add_def [of "la_cy ?la"] using y layout_bounds(2) f64.between_ints [of 236 _ 473] by simp
  then have "0 \<le> cy \<and> cy \<le> 760" unfolding cy_def float_sub_def using z f64.between_ints [of 0 _ 760] by simp
  ultimately show ?thesis by (simp add: main_point_def projectMain_def Let_def flip: cx_def b_def cy_def)
qed

lemma drop_lines_no_dots: "dots (map (\<lambda>p. fst (snd (main_point la p))) ps) = []"
  by (induction ps) (simp_all add: main_point_def Let_def split: prod.split)

lemma main_view_dots:
  assumes "list_all in_cube points"
  shows "length (dots (main_view M (page_layout 1100 760 True) points title)) = length points \<and>
    list_all (\<lambda>c. 0 \<le> fst c \<and> fst c \<le> 1100 \<and> 0 \<le> snd c \<and> snd c \<le> 760) (dots (main_view M (page_layout 1100 760 True) points title))"
proof -
  let ?ps = "sort_by by_key (map (main_point (page_layout 1100 760 True)) points)"
  have segments: "dots (map (\<lambda>pp. fst (snd pp)) xs) = []" if "set xs \<subseteq> range (main_point la)" for xs la
    using that by (induction xs) (auto simp: main_point_def Let_def split: prod.split)
  have "dots (map (\<lambda>pp. fst (snd pp)) ?ps) = []" by (rule segments [where la = "page_layout 1100 760 True"]) auto
  moreover have "list_all (\<lambda>k. \<exists>c. dot_of (snd (snd k)) = [c] \<and> (0 \<le> fst c \<and> fst c \<le> 1100 \<and> 0 \<le> snd c \<and> snd c \<le> 760)) ?ps"
    using assms main_point_on_page unfolding list_all_sort_by list_all_iff by auto
  moreover note dots_of_singles [OF this]
  moreover have "dots (map (axis_line la) axes) = []" for la
    by (simp add: axes_def axis_line_def split: prod.split)
  ultimately show ?thesis by (simp add: main_view_def Let_def base_circle_def)
qed

lemma in_cube_abs: "list_all in_cube points \<Longrightarrow> p \<in> set points \<Longrightarrow> \<bar>px p\<bar> \<le> 1 \<and> \<bar>py p\<bar> \<le> 1 \<and> \<bar>pz p\<bar> \<le> 1"
  by (simp add: list_all_iff in_cube_def)

lemma picture_is_ok:
  assumes "list_all in_cube points"
  shows "picture_ok (length points) (renderPointsHTML M points title True)"
proof -
  let ?la = "page_layout 1100 760 True"
  have whole: "float_add (float_add (float_add 52 488) 16) 10 = 566" "float_sub (float_sub 1100 48) 28 = 1024"
    by (simp_all add: whole_floats)
  have inset: "panel_ok (length points) (inset_panel ?la points)"
    unfolding inset_panel_def layout_values
    by (rule panel_is_ok [OF _ _ areas(1)]) (use in_cube_abs [OF assms] in auto)
  have positive: "0 < float_div 1024 3" unfolding float_div_def by (rule fl64_pos) simp
  have panel: "panel_ok (length points) (writeProjectionPanel points label a 566 (float_div 1024 3) 170 proj)"
    if "\<And>p. p \<in> set points \<Longrightarrow> \<exists>u v t. proj p = (u, v, t) \<and> \<bar>u\<bar> \<le> 1 \<and> \<bar>v\<bar> \<le> 1" for label a proj
    by (rule panel_is_ok [OF positive _ areas(2)]) (use that in auto)
  have titled: "panel_ok n items \<Longrightarrow> panel_ok n (Caption a b l # items)" for n items a b l
    by (auto simp: panel_ok_def)
  obtain xy xz yz where d: "debug_panels ?la 1100 points = [xy, xz, yz]" "list_all (panel_ok (length points)) [xy, xz, yz]"
  proof
    show "debug_panels ?la 1100 points = [debug_panels ?la 1100 points ! 0, debug_panels ?la 1100 points ! 1, debug_panels ?la 1100 points ! 2]"
      by (simp add: debug_panels_def Let_def)
    show "list_all (panel_ok (length points)) [debug_panels ?la 1100 points ! 0, debug_panels ?la 1100 points ! 1, debug_panels ?la 1100 points ! 2]"
      using in_cube_abs [OF assms] by (simp add: debug_panels_def Let_def layout_values whole titled panel)
  qed
  have "pp_items (renderPointsHTML M points title True) = main_view M ?la points (EscapeString title) @ inset_panel ?la points @ xy @ xz @ yz"
    by (simp add: renderPointsHTML_def writePointsSVG_def Let_def layout_values d(1))
  with main_view_dots [OF assms] inset d(2) show ?thesis
    unfolding picture_ok_def
    by (intro conjI exI [of _ "main_view M ?la points (EscapeString title)"] exI [of _ "inset_panel ?la points"] exI [of _ xy] exI [of _ xz] exI [of _ yz])
      (simp_all add: renderPointsHTML_def writePointsSVG_def Let_def)
qed

text \<open>The stars of a galaxy inside its radius, divided by the radius, lie in the cube.\<close>

lemma star_point_in_cube:
  assumes "in_box radius (gs_Point s)" and "0 < radius" and "fl64 radius = radius"
  shows "in_cube (star_point radius s)"
proof -
  have "\<bar>float_div (float_of_int k) radius\<bar> \<le> 1" if "\<bar>of_int k\<bar> \<le> radius" for k
  proof -
    have "\<bar>float_of_int k\<bar> \<le> radius" unfolding float_of_int_def by (rule fl64_abs_le [OF that assms(3)])
    then show ?thesis unfolding float_div_def using assms(2) by (intro fl64_unit) (simp add: divide_le_eq)
  qed
  with assms(1) show ?thesis by (simp add: in_cube_def star_point_def in_box_def)
qed

section \<open>Properties\<close>

text \<open>C35.  The picture of a generated galaxy is complete and stays in its frames: for any settings, any point
  generator that keeps its contract and any order in which Go visits its map, the page of \<open>GalaxyToHTML\<close>
  has one dot for every star in the main view, on the page, and one for every star in each of the four
  projections, inside the frame of the projection, all computed in floats.\<close>

theorem GalaxyToHTML_complete:
  assumes "0 \<le> n" and "n < 2 ^ 63" and "fl64 desired = desired" and "range_order order" and "point_source pg"
  shows "yields (Galaxy_Generate M order [WithDesiredNumberOfSystems_cartesian n, WithDesiredRadius_cartesian desired,
      WithPointGenerator pg, WithPRNG_cartesian r] :: ('e + Galaxy) go)
    (\<lambda>res. \<exists>g page. res = Inr g \<and> GalaxyToHTML M' g name = Some page \<and> picture_ok (length (gx_Stars g)) page)"
proof -
  have "\<exists>page. GalaxyToHTML M' g name = Some page \<and> picture_ok (length (gx_Stars g)) page" if ok: "galaxy_ok n desired g" for g
  proof -
    have r: "0 < gx_Radius g" "fl64 (gx_Radius g) = gx_Radius g"
      using ok radius_ok_float [of n desired "gx_Radius g"] assms(3) by (auto simp: galaxy_ok_def)
    have "list_all in_cube (map (star_point (gx_Radius g)) (gx_Stars g))"
      using ok r by (auto simp: galaxy_ok_def list_all_iff intro: star_point_in_cube)
    from picture_is_ok [OF this] r(1) show ?thesis by (simp add: GalaxyToHTML_def)
  qed
  then show ?thesis unfolding Galaxy_Generate_standard
    by (intro yields_bind yields_conseq [OF alwaysD [OF always_StandardGalaxy [OF assms]]]) auto
qed

theorem GalaxyToHTML_complete_witness:
  "yields (Galaxy_Generate flat_math rev [WithDesiredNumberOfSystems_cartesian 100, WithDesiredRadius_cartesian 0,
      WithPointGenerator (NaiveDisk_Generate flat_math), WithPRNG_cartesian (NewFromSeed 10 10)] :: (string + Galaxy) go)
    (\<lambda>res. \<exists>g page. res = Inr g \<and> GalaxyToHTML flat_math g ''galaxy'' = Some page \<and> picture_ok (length (gx_Stars g)) page)"
  by (rule GalaxyToHTML_complete) (simp_all add: range_order_rev naive_disk_source flat_math_ok)

text \<open>The hex map accounts for every star of a galaxy, whatever the size of the cells, and does not depend on the
  order in which Go visits the map of the cells.\<close>

theorem GalaxyToHexHTML_complete:
  assumes "range_order order" and "range_order order'"
  shows "stars_drawn (GalaxyToHexHTML M order g cellSize) = int (length (gx_Stars g)) \<and>
    GalaxyToHexHTML M order g cellSize = GalaxyToHexHTML M order' g cellSize"
proof (cases "gx_Stars g = []")
  case True
  then show ?thesis
    by (simp add: GalaxyToHexHTML_def stars_drawn_def renderHexHTML_cartesian_def Let_def cell_items_def stars_of_item_def split: prod.split)
next
  case False
  let ?stars = "map (\<lambda>s. (float_of_int (X (gs_Point s)), float_of_int (Y (gs_Point s)))) (gx_Stars g)"
  define hs where "hs = map (\<lambda>(x, y). pixelToOddQ M x y (cell_size ?stars cellSize)) ?stars"
  have hs: "hs \<noteq> []" "length hs = length (gx_Stars g)" using False by (simp_all add: hs_def)
  have page: "GalaxyToHexHTML M ord g cellSize = renderHexHTML_cartesian M
      (shift_cells (count_cells hs) (Min (fst ` set hs)) (Min (snd ` set hs)) hs)
      (Max (fst ` set hs) - Min (fst ` set hs) + 3) (Max (snd ` set hs) - Min (snd ` set hs) + 3) 0 0 0" if o: "range_order ord" for ord
  proof -
    have keys: "set (ord (remdups hs)) = set hs" "ord (remdups hs) \<noteq> []"
      using range_orderD [OF o, of "remdups hs"] hs(1) by (auto simp flip: set_empty)
    then show ?thesis using False unfolding GalaxyToHexHTML_def Let_def hs_def [symmetric]
      by (simp add: least_int_Min greatest_int_Max shift_cells_set [OF keys(1)])
  qed
  have "Min (fst ` set hs) \<le> Max (fst ` set hs)" "Min (snd ` set hs) \<le> Max (snd ` set hs)"
    using hs(1) by (simp_all add: Min_le_iff)
  then have "stars_drawn (GalaxyToHexHTML M order g cellSize) = int (length hs)"
    unfolding page [OF assms(1)]
    by (intro trans [OF renderHexHTML_stars shifted_sum [OF hs(1) refl refl refl refl refl]]) (auto simp: shift_cells count_cells)
  with hs(2) page [OF assms(1)] page [OF assms(2)] show ?thesis by simp
qed

end
