(* ===== verification/Fixtures.thy ===== *)
theory Fixtures
  imports Accounts KeyStore Invitations Resets Games
begin

text \<open>
  The builders of test rows: internal/testfixtures/testfixtures.go.  A \<open>Fixtures\<close> is its counter, which the
  builders that need a fresh number take and return; a builder is the record of its fields, its methods
  are updates, \<open>Build\<close> is a service method.  A call of \<open>t.Fatalf\<close>, and the panic of \<open>randomCode\<close>, end the
  test: here the method fails.  The main result: default builders never clash, and their accounts sign in.
\<close>

section \<open>The counter\<close>

type_synonym fixtures = "64 word"

definition next_seq :: "fixtures \<Rightarrow> fixtures" where
  "next_seq s = s + 1"

definition randomCode :: "string svc" where
  "randomCode = sbind (on_error (rand_bytes 16) (Wrap ''testfixtures: rand.Read'')) (\<lambda>b. sret (hex_encode b))"

section \<open>Users\<close>

record userBuilder =
  ub_handle :: string
  ub_email :: string
  ub_password :: string
  ub_isActive :: bool
  ub_roles :: "string list"

definition NewUser :: "fixtures \<Rightarrow> userBuilder \<times> fixtures" where
  "NewUser s = (let n = next_seq s in
     (\<lparr>ub_handle = ''user_'' @ itoa (uint n), ub_email = ''user_'' @ itoa (uint n) @ ''@test.local'',
       ub_password = ''password123'', ub_isActive = True, ub_roles = []\<rparr>, n))"

definition UserBuilder_Handle :: "string \<Rightarrow> userBuilder \<Rightarrow> userBuilder" where "UserBuilder_Handle h b = b\<lparr>ub_handle := h\<rparr>"
definition UserBuilder_Email :: "string \<Rightarrow> userBuilder \<Rightarrow> userBuilder" where "UserBuilder_Email m b = b\<lparr>ub_email := m\<rparr>"
definition UserBuilder_Password :: "string \<Rightarrow> userBuilder \<Rightarrow> userBuilder" where "UserBuilder_Password p b = b\<lparr>ub_password := p\<rparr>"
definition UserBuilder_Inactive :: "userBuilder \<Rightarrow> userBuilder" where "UserBuilder_Inactive b = b\<lparr>ub_isActive := False\<rparr>"
definition UserBuilder_Roles :: "string list \<Rightarrow> userBuilder \<Rightarrow> userBuilder" where "UserBuilder_Roles roles b = b\<lparr>ub_roles := roles\<rparr>"
definition UserBuilder_Admin :: "userBuilder \<Rightarrow> userBuilder" where "UserBuilder_Admin b = UserBuilder_Roles [''admin'', ''user''] b"

fun add_fixture_roles :: "uuid \<Rightarrow> string list \<Rightarrow> unit svc" where
  "add_fixture_roles i [] = sret ()"
| "add_fixture_roles i (role # roles) =
     sbind (on_error (sql_AddRoleToUser i role) (Wrap (''testfixtures: add role '' @ role))) (\<lambda>_. add_fixture_roles i roles)"

text \<open>The cost of bcrypt is not part of the parameter: the hash is made as \<open>auth.HashPassword\<close> makes it.\<close>

definition UserBuilder_Build :: "ext \<Rightarrow> userBuilder \<Rightarrow> user_row svc" where
  "UserBuilder_Build e b =
     sbind (on_error (HashPassword e (ub_password b)) (Wrap ''testfixtures: hash password'')) (\<lambda>hash.
     sbind (on_error (sql_CreateUser e (ub_handle b) (ub_email b) hash (ub_isActive b))
       (Wrap (''testfixtures: create user '' @ ub_handle b))) (\<lambda>user.
     sbind (add_fixture_roles (ur_ID user) (ub_roles b)) (\<lambda>_. sret user)))"

section \<open>Games\<close>

record gameBuilder =
  gb_name :: string

definition NewGame :: "fixtures \<Rightarrow> gameBuilder \<times> fixtures" where
  "NewGame s = (let n = next_seq s in (\<lparr>gb_name = ''game_'' @ itoa (uint n)\<rparr>, n))"

definition GameBuilder_Name :: "string \<Rightarrow> gameBuilder \<Rightarrow> gameBuilder" where "GameBuilder_Name name b = b\<lparr>gb_name := name\<rparr>"

definition GameBuilder_Build :: "gameBuilder \<Rightarrow> game_row svc" where
  "GameBuilder_Build b = on_error (sql_CreateGame (gb_name b)) (Wrap (''testfixtures: create game '' @ gb_name b))"

section \<open>Invitations\<close>

record invitationBuilder =
  ib_email :: string
  ib_code :: string
  ib_invitedBy :: "user_row option"
  ib_expiresAt :: int

definition NewInvitation :: "fixtures \<Rightarrow> (invitationBuilder \<times> fixtures) svc" where
  "NewInvitation s = (let n = next_seq s in
     sbind randomCode (\<lambda>code. sbind now (\<lambda>t.
     sret (\<lparr>ib_email = ''invite_'' @ itoa (uint n) @ ''@test.local'', ib_code = code, ib_invitedBy = None,
            ib_expiresAt = t + 7 * 24 * 3600000000000\<rparr>, n))))"

definition InvitationBuilder_Email :: "string \<Rightarrow> invitationBuilder \<Rightarrow> invitationBuilder" where "InvitationBuilder_Email m b = b\<lparr>ib_email := m\<rparr>"
definition InvitationBuilder_Code :: "string \<Rightarrow> invitationBuilder \<Rightarrow> invitationBuilder" where "InvitationBuilder_Code c b = b\<lparr>ib_code := c\<rparr>"
definition InvitationBuilder_ExpiresAt :: "int \<Rightarrow> invitationBuilder \<Rightarrow> invitationBuilder" where "InvitationBuilder_ExpiresAt t b = b\<lparr>ib_expiresAt := t\<rparr>"
definition InvitationBuilder_Expired :: "invitationBuilder \<Rightarrow> invitationBuilder svc" where
  "InvitationBuilder_Expired b = sbind now (\<lambda>t. sret (b\<lparr>ib_expiresAt := t - 3600000000000\<rparr>))"
definition InvitationBuilder_InvitedByUser :: "user_row \<Rightarrow> invitationBuilder \<Rightarrow> invitationBuilder" where
  "InvitationBuilder_InvitedByUser u b = b\<lparr>ib_invitedBy := Some u\<rparr>"

definition InvitationBuilder_Build :: "ext \<Rightarrow> invitationBuilder \<Rightarrow> fixtures \<Rightarrow> (invitation_row \<times> fixtures) svc" where
  "InvitationBuilder_Build e b s =
     sbind (case ib_invitedBy b of
         Some u \<Rightarrow> sret (u, s)
       | None \<Rightarrow> (case NewUser s of (ub, s') \<Rightarrow> sbind (UserBuilder_Build e (UserBuilder_Admin ub)) (\<lambda>u. sret (u, s'))))
       (\<lambda>(inviter, s').
     sbind (on_error (sql_CreateInvitation e (ib_email b) (ib_code b) (ur_ID inviter) (ib_expiresAt b))
       (Wrap (''testfixtures: create invitation for '' @ ib_email b))) (\<lambda>inv. sret (inv, s')))"

section \<open>Password reset tokens\<close>

record resetBuilder =
  rb_user :: "user_row option"
  rb_code :: string
  rb_expiresAt :: int

definition NewPasswordResetToken :: "resetBuilder svc" where
  "NewPasswordResetToken = sbind randomCode (\<lambda>code. sbind now (\<lambda>t.
     sret \<lparr>rb_user = None, rb_code = code, rb_expiresAt = t + 30 * 60000000000\<rparr>))"

definition ResetBuilder_Code :: "string \<Rightarrow> resetBuilder \<Rightarrow> resetBuilder" where "ResetBuilder_Code c b = b\<lparr>rb_code := c\<rparr>"
definition ResetBuilder_ExpiresAt :: "int \<Rightarrow> resetBuilder \<Rightarrow> resetBuilder" where "ResetBuilder_ExpiresAt t b = b\<lparr>rb_expiresAt := t\<rparr>"
definition ResetBuilder_Expired :: "resetBuilder \<Rightarrow> resetBuilder svc" where
  "ResetBuilder_Expired b = sbind now (\<lambda>t. sret (b\<lparr>rb_expiresAt := t - 3600000000000\<rparr>))"
definition ResetBuilder_ForUser :: "user_row \<Rightarrow> resetBuilder \<Rightarrow> resetBuilder" where "ResetBuilder_ForUser u b = b\<lparr>rb_user := Some u\<rparr>"

definition ResetBuilder_Build :: "ext \<Rightarrow> resetBuilder \<Rightarrow> fixtures \<Rightarrow> (reset_row \<times> fixtures) svc" where
  "ResetBuilder_Build e b s =
     sbind (case rb_user b of
         Some u \<Rightarrow> sret (u, s)
       | None \<Rightarrow> (case NewUser s of (ub, s') \<Rightarrow> sbind (UserBuilder_Build e ub) (\<lambda>u. sret (u, s'))))
       (\<lambda>(u, s').
     sbind (on_error (sql_CreatePasswordResetToken (ur_ID u) (rb_code b) (rb_expiresAt b))
       (Wrap ''testfixtures: create password reset token'')) (\<lambda>tok. sret (tok, s')))"

section \<open>Signing keys\<close>

record signingKeyBuilder =
  kb_tokenType :: string
  kb_algorithm :: string
  kb_secret :: "nat list"
  kb_state :: string

definition NewSigningKey :: "signingKeyBuilder svc" where
  "NewSigningKey = sbind (on_error (rand_bytes 32) (Wrap ''testfixtures: generate secret'')) (\<lambda>secret.
     sret \<lparr>kb_tokenType = ''access'', kb_algorithm = ''HS256'', kb_secret = secret, kb_state = ''active''\<rparr>)"

definition SigningKeyBuilder_TokenType :: "string \<Rightarrow> signingKeyBuilder \<Rightarrow> signingKeyBuilder" where "SigningKeyBuilder_TokenType tt b = b\<lparr>kb_tokenType := tt\<rparr>"
definition SigningKeyBuilder_Refresh :: "signingKeyBuilder \<Rightarrow> signingKeyBuilder" where "SigningKeyBuilder_Refresh b = b\<lparr>kb_tokenType := ''refresh''\<rparr>"
definition SigningKeyBuilder_Secret :: "nat list \<Rightarrow> signingKeyBuilder \<Rightarrow> signingKeyBuilder" where "SigningKeyBuilder_Secret s b = b\<lparr>kb_secret := s\<rparr>"
definition SigningKeyBuilder_State :: "string \<Rightarrow> signingKeyBuilder \<Rightarrow> signingKeyBuilder" where "SigningKeyBuilder_State s b = b\<lparr>kb_state := s\<rparr>"
definition SigningKeyBuilder_Retired :: "signingKeyBuilder \<Rightarrow> signingKeyBuilder" where "SigningKeyBuilder_Retired b = b\<lparr>kb_state := ''retired''\<rparr>"

definition SigningKeyBuilder_Build :: "signingKeyBuilder \<Rightarrow> key_row svc" where
  "SigningKeyBuilder_Build b =
     on_error (sql_CreateJWTSigningKey (kb_tokenType b) (kb_algorithm b) (kb_secret b) (kb_state b) None)
       (Wrap (''testfixtures: create signing key '' @ kb_tokenType b @ ''/'' @ kb_state b))"

section \<open>The default user of a number\<close>

definition fixture_handle :: "int \<Rightarrow> string" where
  "fixture_handle n = ''user_'' @ itoa n"

definition fixture_email :: "int \<Rightarrow> string" where
  "fixture_email n = ''user_'' @ itoa n @ ''@test.local''"

definition default_builder :: "int \<Rightarrow> userBuilder" where
  "default_builder n = \<lparr>ub_handle = fixture_handle n, ub_email = fixture_email n, ub_password = ''password123'',
     ub_isActive = True, ub_roles = []\<rparr>"

lemma NewUser_default: "NewUser s = (default_builder (uint (s + 1)), s + 1)"
  by (simp add: NewUser_def Let_def next_seq_def default_builder_def fixture_handle_def fixture_email_def)

lemma fixture_inj: "fixture_handle m = fixture_handle n \<longleftrightarrow> m = n" "fixture_email m = fixture_email n \<longleftrightarrow> m = n"
  by (simp_all add: fixture_handle_def fixture_email_def itoa_inj)

text \<open>What the tests rely on in PostgreSQL's \<open>lower\<close>, \<open>mail.ParseAddress\<close> and bcrypt.\<close>

definition address_char :: "char \<Rightarrow> bool" where
  "address_char c \<longleftrightarrow> handle_char c \<or> c = CHR ''@'' \<or> c = CHR ''.''"

definition test_laws :: "ext \<Rightarrow> bool" where
  "test_laws e \<longleftrightarrow> (\<forall>s. list_all address_char s \<longrightarrow> ext_pg_lower e s = s) \<and>
     (\<forall>n \<ge> 0. ext_parse_address e (fixture_email n) = Some (fixture_email n)) \<and>
     (\<forall>salt. \<exists>h. ext_bcrypt_generate e ''password123'' salt = Some h \<and> ext_bcrypt_compare e h ''password123'')"

lemma utoa_length: "n < 10 ^ k \<Longrightarrow> 0 < k \<Longrightarrow> length (utoa n) \<le> k"
proof (induction n arbitrary: k rule: utoa.induct)
  case (1 n)
  show ?case
  proof (cases "n < 10")
    case True
    with "1.prems" show ?thesis by (subst utoa.simps) simp
  next
    case False
    then obtain j where j: "k = Suc j" "0 < j" using "1.prems" by (cases k; cases "k - 1") auto
    then have "n div 10 < 10 ^ j" using "1.prems" by (simp add: div_less_iff_less_mult ac_simps)
    with "1.IH" [OF False this j(2)] False j show ?thesis by (subst utoa.simps) simp
  qed
qed

lemma itoa_handle_chars: "0 \<le> n \<Longrightarrow> list_all handle_char (itoa n)"
  using utoa_chars by (auto simp: itoa_def list_all_iff handle_char_def Let_def)

lemma itoa_length: assumes "0 \<le> n" and "n < 2 ^ 64" shows "1 \<le> length (itoa n) \<and> length (itoa n) \<le> 20"
proof -
  have "utoa (nat n) \<noteq> []" by (subst utoa.simps) simp
  then have "1 \<le> length (utoa (nat n))" by (simp add: Suc_le_eq)
  moreover have "length (utoa (nat n)) \<le> 20" by (rule utoa_length) (use assms in simp_all)
  ultimately show ?thesis using assms(1) by (simp add: itoa_def)
qed

lemma fixture_chars: assumes "0 \<le> n" shows "list_all handle_char (fixture_handle n)" "list_all address_char (fixture_email n)"
  using itoa_handle_chars [OF assms]
  by (auto simp: fixture_handle_def fixture_email_def address_char_def handle_char_def Let_def list_all_iff)

lemma char_length_address: "list_all address_char s \<Longrightarrow> char_length s = length s"
  unfolding char_length_def by (induction s) (auto simp: address_char_def dest: handle_char_ascii)

text \<open>From the number \<open>n\<close> on the default names are not in use.\<close>

definition unused :: "int \<Rightarrow> db \<Rightarrow> bool" where
  "unused n d \<longleftrightarrow> (\<forall>m \<ge> n. fixture_handle m \<notin> ur_Handle ` set (db_users d) \<and> fixture_email m \<notin> ur_Email ` set (db_users d))"

lemma no_violation:
  assumes "test_laws e" and "unused n d" and "0 \<le> n" and "n < 2 ^ 64"
  shows "user_violation e d None (fixture_handle n) (fixture_email n) = None"
proof -
  note c = fixture_chars [OF assms(3)]
  have a: "list_all address_char (fixture_handle n)" using c(1) by (auto simp: list_all_iff address_char_def)
  have "fixture_handle n \<noteq> []" by (simp add: fixture_handle_def)
  moreover have "3 \<le> char_length (fixture_handle n)" "char_length (fixture_handle n) \<le> 32"
    "3 \<le> char_length (fixture_email n)" "char_length (fixture_email n) \<le> 320"
    using itoa_length [OF assms(3,4)] by (simp_all add: char_length_address a c, simp_all add: fixture_handle_def fixture_email_def)
  ultimately show ?thesis using assms(1,2) c a by (simp add: user_violation_def test_laws_def unused_def)
qed

lemma normalize_fixture:
  assumes "test_laws e" and "0 \<le> n"
  shows "normalizeEmail e (fixture_email n) = Inr (fixture_email n)"
proof -
  have trim: "TrimSpace (fixture_email n) = fixture_email n"
    by (rule TrimSpace_plain) (simp add: fixture_email_def plain_char_def)
  have "ascii_lower c = c \<and> (of_char c :: nat) < 128" if "address_char c" for c
    using that by (auto simp: ascii_lower_def address_char_def handle_char_def Let_def)
  then have "lower e (fixture_email n) = fixture_email n"
    using fixture_chars(2) [OF assms(2)]
    by (auto simp: lower_def ToLower_def is_ascii_def list_all_iff intro!: map_idI)
  with trim assms show ?thesis by (simp add: normalizeEmail_def Let_def test_laws_def)
qed

lemma build_default:
  assumes calm: "calm w" and laws: "test_laws e" and free: "unused n (w_db w)" and n: "0 \<le> n" "n < 2 ^ 64"
    and ok: "users_ok (w_db w) (w_fresh w)"
  shows "\<exists>row w'. UserBuilder_Build e (default_builder n) w = (Inr row, w') \<and> calm w' \<and>
    w_db w' = (w_db w)\<lparr>db_users := db_users (w_db w) @ [row]\<rparr> \<and> users_ok (w_db w') (w_fresh w') \<and> unused (n + 1) (w_db w') \<and>
    ur_Handle row = fixture_handle n \<and> ur_Email row = fixture_email n \<and> ur_IsActive row \<and>
    ext_bcrypt_compare e (ur_PasswordHash row) ''password123''"
proof -
  define w1 where "w1 = w\<lparr>w_entropy := sdrop 16 (w_entropy w)\<rparr>"
  obtain h where h: "ext_bcrypt_generate e ''password123'' (map (\<lambda>b. b mod 256) (stake 16 (w_entropy w))) = Some h"
    "ext_bcrypt_compare e h ''password123''" using laws unfolding test_laws_def by blast
  have hash: "HashPassword e ''password123'' w = (Inr h, w1)"
    using h(1) calm by (simp add: HashPassword_def run_simps rand_calm w1_def del: stake.simps)
  have w1: "calm w1" "w_db w1 = w_db w" "w_fresh w1 = w_fresh w" using calm by (simp_all add: w1_def)
  note v = no_violation [OF laws free n]
  define row where "row = \<lparr>ur_ID = w_fresh w, ur_Handle = fixture_handle n, ur_Email = fixture_email n, ur_PasswordHash = h,
    ur_IsActive = True, ur_CreatedAt = w_now w1, ur_UpdatedAt = w_now w1\<rparr>"
  define w' where "w' = w1\<lparr>w_db := (w_db w)\<lparr>db_users := db_users (w_db w) @ [row]\<rparr>, w_fresh := w_fresh w + 1\<rparr>"
  have "UserBuilder_Build e (default_builder n) w = (Inr row, w')"
    using v w1 by (simp add: UserBuilder_Build_def default_builder_def run_simps hash sql_CreateUser_def external_calm row_def w'_def Let_def)
  moreover have "users_ok (w_db w') (w_fresh w')"
    using users_ok_insert [OF ok v, of row] by (simp add: w'_def row_def)
  moreover have "unused (n + 1) (w_db w')"
    using free by (auto simp: unused_def w'_def row_def fixture_inj)
  ultimately show ?thesis using w1(1) h(2) by (auto simp: w'_def row_def)
qed

section \<open>Many of them\<close>

text \<open>A test that makes \<open>k\<close> users with the defaults.\<close>

fun build_users :: "ext \<Rightarrow> nat \<Rightarrow> fixtures \<Rightarrow> (user_row list \<times> fixtures) svc" where
  "build_users e 0 s = sret ([], s)"
| "build_users e (Suc k) s = (case NewUser s of (b, s') \<Rightarrow>
     sbind (UserBuilder_Build e b) (\<lambda>u. sbind (build_users e k s') (\<lambda>(us, s''). sret (u # us, s''))))"

definition fixture_user :: "ext \<Rightarrow> int \<Rightarrow> user_row \<Rightarrow> bool" where
  "fixture_user e n row \<longleftrightarrow> ur_Handle row = fixture_handle n \<and> ur_Email row = fixture_email n \<and> ur_IsActive row \<and>
     ext_bcrypt_compare e (ur_PasswordHash row) ''password123''"

lemma build_users_ok:
  assumes "calm w" and "test_laws e" and "unused (uint s + 1) (w_db w)" and "users_ok (w_db w) (w_fresh w)" and "uint s + int k < 2 ^ 64"
  shows "\<exists>rows w'. build_users e k s w = (Inr (rows, s + of_nat k), w') \<and> calm w' \<and> users_ok (w_db w') (w_fresh w') \<and>
    w_db w' = (w_db w)\<lparr>db_users := db_users (w_db w) @ rows\<rparr> \<and>
    list_all2 (fixture_user e) [uint s + 1..uint s + int k] rows"
  using assms(1,3-5)
proof (induction k arbitrary: s w)
  case (Suc k)
  have n: "uint (s + 1) = uint s + 1" using Suc.prems(4) uint_add_lem [of s 1] by simp
  obtain row w1 where b: "UserBuilder_Build e (default_builder (uint s + 1)) w = (Inr row, w1)" and w1: "calm w1"
    "w_db w1 = (w_db w)\<lparr>db_users := db_users (w_db w) @ [row]\<rparr>" "users_ok (w_db w1) (w_fresh w1)" "unused (uint s + 1 + 1) (w_db w1)"
    and row: "fixture_user e (uint s + 1) row"
    using build_default [OF Suc.prems(1) assms(2) Suc.prems(2) _ _ Suc.prems(3)] Suc.prems(4) unfolding fixture_user_def by force
  obtain rows w2 where r: "build_users e k (s + 1) w1 = (Inr (rows, s + 1 + of_nat k), w2)" "calm w2" "users_ok (w_db w2) (w_fresh w2)"
    "w_db w2 = (w_db w1)\<lparr>db_users := db_users (w_db w1) @ rows\<rparr>" "list_all2 (fixture_user e) [uint s + 1 + 1..uint s + 1 + int k] rows"
    using Suc.IH [of w1 "s + 1"] w1 Suc.prems(4) n by auto
  have "[uint s + 1..uint s + int (Suc k)] = (uint s + 1) # [uint s + 1 + 1..uint s + 1 + int k]"
    by (subst upto_rec1) (simp_all add: ac_simps)
  then have all: "list_all2 (fixture_user e) [uint s + 1..uint s + int (Suc k)] (row # rows)" using row r(5) by simp
  have e: "s + 1 + of_nat k = s + of_nat (Suc k)" by simp
  have run: "build_users e (Suc k) s w = (Inr (row # rows, s + of_nat (Suc k)), w2)"
    by (simp only: build_users.simps NewUser_default prod.case n run_simps b sum.case r(1) e)
  have "w_db w2 = (w_db w)\<lparr>db_users := db_users (w_db w) @ row # rows\<rparr>" by (simp add: r(4) w1(2))
  with run all r(2,3) show ?case by blast
qed (simp add: sret_def)

lemma fixture_users_distinct:
  "list_all2 (fixture_user e) ns rows \<Longrightarrow> map ur_Handle rows = map fixture_handle ns \<and> map ur_Email rows = map fixture_email ns"
  by (induction rule: list_all2_induct) (simp_all add: fixture_user_def)

section \<open>Properties\<close>

text \<open>Default users never clash and are ready to use: a test that makes any number of them with one
  \<open>Fixtures\<close> on tables where the names from its counter on are free gets as many accounts, with different
  handles and addresses, the tables stay well formed, and each of the accounts signs in with its
  address and the default password.\<close>

theorem fixture_users_ready:
  assumes "w_faults w = []" and "test_laws e" and "unused (uint s + 1) (w_db w)" and "users_ok (w_db w) (w_fresh w)"
    and "uint s + int k < 2 ^ 64"
  shows "\<exists>rows w'. build_users e k s w = (Inr (rows, s + of_nat k), w') \<and> length rows = k \<and>
    distinct (map ur_Handle rows) \<and> distinct (map ur_Email rows) \<and> users_ok (w_db w') (w_fresh w') \<and>
    (\<forall>row \<in> set rows. Authenticate e (ur_Email row) ''password123'' w' = (Inr (hydrated (w_db w') row), w'))"
proof -
  obtain rows w' where b: "build_users e k s w = (Inr (rows, s + of_nat k), w')" "calm w'" "users_ok (w_db w') (w_fresh w')"
    "w_db w' = (w_db w)\<lparr>db_users := db_users (w_db w) @ rows\<rparr>" and rows: "list_all2 (fixture_user e) [uint s + 1..uint s + int k] rows"
    using build_users_ok [OF _ assms(2-5)] assms(1) by (auto simp: calm_def)
  note names = fixture_users_distinct [OF rows]
  have "inj_on f A" if "\<And>m n. f m = f n \<longleftrightarrow> m = n" for f :: "int \<Rightarrow> string" and A using that by (simp add: inj_on_def)
  then have "distinct (map ur_Handle rows)" "distinct (map ur_Email rows)"
    using names fixture_inj by (simp_all add: distinct_map)
  moreover have "length rows = k" using list_all2_lengthD [OF rows] by simp
  moreover have "Authenticate e (ur_Email row) ''password123'' w' = (Inr (hydrated (w_db w') row), w')" if row: "row \<in> set rows" for row
  proof -
    obtain n where n: "n \<in> set [uint s + 1..uint s + int k]" "fixture_user e n row"
      using rows row by (metis in_set_conv_nth list_all2_conv_all_nth)
    have "0 \<le> n" using n(1) uint_ge_0 [of s] unfolding set_upto atLeastAtMost_iff by linarith
    with normalize_fixture [OF assms(2)] n(2) have m: "normalizeEmail e (ur_Email row) = Inr (ur_Email row)" by (simp add: fixture_user_def)
    have "row \<in> set (db_users (w_db w'))" using row b(4) by simp
    from Authenticate_row [OF b(3,2) this m] n(2) show ?thesis by (simp add: fixture_user_def)
  qed
  ultimately show ?thesis using b by blast
qed

theorem fixture_users_ready_witness:
  "\<exists>rows w'. build_users sample_ext 3 0 (sample_world initial_db 1) = (Inr (rows, 3), w') \<and> length rows = 3"
proof -
  have laws: "test_laws sample_ext" by (simp add: test_laws_def sample_ext_def fixture_email_def)
  have free: "unused (uint (0 :: 64 word) + 1) (w_db (sample_world initial_db 1))" by (simp add: unused_def sample_world_def initial_db_def)
  have ok: "users_ok (w_db (sample_world initial_db 1)) (w_fresh (sample_world initial_db 1))"
    by (simp add: sample_world_def users_ok_initial)
  from fixture_users_ready [OF _ laws free ok, of 3] show ?thesis by (auto simp: sample_world_def)
qed

text \<open>Two signing keys with the defaults clash: there is at most one active key of a type.\<close>

theorem default_keys_clash:
  assumes "w_faults w = []" and "kb_tokenType b = kb_tokenType b'" and "kb_state b = ''active''" and "kb_state b' = ''active''"
    and "SigningKeyBuilder_Build b w = (Inr row, w')"
  shows "\<exists>err. SigningKeyBuilder_Build b' w' = (Inl err, w')"
  using assms
  by (auto simp: SigningKeyBuilder_Build_def run_simps sql_CreateJWTSigningKey_def external_def key_violation_def Let_def split: option.splits if_splits)

end
