(* ===== verification/Spec2Isabelle.thy ===== *)
theory Spec2Isabelle
  imports Prelude Float64 Prng Rolls Hexes Placement Worlds Generator Templates Deposits Worldgen
    Sources Liveness GoStrings Report Documents Database Effects UserService Accounts KeyStore Tokens
    Mailer Invitations Resets Games System Handlers Server
    Middleware Host Config Simulate AdminTool Client Pages Startup Maths Viewer Cartesian Plots Fixtures
begin

text \<open>
  Verification of drynn, a web application and a set of command line tools for a space strategy game.

  \<^bold>\<open>The program.\<close>  It has two halves.  The world generator (internal/prng, internal/hexes,
  internal/worldgen) rolls a cluster of star systems, its home-star templates and its deposits from a
  seeded source of random numbers; cmd/drynn/simulate.go runs it and writes reports.  The application
  keeps accounts, invitations, password resets, signing keys and games in PostgreSQL (db/sqlc,
  internal/service, internal/auth), serves them as web pages and as a JSON API (internal/handler,
  internal/middleware, internal/server), and is looked after with cmd/db, cmd/email and the
  client cmd/drynn.  All of them read one configuration (internal/config).

  \<^bold>\<open>How the code is modelled.\<close>
  \<^item> A computation that draws random numbers is a \<open>roller\<close>: it takes the stream of the 64-bit words still to come and does
    not return, panics or returns a value and the rest of the stream (Prelude, Prng, Rolls).  Retry loops are
    \<open>partial_function (option)\<close>, so that not returning is the value \<open>None\<close>.  Results hold for every source, not only
    for the PCG of the standard library.
  \<^item> A method that uses the database is a function on a \<open>world\<close> (Database): the tables, the clock, the entropy, the outbox
    of mails and a list of faults.  Every interaction with the outside consumes one fault: it works, it does not take place, or
    it takes place and the answer is lost.  A transaction is rolled back or committed as a whole.  Errors are values of
    \<open>goError + 'a\<close>, with the chain of wrapped errors that \<open>errors.Is\<close> follows.
  \<^item> A program that uses files is a function on a \<open>host\<close> (Host), whose calls fail in the same way; a broken write may leave anything in the
    file it writes, and the making of directories may stop on the way.
  \<^item> A handler is a function from a request and a world to a reply, cookies and a world; a middleware is a function on
    handlers (Handlers, Server), as in the code.
  \<^item> Go's \<open>int\<close> is HOL's \<open>int\<close>, with \<open>wrap64\<close> where the values come near \<open>2 ^ 63\<close>; bounded draws use 64-bit words (as math/rand/v2 does on the platforms where \<open>int\<close> has 64 bits); a finite
    \<open>float64\<close> is the rational it stands for, rounded to 53 bits after every operation (Float64).

  \<^bold>\<open>Theories.\<close>
  \<^item> Prelude, Float64, Prng, Rolls: outcomes of a Go call, floats, prng.go and the bounded draws of math/rand/v2, sequences of draws.
  \<^item> Hexes (axial.go), Placement (placement.go), Worlds (systems.go, stars.go, planets.go, cluster.go), Generator
    (generator.go: stars, planets and their numbering), Templates (templates.go), Deposits (deposits.go), Worldgen (\<open>Generate\<close> and
    its options), Report (jsonstate.go, the counts of viewer.go), Documents (a reader of the state document), Viewer (viewer.go, hexviewer.go,
    templateviewer.go: the pages), Simulate (simulate.go and the diagnostics of main.go).
  \<^item> Sources, Liveness: the sources on which the loops of the generator end, and that it returns on them.
  \<^item> Maths, Cartesian (internal/worldgen/cartesian): more floats and package math; the older generator, its point searches, sorts and generators;
    Plots: its hex map and its picture of the points.
  \<^item> GoStrings, Database, Effects: strings and printing, tables and queries, and the rules to reason about service methods.
  \<^item> UserService and Accounts (user_service.go, password.go: the methods and what they guarantee), KeyStore (signing_keys.go), Tokens
    (jwt.go and the session middleware), Mailer (email.go, access_request_service.go), Invitations, Resets, Games (the service of the same name).
  \<^item> System: all services as one step relation, with what each leaves alone.
  \<^item> Handlers (internal/handler), Server (server.go: middleware and routes), Middleware (ratelimit.go, fetchmetadata.go), Pages (render.go).
  \<^item> Host, Config (config.go), AdminTool (cmd/db), Client (cmd/drynn: session.go, game.go, main.go), Startup (dotenv.go,
    \<open>server.New\<close>, cmd/server, cmd/email), Fixtures (internal/testfixtures).

  \<^bold>\<open>What is shown.\<close>
  \<^item> Safety of the generator: no roller panics and every value is in its range (\<open>always\<close>, with the rules \<open>always_intros\<close>); the contracts of the
    stages compose to that of \<open>Generate\<close>, the state document can be read back to the cluster, its page shows all of it in its place, the pictures show every star in its frame, and the staged run of the tool is \<open>Generate\<close>.
  \<^item> Termination: on a source that after any finite prefix goes on with a word all its loops accept, the template driver and the placement return.
    Without such an assumption they need not.
  \<^item> Invariants of the tables under every sequence of faults (\<open>keeps\<close>, locale \<open>table_invariant\<close>), all or nothing behaviour of every
    transaction, what a method reads and leaves alone (\<open>reads\<close>, \<open>frames\<close>, \<open>quiet\<close>), and by rule induction over \<open>reachable\<close> the
    invariant of all tables together and that an administrator remains.
  \<^item> Security of the server: who may reach the privileged routes, that an account comes from an invitation, that a code works once, that
    tokens verify only with a usable key, that requests of other sites are refused and that the rate limiter forgets nothing.
  \<^item> The tools: their commands are sequences of service steps, configuration and session files are replaced atomically, a login is what later
    commands use, a logged-out client sends no token, a server that starts is ready, and each page finds its template.
  \<^item> Locales state the interfaces: \<open>float_rounding\<close> (the laws of rounding), \<open>hex_metric\<close> (a distance), \<open>steady_source\<close> (a word that the loops
    accept), \<open>point_source\<close> and \<open>ball_source\<close> (a generator of points, in the cube or the ball), \<open>table_invariant\<close> (an invariant that survives fresh identifiers); each is interpreted
    on the definitions of the model where these are provided.

  \<^bold>\<open>Bounds.\<close>  Radii of the hex disk go up to \<open>2 ^ 29\<close> (so that coordinates do not wrap), in \<open>test-hexmap\<close> up to 500; dice stay below \<open>2 ^ 62\<close>;
  the radius search of the Cartesian generator ends at \<open>2 ^ 24\<close> at the latest for every \<open>int\<close> number of systems and is exact up to \<open>2 ^ 39\<close>.
  No definition uses fuel: the recursions are structural, have a measure, or are partial functions.

  \<^bold>\<open>Parameters.\<close>  Code that is not in the repository is an argument with named laws: bcrypt, \<open>mail.ParseAddress\<close>, lower case beyond ASCII (\<open>ext\<close>), the JWT
  and UUID libraries (\<open>jwtlib\<close>, \<open>jwt_laws\<close>), the token bucket (\<open>limiterlib\<close>, \<open>refills\<close>), JSON and durations (\<open>codec\<close>, \<open>codec_laws\<close>), the HTTP transport
  (\<open>clientLib\<close>, \<open>session_codec\<close>: strings of valid UTF-8 survive JSON), html/template, godotenv's parser, the host part of \<open>url.Parse\<close>, \<open>filepath\<close>, and \<open>math.Sqrt\<close>, \<open>Cbrt\<close>, \<open>Sin\<close> and \<open>Cos\<close>
  (\<open>math_ok\<close>, \<open>sqrt3_ok\<close>).  The order in which
  \<open>range\<close> visits a map is a parameter as well, and results do not depend on it.

  \<^bold>\<open>Not modelled.\<close>
  \<^item> Text that is only printed: the markup of pages and maps and the printing of their numbers, the JSON encoder, usage texts, logs,
    and the arguments inside error messages that no code inspects; likewise the wrapping of an error in \<open>GenerateCluster\<close>.
  \<^item> Parsing of flags (package ff and flag), signals, listening and graceful shutdown (\<open>App.Run\<close>), static files, matching of a request with its route.
  \<^item> Concurrency inside a service call: a call is one step of \<open>serves\<close>; \<open>ResetPassword\<close>, whose check and transaction can be
    interleaved with other requests, also runs in its two parts.  The clock stands still during a call.
  \<^item> Infinities, NaN and subnormal floats, fused multiplication and addition, exhaustion of memory; times are unbounded numbers of nanoseconds.
  \<^item> Links and different spellings of paths; tables no service writes to.
  \<^item> The types nothing uses in internal/worldgen/cartesian/types.go, and internal/testdb, which makes databases for tests.
\<close>

end
